(* ===== verification/Prelude.thy ===== *)
theory Prelude
  imports Main "HOL-Library.AList" "HOL-Library.Multiset" "HOL-Library.Char_ord"
    "HOL-Library.List_Lexorder"
begin

text \<open>
  Shared ground of the development: the types every component uses for Go's
  strings, instants and results, the theorem collections, and the generic lemmas
  on lists, options and maps.

  A Go string is a sequence of bytes, which is HOL's \<^typ>\<open>string\<close> (a list of
  8-bit characters). A \<open>time.Time\<close> is an instant counted in nanoseconds from the
  Unix epoch; the zero \<open>time.Time\<close> is the first of January of year 1, so it is an
  ordinary value of the type that \<open>IsZero\<close> recognises. A nil pointer is
  \<^const>\<open>None\<close>. A function that returns an error returns a value of a sum type with
  the error on the left.
\<close>

type_synonym gotime = int

type_synonym duration = int

definition zero_time :: gotime where
  "zero_time = -62135596800 * 1000000000"

definition IsZero :: "gotime \<Rightarrow> bool" where
  "IsZero t \<longleftrightarrow> t = zero_time"

abbreviation is_ok :: "'e + 'a \<Rightarrow> bool" where
  "is_ok x \<equiv> \<not> isl x"

text \<open>Theorem collections: definitions unfolded by the operation proofs of the run
  store, and the facts that say which fields an operation leaves alone.\<close>

named_theorems store_op_defs
named_theorems frame_simps
named_theorems policy_defs

section \<open>Lists\<close>

lemma nth_list_update_if:
  "i < length xs \<Longrightarrow> xs[j := v] ! i = (if i = j then v else xs ! i)"
  by (cases "i = j") simp_all

lemma sum_list_update_int:
  fixes xs :: "int list"
  assumes "i < length xs"
  shows "sum_list (xs[i := v]) = sum_list xs - xs ! i + v"
  using assms
proof (induction xs arbitrary: i)
  case Nil
  then show ?case by simp
next
  case (Cons x xs)
  then show ?case by (cases i) auto
qed

lemma sum_list_map_update:
  fixes f :: "'a \<Rightarrow> nat"
  assumes "i < length xs"
  shows "sum_list (map f (xs[i := v])) + f (xs ! i) = sum_list (map f xs) + f v"
  using assms
proof (induction xs arbitrary: i)
  case Nil
  then show ?case by simp
next
  case (Cons x xs)
  then show ?case by (cases i) auto
qed

lemma count_list_update:
  "i < length xs \<Longrightarrow>
     count_list (xs[i := v]) y + (if xs ! i = y then 1 else 0) = count_list xs y + (if v = y then 1 else 0)"
proof (induction xs arbitrary: i)
  case Nil
  then show ?case by simp
next
  case (Cons x xs)
  show ?case
  proof (cases i)
    case (Suc k)
    then show ?thesis using Cons.IH [of k] Cons.prems by auto
  qed auto
qed

lemma filter_upt_eq_Nil_conv:
  "filter P [0..<n] = [] \<longleftrightarrow> (\<forall>i<n. \<not> P i)"
  by (auto simp: filter_empty_conv)

lemma card_eq_fullI:
  assumes "A \<subseteq> {..<n::nat}" and "card A = n"
  shows "A = {..<n}"
  using assms by (intro card_subset_eq) auto

lemma distinct_length_full:
  assumes "distinct xs" and "set xs \<subseteq> {..<n::nat}" and "length xs = n"
  shows "set xs = {..<n}"
  using assms by (intro card_eq_fullI) (simp_all add: distinct_card)

section \<open>Options and maps\<close>

lemma set_map_filter: "set (List.map_filter f xs) = {y. \<exists>x\<in>set xs. f x = Some y}"
  by (induction xs) (auto simp: map_filter_simps split: option.splits)

lemma map_of_eq_None_iff_notin: "map_of al k = None \<longleftrightarrow> k \<notin> fst ` set al"
  by (induction al) auto

lemma option_case_if_Some:
  "(case x of None \<Rightarrow> a | Some y \<Rightarrow> b y) = c \<Longrightarrow> x = Some z \<Longrightarrow> b z = c"
  by simp

text \<open>An iteration over a Go map visits every key once, in an order the language leaves open.
  An operation that loops over a map takes the order as an argument; \<open>iterates\<close> says that it
  is one of the orders the loop may take.\<close>

definition iterates :: "'k list \<Rightarrow> ('k \<rightharpoonup> 'v) \<Rightarrow> bool" where
  "iterates ord m \<longleftrightarrow> distinct ord \<and> set ord = dom m"

lemma iterates_mem: "iterates ord m \<Longrightarrow> k \<in> set ord \<longleftrightarrow> m k \<noteq> None"
  by (auto simp: iterates_def)

end
