(* ===== verification/Tool.thy ===== *)
theory Tool
  imports Prelude
begin

text \<open>
  The execution tools of \<open>internal/run/run.go\<close>: the built-in set, the registry of
  tools an extension adds, and which names a submission accepts. The package
  variable \<open>extraTools\<close> is the argument \<open>extra\<close>, the registered names.
\<close>

definition ToolAnsible :: string where "ToolAnsible = ''ansible''"
definition ToolBash :: string where "ToolBash = ''bash''"
definition ToolTerraform :: string where "ToolTerraform = ''terraform''"
definition ToolOpenTofu :: string where "ToolOpenTofu = ''opentofu''"
definition ToolPython :: string where "ToolPython = ''python''"
definition ToolPowerShell :: string where "ToolPowerShell = ''powershell''"
definition ToolGo :: string where "ToolGo = ''go''"

lemmas tool_names = ToolAnsible_def ToolBash_def ToolTerraform_def ToolOpenTofu_def
  ToolPython_def ToolPowerShell_def ToolGo_def

definition NormalizeTool :: "string \<Rightarrow> string" where
  "NormalizeTool tool = (if tool = [] then ToolAnsible else tool)"

definition BuiltinTools :: "string list" where
  "BuiltinTools = [ToolAnsible, ToolBash, ToolTerraform, ToolOpenTofu, ToolPython,
     ToolPowerShell, ToolGo]"

fun builtin_scan :: "string \<Rightarrow> string list \<Rightarrow> bool" where
  "builtin_scan normalized [] = False"
| "builtin_scan normalized (t # ts) = (if normalized = t then True else builtin_scan normalized ts)"

definition builtinTool :: "string \<Rightarrow> bool" where
  "builtinTool tool = builtin_scan (NormalizeTool tool) BuiltinTools"

definition IsBuiltinTool :: "string \<Rightarrow> bool" where
  "IsBuiltinTool tool = builtinTool tool"

datatype tool_panic = EmptyToolName | DuplicateTool string

definition RegisterTool :: "string list \<Rightarrow> string \<Rightarrow> tool_panic + string list" where
  "RegisterTool extra name =
     (if name = [] then Inl EmptyToolName
      else if builtinTool name \<or> NormalizeTool name \<in> set extra then Inl (DuplicateTool name)
      else Inr (NormalizeTool name # extra))"

definition ValidTool :: "string list \<Rightarrow> string \<Rightarrow> bool" where
  "ValidTool extra tool \<longleftrightarrow> builtinTool tool \<or> NormalizeTool tool \<in> set extra"

lemma builtin_scan_iff: "builtin_scan t ts \<longleftrightarrow> t \<in> set ts"
  by (induction ts) auto

lemma NormalizeTool_nonempty [simp]: "NormalizeTool t \<noteq> []"
  by (simp add: NormalizeTool_def ToolAnsible_def)

lemma NormalizeTool_idem [simp]: "NormalizeTool (NormalizeTool t) = NormalizeTool t"
  by (simp add: NormalizeTool_def ToolAnsible_def)

lemma builtinTool_iff: "builtinTool t \<longleftrightarrow> NormalizeTool t \<in> set BuiltinTools"
  by (simp add: builtinTool_def builtin_scan_iff)

lemma RegisterTool_accepts:
  assumes "RegisterTool extra name = Inr extra'"
  shows "ValidTool extra' name" and "\<not> ValidTool extra name"
    and "\<And>t. ValidTool extra t \<Longrightarrow> ValidTool extra' t"
  using assms by (auto simp: RegisterTool_def ValidTool_def split: if_splits)

end
