(* ===== verification/Pipeline.thy ===== *)
theory Pipeline
  imports Tool
begin

text \<open>
  Pipelines: the step type of \<open>internal/run/pipeline.go\<close>, the graph a sequence is
  read as, and the validation of \<open>internal/run/pipeline_validate.go\<close> that decides
  which pipelines may be stored and run. Errors are modelled by the sentinel an
  \<open>errors.Is\<close> would find; the text around it is not modelled.
\<close>

record pipeline_step =
  ps_Name :: string
  ps_Type :: string
  ps_Description :: string
  ps_ApprovalTimeout :: int
  ps_Playbook :: string
  ps_Inventory :: string
  ps_Tool :: string
  ps_Command :: string
  ps_DryRun :: bool
  ps_ContinueOnFailure :: bool
  ps_Retries :: int
  ps_DependsOn :: "string list"
  ps_IfDenied :: "string list"

datatype pipeline_error =
    ErrNoSteps | ErrTooManySteps | ErrStepInput | ErrUnnamedStep | ErrDuplicateStep
  | ErrUnknownDependency | ErrDependencyCycle | ErrApprovalStep | ErrDenyPath

definition StepApproval :: string where "StepApproval = ''approval''"

definition MaxPipelineSteps :: nat where "MaxPipelineSteps = 500"

definition MaxApprovalDescription :: nat where "MaxApprovalDescription = 2000"

definition zero_step :: pipeline_step where
  "zero_step = \<lparr>ps_Name = [], ps_Type = [], ps_Description = [], ps_ApprovalTimeout = 0,
     ps_Playbook = [], ps_Inventory = [], ps_Tool = [], ps_Command = [], ps_DryRun = False,
     ps_ContinueOnFailure = False, ps_Retries = 0, ps_DependsOn = [], ps_IfDenied = []\<rparr>"

definition IsApproval :: "pipeline_step \<Rightarrow> bool" where
  "IsApproval s \<longleftrightarrow> ps_Type s = StepApproval"

fun HasApproval :: "pipeline_step list \<Rightarrow> bool" where
  "HasApproval [] = False"
| "HasApproval (s # ss) = (if IsApproval s then True else HasApproval ss)"

fun pipelineHasDependencies :: "pipeline_step list \<Rightarrow> bool" where
  "pipelineHasDependencies [] = False"
| "pipelineHasDependencies (s # ss) =
     (if ps_DependsOn s \<noteq> [] \<or> ps_IfDenied s \<noteq> [] then True else pipelineHasDependencies ss)"

text \<open>\<open>GraphSteps\<close>: each step after the first takes the name of the step before it as
  its only dependency, unless the pipeline declares dependencies of its own.\<close>

fun chain_steps :: "string \<Rightarrow> pipeline_step list \<Rightarrow> pipeline_step list" where
  "chain_steps prev [] = []"
| "chain_steps prev (s # ss) = s\<lparr>ps_DependsOn := [prev]\<rparr> # chain_steps (ps_Name s) ss"

definition GraphSteps :: "pipeline_step list \<Rightarrow> pipeline_step list" where
  "GraphSteps steps =
     (if pipelineHasDependencies steps then steps
      else case steps of [] \<Rightarrow> [] | s # ss \<Rightarrow> s # chain_steps (ps_Name s) ss)"

section \<open>Validation\<close>

definition validateApprovalStep :: "pipeline_step \<Rightarrow> pipeline_error option" where
  "validateApprovalStep s =
     (if ps_Name s = [] then Some ErrApprovalStep
      else if ps_Tool s \<noteq> [] \<or> ps_Playbook s \<noteq> [] \<or> ps_Command s \<noteq> [] \<or> ps_Inventory s \<noteq> [] \<or>
              ps_DryRun s \<or> ps_Retries s \<noteq> 0 then Some ErrApprovalStep
      else if ps_ContinueOnFailure s then Some ErrApprovalStep
      else if ps_ApprovalTimeout s < 0 then Some ErrApprovalStep
      else if length (ps_Description s) > MaxApprovalDescription then Some ErrApprovalStep
      else None)"

definition validateStepInput :: "string list \<Rightarrow> pipeline_step \<Rightarrow> pipeline_error option" where
  "validateStepInput extra s =
     (if ps_Type s = StepApproval then validateApprovalStep s
      else if ps_Type s \<noteq> [] then Some ErrApprovalStep
      else if ps_ApprovalTimeout s \<noteq> 0 \<or> ps_Description s \<noteq> [] then Some ErrApprovalStep
      else if \<not> ValidTool extra (ps_Tool s) then Some ErrStepInput
      else if NormalizeTool (ps_Tool s) = ToolAnsible then
        (if ps_Playbook s = [] then Some ErrStepInput else None)
      else if ps_Command s = [] then Some ErrStepInput
      else None)"

text \<open>The index of the steps by name, built in one pass that stops at the first
  unnamed or repeated name.\<close>

fun index_names ::
  "nat \<Rightarrow> (string \<rightharpoonup> nat) \<Rightarrow> pipeline_step list \<Rightarrow> pipeline_error + (string \<rightharpoonup> nat)" where
  "index_names i idx [] = Inr idx"
| "index_names i idx (s # ss) =
     (if ps_Name s = [] then Inl ErrUnnamedStep
      else if idx (ps_Name s) \<noteq> None then Inl ErrDuplicateStep
      else index_names (Suc i) (idx(ps_Name s \<mapsto> i)) ss)"

text \<open>The two loops over one step's edges. The state is \<open>indegree\<close> and \<open>dependents\<close>;
  an edge from \<open>j\<close> to \<open>i\<close> counts once in the first and once in the second.\<close>

type_synonym kahn_state = "int list \<times> nat list list"

definition add_edge :: "nat \<Rightarrow> nat \<Rightarrow> kahn_state \<Rightarrow> kahn_state" where
  "add_edge j i st = ((fst st)[i := fst st ! i + 1], (snd st)[j := snd st ! j @ [i]])"

fun add_depends ::
  "(string \<rightharpoonup> nat) \<Rightarrow> nat \<Rightarrow> string list \<Rightarrow> kahn_state \<Rightarrow> pipeline_error + kahn_state" where
  "add_depends idx i [] st = Inr st"
| "add_depends idx i (dep # deps) st =
     (case idx dep of
        None \<Rightarrow> Inl ErrUnknownDependency
      | Some j \<Rightarrow> if j = i then Inl ErrDependencyCycle
                  else add_depends idx i deps (add_edge j i st))"

fun add_denied ::
  "pipeline_step list \<Rightarrow> (string \<rightharpoonup> nat) \<Rightarrow> nat \<Rightarrow> string list \<Rightarrow> kahn_state \<Rightarrow>
     pipeline_error + kahn_state" where
  "add_denied steps idx i [] st = Inr st"
| "add_denied steps idx i (dep # deps) st =
     (case idx dep of
        None \<Rightarrow> Inl ErrUnknownDependency
      | Some j \<Rightarrow> if j = i then Inl ErrDependencyCycle
                  else if \<not> IsApproval (steps ! j) then Inl ErrDenyPath
                  else if dep \<in> set (ps_DependsOn (steps ! i)) then Inl ErrDenyPath
                  else add_denied steps idx i deps (add_edge j i st))"

fun add_edges ::
  "pipeline_step list \<Rightarrow> (string \<rightharpoonup> nat) \<Rightarrow> nat list \<Rightarrow> kahn_state \<Rightarrow>
     pipeline_error + kahn_state" where
  "add_edges steps idx [] st = Inr st"
| "add_edges steps idx (i # is) st =
     (case add_depends idx i (ps_DependsOn (steps ! i)) st of
        Inl e \<Rightarrow> Inl e
      | Inr st1 \<Rightarrow>
          (case add_denied steps idx i (ps_IfDenied (steps ! i)) st1 of
             Inl e \<Rightarrow> Inl e
           | Inr st2 \<Rightarrow> add_edges steps idx is st2))"

text \<open>Kahn's algorithm. The inner loop lowers the in-degree of every dependent of the
  step just taken and queues the ones that reach zero; the outer loop counts the steps
  it takes. An index past the end of the slice would panic in Go; \<open>relax\<close> skips it, and
  \<open>add_edges\<close> never produces one.\<close>

fun relax :: "nat list \<Rightarrow> int list \<times> nat list \<Rightarrow> int list \<times> nat list" where
  "relax [] st = st"
| "relax (d # ds) (ind, q) =
     (if d < length ind then
        (let ind' = ind[d := ind ! d - 1]
         in relax ds (ind', if ind' ! d = 0 then q @ [d] else q))
      else relax ds (ind, q))"

definition kahn_size :: "int list \<times> nat list \<Rightarrow> nat" where
  "kahn_size st = sum_list (map nat (fst st)) + length (snd st)"

lemma relax_size: "kahn_size (relax ds st) \<le> kahn_size st"
proof (induction ds st rule: relax.induct)
  case (1 st)
  then show ?case by simp
next
  case (2 d ds ind q)
  show ?case
  proof (cases "d < length ind")
    case True
    let ?ind = "ind[d := ind ! d - 1]"
    let ?q = "if ?ind ! d = 0 then q @ [d] else q"
    have "kahn_size (?ind, ?q) \<le> kahn_size (ind, q)"
      using sum_list_map_update [OF True, of nat "ind ! d - 1"] True
      by (auto simp: kahn_size_def)
    moreover have "kahn_size (relax ds (?ind, ?q)) \<le> kahn_size (?ind, ?q)"
      using "2.IH"(1) [OF True refl] by simp
    ultimately show ?thesis using True by (simp add: Let_def)
  next
    case False
    with "2.IH"(2) [OF False] show ?thesis by simp
  qed
qed

function kahn :: "nat list list \<Rightarrow> int list \<Rightarrow> nat list \<Rightarrow> nat \<Rightarrow> nat" where
  "kahn dependents ind [] seen = seen"
| "kahn dependents ind (i # q) seen =
     (let st = relax (dependents ! i) (ind, q)
      in kahn dependents (fst st) (snd st) (Suc seen))"
  by pat_completeness auto
termination
proof (relation "measure (\<lambda>(dependents, ind, q, seen). kahn_size (ind, q))")
  fix dependents :: "nat list list" and ind :: "int list" and i q
    and seen :: nat and st
  assume "st = relax (dependents ! i) (ind, q)"
  then have "kahn_size (fst st, snd st) \<le> kahn_size (ind, q)"
    using relax_size [of "dependents ! i" "(ind, q)"] by simp
  then show "((dependents, fst st, snd st, Suc seen), dependents, ind, i # q, seen)
      \<in> measure (\<lambda>(dependents, ind, q, seen). kahn_size (ind, q))"
    by (simp add: kahn_size_def)
qed simp

definition validatePipelineGraph :: "pipeline_step list \<Rightarrow> pipeline_error option" where
  "validatePipelineGraph steps =
     (let n = length steps in
      case index_names 0 Map.empty steps of
        Inl e \<Rightarrow> Some e
      | Inr idx \<Rightarrow>
          (case add_edges steps idx [0..<n] (replicate n 0, replicate n []) of
             Inl e \<Rightarrow> Some e
           | Inr (ind, dependents) \<Rightarrow>
               (let queue = filter (\<lambda>i. ind ! i = 0) [0..<n];
                    seen = kahn dependents ind queue 0
                in if seen \<noteq> n then Some ErrDependencyCycle else None)))"

fun first_step_error :: "string list \<Rightarrow> pipeline_step list \<Rightarrow> pipeline_error option" where
  "first_step_error extra [] = None"
| "first_step_error extra (s # ss) =
     (case validateStepInput extra s of Some e \<Rightarrow> Some e | None \<Rightarrow> first_step_error extra ss)"

definition ValidatePipeline :: "string list \<Rightarrow> pipeline_step list \<Rightarrow> pipeline_error option" where
  "ValidatePipeline extra steps =
     (if steps = [] then Some ErrNoSteps
      else if length steps > MaxPipelineSteps then Some ErrTooManySteps
      else case first_step_error extra steps of
             Some e \<Rightarrow> Some e
           | None \<Rightarrow> if pipelineHasDependencies steps \<or> HasApproval steps
                     then validatePipelineGraph steps else None)"

end
