(* ===== verification/Pipeline_Graph.thy ===== *)
theory Pipeline_Graph
  imports Pipeline
begin

text \<open>
  Correctness of the pipeline validation: what a legal dependency graph is, stated
  without the algorithm, and the proof that \<open>validatePipelineGraph\<close> accepts exactly
  the legal graphs with a topological order. The invariant of Kahn's loop says that
  the in-degree kept for a step is the number of its edges whose source has not been
  taken yet.
\<close>

section \<open>What a legal graph is\<close>

definition dep_names :: "pipeline_step \<Rightarrow> string list" where
  "dep_names s = ps_DependsOn s @ ps_IfDenied s"

definition dep_edge :: "pipeline_step list \<Rightarrow> nat \<Rightarrow> nat \<Rightarrow> bool" where
  "dep_edge steps j i \<longleftrightarrow> i < length steps \<and> j < length steps \<and>
     ps_Name (steps ! j) \<in> set (dep_names (steps ! i))"

definition topo_order :: "pipeline_step list \<Rightarrow> nat list \<Rightarrow> bool" where
  "topo_order steps ord \<longleftrightarrow> distinct ord \<and> set ord = {..<length steps} \<and>
     (\<forall>a<length ord. \<forall>j. dep_edge steps j (ord ! a) \<longrightarrow> j \<in> set (take a ord))"

definition names_legal :: "pipeline_step list \<Rightarrow> bool" where
  "names_legal steps \<longleftrightarrow> (\<forall>s\<in>set steps. ps_Name s \<noteq> []) \<and> distinct (map ps_Name steps)"

definition deps_legal :: "pipeline_step list \<Rightarrow> bool" where
  "deps_legal steps \<longleftrightarrow>
     (\<forall>s\<in>set steps. set (dep_names s) \<subseteq> ps_Name ` set steps \<and>
        set (ps_IfDenied s) \<inter> set (ps_DependsOn s) = {} \<and>
        (\<forall>t\<in>set steps. ps_Name t \<in> set (ps_IfDenied s) \<longrightarrow> IsApproval t))"

definition no_self_dep :: "pipeline_step list \<Rightarrow> bool" where
  "no_self_dep steps \<longleftrightarrow> (\<forall>s\<in>set steps. ps_Name s \<notin> set (dep_names s))"

lemma deps_legal_nth:
  "deps_legal steps \<longleftrightarrow> (\<forall>i<length steps.
     (\<forall>dep\<in>set (dep_names (steps ! i)). \<exists>j<length steps. ps_Name (steps ! j) = dep) \<and>
     (\<forall>dep\<in>set (ps_IfDenied (steps ! i)). dep \<notin> set (ps_DependsOn (steps ! i))) \<and>
     (\<forall>j<length steps. ps_Name (steps ! j) \<in> set (ps_IfDenied (steps ! i)) \<longrightarrow> IsApproval (steps ! j)))"
proof -
  have img: "dep \<in> ps_Name ` set steps \<longleftrightarrow> (\<exists>j<length steps. ps_Name (steps ! j) = dep)" for dep
    by (metis (no_types, lifting) imageE image_eqI in_set_conv_nth)
  show ?thesis
    unfolding deps_legal_def all_set_conv_all_nth [of steps] subset_iff img by blast
qed

lemma topo_order_pos:
  assumes "topo_order steps ord" and "i < length steps"
  obtains a where "a < length ord" and "ord ! a = i"
  using assms by (metis in_set_conv_nth lessThan_iff topo_order_def)

lemma distinct_nth_notin_take:
  "distinct xs \<Longrightarrow> a < length xs \<Longrightarrow> xs ! a \<notin> set (take a xs)"
  by (auto simp: in_set_conv_nth distinct_conv_nth)

section \<open>The name index\<close>

lemma index_names_Some:
  assumes "index_names i idx ss = Inr idx'"
  shows "idx' k = Some j \<longleftrightarrow> idx k = Some j \<or> (\<exists>a<length ss. j = i + a \<and> ps_Name (ss ! a) = k)"
  using assms
proof (induction ss arbitrary: i idx)
  case Nil
  then show ?case by simp
next
  case (Cons s ss)
  then have fresh: "idx (ps_Name s) = None"
    and rest: "index_names (Suc i) (idx(ps_Name s \<mapsto> i)) ss = Inr idx'"
    by (auto split: if_splits)
  have "idx' k = Some j \<longleftrightarrow> (idx(ps_Name s \<mapsto> i)) k = Some j \<or>
      (\<exists>a<length ss. j = Suc i + a \<and> ps_Name (ss ! a) = k)"
    by (rule Cons.IH [OF rest])
  also have "(idx(ps_Name s \<mapsto> i)) k = Some j \<longleftrightarrow> idx k = Some j \<or> (j = i \<and> ps_Name s = k)"
    using fresh by auto
  finally show ?case
    by (simp add: Ex_less_Suc2 disj_assoc)
qed

lemma index_names_legal:
  "(\<exists>idx'. index_names i idx ss = Inr idx') \<longleftrightarrow>
     (\<forall>s\<in>set ss. ps_Name s \<noteq> [] \<and> idx (ps_Name s) = None) \<and> distinct (map ps_Name ss)"
  by (induction ss arbitrary: i idx) (auto, metis image_eqI)

lemma index_names_idx:
  assumes "index_names 0 Map.empty steps = Inr idx"
  shows "names_legal steps"
    and "idx k = Some j \<longleftrightarrow> j < length steps \<and> ps_Name (steps ! j) = k"
  using assms index_names_legal [of 0 Map.empty steps] index_names_Some [OF assms, of k j]
  by (auto simp: names_legal_def)

section \<open>Edges\<close>

definition edge_counts :: "nat \<Rightarrow> kahn_state \<Rightarrow> bool" where
  "edge_counts n st \<longleftrightarrow> length (fst st) = n \<and> length (snd st) = n \<and>
     (\<forall>j<n. set (snd st ! j) \<subseteq> {..<n}) \<and>
     (\<forall>i<n. fst st ! i = int (\<Sum>j<n. count_list (snd st ! j) i))"

definition edge_set :: "kahn_state \<Rightarrow> (nat \<times> nat) set" where
  "edge_set st = {(j, i). j < length (snd st) \<and> i \<in> set (snd st ! j)}"

lemma edge_counts_init: "edge_counts n (replicate n 0, replicate n [])"
  by (simp add: edge_counts_def)

lemma edge_set_init: "edge_set (replicate n 0, replicate n []) = {}"
  by (auto simp: edge_set_def)

lemma add_edge_counts:
  assumes "edge_counts n st" and "j < n" and "i < n"
  shows "edge_counts n (add_edge j i st)"
    and "edge_set (add_edge j i st) = insert (j, i) (edge_set st)"
proof -
  have len: "length (fst st) = n" "length (snd st) = n"
    using assms(1) by (simp_all add: edge_counts_def)
  have row: "snd (add_edge j i st) ! k = (if k = j then snd st ! j @ [i] else snd st ! k)"
    if "k < n" for k
    using that len by (simp add: add_edge_def nth_list_update_if)
  have cnt: "(\<Sum>k<n. count_list (snd (add_edge j i st) ! k) m) =
      (\<Sum>k<n. count_list (snd st ! k) m) + (if m = i then 1 else 0)" if "m < n" for m
  proof -
    have "(\<Sum>k<n. count_list (snd (add_edge j i st) ! k) m) =
        (\<Sum>k<n. count_list (snd st ! k) m + (if k = j then (if m = i then 1 else 0) else 0))"
      by (rule sum.cong) (auto simp: row)
    also have "\<dots> = (\<Sum>k<n. count_list (snd st ! k) m) + (if m = i then 1 else 0)"
      using assms(2) by (simp add: sum.distrib)
    finally show ?thesis .
  qed
  have "fst (add_edge j i st) ! m = int (\<Sum>k<n. count_list (snd (add_edge j i st) ! k) m)"
    if "m < n" for m
  proof -
    have "fst (add_edge j i st) ! m = fst st ! m + (if m = i then 1 else 0)"
      using that len assms(3) by (simp add: add_edge_def nth_list_update_if)
    also have "\<dots> = int (\<Sum>k<n. count_list (snd st ! k) m) + (if m = i then 1 else 0)"
      using assms(1) that by (simp add: edge_counts_def)
    finally show ?thesis using cnt [OF that] by simp
  qed
  moreover have "set (snd (add_edge j i st) ! k) \<subseteq> {..<n}" if "k < n" for k
    using that assms by (auto simp: row edge_counts_def)
  moreover have "length (fst (add_edge j i st)) = n" "length (snd (add_edge j i st)) = n"
    using len by (simp_all add: add_edge_def)
  ultimately show "edge_counts n (add_edge j i st)" by (simp add: edge_counts_def)
  have l: "length (snd (add_edge j i st)) = n" using len by (simp add: add_edge_def)
  show "edge_set (add_edge j i st) = insert (j, i) (edge_set st)"
    using assms(2) len by (auto simp: edge_set_def l row split: if_splits)
qed

lemma add_depends_Inr:
  assumes "edge_counts n st" and "i < n" and "\<And>k j. idx k = Some j \<Longrightarrow> j < n"
    and "add_depends idx i deps st = Inr st'"
  shows "edge_counts n st' \<and> edge_set st' = edge_set st \<union> {(j, i) |j dep. dep \<in> set deps \<and> idx dep = Some j} \<and>
    (\<forall>dep\<in>set deps. idx dep \<noteq> None \<and> idx dep \<noteq> Some i)"
  using assms(1,4)
proof (induction deps arbitrary: st)
  case Nil
  then show ?case by simp
next
  case (Cons dep deps)
  then obtain j where j: "idx dep = Some j" "j \<noteq> i"
    and rest: "add_depends idx i deps (add_edge j i st) = Inr st'"
    by (auto split: option.splits if_splits)
  have "j < n" using assms(3) j(1) .
  note e = add_edge_counts [OF Cons.prems(1) this assms(2)]
  show ?case using Cons.IH [OF e(1) rest] e(2) j by auto
qed

lemma add_denied_Inr:
  assumes "edge_counts n st" and "i < n" and "\<And>k j. idx k = Some j \<Longrightarrow> j < n"
    and "add_denied steps idx i deps st = Inr st'"
  shows "edge_counts n st' \<and> edge_set st' = edge_set st \<union> {(j, i) |j dep. dep \<in> set deps \<and> idx dep = Some j} \<and>
    (\<forall>dep\<in>set deps. \<exists>j. idx dep = Some j \<and> j \<noteq> i \<and> IsApproval (steps ! j) \<and>
       dep \<notin> set (ps_DependsOn (steps ! i)))"
  using assms(1,4)
proof (induction deps arbitrary: st)
  case Nil
  then show ?case by simp
next
  case (Cons dep deps)
  then obtain j where j: "idx dep = Some j" "j \<noteq> i" "IsApproval (steps ! j)"
      "dep \<notin> set (ps_DependsOn (steps ! i))"
    and rest: "add_denied steps idx i deps (add_edge j i st) = Inr st'"
    by (auto split: option.splits if_splits)
  have "j < n" using assms(3) j(1) .
  note e = add_edge_counts [OF Cons.prems(1) this assms(2)]
  show ?case using Cons.IH [OF e(1) rest] e(2) j by auto
qed

lemma add_edges_Inr:
  assumes "edge_counts n st" and "set is \<subseteq> {..<n}" and "\<And>k j. idx k = Some j \<Longrightarrow> j < n"
    and "add_edges steps idx is st = Inr st'"
  shows "edge_counts n st' \<and>
    edge_set st' = edge_set st \<union>
      {(j, i) |j i dep. i \<in> set is \<and> dep \<in> set (dep_names (steps ! i)) \<and> idx dep = Some j} \<and>
    (\<forall>i\<in>set is. (\<forall>dep\<in>set (dep_names (steps ! i)). idx dep \<noteq> None) \<and>
       (\<forall>dep\<in>set (ps_IfDenied (steps ! i)). dep \<notin> set (ps_DependsOn (steps ! i)) \<and>
          IsApproval (steps ! the (idx dep))))"
  using assms(1,2,4)
proof (induction "is" arbitrary: st)
  case Nil
  then show ?case by simp
next
  case (Cons i "is")
  from Cons.prems(3) obtain st1 st2
    where a: "add_depends idx i (ps_DependsOn (steps ! i)) st = Inr st1"
      and b: "add_denied steps idx i (ps_IfDenied (steps ! i)) st1 = Inr st2"
      and c: "add_edges steps idx is st2 = Inr st'"
    by (auto split: sum.splits)
  have i: "i < n" and sub: "set is \<subseteq> {..<n}" using Cons.prems(2) by auto
  note A = add_depends_Inr [OF Cons.prems(1) i assms(3) a]
  note B = add_denied_Inr [OF conjunct1 [OF A] i assms(3) b]
  note C = Cons.IH [OF conjunct1 [OF B] sub c]
  show ?case using A B C by (fastforce simp: dep_names_def)
qed

lemma add_depends_total:
  assumes "\<forall>dep\<in>set deps. \<exists>j. idx dep = Some j \<and> j \<noteq> i"
  shows "is_ok (add_depends idx i deps st)"
  using assms by (induction deps arbitrary: st) (auto simp: add_edge_def)

lemma add_denied_total:
  assumes "\<forall>dep\<in>set deps. \<exists>j. idx dep = Some j \<and> j \<noteq> i \<and> IsApproval (steps ! j) \<and>
    dep \<notin> set (ps_DependsOn (steps ! i))"
  shows "is_ok (add_denied steps idx i deps st)"
  using assms by (induction deps arbitrary: st) (auto simp: add_edge_def)

lemma add_edges_total:
  assumes "\<forall>i\<in>set is. (\<forall>dep\<in>set (dep_names (steps ! i)). \<exists>j. idx dep = Some j \<and> j \<noteq> i) \<and>
    (\<forall>dep\<in>set (ps_IfDenied (steps ! i)). dep \<notin> set (ps_DependsOn (steps ! i)) \<and>
       IsApproval (steps ! the (idx dep)))"
  shows "is_ok (add_edges steps idx is st)"
  using assms
proof (induction "is" arbitrary: st)
  case Nil
  then show ?case by simp
next
  case (Cons i "is")
  obtain st1 where a: "add_depends idx i (ps_DependsOn (steps ! i)) st = Inr st1"
    using add_depends_total [of "ps_DependsOn (steps ! i)" idx i st] Cons.prems
    by (cases "add_depends idx i (ps_DependsOn (steps ! i)) st") (auto simp: dep_names_def)
  have "\<forall>dep\<in>set (ps_IfDenied (steps ! i)). \<exists>j. idx dep = Some j \<and> j \<noteq> i \<and>
      IsApproval (steps ! j) \<and> dep \<notin> set (ps_DependsOn (steps ! i))"
    using Cons.prems by (fastforce simp: dep_names_def)
  from add_denied_total [OF this, of st1]
  obtain st2 where b: "add_denied steps idx i (ps_IfDenied (steps ! i)) st1 = Inr st2"
    by (cases "add_denied steps idx i (ps_IfDenied (steps ! i)) st1") auto
  have "is_ok (add_edges steps idx is st2)" using Cons.IH Cons.prems by simp
  with a b show ?case by simp
qed

section \<open>Kahn's algorithm\<close>

lemma relax_correct:
  assumes "\<forall>d\<in>set ds. d < length ind"
    and "\<forall>i<length ind. int (count_list ds i) \<le> ind ! i"
    and "distinct q" and "\<forall>i\<in>set q. i < length ind \<and> ind ! i = 0"
    and "relax ds (ind, q) = (ind', q')"
  shows "length ind' = length ind \<and> (\<forall>i<length ind. ind' ! i = ind ! i - int (count_list ds i)) \<and>
    distinct q' \<and> set q' = set q \<union> {i \<in> set ds. ind' ! i = 0}"
  using assms
proof (induction ds arbitrary: ind q)
  case Nil
  then show ?case by simp
next
  case (Cons d ds)
  let ?ind = "ind[d := ind ! d - 1]"
  let ?q = "if ?ind ! d = 0 then q @ [d] else q"
  have d: "d < length ind" using Cons.prems(1) by simp
  have pos: "ind ! d \<ge> 1" using Cons.prems(2) d by fastforce
  have dq: "d \<notin> set q" using Cons.prems(4) pos by fastforce
  have le: "\<forall>i<length ?ind. int (count_list ds i) \<le> ?ind ! i"
    using Cons.prems(2) by (fastforce simp: nth_list_update_if split: if_splits)
  have run: "relax ds (?ind, ?q) = (ind', q')"
    using Cons.prems(5) d by (simp add: Let_def)
  have "\<forall>i\<in>set ?q. i < length ?ind \<and> ?ind ! i = 0"
    using Cons.prems(4) dq d by (auto simp: nth_list_update_if)
  with Cons.IH [of ?ind ?q] run le Cons.prems(1,3) dq d
  have IH: "length ind' = length ind"
      "\<forall>i<length ind. ind' ! i = ?ind ! i - int (count_list ds i)"
      "distinct q'" "set q' = set ?q \<union> {i \<in> set ds. ind' ! i = 0}"
    by auto
  have vals: "\<forall>i<length ind. ind' ! i = ind ! i - int (count_list (d # ds) i)"
    using IH(2) d by (auto simp: nth_list_update_if)
  have "d \<in> set ?q \<longleftrightarrow> ?ind ! d = 0" using dq by auto
  moreover have "ind' ! d = 0" if "?ind ! d = 0"
  proof -
    have "count_list ds d = 0"
      using le d that by (metis le_zero_eq length_list_update of_nat_0 of_nat_le_iff of_nat_le_0_iff)
    with IH(2) d that show ?thesis by simp
  qed
  moreover have "?ind ! d = 0" if "ind' ! d = 0" "d \<notin> set ds"
    using IH(2) d that by (simp add: count_notin)
  ultimately have "set q' = set q \<union> {i \<in> set (d # ds). ind' ! i = 0}"
    using IH(4) by (auto split: if_splits)
  with IH vals show ?case by simp
qed

definition kahn_inv :: "nat \<Rightarrow> nat list list \<Rightarrow> nat list \<Rightarrow> nat list \<Rightarrow> int list \<Rightarrow> bool" where
  "kahn_inv n dependents taken q ind \<longleftrightarrow>
     length ind = n \<and> length dependents = n \<and> (\<forall>j<n. set (dependents ! j) \<subseteq> {..<n}) \<and>
     distinct (taken @ q) \<and> set (taken @ q) = {i. i < n \<and> ind ! i = 0} \<and>
     (\<forall>i<n. ind ! i = int (\<Sum>j\<in>{..<n} - set taken. count_list (dependents ! j) i)) \<and>
     (\<forall>a<length taken. \<forall>j<n. taken ! a \<in> set (dependents ! j) \<longrightarrow> j \<in> set (take a taken))"

lemma kahn_inv_step:
  assumes inv: "kahn_inv n dependents taken (i # q) ind"
    and run: "relax (dependents ! i) (ind, q) = (ind', q')"
  shows "kahn_inv n dependents (taken @ [i]) q' ind'"
proof -
  note I = inv [unfolded kahn_inv_def]
  have i: "i < n" "ind ! i = 0" "i \<notin> set taken" using I by auto
  have split: "(\<Sum>j\<in>{..<n} - set taken. count_list (dependents ! j) m) =
      count_list (dependents ! i) m + (\<Sum>j\<in>{..<n} - set (taken @ [i]). count_list (dependents ! j) m)"
    for m
  proof -
    have eq: "{..<n} - set taken = insert i ({..<n} - set (taken @ [i]))" using i by auto
    have "finite ({..<n} - set (taken @ [i]))" and "i \<notin> {..<n} - set (taken @ [i])" by simp_all
    then show ?thesis unfolding eq by (rule sum.insert)
  qed
  have pre: "\<forall>m<length ind. int (count_list (dependents ! i) m) \<le> ind ! m"
    using I split by (auto simp: sum_nonneg)
  have R: "length ind' = length ind"
      "\<forall>m<length ind. ind' ! m = ind ! m - int (count_list (dependents ! i) m)"
      "distinct q'" "set q' = set q \<union> {m \<in> set (dependents ! i). ind' ! m = 0}"
    using relax_correct [OF _ pre _ _ run] I i by auto
  have vals: "\<forall>m<n. ind' ! m = int (\<Sum>j\<in>{..<n} - set (taken @ [i]). count_list (dependents ! j) m)"
    using R(2) I split by auto
  have zero_old: "ind ! m = 0 \<Longrightarrow> m < n \<Longrightarrow> ind' ! m = 0" for m
    using R(2) I pre by (metis diff_zero le_zero_eq of_nat_0 of_nat_le_0_iff)
  have zero_new: "m \<in> set (dependents ! i)" if "m < n" "ind' ! m = 0" "ind ! m \<noteq> 0" for m
    using R(2) I that by (metis count_notin diff_zero of_nat_0)
  have sub: "set (dependents ! i) \<subseteq> {..<n}" using I i by auto
  have old: "insert i (set taken \<union> set q) = {m. m < n \<and> ind ! m = 0}" using I by simp
  have zeros: "set (taken @ [i]) \<union> set q' = {m. m < n \<and> ind' ! m = 0}"
    using old R(4) zero_old zero_new sub by auto
  have disj: "set (taken @ [i]) \<inter> set q' = {}"
  proof -
    have "m \<notin> set (dependents ! i)" if "m \<in> set (taken @ [i])" for m
    proof
      assume m: "m \<in> set (dependents ! i)"
      have "m < n" "ind ! m = 0" using I that i by auto
      then have "count_list (dependents ! i) m = 0" using pre I by fastforce
      with m show False by (simp add: count_list_0_iff)
    qed
    with R(4) I show ?thesis by auto
  qed
  have order: "j \<in> set (take a (taken @ [i]))"
    if "a < length (taken @ [i])" "j < n" "(taken @ [i]) ! a \<in> set (dependents ! j)" for a j
  proof (cases "a < length taken")
    case True
    with that I show ?thesis by (auto simp: nth_append)
  next
    case False
    with that(1) have a: "a = length taken" by simp
    with that(3) have "i \<in> set (dependents ! j)" by (simp add: nth_append)
    then have "count_list (dependents ! j) i \<noteq> 0" by (simp add: count_list_0_iff)
    moreover have "\<forall>j\<in>{..<n} - set taken. count_list (dependents ! j) i = 0"
    proof -
      have "int (\<Sum>j\<in>{..<n} - set taken. count_list (dependents ! j) i) = 0" using I i by metis
      then show ?thesis by (simp only: of_nat_eq_0_iff) simp
    qed
    ultimately have "j \<in> set taken" using that(2) by (metis DiffI lessThan_iff)
    then show ?thesis using a by simp
  qed
  show ?thesis
    unfolding kahn_inv_def
    using I R(1,3) vals zeros disj order by (simp add: Un_assoc)
qed

lemma kahn_correct:
  assumes "kahn_inv n dependents taken q ind"
  shows "\<exists>taken' ind'. kahn dependents ind q (length taken) = length taken' \<and>
    kahn_inv n dependents taken' [] ind'"
  using assms
proof (induction dependents ind q "length taken" arbitrary: taken rule: kahn.induct)
  case (1 dependents ind)
  then show ?case by auto
next
  case (2 dependents ind i q)
  obtain ind' q' where run: "relax (dependents ! i) (ind, q) = (ind', q')" by fastforce
  have inv: "kahn_inv n dependents (taken @ [i]) q' ind'"
    by (rule kahn_inv_step [OF "2.prems" run])
  show ?case using "2.hyps" [of "(ind', q')" "taken @ [i]"] inv run by simp
qed

lemma kahn_inv_init:
  assumes "edge_counts n (ind, dependents)"
  shows "kahn_inv n dependents [] (filter (\<lambda>i. ind ! i = 0) [0..<n]) ind"
  using assms by (auto simp: kahn_inv_def edge_counts_def)

lemma kahn_full_topo:
  assumes "kahn_inv n dependents taken [] ind" and "length taken = n"
  shows "distinct taken \<and> set taken = {..<n} \<and>
    (\<forall>a<length taken. \<forall>j<n. taken ! a \<in> set (dependents ! j) \<longrightarrow> j \<in> set (take a taken))"
  using assms distinct_length_full [of taken n] by (auto simp: kahn_inv_def)

lemma kahn_partial_no_topo:
  assumes inv: "kahn_inv n dependents taken [] ind" and "length taken \<noteq> n"
    and ord: "distinct ord" "set ord = {..<n}"
      "\<forall>a<length ord. \<forall>j<n. ord ! a \<in> set (dependents ! j) \<longrightarrow> j \<in> set (take a ord)"
  shows False
proof -
  note I = inv [unfolded kahn_inv_def]
  have zeros: "set taken = {i. i < n \<and> ind ! i = 0}" and "distinct taken" using I by auto
  then have "set taken \<noteq> {..<n}" using assms(2) distinct_card by fastforce
  with zeros obtain m where "m < n" "m \<notin> set taken" by auto
  then obtain b where b: "b < length ord \<and> ord ! b \<notin> set taken"
    using ord(2) by (metis in_set_conv_nth lessThan_iff)
  define a where "a = (LEAST a. a < length ord \<and> ord ! a \<notin> set taken)"
  have a: "a < length ord" "ord ! a \<notin> set taken"
    using LeastI [of "\<lambda>a. a < length ord \<and> ord ! a \<notin> set taken", OF b] by (simp_all add: a_def)
  have least: "ord ! c \<in> set taken" if "c < a" for c
    using not_less_Least [of c "\<lambda>a. a < length ord \<and> ord ! a \<notin> set taken"] that a(1)
    by (auto simp: a_def)
  have an: "ord ! a < n" using a(1) ord(2) nth_mem by auto
  then have "ind ! (ord ! a) \<noteq> 0" using a(2) zeros by auto
  then have "(\<Sum>j\<in>{..<n} - set taken. count_list (dependents ! j) (ord ! a)) \<noteq> 0"
    using I an by auto
  then obtain j where j: "j \<in> {..<n} - set taken" "count_list (dependents ! j) (ord ! a) \<noteq> 0"
    by (meson sum.neutral)
  then have "ord ! a \<in> set (dependents ! j)" by (metis count_notin)
  with ord(3) a(1) j(1) have "j \<in> set (take a ord)" by auto
  then have "j \<in> set taken" using least by (auto simp: in_set_conv_nth)
  with j(1) show False by simp
qed

section \<open>The validation accepts exactly the legal graphs\<close>

lemma add_edges_dep_edge:
  assumes idx: "\<And>k j. idx k = Some j \<longleftrightarrow> j < length steps \<and> ps_Name (steps ! j) = k"
    and run: "add_edges steps idx [0..<length steps] (replicate (length steps) 0, replicate (length steps) []) =
      Inr (ind, dependents)"
  shows "edge_counts (length steps) (ind, dependents)"
    and "\<And>i j. j < length steps \<Longrightarrow> i \<in> set (dependents ! j) \<longleftrightarrow> dep_edge steps j i"
    and "deps_legal steps"
proof -
  let ?n = "length steps"
  have lt: "idx k = Some j \<Longrightarrow> j < ?n" for k j using idx by simp
  have sub: "set [0..<?n] \<subseteq> {..<?n}" by auto
  note E = add_edges_Inr [OF edge_counts_init sub lt run]
  show ec: "edge_counts ?n (ind, dependents)" using E by simp
  have es: "edge_set (ind, dependents) =
      {(j, i) |j i dep. i < ?n \<and> dep \<in> set (dep_names (steps ! i)) \<and> idx dep = Some j}"
    using E by (simp add: edge_set_init)
  show "i \<in> set (dependents ! j) \<longleftrightarrow> dep_edge steps j i" if j: "j < ?n" for i j
  proof -
    have "i \<in> set (dependents ! j) \<longleftrightarrow> (j, i) \<in> edge_set (ind, dependents)"
      using ec j by (simp add: edge_set_def edge_counts_def)
    also have "\<dots> \<longleftrightarrow> dep_edge steps j i" unfolding es using j by (auto simp: dep_edge_def idx)
    finally show ?thesis .
  qed
  have P: "\<forall>i<?n. (\<forall>dep\<in>set (dep_names (steps ! i)). idx dep \<noteq> None) \<and>
      (\<forall>dep\<in>set (ps_IfDenied (steps ! i)). dep \<notin> set (ps_DependsOn (steps ! i)) \<and>
          IsApproval (steps ! the (idx dep)))"
    using E by simp
  show "deps_legal steps"
    unfolding deps_legal_nth
  proof (intro allI impI conjI ballI)
    fix i dep assume "i < ?n" and "dep \<in> set (dep_names (steps ! i))"
    then obtain j where "idx dep = Some j" using P by blast
    then show "\<exists>j<?n. ps_Name (steps ! j) = dep" using idx by blast
  next
    fix i j assume "i < ?n" and j: "j < ?n" and "ps_Name (steps ! j) \<in> set (ps_IfDenied (steps ! i))"
    then have "IsApproval (steps ! the (idx (ps_Name (steps ! j))))" using P by blast
    moreover have "idx (ps_Name (steps ! j)) = Some j" using idx j by simp
    ultimately show "IsApproval (steps ! j)" by simp
  qed (use P in blast)
qed

lemma dep_edge_self: "no_self_dep steps \<Longrightarrow> \<not> dep_edge steps i i"
  by (auto simp: no_self_dep_def dep_edge_def)

lemma topo_no_self:
  assumes "topo_order steps ord"
  shows "no_self_dep steps"
proof -
  have "ps_Name (steps ! i) \<notin> set (dep_names (steps ! i))" if i: "i < length steps" for i
  proof
    assume "ps_Name (steps ! i) \<in> set (dep_names (steps ! i))"
    then have e: "dep_edge steps i i" using i by (simp add: dep_edge_def)
    obtain a where a: "a < length ord" "ord ! a = i"
      using topo_order_pos [OF assms i] .
    with e assms have "ord ! a \<in> set (take a ord)" by (auto simp: topo_order_def)
    then show False using distinct_nth_notin_take [of ord a] a(1) assms by (auto simp: topo_order_def)
  qed
  then show ?thesis by (metis in_set_conv_nth no_self_dep_def)
qed

lemma validatePipelineGraph_None_iff:
  "validatePipelineGraph steps = None \<longleftrightarrow>
     names_legal steps \<and> deps_legal steps \<and> (\<exists>ord. topo_order steps ord)"
proof
  assume ok: "validatePipelineGraph steps = None"
  let ?n = "length steps"
  obtain idx where idx: "index_names 0 Map.empty steps = Inr idx"
    using ok by (auto simp: validatePipelineGraph_def Let_def split: sum.splits)
  obtain ind dependents where run: "add_edges steps idx [0..<?n] (replicate ?n 0, replicate ?n []) =
      Inr (ind, dependents)"
    using ok idx by (fastforce simp: validatePipelineGraph_def Let_def split: sum.splits)
  note E = add_edges_dep_edge [OF index_names_idx(2) [OF idx] run]
  obtain taken ind' where k: "kahn dependents ind (filter (\<lambda>i. ind ! i = 0) [0..<?n]) 0 = length taken"
      "kahn_inv ?n dependents taken [] ind'"
    using kahn_correct [OF kahn_inv_init [OF E(1)]] by auto
  have "length taken = ?n"
    using ok idx run k(1) by (simp add: validatePipelineGraph_def Let_def split: if_splits)
  from kahn_full_topo [OF k(2) this] have "topo_order steps taken"
    using E(2) by (auto simp: topo_order_def dep_edge_def)
  then show "names_legal steps \<and> deps_legal steps \<and> (\<exists>ord. topo_order steps ord)"
    using index_names_idx(1) [OF idx] E(3) by blast
next
  assume R: "names_legal steps \<and> deps_legal steps \<and> (\<exists>ord. topo_order steps ord)"
  let ?n = "length steps"
  obtain ord where ord: "topo_order steps ord" using R by blast
  obtain idx where idx: "index_names 0 Map.empty steps = Inr idx"
    using R index_names_legal [of 0 Map.empty steps] by (auto simp: names_legal_def)
  note I = index_names_idx(2) [OF idx]
  note D = R [THEN conjunct2, THEN conjunct1, unfolded deps_legal_nth]
  have pre: "\<forall>i\<in>set [0..<?n]. (\<forall>dep\<in>set (dep_names (steps ! i)). \<exists>j. idx dep = Some j \<and> j \<noteq> i) \<and>
    (\<forall>dep\<in>set (ps_IfDenied (steps ! i)). dep \<notin> set (ps_DependsOn (steps ! i)) \<and>
       IsApproval (steps ! the (idx dep)))"
  proof (intro ballI conjI)
    fix i dep assume i: "i \<in> set [0..<?n]" and d: "dep \<in> set (dep_names (steps ! i))"
    then obtain j where j: "j < ?n" "ps_Name (steps ! j) = dep"
      using D by (metis atLeastLessThan_iff set_upt)
    have "j \<noteq> i" using topo_no_self [OF ord] i d j by (auto simp: no_self_dep_def)
    with j show "\<exists>j. idx dep = Some j \<and> j \<noteq> i" using I by blast
  next
    fix i dep assume i: "i \<in> set [0..<?n]" and d: "dep \<in> set (ps_IfDenied (steps ! i))"
    then show "dep \<notin> set (ps_DependsOn (steps ! i))" using D by (metis atLeastLessThan_iff set_upt)
    obtain j where j: "j < ?n" "ps_Name (steps ! j) = dep"
      using D i d by (metis UnCI atLeastLessThan_iff dep_names_def set_append set_upt)
    then have "idx dep = Some j" using I by blast
    then show "IsApproval (steps ! the (idx dep))"
      using D i d j by (metis atLeastLessThan_iff option.sel set_upt)
  qed
  obtain ind dependents where run: "add_edges steps idx [0..<?n] (replicate ?n 0, replicate ?n []) =
      Inr (ind, dependents)"
    using add_edges_total [OF pre, of "(replicate ?n 0, replicate ?n [])"]
    by (cases "add_edges steps idx [0..<?n] (replicate ?n 0, replicate ?n [])") auto
  note E = add_edges_dep_edge [OF I run]
  obtain taken ind' where k: "kahn dependents ind (filter (\<lambda>i. ind ! i = 0) [0..<?n]) 0 = length taken"
      "kahn_inv ?n dependents taken [] ind'"
    using kahn_correct [OF kahn_inv_init [OF E(1)]] by auto
  have "length taken = ?n"
  proof (rule ccontr)
    assume "length taken \<noteq> ?n"
    then show False
      using kahn_partial_no_topo [OF k(2), of ord] ord E(2) by (auto simp: topo_order_def)
  qed
  with idx run k(1) show "validatePipelineGraph steps = None"
    by (simp add: validatePipelineGraph_def Let_def)
qed

section \<open>The whole validation\<close>

lemma first_step_error_None_iff:
  "first_step_error extra ss = None \<longleftrightarrow> (\<forall>s\<in>set ss. validateStepInput extra s = None)"
  by (induction ss) (auto split: option.splits)

lemma HasApproval_iff: "HasApproval ss \<longleftrightarrow> (\<exists>s\<in>set ss. IsApproval s)"
  by (induction ss) auto

lemma pipelineHasDependencies_iff:
  "pipelineHasDependencies ss \<longleftrightarrow> (\<exists>s\<in>set ss. dep_names s \<noteq> [])"
  by (induction ss) (auto simp: dep_names_def)

text \<open>C13. A pipeline is accepted exactly when it has between one and 500 steps, every step
  is well formed on its own, and, when it is a graph or has an approval step, the names are
  unique and non-empty, every dependency names a step, a denied edge comes only from an
  approval and never doubles an ordinary edge, and there is an order of all the steps in
  which each step comes after everything it waits on.\<close>

theorem ValidatePipeline_accepts_iff:
  "ValidatePipeline extra steps = None \<longleftrightarrow>
     steps \<noteq> [] \<and> length steps \<le> MaxPipelineSteps \<and>
     (\<forall>s\<in>set steps. validateStepInput extra s = None) \<and>
     (pipelineHasDependencies steps \<or> HasApproval steps \<longrightarrow>
        names_legal steps \<and> deps_legal steps \<and> (\<exists>ord. topo_order steps ord))"
  unfolding first_step_error_None_iff [symmetric] validatePipelineGraph_None_iff [symmetric]
  by (cases "first_step_error extra steps") (auto simp: ValidatePipeline_def)

definition example_gate :: pipeline_step where
  "example_gate = zero_step\<lparr>ps_Name := ''gate'', ps_Type := ''approval'', ps_DependsOn := [''plan'']\<rparr>"

definition example_pipeline :: "pipeline_step list" where
  "example_pipeline =
     [zero_step\<lparr>ps_Name := ''plan'', ps_Tool := ''bash'', ps_Command := ''true''\<rparr>,
      example_gate,
      zero_step\<lparr>ps_Name := ''apply'', ps_Playbook := ''site.yml'', ps_DependsOn := [''gate'']\<rparr>]"

theorem ValidatePipeline_accepts_iff_witness:
  "ValidatePipeline [] example_pipeline = None \<and> HasApproval example_pipeline \<and>
   names_legal example_pipeline \<and> deps_legal example_pipeline"
proof -
  have ok: "ValidatePipeline [] example_pipeline = None" by code_simp
  have gate: "HasApproval example_pipeline" by code_simp
  from ok gate show ?thesis
    using ValidatePipeline_accepts_iff [of "[]" example_pipeline] by blast
qed

section \<open>A sequence read as a graph\<close>

lemma length_chain_steps [simp]: "length (chain_steps p ss) = length ss"
  by (induction ss arbitrary: p) auto

lemma chain_steps_nth:
  "i < length ss \<Longrightarrow> chain_steps p ss ! i =
     (ss ! i)\<lparr>ps_DependsOn := [if i = 0 then p else ps_Name (ss ! (i - 1))]\<rparr>"
  by (induction ss arbitrary: p i) (auto simp: nth_Cons split: nat.splits)

definition chained :: "pipeline_step list \<Rightarrow> nat \<Rightarrow> pipeline_step" where
  "chained steps i =
     (if i = 0 then steps ! 0
      else (steps ! i)\<lparr>ps_DependsOn := [ps_Name (steps ! (i - 1))]\<rparr>)"

lemma GraphSteps_chained:
  assumes "\<not> pipelineHasDependencies steps"
  shows "GraphSteps steps = map (chained steps) [0..<length steps]"
proof (cases steps)
  case Nil
  then show ?thesis by (simp add: GraphSteps_def)
next
  case (Cons s ss)
  with assms have "GraphSteps steps = s # chain_steps (ps_Name s) ss" by (simp add: GraphSteps_def)
  with Cons show ?thesis
    by (auto intro!: nth_equalityI simp: nth_Cons chain_steps_nth chained_def simp del: upt_Suc
        split: nat.splits)
qed

lemma chained_fields:
  assumes "\<not> pipelineHasDependencies steps" and "i < length steps"
  shows "ps_Name (chained steps i) = ps_Name (steps ! i)"
    and "ps_IfDenied (chained steps i) = []"
    and "ps_DependsOn (chained steps i) = (if i = 0 then [] else [ps_Name (steps ! (i - 1))])"
    and "IsApproval (chained steps i) \<longleftrightarrow> IsApproval (steps ! i)"
proof -
  have "dep_names (steps ! i) = []" "dep_names (steps ! 0) = []"
    using assms nth_mem [of i steps] nth_mem [of 0 steps] unfolding pipelineHasDependencies_iff
    by (metis, metis gr_implies_not0 not_gr_zero)
  then show "ps_Name (chained steps i) = ps_Name (steps ! i)"
    and "ps_IfDenied (chained steps i) = []"
    and "ps_DependsOn (chained steps i) = (if i = 0 then [] else [ps_Name (steps ! (i - 1))])"
    and "IsApproval (chained steps i) \<longleftrightarrow> IsApproval (steps ! i)"
    by (auto simp: chained_def dep_names_def IsApproval_def)
qed

lemma chained_legal:
  assumes seq: "\<not> pipelineHasDependencies steps" and names: "names_legal steps"
  defines "g \<equiv> map (chained steps) [0..<length steps]"
  shows "names_legal g" and "deps_legal g" and "topo_order g [0..<length steps]"
proof -
  let ?n = "length steps"
  have len: "length g = ?n" by (simp add: g_def)
  have nth: "g ! i = chained steps i" if "i < ?n" for i using that by (simp add: g_def)
  note F = chained_fields [OF seq]
  have nm: "map ps_Name g = map ps_Name steps"
    by (rule nth_equalityI) (simp_all add: len nth F)
  have "ps_Name ` set g = ps_Name ` set steps" by (metis nm set_map)
  then show "names_legal g"
    using names nm unfolding names_legal_def by (metis (mono_tags, lifting) image_iff)
  show "deps_legal g"
    unfolding deps_legal_nth len
  proof (intro allI impI conjI ballI)
    fix i dep assume i: "i < ?n" and "dep \<in> set (dep_names (g ! i))"
    then have "i \<noteq> 0" "dep = ps_Name (steps ! (i - 1))"
      by (auto simp: nth dep_names_def F split: if_splits)
    with i show "\<exists>j<?n. ps_Name (g ! j) = dep" by (intro exI [of _ "i - 1"]) (simp add: nth F)
  qed (simp_all add: nth F)
  have uniq: "j = k" if "j < ?n" "k < ?n" "ps_Name (steps ! j) = ps_Name (steps ! k)" for j k
    using names that by (auto simp: names_legal_def distinct_conv_nth)
  have "j < i" if "dep_edge g j i" for i j
  proof -
    have ij: "i < ?n" "j < ?n" "i \<noteq> 0" "ps_Name (steps ! j) = ps_Name (steps ! (i - 1))"
      using that by (auto simp: dep_edge_def len nth F dep_names_def split: if_splits)
    with uniq [of j "i - 1"] show ?thesis by simp
  qed
  then show "topo_order g [0..<?n]" by (auto simp: topo_order_def len)
qed

text \<open>The graph an accepted pipeline with an approval or with dependencies is walked as is
  itself a legal graph: reading a sequence as a chain never produces a graph that the
  validation would refuse, so the walker is never handed a pipeline it cannot finish.\<close>

theorem GraphSteps_of_valid_is_valid:
  assumes "ValidatePipeline extra steps = None"
    and "pipelineHasDependencies steps \<or> HasApproval steps"
  shows "validatePipelineGraph (GraphSteps steps) = None"
proof (cases "pipelineHasDependencies steps")
  case True
  then show ?thesis
    using assms by (auto simp: ValidatePipeline_def GraphSteps_def split: if_splits option.splits)
next
  case False
  have "validatePipelineGraph steps = None"
    using assms by (auto simp: ValidatePipeline_def split: if_splits option.splits)
  then have "names_legal steps" by (simp add: validatePipelineGraph_None_iff)
  from chained_legal [OF False this] show ?thesis
    unfolding GraphSteps_chained [OF False] validatePipelineGraph_None_iff by blast
qed

theorem GraphSteps_of_valid_is_valid_witness:
  "validatePipelineGraph (GraphSteps (map (ps_DependsOn_update (\<lambda>_. [])) example_pipeline)) = None"
  by (rule GraphSteps_of_valid_is_valid [of "[]"]; code_simp)

lemma add_depends_cycle_only:
  "\<forall>dep\<in>set deps. idx dep \<noteq> None \<Longrightarrow>
     add_depends idx i deps st = Inl e \<Longrightarrow> e = ErrDependencyCycle"
  by (induction deps arbitrary: st) (auto split: option.splits if_splits)

lemma add_denied_cycle_only:
  "\<forall>dep\<in>set deps. idx dep \<noteq> None \<and> IsApproval (steps ! the (idx dep)) \<and>
       dep \<notin> set (ps_DependsOn (steps ! i)) \<Longrightarrow>
     add_denied steps idx i deps st = Inl e \<Longrightarrow> e = ErrDependencyCycle"
  by (induction deps arbitrary: st) (auto split: option.splits if_splits)

lemma add_edges_cycle_only:
  assumes "\<forall>i\<in>set is. (\<forall>dep\<in>set (dep_names (steps ! i)). idx dep \<noteq> None) \<and>
      (\<forall>dep\<in>set (ps_IfDenied (steps ! i)). IsApproval (steps ! the (idx dep)) \<and>
         dep \<notin> set (ps_DependsOn (steps ! i)))"
    and "add_edges steps idx is st = Inl e"
  shows "e = ErrDependencyCycle"
  using assms
proof (induction "is" arbitrary: st)
  case Nil
  then show ?case by simp
next
  case (Cons i "is")
  have dep: "\<forall>dep\<in>set (ps_DependsOn (steps ! i)). idx dep \<noteq> None"
    and den: "\<forall>dep\<in>set (ps_IfDenied (steps ! i)). idx dep \<noteq> None \<and>
      IsApproval (steps ! the (idx dep)) \<and> dep \<notin> set (ps_DependsOn (steps ! i))"
    using Cons.prems(1) by (auto simp: dep_names_def)
  show ?case
    using Cons add_depends_cycle_only [OF dep] add_denied_cycle_only [OF den]
    by (auto split: sum.splits)
qed

text \<open>On a graph whose names and edges are legal the validation is a decision procedure for
  acyclicity: the only error left is the cycle error, and it is reported exactly when the
  steps have no order that respects every dependency.\<close>

theorem validatePipelineGraph_decides_acyclicity:
  assumes "names_legal steps" and "deps_legal steps"
  shows "validatePipelineGraph steps =
    (if \<exists>ord. topo_order steps ord then None else Some ErrDependencyCycle)"
proof (cases "\<exists>ord. topo_order steps ord")
  case True
  with assms show ?thesis by (simp add: validatePipelineGraph_None_iff)
next
  case False
  then have err: "validatePipelineGraph steps \<noteq> None" by (simp add: validatePipelineGraph_None_iff)
  obtain idx where idx: "index_names 0 Map.empty steps = Inr idx"
    using assms(1) index_names_legal [of 0 Map.empty steps] by (auto simp: names_legal_def)
  note I = index_names_idx(2) [OF idx]
  note D = assms(2) [unfolded deps_legal_nth]
  have "\<forall>i\<in>set [0..<length steps]. (\<forall>dep\<in>set (dep_names (steps ! i)). idx dep \<noteq> None) \<and>
      (\<forall>dep\<in>set (ps_IfDenied (steps ! i)). IsApproval (steps ! the (idx dep)) \<and>
         dep \<notin> set (ps_DependsOn (steps ! i)))"
  proof (intro ballI conjI)
    fix i dep assume i: "i \<in> set [0..<length steps]"
    { assume "dep \<in> set (dep_names (steps ! i))"
      then obtain j where "j < length steps" "ps_Name (steps ! j) = dep" using D i by force
      then show "idx dep \<noteq> None" using I by (metis option.distinct(1)) }
    { assume d: "dep \<in> set (ps_IfDenied (steps ! i))"
      then show "dep \<notin> set (ps_DependsOn (steps ! i))" using D i by force
      from d obtain j where j: "j < length steps" "ps_Name (steps ! j) = dep"
        using D i by (force simp: dep_names_def)
      then have "idx dep = Some j" using I by blast
      then show "IsApproval (steps ! the (idx dep))" using D i d j by force }
  qed
  from add_edges_cycle_only [OF this] err idx False show ?thesis
    by (auto simp: validatePipelineGraph_def Let_def split: sum.splits if_splits)
qed

theorem validatePipelineGraph_decides_acyclicity_witness:
  "validatePipelineGraph
     [zero_step\<lparr>ps_Name := ''a'', ps_DependsOn := [''b'']\<rparr>,
      zero_step\<lparr>ps_Name := ''b'', ps_DependsOn := [''a'']\<rparr>] = Some ErrDependencyCycle \<and>
   \<not> (\<exists>ord. topo_order
     [zero_step\<lparr>ps_Name := ''a'', ps_DependsOn := [''b'']\<rparr>,
      zero_step\<lparr>ps_Name := ''b'', ps_DependsOn := [''a'']\<rparr>] ord)"
  (is "validatePipelineGraph ?g = _ \<and> _")
proof -
  have c: "validatePipelineGraph ?g = Some ErrDependencyCycle" by code_simp
  have "names_legal ?g" and "deps_legal ?g"
    by (simp_all add: names_legal_def deps_legal_def dep_names_def zero_step_def)
  from validatePipelineGraph_decides_acyclicity [OF this] c show ?thesis
    by (metis option.distinct(1))
qed

end
