(* ===== verification/GoText.thy ===== *)
theory GoText
  imports Prelude
begin

text \<open>
  Text as Go sees it: a string is bytes, and the string functions of the standard
  library read it as UTF-8. This theory models the UTF-8 decoder as far as the
  repository uses it, the string functions built on it, dynamically typed values, and the text
  sanitising of \<open>internal/util/text.go\<close> that every store applies before a write.
\<close>

section \<open>UTF-8\<close>

definition byte_in :: "nat \<Rightarrow> nat \<Rightarrow> char \<Rightarrow> bool" where
  "byte_in lo hi c \<longleftrightarrow> lo \<le> of_char c \<and> of_char c \<le> hi"

text \<open>The width of the encoding at the front of a string, 0 when the bytes there are not
  a valid encoding. This is the acceptance table of \<open>unicode/utf8\<close>: overlong forms,
  surrogates and code points past the last one are refused.\<close>

definition second3 :: "char \<Rightarrow> char \<Rightarrow> bool" where
  "second3 a b \<longleftrightarrow>
     byte_in (if of_char a = (224 :: nat) then 160 else 128)
             (if of_char a = (237 :: nat) then 159 else 191) b"

definition second4 :: "char \<Rightarrow> char \<Rightarrow> bool" where
  "second4 a b \<longleftrightarrow>
     byte_in (if of_char a = (240 :: nat) then 144 else 128)
             (if of_char a = (244 :: nat) then 143 else 191) b"

fun rune_width :: "string \<Rightarrow> nat" where
  "rune_width [] = 0"
| "rune_width (a # s) =
     (if byte_in 0 127 a then 1
      else if byte_in 194 223 a then
        (case s of b # _ \<Rightarrow> if byte_in 128 191 b then 2 else 0 | _ \<Rightarrow> 0)
      else if byte_in 224 239 a then
        (case s of b # c # _ \<Rightarrow> if second3 a b \<and> byte_in 128 191 c then 3 else 0 | _ \<Rightarrow> 0)
      else if byte_in 240 244 a then
        (case s of b # c # d # _ \<Rightarrow>
           if second4 a b \<and> byte_in 128 191 c \<and> byte_in 128 191 d then 4 else 0
         | _ \<Rightarrow> 0)
      else 0)"

text \<open>The string cut into the pieces a \<open>range\<close> loop visits: whole encodings, and single
  bytes where the input is not UTF-8.\<close>

function runes :: "string \<Rightarrow> string list" where
  "runes s = (if s = [] then [] else
     let w = max 1 (rune_width s) in take w s # runes (drop w s))"
  by pat_completeness auto
termination by (relation "measure length") auto

declare runes.simps [simp del]

definition ValidString :: "string \<Rightarrow> bool" where
  "ValidString s \<longleftrightarrow> (\<forall>c\<in>set (runes s). rune_width c \<noteq> 0)"

definition replacement :: string where
  "replacement = [CHR 0xEF, CHR 0xBF, CHR 0xBD]"

fun to_valid :: "bool \<Rightarrow> string list \<Rightarrow> string" where
  "to_valid invalid [] = []"
| "to_valid invalid (c # cs) =
     (if rune_width c = 0 then (if invalid then [] else replacement) @ to_valid True cs
      else c @ to_valid False cs)"

definition ToValidUTF8 :: "string \<Rightarrow> string" where
  "ToValidUTF8 s = to_valid False (runes s)"

definition ReplaceByte :: "char \<Rightarrow> string \<Rightarrow> string \<Rightarrow> string" where
  "ReplaceByte old new s = concat (map (\<lambda>c. if c = old then new else [c]) s)"

section \<open>Sanitising\<close>

definition IsSafeText :: "string \<Rightarrow> bool" where
  "IsSafeText s \<longleftrightarrow> ValidString s \<and> CHR 0x00 \<notin> set s"

definition SafeText :: "string \<Rightarrow> string" where
  "SafeText s =
     (if IsSafeText s then s else ReplaceByte (CHR 0x00) replacement (ToValidUTF8 s))"

fun SafeTexts :: "string list \<Rightarrow> string list" where
  "SafeTexts [] = []"
| "SafeTexts (s # ss) =
     (if SafeText s \<noteq> s then SafeText s # map SafeText ss else s # SafeTexts ss)"

text \<open>A value of type \<open>any\<close> as the variables of a run carry it. A map is listed in the
  order an iteration visits it; Go leaves that order open. A \<open>float64\<close> is the integer \<open>m\<close> scaled by
  the power \<open>e\<close> of two, and \<open>AnyOther\<close> stands for every other dynamic type.\<close>

datatype goany =
    AnyStr string
  | AnyStrs "string list"
  | AnyList "goany list"
  | AnyStrMap "(string \<times> string) list"
  | AnyMap "(string \<times> goany) list"
  | AnyBool bool
  | AnyInt int
  | AnyFloat int int
  | AnyOther nat

definition SafeStringMap :: "(string \<times> string) list \<Rightarrow> (string \<times> string) list" where
  "SafeStringMap m = fold (\<lambda>(k, v) out. AList.update (SafeText k) (SafeText v) out) m []"

fun safeAny :: "goany \<Rightarrow> goany" where
  "safeAny (AnyStr t) = AnyStr (SafeText t)"
| "safeAny (AnyMap m) =
     AnyMap (fold (\<lambda>(k, v) out. AList.update (SafeText k) v out)
       (map (\<lambda>(k, v). (k, safeAny v)) m) [])"
| "safeAny (AnyList l) = AnyList (map safeAny l)"
| "safeAny (AnyStrs l) = AnyStrs l"
| "safeAny (AnyStrMap m) = AnyStrMap m"
| "safeAny (AnyBool b) = AnyBool b"
| "safeAny (AnyInt n) = AnyInt n"
| "safeAny (AnyFloat m e) = AnyFloat m e"
| "safeAny (AnyOther n) = AnyOther n"

definition SafeAnyMap :: "(string \<times> goany) list \<Rightarrow> (string \<times> goany) list" where
  "SafeAnyMap m = fold (\<lambda>(k, v) out. AList.update (SafeText k) (safeAny v) out) m []"

fun JoinStrings :: "string list \<Rightarrow> string \<Rightarrow> string" where
  "JoinStrings [] sep = []"
| "JoinStrings [w] sep = w"
| "JoinStrings (w # ws) sep = w @ sep @ JoinStrings ws sep"

definition JoinWords :: "string list \<Rightarrow> string \<Rightarrow> string" where
  "JoinWords words conjunction =
     (case words of
        [] \<Rightarrow> ''''
      | [a] \<Rightarrow> a
      | [a, b] \<Rightarrow> a @ '' '' @ conjunction @ '' '' @ b
      | _ \<Rightarrow> JoinStrings (butlast words) '', '' @ '', '' @ conjunction @ '' '' @ last words)"

section \<open>Decoder lemmas\<close>

lemma rune_width_le: "rune_width s \<le> length s"
  by (cases s) (auto split: list.splits)

lemma rune_width_append:
  assumes "rune_width s \<noteq> 0"
  shows "rune_width (take (rune_width s) s @ t) = rune_width s"
proof (cases s)
  case (Cons a u)
  then consider "byte_in 0 127 a" | "\<not> byte_in 0 127 a" "byte_in 194 223 a"
    | "\<not> byte_in 0 127 a" "\<not> byte_in 194 223 a" "byte_in 224 239 a"
    | "\<not> byte_in 0 127 a" "\<not> byte_in 194 223 a" "\<not> byte_in 224 239 a" "byte_in 240 244 a"
    using assms by (auto split: if_splits)
  then show ?thesis
    by cases (use Cons assms in \<open>simp_all split: list.splits if_splits\<close>)
qed (use assms in simp)

lemma byte_in_high: "byte_in lo hi c \<Longrightarrow> 128 \<le> lo \<Longrightarrow> 128 \<le> (of_char c :: nat)"
  by (simp add: byte_in_def)

lemma second_high: "second3 a b \<Longrightarrow> 128 \<le> (of_char b :: nat)" "second4 a b \<Longrightarrow> 128 \<le> (of_char b :: nat)"
  by (auto simp: second3_def second4_def byte_in_def split: if_splits)

lemma rune_width_high:
  assumes "1 < rune_width s"
  shows "\<forall>c\<in>set (take (rune_width s) s). 128 \<le> (of_char c :: nat)"
proof (cases s)
  case (Cons a u)
  then consider "byte_in 0 127 a" | "\<not> byte_in 0 127 a" "byte_in 194 223 a"
    | "\<not> byte_in 0 127 a" "\<not> byte_in 194 223 a" "byte_in 224 239 a"
    | "\<not> byte_in 0 127 a" "\<not> byte_in 194 223 a" "\<not> byte_in 224 239 a" "byte_in 240 244 a"
    using assms by (auto split: if_splits)
  then show ?thesis
    by cases (use Cons assms in \<open>simp_all add: byte_in_high second_high split: list.splits if_splits\<close>)
qed (use assms in simp)

definition is_rune :: "string \<Rightarrow> bool" where
  "is_rune c \<longleftrightarrow> c \<noteq> [] \<and> rune_width c = length c"

lemma rune_width_take_is_rune: "rune_width s \<noteq> 0 \<Longrightarrow> is_rune (take (rune_width s) s)"
  using rune_width_append [of s "[]"] rune_width_le [of s] by (auto simp: is_rune_def)

lemma is_rune_append: "is_rune c \<Longrightarrow> rune_width (c @ t) = length c"
  using rune_width_append [of c t] by (auto simp: is_rune_def)

lemma concat_runes [simp]: "concat (runes s) = s"
proof (induction s rule: runes.induct)
  case (1 s)
  show ?case
  proof (cases "s = []")
    case False
    then show ?thesis using 1 by (subst runes.simps) (simp add: Let_def)
  qed (simp add: runes.simps)
qed

lemma runes_nonempty: "c \<in> set (runes s) \<Longrightarrow> c \<noteq> []"
proof (induction s rule: runes.induct)
  case (1 s)
  show ?case
  proof (cases "s = []")
    case False
    then show ?thesis using 1 by (subst (asm) runes.simps) (auto simp: Let_def)
  qed (use 1 in \<open>simp add: runes.simps\<close>)
qed

lemma runes_piece: "c \<in> set (runes s) \<Longrightarrow> is_rune c \<or> rune_width c = 0"
proof (induction s rule: runes.induct)
  case (1 s)
  show ?case
  proof (cases "s = []")
    case True
    with 1 show ?thesis by (simp add: runes.simps)
  next
    case False
    let ?w = "max 1 (rune_width s)"
    have "runes s = take ?w s # runes (drop ?w s)"
      using False by (subst runes.simps) (simp add: Let_def)
    then consider "c = take ?w s" | "c \<in> set (runes (drop ?w s))" using 1 by auto
    then show ?thesis
    proof cases
      case 1
      then show ?thesis
      proof (cases "rune_width s = 0")
        case True
        then have "c = [hd s]" using 1 False by (simp add: take_Suc)
        moreover have "rune_width [hd s] = 1 \<or> rune_width [hd s] = 0" by simp
        ultimately show ?thesis by (auto simp: is_rune_def)
      next
        case nz: False
        then have "c = take (rune_width s) s" using 1 by (simp add: max_def)
        then show ?thesis using rune_width_take_is_rune [OF nz] by simp
      qed
    next
      case 2
      then show ?thesis using "1.IH" [OF False refl] by simp
    qed
  qed
qed

lemma runes_concat: "\<forall>c\<in>set cs. is_rune c \<Longrightarrow> runes (concat cs) = cs"
proof (induction cs)
  case Nil
  then show ?case by (simp add: runes.simps)
next
  case (Cons c cs)
  then have c: "is_rune c" by simp
  have w: "rune_width (c @ concat cs) = length c" by (rule is_rune_append [OF c])
  have "max 1 (length c) = length c" "c @ concat cs \<noteq> []"
    using c by (auto simp: is_rune_def max_def Suc_le_eq)
  with w Cons show ?case by (subst runes.simps) (simp add: Let_def)
qed

lemma is_rune_replacement: "is_rune replacement"
  by (simp add: is_rune_def replacement_def byte_in_def second3_def)

lemma is_rune_nul: "is_rune c \<Longrightarrow> CHR 0x00 \<in> set c \<Longrightarrow> c = [CHR 0x00]"
proof -
  assume c: "is_rune c" and n: "CHR 0x00 \<in> set c"
  have "\<not> 1 < rune_width c"
  proof
    assume "1 < rune_width c"
    then have "128 \<le> (of_char (CHR 0x00) :: nat)"
      using rune_width_high [of c] c n by (auto simp: is_rune_def)
    then show False by simp
  qed
  then have "length c = 1" using c by (cases c) (auto simp: is_rune_def)
  then show ?thesis using n by (cases c) auto
qed

section \<open>Sanitised text\<close>

lemma ValidString_concat: "\<forall>c\<in>set cs. is_rune c \<Longrightarrow> ValidString (concat cs)"
  by (auto simp: ValidString_def runes_concat is_rune_def)

lemma ValidString_runes: "ValidString s \<Longrightarrow> c \<in> set (runes s) \<Longrightarrow> is_rune c"
  using runes_piece [of c s] by (auto simp: ValidString_def)

lemma to_valid_runes:
  "\<forall>c\<in>set cs. is_rune c \<or> rune_width c = 0 \<Longrightarrow>
     \<exists>ds. to_valid b cs = concat ds \<and> (\<forall>d\<in>set ds. is_rune d)"
proof (induction cs arbitrary: b)
  case Nil
  then show ?case by (intro exI [of _ "[]"]) simp
next
  case (Cons c cs)
  have rest: "\<exists>ds. to_valid b' cs = concat ds \<and> (\<forall>d\<in>set ds. is_rune d)" for b'
    using Cons by simp
  show ?case
  proof (cases "rune_width c = 0")
    case True
    obtain ds where "to_valid True cs = concat ds" "\<forall>d\<in>set ds. is_rune d" using rest by blast
    with True show ?thesis
      by (intro exI [of _ "if b then ds else replacement # ds"]) (auto simp: is_rune_replacement)
  next
    case False
    obtain ds where "to_valid False cs = concat ds" "\<forall>d\<in>set ds. is_rune d" using rest by blast
    with False Cons.prems show ?thesis by (intro exI [of _ "c # ds"]) auto
  qed
qed

lemma ValidString_ToValidUTF8: "ValidString (ToValidUTF8 s)"
  using to_valid_runes [of "runes s" False] runes_piece ValidString_concat
  unfolding ToValidUTF8_def by metis

lemma ReplaceByte_append [simp]:
  "ReplaceByte x y (a @ b) = ReplaceByte x y a @ ReplaceByte x y b"
  by (simp add: ReplaceByte_def)

lemma ReplaceByte_notin: "x \<notin> set s \<Longrightarrow> ReplaceByte x y s = s"
  by (induction s) (auto simp: ReplaceByte_def)

lemma ReplaceByte_gone: "x \<notin> set y \<Longrightarrow> x \<notin> set (ReplaceByte x y s)"
  by (auto simp: ReplaceByte_def)

lemma ReplaceByte_concat:
  "\<forall>c\<in>set cs. is_rune c \<Longrightarrow>
     ReplaceByte (CHR 0x00) replacement (concat cs) =
       concat (map (\<lambda>c. if c = [CHR 0x00] then replacement else c) cs)"
proof (induction cs)
  case Nil
  then show ?case by (simp add: ReplaceByte_def)
next
  case (Cons c cs)
  have "ReplaceByte (CHR 0x00) replacement c = (if c = [CHR 0x00] then replacement else c)"
  proof (cases "c = [CHR 0x00]")
    case True
    then show ?thesis by (simp add: ReplaceByte_def)
  next
    case False
    then have "CHR 0x00 \<notin> set c" using Cons.prems is_rune_nul by auto
    then show ?thesis using False by (simp add: ReplaceByte_notin)
  qed
  with Cons show ?case by simp
qed

lemma ValidString_ReplaceByte:
  assumes "ValidString s"
  shows "ValidString (ReplaceByte (CHR 0x00) replacement s)"
proof -
  have r: "\<forall>c\<in>set (runes s). is_rune c" using ValidString_runes [OF assms] by blast
  have "ReplaceByte (CHR 0x00) replacement (concat (runes s)) =
      concat (map (\<lambda>c. if c = [CHR 0x00] then replacement else c) (runes s))"
    by (rule ReplaceByte_concat [OF r])
  moreover have "\<forall>c\<in>set (map (\<lambda>c. if c = [CHR 0x00] then replacement else c) (runes s)). is_rune c"
    using r is_rune_replacement by auto
  ultimately show ?thesis using ValidString_concat by (metis concat_runes)
qed

lemma nul_notin_replacement [simp]: "CHR 0x00 \<notin> set replacement"
  by (simp add: replacement_def)

lemma IsSafeText_SafeText [simp]: "IsSafeText (SafeText s)"
proof (cases "IsSafeText s")
  case False
  then show ?thesis
    using ReplaceByte_gone [OF nul_notin_replacement]
    by (simp add: SafeText_def IsSafeText_def ValidString_ReplaceByte [OF ValidString_ToValidUTF8])
qed (simp add: SafeText_def)

lemma SafeText_id [simp]: "IsSafeText s \<Longrightarrow> SafeText s = s"
  by (simp add: SafeText_def)

lemma SafeText_fixed_iff: "SafeText s = s \<longleftrightarrow> IsSafeText s"
  by (metis IsSafeText_SafeText SafeText_id)

lemma SafeTexts_map: "SafeTexts ss = map SafeText ss"
  by (induction ss) auto

text \<open>Every text of a value, keys included, that the sanitiser walks.\<close>

fun any_safe :: "goany \<Rightarrow> bool" where
  "any_safe (AnyStr t) \<longleftrightarrow> IsSafeText t"
| "any_safe (AnyMap m) \<longleftrightarrow> list_all (\<lambda>kv. IsSafeText (fst kv) \<and> snd kv) (map (\<lambda>(k, v). (k, any_safe v)) m)"
| "any_safe (AnyList l) \<longleftrightarrow> list_all id (map any_safe l)"
| "any_safe (AnyStrs l) = True"
| "any_safe (AnyStrMap m) = True"
| "any_safe (AnyBool b) = True"
| "any_safe (AnyInt n) = True"
| "any_safe (AnyFloat m e) = True"
| "any_safe (AnyOther n) = True"

lemma set_update_subset: "set (AList.update k v al) \<subseteq> insert (k, v) (set al)"
  by (induction al) auto

lemma fold_update_forall:
  assumes "\<forall>kv\<in>set out. P kv" and "\<forall>(k, v)\<in>set m. P (f k, g v)"
  shows "\<forall>kv\<in>set (fold (\<lambda>(k, v) out. AList.update (f k) (g v) out) m out). P kv"
  using assms
proof (induction m arbitrary: out)
  case Nil
  then show ?case by simp
next
  case (Cons kv m)
  obtain k v where kv: "kv = (k, v)" by fastforce
  have "\<forall>x\<in>set (AList.update (f k) (g v) out). P x"
    using Cons.prems kv set_update_subset [of "f k" "g v" out] by fastforce
  then show ?case using Cons kv by simp
qed

lemma any_safe_safeAny: "any_safe (safeAny v)"
proof (induction v rule: safeAny.induct)
  case (2 m)
  let ?m = "map (\<lambda>(k, v). (k, safeAny v)) m"
  have "\<forall>kv\<in>set (fold (\<lambda>(k, v) out. AList.update (SafeText k) v out) ?m []).
      IsSafeText (fst kv) \<and> any_safe (snd kv)"
    by (rule fold_update_forall [where g = "\<lambda>v. v"]) (use 2 in auto)
  then show ?case by (simp add: list_all_iff split_beta)
qed (auto simp: list_all_iff)

lemma SafeAnyMap_safe: "(k, v) \<in> set (SafeAnyMap m) \<Longrightarrow> IsSafeText k \<and> any_safe v"
proof -
  have "\<forall>kv\<in>set (SafeAnyMap m). IsSafeText (fst kv) \<and> any_safe (snd kv)"
    unfolding SafeAnyMap_def by (rule fold_update_forall) (auto simp: any_safe_safeAny)
  then show "(k, v) \<in> set (SafeAnyMap m) \<Longrightarrow> IsSafeText k \<and> any_safe v" by auto
qed

lemma SafeStringMap_safe: "(k, v) \<in> set (SafeStringMap m) \<Longrightarrow> IsSafeText k \<and> IsSafeText v"
proof -
  have "\<forall>kv\<in>set (SafeStringMap m). IsSafeText (fst kv) \<and> IsSafeText (snd kv)"
    unfolding SafeStringMap_def by (rule fold_update_forall) auto
  then show "(k, v) \<in> set (SafeStringMap m) \<Longrightarrow> IsSafeText k \<and> IsSafeText v" by auto
qed

end
