(* ===== verification/Run.thy ===== *)
theory Run
  imports GoText Pipeline
begin

text \<open>
  The run, the record every component works on (\<open>internal/run/run.go\<close>), with the
  records it carries. Fields keep their Go names. A nil pointer is \<^const>\<open>None\<close>, a
  nil and an empty slice are the same list, and a Go map is an association list in the
  order an iteration visits it. \<open>Run.Clone\<close> is the identity on values: the model passes
  values, so a copy and its original never share memory.
\<close>

section \<open>Status\<close>

text \<open>The status is a string in Go. A stored value outside the declared set is kept as
  \<open>StatusOther\<close>.\<close>

datatype status =
    StatusPending | StatusRunning | StatusSucceeded | StatusFailed | StatusCanceled
  | StatusInterrupted | StatusPendingApproval | StatusRejected | StatusOther string

definition StoredParked :: string where "StoredParked = ''parked''"
definition StoredDeciding :: string where "StoredDeciding = ''deciding''"

definition status_text :: "status \<Rightarrow> string" where
  "status_text s = (case s of
     StatusPending \<Rightarrow> ''pending'' | StatusRunning \<Rightarrow> ''running'' | StatusSucceeded \<Rightarrow> ''succeeded''
   | StatusFailed \<Rightarrow> ''failed'' | StatusCanceled \<Rightarrow> ''canceled''
   | StatusInterrupted \<Rightarrow> ''interrupted'' | StatusPendingApproval \<Rightarrow> ''pending_approval''
   | StatusRejected \<Rightarrow> ''rejected'' | StatusOther t \<Rightarrow> t)"

definition AllStatuses :: "status list" where
  "AllStatuses = [StatusPending, StatusRunning, StatusSucceeded, StatusFailed, StatusCanceled,
     StatusInterrupted, StatusPendingApproval, StatusRejected]"

definition status_of_text :: "string \<Rightarrow> status" where
  "status_of_text t =
     (case find (\<lambda>s. status_text s = t) AllStatuses of Some s \<Rightarrow> s | None \<Rightarrow> StatusOther t)"

definition StatusFromStored :: "string \<Rightarrow> status" where
  "StatusFromStored stored =
     (if stored = StoredParked \<or> stored = StoredDeciding then StatusPendingApproval
      else status_of_text stored)"

definition Terminal :: "status \<Rightarrow> bool" where
  "Terminal s = (case s of
     StatusSucceeded \<Rightarrow> True | StatusFailed \<Rightarrow> True | StatusCanceled \<Rightarrow> True
   | StatusInterrupted \<Rightarrow> True | StatusRejected \<Rightarrow> True | _ \<Rightarrow> False)"

lemma Terminal_simps [simp]:
  "Terminal StatusSucceeded" "Terminal StatusFailed" "Terminal StatusCanceled"
  "Terminal StatusInterrupted" "Terminal StatusRejected" "\<not> Terminal StatusPending"
  "\<not> Terminal StatusRunning" "\<not> Terminal StatusPendingApproval" "\<not> Terminal (StatusOther t)"
  by (simp_all add: Terminal_def)

definition KindSplit :: string where "KindSplit = ''split''"
definition KindPipeline :: string where "KindPipeline = ''pipeline''"
definition KindApproval :: string where "KindApproval = ''approval''"
definition KindSkippedFire :: string where "KindSkippedFire = ''skipped_fire''"

lemmas kind_names = KindSplit_def KindPipeline_def KindApproval_def KindSkippedFire_def

lemma kind_names_distinct [simp]:
  "KindPipeline \<noteq> KindApproval" "KindApproval \<noteq> KindPipeline" "KindSplit \<noteq> KindApproval"
  "KindApproval \<noteq> KindSplit" "KindSplit \<noteq> KindPipeline" "KindPipeline \<noteq> KindSplit"
  "KindApproval \<noteq> []" "KindSplit \<noteq> []" "KindPipeline \<noteq> []"
  by (simp_all add: kind_names)

section \<open>The records a run carries\<close>

record module_fetch =
  mf_Command :: string
  mf_ExitStatus :: int
  mf_Error :: string
  mf_ModulesDigest :: string

record dry_run_scan =
  ds_Step :: string
  ds_Tool :: string
  ds_Scanner :: string
  ds_Version :: int
  ds_Source :: string
  ds_Inputs :: "string list"
  ds_Findings :: "string list"
  ds_Unread :: "string list"
  ds_Classification :: string
  ds_Fetch :: "module_fetch option"

record sealed_digest =
  sd_Var :: string
  sd_SHA256 :: string

record policy_set =
  pset_Digest :: string
  pset_Count :: int
  pset_Rules :: "string list"

record inventory_resolution =
  ir_Kind :: string
  ir_Inputs :: "string list"
  ir_Hosts :: "string list"
  ir_Engine :: string
  ir_AnsibleCore :: string
  ir_AnsibleSource :: string
  ir_InputDigest :: string
  ir_ResolvedDigest :: string

record inventory_check =
  ic_AnsibleCore :: string
  ic_AnsibleSource :: string
  ic_InputDigest :: string
  ic_ResolvedDigest :: string
  ic_Differences :: "string list"

record inventory_snapshot =
  is_SealedSHA256 :: string
  is_ContentSHA256 :: string
  is_Hosts :: "string list"
  is_Dynamic :: bool
  is_DynamicReason :: string
  is_CredentialIDs :: "string list"

record risk =
  rk_Level :: string
  rk_Reasons :: "string list"

record reversibility =
  rv_Class :: string
  rv_Reasons :: "string list"

record notify_target =
  nt_Kind :: string
  nt_URL :: string
  nt_Key :: string
  nt_To :: string
  nt_OnFailure :: bool

record initiator =
  in_InitiatedBy :: string
  in_CredentialID :: string
  in_BoundTo :: string
  in_ProvisionedBy :: string
  in_ProvisionedByType :: string

record awaiting_step =
  aw_ID :: string
  aw_Name :: string
  aw_Description :: string
  aw_OnApprove :: "string list"
  aw_OnDeny :: "string list"
  aw_ExpiresAt :: "gotime option"

record attention_note =
  an_ID :: string
  an_Blocker :: string
  an_Summary :: string
  an_Reason :: string
  an_WhoCanAct :: string
  an_Next :: string
  an_Since :: gotime
  an_WaitingSeconds :: int
  an_ThresholdSeconds :: int
  an_ScheduleID :: string
  an_ScheduleName :: string
  an_Path :: string

section \<open>The run\<close>

record run =
  ID :: string
  Playbook :: string
  Inventory :: string
  Tool :: string
  Command :: string
  DryRun :: bool
  DryRunScans :: "dry_run_scan list"
  HoldNote :: string
  Status :: status
  ExitCode :: "int option"
  Error :: string
  Warning :: string
  CreatedAt :: gotime
  StartedAt :: "gotime option"
  EndedAt :: "gotime option"
  ParentID :: "string option"
  ShardIndex :: "int option"
  ShardCount :: "int option"
  Limit :: string
  Tags :: "string list"
  SkipTags :: "string list"
  Verbosity :: int
  Forks :: int
  DiffMode :: bool
  UseFactCache :: bool
  FactCacheTimeout :: int
  Kind :: string
  RetryOf :: "string option"
  Steps :: "pipeline_step list"
  StepName :: string
  StepIndex :: "int option"
  Attempt :: int
  ExtraVars :: "(string \<times> goany) list"
  SealedNames :: "string list"
  SealedVars :: "(string \<times> string) list"
  SealedDigests :: "sealed_digest list"
  Outputs :: "(string \<times> goany) list"
  ClaimedBy :: string
  ClaimedAt :: "gotime option"
  ClaimSecret :: string
  CancelRequested :: bool
  CredentialIDs :: "string list"
  ProjectID :: string
  CommitSHA :: string
  PolicySet :: "policy_set option"
  PinnedCommit :: string
  GitRef :: string
  InventoryID :: string
  InventoryResolution :: "inventory_resolution option"
  InventoryCheck :: "inventory_check option"
  InventorySnapshot :: "inventory_snapshot option"
  InventorySealed :: string
  ResolvedHosts :: "string list"
  OrgID :: string
  Queue :: string
  Image :: string
  PullCredentialID :: string
  ImageDigest :: string
  ProposedFrom :: string
  PlanDestroys :: "int option"
  PlanSHA256 :: string
  PlanSealed :: string
  HeldByPolicy :: string
  ApprovalRequested :: bool
  RequireDistinctApprover :: bool
  PolicyNotes :: "string list"
  AuditReceipt :: string
  ApprovedSpecDigest :: string
  ApprovedSpecBinding :: string
  SpecSeal :: string
  ResultSeal :: string
  Intent :: string
  Source :: string
  SourceID :: string
  TemplateID :: string
  Actor :: string
  ActorUserID :: string
  Account :: string
  ActorType :: string
  RerunOf :: string
  Labels :: "(string \<times> string) list"
  IdempotencyKey :: string
  Timeout :: int
  Risk :: "risk option"
  Reversibility :: "reversibility option"
  Notifications :: "notify_target list"
  Initiator :: "initiator option"
  RequireReason :: string
  DecisionID :: string
  DecisionClaim :: string
  AwaitingStep :: "awaiting_step option"
  Attention :: "attention_note option"

definition zero_run :: run where
  "zero_run = \<lparr>ID = [], Playbook = [], Inventory = [], Tool = [], Command = [], DryRun = False,
     DryRunScans = [], HoldNote = [], Status = StatusOther [], ExitCode = None, Error = [],
     Warning = [], CreatedAt = zero_time, StartedAt = None, EndedAt = None, ParentID = None,
     ShardIndex = None, ShardCount = None, Limit = [], Tags = [], SkipTags = [], Verbosity = 0,
     Forks = 0, DiffMode = False, UseFactCache = False, FactCacheTimeout = 0, Kind = [],
     RetryOf = None, Steps = [], StepName = [], StepIndex = None, Attempt = 0, ExtraVars = [],
     SealedNames = [], SealedVars = [], SealedDigests = [], Outputs = [], ClaimedBy = [],
     ClaimedAt = None, ClaimSecret = [], CancelRequested = False, CredentialIDs = [],
     ProjectID = [], CommitSHA = [], PolicySet = None, PinnedCommit = [], GitRef = [],
     InventoryID = [], InventoryResolution = None, InventoryCheck = None,
     InventorySnapshot = None, InventorySealed = [], ResolvedHosts = [], OrgID = [], Queue = [],
     Image = [], PullCredentialID = [], ImageDigest = [], ProposedFrom = [], PlanDestroys = None,
     PlanSHA256 = [], PlanSealed = [], HeldByPolicy = [], ApprovalRequested = False,
     RequireDistinctApprover = False, PolicyNotes = [], AuditReceipt = [],
     ApprovedSpecDigest = [], ApprovedSpecBinding = [], SpecSeal = [], ResultSeal = [],
     Intent = [], Source = [], SourceID = [], TemplateID = [], Actor = [], ActorUserID = [],
     Account = [], ActorType = [], RerunOf = [], Labels = [], IdempotencyKey = [], Timeout = 0,
     Risk = None, Reversibility = None, Notifications = [], Initiator = None,
     RequireReason = [], DecisionID = [], DecisionClaim = [], AwaitingStep = None,
     Attention = None\<rparr>"

end
