(* ===== verification/Approval.thy ===== *)
theory Approval
  imports Run Pipeline_Graph
begin

text \<open>
  Workflows waiting at an approval step (\<open>internal/run/approval.go\<close>): which workflows the
  lease sweep parks instead of interrupting. The memoised closure of the step graph is
  modelled with its memo table as explicit state, and the two passes over the steps as the
  code runs them.
\<close>

section \<open>Approval step records\<close>

definition stepIndex :: "run \<Rightarrow> int" where
  "stepIndex r = (case StepIndex r of None \<Rightarrow> 2 ^ 30 | Some i \<Rightarrow> i)"

text \<open>\<open>ApprovalSteps\<close> and \<open>PendingApprovalSteps\<close> on the step records \<open>children\<close> the store
  returned. \<open>sort_key\<close> is the stable sort of \<open>sort.SliceStable\<close>.\<close>

definition ApprovalSteps :: "run list \<Rightarrow> run list" where
  "ApprovalSteps children = sort_key stepIndex (filter (\<lambda>c. Kind c = KindApproval) children)"

definition PendingApprovalSteps :: "run list \<Rightarrow> run list" where
  "PendingApprovalSteps children =
     filter (\<lambda>s. Status s = StatusPendingApproval) (ApprovalSteps children)"

definition Started :: "run list \<Rightarrow> bool" where
  "Started children \<longleftrightarrow> children \<noteq> []"

section \<open>Transitive dependencies\<close>

fun name_index :: "nat \<Rightarrow> pipeline_step list \<Rightarrow> (string \<rightharpoonup> nat)" where
  "name_index i [] = Map.empty"
| "name_index i (s # ss) = (\<lambda>k. case name_index (Suc i) ss k of
     Some j \<Rightarrow> Some j | None \<Rightarrow> if ps_Name s = k then Some i else None)"

type_synonym closures = "bool list option list"

definition row :: "closures \<Rightarrow> nat \<Rightarrow> bool list" where
  "row cl i = (case cl ! i of None \<Rightarrow> [] | Some r \<Rightarrow> r)"

definition set_dep :: "nat \<Rightarrow> nat \<Rightarrow> closures \<Rightarrow> closures" where
  "set_dep i j cl = cl[i := Some ((row cl i)[j := True])]"

definition or_row :: "nat \<Rightarrow> nat \<Rightarrow> closures \<Rightarrow> closures" where
  "or_row i j cl = cl[i := Some (map2 (\<or>) (row cl i) (row cl j))]"

text \<open>The dependencies of a step by index, unknown names skipped.\<close>

definition dep_indices :: "pipeline_step list \<Rightarrow> (string \<rightharpoonup> nat) \<Rightarrow> nat \<Rightarrow> nat list" where
  "dep_indices graph byName i =
     map (the \<circ> byName) (filter (\<lambda>d. byName d \<noteq> None)
       (ps_DependsOn (graph ! i) @ ps_IfDenied (graph ! i)))"

text \<open>\<open>build\<close> with the memo table as state. A row is entered in the table before its
  dependencies are followed, so no row is built twice and the recursion is never deeper than
  the number of steps, which is the fuel \<open>stepClosures\<close> gives it.\<close>

fun build :: "nat \<Rightarrow> (nat \<Rightarrow> nat list) \<Rightarrow> nat \<Rightarrow> closures \<Rightarrow> closures" where
  "build 0 deps i cl = cl"
| "build (Suc fuel) deps i cl =
     (case cl ! i of
        Some _ \<Rightarrow> cl
      | None \<Rightarrow> fold (\<lambda>j cl. or_row i j (build fuel deps j (set_dep i j cl))) (deps i)
                  (cl[i := Some (replicate (length cl) False)]))"

definition stepClosures :: "pipeline_step list \<Rightarrow> (string \<rightharpoonup> nat) \<Rightarrow> closures" where
  "stepClosures graph byName =
     (let n = length graph in
      fold (build n (dep_indices graph byName)) [0..<n] (replicate n None))"

section \<open>The stall rule\<close>

datatype stallState = stallWaiting | stallDone | stallSkipped | stallAsking

definition actedOn :: "nat \<Rightarrow> run option list \<Rightarrow> closures \<Rightarrow> bool" where
  "actedOn i latest deps \<longleftrightarrow>
     (\<exists>j\<in>set [0..<length latest]. latest ! j \<noteq> None \<and> row deps j ! i)"

definition index_of :: "(string \<rightharpoonup> nat) \<Rightarrow> string \<Rightarrow> nat" where
  "index_of byName dep = (case byName dep of Some j \<Rightarrow> j | None \<Rightarrow> 0)"

definition record_status :: "run option \<Rightarrow> status" where
  "record_status c = (case c of Some r \<Rightarrow> Status r | None \<Rightarrow> StatusOther [])"

fun ready_depends :: "pipeline_step list \<Rightarrow> (string \<rightharpoonup> nat) \<Rightarrow> stallState list \<Rightarrow> run option list \<Rightarrow>
    string list \<Rightarrow> bool \<times> bool \<Rightarrow> bool \<times> bool" where
  "ready_depends graph byName state latest [] rb = rb"
| "ready_depends graph byName state latest (dep # deps) (ready, blocked) =
     (let j = index_of byName dep in
      ready_depends graph byName state latest deps
        (case state ! j of
           stallSkipped \<Rightarrow> (ready, True)
         | stallDone \<Rightarrow>
             (ready, blocked \<or>
                (record_status (latest ! j) \<noteq> StatusSucceeded \<and>
                 (IsApproval (graph ! j) \<or> \<not> ps_ContinueOnFailure (graph ! j))))
         | _ \<Rightarrow> (False, blocked)))"

fun ready_denied :: "(string \<rightharpoonup> nat) \<Rightarrow> stallState list \<Rightarrow> run option list \<Rightarrow>
    string list \<Rightarrow> bool \<times> bool \<Rightarrow> bool \<times> bool" where
  "ready_denied byName state latest [] rb = rb"
| "ready_denied byName state latest (dep # deps) (ready, blocked) =
     (let j = index_of byName dep in
      ready_denied byName state latest deps
        (case state ! j of
           stallSkipped \<Rightarrow> (ready, True)
         | stallDone \<Rightarrow>
             (ready, blocked \<or>
                (record_status (latest ! j) \<noteq> StatusRejected \<and>
                 record_status (latest ! j) \<noteq> StatusFailed))
         | _ \<Rightarrow> (False, blocked)))"

definition stallReadiness :: "pipeline_step list \<Rightarrow> (string \<rightharpoonup> nat) \<Rightarrow> stallState list \<Rightarrow>
    run option list \<Rightarrow> nat \<Rightarrow> bool \<times> bool" where
  "stallReadiness graph byName state latest i =
     ready_denied byName state latest (ps_IfDenied (graph ! i))
       (ready_depends graph byName state latest (ps_DependsOn (graph ! i)) (True, False))"

text \<open>The records by step: \<open>None\<close> when some record says the workflow was not waiting.\<close>

fun latest_records :: "nat \<Rightarrow> run list \<Rightarrow> run option list \<Rightarrow> run option list option" where
  "latest_records n [] latest = Some latest"
| "latest_records n (c # cs) latest =
     (if \<not> Terminal (Status c) \<and> (Kind c \<noteq> KindApproval \<or> Status c \<noteq> StatusPendingApproval)
      then None
      else case StepIndex c of
        None \<Rightarrow> latest_records n cs latest
      | Some i \<Rightarrow>
          if i < 0 \<or> i \<ge> int n then latest_records n cs latest
          else latest_records n cs
            (case latest ! nat i of
               None \<Rightarrow> latest[nat i := Some c]
             | Some prev \<Rightarrow>
                 if Attempt c > Attempt prev \<or>
                    (Attempt c = Attempt prev \<and> CreatedAt c > CreatedAt prev)
                 then latest[nat i := Some c] else latest))"

definition initial_state :: "run option list \<Rightarrow> closures \<Rightarrow> stallState list" where
  "initial_state latest deps =
     map (\<lambda>i. case latest ! i of
        None \<Rightarrow> stallWaiting
      | Some c \<Rightarrow> if Kind c = KindApproval \<and> (\<not> Terminal (Status c) \<or> \<not> actedOn i latest deps)
                 then stallAsking else stallDone) [0..<length latest]"

text \<open>One pass over the graph: \<open>None\<close> when a step could start, otherwise the states after the
  pass and whether it changed one.\<close>

fun stall_pass :: "pipeline_step list \<Rightarrow> (string \<rightharpoonup> nat) \<Rightarrow> run option list \<Rightarrow> nat list \<Rightarrow>
    stallState list \<times> bool \<Rightarrow> (stallState list \<times> bool) option" where
  "stall_pass graph byName latest [] st = Some st"
| "stall_pass graph byName latest (i # is) (state, changed) =
     (if state ! i \<noteq> stallWaiting then stall_pass graph byName latest is (state, changed)
      else case stallReadiness graph byName state latest i of
        (ready, blocked) \<Rightarrow>
          if blocked then stall_pass graph byName latest is (state[i := stallSkipped], True)
          else if ready \<and> IsApproval (graph ! i)
            then stall_pass graph byName latest is (state[i := stallAsking], True)
          else if ready then None
          else stall_pass graph byName latest is (state, changed))"

definition waiting :: "stallState list \<Rightarrow> nat" where
  "waiting state = length (filter (\<lambda>s. s = stallWaiting) state)"

lemma waiting_update:
  "i < length state \<Longrightarrow> state ! i = stallWaiting \<Longrightarrow> v \<noteq> stallWaiting \<Longrightarrow>
     waiting (state[i := v]) < waiting state"
proof (induction state arbitrary: i)
  case Nil
  then show ?case by simp
next
  case (Cons s ss)
  then show ?case by (cases i) (auto simp: waiting_def)
qed

lemma stall_pass_waiting:
  assumes "stall_pass graph byName latest is (state, changed) = Some (state', changed')"
    and "set is \<subseteq> {..<length state}"
  shows "length state' = length state \<and> waiting state' \<le> waiting state \<and>
    (changed' \<longrightarrow> changed \<or> waiting state' < waiting state)"
  using assms
proof (induction "is" arbitrary: state changed)
  case Nil
  then show ?case by simp
next
  case (Cons i "is")
  have step: "?case" if "stall_pass graph byName latest is (state[i := v], True) = Some (state', changed')"
      "state ! i = stallWaiting" "v \<noteq> stallWaiting" for v
    using Cons.IH [OF that(1)] Cons.prems(2) waiting_update [OF _ that(2,3)] by fastforce
  show ?case
    using Cons.prems Cons.IH [of state changed] step [of stallSkipped] step [of stallAsking]
    by (auto split: if_splits prod.splits)
qed

function stall_loop :: "pipeline_step list \<Rightarrow> (string \<rightharpoonup> nat) \<Rightarrow> run option list \<Rightarrow>
    stallState list \<Rightarrow> bool" where
  "stall_loop graph byName latest state =
     (case stall_pass graph byName latest [0..<length state] (state, False) of
        None \<Rightarrow> False
      | Some (state', progress) \<Rightarrow>
          if progress then stall_loop graph byName latest state' else True)"
  by pat_completeness auto
termination
  by (relation "measure (\<lambda>(graph, byName, latest, state). waiting state)")
    (auto dest: stall_pass_waiting)

declare stall_loop.simps [simp del]

definition StalledAtApproval :: "run \<Rightarrow> run list \<Rightarrow> bool" where
  "StalledAtApproval parent steps =
     (if Kind parent \<noteq> KindPipeline \<or> CancelRequested parent then False
      else
        let graph = GraphSteps (Steps parent);
            byName = name_index 0 graph;
            n = length graph
        in case latest_records n steps (replicate n None) of
             None \<Rightarrow> False
           | Some latest \<Rightarrow>
               let deps = stepClosures graph byName;
                   state = initial_state latest deps
               in if stallAsking \<notin> set state then False
                  else stall_loop graph byName latest state)"

end
