(* ===== verification/Approval_Closure.thy ===== *)
theory Approval_Closure
  imports Approval
begin

text \<open>
  Correctness of the workflow stall rule: the memoised closure of a legal step graph is its
  transitive dependency relation, and a workflow the rule reads as stalled has nothing
  executing and an approval step asked.
\<close>


section \<open>The closures are the transitive dependencies\<close>

text \<open>The reference: the transitive closure of the dependency relation on indices.\<close>

definition dep_rel :: "(nat \<Rightarrow> nat list) \<Rightarrow> nat \<Rightarrow> (nat \<times> nat) set" where
  "dep_rel deps n = {(j, i). i < n \<and> j \<in> set (deps i)}"

definition crow :: "(nat \<Rightarrow> nat list) \<Rightarrow> nat \<Rightarrow> nat \<Rightarrow> bool list" where
  "crow deps n i = map (\<lambda>k. (k, i) \<in> (dep_rel deps n)\<^sup>+) [0..<n]"

definition built :: "(nat \<Rightarrow> nat list) \<Rightarrow> nat \<Rightarrow> nat set \<Rightarrow> closures \<Rightarrow> bool" where
  "built deps n P cl \<longleftrightarrow> length cl = n \<and>
     (\<forall>m<n. cl ! m = None \<or> m \<in> P \<or> cl ! m = Some (crow deps n m))"

definition ranked :: "(nat \<Rightarrow> nat list) \<Rightarrow> nat \<Rightarrow> (nat \<Rightarrow> nat) \<Rightarrow> bool" where
  "ranked deps n rank \<longleftrightarrow> (\<forall>i<n. \<forall>j\<in>set (deps i). j < n \<and> rank j < rank i)"

lemma crow_length [simp]: "length (crow deps n i) = n"
  by (simp add: crow_def)

lemma trancl_last_iff:
  assumes "i < n"
  shows "(k, i) \<in> (dep_rel deps n)\<^sup>+ \<longleftrightarrow>
    (\<exists>j\<in>set (deps i). k = j \<or> (k, j) \<in> (dep_rel deps n)\<^sup>+)"
proof
  assume "(k, i) \<in> (dep_rel deps n)\<^sup>+"
  then show "\<exists>j\<in>set (deps i). k = j \<or> (k, j) \<in> (dep_rel deps n)\<^sup>+"
    by (cases rule: trancl.cases) (auto simp: dep_rel_def)
next
  assume "\<exists>j\<in>set (deps i). k = j \<or> (k, j) \<in> (dep_rel deps n)\<^sup>+"
  then show "(k, i) \<in> (dep_rel deps n)\<^sup>+"
    using assms by (auto simp: dep_rel_def intro: trancl.intros)
qed

text \<open>The row of \<open>i\<close> while its dependencies are followed: it holds what the dependencies
  followed so far contribute.\<close>

definition partial_row :: "(nat \<Rightarrow> nat list) \<Rightarrow> nat \<Rightarrow> nat set \<Rightarrow> bool list \<Rightarrow> bool" where
  "partial_row deps n J r \<longleftrightarrow> length r = n \<and>
     (\<forall>k<n. r ! k \<longleftrightarrow> (\<exists>j\<in>J. k = j \<or> (k, j) \<in> (dep_rel deps n)\<^sup>+))"

lemma partial_row_full:
  "i < n \<Longrightarrow> partial_row deps n (set (deps i)) r \<Longrightarrow> r = crow deps n i"
  by (rule nth_equalityI) (auto simp: partial_row_def crow_def trancl_last_iff)

lemma partial_row_step:
  assumes "partial_row deps n J r" and "j < n"
  shows "partial_row deps n (insert j J) (map2 (\<or>) (r[j := True]) (crow deps n j))"
  using assms by (auto simp: partial_row_def crow_def nth_list_update_if)

definition follow :: "nat \<Rightarrow> (nat \<Rightarrow> nat list) \<Rightarrow> nat \<Rightarrow> nat \<Rightarrow> closures \<Rightarrow> closures" where
  "follow fuel deps i j cl = or_row i j (build fuel deps j (set_dep i j cl))"

lemma follow_step:
  fixes rank :: "nat \<Rightarrow> nat"
  assumes IH: "\<And>P cl. built deps n P cl \<Longrightarrow> \<forall>m\<in>P. rank j < rank m \<Longrightarrow>
      built deps n P (build fuel deps j cl) \<and> build fuel deps j cl ! j = Some (crow deps n j) \<and>
      (\<forall>m\<in>P. m < n \<longrightarrow> build fuel deps j cl ! m = cl ! m)"
    and i: "i < n" and j: "j < n" and r: "rank j < rank i" and P: "\<forall>m\<in>P. rank i < rank m"
    and B: "built deps n (insert i P) cl" and row_i: "cl ! i = Some r" and pr: "partial_row deps n J r"
  shows "built deps n (insert i P) (follow fuel deps i j cl) \<and>
    (\<exists>r'. follow fuel deps i j cl ! i = Some r' \<and> partial_row deps n (insert j J) r') \<and>
    (\<forall>m\<in>P. m < n \<longrightarrow> follow fuel deps i j cl ! m = cl ! m)"
proof -
  let ?cl1 = "set_dep i j cl"
  let ?cl2 = "build fuel deps j ?cl1"
  have len: "length cl = n" using B by (simp add: built_def)
  have B1: "built deps n (insert i P) ?cl1"
    using B by (auto simp: built_def set_dep_def nth_list_update_if)
  have rk: "\<forall>m\<in>insert i P. rank j < rank m" using r P by (auto dest: less_trans)
  note C = IH [OF B1 rk]
  have ij: "i \<noteq> j" using r by auto
  have "i \<notin> P" using P by auto
  have row_i2: "row ?cl2 i = r[j := True]"
    using C i len row_i by (simp add: row_def set_dep_def)
  have row_j2: "row ?cl2 j = crow deps n j" using C by (simp add: row_def)
  have len2: "length ?cl2 = n" using C by (simp add: built_def)
  have eq: "follow fuel deps i j cl =
      ?cl2[i := Some (map2 (\<or>) (r[j := True]) (crow deps n j))]"
    by (simp add: follow_def or_row_def row_i2 row_j2)
  have "built deps n (insert i P) (follow fuel deps i j cl)"
    using C by (auto simp: eq built_def nth_list_update_if)
  moreover have "follow fuel deps i j cl ! i = Some (map2 (\<or>) (r[j := True]) (crow deps n j))"
    using i len2 by (simp add: eq)
  moreover have "\<forall>m\<in>P. m < n \<longrightarrow> follow fuel deps i j cl ! m = cl ! m"
    using C \<open>i \<notin> P\<close> len2 len by (auto simp: eq nth_list_update_if set_dep_def)
  ultimately show ?thesis using partial_row_step [OF pr j] by blast
qed

lemma follow_all:
  fixes rank :: "nat \<Rightarrow> nat"
  assumes IH: "\<And>j P cl. j < n \<Longrightarrow> rank j < rank i \<Longrightarrow> built deps n P cl \<Longrightarrow> \<forall>m\<in>P. rank j < rank m \<Longrightarrow>
      built deps n P (build fuel deps j cl) \<and> build fuel deps j cl ! j = Some (crow deps n j) \<and>
      (\<forall>m\<in>P. m < n \<longrightarrow> build fuel deps j cl ! m = cl ! m)"
    and i: "i < n" and P: "\<forall>m\<in>P. rank i < rank m"
    and js: "\<forall>j\<in>set js. j < n \<and> rank j < rank i"
    and B: "built deps n (insert i P) cl" and row_i: "cl ! i = Some r" and pr: "partial_row deps n J r"
  shows "built deps n (insert i P) (fold (follow fuel deps i) js cl) \<and>
    (\<exists>r'. fold (follow fuel deps i) js cl ! i = Some r' \<and> partial_row deps n (set js \<union> J) r') \<and>
    (\<forall>m\<in>P. m < n \<longrightarrow> fold (follow fuel deps i) js cl ! m = cl ! m)"
  using js B row_i pr
proof (induction js arbitrary: cl r J)
  case Nil
  then show ?case by auto
next
  case (Cons j js)
  have j: "j < n" "rank j < rank i" using Cons.prems(1) by auto
  obtain r' where S: "built deps n (insert i P) (follow fuel deps i j cl)"
      "follow fuel deps i j cl ! i = Some r'" "partial_row deps n (insert j J) r'"
      "\<forall>m\<in>P. m < n \<longrightarrow> follow fuel deps i j cl ! m = cl ! m"
    using follow_step [OF IH [OF j] i j(1) j(2) P Cons.prems(2,3,4)] by blast
  have js': "\<forall>j\<in>set js. j < n \<and> rank j < rank i" using Cons.prems(1) by simp
  have "set js \<union> insert j J = set (j # js) \<union> J" by auto
  with Cons.IH [OF js' S(1,2,3)] S(4) show ?case by simp
qed

lemma build_correct:
  assumes "ranked deps n rank" and "i < n" and "rank i < fuel"
    and "built deps n P cl" and "\<forall>m\<in>P. rank i < rank m"
  shows "built deps n P (build fuel deps i cl) \<and>
    build fuel deps i cl ! i = Some (crow deps n i) \<and>
    (\<forall>m\<in>P. m < n \<longrightarrow> build fuel deps i cl ! m = cl ! m)"
  using assms(2-)
proof (induction fuel arbitrary: i P cl)
  case 0
  then show ?case by simp
next
  case (Suc fuel)
  have len: "length cl = n" using Suc.prems(3) by (simp add: built_def)
  have "i \<notin> P" using Suc.prems(4) by auto
  show ?case
  proof (cases "cl ! i")
    case (Some r)
    then have "cl ! i = Some (crow deps n i)"
      using Suc.prems(1,3) \<open>i \<notin> P\<close> by (auto simp: built_def)
    with Suc.prems show ?thesis by simp
  next
    case None
    let ?cl0 = "cl[i := Some (replicate n False)]"
    have fl: "(\<lambda>j cl. or_row i j (build fuel deps j (set_dep i j cl))) = follow fuel deps i"
      by (rule ext)+ (simp add: follow_def)
    have eq: "build (Suc fuel) deps i cl = fold (follow fuel deps i) (deps i) ?cl0"
      using None len by (simp add: fl)
    have js: "\<forall>j\<in>set (deps i). j < n \<and> rank j < rank i"
      using assms(1) Suc.prems(1) by (simp add: ranked_def)
    have B0: "built deps n (insert i P) ?cl0"
      using Suc.prems(3) by (auto simp: built_def nth_list_update_if)
    have row0: "?cl0 ! i = Some (replicate n False)" using len Suc.prems(1) by simp
    have pr0: "partial_row deps n {} (replicate n False)" by (simp add: partial_row_def)
    have IH: "built deps n Q (build fuel deps j c) \<and> build fuel deps j c ! j = Some (crow deps n j) \<and>
        (\<forall>m\<in>Q. m < n \<longrightarrow> build fuel deps j c ! m = c ! m)"
      if "j < n" "rank j < rank i" "built deps n Q c" "\<forall>m\<in>Q. rank j < rank m" for j Q c
      using Suc.IH [OF that(1) _ that(3,4)] that(2) Suc.prems(2) by simp
    obtain r' where F: "built deps n (insert i P) (build (Suc fuel) deps i cl)"
        "build (Suc fuel) deps i cl ! i = Some r'" "partial_row deps n (set (deps i)) r'"
        "\<forall>m\<in>P. m < n \<longrightarrow> build (Suc fuel) deps i cl ! m = ?cl0 ! m"
      using follow_all [OF IH Suc.prems(1,4) js B0 row0 pr0] unfolding eq Un_empty_right by blast
    have "r' = crow deps n i" by (rule partial_row_full [OF Suc.prems(1) F(3)])
    then have at_i: "build (Suc fuel) deps i cl ! i = Some (crow deps n i)" using F(2) by simp
    have "built deps n P (build (Suc fuel) deps i cl)"
      using F(1) at_i unfolding built_def by blast
    moreover have "\<forall>m\<in>P. m < n \<longrightarrow> build (Suc fuel) deps i cl ! m = cl ! m"
      using F(4) \<open>i \<notin> P\<close> by (metis nth_list_update_neq)
    ultimately show ?thesis using at_i by blast
  qed
qed

definition keeps :: "closures \<Rightarrow> closures \<Rightarrow> bool" where
  "keeps cl cl' \<longleftrightarrow> length cl' = length cl \<and> (\<forall>m<length cl. cl ! m \<noteq> None \<longrightarrow> cl' ! m \<noteq> None)"

lemma keeps_refl [simp]: "keeps cl cl"
  by (simp add: keeps_def)

lemma keeps_trans: "keeps a b \<Longrightarrow> keeps b c \<Longrightarrow> keeps a c"
  by (simp add: keeps_def)

lemma keeps_update [simp]: "keeps cl (cl[i := Some r])"
  by (auto simp: keeps_def nth_list_update_if)

lemma keeps_fold: "(\<And>x c. keeps c (f x c)) \<Longrightarrow> keeps cl (fold f xs cl)"
  by (induction xs arbitrary: cl) (auto intro: keeps_trans)

lemma keeps_build: "keeps cl (build fuel deps i cl)"
proof (induction fuel arbitrary: i cl)
  case 0
  then show ?case by simp
next
  case (Suc fuel)
  have "keeps c (or_row i j (build fuel deps j (set_dep i j c)))" for j c
    using keeps_trans [OF keeps_trans [OF _ Suc.IH] keeps_update]
    by (auto simp: or_row_def set_dep_def)
  then have "keeps c (fold (\<lambda>j cl. or_row i j (build fuel deps j (set_dep i j cl))) (deps i) c)" for c
    by (rule keeps_fold)
  from keeps_trans [OF keeps_update this] show ?case by (simp split: option.splits)
qed

lemma build_all:
  assumes "ranked deps n rank" and "\<forall>i<n. rank i < n" and "set is \<subseteq> {..<n}"
    and "built deps n {} cl"
  shows "built deps n {} (fold (build n deps) is cl) \<and>
    (\<forall>i\<in>set is. fold (build n deps) is cl ! i \<noteq> None)"
  using assms(3,4)
proof (induction "is" arbitrary: cl)
  case Nil
  then show ?case by simp
next
  case (Cons i "is")
  have i: "i < n" using Cons.prems(1) by simp
  have B: "built deps n {} (build n deps i cl)" "build n deps i cl ! i \<noteq> None"
    using build_correct [OF assms(1) i _ Cons.prems(2)] assms(2) i by auto
  have "keeps (build n deps i cl) (fold (build n deps) is (build n deps i cl))"
    by (rule keeps_fold) (rule keeps_build)
  then have "fold (build n deps) is (build n deps i cl) ! i \<noteq> None"
    using B i by (auto simp: keeps_def built_def)
  with Cons.IH [OF _ B(1)] Cons.prems(1) show ?case by simp
qed

lemma closures_crow:
  assumes "ranked deps n rank" and "\<forall>i<n. rank i < n" and "i < n"
  shows "fold (build n deps) [0..<n] (replicate n None) ! i = Some (crow deps n i)"
proof -
  have "built deps n {} (replicate n None)" by (simp add: built_def)
  from build_all [OF assms(1,2) _ this, of "[0..<n]"]
  have B: "built deps n {} (fold (build n deps) [0..<n] (replicate n None))"
    "\<forall>i\<in>set [0..<n]. fold (build n deps) [0..<n] (replicate n None) ! i \<noteq> None"
    by (simp_all add: lessThan_atLeast0)
  then show ?thesis using assms(3) by (auto simp: built_def)
qed

section \<open>On a legal graph\<close>

lemma name_index_Some:
  assumes "distinct (map ps_Name ss)"
  shows "name_index i ss k = Some j \<longleftrightarrow> (\<exists>a<length ss. j = i + a \<and> ps_Name (ss ! a) = k)"
  using assms
proof (induction ss arbitrary: i j)
  case Nil
  then show ?case by simp
next
  case (Cons s ss)
  have IH: "name_index (Suc i) ss k = Some j' \<longleftrightarrow> (\<exists>a<length ss. j' = Suc i + a \<and> ps_Name (ss ! a) = k)" for j'
    using Cons by simp
  have fresh: "ps_Name s = k \<Longrightarrow> name_index (Suc i) ss k = None"
    using IH Cons.prems by (metis distinct.simps(2) list.simps(9) nth_mem not_None_eq set_map image_eqI)
  have eq: "name_index i (s # ss) k = Some j \<longleftrightarrow>
      name_index (Suc i) ss k = Some j \<or> (ps_Name s = k \<and> j = i)"
    using fresh by (auto split: option.splits)
  have "(\<exists>a<length (s # ss). j = i + a \<and> ps_Name ((s # ss) ! a) = k) \<longleftrightarrow>
      (ps_Name s = k \<and> j = i) \<or> (\<exists>a<length ss. j = Suc i + a \<and> ps_Name (ss ! a) = k)"
    by (auto simp: Ex_less_Suc2)
  then show ?case unfolding eq IH by blast
qed

lemma dep_indices_legal:
  assumes "names_legal graph" and "deps_legal graph" and "i < length graph"
  shows "j \<in> set (dep_indices graph (name_index 0 graph) i) \<longleftrightarrow> dep_edge graph j i"
proof -
  have N: "name_index 0 graph k = Some j \<longleftrightarrow> j < length graph \<and> ps_Name (graph ! j) = k" for k j
    using name_index_Some [of graph 0 k j] assms(1) by (auto simp: names_legal_def)
  have "j \<in> set (dep_indices graph (name_index 0 graph) i) \<longleftrightarrow>
      (\<exists>d\<in>set (dep_names (graph ! i)). name_index 0 graph d = Some j)"
    by (auto simp: dep_indices_def dep_names_def image_iff)
  also have "\<dots> \<longleftrightarrow> dep_edge graph j i" using assms(3) by (auto simp: N dep_edge_def)
  finally show ?thesis .
qed

definition depends_on :: "pipeline_step list \<Rightarrow> (nat \<times> nat) set" where
  "depends_on graph = {(j, i). dep_edge graph j i}\<^sup>+"

definition position :: "nat list \<Rightarrow> nat \<Rightarrow> nat" where
  "position ord i = length (takeWhile (\<lambda>x. x \<noteq> i) ord)"

lemma position_less: "i \<in> set ord \<Longrightarrow> position ord i < length ord"
  unfolding position_def by (induction ord) auto

lemma position_nth: "i \<in> set ord \<Longrightarrow> ord ! position ord i = i"
  unfolding position_def using nth_length_takeWhile [of "\<lambda>x. x \<noteq> i" ord] position_less
  by (simp add: position_def)

lemma position_take: "j \<in> set (take a ord) \<Longrightarrow> position ord j < a"
proof -
  assume j: "j \<in> set (take a ord)"
  have "takeWhile (\<lambda>x. x \<noteq> j) (take a ord @ drop a ord) = takeWhile (\<lambda>x. x \<noteq> j) (take a ord)"
    using j by (intro takeWhile_append1) auto
  then have "position ord j = position (take a ord) j" by (simp add: position_def)
  also have "\<dots> < length (take a ord)" by (rule position_less [OF j])
  finally show ?thesis by simp
qed

lemma topo_ranked:
  assumes "names_legal graph" and "deps_legal graph" and "topo_order graph ord"
  shows "ranked (dep_indices graph (name_index 0 graph)) (length graph) (position ord)"
    and "\<forall>i<length graph. position ord i < length graph"
proof -
  have len: "length ord = length graph"
    using assms(3) distinct_card [of ord] by (simp add: topo_order_def)
  have mem: "i \<in> set ord" if "i < length graph" for i using assms(3) that by (simp add: topo_order_def)
  show "\<forall>i<length graph. position ord i < length graph" using mem position_less len by metis
  show "ranked (dep_indices graph (name_index 0 graph)) (length graph) (position ord)"
    unfolding ranked_def
  proof (intro allI impI ballI)
    fix i j assume i: "i < length graph" and "j \<in> set (dep_indices graph (name_index 0 graph) i)"
    then have e: "dep_edge graph j i" using dep_indices_legal [OF assms(1,2) i] by simp
    have "j \<in> set (take (position ord i) ord)"
      using assms(3) e position_less [OF mem [OF i]] position_nth [OF mem [OF i]]
      by (auto simp: topo_order_def)
    then show "j < length graph \<and> position ord j < position ord i"
      using e position_take by (auto simp: dep_edge_def)
  qed
qed

lemma dep_rel_legal:
  assumes "names_legal graph" and "deps_legal graph"
  shows "dep_rel (dep_indices graph (name_index 0 graph)) (length graph) = {(j, i). dep_edge graph j i}"
  using dep_indices_legal [OF assms] by (auto simp: dep_rel_def dep_edge_def)

text \<open>On a graph the validation accepts, the memoised closure of the workflow rule is exactly the
  transitive dependency relation: step \<open>i\<close>'s row marks step \<open>k\<close> when and only when \<open>i\<close> waits on
  \<open>k\<close>, directly or through other steps, over ordinary and denied edges alike. The recursion
  reaches every row within the depth the step count allows.\<close>

theorem stepClosures_transitive:
  assumes "validatePipelineGraph graph = None" and "i < length graph" and "k < length graph"
  shows "row (stepClosures graph (name_index 0 graph)) i ! k \<longleftrightarrow> (k, i) \<in> depends_on graph"
proof -
  obtain ord where L: "names_legal graph" "deps_legal graph" "topo_order graph ord"
    using assms(1) by (auto simp: validatePipelineGraph_None_iff)
  show ?thesis
    using closures_crow [OF topo_ranked [OF L] assms(2)] assms(3) dep_rel_legal [OF L(1,2)]
    by (simp add: row_def crow_def depends_on_def stepClosures_def Let_def)
qed

theorem stepClosures_transitive_witness:
  "(0, 2) \<in> depends_on example_pipeline"
proof -
  have ok: "validatePipelineGraph example_pipeline = None" by code_simp
  have len: "length example_pipeline = 3" by (simp add: example_pipeline_def)
  have "row (stepClosures example_pipeline (name_index 0 example_pipeline)) 2 ! 0" by code_simp
  then show ?thesis using stepClosures_transitive [OF ok, of 2 0] len by simp
qed

section \<open>What a stalled workflow is\<close>

lemma latest_records_quiet:
  "latest_records n cs latest = Some latest' \<Longrightarrow> c \<in> set cs \<Longrightarrow>
     Terminal (Status c) \<or> (Kind c = KindApproval \<and> Status c = StatusPendingApproval)"
  by (induction n cs latest rule: latest_records.induct) (auto split: if_splits option.splits)

lemma set_update_mem: "x \<in> set (xs[i := v]) \<Longrightarrow> x = v \<or> x \<in> set xs"
  using set_update_subset_insert [of xs i v] by auto

lemma latest_records_from:
  assumes "latest_records n cs latest = Some latest'" and "Some c \<in> set latest'"
  shows "Some c \<in> set latest \<or> c \<in> set cs"
  using assms
proof (induction cs arbitrary: latest)
  case Nil
  then show ?case by simp
next
  case (Cons x cs)
  have upd: "?case" if "latest_records n cs (latest[i := Some x]) = Some latest'" for i
    using Cons.IH [OF that Cons.prems(2)] by (auto dest: set_update_mem)
  have same: "?case" if "latest_records n cs latest = Some latest'"
    using Cons.IH [OF that Cons.prems(2)] by auto
  show ?case
    using Cons.prems(1) upd same by (fastforce split: if_splits option.splits)
qed

lemma initial_state_asking:
  assumes "stallAsking \<in> set (initial_state latest deps)"
  shows "\<exists>c. Some c \<in> set latest \<and> Kind c = KindApproval"
proof -
  obtain i c where "i < length latest" "latest ! i = Some c" "Kind c = KindApproval"
    using assms by (auto simp: initial_state_def split: option.splits if_splits)
  then show ?thesis using nth_mem by metis
qed

text \<open>The lease sweep parks a workflow only when nothing of it is executing: the run is a
  pipeline nobody asked to cancel, each of its step records is final or an approval waiting
  for a person, and an approval step was asked.\<close>

theorem StalledAtApproval_quiet:
  assumes "StalledAtApproval parent steps"
  shows "Kind parent = KindPipeline \<and> \<not> CancelRequested parent \<and>
    (\<forall>c\<in>set steps. Terminal (Status c) \<or> (Kind c = KindApproval \<and> Status c = StatusPendingApproval)) \<and>
    (\<exists>c\<in>set steps. Kind c = KindApproval)"
proof -
  let ?g = "GraphSteps (Steps parent)"
  obtain latest where L: "latest_records (length ?g) steps (replicate (length ?g) None) = Some latest"
    and ask: "stallAsking \<in> set (initial_state latest (stepClosures ?g (name_index 0 ?g)))"
    and head: "Kind parent = KindPipeline" "\<not> CancelRequested parent"
    using assms by (auto simp: StalledAtApproval_def Let_def split: if_splits option.splits)
  obtain c where c: "Some c \<in> set latest" "Kind c = KindApproval"
    using initial_state_asking [OF ask] by blast
  then have "c \<in> set steps" using latest_records_from [OF L c(1)] by auto
  with c head latest_records_quiet [OF L] show ?thesis by blast
qed

definition example_parent :: run where
  "example_parent = zero_run\<lparr>ID := ''p'', Kind := KindPipeline, Status := StatusRunning,
     Steps := example_pipeline\<rparr>"

definition example_records :: "run list" where
  "example_records =
     [zero_run\<lparr>ID := ''s0'', ParentID := Some ''p'', StepIndex := Some 0, Status := StatusSucceeded\<rparr>,
      zero_run\<lparr>ID := ''s1'', ParentID := Some ''p'', StepIndex := Some 1, Kind := KindApproval,
        Status := StatusPendingApproval\<rparr>]"

theorem StalledAtApproval_quiet_witness:
  "StalledAtApproval example_parent example_records \<and> \<not> CancelRequested example_parent"
proof -
  have "StalledAtApproval example_parent example_records" by code_simp
  then show ?thesis using StalledAtApproval_quiet by blast
qed

end
