(* ===== verification/Run_Options.thy ===== *)
theory Run_Options
  imports Run
begin

text \<open>
  How a run is put together before it is stored: notification targets, the submit
  options of \<open>internal/run/run.go\<close>, \<open>initiator.go\<close>, \<open>sealed.go\<close> and \<open>snapshot.go\<close>, the
  execution options that carry one run's spec onto another, and the sanitising of
  \<open>sanitize.go\<close>. SHA-256 in hexadecimal is the argument \<open>sha\<close>; a property that depends on
  it concludes that two values are equal or that they collide under it.
\<close>

section \<open>Notification targets\<close>

definition NotifyWebhook :: string where "NotifyWebhook = ''webhook''"
definition NotifySlack :: string where "NotifySlack = ''slack''"
definition NotifyMattermost :: string where "NotifyMattermost = ''mattermost''"
definition NotifyRocketChat :: string where "NotifyRocketChat = ''rocketchat''"
definition NotifyDiscord :: string where "NotifyDiscord = ''discord''"
definition NotifyTeams :: string where "NotifyTeams = ''teams''"
definition NotifyNtfy :: string where "NotifyNtfy = ''ntfy''"
definition NotifyPagerDuty :: string where "NotifyPagerDuty = ''pagerduty''"
definition NotifyGrafana :: string where "NotifyGrafana = ''grafana''"
definition NotifyTwilio :: string where "NotifyTwilio = ''twilio''"
definition NotifyEmail :: string where "NotifyEmail = ''email''"

lemmas notify_names = NotifyWebhook_def NotifySlack_def NotifyMattermost_def
  NotifyRocketChat_def NotifyDiscord_def NotifyTeams_def NotifyNtfy_def NotifyPagerDuty_def
  NotifyGrafana_def NotifyTwilio_def NotifyEmail_def

definition notifyNeedsURL :: "string \<Rightarrow> bool" where
  "notifyNeedsURL k \<longleftrightarrow> k \<in> {NotifyWebhook, NotifySlack, NotifyMattermost, NotifyRocketChat,
     NotifyDiscord, NotifyTeams, NotifyNtfy}"

definition MaxNotifyTargets :: nat where "MaxNotifyTargets = 32"

datatype notify_error =
  TooManyTargets | NeedsURL string | NeedsRoutingKey | NeedsURLAndToken | NeedsRecipient string
  | UnknownNotifyKind string

definition ValidateNotifyTarget :: "notify_target \<Rightarrow> notify_error option" where
  "ValidateNotifyTarget t =
     (if notifyNeedsURL (nt_Kind t) then
        (if nt_URL t = [] then Some (NeedsURL (nt_Kind t)) else None)
      else if nt_Kind t = NotifyPagerDuty then
        (if nt_Key t = [] then Some NeedsRoutingKey else None)
      else if nt_Kind t = NotifyGrafana then
        (if nt_URL t = [] \<or> nt_Key t = [] then Some NeedsURLAndToken else None)
      else if nt_Kind t = NotifyTwilio \<or> nt_Kind t = NotifyEmail then
        (if nt_To t = [] then Some (NeedsRecipient (nt_Kind t)) else None)
      else Some (UnknownNotifyKind (nt_Kind t)))"

fun first_target_error :: "notify_target list \<Rightarrow> notify_error option" where
  "first_target_error [] = None"
| "first_target_error (t # ts) =
     (case ValidateNotifyTarget t of Some e \<Rightarrow> Some e | None \<Rightarrow> first_target_error ts)"

definition ValidateNotifyTargets :: "notify_target list \<Rightarrow> notify_error option" where
  "ValidateNotifyTargets targets =
     (if length targets > MaxNotifyTargets then Some TooManyTargets
      else first_target_error targets)"

definition ValidNotifyKind :: "string \<Rightarrow> bool" where
  "ValidNotifyKind k \<longleftrightarrow> k \<in> {NotifyWebhook, NotifySlack, NotifyMattermost, NotifyRocketChat,
     NotifyDiscord, NotifyTeams, NotifyNtfy, NotifyPagerDuty, NotifyGrafana, NotifyTwilio,
     NotifyEmail}"

lemma first_target_error_None:
  "first_target_error ts = None \<longleftrightarrow> (\<forall>t\<in>set ts. ValidateNotifyTarget t = None)"
  by (induction ts) (auto split: option.splits)

lemma ValidateNotifyTarget_kind: "ValidateNotifyTarget t = None \<Longrightarrow> ValidNotifyKind (nt_Kind t)"
  by (auto simp: ValidateNotifyTarget_def notifyNeedsURL_def ValidNotifyKind_def split: if_splits)

section \<open>Sealed values\<close>

definition SealedVarNames :: "(string \<times> string) list \<Rightarrow> string list" where
  "SealedVarNames sealed = sort (map fst sealed)"

definition sealedDigest :: "(string \<Rightarrow> string) \<Rightarrow> string \<Rightarrow> string" where
  "sealedDigest sha sealed = sha sealed"

definition lookup_str :: "(string \<times> string) list \<Rightarrow> string \<Rightarrow> string" where
  "lookup_str m k = (case map_of m k of Some v \<Rightarrow> v | None \<Rightarrow> [])"

definition SealedDigestsOf ::
  "(string \<Rightarrow> string) \<Rightarrow> (string \<times> string) list \<Rightarrow> sealed_digest list" where
  "SealedDigestsOf sha sealed =
     map (\<lambda>name. \<lparr>sd_Var = name, sd_SHA256 = sealedDigest sha (lookup_str sealed name)\<rparr>)
       (SealedVarNames sealed)"

definition RestoreSealed ::
  "(string \<times> string) list \<Rightarrow> sealed_digest list \<Rightarrow> run \<Rightarrow> run" where
  "RestoreSealed sealed digests r =
     (let r' = (if sealed \<noteq> [] then r\<lparr>SealedVars := sealed, SealedNames := SealedVarNames sealed\<rparr>
                else r)
      in r'\<lparr>SealedDigests := digests\<rparr>)"

fun sealed_scan ::
  "(string \<Rightarrow> string) \<Rightarrow> string \<Rightarrow> string \<Rightarrow> sealed_digest list \<Rightarrow> bool" where
  "sealed_scan sha name sealed [] = False"
| "sealed_scan sha name sealed (d # ds) =
     (if sd_Var d = name then sd_SHA256 d = sealedDigest sha sealed
      else sealed_scan sha name sealed ds)"

definition SealedMatches :: "(string \<Rightarrow> string) \<Rightarrow> run \<Rightarrow> string \<Rightarrow> string \<Rightarrow> bool" where
  "SealedMatches sha r name sealed =
     (if SealedDigests r = [] then True else sealed_scan sha name sealed (SealedDigests r))"

definition SealedBlobSHA256 :: "(string \<Rightarrow> string) \<Rightarrow> string \<Rightarrow> string" where
  "SealedBlobSHA256 sha sealed = sha sealed"

definition SnapshotMatches :: "(string \<Rightarrow> string) \<Rightarrow> run \<Rightarrow> string \<Rightarrow> bool" where
  "SnapshotMatches sha r sealed =
     (case InventorySnapshot r of
        None \<Rightarrow> False
      | Some s \<Rightarrow> if sealed = [] then False else is_SealedSHA256 s = SealedBlobSHA256 sha sealed)"

definition PlanMatches :: "(string \<Rightarrow> string) \<Rightarrow> run \<Rightarrow> string \<Rightarrow> bool" where
  "PlanMatches sha r sealed =
     (if PlanSHA256 r = [] \<or> sealed = [] then False
      else PlanSHA256 r = SealedBlobSHA256 sha sealed)"

definition TargetsInventory :: "run \<Rightarrow> string \<Rightarrow> bool" where
  "TargetsInventory r i =
     (if i = [] then False
      else if InventoryID r = i then True
      else (case InventoryResolution r of None \<Rightarrow> False | Some s \<Rightarrow> i \<in> set (ir_Inputs s)))"

section \<open>Submit options\<close>

type_synonym submit_option = "run \<Rightarrow> run"

definition WithHeldByPolicy :: "string \<Rightarrow> submit_option" where
  "WithHeldByPolicy label r = r\<lparr>HeldByPolicy := label\<rparr>"

definition WithRequireDistinctApprover :: "bool \<Rightarrow> submit_option" where
  "WithRequireDistinctApprover require r =
     (if require then r\<lparr>RequireDistinctApprover := True\<rparr> else r)"

definition WithAuditReceiptOf :: "string \<Rightarrow> submit_option" where
  "WithAuditReceiptOf receipt r = r\<lparr>AuditReceipt := receipt\<rparr>"

definition WithCredentialIDs :: "string list \<Rightarrow> submit_option" where
  "WithCredentialIDs ids r = r\<lparr>CredentialIDs := ids\<rparr>"

definition WithProject :: "string \<Rightarrow> submit_option" where
  "WithProject i r = r\<lparr>ProjectID := i\<rparr>"

definition WithTemplate :: "string \<Rightarrow> submit_option" where
  "WithTemplate i r = (if i \<noteq> [] then r\<lparr>TemplateID := i\<rparr> else r)"

definition WithInventory :: "string \<Rightarrow> submit_option" where
  "WithInventory i r = r\<lparr>InventoryID := i\<rparr>"

definition WithOrgID :: "string \<Rightarrow> submit_option" where
  "WithOrgID orgID r = (if orgID \<noteq> [] then r\<lparr>OrgID := orgID\<rparr> else r)"

definition WithQueue :: "string \<Rightarrow> submit_option" where
  "WithQueue queue r = r\<lparr>Queue := queue\<rparr>"

definition WithImage :: "string \<Rightarrow> string \<Rightarrow> submit_option" where
  "WithImage img pullCredentialID r =
     r\<lparr>Image := img, PullCredentialID := pullCredentialID\<rparr>"

definition WithExtraVars :: "(string \<times> goany) list \<Rightarrow> submit_option" where
  "WithExtraVars vars r = (if vars = [] then r else r\<lparr>ExtraVars := vars\<rparr>)"

definition WithExactExtraVars :: "(string \<times> goany) list \<Rightarrow> submit_option" where
  "WithExactExtraVars vars r =
     (let r' = r\<lparr>ExtraVars := []\<rparr> in if vars \<noteq> [] then r'\<lparr>ExtraVars := vars\<rparr> else r')"

definition WithSealedVars ::
  "(string \<Rightarrow> string) \<Rightarrow> (string \<times> string) list \<Rightarrow> submit_option" where
  "WithSealedVars sha sealed r =
     (if sealed = [] then r
      else r\<lparr>SealedVars := sealed, SealedNames := SealedVarNames sealed,
             SealedDigests := SealedDigestsOf sha sealed\<rparr>)"

definition withSealedDigests :: "sealed_digest list \<Rightarrow> submit_option" where
  "withSealedDigests digests r = (if digests \<noteq> [] then r\<lparr>SealedDigests := digests\<rparr> else r)"

definition WithTool :: "string \<Rightarrow> submit_option" where
  "WithTool tool r = r\<lparr>Tool := tool\<rparr>"

definition WithCommand :: "string \<Rightarrow> submit_option" where
  "WithCommand command r = r\<lparr>Command := command\<rparr>"

definition WithDryRun :: "bool \<Rightarrow> submit_option" where
  "WithDryRun dryRun r = r\<lparr>DryRun := dryRun\<rparr>"

definition WithRequireApproval :: "bool \<Rightarrow> submit_option" where
  "WithRequireApproval require r = (if require then r\<lparr>Status := StatusPendingApproval\<rparr> else r)"

definition WithSource :: "string \<Rightarrow> string \<Rightarrow> submit_option" where
  "WithSource source sourceID r = r\<lparr>Source := source, SourceID := sourceID\<rparr>"

definition WithActor :: "string \<Rightarrow> submit_option" where
  "WithActor actor r = r\<lparr>Actor := actor\<rparr>"

definition WithPolicySet :: "string \<Rightarrow> int \<Rightarrow> string list \<Rightarrow> submit_option" where
  "WithPolicySet digest n rules r =
     r\<lparr>PolicySet := Some \<lparr>pset_Digest = digest, pset_Count = n, pset_Rules = rules\<rparr>\<rparr>"

definition WithPinnedCommit :: "string \<Rightarrow> submit_option" where
  "WithPinnedCommit commit r = r\<lparr>PinnedCommit := commit\<rparr>"

definition WithGitRef :: "string \<Rightarrow> submit_option" where
  "WithGitRef ref r = r\<lparr>GitRef := ref\<rparr>"

definition WithActorAccount :: "string \<Rightarrow> submit_option" where
  "WithActorAccount userID r = r\<lparr>ActorUserID := userID\<rparr>"

definition WithAccount :: "string \<Rightarrow> submit_option" where
  "WithAccount name r = r\<lparr>Account := name\<rparr>"

definition WithActorType :: "string \<Rightarrow> submit_option" where
  "WithActorType kind r = r\<lparr>ActorType := kind\<rparr>"

definition WithRerunOf :: "string \<Rightarrow> submit_option" where
  "WithRerunOf i r = r\<lparr>RerunOf := i\<rparr>"

definition WithLabels :: "(string \<times> string) list \<Rightarrow> submit_option" where
  "WithLabels labels r = (if labels = [] then r else r\<lparr>Labels := labels\<rparr>)"

definition WithLimit :: "string \<Rightarrow> submit_option" where
  "WithLimit pattern r = r\<lparr>Limit := pattern\<rparr>"

definition cloneNonEmpty :: "string list \<Rightarrow> string list" where
  "cloneNonEmpty ss = filter (\<lambda>s. s \<noteq> []) ss"

definition WithTags :: "string list \<Rightarrow> submit_option" where
  "WithTags tags r = r\<lparr>Tags := cloneNonEmpty tags\<rparr>"

definition WithSkipTags :: "string list \<Rightarrow> submit_option" where
  "WithSkipTags tags r = r\<lparr>SkipTags := cloneNonEmpty tags\<rparr>"

definition WithVerbosity :: "int \<Rightarrow> submit_option" where
  "WithVerbosity level r =
     (let level = (if level < 0 then 0 else level);
          level = (if level > 4 then 4 else level)
      in r\<lparr>Verbosity := level\<rparr>)"

definition WithForks :: "int \<Rightarrow> submit_option" where
  "WithForks n r = (if n > 0 then r\<lparr>Forks := n\<rparr> else r)"

definition WithDiffMode :: "bool \<Rightarrow> submit_option" where
  "WithDiffMode diff r = r\<lparr>DiffMode := diff\<rparr>"

definition WithFactCache :: "bool \<Rightarrow> int \<Rightarrow> submit_option" where
  "WithFactCache use timeoutSeconds r =
     (let r' = r\<lparr>UseFactCache := use\<rparr>;
          t = (if timeoutSeconds < 0 \<or> \<not> use then 0 else timeoutSeconds)
      in r'\<lparr>FactCacheTimeout := t\<rparr>)"

definition WithProposedFrom :: "string \<Rightarrow> submit_option" where
  "WithProposedFrom fromRunID r = r\<lparr>ProposedFrom := fromRunID\<rparr>"

definition WithPlanDestroys :: "int \<Rightarrow> submit_option" where
  "WithPlanDestroys destroys r = r\<lparr>PlanDestroys := Some destroys\<rparr>"

definition WithIntent :: "string \<Rightarrow> submit_option" where
  "WithIntent intent r = r\<lparr>Intent := intent\<rparr>"

definition WithRetryOf :: "string \<Rightarrow> submit_option" where
  "WithRetryOf sourceID r = (if sourceID \<noteq> [] then r\<lparr>RetryOf := Some sourceID\<rparr> else r)"

definition WithIdempotencyKey :: "string \<Rightarrow> submit_option" where
  "WithIdempotencyKey key r = r\<lparr>IdempotencyKey := key\<rparr>"

definition WithTimeout :: "int \<Rightarrow> submit_option" where
  "WithTimeout seconds r = (if seconds > 0 then r\<lparr>Timeout := seconds\<rparr> else r)"

definition WithNotifications :: "notify_target list \<Rightarrow> submit_option" where
  "WithNotifications targets r = (if targets \<noteq> [] then r\<lparr>Notifications := targets\<rparr> else r)"

definition WithInitiator :: "initiator option \<Rightarrow> submit_option" where
  "WithInitiator i r = (case i of None \<Rightarrow> r | Some _ \<Rightarrow> r\<lparr>Initiator := i\<rparr>)"

definition reasonRank :: "string \<Rightarrow> int" where
  "reasonRank requirement =
     (if requirement = ''always'' then 2 else if requirement = ''denials'' then 1 else 0)"

definition WithRequireReason :: "string \<Rightarrow> submit_option" where
  "WithRequireReason requirement r =
     (if reasonRank requirement > reasonRank (RequireReason r)
      then r\<lparr>RequireReason := requirement\<rparr> else r)"

definition WithInventorySnapshot ::
  "inventory_snapshot option \<Rightarrow> string \<Rightarrow> inventory_resolution option \<Rightarrow> submit_option" where
  "WithInventorySnapshot snap sealed res r =
     (if snap \<noteq> None \<and> sealed \<noteq> []
      then r\<lparr>InventorySnapshot := snap, InventorySealed := sealed, InventoryResolution := res\<rparr>
      else r)"

definition WithPlanFile :: "(string \<Rightarrow> string) \<Rightarrow> string \<Rightarrow> submit_option" where
  "WithPlanFile sha sealed r =
     (if sealed \<noteq> [] then r\<lparr>PlanSealed := sealed, PlanSHA256 := SealedBlobSHA256 sha sealed\<rparr>
      else r)"

lemmas option_defs = WithTool_def WithCommand_def WithDryRun_def WithExtraVars_def
  WithSealedVars_def withSealedDigests_def WithCredentialIDs_def WithTags_def WithSkipTags_def
  WithVerbosity_def WithForks_def WithDiffMode_def WithFactCache_def WithProject_def
  WithInventory_def WithQueue_def WithTimeout_def WithImage_def WithTemplate_def
  WithPinnedCommit_def WithGitRef_def

definition ExecutionOptions :: "(string \<Rightarrow> string) \<Rightarrow> run \<Rightarrow> submit_option list" where
  "ExecutionOptions sha r =
     [WithTool (Tool r), WithCommand (Command r), WithDryRun (DryRun r),
      WithExtraVars (ExtraVars r), WithSealedVars sha (SealedVars r),
      withSealedDigests (SealedDigests r), WithCredentialIDs (CredentialIDs r),
      WithTags (Tags r), WithSkipTags (SkipTags r), WithVerbosity (Verbosity r),
      WithForks (Forks r), WithDiffMode (DiffMode r),
      WithFactCache (UseFactCache r) (FactCacheTimeout r)]
     @ (if ProjectID r \<noteq> [] then [WithProject (ProjectID r)] else [])
     @ (if InventoryID r \<noteq> [] then [WithInventory (InventoryID r)] else [])
     @ (if Queue r \<noteq> [] then [WithQueue (Queue r)] else [])
     @ (if Timeout r > 0 then [WithTimeout (Timeout r)] else [])
     @ (if Image r \<noteq> [] then [WithImage (Image r) (PullCredentialID r)] else [])
     @ (if TemplateID r \<noteq> [] then [WithTemplate (TemplateID r)] else [])
     @ (if PinnedCommit r \<noteq> [] then [WithPinnedCommit (PinnedCommit r)] else [])
     @ (if GitRef r \<noteq> [] then [WithGitRef (GitRef r)] else [])"

definition ApplyOptions :: "run \<Rightarrow> submit_option list \<Rightarrow> run" where
  "ApplyOptions r opts = fold (\<lambda>opt r. opt r) opts r"

section \<open>What the execution options carry\<close>

text \<open>The fields that say how a run executes, and the shape those fields have on a run the
  options themselves built.\<close>

definition same_execution :: "run \<Rightarrow> run \<Rightarrow> bool" where
  "same_execution a b \<longleftrightarrow>
     Tool a = Tool b \<and> Command a = Command b \<and> DryRun a = DryRun b \<and>
     ExtraVars a = ExtraVars b \<and> SealedVars a = SealedVars b \<and> SealedNames a = SealedNames b \<and>
     SealedDigests a = SealedDigests b \<and> CredentialIDs a = CredentialIDs b \<and>
     Tags a = Tags b \<and> SkipTags a = SkipTags b \<and> Verbosity a = Verbosity b \<and>
     Forks a = Forks b \<and> DiffMode a = DiffMode b \<and> UseFactCache a = UseFactCache b \<and>
     FactCacheTimeout a = FactCacheTimeout b \<and> ProjectID a = ProjectID b \<and>
     InventoryID a = InventoryID b \<and> Queue a = Queue b \<and> Timeout a = Timeout b \<and>
     Image a = Image b \<and> PullCredentialID a = PullCredentialID b \<and>
     TemplateID a = TemplateID b \<and> PinnedCommit a = PinnedCommit b \<and> GitRef a = GitRef b"

definition exec_canonical :: "run \<Rightarrow> bool" where
  "exec_canonical r \<longleftrightarrow>
     0 \<le> Verbosity r \<and> Verbosity r \<le> 4 \<and> 0 \<le> Forks r \<and> 0 \<le> Timeout r \<and>
     0 \<le> FactCacheTimeout r \<and> (\<not> UseFactCache r \<longrightarrow> FactCacheTimeout r = 0) \<and>
     [] \<notin> set (Tags r) \<and> [] \<notin> set (SkipTags r) \<and>
     SealedNames r = SealedVarNames (SealedVars r) \<and>
     (SealedVars r \<noteq> [] \<longrightarrow> SealedDigests r \<noteq> []) \<and>
     (Image r = [] \<longrightarrow> PullCredentialID r = [])"

lemma ApplyOptions_Nil [simp]: "ApplyOptions r [] = r"
  and ApplyOptions_Cons [simp]: "ApplyOptions r (f # fs) = ApplyOptions (f r) fs"
  and ApplyOptions_append [simp]: "ApplyOptions r (fs @ gs) = ApplyOptions (ApplyOptions r fs) gs"
  by (simp_all add: ApplyOptions_def)

lemma ApplyOptions_if [simp]:
  "ApplyOptions r (if c then [f] else []) = (if c then f r else r)"
  by simp

lemma SealedVarNames_Nil [simp]: "SealedVarNames [] = []"
  by (simp add: SealedVarNames_def)

lemma cloneNonEmpty_id: "[] \<notin> set ss \<Longrightarrow> cloneNonEmpty ss = ss"
  by (auto simp: cloneNonEmpty_def filter_id_conv)

text \<open>Each option as one unconditional update, so that a list of options is a chain of
  record updates.\<close>

lemma option_updates:
  "WithExtraVars vars r = r\<lparr>ExtraVars := if vars = [] then ExtraVars r else vars\<rparr>"
  "WithSealedVars sha sealed r = r\<lparr>SealedVars := if sealed = [] then SealedVars r else sealed,
     SealedNames := if sealed = [] then SealedNames r else SealedVarNames sealed,
     SealedDigests := if sealed = [] then SealedDigests r else SealedDigestsOf sha sealed\<rparr>"
  "withSealedDigests ds r = r\<lparr>SealedDigests := if ds = [] then SealedDigests r else ds\<rparr>"
  "WithForks n r = r\<lparr>Forks := if n > 0 then n else Forks r\<rparr>"
  by (simp_all add: option_defs)

lemma option_plain_updates:
  "WithTool v r = r\<lparr>Tool := v\<rparr>" "WithCommand v r = r\<lparr>Command := v\<rparr>"
  "WithDryRun d r = r\<lparr>DryRun := d\<rparr>" "WithCredentialIDs vs r = r\<lparr>CredentialIDs := vs\<rparr>"
  "WithTags vs r = r\<lparr>Tags := cloneNonEmpty vs\<rparr>"
  "WithSkipTags vs r = r\<lparr>SkipTags := cloneNonEmpty vs\<rparr>"
  "WithVerbosity n r = r\<lparr>Verbosity := max 0 (min 4 n)\<rparr>"
  "WithDiffMode d r = r\<lparr>DiffMode := d\<rparr>"
  "WithFactCache u n r = r\<lparr>UseFactCache := u,
     FactCacheTimeout := if n < 0 \<or> \<not> u then 0 else n\<rparr>"
  by (simp_all add: option_defs Let_def max_def min_def)

lemma guarded_option_updates:
  "(if c then WithProject v r else r) = r\<lparr>ProjectID := if c then v else ProjectID r\<rparr>"
  "(if c then WithInventory v r else r) = r\<lparr>InventoryID := if c then v else InventoryID r\<rparr>"
  "(if c then WithQueue v r else r) = r\<lparr>Queue := if c then v else Queue r\<rparr>"
  "(if c then WithTimeout n r else r) = r\<lparr>Timeout := if c \<and> n > 0 then n else Timeout r\<rparr>"
  "(if c then WithImage v w r else r) = r\<lparr>Image := if c then v else Image r,
     PullCredentialID := if c then w else PullCredentialID r\<rparr>"
  "(if c then WithTemplate v r else r) = r\<lparr>TemplateID := if c \<and> v \<noteq> [] then v else TemplateID r\<rparr>"
  "(if c then WithPinnedCommit v r else r) = r\<lparr>PinnedCommit := if c then v else PinnedCommit r\<rparr>"
  "(if c then WithGitRef v r else r) = r\<lparr>GitRef := if c then v else GitRef r\<rparr>"
  by (simp_all add: option_defs)

lemma ApplyOptions_ExecutionOptions:
  "ApplyOptions b (ExecutionOptions sha r) =
     b\<lparr>Tool := Tool r, Command := Command r, DryRun := DryRun r,
       ExtraVars := if ExtraVars r = [] then ExtraVars b else ExtraVars r,
       SealedVars := if SealedVars r = [] then SealedVars b else SealedVars r,
       SealedNames := if SealedVars r = [] then SealedNames b else SealedVarNames (SealedVars r),
       SealedDigests := if SealedDigests r = [] then
           (if SealedVars r = [] then SealedDigests b else SealedDigestsOf sha (SealedVars r))
         else SealedDigests r,
       CredentialIDs := CredentialIDs r, Tags := cloneNonEmpty (Tags r),
       SkipTags := cloneNonEmpty (SkipTags r), Verbosity := max 0 (min 4 (Verbosity r)),
       Forks := if Forks r > 0 then Forks r else Forks b, DiffMode := DiffMode r,
       UseFactCache := UseFactCache r,
       FactCacheTimeout := if FactCacheTimeout r < 0 \<or> \<not> UseFactCache r then 0
         else FactCacheTimeout r,
       ProjectID := if ProjectID r \<noteq> [] then ProjectID r else ProjectID b,
       InventoryID := if InventoryID r \<noteq> [] then InventoryID r else InventoryID b,
       Queue := if Queue r \<noteq> [] then Queue r else Queue b,
       Timeout := if Timeout r > 0 then Timeout r else Timeout b,
       Image := if Image r \<noteq> [] then Image r else Image b,
       PullCredentialID := if Image r \<noteq> [] then PullCredentialID r else PullCredentialID b,
       TemplateID := if TemplateID r \<noteq> [] then TemplateID r else TemplateID b,
       PinnedCommit := if PinnedCommit r \<noteq> [] then PinnedCommit r else PinnedCommit b,
       GitRef := if GitRef r \<noteq> [] then GitRef r else GitRef b\<rparr>"
  unfolding ExecutionOptions_def
  by (simp add: guarded_option_updates option_updates option_plain_updates split del: if_split cong: if_cong)

text \<open>Deriving a run from another with the execution options loses nothing of how it executes:
  on a fresh run they reproduce the tool, command, dry-run flag, variables, sealed answers
  with their digests, credentials, targeting, image, template, pin and git reference of a
  source whose fields are in the shape the options give, and they leave alone what belongs to
  the new run: its limit, labels, provenance, notifications and status.\<close>

theorem ExecutionOptions_carry_spec:
  fixes sha :: "string \<Rightarrow> string"
  assumes "exec_canonical r" and "same_execution b zero_run"
  defines "d \<equiv> ApplyOptions b (ExecutionOptions sha r)"
  shows "same_execution d r \<and> Limit d = Limit b \<and> Labels d = Labels b \<and> Source d = Source b \<and>
    Actor d = Actor b \<and> Notifications d = Notifications b \<and> Status d = Status b"
proof -
  have fresh: "SealedNames b = []" "SealedDigests b = []" "SealedVars b = []" "ExtraVars b = []"
    "Forks b = 0" "Timeout b = 0" "ProjectID b = []" "InventoryID b = []" "Queue b = []"
    "Image b = []" "PullCredentialID b = []" "TemplateID b = []" "PinnedCommit b = []" "GitRef b = []"
    using assms(2) by (simp_all add: same_execution_def zero_run_def)
  show ?thesis
    using assms(1)
    unfolding d_def ApplyOptions_ExecutionOptions same_execution_def exec_canonical_def
    by (simp add: fresh cloneNonEmpty_id)
qed

definition example_spec :: run where
  "example_spec = zero_run\<lparr>Tool := ''bash'', Command := ''echo'', DryRun := True, Verbosity := 3,
     Tags := [''web''], Timeout := 60, PinnedCommit := ''abc''\<rparr>"

theorem ExecutionOptions_carry_spec_witness:
  "same_execution (ApplyOptions zero_run (ExecutionOptions (\<lambda>x. x) example_spec)) example_spec"
  using ExecutionOptions_carry_spec [of example_spec zero_run "\<lambda>x. x"]
  by (simp add: exec_canonical_def same_execution_def example_spec_def zero_run_def)

section \<open>Sealed answers\<close>

lemma sealed_scan_map:
  "sealed_scan sha name v (map (\<lambda>n. \<lparr>sd_Var = n, sd_SHA256 = f n\<rparr>) ns) \<longleftrightarrow>
     name \<in> set ns \<and> f name = sealedDigest sha v"
  by (induction ns) auto

lemma SealedVarNames_eq_Nil [simp]: "SealedVarNames sealed = [] \<longleftrightarrow> sealed = []"
  unfolding SealedVarNames_def by (metis length_0_conv length_map length_sort)

lemma SealedDigestsOf_eq_Nil [simp]: "SealedDigestsOf sha sealed = [] \<longleftrightarrow> sealed = []"
  by (simp add: SealedDigestsOf_def)

lemma set_SealedVarNames [simp]: "set (SealedVarNames sealed) = fst ` set sealed"
  by (simp add: SealedVarNames_def)

lemma SealedMatches_of_sealed:
  assumes "SealedDigests r = SealedDigestsOf sha sealed" and "sealed \<noteq> []"
  shows "SealedMatches sha r name v \<longleftrightarrow>
    name \<in> fst ` set sealed \<and> sha (lookup_str sealed name) = sha v"
  using assms by (simp add: SealedMatches_def SealedDigestsOf_def sealed_scan_map sealedDigest_def)

text \<open>A run derived from one created with sealed answers is held to the answers its source was
  created with. Whatever a writer put in the source's stored ciphertext afterwards, the
  derived run opens for a variable only the ciphertext the source was submitted with, or one
  that collides with it under SHA-256; a variable that was never sealed opens nothing.\<close>

theorem derived_run_binds_original_answers:
  assumes "sealed \<noteq> []" and "SealedDigests r = SealedDigests (WithSealedVars sha sealed r0)"
    and "SealedMatches sha (ApplyOptions b (ExecutionOptions sha (r\<lparr>SealedVars := tampered\<rparr>))) name v"
  shows "\<exists>orig. (name, orig) \<in> set sealed \<and> (v = orig \<or> v \<noteq> orig \<and> sha v = sha orig)"
proof -
  let ?d = "ApplyOptions b (ExecutionOptions sha (r\<lparr>SealedVars := tampered\<rparr>))"
  have "SealedDigests r = SealedDigestsOf sha sealed"
    using assms(1,2) by (simp add: WithSealedVars_def)
  then have "SealedDigests ?d = SealedDigestsOf sha sealed"
    using assms(1) by (simp add: ApplyOptions_ExecutionOptions)
  from SealedMatches_of_sealed [OF this assms(1)] assms(3)
  have in_sealed: "name \<in> fst ` set sealed" and same: "sha (lookup_str sealed name) = sha v"
    by simp_all
  from in_sealed obtain orig where o: "map_of sealed name = Some orig"
    by (metis map_of_eq_None_iff_notin not_None_eq)
  then have "(name, orig) \<in> set sealed" by (rule map_of_SomeD)
  with o same show ?thesis by (auto simp: lookup_str_def)
qed

theorem derived_run_binds_original_answers_witness:
  "\<exists>orig. (''pw'', orig) \<in> set [(''pw'', ''c1'')] \<and> (''c1'' = orig \<or> ''c1'' \<noteq> orig \<and> ''c1'' = orig)"
proof -
  let ?src = "WithSealedVars (\<lambda>x. x) [(''pw'', ''c1'')] zero_run"
  have "SealedMatches (\<lambda>x. x)
      (ApplyOptions zero_run (ExecutionOptions (\<lambda>x. x) (?src\<lparr>SealedVars := [(''pw'', ''evil'')]\<rparr>)))
      ''pw'' ''c1''"
    by (simp add: ApplyOptions_ExecutionOptions WithSealedVars_def SealedMatches_def
        SealedDigestsOf_def SealedVarNames_def sealedDigest_def lookup_str_def zero_run_def)
  from derived_run_binds_original_answers [OF _ refl this] show ?thesis by simp
qed

end
