(* ===== verification/Store_Types.thy ===== *)
theory Store_Types
  imports Run
begin

text \<open>
  The values a run store takes and returns (\<open>internal/run/store.go\<close>, \<open>errors.go\<close>,
  \<open>callback.go\<close>, \<open>budget.go\<close>, \<open>secretlease.go\<close>, \<open>runauth.go\<close>), the guards stated on them,
  and the sanitising of \<open>internal/run/sanitize.go\<close> every store applies before it writes.
\<close>

datatype run_error =
    ErrNotFound | ErrNonePending | ErrDuplicateKey | ErrCallbackPending | ErrNotTerminal
  | ErrNoDecision | ErrBadSettle | ErrNoDriftCheck

section \<open>Values\<close>

record progress =
  pr_StartedAt :: "gotime option"
  pr_Warning :: string
  pr_Outputs :: "(string \<times> goany) list"

record decision_settle =
  dst_Status :: status
  dst_Owner :: string
  dst_Error :: string
  dst_EndedAt :: gotime

record adoption =
  ad_SpecSeal :: string
  ad_ResultSeal :: string
  ad_Claim :: string
  ad_PrevClaim :: string

record finalization =
  fin_Status :: status
  fin_ExitCode :: "int option"
  fin_Error :: string
  fin_Image :: string
  fin_CommitSHA :: string
  fin_PullCredentialID :: string
  fin_Owner :: string
  fin_Outputs :: "(string \<times> goany) list"
  fin_Warning :: string
  fin_InventoryCheck :: "inventory_check option"
  fin_ImageDigest :: string
  fin_ResolvedHosts :: "string list"
  fin_ResultSeal :: string
  fin_EndedAt :: gotime

record stream_ticket =
  tk_SecretHash :: string
  tk_RunID :: string
  tk_ActorKey :: string
  tk_Actor :: string
  tk_ExpiresAt :: gotime

record budget_window =
  bw_ends :: gotime
  bw_spent :: int

record secret_lease =
  sl_ID :: string
  sl_RunID :: string
  sl_ClaimHash :: string
  sl_CredentialID :: string
  sl_Kind :: string
  sl_Handle :: string
  sl_ExpiresAt :: gotime
  sl_CreatedAt :: gotime
  sl_Attempts :: int
  sl_RetryAt :: gotime

record run_auth =
  ra_ID :: string
  ra_OrgID :: string
  ra_ProjectID :: string
  ra_InventoryID :: string
  ra_PullCredentialID :: string
  ra_CredentialIDs :: "string list"

text \<open>Durations and other floating point values are only carried by the modelled operations;
  they are kept as their bit patterns.\<close>

type_synonym float64 = int

record host_stats =
  hst_OK :: int
  hst_Changed :: int
  hst_Failures :: int
  hst_Unreachable :: int
  hst_Skipped :: int
  hst_Rescued :: int
  hst_Ignored :: int

record event =
  ev_Type :: string
  ev_Time :: gotime
  ev_Play :: string
  ev_Task :: string
  ev_Host :: string
  ev_Changed :: bool
  ev_Message :: string
  ev_Stdout :: string
  ev_Stderr :: string
  ev_RC :: "int option"
  ev_Diff :: string
  ev_Truncated :: bool
  ev_Stats :: "(string \<times> host_stats) list option"
  ev_Outputs :: "(string \<times> goany) list"
  ev_Facts :: "(string \<times> string) list"
  ev_Seq :: int

record host_summary =
  hs_RunID :: string
  hs_Host :: string
  hs_OK :: int
  hs_Changed :: int
  hs_Failures :: int
  hs_Unreachable :: int
  hs_Skipped :: int
  hs_Worst :: string
  hs_DurationSeconds :: float64
  hs_RanAt :: gotime
  hs_DryRun :: bool

record task_summary =
  ts_RunID :: string
  ts_Task :: string
  ts_Seconds :: float64
  ts_RanAt :: gotime

record host_facts =
  hf_Host :: string
  hf_Facts :: "(string \<times> string) list"
  hf_RunID :: string
  hf_GatheredAt :: gotime

definition orphanError :: string where
  "orphanError = ''canceled: the parent run was interrupted''"

definition abandonedParentError :: string where
  "abandonedParentError = ''interrupted: no coordinator ever started this run''"

definition OwedStart :: string where "OwedStart = ''started''"
definition OwedHold :: string where "OwedHold = ''approval''"

section \<open>Guards\<close>

definition AbandonedParent :: "run \<Rightarrow> gotime \<Rightarrow> bool" where
  "AbandonedParent r cutoff =
     (if Kind r \<noteq> KindSplit \<and> Kind r \<noteq> KindPipeline then False
      else if Status r \<noteq> StatusPending \<and> Status r \<noteq> StatusRunning then False
      else ClaimedBy r = [] \<and> CreatedAt r < cutoff)"

definition InFlight :: "run \<Rightarrow> bool" where
  "InFlight r \<longleftrightarrow> DecisionClaim r \<noteq> [] \<and> Status r = StatusPendingApproval"

definition Adoption_Check :: "adoption \<Rightarrow> run_error option" where
  "Adoption_Check a =
     (if (ad_Claim a = []) \<noteq> (ad_PrevClaim a = []) then Some ErrNoDecision
      else if ad_SpecSeal a = [] \<and> ad_ResultSeal a = [] \<and> ad_Claim a = [] then Some ErrNoDecision
      else None)"

definition DecisionSettle_Check :: "decision_settle \<Rightarrow> run_error option" where
  "DecisionSettle_Check s =
     (if dst_Status s = StatusPending \<or> Terminal (dst_Status s) then None
      else if dst_Status s = StatusRunning \<and> dst_Owner s \<noteq> [] then None
      else Some ErrBadSettle)"

definition SourceCallback :: string where "SourceCallback = ''callback''"

definition LiveCallback :: "run \<Rightarrow> bool" where
  "LiveCallback r \<longleftrightarrow> Source r = SourceCallback \<and> ParentID r = None \<and> \<not> Terminal (Status r)"

definition sameCallbackLane :: "run \<Rightarrow> run \<Rightarrow> bool" where
  "sameCallbackLane a b \<longleftrightarrow> SourceID a = SourceID b \<and> Limit a = Limit b"

definition AuthOf :: "run \<Rightarrow> run_auth" where
  "AuthOf r = \<lparr>ra_ID = ID r, ra_OrgID = OrgID r, ra_ProjectID = ProjectID r,
     ra_InventoryID = InventoryID r, ra_PullCredentialID = PullCredentialID r,
     ra_CredentialIDs = CredentialIDs r\<rparr>"

definition Objects :: "run_auth \<Rightarrow> string list" where
  "Objects a =
     (if ra_ProjectID a \<noteq> [] then [ra_ProjectID a] else [])
     @ (if ra_InventoryID a \<noteq> [] then [ra_InventoryID a] else [])
     @ (if ra_PullCredentialID a \<noteq> [] then [ra_PullCredentialID a] else [])
     @ ra_CredentialIDs a"

section \<open>Sanitising a run\<close>

definition boundInt32 :: "int \<Rightarrow> int" where
  "boundInt32 n = (if n > 2147483647 then 2147483647 else if n < -2147483648 then -2147483648 else n)"

definition sanitize_scan :: "dry_run_scan \<Rightarrow> dry_run_scan" where
  "sanitize_scan s = s\<lparr>ds_Step := SafeText (ds_Step s), ds_Source := SafeText (ds_Source s),
     ds_Inputs := SafeTexts (ds_Inputs s), ds_Findings := SafeTexts (ds_Findings s),
     ds_Unread := SafeTexts (ds_Unread s),
     ds_Fetch := map_option (\<lambda>f. f\<lparr>mf_Error := SafeText (mf_Error f)\<rparr>) (ds_Fetch s)\<rparr>"

definition sanitize_step :: "pipeline_step \<Rightarrow> pipeline_step" where
  "sanitize_step s = s\<lparr>ps_Name := SafeText (ps_Name s), ps_Playbook := SafeText (ps_Playbook s),
     ps_Command := SafeText (ps_Command s), ps_Inventory := SafeText (ps_Inventory s),
     ps_DependsOn := SafeTexts (ps_DependsOn s), ps_Retries := boundInt32 (ps_Retries s)\<rparr>"

definition Sanitize :: "run \<Rightarrow> run" where
  "Sanitize r = r\<lparr>
     Playbook := SafeText (Playbook r), Inventory := SafeText (Inventory r),
     Command := SafeText (Command r), Error := SafeText (Error r), Warning := SafeText (Warning r),
     Limit := SafeText (Limit r), StepName := SafeText (StepName r), Image := SafeText (Image r),
     Intent := SafeText (Intent r), Actor := SafeText (Actor r), Account := SafeText (Account r),
     HeldByPolicy := SafeText (HeldByPolicy r), Tags := SafeTexts (Tags r),
     SkipTags := SafeTexts (SkipTags r), HoldNote := SafeText (HoldNote r),
     DryRunScans := map sanitize_scan (DryRunScans r), PolicyNotes := SafeTexts (PolicyNotes r),
     ResolvedHosts := SafeTexts (ResolvedHosts r), ImageDigest := SafeText (ImageDigest r),
     InventorySnapshot := map_option (\<lambda>s. s\<lparr>is_Hosts := SafeTexts (is_Hosts s),
       is_DynamicReason := SafeText (is_DynamicReason s)\<rparr>) (InventorySnapshot r),
     ExtraVars := SafeAnyMap (ExtraVars r), Outputs := SafeAnyMap (Outputs r),
     Labels := SafeStringMap (Labels r), Steps := map sanitize_step (Steps r),
     Timeout := boundInt32 (Timeout r), Verbosity := boundInt32 (Verbosity r),
     Forks := boundInt32 (Forks r), Attempt := boundInt32 (Attempt r),
     ShardIndex := map_option boundInt32 (ShardIndex r),
     StepIndex := map_option boundInt32 (StepIndex r),
     ShardCount := map_option boundInt32 (ShardCount r),
     ExitCode := map_option boundInt32 (ExitCode r)\<rparr>"

definition Finalization_SanitizeText :: "finalization \<Rightarrow> finalization" where
  "Finalization_SanitizeText f = f\<lparr>fin_Error := SafeText (fin_Error f),
     fin_Warning := SafeText (fin_Warning f), fin_Image := SafeText (fin_Image f),
     fin_ImageDigest := SafeText (fin_ImageDigest f),
     fin_ResolvedHosts := SafeTexts (fin_ResolvedHosts f),
     fin_Outputs := SafeAnyMap (fin_Outputs f),
     fin_ExitCode := map_option boundInt32 (fin_ExitCode f)\<rparr>"

definition DecisionSettle_SanitizeText :: "decision_settle \<Rightarrow> decision_settle" where
  "DecisionSettle_SanitizeText s = s\<lparr>dst_Error := SafeText (dst_Error s)\<rparr>"

definition Progress_SanitizeText :: "progress \<Rightarrow> progress" where
  "Progress_SanitizeText p = p\<lparr>pr_Warning := SafeText (pr_Warning p),
     pr_Outputs := SafeAnyMap (pr_Outputs p)\<rparr>"

lemma boundInt32_range: "-2147483648 \<le> boundInt32 n \<and> boundInt32 n \<le> 2147483647"
  by (simp add: boundInt32_def)

lemma boundInt32_id: "-2147483648 \<le> n \<Longrightarrow> n \<le> 2147483647 \<Longrightarrow> boundInt32 n = n"
  by (simp add: boundInt32_def)

lemma boundInt32_mono: "m \<le> n \<Longrightarrow> boundInt32 m \<le> boundInt32 n"
  by (simp add: boundInt32_def)

lemma boundInt32_idem [simp]: "boundInt32 (boundInt32 n) = boundInt32 n"
  by (simp add: boundInt32_def)

lemma Sanitize_frame [simp, frame_simps]:
  "ID (Sanitize r) = ID r" "Status (Sanitize r) = Status r" "ParentID (Sanitize r) = ParentID r"
  "IdempotencyKey (Sanitize r) = IdempotencyKey r" "Source (Sanitize r) = Source r"
  "SourceID (Sanitize r) = SourceID r" "Kind (Sanitize r) = Kind r"
  "ClaimedBy (Sanitize r) = ClaimedBy r" "ClaimedAt (Sanitize r) = ClaimedAt r"
  "ClaimSecret (Sanitize r) = ClaimSecret r" "CancelRequested (Sanitize r) = CancelRequested r"
  "DecisionID (Sanitize r) = DecisionID r" "DecisionClaim (Sanitize r) = DecisionClaim r"
  "CreatedAt (Sanitize r) = CreatedAt r" "InventorySealed (Sanitize r) = InventorySealed r"
  "PlanSealed (Sanitize r) = PlanSealed r" "EndedAt (Sanitize r) = EndedAt r"
  "SealedDigests (Sanitize r) = SealedDigests r" "PlanSHA256 (Sanitize r) = PlanSHA256 r"
  by (simp_all add: Sanitize_def)

lemma Finalization_SanitizeText_frame [simp, frame_simps]:
  "fin_Status (Finalization_SanitizeText f) = fin_Status f"
  "fin_Owner (Finalization_SanitizeText f) = fin_Owner f"
  "fin_EndedAt (Finalization_SanitizeText f) = fin_EndedAt f"
  by (simp_all add: Finalization_SanitizeText_def)

lemma DecisionSettle_SanitizeText_frame [simp, frame_simps]:
  "dst_Status (DecisionSettle_SanitizeText s) = dst_Status s"
  "dst_Owner (DecisionSettle_SanitizeText s) = dst_Owner s"
  "dst_EndedAt (DecisionSettle_SanitizeText s) = dst_EndedAt s"
  by (simp_all add: DecisionSettle_SanitizeText_def)

text \<open>What both database backends can hold in the columns \<open>Sanitize\<close> covers: text that is
  valid UTF-8 with no NUL byte, and numbers of 32 bits.\<close>

definition int32 :: "int \<Rightarrow> bool" where
  "int32 n \<longleftrightarrow> -2147483648 \<le> n \<and> n \<le> 2147483647"

definition opt_int32 :: "int option \<Rightarrow> bool" where
  "opt_int32 x \<longleftrightarrow> (case x of None \<Rightarrow> True | Some n \<Rightarrow> int32 n)"


lemma int32_bound [simp]: "int32 (boundInt32 n)"
  using boundInt32_range by (simp add: int32_def)

lemma opt_int32_bound [simp]: "opt_int32 (map_option boundInt32 x)"
  by (cases x) (simp_all add: opt_int32_def)

lemma list_all_SafeTexts [simp]: "list_all IsSafeText (SafeTexts ss)"
  by (simp add: SafeTexts_map list_all_iff)


end
