(* ===== verification/MemStore.thy ===== *)
theory MemStore
  imports Store_Types Run_Options Approval
begin

text \<open>
  The run store (\<open>internal/run/memstore.go\<close> and the files beside it). Its state is one record;
  every exported method is one locked step, so the model of a method is a function from the
  state to a result and the next state. A loop over a map takes the order it visits as an
  argument, the clock readings a method takes are arguments, and so is the secret a claim mints.
  A row the code mutates through its pointer is the row put back into the map.
\<close>

section \<open>State\<close>

record outcome_ledger =
  ol_storedFinished :: "string set"
  ol_settled :: "string set"
  ol_owedSince :: "string \<rightharpoonup> gotime"

record mem_store =
  ms_tickets :: "string \<rightharpoonup> stream_ticket"
  ms_runs :: "string \<rightharpoonup> run"
  ms_runAuth :: "string \<rightharpoonup> run_auth"
  ms_byKey :: "string \<rightharpoonup> string"
  ms_logs :: "string \<rightharpoonup> string"
  ms_events :: "string \<rightharpoonup> event list"
  ms_summaries :: "string \<rightharpoonup> host_summary list"
  ms_facts :: "string \<rightharpoonup> host_facts"
  ms_factsHistory :: "string \<rightharpoonup> host_facts list"
  ms_tasks :: "string \<rightharpoonup> task_summary list"
  ms_queued :: "string \<rightharpoonup> gotime"
  ms_unended :: "string set"
  ms_endSeen :: "string \<rightharpoonup> gotime"
  ms_owedEvents :: "(string \<times> string) \<rightharpoonup> gotime"
  ms_budgets :: "string \<rightharpoonup> budget_window"
  ms_secretLeases :: "string \<rightharpoonup> secret_lease"
  ms_parked :: "string set"
  ms_outcomes :: outcome_ledger
  ms_driftPlans :: "string \<rightharpoonup> string"

definition NewMemStore :: mem_store where
  "NewMemStore = \<lparr>ms_tickets = Map.empty, ms_runs = Map.empty, ms_runAuth = Map.empty,
     ms_byKey = Map.empty, ms_logs = Map.empty, ms_events = Map.empty, ms_summaries = Map.empty,
     ms_facts = Map.empty, ms_factsHistory = Map.empty, ms_tasks = Map.empty,
     ms_queued = Map.empty, ms_unended = {}, ms_endSeen = Map.empty, ms_owedEvents = Map.empty,
     ms_budgets = Map.empty, ms_secretLeases = Map.empty, ms_parked = {},
     ms_outcomes = \<lparr>ol_storedFinished = {}, ol_settled = {}, ol_owedSince = Map.empty\<rparr>,
     ms_driftPlans = Map.empty\<rparr>"

text \<open>A row written back under its id.\<close>

definition put_run :: "string \<Rightarrow> run \<Rightarrow> mem_store \<Rightarrow> mem_store" where
  "put_run i r st = st\<lparr>ms_runs := (ms_runs st)(i \<mapsto> r)\<rparr>"

section \<open>Ledgers\<close>

definition noteSave :: "run option \<Rightarrow> run \<Rightarrow> outcome_ledger \<Rightarrow> outcome_ledger" where
  "noteSave prev next l =
     (if prev \<noteq> None \<or> \<not> Terminal (Status next) then l
      else l\<lparr>ol_storedFinished := insert (ID next) (ol_storedFinished l)\<rparr>)"

definition owes :: "outcome_ledger \<Rightarrow> run \<Rightarrow> bool" where
  "owes l r \<longleftrightarrow> ParentID r = None \<and> Terminal (Status r) \<and>
     ID r \<notin> ol_storedFinished l \<and> ID r \<notin> ol_settled l"

definition heldForOutcome :: "mem_store \<Rightarrow> run \<Rightarrow> bool" where
  "heldForOutcome st r =
     (if owes (ms_outcomes st) r then True
      else case ParentID r of
        None \<Rightarrow> False
      | Some p \<Rightarrow> (case ms_runs st p of None \<Rightarrow> False | Some parent \<Rightarrow> owes (ms_outcomes st) parent))"

definition forget :: "string \<Rightarrow> outcome_ledger \<Rightarrow> outcome_ledger" where
  "forget i l = l\<lparr>ol_storedFinished := ol_storedFinished l - {i}, ol_settled := ol_settled l - {i},
     ol_owedSince := (ol_owedSince l)(i := None)\<rparr>"

definition noteStatus :: "gotime \<Rightarrow> run \<Rightarrow> status \<Rightarrow> mem_store \<Rightarrow> mem_store" where
  "noteStatus now r from st =
     (if ParentID r \<noteq> None \<or> Status r = from then st
      else
        let mark = (\<lambda>event.
              if ms_owedEvents st (ID r, event) \<noteq> None then st
              else st\<lparr>ms_owedEvents := (ms_owedEvents st)((ID r, event) \<mapsto> now)\<rparr>)
        in case Status r of
             StatusRunning \<Rightarrow> mark OwedStart
           | StatusPendingApproval \<Rightarrow> mark OwedHold
           | _ \<Rightarrow> st)"

section \<open>Save and reads\<close>

text \<open>The row a save stores: the caller's copy, with what a save must never change taken from
  the row it replaces.\<close>

definition or_text :: "string \<Rightarrow> string \<Rightarrow> string" where
  "or_text a b = (if a \<noteq> [] then a else b)"

definition keep_stored :: "run \<Rightarrow> run \<Rightarrow> run" where
  "keep_stored prev cl = cl\<lparr>
     CancelRequested := CancelRequested cl \<or> CancelRequested prev,
     DecisionID := DecisionID prev, DecisionClaim := DecisionClaim prev,
     SealedVars := (if SealedVars prev \<noteq> [] then SealedVars prev else SealedVars cl),
     SealedNames := (if SealedVars prev \<noteq> [] then SealedVarNames (SealedVars prev)
       else SealedNames cl),
     SealedDigests := (if SealedDigests prev \<noteq> [] then SealedDigests prev else SealedDigests cl),
     InventorySealed := InventorySealed prev, PlanSealed := PlanSealed prev,
     InventorySnapshot := (if InventorySnapshot prev \<noteq> None then InventorySnapshot prev
       else InventorySnapshot cl),
     PlanSHA256 := (if PlanSHA256 prev \<noteq> [] then PlanSHA256 prev else PlanSHA256 cl),
     ApprovalRequested := ApprovalRequested cl \<or> ApprovalRequested prev,
     SpecSeal := or_text (SpecSeal cl) (SpecSeal prev),
     ResultSeal := or_text (ResultSeal cl) (ResultSeal prev)\<rparr>"

definition save_row :: "run option \<Rightarrow> run \<Rightarrow> run" where
  "save_row prev r =
     (case prev of
        None \<Rightarrow> r\<lparr>DecisionID := [], DecisionClaim := []\<rparr>
      | Some p \<Rightarrow> keep_stored p r)"

definition Save :: "gotime \<Rightarrow> string list \<Rightarrow> run \<Rightarrow> mem_store \<Rightarrow> run_error option \<times> mem_store" where
  "Save now ord r0 st =
     (let r = Sanitize r0 in
      if IdempotencyKey r \<noteq> [] \<and>
         (case ms_byKey st (IdempotencyKey r) of Some owner \<Rightarrow> owner \<noteq> ID r | None \<Rightarrow> False)
      then (Some ErrDuplicateKey, st)
      else if LiveCallback r \<and> list_ex (\<lambda>i. i \<noteq> ID r \<and>
            (case ms_runs st i of Some other \<Rightarrow> LiveCallback other \<and> sameCallbackLane other r
             | None \<Rightarrow> False)) ord
      then (Some ErrCallbackPending, st)
      else
        let prev = ms_runs st (ID r);
            cl = save_row prev r;
            st1 = (if Status cl \<noteq> StatusPendingApproval
                   then st\<lparr>ms_parked := ms_parked st - {ID r}\<rparr> else st);
            st2 = st1\<lparr>ms_outcomes := noteSave prev cl (ms_outcomes st1)\<rparr>;
            st3 = (case prev of
                     Some p \<Rightarrow> noteStatus now cl (Status p) st2
                   | None \<Rightarrow> if Status cl = StatusPendingApproval
                            then noteStatus now cl (StatusOther []) st2 else st2);
            st4 = put_run (ID r) cl st3;
            st5 = (if ParentID cl = None \<and> \<not> Terminal (Status cl)
                   then st4\<lparr>ms_unended := insert (ID r) (ms_unended st4)\<rparr> else st4);
            st6 = (if ms_logs st5 (ID r) = None
                   then st5\<lparr>ms_logs := (ms_logs st5)(ID r \<mapsto> [])\<rparr> else st5);
            st7 = (if IdempotencyKey r \<noteq> []
                   then st6\<lparr>ms_byKey := (ms_byKey st6)(IdempotencyKey r \<mapsto> ID r)\<rparr> else st6)
        in (None, st7))"

definition Get :: "string \<Rightarrow> mem_store \<Rightarrow> run_error + run" where
  "Get i st = (case ms_runs st i of None \<Rightarrow> Inl ErrNotFound | Some r \<Rightarrow> Inr r)"

definition ByIdempotencyKey :: "string \<Rightarrow> mem_store \<Rightarrow> run_error + run" where
  "ByIdempotencyKey key st =
     (if key = [] then Inl ErrNotFound
      else case ms_byKey st key of
        None \<Rightarrow> Inl ErrNotFound
      | Some i \<Rightarrow> (case ms_runs st i of None \<Rightarrow> Inl ErrNotFound | Some r \<Rightarrow> Inr r))"

text \<open>The rows a loop visits, in its order.\<close>

definition rows :: "string list \<Rightarrow> mem_store \<Rightarrow> run list" where
  "rows ord st = List.map_filter (ms_runs st) ord"

text \<open>\<open>sort.Slice\<close> by a strict order that is total on distinct ids: an insertion sort.\<close>

fun insert_by :: "('a \<Rightarrow> 'a \<Rightarrow> bool) \<Rightarrow> 'a \<Rightarrow> 'a list \<Rightarrow> 'a list" where
  "insert_by lt x [] = [x]"
| "insert_by lt x (y # ys) = (if lt y x then y # insert_by lt x ys else x # y # ys)"

definition sort_by :: "('a \<Rightarrow> 'a \<Rightarrow> bool) \<Rightarrow> 'a list \<Rightarrow> 'a list" where
  "sort_by lt xs = foldr (insert_by lt) xs []"

definition newest_first :: "run \<Rightarrow> run \<Rightarrow> bool" where
  "newest_first a b = (if CreatedAt a = CreatedAt b then ID a > ID b else CreatedAt a > CreatedAt b)"

definition ListRuns :: "string list \<Rightarrow> mem_store \<Rightarrow> run list" where
  "ListRuns ord st = sort_by newest_first (filter (\<lambda>r. ParentID r = None) (rows ord st))"

definition shardIndex :: "run \<Rightarrow> int" where
  "shardIndex r = (case ShardIndex r of None \<Rightarrow> 2 ^ 30 | Some i \<Rightarrow> i)"

definition Shards :: "string list \<Rightarrow> string \<Rightarrow> mem_store \<Rightarrow> run list" where
  "Shards ord parentID st =
     sort_by (\<lambda>a b. shardIndex a < shardIndex b)
       (filter (\<lambda>r. ParentID r = Some parentID) (rows ord st))"

definition StepRuns :: "string list \<Rightarrow> string \<Rightarrow> mem_store \<Rightarrow> run list" where
  "StepRuns ord parentID st =
     sort_by (\<lambda>a b. if stepIndex a \<noteq> stepIndex b then stepIndex a < stepIndex b
                    else Attempt a < Attempt b)
       (filter (\<lambda>r. ParentID r = Some parentID) (rows ord st))"

definition NonTerminal :: "string list \<Rightarrow> mem_store \<Rightarrow> run list" where
  "NonTerminal ord st = filter (\<lambda>r. \<not> Terminal (Status r)) (rows ord st)"

section \<open>Leases\<close>

text \<open>Which rows a claim may take, and which of two it prefers.\<close>

definition claimable :: "string list \<Rightarrow> mem_store \<Rightarrow> run \<Rightarrow> bool" where
  "claimable queues st r =
     (if Status r \<noteq> StatusPending \<or> ClaimedBy r \<noteq> [] \<or> Kind r \<noteq> [] \<or> CancelRequested r then False
      else if Queue r \<notin> set queues then False
      else case ParentID r of
        None \<Rightarrow> True
      | Some p \<Rightarrow> (case ms_runs st p of
                     None \<Rightarrow> False
                   | Some parent \<Rightarrow> \<not> CancelRequested parent \<and> Status parent = StatusRunning))"

definition older :: "run \<Rightarrow> run \<Rightarrow> bool" where
  "older r best \<longleftrightarrow> CreatedAt r < CreatedAt best \<or> (CreatedAt r = CreatedAt best \<and> ID r < ID best)"

fun claim_scan :: "string list \<Rightarrow> mem_store \<Rightarrow> run list \<Rightarrow> run option \<Rightarrow> run option" where
  "claim_scan queues st [] oldest = oldest"
| "claim_scan queues st (r # rs) oldest =
     claim_scan queues st rs
       (if claimable queues st r \<and> (case oldest of None \<Rightarrow> True | Some best \<Rightarrow> older r best)
        then Some r else oldest)"

definition Claim :: "gotime \<Rightarrow> string \<Rightarrow> string list \<Rightarrow> string \<Rightarrow> string list \<Rightarrow> mem_store \<Rightarrow>
    (run_error + run) \<times> mem_store" where
  "Claim now secret ord owner queues st =
     (case claim_scan queues st (rows ord st) None of
        None \<Rightarrow> (Inl ErrNonePending, st)
      | Some r \<Rightarrow>
          let r' = r\<lparr>ClaimedBy := owner, ClaimedAt := Some now, ClaimSecret := secret\<rparr>
          in (Inr r', put_run (ID r) r' st))"

definition Heartbeat :: "gotime \<Rightarrow> string \<Rightarrow> string \<Rightarrow> mem_store \<Rightarrow> run_error option \<times> mem_store" where
  "Heartbeat now i owner st =
     (case ms_runs st i of
        None \<Rightarrow> (Some ErrNotFound, st)
      | Some r \<Rightarrow>
          if ClaimedBy r \<noteq> owner \<or> (Status r \<noteq> StatusPending \<and> Status r \<noteq> StatusRunning)
          then (Some ErrNotFound, st)
          else (None, put_run i (r\<lparr>ClaimedAt := Some now\<rparr>) st))"

section \<open>The lease sweep\<close>

definition clear_lease :: "run \<Rightarrow> run" where
  "clear_lease r = r\<lparr>ClaimedBy := [], ClaimedAt := None, ClaimSecret := []\<rparr>"

definition set_error_if_empty :: "string \<Rightarrow> run \<Rightarrow> run" where
  "set_error_if_empty msg r = (if Error r = [] then r\<lparr>Error := msg\<rparr> else r)"

definition lease_before :: "gotime \<Rightarrow> run \<Rightarrow> bool" where
  "lease_before cutoff r \<longleftrightarrow> ClaimedBy r \<noteq> [] \<and>
     (case ClaimedAt r of None \<Rightarrow> False | Some t \<Rightarrow> t < cutoff)"

text \<open>The children of each row as they were when the sweep began, in the order its first loop met
  them.\<close>

definition children_of :: "string list \<Rightarrow> mem_store \<Rightarrow> string \<Rightarrow> run list" where
  "children_of ord st i = filter (\<lambda>r. ParentID r = Some i) (rows ord st)"

text \<open>The clock readings of a sweep: one reading per row it touches.\<close>

type_synonym clock = "string \<Rightarrow> gotime"

definition park_row :: "run \<Rightarrow> run" where
  "park_row r = clear_lease (r\<lparr>Status := StatusPendingApproval\<rparr>)"

text \<open>The children are held as pointers to the stored rows, so a child parked earlier in the same
  loop is seen as it is now.\<close>

definition park_one :: "clock \<Rightarrow> gotime \<Rightarrow> string list \<Rightarrow> string \<Rightarrow> int \<times> mem_store \<Rightarrow> int \<times> mem_store" where
  "park_one clk cutoff cord i acc =
     (case ms_runs (snd acc) i of
        None \<Rightarrow> acc
      | Some r \<Rightarrow>
          if Status r \<noteq> StatusRunning \<or> \<not> lease_before cutoff r \<or>
             \<not> StalledAtApproval r (children_of cord (snd acc) i)
          then acc
          else
            let r' = park_row r;
                st1 = put_run i r' (snd acc);
                st2 = st1\<lparr>ms_parked := insert i (ms_parked st1)\<rparr>
            in (fst acc + 1, noteStatus (clk i) r' StatusRunning st2))"

definition parkStalled :: "clock \<Rightarrow> gotime \<Rightarrow> string list \<Rightarrow> string list \<Rightarrow> mem_store \<Rightarrow> int \<times> mem_store" where
  "parkStalled clk cutoff cord ord st = fold (park_one clk cutoff cord) ord (0, st)"

definition leaseExpiredError :: string where
  "leaseExpiredError = ''interrupted: executor lease expired''"

definition interrupt_row :: "gotime \<Rightarrow> string \<Rightarrow> run \<Rightarrow> run" where
  "interrupt_row now msg r =
     set_error_if_empty msg (r\<lparr>Status := StatusInterrupted, EndedAt := Some now\<rparr>)"

record sweep_acc =
  sw_changed :: int
  sw_settled :: "string list"
  sw_store :: mem_store

definition settle_top :: "string \<Rightarrow> run \<Rightarrow> string list \<Rightarrow> string list" where
  "settle_top i r settled = (if ParentID r = None then settled @ [i] else settled)"

definition sweep_one :: "clock \<Rightarrow> gotime \<Rightarrow> string \<Rightarrow> sweep_acc \<Rightarrow> sweep_acc" where
  "sweep_one clk cutoff i acc =
     (case ms_runs (sw_store acc) i of
        None \<Rightarrow> acc
      | Some r \<Rightarrow>
          if AbandonedParent r cutoff then
            \<lparr>sw_changed = sw_changed acc + 1, sw_settled = settle_top i r (sw_settled acc),
             sw_store = put_run i (interrupt_row (clk i) abandonedParentError r) (sw_store acc)\<rparr>
          else if \<not> lease_before cutoff r then acc
          else case Status r of
            StatusPending \<Rightarrow>
              if CancelRequested r then
                \<lparr>sw_changed = sw_changed acc + 1, sw_settled = settle_top i r (sw_settled acc),
                 sw_store = put_run i
                   ((clear_lease r)\<lparr>Status := StatusCanceled, EndedAt := Some (clk i)\<rparr>)
                   (sw_store acc)\<rparr>
              else
                \<lparr>sw_changed = sw_changed acc + 1, sw_settled = sw_settled acc,
                 sw_store = (let st = put_run i (clear_lease r) (sw_store acc)
                             in st\<lparr>ms_queued := (ms_queued st)(i \<mapsto> clk i)\<rparr>)\<rparr>
          | StatusRunning \<Rightarrow>
              \<lparr>sw_changed = sw_changed acc + 1, sw_settled = settle_top i r (sw_settled acc),
               sw_store = put_run i (interrupt_row (clk i) leaseExpiredError (clear_lease r))
                 (sw_store acc)\<rparr>
          | _ \<Rightarrow> acc)"

definition orphaned :: "mem_store \<Rightarrow> string \<Rightarrow> bool" where
  "orphaned st p = (case ms_runs st p of
     None \<Rightarrow> False
   | Some r \<Rightarrow> Status r = StatusInterrupted \<and> (Kind r = KindSplit \<or> Kind r = KindPipeline))"

text \<open>\<open>orphans\<close> is the set of interrupted parents taken before the loop that settles their
  children.\<close>

definition orphan_one :: "clock \<Rightarrow> (string \<Rightarrow> bool) \<Rightarrow> string \<Rightarrow> int \<times> mem_store \<Rightarrow> int \<times> mem_store" where
  "orphan_one clk orphans i acc =
     (case ms_runs (snd acc) i of
        None \<Rightarrow> acc
      | Some r \<Rightarrow>
          if (case ParentID r of None \<Rightarrow> True | Some p \<Rightarrow> \<not> orphans p) \<or> InFlight r then acc
          else case Status r of
            StatusRunning \<Rightarrow>
              if CancelRequested r then acc
              else (fst acc + 1, put_run i (r\<lparr>CancelRequested := True\<rparr>) (snd acc))
          | s \<Rightarrow>
              if s = StatusPending \<or> s = StatusPendingApproval then
                (fst acc + 1,
                 put_run i (set_error_if_empty orphanError
                   ((clear_lease r)\<lparr>Status := StatusCanceled, EndedAt := Some (clk i)\<rparr>)) (snd acc))
              else acc)"

definition resolveOrphans :: "clock \<Rightarrow> string list \<Rightarrow> mem_store \<Rightarrow> int \<times> mem_store" where
  "resolveOrphans clk ord st = fold (orphan_one clk (orphaned st)) ord (0, st)"

text \<open>\<open>reclaimStale\<close>: \<open>now0\<close> is the reading the cutoff is taken from; \<open>c1\<close>, \<open>c2\<close> and \<open>c3\<close> are the
  readings of its three loops, and \<open>cord\<close> and \<open>o1\<close> to \<open>o3\<close> the orders they visit the rows in.\<close>

definition reclaimStale :: "gotime \<Rightarrow> clock \<Rightarrow> clock \<Rightarrow> clock \<Rightarrow> string list \<Rightarrow> string list \<Rightarrow>
    string list \<Rightarrow> string list \<Rightarrow> duration \<Rightarrow> mem_store \<Rightarrow> (int \<times> string list) \<times> mem_store" where
  "reclaimStale now0 c1 c2 c3 cord o1 o2 o3 ttl st =
     (let cutoff = now0 - ttl;
          (parked, st1) = parkStalled c1 cutoff cord o1 st;
          acc = fold (sweep_one c2 cutoff) o2
                  \<lparr>sw_changed = parked, sw_settled = [], sw_store = st1\<rparr>;
          (n, st3) = resolveOrphans c3 o3 (sw_store acc)
      in ((sw_changed acc + n, sw_settled acc), st3))"

definition ReclaimStaleSettled :: "gotime \<Rightarrow> clock \<Rightarrow> clock \<Rightarrow> clock \<Rightarrow> string list \<Rightarrow> string list \<Rightarrow>
    string list \<Rightarrow> string list \<Rightarrow> duration \<Rightarrow> mem_store \<Rightarrow> (int \<times> string list) \<times> mem_store" where
  "ReclaimStaleSettled now0 c1 c2 c3 cord o1 o2 o3 ttl st =
     (case reclaimStale now0 c1 c2 c3 cord o1 o2 o3 ttl st of
        ((n, settled), st') \<Rightarrow> ((n, sort settled), st'))"

definition ReclaimStale :: "gotime \<Rightarrow> clock \<Rightarrow> clock \<Rightarrow> clock \<Rightarrow> string list \<Rightarrow> string list \<Rightarrow>
    string list \<Rightarrow> string list \<Rightarrow> duration \<Rightarrow> mem_store \<Rightarrow> int \<times> mem_store" where
  "ReclaimStale now0 c1 c2 c3 cord o1 o2 o3 ttl st =
     (case reclaimStale now0 c1 c2 c3 cord o1 o2 o3 ttl st of ((n, _), st') \<Rightarrow> (n, st'))"

section \<open>Cancel and transitions\<close>

definition RequestCancel :: "string \<Rightarrow> mem_store \<Rightarrow> run_error option \<times> mem_store" where
  "RequestCancel i st =
     (case ms_runs st i of
        None \<Rightarrow> (Some ErrNotFound, st)
      | Some r \<Rightarrow> (None, put_run i (r\<lparr>CancelRequested := True\<rparr>) st))"

definition CancelPending :: "gotime \<Rightarrow> string \<Rightarrow> mem_store \<Rightarrow> bool \<times> mem_store" where
  "CancelPending now i st =
     (case ms_runs st i of
        None \<Rightarrow> (False, st)
      | Some r \<Rightarrow>
          if ClaimedBy r \<noteq> [] \<or> InFlight r then (False, st)
          else if Status r \<noteq> StatusPending \<and> Status r \<noteq> StatusPendingApproval then (False, st)
          else
            let st1 = put_run i (r\<lparr>Status := StatusCanceled, EndedAt := Some now,
                  InventorySealed := [], PlanSealed := []\<rparr>) st
            in (True, st1\<lparr>ms_parked := ms_parked st1 - {i}\<rparr>))"

definition stamp_start :: "gotime \<Rightarrow> run \<Rightarrow> run" where
  "stamp_start startedAt r =
     (if StartedAt r = None \<and> \<not> IsZero startedAt then r\<lparr>StartedAt := Some startedAt\<rparr> else r)"

definition TransitionStatusAndClaim :: "gotime \<Rightarrow> string \<Rightarrow> status \<Rightarrow> status \<Rightarrow> string \<Rightarrow> gotime \<Rightarrow>
    mem_store \<Rightarrow> bool \<times> mem_store" where
  "TransitionStatusAndClaim now i from to owner startedAt st =
     (case ms_runs st i of
        None \<Rightarrow> (False, st)
      | Some r \<Rightarrow>
          if Status r \<noteq> from \<or> CancelRequested r \<or> InFlight r then (False, st)
          else
            let r1 = r\<lparr>Status := to, ClaimedBy := owner, ClaimedAt := Some now\<rparr>;
                st1 = st\<lparr>ms_parked := ms_parked st - {i}\<rparr>;
                st2 = noteStatus now r1 from st1
            in (True, put_run i (stamp_start startedAt r1) st2))"

definition StartClaimed :: "gotime \<Rightarrow> string \<Rightarrow> string \<Rightarrow> string \<Rightarrow> gotime \<Rightarrow> mem_store \<Rightarrow>
    bool \<times> mem_store" where
  "StartClaimed now i owner secret startedAt st =
     (case ms_runs st i of
        None \<Rightarrow> (False, st)
      | Some r \<Rightarrow>
          if owner = [] \<or> Status r \<noteq> StatusPending \<or> CancelRequested r \<or> ClaimedBy r \<noteq> owner \<or>
             ClaimSecret r \<noteq> secret
          then (False, st)
          else
            let r1 = r\<lparr>Status := StatusRunning, ClaimedAt := Some now\<rparr>;
                st1 = noteStatus now r1 StatusPending st
            in (True, put_run i (stamp_start startedAt r1) st1))"

definition TransitionStatus :: "gotime \<Rightarrow> string \<Rightarrow> status \<Rightarrow> status \<Rightarrow> mem_store \<Rightarrow>
    bool \<times> mem_store" where
  "TransitionStatus now i from to st =
     (case ms_runs st i of
        None \<Rightarrow> (False, st)
      | Some r \<Rightarrow>
          if Status r \<noteq> from \<or> InFlight r \<or> i \<in> ms_parked st then (False, st)
          else
            let r1 = r\<lparr>Status := to\<rparr>;
                st1 = noteStatus now r1 from (put_run i r1 st)
            in (True, if to = StatusPending
                      then st1\<lparr>ms_queued := (ms_queued st1)(i \<mapsto> now)\<rparr> else st1))"

definition QueuedTimes :: "mem_store \<Rightarrow> (string \<rightharpoonup> gotime)" where
  "QueuedTimes st = (\<lambda>i. case ms_runs st i of
     Some r \<Rightarrow> if Status r = StatusPending then ms_queued st i else None | None \<Rightarrow> None)"

section \<open>Approved specs, seals and kept plans\<close>

definition StampApprovedSpec :: "string \<Rightarrow> string \<Rightarrow> string \<Rightarrow> string \<Rightarrow> mem_store \<Rightarrow>
    run_error option \<times> mem_store" where
  "StampApprovedSpec i digest binding seal st =
     (case ms_runs st i of
        None \<Rightarrow> (Some ErrNotFound, st)
      | Some r \<Rightarrow> (None, put_run i (r\<lparr>ApprovedSpecDigest := digest, ApprovedSpecBinding := binding,
                                    SpecSeal := seal\<rparr>) st))"

definition SealAdopted :: "string \<Rightarrow> adoption \<Rightarrow> mem_store \<Rightarrow> (run_error + bool) \<times> mem_store" where
  "SealAdopted i a st =
     (case Adoption_Check a of
        Some e \<Rightarrow> (Inl e, st)
      | None \<Rightarrow>
          (case ms_runs st i of
             None \<Rightarrow> (Inl ErrNotFound, st)
           | Some r \<Rightarrow>
               if (ad_SpecSeal a \<noteq> [] \<and> SpecSeal r \<noteq> []) \<or> (ad_ResultSeal a \<noteq> [] \<and> ResultSeal r \<noteq> []) \<or>
                  (ad_Claim a \<noteq> [] \<and> DecisionClaim r \<noteq> ad_PrevClaim a)
               then (Inr False, st)
               else (Inr True, put_run i
                 (r\<lparr>SpecSeal := or_text (ad_SpecSeal a) (SpecSeal r),
                    ResultSeal := or_text (ad_ResultSeal a) (ResultSeal r),
                    DecisionClaim := or_text (ad_Claim a) (DecisionClaim r)\<rparr>) st)))"

definition wipe_row :: "run \<Rightarrow> run" where
  "wipe_row r = r\<lparr>InventorySealed := [], PlanSealed := []\<rparr>"

definition WipeSealed :: "string \<Rightarrow> mem_store \<Rightarrow> run_error option \<times> mem_store" where
  "WipeSealed i st =
     (case ms_runs st i of
        None \<Rightarrow> (Some ErrNotFound, st) | Some r \<Rightarrow> (None, put_run i (wipe_row r) st))"

definition sweep_sealed_one :: "string \<Rightarrow> int \<times> mem_store \<Rightarrow> int \<times> mem_store" where
  "sweep_sealed_one i acc =
     (case ms_runs (snd acc) i of
        None \<Rightarrow> acc
      | Some r \<Rightarrow>
          if Terminal (Status r) \<and> (InventorySealed r \<noteq> [] \<or> PlanSealed r \<noteq> [])
          then (fst acc + 1, put_run i (wipe_row r) (snd acc)) else acc)"

definition SweepSealed :: "string list \<Rightarrow> mem_store \<Rightarrow> int \<times> mem_store" where
  "SweepSealed ord st = fold sweep_sealed_one ord (0, st)"

definition drop_plans :: "string \<Rightarrow> run \<Rightarrow> mem_store \<Rightarrow> mem_store" where
  "drop_plans i r st = st\<lparr>ms_driftPlans := (\<lambda>other.
     if other \<noteq> i \<and> (case ms_runs st other of
          None \<Rightarrow> False | Some x \<Rightarrow> ProjectID x = ProjectID r \<and> Command x = Command r)
     then None else ms_driftPlans st other)\<rparr>"

definition KeepDriftPlan :: "string \<Rightarrow> string \<Rightarrow> mem_store \<Rightarrow> run_error option \<times> mem_store" where
  "KeepDriftPlan i sealed st =
     (case ms_runs st i of
        None \<Rightarrow> (Some ErrNotFound, st)
      | Some r \<Rightarrow>
          if Status r \<noteq> StatusRunning \<or> \<not> DryRun r then (Some ErrNoDriftCheck, st)
          else
            let st1 = drop_plans i r st
            in (None, if sealed \<noteq> []
                      then st1\<lparr>ms_driftPlans := (ms_driftPlans st1)(i \<mapsto> sealed)\<rparr> else st1))"

definition DriftPlan :: "string \<Rightarrow> mem_store \<Rightarrow> run_error + string" where
  "DriftPlan i st =
     (case ms_runs st i of
        None \<Rightarrow> Inl ErrNotFound
      | Some _ \<Rightarrow> Inr (case ms_driftPlans st i of Some s \<Rightarrow> s | None \<Rightarrow> []))"

section \<open>Holds and decisions\<close>

definition ParkForApproval :: "gotime \<Rightarrow> string \<Rightarrow> string \<Rightarrow> mem_store \<Rightarrow> bool \<times> mem_store" where
  "ParkForApproval now i owner st =
     (case ms_runs st i of
        None \<Rightarrow> (False, st)
      | Some r \<Rightarrow>
          if owner = [] \<or> Status r \<noteq> StatusRunning \<or> ClaimedBy r \<noteq> owner \<or> CancelRequested r
          then (False, st)
          else
            let r' = park_row r;
                st1 = put_run i r' st;
                st2 = st1\<lparr>ms_parked := insert i (ms_parked st1)\<rparr>
            in (True, noteStatus now r' StatusRunning st2))"

definition SettleHeld :: "string \<Rightarrow> finalization \<Rightarrow> mem_store \<Rightarrow> (run_error + bool) \<times> mem_store" where
  "SettleHeld i fin0 st =
     (if \<not> Terminal (fin_Status fin0) then (Inl ErrNotTerminal, st)
      else
        let fin = Finalization_SanitizeText fin0 in
        case ms_runs st i of
          None \<Rightarrow> (Inr False, st)
        | Some r \<Rightarrow>
            if Status r \<noteq> StatusPendingApproval \<or> ClaimedBy r \<noteq> [] \<or> InFlight r \<or> i \<in> ms_parked st
            then (Inr False, st)
            else (Inr True, put_run i (r\<lparr>Status := fin_Status fin, Error := fin_Error fin,
                   ResultSeal := fin_ResultSeal fin, EndedAt := Some (fin_EndedAt fin),
                   InventorySealed := [], PlanSealed := []\<rparr>) st))"

definition ClaimDecision :: "string \<Rightarrow> string \<Rightarrow> string \<Rightarrow> mem_store \<Rightarrow> (run_error + bool) \<times> mem_store" where
  "ClaimDecision i decisionID claim st =
     (if decisionID = [] \<or> claim = [] then (Inl ErrNoDecision, st)
      else case ms_runs st i of
        None \<Rightarrow> (Inr False, st)
      | Some r \<Rightarrow>
          if Status r \<noteq> StatusPendingApproval \<or> ClaimedBy r \<noteq> [] \<or> CancelRequested r \<or>
             DecisionClaim r \<noteq> [] \<or> i \<in> ms_parked st
          then (Inr False, st)
          else (Inr True, put_run i (r\<lparr>DecisionID := decisionID, DecisionClaim := claim\<rparr>) st))"

definition settle_row :: "gotime \<Rightarrow> decision_settle \<Rightarrow> run \<Rightarrow> run" where
  "settle_row now s r =
     (if dst_Status s = StatusRunning then
        (let r1 = r\<lparr>ClaimedBy := dst_Owner s, ClaimedAt := Some now\<rparr>
         in if StartedAt r1 = None then r1\<lparr>StartedAt := Some now\<rparr> else r1)
      else if dst_Status s = StatusPending then r
      else if Terminal (dst_Status s) \<and> \<not> IsZero (dst_EndedAt s) then
        r\<lparr>Error := dst_Error s, EndedAt := Some (dst_EndedAt s)\<rparr>
      else r)"

definition SettleDecision :: "gotime \<Rightarrow> string \<Rightarrow> string \<Rightarrow> decision_settle \<Rightarrow> mem_store \<Rightarrow>
    (run_error + bool) \<times> mem_store" where
  "SettleDecision now i decisionID s0 st =
     (case DecisionSettle_Check s0 of
        Some e \<Rightarrow> (Inl e, st)
      | None \<Rightarrow>
          let s = DecisionSettle_SanitizeText s0 in
          (case ms_runs st i of
             None \<Rightarrow> (Inr False, st)
           | Some r \<Rightarrow>
               if \<not> InFlight r \<or> DecisionID r \<noteq> decisionID then (Inr False, st)
               else
                 let r1 = r\<lparr>Status := dst_Status s, DecisionClaim := []\<rparr>;
                     st1 = noteStatus now r1 StatusPendingApproval st;
                     st2 = put_run i (settle_row now s r1) st1
                 in (Inr True, if dst_Status s = StatusPending
                               then st2\<lparr>ms_queued := (ms_queued st2)(i \<mapsto> now)\<rparr> else st2)))"

definition finalize_row :: "finalization \<Rightarrow> run \<Rightarrow> run" where
  "finalize_row fin r = r\<lparr>Status := fin_Status fin, ClaimSecret := [], ExitCode := fin_ExitCode fin,
     Error := fin_Error fin, Image := fin_Image fin, InventoryCheck := fin_InventoryCheck fin,
     CommitSHA := fin_CommitSHA fin, PullCredentialID := fin_PullCredentialID fin,
     Outputs := fin_Outputs fin, Warning := fin_Warning fin, ImageDigest := fin_ImageDigest fin,
     ResolvedHosts := fin_ResolvedHosts fin, ResultSeal := fin_ResultSeal fin,
     EndedAt := Some (fin_EndedAt fin), InventorySealed := [], PlanSealed := []\<rparr>"

definition FinalizeRunning :: "string \<Rightarrow> finalization \<Rightarrow> mem_store \<Rightarrow> bool \<times> mem_store" where
  "FinalizeRunning i fin0 st =
     (let fin = Finalization_SanitizeText fin0 in
      case ms_runs st i of
        None \<Rightarrow> (False, st)
      | Some r \<Rightarrow>
          if Status r \<noteq> StatusRunning then (False, st)
          else if fin_Owner fin \<noteq> [] \<and> ClaimedBy r \<noteq> fin_Owner fin then (False, st)
          else (True, put_run i (finalize_row fin r) st))"

definition progress_row :: "progress \<Rightarrow> run \<Rightarrow> run" where
  "progress_row p r = r\<lparr>
     StartedAt := (if StartedAt r = None \<and> pr_StartedAt p \<noteq> None then pr_StartedAt p else StartedAt r),
     Warning := (if pr_Warning p \<noteq> [] then pr_Warning p else Warning r),
     Outputs := (if pr_Outputs p \<noteq> [] then pr_Outputs p else Outputs r)\<rparr>"

definition ApplyRunningProgress :: "string \<Rightarrow> string \<Rightarrow> progress \<Rightarrow> mem_store \<Rightarrow> bool \<times> mem_store" where
  "ApplyRunningProgress i owner p0 st =
     (let p = Progress_SanitizeText p0 in
      case ms_runs st i of
        None \<Rightarrow> (False, st)
      | Some r \<Rightarrow>
          if Status r \<noteq> StatusRunning \<or> ClaimedBy r \<noteq> owner then (False, st)
          else (True, put_run i (progress_row p r) st))"

end
