(* ===== verification/Row_Steps.thy ===== *)
theory Row_Steps
  imports MemStore
begin

text \<open>
  What the run store may do to one row. \<open>row_step\<close> lists every way a row changes, with the guard
  the operation checks under its lock; \<open>Store_Steps\<close> proves that each operation of the store
  changes each row only in these ways. The label says which kind of write it is: a whole-row
  save, a status move whose end points the caller names, a decision claimed or settled, or any
  other write, each of which carries its own fence.
\<close>

datatype row_op = RSave | RMove status status | RDecide string | RSettle string | RFenced

inductive row_step :: "row_op \<Rightarrow> run \<Rightarrow> run \<Rightarrow> bool" where
  save: "ID q = ID r \<Longrightarrow> row_step RSave r (keep_stored r (Sanitize q))"
| claim: "Status r = StatusPending \<Longrightarrow> ClaimedBy r = [] \<Longrightarrow> Kind r = [] \<Longrightarrow> \<not> CancelRequested r \<Longrightarrow>
    row_step RFenced r (r\<lparr>ClaimedBy := owner, ClaimedAt := Some now, ClaimSecret := secret\<rparr>)"
| heartbeat: "Status r = StatusPending \<or> Status r = StatusRunning \<Longrightarrow>
    row_step RFenced r (r\<lparr>ClaimedAt := Some now\<rparr>)"
| park: "Status r = StatusRunning \<Longrightarrow> ClaimedBy r \<noteq> [] \<Longrightarrow> \<not> CancelRequested r \<Longrightarrow>
    row_step RFenced r (park_row r)"
| abandon: "AbandonedParent r cutoff \<Longrightarrow>
    row_step RFenced r (interrupt_row now abandonedParentError r)"
| requeue: "Status r = StatusPending \<Longrightarrow> ClaimedBy r \<noteq> [] \<Longrightarrow> \<not> CancelRequested r \<Longrightarrow>
    row_step RFenced r (clear_lease r)"
| cancel_stale: "Status r = StatusPending \<Longrightarrow> ClaimedBy r \<noteq> [] \<Longrightarrow> CancelRequested r \<Longrightarrow>
    row_step RFenced r ((clear_lease r)\<lparr>Status := StatusCanceled, EndedAt := Some now\<rparr>)"
| expire: "Status r = StatusRunning \<Longrightarrow> ClaimedBy r \<noteq> [] \<Longrightarrow>
    row_step RFenced r (interrupt_row now leaseExpiredError (clear_lease r))"
| orphan_cancel: "\<not> InFlight r \<Longrightarrow> Status r = StatusPending \<or> Status r = StatusPendingApproval \<Longrightarrow>
    row_step RFenced r (set_error_if_empty orphanError
      ((clear_lease r)\<lparr>Status := StatusCanceled, EndedAt := Some now\<rparr>))"
| flag: "row_step RFenced r (r\<lparr>CancelRequested := True\<rparr>)"
| cancel: "ClaimedBy r = [] \<Longrightarrow> \<not> InFlight r \<Longrightarrow>
    Status r = StatusPending \<or> Status r = StatusPendingApproval \<Longrightarrow>
    row_step RFenced r (r\<lparr>Status := StatusCanceled, EndedAt := Some now, InventorySealed := [],
      PlanSealed := []\<rparr>)"
| move_claim: "Status r = from \<Longrightarrow> \<not> CancelRequested r \<Longrightarrow> \<not> InFlight r \<Longrightarrow>
    row_step (RMove from to) r
      (stamp_start startedAt (r\<lparr>Status := to, ClaimedBy := owner, ClaimedAt := Some now\<rparr>))"
| start: "owner \<noteq> [] \<Longrightarrow> Status r = StatusPending \<Longrightarrow> \<not> CancelRequested r \<Longrightarrow> ClaimedBy r = owner \<Longrightarrow>
    row_step RFenced r (stamp_start startedAt (r\<lparr>Status := StatusRunning, ClaimedAt := Some now\<rparr>))"
| move: "Status r = from \<Longrightarrow> \<not> InFlight r \<Longrightarrow> row_step (RMove from to) r (r\<lparr>Status := to\<rparr>)"
| stamp: "row_step RFenced r (r\<lparr>ApprovedSpecDigest := digest, ApprovedSpecBinding := binding,
    SpecSeal := seal\<rparr>)"
| adopt: "a_spec = [] \<or> SpecSeal r = [] \<Longrightarrow> a_result = [] \<or> ResultSeal r = [] \<Longrightarrow>
    a_claim = [] \<or> DecisionClaim r \<noteq> [] \<Longrightarrow>
    row_step RFenced r (r\<lparr>SpecSeal := or_text a_spec (SpecSeal r),
      ResultSeal := or_text a_result (ResultSeal r), DecisionClaim := or_text a_claim (DecisionClaim r)\<rparr>)"
| wipe: "row_step RFenced r (wipe_row r)"
| settle_held: "Terminal (fin_Status (fin :: finalization)) \<Longrightarrow> Status r = StatusPendingApproval \<Longrightarrow> ClaimedBy r = [] \<Longrightarrow>
    \<not> InFlight r \<Longrightarrow>
    row_step RFenced r (r\<lparr>Status := fin_Status fin, Error := fin_Error fin,
      ResultSeal := fin_ResultSeal fin, EndedAt := Some (fin_EndedAt fin), InventorySealed := [],
      PlanSealed := []\<rparr>)"
| decide: "d \<noteq> [] \<Longrightarrow> claim \<noteq> [] \<Longrightarrow> Status r = StatusPendingApproval \<Longrightarrow> ClaimedBy r = [] \<Longrightarrow>
    \<not> CancelRequested r \<Longrightarrow> DecisionClaim r = [] \<Longrightarrow>
    row_step (RDecide d) r (r\<lparr>DecisionID := d, DecisionClaim := claim\<rparr>)"
| settle: "DecisionSettle_Check s = None \<Longrightarrow> InFlight r \<Longrightarrow> DecisionID r = d \<Longrightarrow>
    row_step (RSettle d) r (settle_row now s (r\<lparr>Status := dst_Status s, DecisionClaim := []\<rparr>))"
| finalize: "Status r = StatusRunning \<Longrightarrow> fin_Owner fin = [] \<or> ClaimedBy r = fin_Owner fin \<Longrightarrow>
    row_step RFenced r (finalize_row fin r)"
| progress: "Status r = StatusRunning \<Longrightarrow> row_step RFenced r (progress_row p r)"
| truncated: "\<not> Terminal (Status r) \<Longrightarrow> Warning r = [] \<Longrightarrow>
    row_step RFenced r (r\<lparr>Warning := w\<rparr>)"

inductive_cases row_step_saveE: "row_step RSave r r'"
inductive_cases row_step_moveE: "row_step (RMove from to) r r'"
inductive_cases row_step_decideE: "row_step (RDecide d) r r'"
inductive_cases row_step_settleE: "row_step (RSettle d) r r'"

text \<open>Several writes in a row, all with labels in a set.\<close>

inductive row_steps :: "row_op set \<Rightarrow> run \<Rightarrow> run \<Rightarrow> bool" for L where
  rs_refl [intro, simp]: "row_steps L r r"
| step: "row_steps L r r' \<Longrightarrow> row_step l r' r'' \<Longrightarrow> l \<in> L \<Longrightarrow> row_steps L r r''"

lemma row_steps_one: "row_step l r r' \<Longrightarrow> l \<in> L \<Longrightarrow> row_steps L r r'"
  by (rule row_steps.step [OF row_steps.rs_refl])

lemma row_steps_trans: "row_steps L r r' \<Longrightarrow> row_steps L r' r'' \<Longrightarrow> row_steps L r r''"
  by (rotate_tac, induction rule: row_steps.induct) (auto intro: row_steps.step)

lemma row_steps_mono: "row_steps L r r' \<Longrightarrow> L \<subseteq> M \<Longrightarrow> row_steps M r r'"
  by (induction rule: row_steps.induct) (auto intro: row_steps.step)

lemmas row_defs = keep_stored_def park_row_def clear_lease_def interrupt_row_def
  set_error_if_empty_def stamp_start_def wipe_row_def settle_row_def finalize_row_def
  progress_row_def or_text_def

section \<open>What every write keeps\<close>

lemma row_step_ID: "row_step l r r' \<Longrightarrow> ID r' = ID r"
  by (induction rule: row_step.induct) (auto simp: row_defs Let_def)

lemma row_step_CancelRequested: "row_step l r r' \<Longrightarrow> CancelRequested r \<Longrightarrow> CancelRequested r'"
  by (induction rule: row_step.induct) (auto simp: row_defs Let_def)

lemma row_step_bindings:
  assumes "row_step l r r'"
  shows "SealedDigests r \<noteq> [] \<Longrightarrow> SealedDigests r' = SealedDigests r"
    and "PlanSHA256 r \<noteq> [] \<Longrightarrow> PlanSHA256 r' = PlanSHA256 r"
    and "InventorySnapshot r \<noteq> None \<Longrightarrow> InventorySnapshot r' = InventorySnapshot r"
    and "ApprovalRequested r \<Longrightarrow> ApprovalRequested r'"
  using assms by (induction rule: row_step.induct) (auto simp: row_defs Let_def)

lemma row_step_sealed:
  assumes "row_step l r r'"
  shows "InventorySealed r' = InventorySealed r \<or> InventorySealed r' = []"
    and "PlanSealed r' = PlanSealed r \<or> PlanSealed r' = []"
  using assms by (induction rule: row_step.induct) (auto simp: row_defs Let_def)

text \<open>A finished row: only a whole-row save or a status move that names a finished status as its
  starting point touches what it finished with.\<close>

definition unfenced :: "row_op \<Rightarrow> bool" where
  "unfenced l \<longleftrightarrow> (case l of RSave \<Rightarrow> True | RMove from _ \<Rightarrow> Terminal from | _ \<Rightarrow> False)"

lemma row_step_terminal:
  assumes "row_step l r r'" and "Terminal (Status r)" and "\<not> unfenced l"
  shows "Status r' = Status r \<and> EndedAt r' = EndedAt r \<and> ExitCode r' = ExitCode r \<and>
    Error r' = Error r \<and> Outputs r' = Outputs r \<and> StartedAt r' = StartedAt r"
  using assms
  by (induction rule: row_step.induct)
    (auto simp: row_defs Let_def unfenced_def InFlight_def AbandonedParent_def split: if_splits)

text \<open>A row a decision has claimed: nothing but that decision's settlement, or a whole-row save,
  moves it.\<close>

lemma row_step_in_flight:
  assumes "row_step l r r'" and "InFlight r" and "l \<noteq> RSave" and "l \<noteq> RSettle (DecisionID r)"
  shows "InFlight r' \<and> DecisionID r' = DecisionID r"
  using assms
  by (induction rule: row_step.induct)
    (auto simp: row_defs Let_def InFlight_def AbandonedParent_def split: if_splits)

lemma row_step_DecisionID:
  assumes "row_step l r r'" and "\<forall>d. l \<noteq> RDecide d"
  shows "DecisionID r' = DecisionID r"
  using assms by (induction rule: row_step.induct) (auto simp: row_defs Let_def)

end
