(* ===== verification/MemLedgers.thy ===== *)
theory MemLedgers
  imports MemStore
begin

text \<open>
  The rest of the run store: stream tickets, budgets and secret leases
  (\<open>memstore.go\<close>, \<open>budget.go\<close>, \<open>secretlease.go\<close>), the ledgers of owed ends, starts, holds and
  outcomes (\<open>memstore_ends.go\<close>, \<open>memstore_outcome.go\<close>), captured output (\<open>memstore_log.go\<close>), and
  retention with the readability it leaves behind (\<open>memstore_auth.go\<close>).
\<close>

section \<open>Stream tickets\<close>

definition expire_tickets :: "gotime \<Rightarrow> (string \<rightharpoonup> stream_ticket) \<Rightarrow> (string \<rightharpoonup> stream_ticket)" where
  "expire_tickets now m = (\<lambda>k. case m k of
     None \<Rightarrow> None | Some ex \<Rightarrow> if now > tk_ExpiresAt ex then None else Some ex)"

fun oldest_ticket :: "string \<Rightarrow> (string \<rightharpoonup> stream_ticket) \<Rightarrow> string list \<Rightarrow> string \<times> gotime \<Rightarrow>
    string \<times> gotime" where
  "oldest_ticket key m [] best = best"
| "oldest_ticket key m (k # ks) best =
     oldest_ticket key m ks
       (case m k of
          None \<Rightarrow> best
        | Some ex \<Rightarrow>
            if key \<noteq> [] \<and> tk_ActorKey ex \<noteq> key then best
            else if IsZero (snd best) \<or> tk_ExpiresAt ex < snd best then (k, tk_ExpiresAt ex) else best)"

definition evictOldest :: "string list \<Rightarrow> string \<Rightarrow> (string \<rightharpoonup> stream_ticket) \<Rightarrow>
    (string \<rightharpoonup> stream_ticket) option" where
  "evictOldest ord key m =
     (let oldest = fst (oldest_ticket key m ord ([], zero_time))
      in if oldest = [] then None else Some (m(oldest := None)))"

definition actor_tickets :: "string list \<Rightarrow> string \<Rightarrow> (string \<rightharpoonup> stream_ticket) \<Rightarrow> nat" where
  "actor_tickets ord key m =
     length (filter (\<lambda>k. case m k of None \<Rightarrow> False | Some ex \<Rightarrow> tk_ActorKey ex = key) ord)"

definition live_tickets :: "string list \<Rightarrow> (string \<rightharpoonup> stream_ticket) \<Rightarrow> nat" where
  "live_tickets ord m = length (filter (\<lambda>k. m k \<noteq> None) ord)"

text \<open>The two bounding loops. Each turn removes a ticket or stops, so a turn per key of \<open>ord\<close>
  is enough.\<close>

fun bound_actor :: "nat \<Rightarrow> string list \<Rightarrow> int \<Rightarrow> string \<Rightarrow> (string \<rightharpoonup> stream_ticket) \<Rightarrow>
    (string \<rightharpoonup> stream_ticket)" where
  "bound_actor 0 ord cap key m = m"
| "bound_actor (Suc fuel) ord cap key m =
     (if cap > 0 then
        (if int (actor_tickets ord key m) < cap then m
         else case evictOldest ord key m of None \<Rightarrow> m | Some m' \<Rightarrow> bound_actor fuel ord cap key m')
      else m)"

fun bound_total :: "nat \<Rightarrow> string list \<Rightarrow> int \<Rightarrow> (string \<rightharpoonup> stream_ticket) \<Rightarrow>
    (string \<rightharpoonup> stream_ticket)" where
  "bound_total 0 ord cap m = m"
| "bound_total (Suc fuel) ord cap m =
     (if cap > 0 \<and> int (live_tickets ord m) \<ge> cap then
        (case evictOldest ord [] m of None \<Rightarrow> m | Some m' \<Rightarrow> bound_total fuel ord cap m')
      else m)"

definition SaveStreamTicket :: "gotime \<Rightarrow> string list \<Rightarrow> stream_ticket \<Rightarrow> int \<Rightarrow> int \<Rightarrow> mem_store \<Rightarrow>
    mem_store" where
  "SaveStreamTicket now ord t perActorCap totalCap st =
     (let n = Suc (length ord);
          m1 = expire_tickets now (ms_tickets st);
          m2 = bound_actor n ord perActorCap (tk_ActorKey t) m1;
          m3 = bound_total n ord totalCap m2
      in st\<lparr>ms_tickets := m3(tk_SecretHash t \<mapsto> t)\<rparr>)"

definition RedeemStreamTicket :: "string \<Rightarrow> string \<Rightarrow> gotime \<Rightarrow> mem_store \<Rightarrow>
    string option \<times> mem_store" where
  "RedeemStreamTicket secretHash runID now st =
     (case ms_tickets st secretHash of
        None \<Rightarrow> (None, st)
      | Some t \<Rightarrow>
          let st' = st\<lparr>ms_tickets := (ms_tickets st)(secretHash := None)\<rparr>
          in if now > tk_ExpiresAt t \<or> tk_RunID t \<noteq> runID then (None, st')
             else (Some (tk_Actor t), st'))"

section \<open>Budgets\<close>

definition maxMemBudgets :: nat where "maxMemBudgets = 4096"

definition SpendBudget :: "string list \<Rightarrow> string \<Rightarrow> duration \<Rightarrow> gotime \<Rightarrow> mem_store \<Rightarrow> int \<times> mem_store" where
  "SpendBudget ord key window now st =
     (let fresh = (let m = (if length ord \<ge> maxMemBudgets
                            then (\<lambda>k. case ms_budgets st k of
                                    Some w \<Rightarrow> if now > bw_ends w then None else Some w | None \<Rightarrow> None)
                            else ms_budgets st)
                   in (1, st\<lparr>ms_budgets := m(key \<mapsto> \<lparr>bw_ends = now + window, bw_spent = 1\<rparr>)\<rparr>))
      in case ms_budgets st key of
           None \<Rightarrow> fresh
         | Some w \<Rightarrow>
             if now > bw_ends w then fresh
             else (bw_spent w + 1,
                   st\<lparr>ms_budgets := (ms_budgets st)(key \<mapsto> w\<lparr>bw_spent := bw_spent w + 1\<rparr>)\<rparr>))"

definition BudgetSpent :: "string \<Rightarrow> gotime \<Rightarrow> mem_store \<Rightarrow> int" where
  "BudgetSpent key now st =
     (case ms_budgets st key of
        None \<Rightarrow> 0 | Some w \<Rightarrow> if now > bw_ends w then 0 else bw_spent w)"

section \<open>Secret leases\<close>

definition SaveSecretLease :: "secret_lease \<Rightarrow> mem_store \<Rightarrow> mem_store" where
  "SaveSecretLease l st = st\<lparr>ms_secretLeases := (ms_secretLeases st)(sl_ID l \<mapsto> l)\<rparr>"

definition ListSecretLeases :: "string list \<Rightarrow> int \<Rightarrow> mem_store \<Rightarrow> secret_lease list" where
  "ListSecretLeases ord limit st =
     (let out = sort_by (\<lambda>a b. if sl_CreatedAt a = sl_CreatedAt b then sl_ID a < sl_ID b
                               else sl_CreatedAt a < sl_CreatedAt b)
                  (List.map_filter (ms_secretLeases st) ord)
      in if limit > 0 \<and> int (length out) > limit then take (nat limit) out else out)"

definition TakeSecretLease :: "string \<Rightarrow> mem_store \<Rightarrow> bool \<times> mem_store" where
  "TakeSecretLease i st =
     (case ms_secretLeases st i of
        None \<Rightarrow> (False, st)
      | Some _ \<Rightarrow> (True, st\<lparr>ms_secretLeases := (ms_secretLeases st)(i := None)\<rparr>))"

section \<open>Owed ends, starts and holds\<close>

text \<open>The loop of \<open>OwedEnds\<close>: the ids due with when each was first found ended.\<close>

fun owed_ends_scan :: "gotime \<Rightarrow> duration \<Rightarrow> string list \<Rightarrow> mem_store \<Rightarrow> (string \<times> gotime) list \<Rightarrow>
    (string \<times> gotime) list \<times> mem_store" where
  "owed_ends_scan now grace [] st due = (due, st)"
| "owed_ends_scan now grace (i # is) st due =
     (case ms_runs st i of
        None \<Rightarrow> owed_ends_scan now grace is
                  (st\<lparr>ms_unended := ms_unended st - {i}, ms_endSeen := (ms_endSeen st)(i := None)\<rparr>) due
      | Some r \<Rightarrow>
          if \<not> Terminal (Status r) then owed_ends_scan now grace is st due
          else
            let at = (case ms_endSeen st i of Some t \<Rightarrow> t | None \<Rightarrow> now);
                st' = st\<lparr>ms_endSeen := (ms_endSeen st)(i \<mapsto> at)\<rparr>
            in owed_ends_scan now grace is st' (if now - at \<ge> grace then due @ [(i, at)] else due))"

definition earlier :: "('a::linorder \<times> gotime) \<Rightarrow> ('a \<times> gotime) \<Rightarrow> bool" where
  "earlier a b = (if snd a \<noteq> snd b then snd a < snd b else fst a < fst b)"

definition cap_list :: "int \<Rightarrow> 'a list \<Rightarrow> 'a list" where
  "cap_list limit xs = (if limit > 0 then take (nat limit) xs else xs)"

definition OwedEnds :: "gotime \<Rightarrow> string list \<Rightarrow> duration \<Rightarrow> int \<Rightarrow> mem_store \<Rightarrow>
    string list \<times> mem_store" where
  "OwedEnds now ord grace limit st =
     (case owed_ends_scan now grace ord st [] of
        (due, st') \<Rightarrow> (map fst (cap_list limit (sort_by earlier due)), st'))"

definition SettleEnd :: "string \<Rightarrow> mem_store \<Rightarrow> mem_store" where
  "SettleEnd i st = st\<lparr>ms_unended := ms_unended st - {i}, ms_endSeen := (ms_endSeen st)(i := None)\<rparr>"

text \<open>The order the sweep of starts and holds announces in: by when owed, then run, then event.\<close>

definition owed_before :: "((string \<times> string) \<times> gotime) \<Rightarrow> ((string \<times> string) \<times> gotime) \<Rightarrow> bool" where
  "owed_before a b =
     (if snd a \<noteq> snd b then snd a < snd b
      else if fst (fst a) \<noteq> fst (fst b) then fst (fst a) < fst (fst b)
      else snd (fst a) < snd (fst b))"

fun owed_events_scan :: "gotime \<Rightarrow> duration \<Rightarrow> (string \<times> string) list \<Rightarrow> mem_store \<Rightarrow>
    ((string \<times> string) \<times> gotime) list \<Rightarrow> ((string \<times> string) \<times> gotime) list \<times> mem_store" where
  "owed_events_scan now grace [] st due = (due, st)"
| "owed_events_scan now grace (e # es) st due =
     (case ms_owedEvents st e of
        None \<Rightarrow> owed_events_scan now grace es st due
      | Some at \<Rightarrow>
          if ms_runs st (fst e) = None
          then owed_events_scan now grace es (st\<lparr>ms_owedEvents := (ms_owedEvents st)(e := None)\<rparr>) due
          else owed_events_scan now grace es st (if now - at \<ge> grace then due @ [(e, at)] else due))"

definition OwedEvents :: "gotime \<Rightarrow> (string \<times> string) list \<Rightarrow> duration \<Rightarrow> int \<Rightarrow> mem_store \<Rightarrow>
    (string \<times> string) list \<times> mem_store" where
  "OwedEvents now ord grace limit st =
     (case owed_events_scan now grace ord st [] of
        (due, st') \<Rightarrow> (map fst (cap_list limit (sort_by owed_before due)), st'))"

definition SettleEvent :: "string \<Rightarrow> string \<Rightarrow> mem_store \<Rightarrow> mem_store" where
  "SettleEvent i event st = st\<lparr>ms_owedEvents := (ms_owedEvents st)((i, event) := None)\<rparr>"

section \<open>Owed outcomes\<close>

fun owed_outcomes_scan :: "gotime \<Rightarrow> gotime \<Rightarrow> run list \<Rightarrow> outcome_ledger \<Rightarrow>
    (string \<times> gotime) list \<Rightarrow> (string \<times> gotime) list \<times> outcome_ledger" where
  "owed_outcomes_scan now cutoff [] l out = (out, l)"
| "owed_outcomes_scan now cutoff (r # rs) l out =
     (if \<not> owes l r then owed_outcomes_scan now cutoff rs l out
      else
        let since = (case ol_owedSince l (ID r) of Some t \<Rightarrow> t | None \<Rightarrow> now);
            l' = l\<lparr>ol_owedSince := (ol_owedSince l)(ID r \<mapsto> since)\<rparr>
        in owed_outcomes_scan now cutoff rs l'
             (if since > cutoff then out else out @ [(ID r, since)]))"

definition OwedOutcomes :: "gotime \<Rightarrow> string list \<Rightarrow> duration \<Rightarrow> int \<Rightarrow> mem_store \<Rightarrow>
    string list \<times> mem_store" where
  "OwedOutcomes now ord age limit0 st =
     (let limit = (if limit0 < 1 then 1 else limit0) in
      case owed_outcomes_scan now (now - age) (rows ord st) (ms_outcomes st) [] of
        (out, l) \<Rightarrow> (map fst (take (nat limit) (sort_by earlier out)), st\<lparr>ms_outcomes := l\<rparr>))"

definition OutcomeOwed :: "string \<Rightarrow> mem_store \<Rightarrow> bool" where
  "OutcomeOwed i st =
     (case ms_runs st i of None \<Rightarrow> False | Some r \<Rightarrow> owes (ms_outcomes st) r)"

definition SettleOutcome :: "string \<Rightarrow> mem_store \<Rightarrow> mem_store" where
  "SettleOutcome i st =
     (if \<not> OutcomeOwed i st then st
      else st\<lparr>ms_outcomes := (ms_outcomes st)\<lparr>ol_settled := insert i (ol_settled (ms_outcomes st))\<rparr>\<rparr>)"

section \<open>Captured output\<close>

definition MaxLogBytes :: nat where "MaxLogBytes = 64 * 2 ^ 20"

definition LogTruncatedWarning :: string where
  "LogTruncatedWarning = ''output passed the capture limit and was truncated; the run continued''"

definition log_of :: "mem_store \<Rightarrow> string \<Rightarrow> string" where
  "log_of st i = (case ms_logs st i of Some l \<Rightarrow> l | None \<Rightarrow> [])"

definition events_of :: "mem_store \<Rightarrow> string \<Rightarrow> event list" where
  "events_of st i = (case ms_events st i of Some es \<Rightarrow> es | None \<Rightarrow> [])"

definition AppendLog :: "string \<Rightarrow> string \<Rightarrow> mem_store \<Rightarrow> run_error option \<times> mem_store" where
  "AppendLog i p st =
     (case ms_runs st i of
        None \<Rightarrow> (Some ErrNotFound, st)
      | Some r \<Rightarrow>
          if Terminal (Status r) then (None, st)
          else if length (log_of st i) \<ge> MaxLogBytes then
            (None, if Warning r = [] then put_run i (r\<lparr>Warning := LogTruncatedWarning\<rparr>) st else st)
          else (None, st\<lparr>ms_logs := (ms_logs st)(i \<mapsto> log_of st i @ p)\<rparr>))"

definition Log :: "string \<Rightarrow> mem_store \<Rightarrow> run_error + string" where
  "Log i st = (case ms_runs st i of None \<Rightarrow> Inl ErrNotFound | Some _ \<Rightarrow> Inr (log_of st i))"

definition LogAfter :: "string \<Rightarrow> int \<Rightarrow> mem_store \<Rightarrow> run_error + (int \<times> string) list" where
  "LogAfter i afterSeq0 st =
     (case ms_runs st i of
        None \<Rightarrow> Inl ErrNotFound
      | Some _ \<Rightarrow>
          let buf = log_of st i;
              afterSeq = (if afterSeq0 < 0 then 0 else afterSeq0)
          in if afterSeq \<ge> int (length buf) then Inr []
             else Inr [(int (length buf), drop (nat afterSeq) buf)])"

definition LastLogSeq :: "string \<Rightarrow> mem_store \<Rightarrow> run_error + int" where
  "LastLogSeq i st =
     (case ms_runs st i of None \<Rightarrow> Inl ErrNotFound | Some _ \<Rightarrow> Inr (int (length (log_of st i))))"

definition AppendEvents :: "string \<Rightarrow> event list \<Rightarrow> mem_store \<Rightarrow> run_error option \<times> mem_store" where
  "AppendEvents i events st =
     (case ms_runs st i of
        None \<Rightarrow> (Some ErrNotFound, st)
      | Some r \<Rightarrow>
          if Terminal (Status r) then (None, st)
          else (None, st\<lparr>ms_events := (ms_events st)(i \<mapsto> events_of st i @ events)\<rparr>))"

definition Events :: "string \<Rightarrow> mem_store \<Rightarrow> run_error + event list" where
  "Events i st = (case ms_runs st i of None \<Rightarrow> Inl ErrNotFound | Some _ \<Rightarrow> Inr (events_of st i))"

fun events_after :: "int \<Rightarrow> int \<Rightarrow> int \<Rightarrow> event list \<Rightarrow> nat \<Rightarrow> event list" where
  "events_after sq afterSeq limit [] n = []"
| "events_after sq afterSeq limit (e # es) n =
     (if sq \<le> afterSeq then events_after (sq + 1) afterSeq limit es n
      else e\<lparr>ev_Seq := sq\<rparr> #
        (if limit > 0 \<and> int (Suc n) \<ge> limit then []
         else events_after (sq + 1) afterSeq limit es (Suc n)))"

definition EventsAfter :: "string \<Rightarrow> int \<Rightarrow> int \<Rightarrow> mem_store \<Rightarrow> run_error + event list" where
  "EventsAfter i afterSeq limit st =
     (case ms_runs st i of
        None \<Rightarrow> Inl ErrNotFound
      | Some _ \<Rightarrow> Inr (events_after 1 afterSeq limit (events_of st i) 0))"

definition LastEventSeq :: "string \<Rightarrow> mem_store \<Rightarrow> run_error + int" where
  "LastEventSeq i st =
     (case ms_runs st i of None \<Rightarrow> Inl ErrNotFound | Some _ \<Rightarrow> Inr (int (length (events_of st i))))"

section \<open>Retention\<close>

definition purgeable :: "gotime \<Rightarrow> mem_store \<Rightarrow> run \<Rightarrow> bool" where
  "purgeable cutoff st r \<longleftrightarrow> Terminal (Status r) \<and> CreatedAt r < cutoff \<and> \<not> heldForOutcome st r"

definition purge_events_one :: "gotime \<Rightarrow> string \<Rightarrow> int \<times> mem_store \<Rightarrow> int \<times> mem_store" where
  "purge_events_one cutoff i acc =
     (let st = snd acc in
      case ms_runs st i of
        None \<Rightarrow> acc
      | Some r \<Rightarrow>
          if \<not> purgeable cutoff st r then acc
          else if events_of st i = [] \<and> log_of st i = [] then acc
          else (fst acc + 1, st\<lparr>ms_events := (ms_events st)(i := None),
                               ms_logs := (ms_logs st)(i := None)\<rparr>))"

definition PurgeEventsBefore :: "string list \<Rightarrow> gotime \<Rightarrow> mem_store \<Rightarrow> int \<times> mem_store" where
  "PurgeEventsBefore ord cutoff st = fold (purge_events_one cutoff) ord (0, st)"

definition purge_run_one :: "gotime \<Rightarrow> string \<Rightarrow> int \<times> mem_store \<Rightarrow> int \<times> mem_store" where
  "purge_run_one cutoff i acc =
     (let st = snd acc in
      case ms_runs st i of
        None \<Rightarrow> acc
      | Some r \<Rightarrow>
          if \<not> purgeable cutoff st r then acc
          else (fst acc + 1, st\<lparr>
            ms_byKey := (if IdempotencyKey r \<noteq> [] \<and> ms_byKey st (IdempotencyKey r) = Some i
                         then (ms_byKey st)(IdempotencyKey r := None) else ms_byKey st),
            ms_runAuth := (ms_runAuth st)(i \<mapsto> AuthOf r),
            ms_runs := (ms_runs st)(i := None), ms_events := (ms_events st)(i := None),
            ms_logs := (ms_logs st)(i := None), ms_queued := (ms_queued st)(i := None),
            ms_driftPlans := (ms_driftPlans st)(i := None),
            ms_outcomes := forget i (ms_outcomes st)\<rparr>))"

definition PurgeRunsBefore :: "string list \<Rightarrow> gotime \<Rightarrow> mem_store \<Rightarrow> int \<times> mem_store" where
  "PurgeRunsBefore ord cutoff st = fold (purge_run_one cutoff) ord (0, st)"

definition RunAuthFor :: "string \<Rightarrow> mem_store \<Rightarrow> run_error + run_auth" where
  "RunAuthFor i st =
     (case ms_runs st i of
        Some r \<Rightarrow> Inr (AuthOf r)
      | None \<Rightarrow> (case ms_runAuth st i of Some a \<Rightarrow> Inr a | None \<Rightarrow> Inl ErrNotFound))"

text \<open>\<open>ford\<close> and \<open>hord\<close> visit the gathered facts and their history.\<close>

definition referenced :: "string list \<Rightarrow> string list \<Rightarrow> mem_store \<Rightarrow> string \<Rightarrow> bool" where
  "referenced ford hord st i \<longleftrightarrow> i \<noteq> [] \<and>
     (ms_runs st i \<noteq> None \<or> ms_events st i \<noteq> None \<or> ms_logs st i \<noteq> None \<or>
      list_ex (\<lambda>h. case ms_facts st h of Some f \<Rightarrow> hf_RunID f = i | None \<Rightarrow> False) ford \<or>
      list_ex (\<lambda>h. case ms_factsHistory st h of
        Some kept \<Rightarrow> list_ex (\<lambda>f. hf_RunID f = i) kept | None \<Rightarrow> False) hord \<or>
      ms_summaries st i \<noteq> None \<or> ms_tasks st i \<noteq> None)"

definition purge_auth_one :: "string list \<Rightarrow> string list \<Rightarrow> string \<Rightarrow> int \<times> mem_store \<Rightarrow> int \<times> mem_store" where
  "purge_auth_one ford hord i acc =
     (if ms_runAuth (snd acc) i = None \<or> referenced ford hord (snd acc) i then acc
      else (fst acc + 1, (snd acc)\<lparr>ms_runAuth := (ms_runAuth (snd acc))(i := None)\<rparr>))"

definition PurgeRunAuth :: "string list \<Rightarrow> string list \<Rightarrow> string list \<Rightarrow> mem_store \<Rightarrow> int \<times> mem_store" where
  "PurgeRunAuth ford hord ord st = fold (purge_auth_one ford hord) ord (0, st)"

end
