(* ===== verification/Store_Steps.thy ===== *)
theory Store_Steps
  imports Row_Steps MemLedgers
begin

text \<open>
  The run store as a transition system: one step per operation, and the proof that every step
  changes each row only as \<open>row_step\<close> allows. What holds of row steps then holds of every
  sequence of store operations, whatever order they interleave in.
\<close>

section \<open>Frame facts\<close>

definition store_ok :: "mem_store \<Rightarrow> bool" where
  "store_ok st \<longleftrightarrow> (\<forall>i r. ms_runs st i = Some r \<longrightarrow> ID r = i)"

lemma runs_noteStatus [simp, frame_simps]: "ms_runs (noteStatus now r from st) = ms_runs st"
  by (simp add: noteStatus_def Let_def split: status.splits)

lemma runs_put_run [simp, frame_simps]: "ms_runs (put_run i r st) = (ms_runs st)(i \<mapsto> r)"
  by (simp add: put_run_def)

lemma byKey_noteStatus [simp, frame_simps]: "ms_byKey (noteStatus now r from st) = ms_byKey st"
  by (simp add: noteStatus_def Let_def split: status.splits)

lemma byKey_put_run [simp, frame_simps]: "ms_byKey (put_run i r st) = ms_byKey st"
  by (simp add: put_run_def)

lemma rows_mem: "r \<in> set (rows ord st) \<longleftrightarrow> (\<exists>i\<in>set ord. ms_runs st i = Some r)"
  by (force simp: rows_def map_filter_def)

section \<open>Refinement to rows\<close>

text \<open>\<open>L i\<close> is the set of labels the row \<open>i\<close> may be written with.\<close>

definition refines_rows ::
  "(string \<Rightarrow> row_op set) \<Rightarrow> (string \<rightharpoonup> run) \<Rightarrow> (string \<rightharpoonup> run) \<Rightarrow> bool" where
  "refines_rows L m m' \<longleftrightarrow> (\<forall>i. case m i of
     None \<Rightarrow> m' i = None | Some r \<Rightarrow> (\<exists>r'. m' i = Some r' \<and> row_steps (L i) r r'))"

abbreviation fenced :: "string \<Rightarrow> row_op set" where
  "fenced \<equiv> \<lambda>_. {RFenced}"

lemma refines_refl [simp, intro]: "refines_rows L m m"
  by (auto simp: refines_rows_def split: option.splits)

lemma refines_trans: "refines_rows L m m' \<Longrightarrow> refines_rows L m' m'' \<Longrightarrow> refines_rows L m m''"
  unfolding refines_rows_def
proof
  fix i
  assume a: "\<forall>i. case m i of None \<Rightarrow> m' i = None | Some r \<Rightarrow> (\<exists>r'. m' i = Some r' \<and> row_steps (L i) r r')"
    and b: "\<forall>i. case m' i of None \<Rightarrow> m'' i = None | Some r \<Rightarrow> (\<exists>r'. m'' i = Some r' \<and> row_steps (L i) r r')"
  show "case m i of None \<Rightarrow> m'' i = None | Some r \<Rightarrow> (\<exists>r'. m'' i = Some r' \<and> row_steps (L i) r r')"
    using a [rule_format, of i] b [rule_format, of i]
    by (auto split: option.splits intro: row_steps_trans)
qed

lemma refines_put:
  "ms_runs st i = Some r \<Longrightarrow> row_step l r r' \<Longrightarrow> l \<in> L i \<Longrightarrow>
     refines_rows L (ms_runs st) ((ms_runs st)(i \<mapsto> r'))"
  by (auto simp: refines_rows_def intro: row_steps_one split: option.splits)

lemma refines_fold:
  assumes "\<And>x a. refines_rows L (view a) (view (f x a))"
  shows "refines_rows L (view a) (view (fold f xs a))"
proof (induction xs arbitrary: a)
  case (Cons x xs)
  show ?case using refines_trans [OF assms Cons.IH] by simp
qed simp

lemma refines_SomeD:
  "refines_rows L m m' \<Longrightarrow> m i = Some r \<Longrightarrow> \<exists>r'. m' i = Some r' \<and> row_steps (L i) r r'"
  by (auto simp: refines_rows_def split: option.splits dest: spec [of _ i])

lemma refines_NoneD: "refines_rows L m m' \<Longrightarrow> m i = None \<Longrightarrow> m' i = None"
  by (auto simp: refines_rows_def split: option.splits dest: spec [of _ i])

lemma claim_scan_from:
  "claim_scan queues st rs best = Some r \<Longrightarrow>
     best = Some r \<or> (r \<in> set rs \<and> claimable queues st r)"
  by (induction rs arbitrary: best) (auto split: if_splits)

lemma claimable_guard:
  "claimable queues st r \<Longrightarrow> Status r = StatusPending \<and> ClaimedBy r = [] \<and> Kind r = [] \<and>
     \<not> CancelRequested r \<and> Queue r \<in> set queues"
  by (auto simp: claimable_def split: if_splits)

lemma Claim_refines:
  assumes "store_ok st"
  shows "refines_rows fenced (ms_runs st) (ms_runs (snd (Claim now secret ord owner queues st)))"
proof (cases "claim_scan queues st (rows ord st) None")
  case None
  then show ?thesis by (simp add: Claim_def)
next
  case (Some r)
  then have r: "r \<in> set (rows ord st)" "claimable queues st r"
    using claim_scan_from [OF Some] by auto
  then have "ms_runs st (ID r) = Some r" using assms by (auto simp: rows_mem store_ok_def)
  from refines_put [OF this row_step.claim] Some claimable_guard [OF r(2)]
  show ?thesis by (simp add: Claim_def Let_def)
qed

lemma Heartbeat_refines:
  "refines_rows fenced (ms_runs st) (ms_runs (snd (Heartbeat now i owner st)))"
  by (auto simp: Heartbeat_def split: option.splits intro!: refines_put row_step.heartbeat)

lemma park_one_refines:
  "refines_rows fenced (ms_runs (snd acc)) (ms_runs (snd (park_one clk cutoff cord i acc)))"
  by (auto simp: park_one_def Let_def lease_before_def StalledAtApproval_def
      split: option.splits if_splits intro!: refines_put row_step.park)

lemma sweep_one_refines:
  "refines_rows fenced (ms_runs (sw_store acc)) (ms_runs (sw_store (sweep_one clk cutoff i acc)))"
proof (cases "ms_runs (sw_store acc) i")
  case None
  then show ?thesis by (simp add: sweep_one_def)
next
  case (Some r)
  have up: "row_step RFenced r r' \<Longrightarrow>
      refines_rows fenced (ms_runs (sw_store acc)) ((ms_runs (sw_store acc))(i \<mapsto> r'))" for r'
    using refines_put [OF Some] by auto
  show ?thesis
    using Some
    by (auto simp: sweep_one_def Let_def lease_before_def split: status.splits option.splits
        intro!: up intro: row_step.intros)
qed

lemma orphan_one_refines:
  "refines_rows fenced (ms_runs (snd acc)) (ms_runs (snd (orphan_one clk orphans i acc)))"
proof (cases "ms_runs (snd acc) i")
  case None
  then show ?thesis by (simp add: orphan_one_def)
next
  case (Some r)
  have up: "row_step RFenced r r' \<Longrightarrow>
      refines_rows fenced (ms_runs (snd acc)) ((ms_runs (snd acc))(i \<mapsto> r'))" for r'
    using refines_put [OF Some] by auto
  show ?thesis
    using Some
    by (auto simp: orphan_one_def split: status.splits option.splits
        intro!: up intro: row_step.intros)
qed

lemma reclaimStale_refines:
  "refines_rows fenced (ms_runs st)
     (ms_runs (snd (reclaimStale now0 c1 c2 c3 cord o1 o2 o3 ttl st)))"
proof -
  obtain n st1 where p: "parkStalled c1 (now0 - ttl) cord o1 st = (n, st1)" by fastforce
  define acc where "acc = fold (sweep_one c2 (now0 - ttl)) o2
    \<lparr>sw_changed = n, sw_settled = [], sw_store = st1\<rparr>"
  obtain k st3 where r: "resolveOrphans c3 o3 (sw_store acc) = (k, st3)" by fastforce
  have st1: "st1 = snd (parkStalled c1 (now0 - ttl) cord o1 st)" using p by simp
  have st3: "st3 = snd (resolveOrphans c3 o3 (sw_store acc))" using r by simp
  have a: "refines_rows fenced (ms_runs st) (ms_runs st1)"
    using refines_fold [where view = "\<lambda>a. ms_runs (snd a)", OF park_one_refines,
        where a = "(0, st)" and xs = o1]
    unfolding parkStalled_def st1 by simp
  have b: "refines_rows fenced (ms_runs st1) (ms_runs (sw_store acc))"
    using refines_fold [where view = "\<lambda>a. ms_runs (sw_store a)", OF sweep_one_refines,
        where a = "\<lparr>sw_changed = n, sw_settled = [], sw_store = st1\<rparr>" and xs = o2]
    unfolding acc_def by simp
  have c: "refines_rows fenced (ms_runs (sw_store acc)) (ms_runs st3)"
    using refines_fold [where view = "\<lambda>a. ms_runs (snd a)", OF orphan_one_refines,
        where a = "(0, sw_store acc)" and xs = o3]
    unfolding resolveOrphans_def st3 by simp
  have "snd (reclaimStale now0 c1 c2 c3 cord o1 o2 o3 ttl st) = st3"
    using p r by (simp add: reclaimStale_def acc_def Let_def)
  then show ?thesis using refines_trans [OF refines_trans [OF a b] c] by simp
qed

section \<open>Operations on one row\<close>

text \<open>The labels of an operation that writes only the row \<open>j\<close>.\<close>

definition only :: "string \<Rightarrow> row_op \<Rightarrow> string \<Rightarrow> row_op set" where
  "only j l = (\<lambda>i. if i = j then {l} else {})"

lemma only_self [simp]: "l \<in> only j l j"
  by (simp add: only_def)

lemma RequestCancel_refines:
  "refines_rows fenced (ms_runs st) (ms_runs (snd (RequestCancel i st)))"
  by (auto simp: RequestCancel_def split: option.splits intro!: refines_put row_step.flag)

lemma CancelPending_refines:
  "refines_rows fenced (ms_runs st) (ms_runs (snd (CancelPending now i st)))"
  by (auto simp: CancelPending_def Let_def split: option.splits intro!: refines_put row_step.cancel)

lemma TransitionStatusAndClaim_refines:
  "refines_rows (only i (RMove from to)) (ms_runs st)
     (ms_runs (snd (TransitionStatusAndClaim now i from to owner startedAt st)))"
  by (auto simp: TransitionStatusAndClaim_def Let_def split: option.splits
      intro!: refines_put [OF _ _ only_self] row_step.move_claim)

lemma StartClaimed_refines:
  "refines_rows fenced (ms_runs st) (ms_runs (snd (StartClaimed now i owner secret startedAt st)))"
  by (auto simp: StartClaimed_def Let_def split: option.splits intro!: refines_put row_step.start)

lemma TransitionStatus_refines:
  "refines_rows (only i (RMove from to)) (ms_runs st)
     (ms_runs (snd (TransitionStatus now i from to st)))"
  by (auto simp: TransitionStatus_def Let_def split: option.splits
      intro!: refines_put [OF _ _ only_self] row_step.move)

lemma StampApprovedSpec_refines:
  "refines_rows fenced (ms_runs st) (ms_runs (snd (StampApprovedSpec i digest binding seal st)))"
  by (auto simp: StampApprovedSpec_def split: option.splits intro!: refines_put row_step.stamp)

lemma SealAdopted_refines:
  "refines_rows fenced (ms_runs st) (ms_runs (snd (SealAdopted i a st)))"
proof (cases "Adoption_Check a = None")
  case True
  then have "ad_Claim a = [] \<or> ad_PrevClaim a \<noteq> []"
    by (auto simp: Adoption_Check_def split: if_splits)
  with True show ?thesis
    by (auto simp: SealAdopted_def split: option.splits intro!: refines_put row_step.adopt)
qed (auto simp: SealAdopted_def)

lemma WipeSealed_refines:
  "refines_rows fenced (ms_runs st) (ms_runs (snd (WipeSealed i st)))"
  by (auto simp: WipeSealed_def split: option.splits intro!: refines_put row_step.wipe)

lemma SweepSealed_refines:
  "refines_rows fenced (ms_runs st) (ms_runs (snd (SweepSealed ord st)))"
proof -
  have "refines_rows fenced (ms_runs (snd acc)) (ms_runs (snd (sweep_sealed_one i acc)))" for i acc
    by (auto simp: sweep_sealed_one_def split: option.splits intro!: refines_put row_step.wipe)
  from refines_fold [where view = "\<lambda>a. ms_runs (snd a)", OF this, where a = "(0, st)" and xs = ord]
  show ?thesis unfolding SweepSealed_def by simp
qed

lemma runs_KeepDriftPlan [simp]: "ms_runs (snd (KeepDriftPlan i sealed st)) = ms_runs st"
  by (simp add: KeepDriftPlan_def drop_plans_def Let_def split: option.splits)

lemma ParkForApproval_refines:
  "refines_rows fenced (ms_runs st) (ms_runs (snd (ParkForApproval now i owner st)))"
  by (auto simp: ParkForApproval_def Let_def split: option.splits intro!: refines_put row_step.park)

lemma SettleHeld_refines:
  "refines_rows fenced (ms_runs st) (ms_runs (snd (SettleHeld i fin st)))"
  by (auto simp: SettleHeld_def Let_def simp del: Finalization_SanitizeText_frame
      split: option.splits intro!: refines_put row_step.settle_held)
    (simp add: Finalization_SanitizeText_frame)

lemma ClaimDecision_refines:
  "refines_rows (only i (RDecide d)) (ms_runs st) (ms_runs (snd (ClaimDecision i d claim st)))"
  by (auto simp: ClaimDecision_def split: option.splits
      intro!: refines_put [OF _ _ only_self] row_step.decide)

lemma DecisionSettle_Check_SanitizeText [simp]:
  "DecisionSettle_Check (DecisionSettle_SanitizeText s) = DecisionSettle_Check s"
  by (simp add: DecisionSettle_Check_def)

lemma SettleDecision_refines:
  "refines_rows (only i (RSettle d)) (ms_runs st) (ms_runs (snd (SettleDecision now i d s st)))"
proof (cases "DecisionSettle_Check s")
  case None
  show ?thesis
  proof (cases "ms_runs st i")
    case (Some r)
    let ?s = "DecisionSettle_SanitizeText s"
    have "row_step (RSettle d) r (settle_row now ?s (r\<lparr>Status := dst_Status ?s, DecisionClaim := []\<rparr>))"
      if "InFlight r" "DecisionID r = d"
      by (rule row_step.settle) (use None that in simp_all)
    then show ?thesis
      using None Some
      by (auto simp: SettleDecision_def Let_def intro!: refines_put [OF _ _ only_self])
  qed (simp add: SettleDecision_def None Let_def)
qed (simp add: SettleDecision_def)

lemma FinalizeRunning_refines:
  "refines_rows fenced (ms_runs st) (ms_runs (snd (FinalizeRunning i fin st)))"
  by (auto simp: FinalizeRunning_def Let_def split: option.splits
      intro!: refines_put row_step.finalize)

lemma ApplyRunningProgress_refines:
  "refines_rows fenced (ms_runs st) (ms_runs (snd (ApplyRunningProgress i owner p st)))"
  by (auto simp: ApplyRunningProgress_def Let_def split: option.splits
      intro!: refines_put row_step.progress)

lemma AppendLog_refines:
  "refines_rows fenced (ms_runs st) (ms_runs (snd (AppendLog i p st)))"
  by (auto simp: AppendLog_def split: option.splits intro!: refines_put row_step.truncated)

section \<open>Save\<close>

lemma Save_runs:
  "ms_runs (snd (Save now ord r st)) =
     (if fst (Save now ord r st) = None
      then (ms_runs st)(ID r \<mapsto> save_row (ms_runs st (ID r)) (Sanitize r)) else ms_runs st)"
  unfolding Save_def Let_def by (simp split: option.splits)

lemma Save_byKey:
  "ms_byKey (snd (Save now ord r st)) =
     (if fst (Save now ord r st) = None \<and> IdempotencyKey r \<noteq> []
      then (ms_byKey st)(IdempotencyKey r \<mapsto> ID r) else ms_byKey st)"
  unfolding Save_def Let_def by (simp split: option.splits)

lemma save_row_frame [simp, frame_simps]:
  "ID (save_row p r) = ID r" "Status (save_row p r) = Status r"
  "IdempotencyKey (save_row p r) = IdempotencyKey r" "Source (save_row p r) = Source r"
  "ParentID (save_row p r) = ParentID r" "SourceID (save_row p r) = SourceID r"
  "Limit (save_row p r) = Limit r"
  by (simp_all add: save_row_def keep_stored_def split: option.splits)

section \<open>Steps\<close>

datatype store_op =
    OpSave run | OpMove string status status | OpDecide string string | OpSettle string string
  | OpPurge gotime | OpFenced

inductive store_step :: "store_op \<Rightarrow> mem_store \<Rightarrow> mem_store \<Rightarrow> bool" where
  save: "iterates ord (ms_runs st) \<Longrightarrow> store_step (OpSave r) st (snd (Save now ord r st))"
| claim: "iterates ord (ms_runs st) \<Longrightarrow>
    store_step OpFenced st (snd (Claim now secret ord owner queues st))"
| heartbeat: "store_step OpFenced st (snd (Heartbeat now i owner st))"
| reclaim: "iterates cord (ms_runs st) \<Longrightarrow> iterates o1 (ms_runs st) \<Longrightarrow> iterates o2 (ms_runs st) \<Longrightarrow>
    iterates o3 (ms_runs st) \<Longrightarrow>
    store_step OpFenced st (snd (reclaimStale now0 c1 c2 c3 cord o1 o2 o3 ttl st))"
| request_cancel: "store_step OpFenced st (snd (RequestCancel i st))"
| cancel_pending: "store_step OpFenced st (snd (CancelPending now i st))"
| transition_claim: "store_step (OpMove i from to) st
    (snd (TransitionStatusAndClaim now i from to owner startedAt st))"
| start_claimed: "store_step OpFenced st (snd (StartClaimed now i owner secret startedAt st))"
| transition: "store_step (OpMove i from to) st (snd (TransitionStatus now i from to st))"
| stamp_spec: "store_step OpFenced st (snd (StampApprovedSpec i digest binding seal st))"
| seal_adopted: "store_step OpFenced st (snd (SealAdopted i a st))"
| wipe_sealed: "store_step OpFenced st (snd (WipeSealed i st))"
| sweep_sealed: "iterates ord (ms_runs st) \<Longrightarrow> store_step OpFenced st (snd (SweepSealed ord st))"
| keep_plan: "store_step OpFenced st (snd (KeepDriftPlan i sealed st))"
| park: "store_step OpFenced st (snd (ParkForApproval now i owner st))"
| settle_held: "store_step OpFenced st (snd (SettleHeld i fin st))"
| claim_decision: "store_step (OpDecide i d) st (snd (ClaimDecision i d claim st))"
| settle_decision: "store_step (OpSettle i d) st (snd (SettleDecision now i d s st))"
| finalize: "store_step OpFenced st (snd (FinalizeRunning i fin st))"
| progress: "store_step OpFenced st (snd (ApplyRunningProgress i owner p st))"
| save_ticket: "iterates tord (ms_tickets st) \<Longrightarrow>
    store_step OpFenced st (SaveStreamTicket now tord t perActorCap totalCap st)"
| redeem_ticket: "store_step OpFenced st (snd (RedeemStreamTicket secretHash i now st))"
| spend_budget: "iterates bord (ms_budgets st) \<Longrightarrow>
    store_step OpFenced st (snd (SpendBudget bord key window now st))"
| save_lease: "store_step OpFenced st (SaveSecretLease l st)"
| take_lease: "store_step OpFenced st (snd (TakeSecretLease i st))"
| owed_ends: "set uord = ms_unended st \<Longrightarrow> distinct uord \<Longrightarrow>
    store_step OpFenced st (snd (OwedEnds now uord grace limit st))"
| settle_end: "store_step OpFenced st (SettleEnd i st)"
| owed_events: "iterates eord (ms_owedEvents st) \<Longrightarrow>
    store_step OpFenced st (snd (OwedEvents now eord grace limit st))"
| settle_event: "store_step OpFenced st (SettleEvent i e st)"
| owed_outcomes: "iterates ord (ms_runs st) \<Longrightarrow>
    store_step OpFenced st (snd (OwedOutcomes now ord age limit st))"
| settle_outcome: "store_step OpFenced st (SettleOutcome i st)"
| append_log: "store_step OpFenced st (snd (AppendLog i p st))"
| append_events: "store_step OpFenced st (snd (AppendEvents i es st))"
| purge_events: "iterates ord (ms_runs st) \<Longrightarrow>
    store_step OpFenced st (snd (PurgeEventsBefore ord cutoff st))"
| purge_runs: "iterates ord (ms_runs st) \<Longrightarrow>
    store_step (OpPurge cutoff) st (snd (PurgeRunsBefore ord cutoff st))"
| purge_auth: "iterates ford (ms_facts st) \<Longrightarrow> iterates hord (ms_factsHistory st) \<Longrightarrow>
    iterates aord (ms_runAuth st) \<Longrightarrow>
    store_step OpFenced st (snd (PurgeRunAuth ford hord aord st))"

text \<open>Which labels an operation may write the row \<open>i\<close> with.\<close>

fun op_labels :: "store_op \<Rightarrow> string \<Rightarrow> row_op set" where
  "op_labels (OpSave q) = only (ID q) RSave"
| "op_labels (OpMove j from to) = only j (RMove from to)"
| "op_labels (OpDecide j d) = only j (RDecide d)"
| "op_labels (OpSettle j d) = only j (RSettle d)"
| "op_labels (OpPurge cutoff) = (\<lambda>_. {})"
| "op_labels OpFenced = fenced"

section \<open>Operations that leave the rows alone\<close>

lemma runs_tickets [simp]: "ms_runs (SaveStreamTicket now tord t a b st) = ms_runs st"
  "ms_runs (snd (RedeemStreamTicket h i now st)) = ms_runs st"
  by (simp_all add: SaveStreamTicket_def RedeemStreamTicket_def Let_def split: option.splits)

lemma runs_budget [simp]: "ms_runs (snd (SpendBudget bord key window now st)) = ms_runs st"
  by (simp add: SpendBudget_def Let_def split: option.splits)

lemma runs_leases [simp]: "ms_runs (SaveSecretLease l st) = ms_runs st"
  "ms_runs (snd (TakeSecretLease i st)) = ms_runs st"
  by (simp_all add: SaveSecretLease_def TakeSecretLease_def split: option.splits)

lemma runs_owed_ends_scan [simp]: "ms_runs (snd (owed_ends_scan now g is st due)) = ms_runs st"
  by (induction now g "is" st due rule: owed_ends_scan.induct)
    (simp_all add: Let_def split: option.splits)

lemma runs_owed_events_scan [simp]: "ms_runs (snd (owed_events_scan now g es st due)) = ms_runs st"
  by (induction now g es st due rule: owed_events_scan.induct) (simp_all split: option.splits)

lemma runs_ledgers [simp]:
  "ms_runs (snd (OwedEnds now uord grace limit st)) = ms_runs st"
  "ms_runs (SettleEnd i st) = ms_runs st"
  "ms_runs (snd (OwedEvents now eord grace limit st)) = ms_runs st"
  "ms_runs (SettleEvent i e st) = ms_runs st"
  "ms_runs (snd (OwedOutcomes now ord age limit st)) = ms_runs st"
  "ms_runs (SettleOutcome i st) = ms_runs st"
  "ms_runs (snd (AppendEvents i es st)) = ms_runs st"
  using runs_owed_ends_scan [of now grace uord st "[]"] runs_owed_events_scan [of now grace eord st "[]"]
  by (simp_all add: OwedEnds_def SettleEnd_def OwedEvents_def SettleEvent_def OwedOutcomes_def
      SettleOutcome_def AppendEvents_def Let_def split_beta split: option.splits)

lemma fold_keeps: "(\<And>x a. f (g x a) = f a) \<Longrightarrow> f (fold g xs a) = f a"
  by (induction xs arbitrary: a) simp_all

lemma runs_purge_events [simp]: "ms_runs (snd (PurgeEventsBefore ord cutoff st)) = ms_runs st"
  unfolding PurgeEventsBefore_def
  by (subst fold_keeps [where f = "\<lambda>a. ms_runs (snd a)"])
    (simp_all add: purge_events_one_def Let_def split: option.splits)

lemma runs_purge_auth [simp]: "ms_runs (snd (PurgeRunAuth ford hord aord st)) = ms_runs st"
  unfolding PurgeRunAuth_def
  by (subst fold_keeps [where f = "\<lambda>a. ms_runs (snd a)"]) (simp_all add: purge_auth_one_def)

section \<open>Retention\<close>

text \<open>A state partway through a purge of \<open>st\<close>: rows are gone or as they were, a row that went owed
  nothing, and the ledger says of the rows that stay what it said before.\<close>

definition purging :: "gotime \<Rightarrow> mem_store \<Rightarrow> mem_store \<Rightarrow> bool" where
  "purging cutoff st a \<longleftrightarrow>
     (\<forall>j. ms_runs a j = ms_runs st j \<or> ms_runs a j = None) \<and>
     (\<forall>j r. ms_runs st j = Some r \<and> ms_runs a j = None \<longrightarrow> purgeable cutoff st r) \<and>
     (\<forall>j r. ms_runs a j = Some r \<longrightarrow> owes (ms_outcomes a) r = owes (ms_outcomes st) r) \<and>
     (\<forall>j. RunAuthFor j a = RunAuthFor j st)"

lemma purging_held:
  assumes "purging cutoff st a" and "ms_runs a j = Some r"
  shows "heldForOutcome a r = heldForOutcome st r"
proof (cases "ParentID r")
  case None
  then show ?thesis using assms by (auto simp: heldForOutcome_def purging_def)
next
  case (Some p)
  have self: "owes (ms_outcomes a) r = owes (ms_outcomes st) r" using assms by (auto simp: purging_def)
  show ?thesis
  proof (cases "ms_runs a p")
    case None
    have "\<not> owes (ms_outcomes st) q" if "ms_runs st p = Some q" for q
    proof -
      have "purgeable cutoff st q" using assms(1) None that unfolding purging_def by blast
      then show ?thesis by (auto simp: purgeable_def heldForOutcome_def)
    qed
    then show ?thesis using Some None self by (auto simp: heldForOutcome_def split: option.splits)
  next
    case parent: (Some q)
    then have "ms_runs st p = Some q" and "owes (ms_outcomes a) q = owes (ms_outcomes st) q"
      using assms(1) by (auto simp: purging_def) (metis option.distinct(1))
    then show ?thesis using Some parent self by (simp add: heldForOutcome_def)
  qed
qed

lemma owes_forget: "ID r \<noteq> i \<Longrightarrow> owes (forget i l) r = owes l r"
  by (simp add: owes_def forget_def)

lemma purge_run_one_purging:
  assumes "store_ok st" and "purging cutoff st (snd acc)"
  shows "purging cutoff st (snd (purge_run_one cutoff i acc))"
proof (cases "ms_runs (snd acc) i")
  case None
  then show ?thesis using assms by (simp add: purge_run_one_def)
next
  case (Some r)
  let ?a = "snd acc"
  have st_i: "ms_runs st i = Some r" using Some assms(2) by (auto simp: purging_def) (metis option.distinct(1))
  show ?thesis
  proof (cases "purgeable cutoff ?a r")
    case True
    then have pst: "purgeable cutoff st r"
      using purging_held [OF assms(2) Some] by (simp add: purgeable_def)
    have ids: "ID q = j" if "ms_runs ?a j = Some q" for j q
      using that assms by (auto simp: purging_def store_ok_def) (metis option.distinct(1))
    have runs': "ms_runs (snd (purge_run_one cutoff i acc)) = (ms_runs ?a)(i := None)"
      and out': "ms_outcomes (snd (purge_run_one cutoff i acc)) = forget i (ms_outcomes ?a)"
      and auth': "ms_runAuth (snd (purge_run_one cutoff i acc)) = (ms_runAuth ?a)(i \<mapsto> AuthOf r)"
      using True Some by (simp_all add: purge_run_one_def Let_def)
    have "RunAuthFor j (snd (purge_run_one cutoff i acc)) = RunAuthFor j ?a" for j
      using Some by (cases "j = i") (simp_all add: RunAuthFor_def runs' auth' cong: option.case_cong)
    then have auth: "RunAuthFor j (snd (purge_run_one cutoff i acc)) = RunAuthFor j st" for j
      using assms(2) by (simp add: purging_def)
    have ow: "owes (forget i (ms_outcomes ?a)) q = owes (ms_outcomes st) q"
      if "ms_runs ?a j = Some q" "j \<noteq> i" for j q
      using owes_forget [of q i] ids [OF that(1)] that assms(2) by (auto simp: purging_def)
    show ?thesis
      unfolding purging_def runs' out'
    proof (intro conjI allI impI)
      fix j r' assume "ms_runs st j = Some r' \<and> ((ms_runs ?a)(i := None)) j = None"
      then show "purgeable cutoff st r'"
        using pst st_i assms(2) by (auto simp: purging_def split: if_splits)
    qed (use assms(2) ow auth in \<open>auto simp: purging_def split: if_splits\<close>)
  next
    case False
    then show ?thesis using assms(2) Some by (simp add: purge_run_one_def Let_def)
  qed
qed

lemma PurgeRunsBefore_purging:
  assumes "store_ok st"
  shows "purging cutoff st (snd (PurgeRunsBefore ord cutoff st))"
proof -
  have "purging cutoff st (snd (fold (purge_run_one cutoff) ord acc))"
    if "purging cutoff st (snd acc)" for acc
    using that
  proof (induction ord arbitrary: acc)
    case (Cons i ord)
    show ?case using Cons.IH [OF purge_run_one_purging [OF assms Cons.prems]] by simp
  qed simp
  moreover have "purging cutoff st (snd (0, st))" by (auto simp: purging_def)
  ultimately show ?thesis unfolding PurgeRunsBefore_def by blast
qed

section \<open>Every step refines the rows\<close>

lemma fenced_step_refines:
  assumes "store_step op st st'" and "store_ok st" and "\<forall>q. op \<noteq> OpSave q" and "\<forall>c. op \<noteq> OpPurge c"
  shows "refines_rows (op_labels op) (ms_runs st) (ms_runs st')"
  using assms
  by (induction rule: store_step.induct)
    (simp_all only: op_labels.simps Claim_refines Heartbeat_refines reclaimStale_refines
      RequestCancel_refines CancelPending_refines TransitionStatusAndClaim_refines
      StartClaimed_refines TransitionStatus_refines StampApprovedSpec_refines SealAdopted_refines
      WipeSealed_refines SweepSealed_refines runs_KeepDriftPlan ParkForApproval_refines
      SettleHeld_refines ClaimDecision_refines SettleDecision_refines FinalizeRunning_refines
      ApplyRunningProgress_refines AppendLog_refines runs_tickets runs_budget runs_leases
      runs_ledgers runs_purge_events runs_purge_auth refines_refl simp_thms, blast+)

lemma store_step_row:
  assumes "store_step op st st'" and "store_ok st" and "ms_runs st i = Some r"
  shows "(\<exists>r'. ms_runs st' i = Some r' \<and> row_steps (op_labels op i) r r') \<or>
    (\<exists>cutoff. op = OpPurge cutoff \<and> ms_runs st' i = None \<and> purgeable cutoff st r)"
proof (cases op)
  case (OpSave q)
  from assms(1) [unfolded OpSave] obtain now ord where st': "st' = snd (Save now ord q st)"
    by cases auto
  show ?thesis
  proof (cases "i = ID q \<and> fst (Save now ord q st) = None")
    case True
    have "ID q = ID r" using assms(2,3) True by (simp add: store_ok_def)
    then have "row_step RSave r (save_row (Some r) (Sanitize q))"
      by (simp add: save_row_def row_step.save)
    with True assms(3) show ?thesis
      by (auto simp: st' Save_runs OpSave intro: row_steps_one)
  next
    case False
    with assms(3) have "ms_runs st' i = Some r" by (auto simp: st' Save_runs)
    then show ?thesis by blast
  qed
next
  case (OpPurge cutoff)
  from assms(1) [unfolded OpPurge] obtain ord where "st' = snd (PurgeRunsBefore ord cutoff st)"
    by cases auto
  with PurgeRunsBefore_purging [OF assms(2), of cutoff ord] have P: "purging cutoff st st'" by simp
  show ?thesis
  proof (cases "ms_runs st' i")
    case None
    then show ?thesis using P assms(3) OpPurge unfolding purging_def by blast
  next
    case (Some r')
    then have "ms_runs st' i = ms_runs st i" using P unfolding purging_def by (metis option.distinct(1))
    then show ?thesis using assms(3) by simp
  qed
qed (use refines_SomeD [OF fenced_step_refines [OF assms(1,2)], of i r] assms(3) in auto)

end
