(* ===== verification/Store_Props.thy ===== *)
theory Store_Props
  imports Store_Steps
begin

text \<open>
  Properties of the run store over sequences of operations: invariants of every reachable
  state, and what no sequence of operations can do to a row. Each is an induction over the
  steps whose cases are the row lemmas of \<open>Row_Steps\<close>.
\<close>

section \<open>Sequences of operations\<close>

inductive store_runs :: "(store_op \<Rightarrow> bool) \<Rightarrow> mem_store \<Rightarrow> mem_store \<Rightarrow> bool" for P where
  sr_refl [intro, simp]: "store_runs P st st"
| step: "store_runs P st st' \<Longrightarrow> store_step op st' st'' \<Longrightarrow> P op \<Longrightarrow> store_runs P st st''"

definition reachable :: "mem_store \<Rightarrow> bool" where
  "reachable st \<longleftrightarrow> store_runs (\<lambda>_. True) NewMemStore st"

lemma store_runs_mono: "store_runs P st st' \<Longrightarrow> (\<And>op. P op \<Longrightarrow> Q op) \<Longrightarrow> store_runs Q st st'"
  by (induction rule: store_runs.induct) (auto intro: store_runs.step)

lemma store_runs_trans: "store_runs P st st' \<Longrightarrow> store_runs P st' st'' \<Longrightarrow> store_runs P st st''"
  by (rotate_tac, induction rule: store_runs.induct) (auto intro: store_runs.step)

lemma store_runs_one: "store_step op st st' \<Longrightarrow> P op \<Longrightarrow> store_runs P st st'"
  by (rule store_runs.step [OF store_runs.sr_refl])

lemma reachable_runs:
  assumes "reachable st" and "store_runs P st st'"
  shows "reachable st'"
proof -
  have "store_runs (\<lambda>_. True) st st'" by (rule store_runs_mono [OF assms(2)]) simp
  with assms(1) show ?thesis unfolding reachable_def by (rule store_runs_trans)
qed

lemma store_step_new:
  assumes "store_step op st st'" and "store_ok st" and "ms_runs st i = None"
  shows "ms_runs st' i = None \<or>
    (\<exists>q. op = OpSave q \<and> ID q = i \<and> ms_runs st' i = Some (save_row None (Sanitize q)))"
proof (cases op)
  case (OpSave q)
  from assms(1) [unfolded OpSave] obtain now ord where "st' = snd (Save now ord q st)"
    by cases auto
  then show ?thesis using assms(3) by (auto simp: Save_runs OpSave)
next
  case (OpPurge cutoff)
  from assms(1) [unfolded OpPurge] obtain ord where "st' = snd (PurgeRunsBefore ord cutoff st)"
    by cases auto
  with PurgeRunsBefore_purging [OF assms(2), of cutoff ord] have "purging cutoff st st'" by simp
  then show ?thesis using assms(3) unfolding purging_def by metis
qed (use refines_NoneD [OF fenced_step_refines [OF assms(1,2)], of i] assms(3) in auto)

lemma row_steps_ID: "row_steps L r r' \<Longrightarrow> ID r' = ID r"
  by (induction rule: row_steps.induct) (auto dest: row_step_ID)

lemma store_step_ok:
  assumes "store_step op st st'" and "store_ok st"
  shows "store_ok st'"
  unfolding store_ok_def
proof (intro allI impI)
  fix i r' assume r': "ms_runs st' i = Some r'"
  show "ID r' = i"
  proof (cases "ms_runs st i")
    case None
    from store_step_new [OF assms None] r' show ?thesis by auto
  next
    case (Some r)
    then have "ID r = i" using assms(2) by (simp add: store_ok_def)
    with store_step_row [OF assms Some] r' show ?thesis by (auto dest: row_steps_ID)
  qed
qed

lemma store_runs_ok: "store_runs P st st' \<Longrightarrow> store_ok st \<Longrightarrow> store_ok st'"
  by (induction rule: store_runs.induct) (auto intro: store_step_ok)

lemma reachable_ok: "reachable st \<Longrightarrow> store_ok st"
  unfolding reachable_def
  by (rule store_runs_ok) (auto simp: store_ok_def NewMemStore_def)

section \<open>Lifting row facts\<close>

text \<open>A relation between a row and its later versions that every permitted write preserves holds
  along every sequence of operations in which the row is not purged.\<close>

lemma row_steps_invariant:
  assumes "row_steps L r r'" and "I r"
    and "\<And>l a b. row_step l a b \<Longrightarrow> l \<in> L \<Longrightarrow> I a \<Longrightarrow> I b"
  shows "I r'"
  using assms by (induction rule: row_steps.induct) auto

lemma runs_row_invariant:
  assumes "store_runs P st st'" and "store_ok st" and "ms_runs st i = Some r" and "I r"
    and keep: "\<And>op l a b. P op \<Longrightarrow> l \<in> op_labels op i \<Longrightarrow> row_step l a b \<Longrightarrow> I a \<Longrightarrow> I b"
    and nopurge: "\<And>cutoff a. P (OpPurge cutoff) \<Longrightarrow> I a \<Longrightarrow> \<not> Terminal (Status a)"
  shows "\<exists>r'. ms_runs st' i = Some r' \<and> I r'"
  using assms(1-4)
proof (induction rule: store_runs.induct)
  case (sr_refl st)
  then show ?case by blast
next
  case (step st st' op st'')
  then obtain a where a: "ms_runs st' i = Some a" "I a" by blast
  have ok: "store_ok st'" by (rule store_runs_ok [OF step.hyps(1) step.prems(1)])
  from store_step_row [OF step.hyps(2) ok a(1)]
  show ?case
  proof
    assume "\<exists>r'. ms_runs st'' i = Some r' \<and> row_steps (op_labels op i) a r'"
    then obtain r' where "ms_runs st'' i = Some r'" and rs: "row_steps (op_labels op i) a r'" by blast
    moreover have "I r'"
      by (rule row_steps_invariant [where I = I, OF rs a(2)]) (rule keep [OF step.hyps(3)])
    ultimately show ?thesis by blast
  next
    assume "\<exists>cutoff. op = OpPurge cutoff \<and> ms_runs st'' i = None \<and> purgeable cutoff st' a"
    then show ?thesis using nopurge step.hyps(3) a(2) by (auto simp: purgeable_def)
  qed
qed

fun is_purge :: "store_op \<Rightarrow> bool" where
  "is_purge (OpPurge cutoff) = True"
| "is_purge _ = False"

section \<open>Finished runs\<close>

text \<open>The writes that could move a finished run: a whole-row save of it, or a status move whose
  caller names a finished status as the one it starts from.\<close>

fun reopens :: "string \<Rightarrow> store_op \<Rightarrow> bool" where
  "reopens i (OpSave q) \<longleftrightarrow> ID q = i"
| "reopens i (OpMove j from to) \<longleftrightarrow> j = i \<and> Terminal from"
| "reopens i _ \<longleftrightarrow> False"

lemma not_reopens_fenced: "\<not> reopens i op \<Longrightarrow> l \<in> op_labels op i \<Longrightarrow> \<not> unfenced l"
  by (cases op) (auto simp: only_def unfenced_def split: if_splits)

text \<open>C7. A finished run stays finished. Whatever sequence of claims, heartbeats, sweeps, cancels,
  transitions, decisions, progress reports and terminal writes follows, from however many
  processes, the status, end time, exit code, failure text and outputs a run finished with are
  still the ones on its row until retention removes it; only a whole-row save, or a status move
  that names a finished status as its starting point, is not fenced against it.\<close>

theorem finished_run_is_final:
  assumes "reachable st" and "store_runs (\<lambda>op. \<not> reopens i op \<and> \<not> is_purge op) st st'"
    and "ms_runs st i = Some r" and "Terminal (Status r)"
  shows "\<exists>r'. ms_runs st' i = Some r' \<and> Status r' = Status r \<and> EndedAt r' = EndedAt r \<and>
    ExitCode r' = ExitCode r \<and> Error r' = Error r \<and> Outputs r' = Outputs r"
proof -
  let ?I = "\<lambda>a. Status a = Status r \<and> EndedAt a = EndedAt r \<and>
    ExitCode a = ExitCode r \<and> Error a = Error r \<and> Outputs a = Outputs r"
  have "\<exists>r'. ms_runs st' i = Some r' \<and> ?I r'"
  proof (rule runs_row_invariant [where I = ?I, OF assms(2) reachable_ok [OF assms(1)] assms(3)])
    fix op l a b
    assume P: "\<not> reopens i op \<and> \<not> is_purge op" and l: "l \<in> op_labels op i"
      and s: "row_step l a b" and I: "?I a"
    then have u: "\<not> unfenced l" using not_reopens_fenced by blast
    have t: "Terminal (Status a)" using I assms(4) by simp
    from row_step_terminal [OF s t u] I show "?I b" by simp
  qed (use assms(4) in auto)
  then show ?thesis by blast
qed

text \<open>A small store for the examples: one run saved into an empty store.\<close>

definition store_with :: "run \<Rightarrow> mem_store" where
  "store_with r = snd (Save 0 [] r NewMemStore)"

lemma reachable_store_with: "reachable (store_with r)"
  unfolding reachable_def store_with_def
  by (rule store_runs_one [OF store_step.save]) (simp_all add: iterates_def NewMemStore_def)

lemma runs_store_with:
  "ms_runs (store_with r) = [ID r \<mapsto> save_row None (Sanitize r)]"
proof -
  have "fst (Save 0 [] r NewMemStore) = None" by (simp add: Save_def NewMemStore_def Let_def)
  then show ?thesis by (simp add: store_with_def Save_runs) (simp add: NewMemStore_def)
qed

theorem finished_run_is_final_witness:
  "\<exists>r'. ms_runs (snd (RequestCancel ''a'' (store_with (zero_run\<lparr>ID := ''a'', Status := StatusFailed\<rparr>)))) ''a''
     = Some r' \<and> Status r' = StatusFailed"
proof -
  let ?q = "zero_run\<lparr>ID := ''a'', Status := StatusFailed\<rparr>"
  have r: "ms_runs (store_with ?q) ''a'' = Some (save_row None (Sanitize ?q))"
    by (simp add: runs_store_with)
  have t: "Terminal (Status (save_row None (Sanitize ?q)))" by simp
  have s: "store_runs (\<lambda>op. \<not> reopens ''a'' op \<and> \<not> is_purge op) (store_with ?q)
      (snd (RequestCancel ''a'' (store_with ?q)))"
    by (rule store_runs_one [OF store_step.request_cancel]) simp
  from finished_run_is_final [OF reachable_store_with s r t] show ?thesis by auto
qed

section \<open>Decisions\<close>

fun overrides_decision :: "string \<Rightarrow> string \<Rightarrow> store_op \<Rightarrow> bool" where
  "overrides_decision i d (OpSave q) \<longleftrightarrow> ID q = i"
| "overrides_decision i d (OpSettle j e) \<longleftrightarrow> j = i \<and> e = d"
| "overrides_decision i d _ \<longleftrightarrow> False"

lemma in_flight_kept:
  assumes "store_ok st" and "store_runs (\<lambda>op. \<not> overrides_decision i (DecisionID r) op) st st'"
    and "ms_runs st i = Some r" and "InFlight r"
  shows "\<exists>r'. ms_runs st' i = Some r' \<and> InFlight r' \<and> DecisionID r' = DecisionID r"
proof (rule runs_row_invariant [where I = "\<lambda>a. InFlight a \<and> DecisionID a = DecisionID r",
      OF assms(2,1,3)])
  fix op l a b
  assume "\<not> overrides_decision i (DecisionID r) op" and "l \<in> op_labels op i"
    and s: "row_step l a b" and I: "InFlight a \<and> DecisionID a = DecisionID r"
  then have "l \<noteq> RSave" and "l \<noteq> RSettle (DecisionID a)"
    by (cases op; auto simp: only_def split: if_splits)+
  from row_step_in_flight [OF s _ this] I show "InFlight b \<and> DecisionID b = DecisionID r" by simp
qed (use assms(4) in \<open>auto simp: InFlight_def\<close>)

text \<open>C6. A held run is decided once. From the moment a decision wins the claim until that decision
  settles it, no sequence of operations takes the run out of pending_approval: cancels, sweeps,
  transitions, terminal writes and other decisions all leave it held with the winning decision
  on it, a second claim is refused, and a settlement under any other decision is refused. The
  one write not fenced is a whole-row save of the run.\<close>

theorem claimed_decision_is_exclusive:
  assumes "reachable st" and "ClaimDecision i d claim st = (Inr True, st1)"
    and "store_runs (\<lambda>op. \<not> overrides_decision i d op) st1 st2"
  shows "\<exists>r. ms_runs st2 i = Some r \<and> Status r = StatusPendingApproval \<and> DecisionID r = d \<and>
    (\<forall>d' claim'. d' \<noteq> [] \<and> claim' \<noteq> [] \<longrightarrow> ClaimDecision i d' claim' st2 = (Inr False, st2)) \<and>
    (\<forall>now d' s. d' \<noteq> d \<and> DecisionSettle_Check s = None \<longrightarrow>
       SettleDecision now i d' s st2 = (Inr False, st2))"
proof -
  obtain r0 where r0: "ms_runs st i = Some r0" "Status r0 = StatusPendingApproval"
      "claim \<noteq> []" "st1 = put_run i (r0\<lparr>DecisionID := d, DecisionClaim := claim\<rparr>) st"
    using assms(2) by (auto simp: ClaimDecision_def split: if_splits option.splits)
  have ok1: "store_ok st1"
    using store_step_ok [OF store_step.claim_decision reachable_ok [OF assms(1)], of i d claim]
      assms(2) by simp
  let ?r1 = "r0\<lparr>DecisionID := d, DecisionClaim := claim\<rparr>"
  have "ms_runs st1 i = Some ?r1" and "InFlight ?r1"
    using r0 by (simp_all add: InFlight_def)
  from in_flight_kept [OF ok1 _ this] assms(3)
  obtain r where r: "ms_runs st2 i = Some r" "InFlight r" "DecisionID r = d" by auto
  then show ?thesis
    by (auto simp: InFlight_def ClaimDecision_def SettleDecision_def Let_def)
qed

theorem claimed_decision_is_exclusive_witness:
  "\<exists>r. ms_runs (snd (CancelPending 5 ''a'' (snd (ClaimDecision ''a'' ''d1'' ''c''
     (store_with (zero_run\<lparr>ID := ''a'', Status := StatusPendingApproval\<rparr>)))))) ''a'' = Some r \<and>
     Status r = StatusPendingApproval \<and> DecisionID r = ''d1''"
proof -
  let ?q = "zero_run\<lparr>ID := ''a'', Status := StatusPendingApproval\<rparr>"
  let ?st1 = "snd (ClaimDecision ''a'' ''d1'' ''c'' (store_with ?q))"
  have row: "Status (save_row None (Sanitize ?q)) = StatusPendingApproval"
    "ClaimedBy (save_row None (Sanitize ?q)) = []" "\<not> CancelRequested (save_row None (Sanitize ?q))"
    "DecisionClaim (save_row None (Sanitize ?q)) = []"
    by (simp_all add: save_row_def zero_run_def)
  have parked: "ms_parked (store_with ?q) = {}"
    by (simp add: store_with_def Save_def NewMemStore_def Let_def noteStatus_def put_run_def)
  have c: "ClaimDecision ''a'' ''d1'' ''c'' (store_with ?q) = (Inr True, ?st1)"
    by (simp add: ClaimDecision_def runs_store_with row parked)
  have s: "store_runs (\<lambda>op. \<not> overrides_decision ''a'' ''d1'' op) ?st1 (snd (CancelPending 5 ''a'' ?st1))"
    by (rule store_runs_one [OF store_step.cancel_pending]) simp
  from claimed_decision_is_exclusive [OF reachable_store_with c s] show ?thesis by blast
qed

end
