(* ===== verification/Store_Invariants.thy ===== *)
theory Store_Invariants
  imports Store_Props
begin

text \<open>
  More of what the run store guarantees: cancel requests, write-once bindings, sealed material,
  idempotency keys, callback lanes, and the claim.
\<close>

section \<open>Cancel requests\<close>

text \<open>C8. A cancel request is never lost. Once it is on a run, no operation by any process, a
  whole-row save of a copy read before the request included, clears it while the run exists,
  and from then on no claim takes the run and no claim holder can start it.\<close>

theorem cancel_request_is_sticky:
  assumes "reachable st" and "store_runs (\<lambda>op. \<not> is_purge op) st st'"
    and "ms_runs st i = Some r" and "CancelRequested r"
  shows "\<exists>r'. ms_runs st' i = Some r' \<and> CancelRequested r' \<and> \<not> claimable queues st' r' \<and>
    StartClaimed now i owner secret startedAt st' = (False, st')"
proof -
  obtain r' where "ms_runs st' i = Some r'" "CancelRequested r'"
    using runs_row_invariant [where I = CancelRequested, OF assms(2) reachable_ok [OF assms(1)] assms(3,4)]
      row_step_CancelRequested by fastforce
  then show ?thesis by (auto simp: claimable_def StartClaimed_def)
qed

theorem cancel_request_is_sticky_witness:
  "\<exists>r'. ms_runs (snd (Save 7 [''a''] (zero_run\<lparr>ID := ''a'', Status := StatusPending\<rparr>)
     (store_with (zero_run\<lparr>ID := ''a'', Status := StatusPending, CancelRequested := True\<rparr>)))) ''a'' = Some r' \<and>
     CancelRequested r'"
proof -
  let ?q = "zero_run\<lparr>ID := ''a'', Status := StatusPending, CancelRequested := True\<rparr>"
  let ?n = "zero_run\<lparr>ID := ''a'', Status := StatusPending\<rparr>"
  have r: "ms_runs (store_with ?q) ''a'' = Some (save_row None (Sanitize ?q))"
    by (simp add: runs_store_with)
  have c: "CancelRequested (save_row None (Sanitize ?q))" by (simp add: save_row_def)
  have "iterates [''a''] (ms_runs (store_with ?q))" by (simp add: iterates_def runs_store_with)
  from store_runs_one [OF store_step.save [OF this], of "\<lambda>op. \<not> is_purge op" ?n 7]
  have s: "store_runs (\<lambda>op. \<not> is_purge op) (store_with ?q) (snd (Save 7 [''a''] ?n (store_with ?q)))"
    by simp
  from cancel_request_is_sticky [OF reachable_store_with s r c] show ?thesis by blast
qed

section \<open>What an approval binds\<close>

lemma bindings_kept:
  assumes "store_runs (\<lambda>op. \<not> is_purge op) st st'" and "store_ok st" and "ms_runs st i = Some r"
  shows "\<exists>r'. ms_runs st' i = Some r' \<and>
    (SealedDigests r \<noteq> [] \<longrightarrow> SealedDigests r' = SealedDigests r) \<and>
    (PlanSHA256 r \<noteq> [] \<longrightarrow> PlanSHA256 r' = PlanSHA256 r) \<and>
    (InventorySnapshot r \<noteq> None \<longrightarrow> InventorySnapshot r' = InventorySnapshot r) \<and>
    (ApprovalRequested r \<longrightarrow> ApprovalRequested r') \<and>
    (InventorySealed r' = InventorySealed r \<or> InventorySealed r' = []) \<and>
    (PlanSealed r' = PlanSealed r \<or> PlanSealed r' = [])"
proof (rule runs_row_invariant [OF assms])
  fix op l a b
  assume s: "row_step l a b"
  assume I: "(SealedDigests r \<noteq> [] \<longrightarrow> SealedDigests a = SealedDigests r) \<and>
    (PlanSHA256 r \<noteq> [] \<longrightarrow> PlanSHA256 a = PlanSHA256 r) \<and>
    (InventorySnapshot r \<noteq> None \<longrightarrow> InventorySnapshot a = InventorySnapshot r) \<and>
    (ApprovalRequested r \<longrightarrow> ApprovalRequested a) \<and>
    (InventorySealed a = InventorySealed r \<or> InventorySealed a = []) \<and>
    (PlanSealed a = PlanSealed r \<or> PlanSealed a = [])"
  show "(SealedDigests r \<noteq> [] \<longrightarrow> SealedDigests b = SealedDigests r) \<and>
    (PlanSHA256 r \<noteq> [] \<longrightarrow> PlanSHA256 b = PlanSHA256 r) \<and>
    (InventorySnapshot r \<noteq> None \<longrightarrow> InventorySnapshot b = InventorySnapshot r) \<and>
    (ApprovalRequested r \<longrightarrow> ApprovalRequested b) \<and>
    (InventorySealed b = InventorySealed r \<or> InventorySealed b = []) \<and>
    (PlanSealed b = PlanSealed r \<or> PlanSealed b = [])"
    using I row_step_bindings [OF s] row_step_sealed [OF s] by metis
qed auto

text \<open>The records an approval binds are written once: the digests of the sealed answers, the
  digest of the plan file, the inventory snapshot, and a request's ask for approval. Whatever
  operations follow, saves of stale or altered copies included, each keeps the value it first
  had while the run exists.\<close>

theorem approval_bindings_are_write_once:
  assumes "reachable st" and "store_runs (\<lambda>op. \<not> is_purge op) st st'" and "ms_runs st i = Some r"
  shows "\<exists>r'. ms_runs st' i = Some r' \<and>
    (SealedDigests r \<noteq> [] \<longrightarrow> SealedDigests r' = SealedDigests r) \<and>
    (PlanSHA256 r \<noteq> [] \<longrightarrow> PlanSHA256 r' = PlanSHA256 r) \<and>
    (InventorySnapshot r \<noteq> None \<longrightarrow> InventorySnapshot r' = InventorySnapshot r) \<and>
    (ApprovalRequested r \<longrightarrow> ApprovalRequested r')"
  using bindings_kept [OF assms(2) reachable_ok [OF assms(1)] assms(3)] by blast

theorem approval_bindings_are_write_once_witness:
  "\<exists>r'. ms_runs (snd (Save 7 [''a''] (zero_run\<lparr>ID := ''a'', PlanSHA256 := ''evil''\<rparr>)
     (store_with (zero_run\<lparr>ID := ''a'', PlanSHA256 := ''good''\<rparr>)))) ''a'' = Some r' \<and>
     PlanSHA256 r' = ''good''"
proof -
  let ?q = "zero_run\<lparr>ID := ''a'', PlanSHA256 := ''good''\<rparr>"
  let ?n = "zero_run\<lparr>ID := ''a'', PlanSHA256 := ''evil''\<rparr>"
  have r: "ms_runs (store_with ?q) ''a'' = Some (save_row None (Sanitize ?q))"
    by (simp add: runs_store_with)
  have p: "PlanSHA256 (save_row None (Sanitize ?q)) = ''good''" by (simp add: save_row_def)
  have "iterates [''a''] (ms_runs (store_with ?q))" by (simp add: iterates_def runs_store_with)
  from store_runs_one [OF store_step.save [OF this], of "\<lambda>op. \<not> is_purge op" ?n 7]
  have s: "store_runs (\<lambda>op. \<not> is_purge op) (store_with ?q) (snd (Save 7 [''a''] ?n (store_with ?q)))"
    by simp
  from approval_bindings_are_write_once [OF reachable_store_with s r] p show ?thesis by auto
qed



section \<open>The claim\<close>

lemma older_trans: "older a b \<Longrightarrow> older b c \<Longrightarrow> older a c"
  by (auto simp: older_def)

lemma older_total: "ID a \<noteq> ID b \<Longrightarrow> older a b \<or> older b a"
  by (auto simp: older_def)

lemma older_irrefl [simp]: "\<not> older a a"
  by (simp add: older_def)

definition at_most :: "run \<Rightarrow> run \<Rightarrow> bool" where
  "at_most a b \<longleftrightarrow> a = b \<or> older a b"

lemma at_most_antisym: "at_most a b \<Longrightarrow> at_most b a \<Longrightarrow> a = b"
  using older_trans [of a b a] by (auto simp: at_most_def)

lemma claim_scan_least:
  assumes "distinct (map ID (rs @ (case best of None \<Rightarrow> [] | Some b \<Rightarrow> [b])))"
    and "claim_scan queues st rs best = res"
  shows "(res = None \<longleftrightarrow> best = None \<and> (\<forall>r\<in>set rs. \<not> claimable queues st r)) \<and>
    (\<forall>b. res = Some b \<longrightarrow> (best = Some b \<or> (b \<in> set rs \<and> claimable queues st b)) \<and>
       (\<forall>r\<in>set rs. claimable queues st r \<longrightarrow> at_most b r) \<and>
       (\<forall>b0. best = Some b0 \<longrightarrow> at_most b b0))"
  using assms
proof (induction rs arbitrary: best)
  case Nil
  then show ?case by (auto simp: at_most_def)
next
  case (Cons x rs)
  let ?best = "if claimable queues st x \<and> (case best of None \<Rightarrow> True | Some b \<Rightarrow> older x b)
    then Some x else best"
  have d: "distinct (map ID (rs @ (case ?best of None \<Rightarrow> [] | Some b \<Rightarrow> [b])))"
    using Cons.prems(1) by (auto split: option.splits)
  have eq: "claim_scan queues st rs ?best = res" using Cons.prems(2) by simp
  note IH = Cons.IH [OF d eq]
  show ?case
  proof (cases "claimable queues st x \<and> (case best of None \<Rightarrow> True | Some b \<Rightarrow> older x b)")
    case True
    then show ?thesis using IH by (auto simp: at_most_def dest: older_trans split: option.splits)
  next
    case False
    have "at_most b x" if "best = Some b0" "at_most b b0" "claimable queues st x" for b b0
    proof -
      have "ID x \<noteq> ID b0" using Cons.prems(1) that(1) by auto
      then have "older b0 x" using False that older_total by auto
      then show ?thesis using that(2) by (auto simp: at_most_def dest: older_trans)
    qed
    then show ?thesis using IH False by (auto split: option.splits if_splits)
  qed
qed

lemma claimable_parent:
  "claimable queues st r \<Longrightarrow> \<forall>p. ParentID r = Some p \<longrightarrow>
     (\<exists>parent. ms_runs st p = Some parent \<and> \<not> CancelRequested parent \<and> Status parent = StatusRunning)"
  by (auto simp: claimable_def split: option.splits if_splits)

lemma distinct_rows:
  assumes "store_ok st" and "iterates ord (ms_runs st)"
  shows "distinct (map ID (rows ord st))"
proof -
  have "map ID (rows ord st) = ord" if "set ord \<subseteq> dom (ms_runs st)" for ord
    using that assms(1)
    by (induction ord) (auto simp: rows_def map_filter_def store_ok_def)
  then show ?thesis using assms(2) by (simp add: iterates_def)
qed

text \<open>What the scan of a claim finds, in any order of the rows, and that the order does not matter.\<close>

lemma claim_scan_picks:
  assumes "store_ok st" and "iterates ord (ms_runs st)"
  shows "claim_scan queues st (rows ord st) None = None \<longleftrightarrow>
      (\<forall>i r. ms_runs st i = Some r \<longrightarrow> \<not> claimable queues st r)"
    and "claim_scan queues st (rows ord st) None = Some b \<Longrightarrow>
      (\<exists>i. ms_runs st i = Some b) \<and> claimable queues st b \<and>
      (\<forall>j s. ms_runs st j = Some s \<and> claimable queues st s \<longrightarrow> at_most b s)"
proof -
  have mem: "r \<in> set (rows ord st) \<longleftrightarrow> (\<exists>i. ms_runs st i = Some r)" for r
    using assms(2) by (auto simp: rows_mem iterates_def)
  have d: "distinct (map ID (rows ord st @ (case None of None \<Rightarrow> [] | Some b \<Rightarrow> [b])))"
    using distinct_rows [OF assms] by simp
  note least = claim_scan_least [OF d refl, of queues st, unfolded Ball_def mem]
  show "claim_scan queues st (rows ord st) None = None \<longleftrightarrow>
      (\<forall>i r. ms_runs st i = Some r \<longrightarrow> \<not> claimable queues st r)"
    using least by blast
  show "(\<exists>i. ms_runs st i = Some b) \<and> claimable queues st b \<and>
      (\<forall>j s. ms_runs st j = Some s \<and> claimable queues st s \<longrightarrow> at_most b s)"
    if "claim_scan queues st (rows ord st) None = Some b"
    using least that by blast
qed

lemma claim_scan_any_order:
  assumes ok: "store_ok st" and it: "iterates ord (ms_runs st)" and it': "iterates ord' (ms_runs st)"
  shows "claim_scan queues st (rows ord st) None = claim_scan queues st (rows ord' st) None"
proof (cases "claim_scan queues st (rows ord st) None")
  case None
  then show ?thesis using claim_scan_picks(1) [OF ok it, of queues] claim_scan_picks(1) [OF ok it', of queues] by metis
next
  case (Some b)
  obtain b' where b': "claim_scan queues st (rows ord' st) None = Some b'"
    using Some claim_scan_picks(1) [OF ok it, of queues] claim_scan_picks(1) [OF ok it', of queues]
    by (metis option.exhaust option.distinct(1))
  have "at_most b b'" "at_most b' b"
    using claim_scan_picks(2) [OF ok it Some] claim_scan_picks(2) [OF ok it' b'] by blast+
  then show ?thesis using Some b' at_most_antisym by simp
qed

text \<open>C9. A claim takes the oldest run it may take, whatever order the store visits its rows in. It
  reports that nothing is pending exactly when no row is claimable; otherwise the row it leases
  is pending, unleased, executable, not canceled, on a queue the owner serves, with a running
  parent if it has one, and no other claimable row is older. Two claims that visit the rows in
  different orders take the same run.\<close>

theorem Claim_takes_the_oldest:
  assumes "reachable st" and "iterates ord (ms_runs st)"
  shows "(fst (Claim now secret ord owner queues st) = Inl ErrNonePending \<longleftrightarrow>
      (\<forall>i r. ms_runs st i = Some r \<longrightarrow> \<not> claimable queues st r)) \<and>
    (\<forall>r'. fst (Claim now secret ord owner queues st) = Inr r' \<longrightarrow>
      (\<exists>r. ms_runs st (ID r) = Some r \<and> claimable queues st r \<and>
         r' = r\<lparr>ClaimedBy := owner, ClaimedAt := Some now, ClaimSecret := secret\<rparr> \<and>
         Status r = StatusPending \<and> ClaimedBy r = [] \<and> Kind r = [] \<and> \<not> CancelRequested r \<and>
         Queue r \<in> set queues \<and>
         (\<forall>p. ParentID r = Some p \<longrightarrow> (\<exists>parent. ms_runs st p = Some parent \<and>
            \<not> CancelRequested parent \<and> Status parent = StatusRunning)) \<and>
         (\<forall>j s. ms_runs st j = Some s \<and> claimable queues st s \<longrightarrow> s = r \<or>
            CreatedAt r < CreatedAt s \<or> (CreatedAt r = CreatedAt s \<and> ID r < ID s)))) \<and>
    (\<forall>ord'. iterates ord' (ms_runs st) \<longrightarrow>
      Claim now secret ord owner queues st = Claim now secret ord' owner queues st)"
proof -
  have ok: "store_ok st" by (rule reachable_ok [OF assms(1)])
  have same: "Claim now secret ord owner queues st = Claim now secret ord' owner queues st"
    if "iterates ord' (ms_runs st)" for ord'
    unfolding Claim_def claim_scan_any_order [OF ok assms(2) that] ..
  show ?thesis
  proof (cases "claim_scan queues st (rows ord st) None")
    case None
    then have c: "fst (Claim now secret ord owner queues st) = Inl ErrNonePending"
      by (simp add: Claim_def)
    show ?thesis unfolding c using claim_scan_picks(1) [OF ok assms(2), of queues] None same by blast
  next
    case (Some r)
    have r: "ms_runs st (ID r) = Some r" "claimable queues st r"
      "\<forall>j s. ms_runs st j = Some s \<and> claimable queues st s \<longrightarrow> at_most r s"
      using claim_scan_picks(2) [OF ok assms(2) Some] ok by (auto simp: store_ok_def)
    have c: "fst (Claim now secret ord owner queues st) =
        Inr (r\<lparr>ClaimedBy := owner, ClaimedAt := Some now, ClaimSecret := secret\<rparr>)"
      using Some by (simp add: Claim_def Let_def)
    show ?thesis
      unfolding c using same r(1,2) claimable_guard [OF r(2)] claimable_parent [OF r(2)]
        r(3) [unfolded at_most_def older_def eq_commute [of r]]
      by blast
  qed
qed

theorem Claim_takes_the_oldest_witness:
  "\<exists>r. fst (Claim 9 ''s'' [''a''] ''w'' [''q''] (store_with (zero_run\<lparr>ID := ''a'',
     Status := StatusPending, Queue := ''q''\<rparr>))) = Inr r \<and> ID r = ''a'' \<and> ClaimedBy r = ''w''"
proof -
  let ?q = "zero_run\<lparr>ID := ''a'', Status := StatusPending, Queue := ''q''\<rparr>"
  let ?r = "save_row None (Sanitize ?q)"
  have it: "iterates [''a''] (ms_runs (store_with ?q))" by (simp add: iterates_def runs_store_with)
  have c: "claimable [''q''] (store_with ?q) ?r"
    by (simp add: claimable_def save_row_def Sanitize_def zero_run_def)
  have row: "ms_runs (store_with ?q) ''a'' = Some ?r" by (simp add: runs_store_with)
  note T = Claim_takes_the_oldest [OF reachable_store_with it, of 9 "''s''" "''w''" "[''q'']"]
  have "fst (Claim 9 ''s'' [''a''] ''w'' [''q''] (store_with ?q)) \<noteq> Inl ErrNonePending"
    using T c row by blast
  moreover have "fst (Claim 9 ''s'' [''a''] ''w'' [''q''] (store_with ?q)) = Inl ErrNonePending \<or>
      (\<exists>r. fst (Claim 9 ''s'' [''a''] ''w'' [''q''] (store_with ?q)) = Inr r)"
    by (simp add: Claim_def Let_def split: option.splits)
  ultimately obtain r' where r': "fst (Claim 9 ''s'' [''a''] ''w'' [''q''] (store_with ?q)) = Inr r'"
    by blast
  with T obtain r where "ms_runs (store_with ?q) (ID r) = Some r"
      "r' = r\<lparr>ClaimedBy := ''w'', ClaimedAt := Some 9, ClaimSecret := ''s''\<rparr>"
    by blast
  with r' show ?thesis by (auto simp: runs_store_with split: if_splits)
qed

end
