(* ===== verification/Store_Keys.thy ===== *)
theory Store_Keys
  imports Store_Props
begin

text \<open>
  Uniqueness in the run store: one run per idempotency key, one unfinished callback run per
  template and host, and what retention may remove.
\<close>

section \<open>Idempotency keys\<close>

definition keys_ok :: "mem_store \<Rightarrow> bool" where
  "keys_ok st \<longleftrightarrow> (\<forall>i r. ms_runs st i = Some r \<longrightarrow> IdempotencyKey r \<noteq> [] \<longrightarrow>
     ms_byKey st (IdempotencyKey r) = Some i)"

lemma row_step_key:
  assumes "row_step l r r'" and "l \<noteq> RSave"
  shows "IdempotencyKey r' = IdempotencyKey r \<and> Source r' = Source r \<and> SourceID r' = SourceID r \<and>
    Limit r' = Limit r \<and> ParentID r' = ParentID r"
  using assms by (induction rule: row_step.induct) (auto simp: row_defs Let_def)

lemma row_steps_key:
  assumes "row_steps L r r'" and "RSave \<notin> L"
  shows "IdempotencyKey r' = IdempotencyKey r \<and> Source r' = Source r \<and> SourceID r' = SourceID r \<and>
    Limit r' = Limit r \<and> ParentID r' = ParentID r"
  using assms by (induction rule: row_steps.induct) (auto dest!: row_step_key)

text \<open>Only a save and a purge write the key index.\<close>

lemma byKey_sweeps [simp]:
  "ms_byKey (snd (park_one clk cutoff cord i a)) = ms_byKey (snd a)"
  "ms_byKey (sw_store (sweep_one clk cutoff i b)) = ms_byKey (sw_store b)"
  "ms_byKey (snd (orphan_one clk orphans i a)) = ms_byKey (snd a)"
  "ms_byKey (snd (sweep_sealed_one i a)) = ms_byKey (snd a)"
  "ms_byKey (snd (purge_events_one cutoff i a)) = ms_byKey (snd a)"
  "ms_byKey (snd (purge_auth_one ford hord i a)) = ms_byKey (snd a)"
  by (simp_all add: park_one_def sweep_one_def orphan_one_def sweep_sealed_one_def
      purge_events_one_def purge_auth_one_def Let_def split: option.splits status.splits)

lemma byKey_reclaimStale:
  "ms_byKey (snd (reclaimStale now0 c1 c2 c3 cord o1 o2 o3 ttl st)) = ms_byKey st"
proof -
  have a: "ms_byKey (snd (fold (park_one clk cutoff cord) ord acc)) = ms_byKey (snd acc)" for clk cutoff ord acc
    by (rule fold_keeps [where f = "\<lambda>a. ms_byKey (snd a)"]) simp
  have b: "ms_byKey (sw_store (fold (sweep_one clk cutoff) ord acc)) = ms_byKey (sw_store acc)"
    for clk cutoff ord acc
    by (rule fold_keeps [where f = "\<lambda>a. ms_byKey (sw_store a)"]) simp
  have c: "ms_byKey (snd (fold (orphan_one clk orphans) ord acc)) = ms_byKey (snd acc)" for clk orphans ord acc
    by (rule fold_keeps [where f = "\<lambda>a. ms_byKey (snd a)"]) simp
  show ?thesis
    by (simp add: reclaimStale_def parkStalled_def resolveOrphans_def Let_def split_beta a b c)
qed

lemma byKey_folds:
  "ms_byKey (snd (SweepSealed ord st)) = ms_byKey st"
  "ms_byKey (snd (PurgeEventsBefore ord cutoff st)) = ms_byKey st"
  "ms_byKey (snd (PurgeRunAuth ford hord ord st)) = ms_byKey st"
  unfolding SweepSealed_def PurgeEventsBefore_def PurgeRunAuth_def
  by (subst fold_keeps [where f = "\<lambda>a. ms_byKey (snd a)"]; simp)+

lemma byKey_owed_ends_scan [simp]:
  "ms_byKey (snd (owed_ends_scan now g is st due)) = ms_byKey st"
  by (induction now g "is" st due rule: owed_ends_scan.induct)
    (simp_all add: Let_def split: option.splits)

lemma byKey_owed_events_scan [simp]:
  "ms_byKey (snd (owed_events_scan now g es st due)) = ms_byKey st"
  by (induction now g es st due rule: owed_events_scan.induct) (simp_all split: option.splits)

lemma byKey_plain:
  "ms_byKey (snd (Claim now secret ord owner queues st)) = ms_byKey st"
  "ms_byKey (snd (Heartbeat now i owner st)) = ms_byKey st"
  "ms_byKey (snd (RequestCancel i st)) = ms_byKey st"
  "ms_byKey (snd (CancelPending now i st)) = ms_byKey st"
  "ms_byKey (snd (TransitionStatusAndClaim now i from to owner startedAt st)) = ms_byKey st"
  "ms_byKey (snd (StartClaimed now i owner secret startedAt st)) = ms_byKey st"
  "ms_byKey (snd (TransitionStatus now i from to st)) = ms_byKey st"
  "ms_byKey (snd (StampApprovedSpec i digest binding seal st)) = ms_byKey st"
  "ms_byKey (snd (SealAdopted i a st)) = ms_byKey st"
  "ms_byKey (snd (WipeSealed i st)) = ms_byKey st"
  "ms_byKey (snd (KeepDriftPlan i sealed st)) = ms_byKey st"
  "ms_byKey (snd (ParkForApproval now i owner st)) = ms_byKey st"
  "ms_byKey (snd (SettleHeld i fin st)) = ms_byKey st"
  "ms_byKey (snd (ClaimDecision i d claim st)) = ms_byKey st"
  "ms_byKey (snd (SettleDecision now i d s st)) = ms_byKey st"
  "ms_byKey (snd (FinalizeRunning i fin st)) = ms_byKey st"
  "ms_byKey (snd (ApplyRunningProgress i owner p st)) = ms_byKey st"
  "ms_byKey (snd (AppendLog i bytes st)) = ms_byKey st"
  by (simp_all add: Claim_def Heartbeat_def RequestCancel_def CancelPending_def
      TransitionStatusAndClaim_def StartClaimed_def TransitionStatus_def StampApprovedSpec_def
      SealAdopted_def WipeSealed_def KeepDriftPlan_def drop_plans_def ParkForApproval_def
      SettleHeld_def ClaimDecision_def SettleDecision_def FinalizeRunning_def
      ApplyRunningProgress_def AppendLog_def Let_def split: option.splits)

lemma byKey_ledgers:
  "ms_byKey (SaveStreamTicket now tord t a b st) = ms_byKey st"
  "ms_byKey (snd (RedeemStreamTicket h i now st)) = ms_byKey st"
  "ms_byKey (snd (SpendBudget bord key window now st)) = ms_byKey st"
  "ms_byKey (SaveSecretLease l st) = ms_byKey st"
  "ms_byKey (snd (TakeSecretLease i st)) = ms_byKey st"
  "ms_byKey (snd (OwedEnds now uord grace limit st)) = ms_byKey st"
  "ms_byKey (SettleEnd i st) = ms_byKey st"
  "ms_byKey (snd (OwedEvents now eord grace limit st)) = ms_byKey st"
  "ms_byKey (SettleEvent i e st) = ms_byKey st"
  "ms_byKey (snd (OwedOutcomes now ord age limit st)) = ms_byKey st"
  "ms_byKey (SettleOutcome i st) = ms_byKey st"
  "ms_byKey (snd (AppendEvents i es st)) = ms_byKey st"
  by (simp_all add: SaveStreamTicket_def RedeemStreamTicket_def SpendBudget_def SaveSecretLease_def
      TakeSecretLease_def OwedEnds_def SettleEnd_def OwedEvents_def SettleEvent_def
      OwedOutcomes_def SettleOutcome_def AppendEvents_def Let_def split_beta split: option.splits)

lemma fenced_step_byKey:
  assumes "store_step op st st'" and "\<forall>q. op \<noteq> OpSave q" and "\<forall>c. op \<noteq> OpPurge c"
  shows "ms_byKey st' = ms_byKey st"
  using assms
  by (induction rule: store_step.induct)
    (simp_all only: byKey_plain byKey_ledgers byKey_folds byKey_reclaimStale simp_thms, blast+)

lemma fenced_step_keys:
  assumes "store_step op st st'" and "store_ok st" and "keys_ok st"
    and "\<forall>q. op \<noteq> OpSave q" and "\<forall>c. op \<noteq> OpPurge c"
  shows "keys_ok st'"
  unfolding keys_ok_def
proof (intro allI impI)
  fix i r' assume r': "ms_runs st' i = Some r'" "IdempotencyKey r' \<noteq> []"
  note ref = fenced_step_refines [OF assms(1,2,4,5)]
  obtain r where r: "ms_runs st i = Some r" using refines_NoneD [OF ref] r'(1) by fastforce
  have "RSave \<notin> op_labels op i" using assms(4) by (cases op) (auto simp: only_def)
  then have "IdempotencyKey r' = IdempotencyKey r"
    using refines_SomeD [OF ref r] r'(1) row_steps_key by fastforce
  then show "ms_byKey st' (IdempotencyKey r') = Some i"
    using assms(3) r r'(2) fenced_step_byKey [OF assms(1,4,5)] by (simp add: keys_ok_def)
qed

lemma purge_run_one_keys:
  assumes "keys_ok (snd acc)"
  shows "keys_ok (snd (purge_run_one cutoff i acc))"
proof (cases "ms_runs (snd acc) i")
  case None
  then show ?thesis using assms by (simp add: purge_run_one_def)
next
  case (Some r)
  show ?thesis
  proof (cases "purgeable cutoff (snd acc) r")
    case True
    let ?st = "snd acc" and ?st' = "snd (purge_run_one cutoff i acc)"
    have runs': "ms_runs ?st' = (ms_runs ?st)(i := None)"
      and keys': "ms_byKey ?st' = (if IdempotencyKey r \<noteq> [] \<and> ms_byKey ?st (IdempotencyKey r) = Some i
         then (ms_byKey ?st)(IdempotencyKey r := None) else ms_byKey ?st)"
      using True Some by (simp_all add: purge_run_one_def Let_def)
    show ?thesis
      unfolding keys_ok_def runs' keys'
      using assms [unfolded keys_ok_def] by (auto split: if_splits) (metis option.inject)
  next
    case False
    then show ?thesis using assms Some by (simp add: purge_run_one_def Let_def)
  qed
qed

lemma PurgeRunsBefore_keys: "keys_ok st \<Longrightarrow> keys_ok (snd (PurgeRunsBefore ord cutoff st))"
proof -
  have "keys_ok (snd acc) \<Longrightarrow> keys_ok (snd (fold (purge_run_one cutoff) ord acc))" for acc
    by (induction ord arbitrary: acc) (simp_all add: purge_run_one_keys)
  from this [of "(0, st)"] show "keys_ok st \<Longrightarrow> ?thesis" unfolding PurgeRunsBefore_def by simp
qed

lemma Save_key_guard:
  "fst (Save now ord q st) = None \<Longrightarrow> IdempotencyKey q \<noteq> [] \<Longrightarrow>
     ms_byKey st (IdempotencyKey q) \<in> {None, Some (ID q)}"
  by (auto simp: Save_def Let_def split: if_splits option.splits)

lemma Save_duplicate:
  assumes "IdempotencyKey q \<noteq> []" and "ms_byKey st (IdempotencyKey q) = Some i" and "i \<noteq> ID q"
  shows "Save now ord q st = (Some ErrDuplicateKey, st)"
  unfolding Save_def Let_def by (subst if_P) (use assms in simp_all)

lemma Save_lane_busy:
  assumes "IdempotencyKey q = []" and "LiveCallback (Sanitize q)" and "i \<in> set ord" and "i \<noteq> ID q"
    and "ms_runs st i = Some a" and "LiveCallback a" and "sameCallbackLane a (Sanitize q)"
  shows "Save now ord q st = (Some ErrCallbackPending, st)"
proof -
  have "list_ex (\<lambda>i. i \<noteq> ID (Sanitize q) \<and> (case ms_runs st i of
      Some other \<Rightarrow> LiveCallback other \<and> sameCallbackLane other (Sanitize q) | None \<Rightarrow> False)) ord"
    unfolding list_ex_iff by (rule bexI [OF _ assms(3)]) (use assms in simp)
  then show ?thesis
    unfolding Save_def Let_def by (subst if_not_P, use assms in simp, subst if_P, use assms in simp_all)
qed

lemma Save_keys:
  assumes "keys_ok st"
  shows "keys_ok (snd (Save now ord q st))"
proof (cases "fst (Save now ord q st) = None")
  case True
  note g = Save_key_guard [OF True]
  show ?thesis
    unfolding keys_ok_def Save_runs Save_byKey if_P [OF True]
    using assms [unfolded keys_ok_def] g True by (fastforce split: if_splits)
next
  case False
  then have f: "(fst (Save now ord q st) = None) = False" by blast
  show ?thesis using assms unfolding keys_ok_def Save_runs Save_byKey f by simp
qed

lemma store_step_keys:
  assumes "store_step op st st'" and "store_ok st" and "keys_ok st"
  shows "keys_ok st'"
proof (cases op)
  case (OpSave q)
  from assms(1) [unfolded OpSave] show ?thesis by cases (simp add: Save_keys assms(3))
next
  case (OpPurge cutoff)
  from assms(1) [unfolded OpPurge] show ?thesis by cases (simp add: PurgeRunsBefore_keys assms(3))
qed (use fenced_step_keys [OF assms] in auto)

lemma reachable_keys: "reachable st \<Longrightarrow> keys_ok st"
proof -
  have "store_runs P st st' \<Longrightarrow> store_ok st \<Longrightarrow> keys_ok st \<Longrightarrow> keys_ok st'" for P st st'
    by (induction rule: store_runs.induct) (auto intro: store_step_keys store_runs_ok)
  then show "reachable st \<Longrightarrow> ?thesis"
    unfolding reachable_def by (auto simp: store_ok_def keys_ok_def NewMemStore_def)
qed

text \<open>C16. An idempotency key names one run. In every reachable store at most one row carries a given
  key, looking the key up finds that row, and a save of another run under the key is refused
  with the duplicate-key error and stores nothing.\<close>

theorem idempotency_key_names_one_run:
  assumes "reachable st" and "ms_runs st i = Some r" and "IdempotencyKey r \<noteq> []"
  shows "ByIdempotencyKey (IdempotencyKey r) st = Inr r \<and>
    (\<forall>j s. ms_runs st j = Some s \<and> IdempotencyKey s = IdempotencyKey r \<longrightarrow> j = i) \<and>
    (\<forall>now ord q. IdempotencyKey q = IdempotencyKey r \<and> ID q \<noteq> i \<longrightarrow>
       Save now ord q st = (Some ErrDuplicateKey, st))"
proof -
  have k: "ms_byKey st (IdempotencyKey r) = Some i"
    using reachable_keys [OF assms(1)] assms(2,3) by (simp add: keys_ok_def)
  have "j = i" if "ms_runs st j = Some s" "IdempotencyKey s = IdempotencyKey r" for j s
    using reachable_keys [OF assms(1)] that k assms(3) unfolding keys_ok_def by (metis option.inject)
  moreover have "Save now ord q st = (Some ErrDuplicateKey, st)"
    if "IdempotencyKey q = IdempotencyKey r" "ID q \<noteq> i" for now ord q
    using Save_duplicate [of q st i now ord] that k assms(3) by metis
  moreover have "ByIdempotencyKey (IdempotencyKey r) st = Inr r"
    using k assms(2,3) by (simp add: ByIdempotencyKey_def)
  ultimately show ?thesis by blast
qed

theorem idempotency_key_names_one_run_witness:
  "fst (Save 3 [''a''] (zero_run\<lparr>ID := ''b'', IdempotencyKey := ''k''\<rparr>)
     (store_with (zero_run\<lparr>ID := ''a'', IdempotencyKey := ''k''\<rparr>))) = Some ErrDuplicateKey"
proof -
  let ?q = "zero_run\<lparr>ID := ''a'', IdempotencyKey := ''k''\<rparr>"
  have r: "ms_runs (store_with ?q) ''a'' = Some (save_row None (Sanitize ?q))"
    by (simp add: runs_store_with)
  have k: "IdempotencyKey (save_row None (Sanitize ?q)) \<noteq> []" by simp
  from idempotency_key_names_one_run [OF reachable_store_with r k] show ?thesis by simp
qed

section \<open>Callback lanes\<close>

definition lanes_ok :: "mem_store \<Rightarrow> bool" where
  "lanes_ok st \<longleftrightarrow> (\<forall>i j a b. ms_runs st i = Some a \<and> ms_runs st j = Some b \<and> i \<noteq> j \<longrightarrow>
     LiveCallback a \<longrightarrow> LiveCallback b \<longrightarrow> \<not> sameCallbackLane a b)"

text \<open>A status move out of a finished status would bring a finished callback back to life; no
  caller makes one.\<close>

fun revives :: "store_op \<Rightarrow> bool" where
  "revives (OpMove i from to) \<longleftrightarrow> Terminal from"
| "revives _ \<longleftrightarrow> False"

lemma row_steps_live:
  assumes "row_steps L r r'" and "RSave \<notin> L" and "\<forall>l\<in>L. \<not> unfenced l" and "LiveCallback r'"
  shows "LiveCallback r \<and> (\<forall>s. sameCallbackLane s r' = sameCallbackLane s r)"
  using assms
proof (induction rule: row_steps.induct)
  case (step r r' l r'')
  have "l \<noteq> RSave" "\<not> unfenced l" using step by auto
  note key = row_step_key [OF step.hyps(2) this(1)]
  have "LiveCallback r'"
    using step.prems(3) key row_step_terminal [OF step.hyps(2) _ \<open>\<not> unfenced l\<close>]
    by (auto simp: LiveCallback_def)
  with step key show ?case by (auto simp: sameCallbackLane_def)
qed simp

lemma fenced_step_live:
  assumes "store_step op st st'" and "store_ok st" and "\<not> revives op" and "\<forall>q. op \<noteq> OpSave q"
    and "ms_runs st' i = Some b" and "LiveCallback b"
  shows "\<exists>a. ms_runs st i = Some a \<and> LiveCallback a \<and>
    (\<forall>s. sameCallbackLane s b = sameCallbackLane s a) "
proof (cases "ms_runs st i")
  case None
  from store_step_new [OF assms(1,2) None] assms(4,5) show ?thesis by auto
next
  case (Some a)
  have "RSave \<notin> op_labels op i" "\<forall>l\<in>op_labels op i. \<not> unfenced l"
    using assms(3,4) by (cases op; auto simp: only_def unfenced_def)+
  with store_step_row [OF assms(1,2) Some] assms(5,6) show ?thesis
    using Some row_steps_live by fastforce
qed

lemma sameCallbackLane_sym: "sameCallbackLane a b = sameCallbackLane b a"
  by (auto simp: sameCallbackLane_def)

lemma Save_lanes:
  assumes "lanes_ok st" and it: "iterates ord (ms_runs st)"
  shows "lanes_ok (snd (Save now ord q st))"
proof (cases "fst (Save now ord q st) = None")
  case True
  let ?n = "save_row (ms_runs st (ID q)) (Sanitize q)"
  have lane: "LiveCallback ?n = LiveCallback (Sanitize q)"
    "sameCallbackLane x ?n = sameCallbackLane x (Sanitize q)" for x
    by (simp_all only: LiveCallback_def sameCallbackLane_def save_row_frame)
  have new: "\<not> sameCallbackLane b ?n" if "LiveCallback ?n" "ms_runs st j = Some b" "j \<noteq> ID q" "LiveCallback b" for j b
  proof -
    have "j \<in> set ord" using it that(2) by (auto simp: iterates_def)
    then show ?thesis
      using True that lane
      by (auto simp: Save_def Let_def list_ex_iff split: if_splits)
  qed
  show ?thesis
    unfolding lanes_ok_def Save_runs if_P [OF True]
  proof (intro allI impI)
    fix i j a b
    assume "((ms_runs st)(ID q \<mapsto> ?n)) i = Some a \<and> ((ms_runs st)(ID q \<mapsto> ?n)) j = Some b \<and> i \<noteq> j"
      and "LiveCallback a" and "LiveCallback b"
    then show "\<not> sameCallbackLane a b"
      using assms(1) [unfolded lanes_ok_def] new sameCallbackLane_sym [of a b]
      by (cases "i = ID q"; cases "j = ID q") auto
  qed
next
  case False
  then show ?thesis using assms(1) by (simp only: lanes_ok_def Save_runs if_not_P if_False)
qed

lemma store_step_lanes:
  assumes "store_step op st st'" and "store_ok st" and "\<not> revives op" and "lanes_ok st"
  shows "lanes_ok st'"
proof (cases "\<exists>q. op = OpSave q")
  case True
  then obtain q where "op = OpSave q" by blast
  with assms(1) have "store_step (OpSave q) st st'" by simp
  then show ?thesis by cases (simp add: Save_lanes assms(4))
next
  case False
  show ?thesis
    unfolding lanes_ok_def
  proof (intro allI impI)
    fix i j a b
    assume ab: "ms_runs st' i = Some a \<and> ms_runs st' j = Some b \<and> i \<noteq> j"
      and l: "LiveCallback a" "LiveCallback b"
    obtain a' b' where "ms_runs st i = Some a'" "LiveCallback a'" "ms_runs st j = Some b'"
        "LiveCallback b'" "sameCallbackLane a b \<longleftrightarrow> sameCallbackLane a' b'"
      using fenced_step_live [OF assms(1-3)] False ab l sameCallbackLane_sym by metis
    then show "\<not> sameCallbackLane a b" using assms(4) ab unfolding lanes_ok_def by blast
  qed
qed

text \<open>At most one unfinished callback run exists per template and host. However operations
  interleave, as long as none moves a run out of a finished status by name, no two stored rows are
  unfinished callbacks of the same lane, so a storm of phone-home requests from one host queues
  one run; and while a lane is busy, a save of another live callback for it is refused.\<close>

theorem one_live_callback_per_lane:
  assumes "store_runs (\<lambda>op. \<not> revives op) NewMemStore st"
    and "ms_runs st i = Some a" and "LiveCallback a"
  shows "(\<forall>j b. ms_runs st j = Some b \<and> LiveCallback b \<and> sameCallbackLane a b \<longrightarrow> j = i) \<and>
    (\<forall>now ord q. iterates ord (ms_runs st) \<and> IdempotencyKey q = [] \<and> ID q \<noteq> i \<and>
       LiveCallback (Sanitize q) \<and> sameCallbackLane a (Sanitize q) \<longrightarrow>
       Save now ord q st = (Some ErrCallbackPending, st))"
proof -
  have "store_runs P s t \<Longrightarrow> (\<And>op. P op \<Longrightarrow> \<not> revives op) \<Longrightarrow> store_ok s \<Longrightarrow> lanes_ok s \<Longrightarrow> lanes_ok t"
    for P s t
    by (induction rule: store_runs.induct) (auto intro: store_step_lanes store_runs_ok)
  from this [OF assms(1)] have lanes: "lanes_ok st"
    by (auto simp: store_ok_def lanes_ok_def NewMemStore_def)
  have "i \<in> set ord" if "iterates ord (ms_runs st)" for ord
    using that assms(2) by (auto simp: iterates_def)
  then have "Save now ord q st = (Some ErrCallbackPending, st)"
    if "iterates ord (ms_runs st)" "IdempotencyKey q = []" "ID q \<noteq> i" "LiveCallback (Sanitize q)"
      "sameCallbackLane a (Sanitize q)" for now ord q
    using Save_lane_busy [OF that(2,4) _ _ assms(2,3) that(5)] that(1,3) by metis
  then show ?thesis using lanes assms(2,3) unfolding lanes_ok_def by blast
qed

theorem one_live_callback_per_lane_witness:
  "fst (Save 3 [''a''] (zero_run\<lparr>ID := ''b'', Source := SourceCallback, Status := StatusPending\<rparr>)
     (store_with (zero_run\<lparr>ID := ''a'', Source := SourceCallback, Status := StatusPending\<rparr>)))
     = Some ErrCallbackPending"
proof -
  let ?q = "zero_run\<lparr>ID := ''a'', Source := SourceCallback, Status := StatusPending\<rparr>"
  let ?n = "zero_run\<lparr>ID := ''b'', Source := SourceCallback, Status := StatusPending\<rparr>"
  let ?r = "save_row None (Sanitize ?q)"
  have it: "iterates [] (ms_runs NewMemStore)" by (simp add: iterates_def NewMemStore_def)
  have s: "store_runs (\<lambda>op. \<not> revives op) NewMemStore (store_with ?q)"
    unfolding store_with_def by (rule store_runs_one [OF store_step.save [OF it]]) simp
  have r: "ms_runs (store_with ?q) ''a'' = Some ?r" by (simp add: runs_store_with)
  have l: "LiveCallback ?r"
    by (simp add: LiveCallback_def save_row_def Sanitize_def zero_run_def)
  have it': "iterates [''a''] (ms_runs (store_with ?q))" by (simp add: iterates_def runs_store_with)
  have n: "LiveCallback (Sanitize ?n)" "sameCallbackLane ?r (Sanitize ?n)" "IdempotencyKey ?n = []"
    by (simp_all add: LiveCallback_def sameCallbackLane_def save_row_def Sanitize_def zero_run_def)
  from one_live_callback_per_lane [OF s r l] it' n show ?thesis by auto
qed

section \<open>Retention\<close>

text \<open>Retention removes only what is over. A purge of runs created before a cutoff leaves every
  row either as it was or gone; a row that went was finished, older than the cutoff and neither
  owed its outcome announcement nor belonged to a parent that did; and who may read a run, the
  question its captured output and facts are filtered by, has the same answer for every run id
  before and after.\<close>

theorem purge_removes_only_finished_runs:
  assumes "reachable st"
  shows "(ms_runs (snd (PurgeRunsBefore ord cutoff st)) i = ms_runs st i \<or>
      (\<exists>r. ms_runs st i = Some r \<and> ms_runs (snd (PurgeRunsBefore ord cutoff st)) i = None \<and>
         Terminal (Status r) \<and> CreatedAt r < cutoff \<and> \<not> heldForOutcome st r)) \<and>
    RunAuthFor i (snd (PurgeRunsBefore ord cutoff st)) = RunAuthFor i st"
proof -
  let ?st' = "snd (PurgeRunsBefore ord cutoff st)"
  have P: "purging cutoff st ?st'"
    by (rule PurgeRunsBefore_purging [OF reachable_ok [OF assms]])
  then have auth: "RunAuthFor i ?st' = RunAuthFor i st" by (simp add: purging_def)
  have "ms_runs ?st' i = ms_runs st i \<or> ms_runs ?st' i = None \<and> (\<exists>r. ms_runs st i = Some r)"
    using P unfolding purging_def by (metis option.exhaust)
  moreover have "ms_runs st i = Some r \<Longrightarrow> ms_runs ?st' i = None \<Longrightarrow> purgeable cutoff st r" for r
    using P unfolding purging_def by blast
  ultimately show ?thesis using auth unfolding purgeable_def by blast
qed

theorem purge_removes_only_finished_runs_witness:
  "ms_runs (snd (PurgeRunsBefore [''a''] 100
     (store_with (zero_run\<lparr>ID := ''a'', Status := StatusRunning\<rparr>)))) ''a'' \<noteq> None"
proof -
  let ?q = "zero_run\<lparr>ID := ''a'', Status := StatusRunning\<rparr>"
  have "ms_runs (store_with ?q) ''a'' = Some (save_row None (Sanitize ?q))"
    by (simp add: runs_store_with)
  with purge_removes_only_finished_runs [OF reachable_store_with, of "[''a'']" 100 ?q "''a''"]
  show ?thesis by auto
qed

end
