(* ===== verification/Store_Sweep.thy ===== *)
theory Store_Sweep
  imports Store_Props
begin

text \<open>
  The loops of the store that visit every row: the lease sweep, the settlement of orphaned
  children and the wipe of finished runs' sealed material. Each rewrites a row from that row
  alone, so what it does to the store is the rewrite of every row, in whatever order the loop
  visits them.
\<close>

lemma map_filter_cong:
  "(\<And>x. x \<in> set xs \<Longrightarrow> f x = g x) \<Longrightarrow> List.map_filter f xs = List.map_filter g xs"
  by (induction xs) (auto simp: map_filter_simps split: option.splits)

section \<open>Loops that rewrite rows one by one\<close>

locale row_loop =
  fixes view :: "'a \<Rightarrow> (string \<rightharpoonup> run)" and one :: "string \<Rightarrow> 'a \<Rightarrow> 'a" and f :: "string \<Rightarrow> run \<Rightarrow> run"
  assumes view_one: "view (one i a) = (view a)(i := map_option (f i) (view a i))"
begin

lemma view_fold:
  "distinct ord \<Longrightarrow>
     view (fold one ord a) j = (if j \<in> set ord then map_option (f j) (view a j) else view a j)"
  by (induction ord arbitrary: a) (auto simp: view_one)

lemma view_fold_all:
  "iterates ord (view a) \<Longrightarrow> view (fold one ord a) j = map_option (f j) (view a j)"
  using view_fold [of ord a j] by (auto simp: iterates_def domIff)

lemma order_irrelevant:
  "iterates ord (view a) \<Longrightarrow> iterates ord' (view a) \<Longrightarrow> view (fold one ord a) = view (fold one ord' a)"
  by (rule ext) (simp add: view_fold_all)

end

text \<open>A loop that also lists the rows it has something to report of.\<close>

locale reporting_loop = row_loop +
  fixes out :: "'a \<Rightarrow> string list" and reports :: "run \<Rightarrow> bool"
  assumes out_one: "out (one i a) = out a @ (case view a i of Some r \<Rightarrow> if reports r then [i] else [] | None \<Rightarrow> [])"
begin

lemma out_fold:
  "distinct ord \<Longrightarrow> out (fold one ord a) =
     out a @ filter (\<lambda>i. case view a i of Some r \<Rightarrow> reports r | None \<Rightarrow> False) ord"
proof (induction ord arbitrary: a)
  case (Cons i ord)
  have "filter (\<lambda>j. case view (one i a) j of Some r \<Rightarrow> reports r | None \<Rightarrow> False) ord =
      filter (\<lambda>j. case view a j of Some r \<Rightarrow> reports r | None \<Rightarrow> False) ord"
    by (rule filter_cong) (use Cons.prems in \<open>auto simp: view_one\<close>)
  then show ?case using Cons by (simp add: out_one split: option.splits)
qed simp

end

text \<open>A loop that counts the rows it changes.\<close>

locale counting_loop = row_loop +
  fixes count :: "'a \<Rightarrow> int" and hits :: "run \<Rightarrow> bool"
  assumes count_one: "count (one i a) =
    count a + (case view a i of Some r \<Rightarrow> if hits r then 1 else 0 | None \<Rightarrow> 0)"
begin

lemma count_fold:
  "distinct ord \<Longrightarrow> count (fold one ord a) =
     count a + int (length (filter hits (List.map_filter (view a) ord)))"
proof (induction ord arbitrary: a)
  case (Cons i ord)
  have "List.map_filter (view (one i a)) ord = List.map_filter (view a) ord"
    using Cons.prems by (intro map_filter_cong) (auto simp: view_one)
  then show ?case using Cons by (simp add: count_one map_filter_simps split: option.splits)
qed (simp add: map_filter_simps)

end

section \<open>The three loops\<close>

text \<open>What the lease sweep makes of one row.\<close>

definition swept :: "clock \<Rightarrow> gotime \<Rightarrow> string \<Rightarrow> run \<Rightarrow> run" where
  "swept clk cutoff i r =
     (if AbandonedParent r cutoff then interrupt_row (clk i) abandonedParentError r
      else if \<not> lease_before cutoff r then r
      else if Status r = StatusPending then
        (if CancelRequested r
         then (clear_lease r)\<lparr>Status := StatusCanceled, EndedAt := Some (clk i)\<rparr>
         else clear_lease r)
      else if Status r = StatusRunning then interrupt_row (clk i) leaseExpiredError (clear_lease r)
      else r)"

definition ends_top :: "gotime \<Rightarrow> run \<Rightarrow> bool" where
  "ends_top cutoff r \<longleftrightarrow> ParentID r = None \<and> (AbandonedParent r cutoff \<or> (lease_before cutoff r \<and>
     (Status r = StatusRunning \<or> (Status r = StatusPending \<and> CancelRequested r))))"

interpretation sweep: reporting_loop "\<lambda>a. ms_runs (sw_store a)" "sweep_one clk cutoff"
  "swept clk cutoff" sw_settled "ends_top cutoff"
  by unfold_locales
    (auto simp: sweep_one_def swept_def ends_top_def settle_top_def Let_def fun_upd_idem
      split: option.splits status.splits)

text \<open>What the settlement of orphans makes of one row.\<close>

definition unparented :: "clock \<Rightarrow> (string \<Rightarrow> bool) \<Rightarrow> string \<Rightarrow> run \<Rightarrow> run" where
  "unparented clk orphans i r =
     (if (case ParentID r of None \<Rightarrow> True | Some p \<Rightarrow> \<not> orphans p) \<or> InFlight r then r
      else if Status r = StatusRunning then r\<lparr>CancelRequested := True\<rparr>
      else if Status r = StatusPending \<or> Status r = StatusPendingApproval then
        set_error_if_empty orphanError
          ((clear_lease r)\<lparr>Status := StatusCanceled, EndedAt := Some (clk i)\<rparr>)
      else r)"

interpretation orphan: row_loop "\<lambda>a. ms_runs (snd a)" "orphan_one clk orphans" "unparented clk orphans"
  by unfold_locales
    (auto simp: orphan_one_def unparented_def fun_upd_idem split: option.splits status.splits)

definition unsealed :: "string \<Rightarrow> run \<Rightarrow> run" where
  "unsealed i r = (if Terminal (Status r) then wipe_row r else r)"

definition sealed_leftover :: "run \<Rightarrow> bool" where
  "sealed_leftover r \<longleftrightarrow> Terminal (Status r) \<and> (InventorySealed r \<noteq> [] \<or> PlanSealed r \<noteq> [])"

interpretation seals: counting_loop "\<lambda>a. ms_runs (snd a)" sweep_sealed_one unsealed fst sealed_leftover
  by unfold_locales
    (auto simp: sweep_sealed_one_def unsealed_def sealed_leftover_def wipe_row_def fun_upd_idem split: option.splits)

section \<open>The sweep as a whole\<close>

lemma park_fold_row:
  "ms_runs (snd (fold (park_one clk cutoff cord) ord acc)) i = Some r' \<Longrightarrow>
     \<exists>r. ms_runs (snd acc) i = Some r \<and>
       (r' = r \<or> (Status r = StatusRunning \<and> lease_before cutoff r \<and> r' = park_row r))"
proof (induction ord arbitrary: acc)
  case (Cons j ord)
  from Cons.IH [of "park_one clk cutoff cord j acc"] Cons.prems
  obtain r1 where r1: "ms_runs (snd (park_one clk cutoff cord j acc)) i = Some r1"
      "r' = r1 \<or> (Status r1 = StatusRunning \<and> lease_before cutoff r1 \<and> r' = park_row r1)"
    by auto
  have "\<exists>r. ms_runs (snd acc) i = Some r \<and>
      (r1 = r \<or> (Status r = StatusRunning \<and> lease_before cutoff r \<and> r1 = park_row r))"
    using r1(1) by (auto simp: park_one_def Let_def split: option.splits if_splits)
  with r1(2) show ?case by (auto simp: park_row_def clear_lease_def)
qed simp

lemma park_fold_dom: "dom (ms_runs (snd (fold (park_one clk cutoff cord) ord acc))) = dom (ms_runs (snd acc))"
  by (rule fold_keeps [where f = "\<lambda>a. dom (ms_runs (snd a))"])
    (auto simp: park_one_def Let_def split: option.splits)

lemma Status_unparented_interrupted:
  "Status (unparented clk orphans i r) = StatusInterrupted \<longleftrightarrow> Status r = StatusInterrupted"
  by (auto simp: unparented_def set_error_if_empty_def)

lemma Kind_unparented [simp]: "Kind (unparented clk orphans i r) = Kind r"
  by (auto simp: unparented_def set_error_if_empty_def clear_lease_def)

lemma orphaned_cong:
  assumes "\<And>i. ms_runs st' i = map_option (unparented clk orphans i) (ms_runs st i)"
  shows "orphaned st' = orphaned st"
  by (rule ext) (auto simp: orphaned_def assms Status_unparented_interrupted split: option.splits)

text \<open>The three passes, one row at a time.\<close>

lemma reclaimStale_rows:
  assumes it: "iterates o2 (ms_runs st)" "iterates o3 (ms_runs st)"
    and res: "reclaimStale now0 c1 c2 c3 cord o1 o2 o3 ttl st = ((n, settled), st')"
  shows "\<exists>st1. st1 = snd (parkStalled c1 (now0 - ttl) cord o1 st) \<and>
    (\<forall>i. ms_runs st' i =
       map_option (\<lambda>r. unparented c3 (orphaned st') i (swept c2 (now0 - ttl) i r)) (ms_runs st1 i)) \<and>
    settled = filter (\<lambda>i. case ms_runs st1 i of Some r \<Rightarrow> ends_top (now0 - ttl) r | None \<Rightarrow> False) o2"
proof -
  let ?c = "now0 - ttl"
  obtain k st1 where p: "parkStalled c1 ?c cord o1 st = (k, st1)" by fastforce
  define a0 where "a0 = \<lparr>sw_changed = k, sw_settled = [], sw_store = st1\<rparr>"
  define acc where "acc = fold (sweep_one c2 ?c) o2 a0"
  obtain m st3 where q: "resolveOrphans c3 o3 (sw_store acc) = (m, st3)" by fastforce
  have eq: "st' = st3" "settled = sw_settled acc"
    using res p q by (simp_all add: reclaimStale_def acc_def a0_def Let_def)
  have dom1: "dom (ms_runs st1) = dom (ms_runs st)"
    using park_fold_dom [of c1 ?c cord o1 "(0, st)"] p unfolding parkStalled_def by simp
  have it2: "iterates o2 (ms_runs (sw_store a0))"
    using it(1) dom1 by (simp add: iterates_def a0_def)
  have sw: "ms_runs (sw_store acc) i = map_option (swept c2 ?c i) (ms_runs st1 i)" for i
    unfolding acc_def using sweep.view_fold_all [OF it2] by (simp add: a0_def)
  then have "dom (ms_runs (sw_store acc)) = dom (ms_runs st1)" by auto
  then have it3: "iterates o3 (ms_runs (snd (0::int, sw_store acc)))"
    using it(2) dom1 by (simp add: iterates_def)
  have un: "ms_runs st' i = map_option (unparented c3 (orphaned (sw_store acc)) i) (ms_runs (sw_store acc) i)" for i
    using orphan.view_fold_all [OF it3, of c3 "orphaned (sw_store acc)"] q eq(1)
    unfolding resolveOrphans_def by simp
  note orphaned_cong [OF this]
  moreover have "sw_settled acc =
      filter (\<lambda>i. case ms_runs st1 i of Some r \<Rightarrow> ends_top ?c r | None \<Rightarrow> False) o2"
    unfolding acc_def using sweep.out_fold [of o2 c2 ?c a0] it2 by (simp add: a0_def iterates_def)
  ultimately show ?thesis
    using p un sw eq by (intro exI [of _ st1]) (auto simp: option.map_comp comp_def)
qed





lemma ParentID_swept [simp]: "ParentID (swept clk c i r) = ParentID r"
  by (simp add: swept_def interrupt_row_def set_error_if_empty_def clear_lease_def)

lemma unparented_top [simp]: "ParentID r = None \<Longrightarrow> unparented clk orphans i r = r"
  by (simp add: unparented_def)

lemma ends_top_iff:
  "ends_top c r \<longleftrightarrow> ParentID r = None \<and> \<not> Terminal (Status r) \<and> Terminal (Status (swept clk c i r))"
  by (cases "Status r")
    (simp_all add: ends_top_def swept_def interrupt_row_def set_error_if_empty_def clear_lease_def AbandonedParent_def)

text \<open>The sweep reports what it ended. The ids it returns are sorted, without repeats, and are
  exactly the top-level runs that were unfinished before it and are finished after it, so the
  end of every run it settled is announced and of no other.\<close>

theorem sweep_reports_what_it_ended:
  assumes "iterates o2 (ms_runs st)" and "iterates o3 (ms_runs st)"
    and "ReclaimStaleSettled now0 c1 c2 c3 cord o1 o2 o3 ttl st = ((n, settled), st')"
  shows "sorted settled \<and> distinct settled \<and>
    set settled = {i. \<exists>r r'. ms_runs st i = Some r \<and> ms_runs st' i = Some r' \<and> ParentID r = None \<and>
      \<not> Terminal (Status r) \<and> Terminal (Status r')}"
proof -
  let ?c = "now0 - ttl"
  obtain s0 where s0: "reclaimStale now0 c1 c2 c3 cord o1 o2 o3 ttl st = ((n, s0), st')" "settled = sort s0"
    using assms(3) by (auto simp: ReclaimStaleSettled_def split: prod.splits)
  obtain st1 where st1: "st1 = snd (parkStalled c1 ?c cord o1 st)"
    and rows: "\<And>i. ms_runs st' i = map_option (\<lambda>r. unparented c3 (orphaned st') i (swept c2 ?c i r)) (ms_runs st1 i)"
    and out: "s0 = filter (\<lambda>i. case ms_runs st1 i of Some r \<Rightarrow> ends_top ?c r | None \<Rightarrow> False) o2"
    using reclaimStale_rows [OF assms(1,2) s0(1)] by blast
  have dom1: "dom (ms_runs st1) = set o2"
    using park_fold_dom [of c1 ?c cord o1 "(0, st)"] assms(1) unfolding st1 parkStalled_def by (simp add: iterates_def)
  have parked: "\<exists>r. ms_runs st i = Some r \<and> ParentID r = ParentID r1 \<and> Terminal (Status r) = Terminal (Status r1)"
    if "ms_runs st1 i = Some r1" for i r1
    using park_fold_row [of c1 ?c cord o1 "(0, st)" i r1] that
    unfolding st1 parkStalled_def by (auto simp: park_row_def clear_lease_def)
  have ends: "ends_top ?c r1 \<longleftrightarrow> ParentID r1 = None \<and> \<not> Terminal (Status r1) \<and>
      Terminal (Status (unparented c3 (orphaned st') i (swept c2 ?c i r1)))" for i r1
    using ends_top_iff [of ?c r1 c2 i] by (cases "ParentID r1") (simp_all add: ends_top_def)
  have same: "(\<exists>r1. ms_runs st1 i = Some r1 \<and> ends_top ?c r1) \<longleftrightarrow>
      (\<exists>r r'. ms_runs st i = Some r \<and> ms_runs st' i = Some r' \<and> ParentID r = None \<and>
        \<not> Terminal (Status r) \<and> Terminal (Status r'))" for i
  proof (cases "ms_runs st1 i")
    case (Some r1)
    from parked [OF this] obtain r where "ms_runs st i = Some r" "ParentID r = ParentID r1"
      "Terminal (Status r) = Terminal (Status r1)" by blast
    with Some show ?thesis by (simp add: rows ends [of r1 i])
  qed (simp add: rows)
  have "set s0 = {i. \<exists>r1. ms_runs st1 i = Some r1 \<and> ends_top ?c r1}"
    using dom1 out by (auto split: option.splits)
  also have "\<dots> = {i. \<exists>r r'. ms_runs st i = Some r \<and> ms_runs st' i = Some r' \<and> ParentID r = None \<and>
      \<not> Terminal (Status r) \<and> Terminal (Status r')}"
    by (simp only: same)
  finally show ?thesis using s0(2) out assms(1) by (simp add: iterates_def)
qed

text \<open>Sealed material is swept from every finished run: after the sweep no finished run keeps a
  sealed inventory or plan and every other field of every run is as it was, the count returned
  is the number of runs that still held some, a second sweep finds none, and the order the rows
  are visited in does not matter.\<close>

theorem SweepSealed_wipes_finished_runs:
  assumes "iterates ord (ms_runs st)" and "iterates ord' (ms_runs st)"
  shows "(\<forall>i. ms_runs (snd (SweepSealed ord st)) i = map_option (\<lambda>r.
      if Terminal (Status r) then r\<lparr>InventorySealed := [], PlanSealed := []\<rparr> else r) (ms_runs st i)) \<and>
    fst (SweepSealed ord st) = int (length (filter (\<lambda>r. Terminal (Status r) \<and>
      (InventorySealed r \<noteq> [] \<or> PlanSealed r \<noteq> [])) (rows ord st))) \<and>
    fst (SweepSealed ord' (snd (SweepSealed ord st))) = 0 \<and>
    ms_runs (snd (SweepSealed ord' st)) = ms_runs (snd (SweepSealed ord st))"
proof -
  have post: "ms_runs (snd (SweepSealed ord st)) i = map_option (\<lambda>r.
      if Terminal (Status r) then r\<lparr>InventorySealed := [], PlanSealed := []\<rparr> else r) (ms_runs st i)" for i
    using seals.view_fold_all [of ord "(0, st)" i] assms(1)
    by (cases "ms_runs st i") (simp_all add: SweepSealed_def unsealed_def wipe_row_def)
  have "fst (SweepSealed ord st) = int (length (filter sealed_leftover (rows ord st)))"
    using seals.count_fold [of ord "(0, st)"] assms(1) by (simp add: SweepSealed_def iterates_def rows_def)
  moreover have "filter sealed_leftover (rows ord' (snd (SweepSealed ord st))) = []"
    unfolding filter_empty_conv
  proof
    fix r assume "r \<in> set (rows ord' (snd (SweepSealed ord st)))"
    then obtain i q where "r = (if Terminal (Status q) then q\<lparr>InventorySealed := [], PlanSealed := []\<rparr> else q)"
      by (auto simp: rows_mem post)
    then show "\<not> sealed_leftover r" by (simp add: sealed_leftover_def)
  qed
  then have "fst (SweepSealed ord' (snd (SweepSealed ord st))) = 0"
    using seals.count_fold [of ord' "(0, snd (SweepSealed ord st))"] assms(2)
    by (simp add: SweepSealed_def [of ord'] iterates_def rows_def)
  moreover have "ms_runs (snd (SweepSealed ord' st)) = ms_runs (snd (SweepSealed ord st))"
    using seals.order_irrelevant [of ord' "(0, st)" ord] assms by (simp add: SweepSealed_def)
  ultimately show ?thesis using post by (simp add: sealed_leftover_def [abs_def])
qed

section \<open>A stalled store\<close>

text \<open>A top-level run whose executor died, and a finished run that still holds its sealed plan.\<close>

definition stale_run :: run where
  "stale_run = zero_run\<lparr>ID := ''a'', Status := StatusRunning, ClaimedBy := ''w'', ClaimedAt := Some 10\<rparr>"

definition stale_store :: mem_store where
  "stale_store = NewMemStore\<lparr>ms_runs := [''a'' \<mapsto> stale_run]\<rparr>"

lemma iterates_stale [simp]: "iterates [''a''] (ms_runs stale_store)"
  by (simp add: iterates_def stale_store_def)



theorem sweep_reports_what_it_ended_witness:
  "snd (fst (ReclaimStaleSettled 100 (\<lambda>_. 101) (\<lambda>_. 102) (\<lambda>_. 103) [''a''] [''a''] [''a''] [''a''] 30
     stale_store)) = [''a''] \<and>
   set [''a''] = {i. \<exists>r r'. ms_runs stale_store i = Some r \<and> ms_runs (snd (ReclaimStaleSettled 100 (\<lambda>_. 101)
     (\<lambda>_. 102) (\<lambda>_. 103) [''a''] [''a''] [''a''] [''a''] 30 stale_store)) i = Some r' \<and> ParentID r = None \<and>
      \<not> Terminal (Status r) \<and> Terminal (Status r')}"
proof -
  let ?res = "ReclaimStaleSettled 100 (\<lambda>_. 101) (\<lambda>_. 102) (\<lambda>_. 103) [''a''] [''a''] [''a''] [''a''] 30 stale_store"
  have v: "snd (fst ?res) = [''a'']"
    by (simp add: ReclaimStaleSettled_def reclaimStale_def parkStalled_def park_one_def sweep_one_def
        stale_store_def stale_run_def zero_run_def lease_before_def StalledAtApproval_def AbandonedParent_def
        KindPipeline_def KindSplit_def settle_top_def Let_def split_beta)
  have "?res = ((fst (fst ?res), [''a'']), snd ?res)" using v by (metis prod.collapse)
  from sweep_reports_what_it_ended [OF iterates_stale iterates_stale this] v show ?thesis by simp
qed

theorem SweepSealed_wipes_finished_runs_witness:
  "ms_runs (snd (SweepSealed [''a''] (NewMemStore\<lparr>ms_runs := [''a'' \<mapsto>
     zero_run\<lparr>Status := StatusFailed, PlanSealed := ''blob''\<rparr>]\<rparr>))) ''a'' =
   Some (zero_run\<lparr>Status := StatusFailed, InventorySealed := [], PlanSealed := []\<rparr>)"
proof -
  let ?st = "NewMemStore\<lparr>ms_runs := [''a'' \<mapsto> zero_run\<lparr>Status := StatusFailed, PlanSealed := ''blob''\<rparr>]\<rparr>"
  have it: "iterates [''a''] (ms_runs ?st)" by (simp add: iterates_def)
  show ?thesis using SweepSealed_wipes_finished_runs [OF it it] by simp
qed

end
