(* ===== verification/GoFmt.thy ===== *)
theory GoFmt
  imports GoText
begin

text \<open>
  The formatting and string functions of Go's standard library the audit trail uses: decimal
  integers as \<open>%d\<close> prints them, hexadecimal, instants in the form \<open>time.RFC3339Nano\<close>, truncation of
  an instant, and the prefix and separator functions of package \<open>strings\<close>.
\<close>

section \<open>Decimal integers\<close>

definition digit :: "nat \<Rightarrow> char" where
  "digit n = char_of (48 + n)"

definition is_digit :: "char \<Rightarrow> bool" where
  "is_digit c \<longleftrightarrow> byte_in 48 57 c"

fun decimal :: "nat \<Rightarrow> string" where
  "decimal n = (if n < 10 then [digit n] else decimal (n div 10) @ [digit (n mod 10)])"

declare decimal.simps [simp del]

definition FormatInt :: "int \<Rightarrow> string" where
  "FormatInt i = (if i < 0 then ''-'' @ decimal (nat (- i)) else decimal (nat i))"

definition digits_value :: "string \<Rightarrow> nat" where
  "digits_value s = foldl (\<lambda>a c. a * 10 + (of_char c - 48)) 0 s"

lemma of_char_digit [simp]: "n < 10 \<Longrightarrow> of_char (digit n) = (48 + n :: nat)"
  by (simp add: digit_def)

lemma is_digit_digit: "n < 10 \<Longrightarrow> is_digit (digit n)"
  by (simp add: is_digit_def byte_in_def)

lemma decimal_digits: "c \<in> set (decimal n) \<Longrightarrow> is_digit c"
proof (induction n rule: decimal.induct)
  case (1 n)
  then show ?case by (subst (asm) (2) decimal.simps) (auto simp: is_digit_digit split: if_splits)
qed

lemma decimal_nonempty [simp]: "decimal n \<noteq> []"
  by (subst decimal.simps) simp

lemma digits_value_decimal [simp]: "digits_value (decimal n) = n"
proof (induction n rule: decimal.induct)
  case (1 n)
  show ?case
  proof (cases "n < 10")
    case True
    then show ?thesis by (subst decimal.simps) (simp add: digits_value_def)
  next
    case False
    then show ?thesis using 1 by (subst decimal.simps) (simp add: digits_value_def)
  qed
qed

lemma decimal_inj: "decimal m = decimal n \<longleftrightarrow> m = n"
  by (metis digits_value_decimal)

lemma FormatInt_inj: "FormatInt m = FormatInt n \<longleftrightarrow> m = n"
proof -
  have sign: "decimal k \<noteq> CHR ''-'' # u" for k u
    using decimal_digits [of "CHR ''-''" k] by (auto simp: is_digit_def byte_in_def)
  show ?thesis
  proof (cases "m < 0 \<longleftrightarrow> n < 0")
    case True
    then show ?thesis by (auto simp: FormatInt_def decimal_inj)
  next
    case False
    then show ?thesis using sign [symmetric] sign by (auto simp: FormatInt_def)
  qed
qed

lemma FormatInt_nonneg: "0 \<le> i \<Longrightarrow> FormatInt i = decimal (nat i)"
  by (simp add: FormatInt_def)

section \<open>Hexadecimal\<close>

definition hex_digit :: "string \<Rightarrow> nat \<Rightarrow> char" where
  "hex_digit alphabet n = alphabet ! n"

definition hex_lower :: string where "hex_lower = ''0123456789abcdef''"
definition hex_upper :: string where "hex_upper = ''0123456789ABCDEF''"

definition hex_byte :: "string \<Rightarrow> char \<Rightarrow> string" where
  "hex_byte alphabet c = [hex_digit alphabet (of_char c div 16), hex_digit alphabet (of_char c mod 16)]"

definition EncodeToString :: "string \<Rightarrow> string" where
  "EncodeToString s = concat (map (hex_byte hex_lower) s)"

lemma EncodeToString_empty_iff [simp]: "EncodeToString s = [] \<longleftrightarrow> s = []"
  by (cases s) (simp_all add: EncodeToString_def hex_byte_def)

section \<open>Instants\<close>

text \<open>\<open>Truncate\<close> rounds down to a multiple of \<open>d\<close> since the zero time.\<close>

definition Truncate :: "gotime \<Rightarrow> duration \<Rightarrow> gotime" where
  "Truncate t d = t - (t - zero_time) mod d"

definition Microsecond :: duration where "Microsecond = 1000"
definition Minute :: duration where "Minute = 60 * 1000000000"

lemma Truncate_le: "0 < d \<Longrightarrow> Truncate t d \<le> t"
  by (simp add: Truncate_def)

lemma Truncate_eq: "Truncate t d = zero_time + d * ((t - zero_time) div d)"
  using minus_mod_eq_mult_div [of "t - zero_time" d] by (simp add: Truncate_def)

lemma Truncate_mono:
  assumes "0 < d" and "s \<le> t"
  shows "Truncate s d \<le> Truncate t d"
  unfolding Truncate_eq using assms by (simp add: zdiv_mono1)

lemma Truncate_idem [simp]: "Truncate (Truncate t d) d = Truncate t d"
  by (cases "d = 0") (simp_all add: Truncate_eq)

text \<open>The proleptic Gregorian date of a day counted from the Unix epoch.\<close>

definition civil :: "int \<Rightarrow> int \<times> int \<times> int" where
  "civil days =
     (let z = days + 719468; era = z div 146097; doe = z mod 146097;
          yoe = (doe - doe div 1460 + doe div 36524 - doe div 146096) div 365;
          doy = doe - (365 * yoe + yoe div 4 - yoe div 100);
          mp = (5 * doy + 2) div 153;
          d = doy - (153 * mp + 2) div 5 + 1;
          m = (if mp < 10 then mp + 3 else mp - 9);
          y = yoe + era * 400 + (if m \<le> 2 then 1 else 0)
      in (y, m, d))"

definition pad :: "nat \<Rightarrow> int \<Rightarrow> string" where
  "pad w i = (let s = decimal (nat \<bar>i\<bar>)
     in (if i < 0 then ''-'' else []) @ replicate (w - length s) (CHR ''0'') @ s)"

definition trim_zeros :: "string \<Rightarrow> string" where
  "trim_zeros s = rev (dropWhile (\<lambda>c. c = CHR ''0'') (rev s))"

text \<open>\<open>t.UTC().Format(time.RFC3339Nano)\<close>.\<close>

definition RFC3339Nano :: "gotime \<Rightarrow> string" where
  "RFC3339Nano t =
     (let sec = t div 1000000000; ns = t mod 1000000000;
          (y, m, d) = civil (sec div 86400); tod = sec mod 86400
      in pad 4 y @ ''-'' @ pad 2 m @ ''-'' @ pad 2 d @ ''T'' @ pad 2 (tod div 3600) @ '':'' @
         pad 2 (tod mod 3600 div 60) @ '':'' @ pad 2 (tod mod 60) @
         (if ns = 0 then [] else CHR ''.'' # trim_zeros (pad 9 ns)) @ ''Z'')"

section \<open>Prefixes and separators\<close>

definition CutPrefix :: "string \<Rightarrow> string \<Rightarrow> string option" where
  "CutPrefix s p = (if take (length p) s = p then Some (drop (length p) s) else None)"

fun Cut :: "string \<Rightarrow> string \<Rightarrow> (string \<times> string) option" where
  "Cut [] sep = (if sep = [] then Some ([], []) else None)"
| "Cut (c # cs) sep =
     (case CutPrefix (c # cs) sep of
        Some rest \<Rightarrow> Some ([], rest)
      | None \<Rightarrow> map_option (\<lambda>(a, b). (c # a, b)) (Cut cs sep))"

lemma CutPrefix_Some: "CutPrefix s p = Some r \<longleftrightarrow> s = p @ r"
  by (auto simp: CutPrefix_def) (metis append_take_drop_id)

lemma CutPrefix_append [simp]: "CutPrefix (p @ r) p = Some r"
  by (simp add: CutPrefix_Some)

lemma Cut_Some: "Cut s sep = Some (a, b) \<Longrightarrow> s = a @ sep @ b"
  by (induction s sep arbitrary: a rule: Cut.induct)
    (auto simp: CutPrefix_Some split: if_splits option.splits)

end
