(* ===== verification/Audit_Entry.thy ===== *)
theory Audit_Entry
  imports GoFmt
begin

text \<open>
  Audit entries (\<open>internal/audit/audit.go\<close>, \<open>canonical.go\<close>, \<open>span.go\<close>, \<open>outcomeonce.go\<close>): the
  escaping of hashed text, the claim a link commits to, the link, the recorded time, span beats
  and outcome paths, and the streaming verification of a chain (\<open>scan.go\<close>). The canonical JSON
  serialiser (\<open>jcs.Serialize\<close>, a package of its own) is the parameter \<open>ser\<close>, which refuses some
  values, and SHA-256 is the parameter \<open>sha\<close>.
\<close>

section \<open>Escaping\<close>

definition escape_piece :: "string \<Rightarrow> string" where
  "escape_piece c =
     (if c = ''%'' then ''%25''
      else if rune_width c = 0 then CHR ''%'' # concat (map (hex_byte hex_upper) c)
      else c)"

definition escapeInvalidUTF8 :: "string \<Rightarrow> string" where
  "escapeInvalidUTF8 s =
     (if ValidString s \<and> CHR ''%'' \<notin> set s then s else concat (map escape_piece (runes s)))"

section \<open>Entries\<close>

record entry =
  ae_ID :: string
  ae_At :: gotime
  ae_Actor :: string
  ae_ActorType :: string
  ae_OnBehalfOf :: string
  ae_Method :: string
  ae_Path :: string
  ae_ContentDigest :: string
  ae_Nonce :: string
  ae_InstallID :: string
  ae_Seq :: int
  ae_PrevHash :: string
  ae_Hash :: string

datatype json = JStr string | JInt int | JObj "(string \<times> json) list"

type_synonym link = string
type_synonym digest = string
type_synonym serializer = "json \<Rightarrow> string option"

definition optional_members :: "(string \<times> string) list \<Rightarrow> (string \<times> json) list" where
  "optional_members kvs = map (\<lambda>(k, v). (k, JStr v)) (filter (\<lambda>kv. snd kv \<noteq> []) kvs)"

text \<open>The claim is a map; its members are listed once each.\<close>

definition claimObject :: "int \<Rightarrow> string \<Rightarrow> string \<Rightarrow> string \<Rightarrow> string \<Rightarrow> link \<Rightarrow>
    string \<Rightarrow> string \<Rightarrow> digest \<Rightarrow> string \<Rightarrow> (string \<times> json) list" where
  "claimObject sq at actor method path prev actorType onBehalfOf contentDigest installID =
     [(''seq'', JInt sq), (''at'', JStr at), (''actor'', JStr actor), (''method'', JStr method),
      (''path'', JStr path), (''prev'', JStr prev)] @
     optional_members [(''actor_type'', actorType), (''on_behalf_of'', onBehalfOf),
       (''content_digest'', contentDigest), (''install_id'', installID)]"

definition entryClaim :: "entry \<Rightarrow> (string \<times> json) list" where
  "entryClaim e = claimObject (ae_Seq e) (RFC3339Nano (ae_At e)) (ae_Actor e) (ae_Method e) (ae_Path e)
     (ae_PrevHash e) (ae_ActorType e) (ae_OnBehalfOf e) (ae_ContentDigest e) (ae_InstallID e)"

definition checkedLinkOf :: "serializer \<Rightarrow> (string \<Rightarrow> string) \<Rightarrow> (string \<times> json) list \<Rightarrow> string option" where
  "checkedLinkOf ser sha claim = map_option (\<lambda>canonical. EncodeToString (sha canonical)) (ser (JObj claim))"

definition checkedEntryHash :: "serializer \<Rightarrow> (string \<Rightarrow> string) \<Rightarrow> entry \<Rightarrow> string option" where
  "checkedEntryHash ser sha e = checkedLinkOf ser sha (entryClaim e)"

text \<open>\<open>linkOf\<close> panics where the checked form refuses: no value is the panic.\<close>

definition linkOf :: "serializer \<Rightarrow> (string \<Rightarrow> string) \<Rightarrow> (string \<times> json) list \<Rightarrow> string option" where
  [simp]: "linkOf ser sha claim = checkedLinkOf ser sha claim"

definition EntryHash :: "serializer \<Rightarrow> (string \<Rightarrow> string) \<Rightarrow> entry \<Rightarrow> string option" where
  "EntryHash ser sha e = linkOf ser sha (entryClaim e)"

definition Receipt :: "entry \<Rightarrow> string" where
  "Receipt e = FormatInt (ae_Seq e) @ '':'' @ ae_Hash e"

definition AsStored :: "entry \<Rightarrow> entry" where
  "AsStored e = e\<lparr>ae_Actor := escapeInvalidUTF8 (ae_Actor e), ae_Method := escapeInvalidUTF8 (ae_Method e),
     ae_Path := escapeInvalidUTF8 (ae_Path e), ae_ActorType := escapeInvalidUTF8 (ae_ActorType e),
     ae_OnBehalfOf := escapeInvalidUTF8 (ae_OnBehalfOf e), ae_At := Truncate (ae_At e) Microsecond\<rparr>"

definition BindEntryInstall :: "string \<Rightarrow> entry \<Rightarrow> entry" where
  "BindEntryInstall installID e = (if ae_InstallID e = [] then e\<lparr>ae_InstallID := installID\<rparr> else e)"

definition chain_fields :: "entry option \<Rightarrow> entry \<Rightarrow> entry" where
  "chain_fields prev e =
     (case prev of
        Some p \<Rightarrow> e\<lparr>ae_Seq := ae_Seq p + 1, ae_PrevHash := ae_Hash p\<rparr>
      | None \<Rightarrow> e\<lparr>ae_Seq := 1, ae_PrevHash := []\<rparr>)"

definition Link :: "serializer \<Rightarrow> (string \<Rightarrow> string) \<Rightarrow> entry option \<Rightarrow> entry \<Rightarrow> entry option" where
  "Link ser sha prev e =
     (let e1 = chain_fields prev (AsStored e)
      in map_option (\<lambda>h. e1\<lparr>ae_Hash := h\<rparr>) (EntryHash ser sha e1))"

definition MaxTimeAhead :: duration where "MaxTimeAhead = 2 * Minute"

definition StampAppendTime :: "entry option \<Rightarrow> entry \<Rightarrow> gotime \<Rightarrow> entry" where
  "StampAppendTime prev e now =
     (let e1 = (if IsZero (ae_At e) \<or> ae_At e > now then e\<lparr>ae_At := now\<rparr> else e)
      in case prev of
           None \<Rightarrow> e1
         | Some p \<Rightarrow>
             if ae_At e1 < ae_At p then
               (let ceiling = now + MaxTimeAhead
                in if ae_At p > ceiling then e1\<lparr>ae_At := ceiling\<rparr> else e1\<lparr>ae_At := ae_At p\<rparr>)
             else e1)"

section \<open>Span beats\<close>

definition SpanActor :: string where "SpanActor = ''span''"
definition SpanMethod :: string where "SpanMethod = ''SPAN''"

definition SpanPath :: "int \<Rightarrow> int \<Rightarrow> int \<Rightarrow> string" where
  "SpanPath beat cnt cadenceS =
     ''/span/'' @ FormatInt beat @ ''?count='' @ FormatInt cnt @ ''&cadence_s='' @ FormatInt cadenceS"

definition max_int64 :: int where "max_int64 = 2 ^ 63 - 1"

text \<open>The scan reads each number to the end of its digits and fails past the range of 64 bits;
  what it accepts more loosely than that does not print back to the same path.\<close>

definition scan_number :: "string \<Rightarrow> (int \<times> string) option" where
  "scan_number s =
     (let ds = takeWhile is_digit s
      in if ds = [] \<or> int (digits_value ds) > max_int64 then None
         else Some (int (digits_value ds), dropWhile is_digit s))"

definition scan_span :: "string \<Rightarrow> (int \<times> int \<times> int) option" where
  "scan_span path =
     Option.bind (CutPrefix path ''/span/'') (\<lambda>s1. Option.bind (scan_number s1) (\<lambda>(b, s2).
     Option.bind (CutPrefix s2 ''?count='') (\<lambda>s3. Option.bind (scan_number s3) (\<lambda>(c, s4).
     Option.bind (CutPrefix s4 ''&cadence_s='') (\<lambda>s5. Option.bind (scan_number s5) (\<lambda>(s, _).
       Some (b, c, s)))))))"

definition ParseSpanPath :: "string \<Rightarrow> (int \<times> int \<times> int) option" where
  "ParseSpanPath path =
     (case scan_span path of
        None \<Rightarrow> None
      | Some (b, c, s) \<Rightarrow>
          if SpanPath b c s \<noteq> path \<or> b < 1 \<or> c < 0 \<or> s < 1 then None else Some (b, c, s))"

definition IsSpanMarker :: "entry \<Rightarrow> bool" where
  "IsSpanMarker e =
     (if ae_Actor e \<noteq> SpanActor \<or> ae_Method e \<noteq> SpanMethod then False
      else ParseSpanPath (ae_Path e) \<noteq> None)"

definition NextSpanBeat :: "int \<Rightarrow> int \<Rightarrow> int \<Rightarrow> int \<times> int" where
  "NextSpanBeat headSeq lastSpanSeq lastSpanBeat =
     (if lastSpanBeat < 1 then (1, headSeq) else (lastSpanBeat + 1, headSeq - lastSpanSeq))"

definition BeatGranularity :: duration where "BeatGranularity = Microsecond"

text \<open>The two checks return no value when the beat may be written, and otherwise the time it had
  to pass and its own, as the refusal reports them.\<close>

definition CheckBeatAdvance :: "gotime \<Rightarrow> gotime \<Rightarrow> (gotime \<times> gotime) option" where
  "CheckBeatAdvance at prev =
     (if IsZero prev then None
      else let at' = Truncate at BeatGranularity; prev' = Truncate prev BeatGranularity
           in if at' > prev' then None else Some (prev', at'))"

definition CheckBeatAfterHead :: "gotime \<Rightarrow> gotime \<Rightarrow> (gotime \<times> gotime) option" where
  "CheckBeatAfterHead at head =
     (if IsZero head then None
      else let at' = Truncate at BeatGranularity; head' = Truncate head BeatGranularity
           in if \<not> at' < head' then None else Some (head', at'))"

definition NewSpanEntry :: "string \<Rightarrow> gotime \<Rightarrow> int \<Rightarrow> int \<Rightarrow> int \<Rightarrow> entry" where
  "NewSpanEntry newID at beat cnt cadenceS =
     \<lparr>ae_ID = newID, ae_At = at, ae_Actor = SpanActor, ae_ActorType = [], ae_OnBehalfOf = [],
      ae_Method = SpanMethod, ae_Path = SpanPath beat cnt cadenceS, ae_ContentDigest = [],
      ae_Nonce = [], ae_InstallID = [], ae_Seq = 0, ae_PrevHash = [], ae_Hash = []\<rparr>"

definition SpanScanLimit :: "int \<Rightarrow> int" where
  "SpanScanLimit limit0 =
     (let factor = 4; base = 64; limit = (if limit0 < 1 then 1 else limit0)
      in if limit > (max_int64 - base) div factor then max_int64 else limit * factor + base)"

section \<open>Outcome entries\<close>

definition MethodDecision :: string where "MethodDecision = ''DECISION''"
definition MethodRun :: string where "MethodRun = ''RUN''"
definition outcomeRunsPrefix :: string where "outcomeRunsPrefix = ''/runs/''"
definition outcomeMarker :: string where "outcomeMarker = ''/outcome/''"

definition OutcomePath :: "string \<Rightarrow> string \<Rightarrow> string" where
  "OutcomePath runID status = outcomeRunsPrefix @ runID @ outcomeMarker @ status"

definition OutcomeRunID :: "entry \<Rightarrow> string option" where
  "OutcomeRunID e =
     (if ae_Method e \<noteq> MethodRun then None
      else case CutPrefix (ae_Path e) outcomeRunsPrefix of
        None \<Rightarrow> None
      | Some rest \<Rightarrow>
          (case Cut rest outcomeMarker of
             None \<Rightarrow> None
           | Some (i, status) \<Rightarrow>
               if i = [] \<or> status = [] \<or> CHR ''/'' \<in> set status then None else Some i))"

section \<open>Verification\<close>

record chain_scanner =
  cs_fromGenesis :: bool
  cs_prev :: "entry option"
  cs_count :: int
  cs_brokeAt :: int

definition NewChainScanner :: "bool \<Rightarrow> chain_scanner" where
  "NewChainScanner fromGenesis =
     \<lparr>cs_fromGenesis = fromGenesis, cs_prev = None, cs_count = 0, cs_brokeAt = 0\<rparr>"

text \<open>Whether an entry follows what was fed before it.\<close>

definition follows :: "bool \<Rightarrow> entry option \<Rightarrow> entry \<Rightarrow> bool" where
  "follows fromGenesis prev e =
     (case prev of
        None \<Rightarrow>
          if fromGenesis then ae_Seq e = 1 \<and> ae_PrevHash e = []
          else (ae_Seq e = 1) = (ae_PrevHash e = [])
      | Some p \<Rightarrow> ae_Seq e = ae_Seq p + 1 \<and> ae_PrevHash e = ae_Hash p)"

definition Feed :: "serializer \<Rightarrow> (string \<Rightarrow> string) \<Rightarrow> entry option \<Rightarrow> chain_scanner \<Rightarrow> chain_scanner" where
  "Feed ser sha fed v0 =
     (let v = v0\<lparr>cs_count := cs_count v0 + 1\<rparr>; broke = v\<lparr>cs_brokeAt := cs_count v\<rparr> in
      if cs_brokeAt v \<noteq> 0 then v
      else case fed of
        None \<Rightarrow> broke
      | Some e \<Rightarrow>
          if ae_Hash e = [] \<or> ae_Seq e < 1 then broke
          else if checkedEntryHash ser sha e \<noteq> Some (ae_Hash e) then broke
          else if \<not> follows (cs_fromGenesis v) (cs_prev v) e then broke
          else v\<lparr>cs_prev := Some e\<rparr>)"

definition Result :: "chain_scanner \<Rightarrow> bool \<times> int \<times> int" where
  "Result v = (cs_brokeAt v = 0, cs_brokeAt v, cs_count v)"

definition Verify :: "serializer \<Rightarrow> (string \<Rightarrow> string) \<Rightarrow> entry option list \<Rightarrow> bool \<times> int" where
  "Verify ser sha entries =
     (case Result (fold (Feed ser sha) entries (NewChainScanner True)) of (ok, brokeAt, _) \<Rightarrow> (ok, brokeAt))"

definition VerifyRange :: "serializer \<Rightarrow> (string \<Rightarrow> string) \<Rightarrow> entry option list \<Rightarrow> bool \<times> int" where
  "VerifyRange ser sha entries =
     (case Result (fold (Feed ser sha) entries (NewChainScanner False)) of (ok, brokeAt, _) \<Rightarrow> (ok, brokeAt))"

end
