(* ===== verification/Audit_Text.thy ===== *)
theory Audit_Text
  imports Audit_Entry
begin

text \<open>
  What the text of an audit entry keeps: escaping is undone by a decoder, so it loses nothing and
  no two texts share an escaped form, and its result is always valid UTF-8; span paths print and
  parse back.
\<close>

section \<open>Valid text\<close>

lemma ValidString_iff: "ValidString s \<longleftrightarrow> (\<exists>ds. s = concat ds \<and> (\<forall>d\<in>set ds. is_rune d))"
proof
  assume "ValidString s"
  then show "\<exists>ds. s = concat ds \<and> (\<forall>d\<in>set ds. is_rune d)"
    using ValidString_runes by (intro exI [of _ "runes s"]) auto
qed (use ValidString_concat in blast)

lemma ValidString_append: "ValidString a \<Longrightarrow> ValidString b \<Longrightarrow> ValidString (a @ b)"
  unfolding ValidString_iff by (metis concat_append set_append Un_iff)

lemma ValidString_concat_map: "(\<And>x. x \<in> set xs \<Longrightarrow> ValidString (f x)) \<Longrightarrow> ValidString (concat (map f xs))"
proof (induction xs)
  case Nil
  show ?case unfolding ValidString_iff by (intro exI [of _ "[]"]) simp
qed (simp add: ValidString_append)

lemma is_rune_ascii: "of_char c < (128 :: nat) \<Longrightarrow> is_rune [c]"
  by (simp add: is_rune_def byte_in_def)

lemma ValidString_ascii: "\<forall>c\<in>set s. of_char c < (128 :: nat) \<Longrightarrow> ValidString s"
  using ValidString_concat_map [of s "\<lambda>c. [c]"] is_rune_ascii
  by (force simp: ValidString_iff intro: exI [of _ "map (\<lambda>c. [c]) s"])

lemma is_rune_ascii_mem:
  assumes "is_rune c" and "x \<in> set c" and "of_char x < (128 :: nat)"
  shows "c = [x]"
proof -
  have "\<not> 1 < rune_width c"
  proof
    assume "1 < rune_width c"
    then have "128 \<le> (of_char x :: nat)" using rune_width_high [of c] assms(1,2) by (simp add: is_rune_def)
    then show False using assms(3) by simp
  qed
  then have "length c = 1" using assms by (cases c) (auto simp: is_rune_def)
  then show ?thesis using assms(2) by (cases c) auto
qed

lemma runes_invalid_single: "c \<in> set (runes s) \<Longrightarrow> rune_width c = 0 \<Longrightarrow> \<exists>b. c = [b]"
proof (induction s rule: runes.induct)
  case (1 s)
  show ?case
  proof (cases "s = []")
    case False
    let ?w = "max 1 (rune_width s)"
    have r: "runes s = take ?w s # runes (drop ?w s)"
      using False by (subst runes.simps) (simp add: Let_def)
    show ?thesis
    proof (cases "c = take ?w s")
      case True
      then have "rune_width s = 0"
        using 1(3) rune_width_append [of s "[]"] by (auto simp: max_def split: if_splits)
      then show ?thesis using True False by (cases s) auto
    qed (use r 1 False in auto)
  qed (use 1 in \<open>simp add: runes.simps\<close>)
qed

section \<open>Escaping\<close>

fun hex_value :: "char \<Rightarrow> nat" where
  "hex_value c = (if is_digit c then of_char c - 48 else of_char c - 55)"

fun unescape :: "string \<Rightarrow> string" where
  "unescape [] = []"
| "unescape (c # s) =
     (if c = CHR ''%'' then
        (case s of
           a # b # t \<Rightarrow> char_of (16 * hex_value a + hex_value b) # unescape t
         | _ \<Rightarrow> c # unescape s)
      else c # unescape s)"

lemma hex_value_upper: "n < 16 \<Longrightarrow> hex_value (hex_digit hex_upper n) = n"
proof -
  assume "n < 16"
  then have "n \<in> set [0..<16]" by simp
  moreover have "\<forall>n\<in>set [0..<16]. hex_value (hex_digit hex_upper n) = n" by code_simp
  ultimately show ?thesis by blast
qed

lemma hex_upper_ascii: "n < 16 \<Longrightarrow> of_char (hex_digit hex_upper n) < (128 :: nat)"
proof -
  assume "n < 16"
  then have "n \<in> set [0..<16]" by simp
  moreover have "\<forall>n\<in>set [0..<16]. of_char (hex_digit hex_upper n) < (128 :: nat)" by code_simp
  ultimately show ?thesis by blast
qed

lemma of_char_bounds: "of_char (b :: char) div 16 < (16 :: nat)" "of_char (b :: char) mod 16 < (16 :: nat)"
  by (rule less_mult_imp_div_less, use nat_of_char_less_256 [of b] in simp, simp)

lemma unescape_plain: "CHR ''%'' \<notin> set c \<Longrightarrow> unescape (c @ s) = c @ unescape s"
  by (induction c) auto

lemma unescape_piece:
  assumes "is_rune c \<or> (\<exists>b. c = [b] \<and> rune_width c = 0)"
  shows "unescape (escape_piece c @ s) = c @ unescape s"
proof (cases "c = ''%''")
  case True
  moreover have "char_of (37 :: nat) = CHR ''%''" by code_simp
  ultimately show ?thesis by (simp add: escape_piece_def is_digit_def byte_in_def)
next
  case False
  show ?thesis
  proof (cases "rune_width c = 0")
    case True
    then obtain b where b: "c = [b]" using assms by (auto simp: is_rune_def)
    have "char_of (16 * hex_value (hex_digit hex_upper (of_char b div 16)) +
        hex_value (hex_digit hex_upper (of_char b mod 16))) = b"
      by (simp only: hex_value_upper [OF of_char_bounds(1)] hex_value_upper [OF of_char_bounds(2)]) simp
    then show ?thesis using True False b by (simp add: escape_piece_def hex_byte_def)
  next
    case nz: False
    then have "is_rune c" using assms by auto
    then have "CHR ''%'' \<notin> set c" using is_rune_ascii_mem [of c "CHR ''%''"] False by auto
    then show ?thesis using nz False by (simp add: escape_piece_def unescape_plain)
  qed
qed

lemma unescape_pieces:
  "\<forall>c\<in>set cs. is_rune c \<or> (\<exists>b. c = [b] \<and> rune_width c = 0) \<Longrightarrow>
     unescape (concat (map escape_piece cs)) = concat cs"
  by (induction cs) (simp_all add: unescape_piece)

lemma runes_pieces: "\<forall>c\<in>set (runes s). is_rune c \<or> (\<exists>b. c = [b] \<and> rune_width c = 0)"
  using runes_piece runes_invalid_single by blast

lemma unescape_escape [simp]: "unescape (escapeInvalidUTF8 s) = s"
proof (cases "ValidString s \<and> CHR ''%'' \<notin> set s")
  case True
  then show ?thesis using unescape_plain [of s "[]"] by (simp add: escapeInvalidUTF8_def)
next
  case False
  have "unescape (concat (map escape_piece (runes s))) = s"
    by (subst unescape_pieces [OF runes_pieces]) simp
  then show ?thesis unfolding escapeInvalidUTF8_def if_not_P [OF False] .
qed

lemma escape_inj: "escapeInvalidUTF8 s = escapeInvalidUTF8 t \<longleftrightarrow> s = t"
  using unescape_escape by metis

lemma ValidString_escape_piece:
  assumes "is_rune c \<or> (\<exists>b. c = [b] \<and> rune_width c = 0)"
  shows "ValidString (escape_piece c)"
proof (cases "c \<noteq> ''%'' \<and> rune_width c \<noteq> 0")
  case True
  then have "escape_piece c = c" "is_rune c" using assms by (auto simp: escape_piece_def)
  then show ?thesis unfolding ValidString_iff by (intro exI [of _ "[c]"]) simp
next
  case False
  then consider "c = ''%''" | b where "c = [b]" "c \<noteq> ''%''" "rune_width c = 0"
    using assms by (auto simp: is_rune_def simp del: rune_width.simps)
  then show ?thesis
  proof cases
    case 2
    then have "escape_piece c = CHR ''%'' # hex_byte hex_upper b" by (simp add: escape_piece_def)
    then show ?thesis
      using hex_upper_ascii [OF of_char_bounds(1), of b] hex_upper_ascii [OF of_char_bounds(2), of b]
      by (intro ValidString_ascii) (simp add: hex_byte_def)
  qed (intro ValidString_ascii, simp add: escape_piece_def)
qed

lemma escape_piece_longer:
  assumes "is_rune c \<or> (\<exists>b. c = [b] \<and> rune_width c = 0)"
  shows "length c \<le> length (escape_piece c)" and "c = ''%'' \<Longrightarrow> length c < length (escape_piece c)"
  using assms by (auto simp: escape_piece_def hex_byte_def is_rune_def)

lemma escape_pieces_longer:
  assumes "\<forall>c\<in>set cs. is_rune c \<or> (\<exists>b. c = [b] \<and> rune_width c = 0)"
  shows "length (concat cs) \<le> length (concat (map escape_piece cs)) \<and>
    (''%'' \<in> set cs \<longrightarrow> length (concat cs) < length (concat (map escape_piece cs)))"
  using assms
proof (induction cs)
  case (Cons c cs)
  then show ?case using escape_piece_longer [of c] by auto
qed simp

lemma percent_piece: "CHR ''%'' \<in> set s \<Longrightarrow> ''%'' \<in> set (runes s)"
proof -
  assume "CHR ''%'' \<in> set s"
  then have "CHR ''%'' \<in> set (concat (runes s))" by simp
  then obtain c where c: "c \<in> set (runes s)" "CHR ''%'' \<in> set c" by (auto simp del: concat_runes)
  then have "c = ''%''"
    using runes_pieces [of s] is_rune_ascii_mem [of c "CHR ''%''"] by fastforce
  then show ?thesis using c(1) by simp
qed

lemma escape_fixed_iff: "escapeInvalidUTF8 s = s \<longleftrightarrow> ValidString s \<and> CHR ''%'' \<notin> set s"
proof
  assume e: "escapeInvalidUTF8 s = s"
  have "ValidString (concat (map escape_piece (runes s)))"
    by (rule ValidString_concat_map) (use ValidString_escape_piece runes_pieces in blast)
  then have "ValidString s" using e by (simp add: escapeInvalidUTF8_def split: if_splits)
  moreover have "CHR ''%'' \<notin> set s"
  proof
    assume m: "CHR ''%'' \<in> set s"
    then have "concat (map escape_piece (runes s)) = s" using e by (simp add: escapeInvalidUTF8_def)
    then show False using escape_pieces_longer [OF runes_pieces, of s] percent_piece [OF m] by simp
  qed
  ultimately show "ValidString s \<and> CHR ''%'' \<notin> set s" ..
qed (simp add: escapeInvalidUTF8_def)

lemma escape_no_percent: "CHR ''%'' \<notin> set (escapeInvalidUTF8 s) \<Longrightarrow> escapeInvalidUTF8 s = s"
  using unescape_plain [of "escapeInvalidUTF8 s" "[]"] by simp

text \<open>Escaping the text of an audit entry loses nothing and always yields text a verifier can
  read: a decoder recovers every byte string, valid UTF-8 or not, from its escaped form, so two
  different requests never come to be hashed as the same text; the result is valid UTF-8 for
  every input, and text that needs no escaping is stored as it is.\<close>

theorem escaped_text_reads_back:
  "unescape (escapeInvalidUTF8 s) = s \<and> ValidString (escapeInvalidUTF8 s) \<and>
   (escapeInvalidUTF8 s = s \<longleftrightarrow> ValidString s \<and> CHR ''%'' \<notin> set s)"
proof -
  have "ValidString (concat (map escape_piece (runes s)))"
    by (rule ValidString_concat_map) (use ValidString_escape_piece runes_pieces in blast)
  then have "ValidString (escapeInvalidUTF8 s)" by (simp add: escapeInvalidUTF8_def)
  then show ?thesis using escape_fixed_iff by simp
qed

section \<open>Span paths\<close>

lemma is_digit_iff: "is_digit c \<longleftrightarrow> 48 \<le> (of_char c :: nat) \<and> of_char c \<le> (57 :: nat)"
  by (simp add: is_digit_def byte_in_def)

lemma digits_cut:
  assumes "\<forall>c\<in>set a. is_digit c" and "\<not> is_digit x"
  shows "takeWhile is_digit (a @ x # r) = a" and "dropWhile is_digit (a @ x # r) = x # r"
  using assms by (simp_all add: takeWhile_append2 dropWhile_append2)

lemma digits_cancel:
  assumes "\<forall>c\<in>set a. is_digit c" and "\<forall>c\<in>set b. is_digit c" and "\<not> is_digit x"
    and "a @ x # r = b @ x # t"
  shows "a = b \<and> r = t"
  using digits_cut [OF assms(1,3), of r] digits_cut [OF assms(2,3), of t] assms(4) by simp

lemma FormatInt_digits: "0 \<le> i \<Longrightarrow> \<forall>c\<in>set (FormatInt i). is_digit c"
  by (simp add: FormatInt_nonneg decimal_digits)

lemma SpanPath_inj:
  assumes "0 \<le> b" "0 \<le> c" "0 \<le> b'" "0 \<le> c'" "0 \<le> s'" and eq: "SpanPath b c s = SpanPath b' c' s'"
  shows "b = b' \<and> c = c' \<and> s = s'"
proof -
  note nd = is_digit_iff [of "CHR ''?''"] is_digit_iff [of "CHR ''&''"]
  have "FormatInt b @ CHR ''?'' # (''count='' @ FormatInt c @ ''&cadence_s='' @ FormatInt s) =
      FormatInt b' @ CHR ''?'' # (''count='' @ FormatInt c' @ ''&cadence_s='' @ FormatInt s')"
    using eq by (simp add: SpanPath_def)
  from digits_cancel [OF FormatInt_digits [OF assms(1)] FormatInt_digits [OF assms(3)] _ this] nd(1)
  have b: "FormatInt b = FormatInt b'" and
    "FormatInt c @ CHR ''&'' # (''cadence_s='' @ FormatInt s) = FormatInt c' @ CHR ''&'' # (''cadence_s='' @ FormatInt s')"
    by simp_all
  from digits_cancel [OF FormatInt_digits [OF assms(2)] FormatInt_digits [OF assms(4)] _ this(2)] nd(2)
  have "FormatInt c = FormatInt c'" "FormatInt s = FormatInt s'" by simp_all
  then show ?thesis using b by (simp add: FormatInt_inj)
qed

lemma ParseSpanPath_Some:
  "ParseSpanPath p = Some (b, c, s) \<Longrightarrow> p = SpanPath b c s \<and> 1 \<le> b \<and> 0 \<le> c \<and> 1 \<le> s"
  by (auto simp: ParseSpanPath_def split: option.splits if_splits)

lemma scan_number_FormatInt:
  assumes "0 \<le> i" and "i \<le> max_int64" and "r = [] \<or> \<not> is_digit (hd r)"
  shows "scan_number (FormatInt i @ r) = Some (i, r)"
proof -
  have d: "\<forall>c\<in>set (FormatInt i). is_digit c" by (rule FormatInt_digits [OF assms(1)])
  have "takeWhile is_digit (FormatInt i @ r) = FormatInt i" "dropWhile is_digit (FormatInt i @ r) = r"
    using digits_cut [OF d] d assms(3) by (cases r; simp)+
  then show ?thesis using assms(1,2) by (simp add: scan_number_def FormatInt_nonneg)
qed

lemma ParseSpanPath_SpanPath:
  assumes "1 \<le> b" "0 \<le> c" "1 \<le> s" "b \<le> max_int64" "c \<le> max_int64" "s \<le> max_int64"
  shows "ParseSpanPath (SpanPath b c s) = Some (b, c, s)"
proof -
  have n: "scan_number (FormatInt b @ ''?count='' @ r) = Some (b, ''?count='' @ r)"
    "scan_number (FormatInt c @ ''&cadence_s='' @ r) = Some (c, ''&cadence_s='' @ r)"
    "scan_number (FormatInt s) = Some (s, [])" for r
    using scan_number_FormatInt [of b "''?count='' @ r"] scan_number_FormatInt [of c "''&cadence_s='' @ r"]
      scan_number_FormatInt [of s "[]"] assms by (simp_all add: is_digit_iff)
  have "scan_span (SpanPath b c s) = Some (b, c, s)"
    unfolding scan_span_def SpanPath_def CutPrefix_append Option.bind.simps n prod.case by (rule refl)
  then show ?thesis using assms by (simp add: ParseSpanPath_def)
qed

text \<open>A path the server minted is read back as minted or not at all.\<close>

lemma ParseSpanPath_minted:
  assumes "1 \<le> b" and "0 \<le> c" and "ParseSpanPath (SpanPath b c s) = Some t"
  shows "t = (b, c, s)"
proof -
  obtain b' c' s' where t: "t = (b', c', s')" by (cases t) auto
  from ParseSpanPath_Some [OF assms(3) [unfolded t]] SpanPath_inj [of b c b' c' s' s] assms t
  show ?thesis by auto
qed

text \<open>Span paths round-trip: a path printed for a beat whose numbers fit 64 bits parses to the
  same beat, count and cadence, and nothing but a printed path parses at all, so a hand-made near
  miss is never read as a beat.\<close>

theorem span_path_round_trip:
  "(1 \<le> b \<and> 0 \<le> c \<and> 1 \<le> s \<and> b \<le> max_int64 \<and> c \<le> max_int64 \<and> s \<le> max_int64 \<longrightarrow>
      ParseSpanPath (SpanPath b c s) = Some (b, c, s)) \<and>
   (ParseSpanPath p = Some (b, c, s) \<longrightarrow> p = SpanPath b c s \<and> 1 \<le> b \<and> 0 \<le> c \<and> 1 \<le> s)"
  using ParseSpanPath_SpanPath ParseSpanPath_Some by blast

theorem span_path_round_trip_witness:
  "ParseSpanPath ''/span/12?count=340&cadence_s=60'' = Some (12, 340, 60)"
proof -
  have d: "SpanPath 12 340 60 = ''/span/12?count=340&cadence_s=60''"
    by code_simp
  show ?thesis
    using span_path_round_trip [of 12 340 60 "[]"] d by (simp add: max_int64_def)
qed

end
