(* ===== verification/Audit_Store.thy ===== *)
theory Audit_Store
  imports Audit_Text
begin

text \<open>
  The in-memory audit store (\<open>internal/audit/store.go\<close>): appends under one lock, span beats, reads,
  anchors (\<open>anchor.go\<close>) and witness attestations (\<open>attestation.go\<close>). The clock reading an append
  takes and the id a beat mints are arguments.
\<close>

section \<open>Anchors and attestations\<close>

record anchor =
  an_ID :: string
  an_Type :: string
  an_Shape :: string
  an_Seq :: int
  an_Link :: string
  an_At :: gotime
  an_Ref :: string
  an_Proof :: string
  an_InstallID :: string

record witness_attestation =
  wa_ID :: string
  wa_Seq :: int
  wa_Link :: string
  wa_Kind :: string
  wa_Size :: int
  wa_Root :: string
  wa_KeyID :: string
  wa_PublicKey :: string
  wa_Role :: string
  wa_At :: string
  wa_Sig :: string
  wa_Witness :: string

definition AnchorRFC3161 :: string where "AnchorRFC3161 = ''rfc3161''"
definition AnchorGit :: string where "AnchorGit = ''git''"
definition AnchorHTTPS :: string where "AnchorHTTPS = ''https''"
definition AnchorShapeLinear :: string where "AnchorShapeLinear = ''linear''"
definition AnchorShapeTree :: string where "AnchorShapeTree = ''tree''"
definition AttestationClaim :: string where "AttestationClaim = ''claim''"
definition AttestationHead :: string where "AttestationHead = ''head''"

definition ValidAnchorType :: "string \<Rightarrow> bool" where
  "ValidAnchorType t \<longleftrightarrow> t = AnchorRFC3161 \<or> t = AnchorGit \<or> t = AnchorHTTPS"

definition ValidAnchorShape :: "string \<Rightarrow> bool" where
  "ValidAnchorShape s \<longleftrightarrow> s = AnchorShapeLinear \<or> s = AnchorShapeTree"

definition ValidAttestationKind :: "string \<Rightarrow> bool" where
  "ValidAttestationKind k \<longleftrightarrow> k = AttestationClaim \<or> k = AttestationHead"

definition SameAs :: "witness_attestation \<Rightarrow> witness_attestation \<Rightarrow> bool" where
  "SameAs a b \<longleftrightarrow> a\<lparr>wa_ID := []\<rparr> = b\<lparr>wa_ID := []\<rparr>"

datatype audit_error =
    ErrReservedSpan | ErrDuplicateID | ErrOutcomeRecorded | ErrClockBehind int gotime gotime
  | ErrEntryNotFound | ErrAnchorNotFound | ErrAttestationNotFound | ErrAttestationConflict

text \<open>The id the caller's record takes when the answer is one already held.\<close>

definition ResolveHeldAttestation :: "witness_attestation \<Rightarrow> witness_attestation \<Rightarrow>
    audit_error + witness_attestation" where
  "ResolveHeldAttestation held a =
     (if \<not> SameAs held a then Inl ErrAttestationConflict else Inr (a\<lparr>wa_ID := wa_ID held\<rparr>))"

section \<open>State\<close>

record audit_store =
  as_entries :: "entry list"
  as_ids :: "string set"
  as_installID :: string
  as_anchors :: "anchor list"
  as_attestations :: "witness_attestation list"

definition NewAuditStore :: audit_store where
  "NewAuditStore = \<lparr>as_entries = [], as_ids = {}, as_installID = [], as_anchors = [], as_attestations = []\<rparr>"

definition head_entry :: "audit_store \<Rightarrow> entry option" where
  "head_entry st = (if as_entries st = [] then None else Some (last (as_entries st)))"

definition push_entry :: "entry \<Rightarrow> audit_store \<Rightarrow> audit_store" where
  "push_entry e st = st\<lparr>as_entries := as_entries st @ [e], as_ids := insert (ae_ID e) (as_ids st)\<rparr>"

section \<open>Appends\<close>

text \<open>An append is refused, panics where the entry's link cannot be computed, or records the entry
  it returns.\<close>

datatype append_result = Refused audit_error | Panicked | Appended entry

definition outcome_held :: "string \<Rightarrow> entry list \<Rightarrow> bool" where
  "outcome_held runID es \<longleftrightarrow> list_ex (\<lambda>held. OutcomeRunID held = Some runID) es"

definition Append :: "serializer \<Rightarrow> (string \<Rightarrow> string) \<Rightarrow> gotime \<Rightarrow> entry \<Rightarrow> audit_store \<Rightarrow>
    append_result \<times> audit_store" where
  "Append ser sha now e st =
     (if IsSpanMarker e then (Refused ErrReservedSpan, st)
      else if ae_ID e \<in> as_ids st then (Refused ErrDuplicateID, st)
      else if (case OutcomeRunID e of Some runID \<Rightarrow> outcome_held runID (as_entries st) | None \<Rightarrow> False)
      then (Refused ErrOutcomeRecorded, st)
      else
        let e1 = BindEntryInstall (as_installID st) e;
            prev = head_entry st;
            cp = StampAppendTime prev e1 now
        in case Link ser sha prev cp of
             None \<Rightarrow> (Panicked, st)
           | Some linked \<Rightarrow> (Appended linked, push_entry linked st))"

text \<open>The newest well-formed beat: its sequence, number and time, or zeros.\<close>

fun last_span :: "entry list \<Rightarrow> int \<times> int \<times> gotime" where
  "last_span [] = (0, 0, zero_time)"
| "last_span (e # newest_first) =
     (if ae_Actor e \<noteq> SpanActor \<or> ae_Method e \<noteq> SpanMethod then last_span newest_first
      else case ParseSpanPath (ae_Path e) of
        Some (b, _, _) \<Rightarrow> (ae_Seq e, b, ae_At e)
      | None \<Rightarrow> last_span newest_first)"

definition AppendSpanBeat :: "serializer \<Rightarrow> (string \<Rightarrow> string) \<Rightarrow> gotime \<Rightarrow> string \<Rightarrow> gotime \<Rightarrow> int \<Rightarrow>
    audit_store \<Rightarrow> append_result \<times> audit_store" where
  "AppendSpanBeat ser sha now newID at0 cadenceS st =
     (let at = (if IsZero at0 then now else at0);
          prev = head_entry st;
          headSeq = (case prev of Some p \<Rightarrow> ae_Seq p | None \<Rightarrow> 0);
          (lastSpanSeq, lastSpanBeat, lastSpanAt) = last_span (rev (as_entries st));
          (beat, cnt) = NextSpanBeat headSeq lastSpanSeq lastSpanBeat
      in case CheckBeatAdvance at lastSpanAt of
           Some (p, a) \<Rightarrow> (Refused (ErrClockBehind beat p a), st)
         | None \<Rightarrow>
             (case (case prev of Some h \<Rightarrow> CheckBeatAfterHead at (ae_At h) | None \<Rightarrow> None) of
                Some (p, a) \<Rightarrow> (Refused (ErrClockBehind beat p a), st)
              | None \<Rightarrow>
                  let e = BindEntryInstall (as_installID st) (NewSpanEntry newID at beat cnt cadenceS)
                  in case Link ser sha prev e of
                       None \<Rightarrow> (Panicked, st)
                     | Some linked \<Rightarrow> (Appended linked, push_entry linked st)))"

section \<open>Reads\<close>

definition at_least_one :: "int \<Rightarrow> nat" where
  "at_least_one limit = (if limit < 1 then 1 else nat limit)"

definition SpanBeats :: "int \<Rightarrow> audit_store \<Rightarrow> entry list" where
  "SpanBeats limit st = rev (take (at_least_one limit) (filter IsSpanMarker (rev (as_entries st))))"

definition newest_entry :: "entry \<Rightarrow> entry \<Rightarrow> bool" where
  "newest_entry a b = (if ae_Seq a = ae_Seq b then ae_ID a > ae_ID b else ae_Seq a > ae_Seq b)"

fun insert_entry :: "('a \<Rightarrow> 'a \<Rightarrow> bool) \<Rightarrow> 'a \<Rightarrow> 'a list \<Rightarrow> 'a list" where
  "insert_entry lt x [] = [x]"
| "insert_entry lt x (y # ys) = (if lt y x then y # insert_entry lt x ys else x # y # ys)"

definition sort_entries :: "('a \<Rightarrow> 'a \<Rightarrow> bool) \<Rightarrow> 'a list \<Rightarrow> 'a list" where
  "sort_entries lt xs = foldr (insert_entry lt) xs []"

definition ListEntries :: "int \<Rightarrow> audit_store \<Rightarrow> entry list" where
  "ListEntries limit st = take (at_least_one limit) (sort_entries newest_entry (as_entries st))"

definition EntryByID :: "string \<Rightarrow> audit_store \<Rightarrow> audit_error + entry" where
  "EntryByID i st =
     (case find (\<lambda>e. ae_ID e = i) (as_entries st) of Some e \<Rightarrow> Inr e | None \<Rightarrow> Inl ErrEntryNotFound)"

definition Chain :: "audit_store \<Rightarrow> entry list" where
  "Chain st = as_entries st"

text \<open>\<open>fn\<close> threads the caller's state and may stop the scan with an error.\<close>

fun scan_entries :: "(entry \<Rightarrow> 's \<Rightarrow> 'e + 's) \<Rightarrow> entry list \<Rightarrow> 's \<Rightarrow> 'e + 's" where
  "scan_entries fn [] s = Inr s"
| "scan_entries fn (e # es) s = (case fn e s of Inl err \<Rightarrow> Inl err | Inr s' \<Rightarrow> scan_entries fn es s')"

definition ChainScan :: "int \<Rightarrow> (entry \<Rightarrow> 's \<Rightarrow> 'e + 's) \<Rightarrow> audit_store \<Rightarrow> 's \<Rightarrow> 'e + 's" where
  "ChainScan afterSeq fn st s = scan_entries fn (filter (\<lambda>e. \<not> ae_Seq e \<le> afterSeq) (Chain st)) s"

definition BindInstall :: "string \<Rightarrow> audit_store \<Rightarrow> audit_store" where
  "BindInstall installID st = st\<lparr>as_installID := installID\<rparr>"

definition BoundInstall :: "audit_store \<Rightarrow> string" where
  "BoundInstall st =
     (case find (\<lambda>e. ae_InstallID e \<noteq> []) (rev (as_entries st)) of Some e \<Rightarrow> ae_InstallID e | None \<Rightarrow> [])"

section \<open>Anchors and attestations kept beside the chain\<close>

definition SaveAnchor :: "anchor \<Rightarrow> audit_store \<Rightarrow> audit_store" where
  "SaveAnchor a st = st\<lparr>as_anchors := as_anchors st @ [a]\<rparr>"

definition Anchors :: "int \<Rightarrow> audit_store \<Rightarrow> anchor list" where
  "Anchors sq st =
     sort_entries (\<lambda>a b. if an_Seq a = an_Seq b then an_ID a < an_ID b else an_Seq a < an_Seq b)
       (filter (\<lambda>a. \<not> (sq > 0 \<and> an_Seq a > sq)) (as_anchors st))"

fun remove_first :: "('a \<Rightarrow> bool) \<Rightarrow> 'a list \<Rightarrow> 'a list option" where
  "remove_first P [] = None"
| "remove_first P (x # xs) = (if P x then Some xs else map_option ((#) x) (remove_first P xs))"

definition DeleteAnchor :: "string \<Rightarrow> audit_store \<Rightarrow> audit_error option \<times> audit_store" where
  "DeleteAnchor i st =
     (case remove_first (\<lambda>a. an_ID a = i) (as_anchors st) of
        Some rest \<Rightarrow> (None, st\<lparr>as_anchors := rest\<rparr>)
      | None \<Rightarrow> (Some ErrAnchorNotFound, st))"

definition SaveAttestation :: "witness_attestation \<Rightarrow> audit_store \<Rightarrow>
    (audit_error + witness_attestation) \<times> audit_store" where
  "SaveAttestation a st =
     (case find (\<lambda>held. wa_Seq held = wa_Seq a \<and> wa_Kind held = wa_Kind a \<and> wa_KeyID held = wa_KeyID a)
             (as_attestations st) of
        Some held \<Rightarrow> (ResolveHeldAttestation held a, st)
      | None \<Rightarrow> (Inr a, st\<lparr>as_attestations := as_attestations st @ [a]\<rparr>))"

definition Attestations :: "int \<Rightarrow> audit_store \<Rightarrow> witness_attestation list" where
  "Attestations sq st =
     sort_entries (\<lambda>a b. if wa_Seq a = wa_Seq b then wa_ID a < wa_ID b else wa_Seq a < wa_Seq b)
       (filter (\<lambda>a. \<not> (sq > 0 \<and> wa_Seq a > sq)) (as_attestations st))"

definition DeleteAttestation :: "string \<Rightarrow> audit_store \<Rightarrow> audit_error option \<times> audit_store" where
  "DeleteAttestation i st =
     (case remove_first (\<lambda>a. wa_ID a = i) (as_attestations st) of
        Some rest \<Rightarrow> (None, st\<lparr>as_attestations := rest\<rparr>)
      | None \<Rightarrow> (Some ErrAttestationNotFound, st))"

end
