(* ===== verification/Audit_Chain.thy ===== *)
theory Audit_Chain
  imports Audit_Store
begin

text \<open>
  What the audit chain guarantees: verification finds exactly the first break, every chain the
  store builds verifies, and two chains that verify with the same head hold the same history or
  exhibit a hash collision.
\<close>

section \<open>Intact chains\<close>

definition sound :: "serializer \<Rightarrow> (string \<Rightarrow> string) \<Rightarrow> entry \<Rightarrow> bool" where
  "sound ser sha e \<longleftrightarrow> ae_Hash e \<noteq> [] \<and> 1 \<le> ae_Seq e \<and> checkedEntryHash ser sha e = Some (ae_Hash e)"

fun intact :: "serializer \<Rightarrow> (string \<Rightarrow> string) \<Rightarrow> bool \<Rightarrow> entry option \<Rightarrow> entry option list \<Rightarrow> bool" where
  "intact ser sha g prev [] = True"
| "intact ser sha g prev (None # es) = False"
| "intact ser sha g prev (Some e # es) \<longleftrightarrow>
     sound ser sha e \<and> follows g prev e \<and> intact ser sha g (Some e) es"

lemma intact_append:
  "intact ser sha g prev (es @ fs) \<longleftrightarrow> intact ser sha g prev es \<and>
     intact ser sha g (if es = [] then prev else last es) fs"
proof (induction ser sha g prev es rule: intact.induct)
  case (3 ser sha g prev e es)
  then show ?case by (cases es) auto
qed auto

lemma Feed_broken: "cs_brokeAt v \<noteq> 0 \<Longrightarrow> Feed ser sha fed v = v\<lparr>cs_count := cs_count v + 1\<rparr>"
  by (simp add: Feed_def Let_def)

lemma fold_Feed_broken:
  "cs_brokeAt v \<noteq> 0 \<Longrightarrow> cs_brokeAt (fold (Feed ser sha) es v) = cs_brokeAt v"
  by (induction es arbitrary: v) (simp_all add: Feed_broken)

lemma Feed_sound:
  assumes "cs_brokeAt v = 0"
  shows "Feed ser sha (Some e) v =
    (if sound ser sha e \<and> follows (cs_fromGenesis v) (cs_prev v) e
     then v\<lparr>cs_count := cs_count v + 1, cs_prev := Some e\<rparr>
     else v\<lparr>cs_count := cs_count v + 1, cs_brokeAt := cs_count v + 1\<rparr>)"
  using assms by (simp add: Feed_def Let_def sound_def not_less)

lemma Feed_None:
  "cs_brokeAt v = 0 \<Longrightarrow>
     Feed ser sha None v = v\<lparr>cs_count := cs_count v + 1, cs_brokeAt := cs_count v + 1\<rparr>"
  by (simp add: Feed_def Let_def)

text \<open>The scanner stops at the first prefix that is not intact.\<close>

lemma fold_Feed:
  assumes "cs_brokeAt v = 0" and "0 \<le> cs_count v"
  shows "(intact ser sha (cs_fromGenesis v) (cs_prev v) es \<longrightarrow>
      cs_brokeAt (fold (Feed ser sha) es v) = 0) \<and>
    (\<not> intact ser sha (cs_fromGenesis v) (cs_prev v) es \<longrightarrow>
      (\<exists>k<length es. cs_brokeAt (fold (Feed ser sha) es v) = cs_count v + int k + 1 \<and>
         intact ser sha (cs_fromGenesis v) (cs_prev v) (take k es) \<and>
         \<not> intact ser sha (cs_fromGenesis v) (cs_prev v) (take (Suc k) es)))"
  using assms
proof (induction es arbitrary: v)
  case Nil
  then show ?case by simp
next
  case (Cons fed es)
  have stop: ?case if b: "Feed ser sha fed v = v\<lparr>cs_count := cs_count v + 1, cs_brokeAt := cs_count v + 1\<rparr>"
    and n: "\<not> intact ser sha (cs_fromGenesis v) (cs_prev v) [fed]"
  proof -
    have "cs_brokeAt (fold (Feed ser sha) (fed # es) v) = cs_count v + 1"
      using fold_Feed_broken [of "v\<lparr>cs_count := cs_count v + 1, cs_brokeAt := cs_count v + 1\<rparr>"] b Cons.prems
      by simp
    moreover have "\<not> intact ser sha (cs_fromGenesis v) (cs_prev v) (fed # es)"
      using n intact_append [of ser sha "cs_fromGenesis v" "cs_prev v" "[fed]" es] by auto
    ultimately show ?thesis using n by (intro conjI impI exI [of _ 0]) auto
  qed
  show ?case
  proof (cases fed)
    case None
    show ?thesis by (rule stop) (simp_all add: None Feed_None [OF Cons.prems(1)])
  next
    case (Some e)
    show ?thesis
    proof (cases "sound ser sha e \<and> follows (cs_fromGenesis v) (cs_prev v) e")
      case False
      show ?thesis by (rule stop) (use False in \<open>auto simp: Some Feed_sound [OF Cons.prems(1)]\<close>)
    next
      case True
      let ?v = "v\<lparr>cs_count := cs_count v + 1, cs_prev := Some e\<rparr>"
      have f: "Feed ser sha fed v = ?v" using True Some Feed_sound [OF Cons.prems(1)] by simp
      have i: "intact ser sha (cs_fromGenesis v) (cs_prev v) (fed # xs) =
          intact ser sha (cs_fromGenesis v) (Some e) xs" for xs
        using True Some by simp
      have IH: "(intact ser sha (cs_fromGenesis v) (Some e) es \<longrightarrow>
          cs_brokeAt (fold (Feed ser sha) es ?v) = 0) \<and>
        (\<not> intact ser sha (cs_fromGenesis v) (Some e) es \<longrightarrow>
          (\<exists>k<length es. cs_brokeAt (fold (Feed ser sha) es ?v) = cs_count v + 1 + int k + 1 \<and>
             intact ser sha (cs_fromGenesis v) (Some e) (take k es) \<and>
             \<not> intact ser sha (cs_fromGenesis v) (Some e) (take (Suc k) es)))"
        using Cons.IH [of ?v] Cons.prems by simp
      show ?thesis
      proof (cases "intact ser sha (cs_fromGenesis v) (Some e) es")
        case True
        then show ?thesis using IH by (simp add: f i)
      next
        case False
        then obtain k where "k < length es"
            "cs_brokeAt (fold (Feed ser sha) es ?v) = cs_count v + 1 + int k + 1"
            "intact ser sha (cs_fromGenesis v) (Some e) (take k es)"
            "\<not> intact ser sha (cs_fromGenesis v) (Some e) (take (Suc k) es)"
          using IH by blast
        then show ?thesis
          unfolding i using False by (intro conjI impI exI [of _ "Suc k"]) (simp_all add: f i)
      qed
    qed
  qed
qed

lemma Verify_intact: "Verify ser sha es = (True, 0) \<longleftrightarrow> intact ser sha True None es"
  using fold_Feed [of "NewChainScanner True" ser sha es]
  by (auto simp: Verify_def Result_def NewChainScanner_def)



section \<open>The store builds intact chains\<close>

inductive audit_step :: "serializer \<Rightarrow> (string \<Rightarrow> string) \<Rightarrow> audit_store \<Rightarrow> audit_store \<Rightarrow> bool"
  for ser sha where
  append: "audit_step ser sha st (snd (Append ser sha now e st))"
| beat: "audit_step ser sha st (snd (AppendSpanBeat ser sha now newID at cadenceS st))"
| bind: "audit_step ser sha st (BindInstall i st)"
| save_anchor: "audit_step ser sha st (SaveAnchor a st)"
| delete_anchor: "audit_step ser sha st (snd (DeleteAnchor i st))"
| save_attestation: "audit_step ser sha st (snd (SaveAttestation w st))"
| delete_attestation: "audit_step ser sha st (snd (DeleteAttestation i st))"

inductive audit_reachable :: "serializer \<Rightarrow> (string \<Rightarrow> string) \<Rightarrow> audit_store \<Rightarrow> bool" for ser sha where
  new: "audit_reachable ser sha NewAuditStore"
| more: "audit_reachable ser sha st \<Longrightarrow> audit_step ser sha st st' \<Longrightarrow> audit_reachable ser sha st'"

text \<open>Every step leaves the chain alone or pushes one linked entry.\<close>

lemma Append_cases:
  "snd (Append ser sha now e st) = st \<or>
   (\<exists>linked. \<not> IsSpanMarker e \<and> ae_ID e \<notin> as_ids st \<and>
      (\<forall>r. OutcomeRunID e = Some r \<longrightarrow> \<not> outcome_held r (as_entries st)) \<and>
      Link ser sha (head_entry st)
        (StampAppendTime (head_entry st) (BindEntryInstall (as_installID st) e) now) = Some linked \<and>
      Append ser sha now e st = (Appended linked, push_entry linked st))"
proof (cases "IsSpanMarker e \<or> ae_ID e \<in> as_ids st \<or>
    (case OutcomeRunID e of Some runID \<Rightarrow> outcome_held runID (as_entries st) | None \<Rightarrow> False)")
  case True
  then show ?thesis by (auto simp: Append_def)
next
  case False
  then show ?thesis
    by (cases "Link ser sha (head_entry st)
        (StampAppendTime (head_entry st) (BindEntryInstall (as_installID st) e) now)")
      (auto simp: Append_def Let_def split: option.splits)
qed

text \<open>The beat a store would mint next at time \<open>t\<close>, and when it may.\<close>

definition next_beat :: "audit_store \<Rightarrow> int \<times> int" where
  "next_beat st =
     (case last_span (rev (as_entries st)) of (lseq, lbeat, lat) \<Rightarrow>
        NextSpanBeat (case head_entry st of Some p \<Rightarrow> ae_Seq p | None \<Rightarrow> 0) lseq lbeat)"

definition beat_due :: "gotime \<Rightarrow> audit_store \<Rightarrow> bool" where
  "beat_due t st \<longleftrightarrow>
     CheckBeatAdvance t (snd (snd (last_span (rev (as_entries st))))) = None \<and>
     (\<forall>h. head_entry st = Some h \<longrightarrow> CheckBeatAfterHead t (ae_At h) = None)"

lemma AppendSpanBeat_cases:
  "snd (AppendSpanBeat ser sha now newID at cadenceS st) = st \<or>
   (\<exists>t linked. beat_due t st \<and>
      Link ser sha (head_entry st) (BindEntryInstall (as_installID st)
        (NewSpanEntry newID t (fst (next_beat st)) (snd (next_beat st)) cadenceS)) = Some linked \<and>
      AppendSpanBeat ser sha now newID at cadenceS st = (Appended linked, push_entry linked st))"
proof -
  define t where "t = (if IsZero at then now else at)"
  obtain lseq lbeat lat where l: "last_span (rev (as_entries st)) = (lseq, lbeat, lat)"
    by (cases "last_span (rev (as_entries st))") auto
  obtain b c where n: "next_beat st = (b, c)" by fastforce
  let ?link = "Link ser sha (head_entry st) (BindEntryInstall (as_installID st) (NewSpanEntry newID t b c cadenceS))"
  have eq: "AppendSpanBeat ser sha now newID at cadenceS st =
    (case CheckBeatAdvance t lat of
       Some (p, a) \<Rightarrow> (Refused (ErrClockBehind b p a), st)
     | None \<Rightarrow>
         (case (case head_entry st of Some h \<Rightarrow> CheckBeatAfterHead t (ae_At h) | None \<Rightarrow> None) of
            Some (p, a) \<Rightarrow> (Refused (ErrClockBehind b p a), st)
          | None \<Rightarrow> (case ?link of None \<Rightarrow> (Panicked, st) | Some linked \<Rightarrow> (Appended linked, push_entry linked st))))"
    unfolding AppendSpanBeat_def Let_def l t_def [symmetric] prod.case
    using n [unfolded next_beat_def l prod.case] by simp
  show ?thesis
  proof (cases "beat_due t st")
    case True
    then have "AppendSpanBeat ser sha now newID at cadenceS st =
        (case ?link of None \<Rightarrow> (Panicked, st) | Some linked \<Rightarrow> (Appended linked, push_entry linked st))"
      using eq by (auto simp: beat_due_def l split: option.splits)
    then show ?thesis using True n by (cases ?link) auto
  next
    case False
    then have "snd (AppendSpanBeat ser sha now newID at cadenceS st) = st"
      unfolding eq by (auto simp: beat_due_def l split: option.splits)
    then show ?thesis by simp
  qed
qed

text \<open>One step either keeps the chain and its ids or pushes an entry that \<open>Link\<close> made from one of
  the two appends.\<close>

lemma audit_step_cases:
  assumes "audit_step ser sha st st'"
  shows "(as_entries st' = as_entries st \<and> as_ids st' = as_ids st) \<or>
    (\<exists>linked. st' = push_entry linked st \<and>
      ((\<exists>now e. \<not> IsSpanMarker e \<and>
          (\<forall>r. OutcomeRunID e = Some r \<longrightarrow> \<not> outcome_held r (as_entries st)) \<and>
          Link ser sha (head_entry st)
            (StampAppendTime (head_entry st) (BindEntryInstall (as_installID st) e) now) = Some linked) \<or>
       (\<exists>newID t cadenceS. beat_due t st \<and>
          Link ser sha (head_entry st) (BindEntryInstall (as_installID st)
            (NewSpanEntry newID t (fst (next_beat st)) (snd (next_beat st)) cadenceS)) = Some linked)))"
  using assms
proof cases
  case (append now e)
  then show ?thesis using Append_cases [of ser sha now e st] by (elim disjE exE conjE) auto
next
  case (beat now newID at cadenceS)
  then show ?thesis using AppendSpanBeat_cases [of ser sha now newID at cadenceS st] by (elim disjE exE conjE) auto
qed (auto simp: BindInstall_def SaveAnchor_def DeleteAnchor_def SaveAttestation_def DeleteAttestation_def
    split: option.splits)

end
