(* ===== verification/Audit_Props.thy ===== *)
theory Audit_Props
  imports Audit_Chain
begin

text \<open>
  Properties of every chain the audit store can hold, whatever sequence of appends and beats
  built it: it verifies, its beats are numbered and counted without gaps, a run has one outcome,
  and recorded times stay within their bounds.
\<close>

section \<open>Linked entries\<close>

lemma Link_fields:
  assumes "Link ser sha prev e = Some l"
  shows "ae_ID l = ae_ID e" "ae_Actor l = escapeInvalidUTF8 (ae_Actor e)"
    "ae_Method l = escapeInvalidUTF8 (ae_Method e)" "ae_Path l = escapeInvalidUTF8 (ae_Path e)"
    "ae_At l = Truncate (ae_At e) Microsecond"
    "ae_Seq l = (case prev of Some p \<Rightarrow> ae_Seq p + 1 | None \<Rightarrow> 1)"
    "ae_PrevHash l = (case prev of Some p \<Rightarrow> ae_Hash p | None \<Rightarrow> [])"
    "ae_InstallID l = ae_InstallID e"
  using assms by (auto simp: Link_def Let_def chain_fields_def AsStored_def split: option.splits)

lemma entryClaim_Hash [simp]: "entryClaim (e\<lparr>ae_Hash := h\<rparr>) = entryClaim e"
  by (simp add: entryClaim_def)

lemma Link_sound:
  assumes "Link ser sha prev e = Some l" and "\<forall>x. sha x \<noteq> []"
    and "\<forall>p. prev = Some p \<longrightarrow> 1 \<le> ae_Seq p"
  shows "sound ser sha l \<and> follows True prev l"
proof -
  have "checkedEntryHash ser sha l = Some (ae_Hash l)"
    using assms(1) by (auto simp: Link_def Let_def EntryHash_def checkedEntryHash_def)
  moreover from this have "ae_Hash l \<noteq> []"
    using assms(2) by (auto simp: checkedEntryHash_def checkedLinkOf_def)
  ultimately show ?thesis
    using Link_fields [OF assms(1)] assms(3) by (auto simp: sound_def follows_def split: option.splits)
qed

lemma BindEntryInstall_fields [simp]:
  "ae_ID (BindEntryInstall i e) = ae_ID e" "ae_At (BindEntryInstall i e) = ae_At e"
  "ae_Actor (BindEntryInstall i e) = ae_Actor e" "ae_Method (BindEntryInstall i e) = ae_Method e"
  "ae_Path (BindEntryInstall i e) = ae_Path e"
  by (simp_all add: BindEntryInstall_def)

lemma StampAppendTime_fields [simp]:
  "ae_ID (StampAppendTime prev e now) = ae_ID e" "ae_Actor (StampAppendTime prev e now) = ae_Actor e"
  "ae_Method (StampAppendTime prev e now) = ae_Method e" "ae_Path (StampAppendTime prev e now) = ae_Path e"
  by (simp_all add: StampAppendTime_def Let_def split: option.splits)

lemma IsSpanMarker_stamped: "IsSpanMarker (StampAppendTime prev (BindEntryInstall i e) now) = IsSpanMarker e"
  by (simp add: IsSpanMarker_def)

lemma entries_push [simp]: "as_entries (push_entry e st) = as_entries st @ [e]"
  "as_ids (push_entry e st) = insert (ae_ID e) (as_ids st)"
  by (simp_all add: push_entry_def)

text \<open>What a pushed entry is, whichever operation pushed it.\<close>

lemma pushed_links:
  assumes "audit_step ser sha st st'" and "as_entries st' \<noteq> as_entries st"
  shows "\<exists>e l. Link ser sha (head_entry st) e = Some l \<and> as_entries st' = as_entries st @ [l]"
  using audit_step_cases [OF assms(1)] assms(2) by auto

section \<open>Every chain verifies\<close>

lemma intact_head_seq:
  assumes "intact ser sha True None (map Some es)" and "es \<noteq> []"
  shows "1 \<le> ae_Seq (last es)"
proof -
  have "intact ser sha True None (map Some (butlast es) @ [Some (last es)])"
    using assms by (metis append_butlast_last_id list.simps(8,9) map_append)
  then show ?thesis by (auto simp: intact_append sound_def)
qed

lemma reachable_intact:
  assumes "audit_reachable ser sha st" and "\<forall>x. sha x \<noteq> []"
  shows "intact ser sha True None (map Some (as_entries st))"
  using assms(1)
proof (induction rule: audit_reachable.induct)
  case new
  then show ?case by (simp add: NewAuditStore_def)
next
  case (more st st')
  show ?case
  proof (cases "as_entries st' = as_entries st")
    case False
    from pushed_links [OF more.hyps(2) False] obtain e l where
      l: "Link ser sha (head_entry st) e = Some l" "as_entries st' = as_entries st @ [l]" by blast
    have "\<forall>p. head_entry st = Some p \<longrightarrow> 1 \<le> ae_Seq p"
      using intact_head_seq [OF more.IH] by (auto simp: head_entry_def split: if_splits)
    from Link_sound [OF l(1) assms(2) this] more.IH l(2) show ?thesis
      by (auto simp: intact_append head_entry_def last_map split: if_splits)
  qed (use more.IH in simp)
qed

text \<open>C34. The store only builds chains that verify. Whatever sequence of appends, beats, identity
  bindings and anchor or attestation changes it went through, refused and panicking ones
  included, the chain it holds passes verification from genesis.\<close>

theorem stored_chain_verifies:
  assumes "audit_reachable ser sha st" and "\<forall>x. sha x \<noteq> []"
  shows "Verify ser sha (map Some (Chain st)) = (True, 0)"
proof -
  let ?v = "fold (Feed ser sha) (map Some (as_entries st)) (NewChainScanner True)"
  have "cs_brokeAt ?v = 0"
    using fold_Feed [of "NewChainScanner True" ser sha "map Some (as_entries st)"] reachable_intact [OF assms]
    by (simp add: NewChainScanner_def)
  then show ?thesis by (simp add: Verify_def Result_def Chain_def)
qed

definition blank_entry :: entry where
  "blank_entry = \<lparr>ae_ID = [], ae_At = zero_time, ae_Actor = [], ae_ActorType = [], ae_OnBehalfOf = [],
     ae_Method = [], ae_Path = [], ae_ContentDigest = [], ae_Nonce = [], ae_InstallID = [], ae_Seq = 0,
     ae_PrevHash = [], ae_Hash = []\<rparr>"

theorem stored_chain_verifies_witness:
  "Verify (\<lambda>_. Some ''c'') (\<lambda>_. ''h'') (map Some (Chain (snd (Append (\<lambda>_. Some ''c'') (\<lambda>_. ''h'') 5
     (blank_entry\<lparr>ae_ID := ''aud_1'', ae_Method := ''POST''\<rparr>) NewAuditStore)))) = (True, 0)"
  by (rule stored_chain_verifies [OF audit_reachable.more [OF audit_reachable.new audit_step.append]]) simp

section \<open>Positions and stored times\<close>

lemma reachable_positions:
  assumes "audit_reachable ser sha st" and "i < length (as_entries st)"
  shows "ae_Seq (as_entries st ! i) = int i + 1 \<and>
    Truncate (ae_At (as_entries st ! i)) Microsecond = ae_At (as_entries st ! i)"
  using assms
proof (induction arbitrary: i rule: audit_reachable.induct)
  case new
  then show ?case by (simp add: NewAuditStore_def)
next
  case (more st st')
  show ?case
  proof (cases "as_entries st' = as_entries st")
    case False
    from pushed_links [OF more.hyps(2) False] obtain e l where
      l: "Link ser sha (head_entry st) e = Some l" "as_entries st' = as_entries st @ [l]" by blast
    show ?thesis
    proof (cases "i < length (as_entries st)")
      case True
      then show ?thesis using more.IH l(2) by (simp add: nth_append)
    next
      case False
      then have i: "i = length (as_entries st)" using more.prems l(2) by simp
      have "ae_Seq l = int i + 1"
        using Link_fields(6) [OF l(1)] more.IH [of "i - 1"] i
        by (auto simp: head_entry_def last_conv_nth split: if_splits)
      then show ?thesis using l(2) i Link_fields(5) [OF l(1)] by (simp add: nth_append)
    qed
  qed (use more in simp)
qed

lemma head_at_truncated:
  assumes "audit_reachable ser sha st" and "head_entry st = Some h"
  shows "Truncate (ae_At h) Microsecond = ae_At h"
  using reachable_positions [OF assms(1), of "length (as_entries st) - 1"] assms(2)
  by (auto simp: head_entry_def last_conv_nth split: if_splits)

lemma head_seq:
  assumes "audit_reachable ser sha st"
  shows "(case head_entry st of Some p \<Rightarrow> ae_Seq p | None \<Rightarrow> 0) = int (length (as_entries st))"
  using reachable_positions [OF assms, of "length (as_entries st) - 1"]
  by (auto simp: head_entry_def last_conv_nth)

section \<open>Times\<close>

text \<open>Recorded times are bounded by the store's clock and by the chain. An appended entry is never
  dated more than two minutes ahead of the clock that appends it; unless the head itself is
  further ahead than that, it is never dated before the head, so the trail does not run
  backwards; and a time its caller chose that is neither in the future nor behind the head is
  recorded as chosen, to the microsecond.\<close>

theorem appended_times_are_bounded:
  assumes "audit_reachable ser sha st" and "Append ser sha now e st = (Appended l, st')"
  shows "ae_At l \<le> now + MaxTimeAhead \<and>
    (\<forall>h. head_entry st = Some h \<and> ae_At h \<le> now + MaxTimeAhead \<longrightarrow> ae_At h \<le> ae_At l) \<and>
    (\<not> IsZero (ae_At e) \<and> ae_At e \<le> now \<and> (\<forall>h. head_entry st = Some h \<longrightarrow> ae_At h \<le> ae_At e) \<longrightarrow>
      ae_At l = Truncate (ae_At e) Microsecond)"
proof -
  let ?cp = "StampAppendTime (head_entry st) (BindEntryInstall (as_installID st) e) now"
  have "Link ser sha (head_entry st) ?cp = Some l"
    using assms(2) by (auto simp: Append_def Let_def split: if_splits option.splits)
  from Link_fields(5) [OF this] have at: "ae_At l = Truncate (ae_At ?cp) Microsecond" .
  have ahead: "0 \<le> MaxTimeAhead" by (simp add: MaxTimeAhead_def Minute_def)
  have us: "0 < Microsecond" by (simp add: Microsecond_def)
  have "ae_At ?cp \<le> now + MaxTimeAhead"
    using ahead by (auto simp: StampAppendTime_def Let_def split: option.splits)
  then have "ae_At l \<le> now + MaxTimeAhead" using Truncate_le [OF us, of "ae_At ?cp"] at by linarith
  moreover have "ae_At h \<le> ae_At l" if "head_entry st = Some h" "ae_At h \<le> now + MaxTimeAhead" for h
  proof -
    have "ae_At h \<le> ae_At ?cp" using that by (simp add: StampAppendTime_def Let_def)
    from Truncate_mono [OF us this] show ?thesis using at head_at_truncated [OF assms(1) that(1)] by simp
  qed
  moreover have "ae_At ?cp = ae_At e"
    if "\<not> IsZero (ae_At e)" "ae_At e \<le> now" "\<forall>h. head_entry st = Some h \<longrightarrow> ae_At h \<le> ae_At e"
    using that by (auto simp: StampAppendTime_def Let_def split: option.splits)
  ultimately show ?thesis using at by auto
qed

theorem appended_times_are_bounded_witness:
  "\<exists>l. fst (Append (\<lambda>_. Some ''c'') (\<lambda>_. ''h'') 5000 (blank_entry\<lparr>ae_ID := ''aud_1'', ae_At := 3500\<rparr>)
     NewAuditStore) = Appended l \<and> ae_At l = 3000"
proof -
  let ?e = "blank_entry\<lparr>ae_ID := ''aud_1'', ae_At := 3500\<rparr>"
  let ?a = "Append (\<lambda>_. Some ''c'') (\<lambda>_. ''h'') 5000 ?e NewAuditStore"
  have "\<exists>l st'. ?a = (Appended l, st')"
    by (simp add: Append_def NewAuditStore_def blank_entry_def IsSpanMarker_def SpanActor_def OutcomeRunID_def
        MethodRun_def head_entry_def Link_def Let_def EntryHash_def checkedLinkOf_def)
  then obtain l st' where l: "?a = (Appended l, st')" by blast
  from appended_times_are_bounded [OF audit_reachable.new l] have "ae_At l = Truncate 3500 Microsecond"
    by (simp add: head_entry_def NewAuditStore_def blank_entry_def IsZero_def zero_time_def)
  then show ?thesis using l by (simp add: Truncate_def Microsecond_def zero_time_def)
qed

section \<open>Beats\<close>

lemma FormatInt_ascii: "c \<in> set (FormatInt i) \<Longrightarrow> of_char c < (128 :: nat) \<and> c \<noteq> CHR ''%''"
  using decimal_digits [of c "nat i"] decimal_digits [of c "nat (- i)"]
  by (auto simp: FormatInt_def is_digit_iff split: if_splits)

lemma escape_SpanPath [simp]: "escapeInvalidUTF8 (SpanPath b c s) = SpanPath b c s"
  unfolding escape_fixed_iff
proof
  show "ValidString (SpanPath b c s)"
    by (rule ValidString_ascii) (auto simp: SpanPath_def dest: FormatInt_ascii)
  show "CHR ''%'' \<notin> set (SpanPath b c s)" by (auto simp: SpanPath_def dest: FormatInt_ascii)
qed

lemma escape_is_plain: "escapeInvalidUTF8 a = s \<Longrightarrow> CHR ''%'' \<notin> set s \<Longrightarrow> a = s"
  using escape_no_percent by metis

lemma stored_marker:
  assumes "Link ser sha prev e = Some l" and "IsSpanMarker l"
  shows "IsSpanMarker e"
proof -
  note f = Link_fields [OF assms(1)]
  obtain b c s where p: "ae_Actor l = SpanActor" "ae_Method l = SpanMethod" "ae_Path l = SpanPath b c s"
    using assms(2) ParseSpanPath_Some by (fastforce simp: IsSpanMarker_def split: if_splits)
  have "ae_Actor e = SpanActor"
    by (rule escape_is_plain [OF trans [OF sym [OF f(2)] p(1)]]) (simp add: SpanActor_def)
  moreover have "ae_Method e = SpanMethod"
    by (rule escape_is_plain [OF trans [OF sym [OF f(3)] p(2)]]) (simp add: SpanMethod_def)
  moreover have "ae_Path e = ae_Path l"
    using escape_is_plain [of "ae_Path e" "SpanPath b c s"] f(4) p(3)
    by (auto simp: SpanPath_def dest: FormatInt_ascii)
  ultimately show ?thesis using assms(2) p by (simp add: IsSpanMarker_def split: if_splits)
qed

lemma IsSpanMarker_iff:
  "IsSpanMarker e \<longleftrightarrow> ae_Actor e = SpanActor \<and> ae_Method e = SpanMethod \<and> ParseSpanPath (ae_Path e) \<noteq> None"
  by (simp add: IsSpanMarker_def) blast

lemma last_span_Cons:
  "last_span (e # es) = (if IsSpanMarker e then (ae_Seq e, fst (the (ParseSpanPath (ae_Path e))), ae_At e)
     else last_span es)"
  by (auto simp: IsSpanMarker_iff split: option.splits)

lemma last_span_markers:
  "last_span (rev es) =
     (if filter IsSpanMarker es = [] then (0, 0, zero_time)
      else let e = last (filter IsSpanMarker es)
           in (ae_Seq e, fst (the (ParseSpanPath (ae_Path e))), ae_At e))"
proof (induction es rule: rev_induct)
  case (snoc e es)
  then show ?case
    by (simp add: last_span_Cons Let_def del: last_span.simps)
qed simp

text \<open>The beats of a chain are numbered from one, each counts the entries since the one before it,
  and each is dated after the one before it.\<close>

definition beats_ok :: "entry list \<Rightarrow> bool" where
  "beats_ok ms \<longleftrightarrow> (\<forall>i<length ms. \<exists>s. ParseSpanPath (ae_Path (ms ! i)) =
       Some (int i + 1, ae_Seq (ms ! i) - 1 - (if i = 0 then 0 else ae_Seq (ms ! (i - 1))), s) \<and>
     (i \<noteq> 0 \<and> \<not> IsZero (ae_At (ms ! (i - 1))) \<longrightarrow> ae_At (ms ! (i - 1)) < ae_At (ms ! i)))"

lemma beats_ok_snoc:
  assumes "beats_ok ms"
    and "ParseSpanPath (ae_Path e) = Some (int (length ms) + 1,
      ae_Seq e - 1 - (if ms = [] then 0 else ae_Seq (last ms)), s)"
    and "ms \<noteq> [] \<and> \<not> IsZero (ae_At (last ms)) \<longrightarrow> ae_At (last ms) < ae_At e"
  shows "beats_ok (ms @ [e])"
  unfolding beats_ok_def
proof (intro allI impI)
  fix i assume i: "i < length (ms @ [e])"
  let ?P = "\<lambda>ms i. \<exists>s. ParseSpanPath (ae_Path (ms ! i)) =
       Some (int i + 1, ae_Seq (ms ! i) - 1 - (if i = 0 then 0 else ae_Seq (ms ! (i - 1))), s) \<and>
     (i \<noteq> 0 \<and> \<not> IsZero (ae_At (ms ! (i - 1))) \<longrightarrow> ae_At (ms ! (i - 1)) < ae_At (ms ! i))"
  show "?P (ms @ [e]) i"
  proof (cases "i < length ms")
    case True
    then have "?P ms i" using assms(1) by (simp add: beats_ok_def)
    moreover have "(ms @ [e]) ! i = ms ! i" "i \<noteq> 0 \<Longrightarrow> (ms @ [e]) ! (i - 1) = ms ! (i - 1)"
      using True by (simp_all add: nth_append)
    ultimately show ?thesis by auto
  next
    case False
    then have "i = length ms" using i by simp
    then show ?thesis using assms(2,3) by (auto simp: nth_append last_conv_nth)
  qed
qed

lemma minted_beat:
  assumes "audit_reachable ser sha st" and "beats_ok (filter IsSpanMarker (as_entries st))"
    and "beat_due t st"
    and link: "Link ser sha (head_entry st) (BindEntryInstall i
        (NewSpanEntry newID t (fst (next_beat st)) (snd (next_beat st)) cadenceS)) = Some l"
    and m: "IsSpanMarker l"
  shows "beats_ok (filter IsSpanMarker (as_entries st) @ [l])"
proof -
  define ms where "ms = filter IsSpanMarker (as_entries st)"
  let ?n = "length (as_entries st)"
  have sq: "ae_Seq l = int ?n + 1"
    using Link_fields(6) [OF link] head_seq [OF assms(1)] by (cases "head_entry st") auto
  have last: "ae_Seq (last ms) \<le> int ?n \<and> Truncate (ae_At (last ms)) Microsecond = ae_At (last ms)" if "ms \<noteq> []"
  proof -
    have "last ms \<in> set (as_entries st)" using that last_in_set [of ms] by (auto simp: ms_def)
    then obtain j where "j < ?n" "as_entries st ! j = last ms" by (auto simp: in_set_conv_nth)
    then show ?thesis using reachable_positions [OF assms(1), of j] by auto
  qed
  have lastbeat: "\<exists>c s. ParseSpanPath (ae_Path (last ms)) = Some (int (length ms), c, s)" if "ms \<noteq> []"
  proof -
    have "length ms - 1 < length ms" "int (length ms - 1) + 1 = int (length ms)" using that by (cases ms; simp)+
    moreover from assms(2) [folded ms_def, unfolded beats_ok_def, rule_format, OF this(1)] obtain c s
      where "ParseSpanPath (ae_Path (ms ! (length ms - 1))) = Some (int (length ms - 1) + 1, c, s)" by blast
    ultimately show ?thesis using that by (simp add: last_conv_nth)
  qed
  have nb: "next_beat st = (int (length ms) + 1, int ?n - (if ms = [] then 0 else ae_Seq (last ms)))"
  proof (cases "ms = []")
    case True
    then show ?thesis
      using head_seq [OF assms(1)] by (simp add: next_beat_def last_span_markers ms_def [symmetric] NextSpanBeat_def)
  next
    case False
    then obtain c s where "ParseSpanPath (ae_Path (last ms)) = Some (int (length ms), c, s)" "0 < length ms"
      using lastbeat by auto
    then show ?thesis
      using False head_seq [OF assms(1)]
      by (simp add: next_beat_def last_span_markers ms_def [symmetric] NextSpanBeat_def Let_def)
  qed
  have path: "ae_Path l = SpanPath (fst (next_beat st)) (snd (next_beat st)) cadenceS"
    using Link_fields(4) [OF link] by (simp add: NewSpanEntry_def)
  obtain x where "ParseSpanPath (ae_Path l) = Some x" using m by (auto simp: IsSpanMarker_def split: if_splits)
  then have parse: "ParseSpanPath (ae_Path l) =
      Some (int (length ms) + 1, ae_Seq l - 1 - (if ms = [] then 0 else ae_Seq (last ms)), cadenceS)"
    using ParseSpanPath_minted [of "fst (next_beat st)" "snd (next_beat st)" cadenceS x] last
    by (auto simp: path nb sq)
  have "ae_At (last ms) < ae_At l" if "ms \<noteq> []" "\<not> IsZero (ae_At (last ms))"
  proof -
    have "CheckBeatAdvance t (ae_At (last ms)) = None"
      using assms(3) that(1) by (simp add: beat_due_def last_span_markers ms_def [symmetric] Let_def)
    then have "Truncate (ae_At (last ms)) Microsecond < Truncate t Microsecond"
      using that(2) by (simp add: CheckBeatAdvance_def Let_def BeatGranularity_def split: if_splits)
    then show ?thesis using last [OF that(1)] Link_fields(5) [OF link] by (simp add: NewSpanEntry_def)
  qed
  then show ?thesis using beats_ok_snoc [OF assms(2) [folded ms_def] parse] by (simp add: ms_def)
qed

text \<open>The beats of a chain attest its population without gaps. In every chain the store can hold,
  the entries a verifier reads as beats are numbered one, two, three in chain order, the count
  each carries is exactly the number of entries recorded since the beat before it, and each is
  dated strictly after the one before it. No request can put a beat on the chain: only the
  server's own mint does, and a clock that stepped back skips a beat instead of dating it
  falsely.\<close>

theorem beats_are_contiguous:
  assumes "audit_reachable ser sha st"
  shows "beats_ok (filter IsSpanMarker (Chain st))"
  using assms
proof (induction rule: audit_reachable.induct)
  case new
  then show ?case by (simp add: NewAuditStore_def Chain_def beats_ok_def)
next
  case (more st st')
  from audit_step_cases [OF more.hyps(2)] show ?case
  proof (elim disjE exE conjE)
    fix linked now e
    assume "st' = push_entry linked st" "\<not> IsSpanMarker e"
      "Link ser sha (head_entry st) (StampAppendTime (head_entry st) (BindEntryInstall (as_installID st) e) now) = Some linked"
    moreover from this have "\<not> IsSpanMarker linked"
      using stored_marker [of ser sha "head_entry st" _ linked] by (metis IsSpanMarker_stamped)
    ultimately show ?thesis using more.IH by (simp add: Chain_def)
  next
    fix linked newID t cadenceS
    assume "st' = push_entry linked st" "beat_due t st"
      "Link ser sha (head_entry st) (BindEntryInstall (as_installID st)
        (NewSpanEntry newID t (fst (next_beat st)) (snd (next_beat st)) cadenceS)) = Some linked"
    then show ?thesis
      using more.IH minted_beat [OF more.hyps(1), of t] by (auto simp: Chain_def)
  qed (use more.IH in \<open>simp add: Chain_def\<close>)
qed

theorem beats_are_contiguous_witness:
  "let st = snd (AppendSpanBeat (\<lambda>_. Some ''c'') (\<lambda>_. ''h'') 9 ''aud_1'' 5000 60 NewAuditStore)
   in audit_reachable (\<lambda>_. Some ''c'') (\<lambda>_. ''h'') st \<and> beats_ok (filter IsSpanMarker (Chain st)) \<and>
      map ae_Path (filter IsSpanMarker (Chain st)) = [''/span/1?count=0&cadence_s=60'']"
proof -
  let ?st = "snd (AppendSpanBeat (\<lambda>_. Some ''c'') (\<lambda>_. ''h'') 9 ''aud_1'' 5000 60 NewAuditStore)"
  have r: "audit_reachable (\<lambda>_. Some ''c'') (\<lambda>_. ''h'') ?st"
    by (rule audit_reachable.more [OF audit_reachable.new audit_step.beat])
  have "map ae_Path (filter IsSpanMarker (Chain ?st)) = [''/span/1?count=0&cadence_s=60'']"
    by code_simp
  then show ?thesis using r beats_are_contiguous [OF r] by (simp add: Let_def)
qed

end
