(* ===== verification/Audit_Outcome.thy ===== *)
theory Audit_Outcome
  imports Audit_Props
begin

text \<open>
  A run has one outcome entry on the chain.
\<close>

section \<open>Outcomes\<close>

lemma escape_piece_slashes:
  assumes "is_rune c \<or> (\<exists>b. c = [b] \<and> rune_width c = 0)"
  shows "filter (\<lambda>x. x = CHR ''/'') (escape_piece c) = filter (\<lambda>x. x = CHR ''/'') c"
proof (cases "c \<noteq> ''%'' \<and> rune_width c = 0")
  case True
  then obtain b where b: "c = [b]" using assms by (auto simp: is_rune_def)
  have "b \<noteq> CHR ''/''" using True is_rune_ascii [of b] by (auto simp: b is_rune_def)
  moreover have "hex_digit hex_upper n \<noteq> CHR ''/''" if "n < 16" for n
  proof -
    have "\<forall>n\<in>set [0..<16]. hex_digit hex_upper n \<noteq> CHR ''/''" by code_simp
    then show ?thesis using that by simp
  qed
  ultimately show ?thesis
    using True of_char_bounds [of b] by (simp add: escape_piece_def b hex_byte_def)
qed (auto simp: escape_piece_def)

lemma escape_slashes:
  "filter (\<lambda>x. x = CHR ''/'') (escapeInvalidUTF8 s) = filter (\<lambda>x. x = CHR ''/'') s"
proof -
  have "\<forall>c\<in>set cs. is_rune c \<or> (\<exists>b. c = [b] \<and> rune_width c = 0) \<Longrightarrow>
      filter (\<lambda>x. x = CHR ''/'') (concat (map escape_piece cs)) = filter (\<lambda>x. x = CHR ''/'') (concat cs)" for cs
    by (induction cs) (simp_all add: escape_piece_slashes)
  from this [OF runes_pieces] show ?thesis by (simp add: escapeInvalidUTF8_def)
qed

lemma Cut_same_front:
  "Cut (a @ m # ms @ b) (m # ms) = Some (a, b) \<Longrightarrow> Cut (a @ m # ms @ b') (m # ms) = Some (a, b')"
proof (induction a)
  case Nil
  then show ?case using CutPrefix_append [of "m # ms" b'] by simp
next
  case (Cons c a)
  have n: "CutPrefix (c # a @ m # ms @ b) (m # ms) = None"
    using Cons.prems by (auto split: option.splits)
  have "take (length (m # ms)) (c # a @ m # ms @ b') = take (length (m # ms)) (c # a @ m # ms @ b)"
    by (simp add: take_Cons' take_append)
  then have "CutPrefix (c # a @ m # ms @ b') (m # ms) = None" 
    using n unfolding CutPrefix_def by (auto simp only: if_True if_False split: if_splits)
  then show ?case using Cons n by (auto split: option.splits)
qed

lemma OutcomeRunID_iff:
  "OutcomeRunID e = Some r \<longleftrightarrow> ae_Method e = MethodRun \<and> r \<noteq> [] \<and>
     (\<exists>s. ae_Path e = OutcomePath r s \<and> Cut (r @ outcomeMarker @ s) outcomeMarker = Some (r, s) \<and>
          s \<noteq> [] \<and> CHR ''/'' \<notin> set s)"
  (is "?l \<longleftrightarrow> ?r")
proof
  assume ?l
  then show ?r
    using Cut_Some by (fastforce simp: OutcomeRunID_def OutcomePath_def CutPrefix_Some split: if_splits option.splits)
qed (auto simp: OutcomeRunID_def OutcomePath_def)

lemma stored_outcome:
  assumes link: "Link ser sha prev e = Some l" and o: "OutcomeRunID l = Some r" and r: "escapeInvalidUTF8 r = r"
  shows "OutcomeRunID e = Some r"
proof -
  note f = Link_fields [OF link]
  obtain s where s: "ae_Method l = MethodRun" "r \<noteq> []" "ae_Path l = OutcomePath r s" "s \<noteq> []" "CHR ''/'' \<notin> set s"
    and cut: "Cut (r @ outcomeMarker @ s) outcomeMarker = Some (r, s)"
    using o by (auto simp: OutcomeRunID_iff)
  have m: "ae_Method e = MethodRun"
    by (rule escape_is_plain [OF trans [OF sym [OF f(3)] s(1)]]) (simp add: MethodRun_def)
  let ?u = "unescape s"
  have np: "CHR ''%'' \<notin> set (outcomeRunsPrefix @ r @ outcomeMarker)"
    using r by (auto simp: escape_fixed_iff outcomeRunsPrefix_def outcomeMarker_def)
  have esc: "escapeInvalidUTF8 (ae_Path e) = OutcomePath r s" using f(4) s(3) by simp
  then have "ae_Path e = unescape (OutcomePath r s)" by (metis unescape_escape)
  then have p: "ae_Path e = OutcomePath r ?u"
    using unescape_plain [OF np, of s] by (simp add: OutcomePath_def)
  have "filter (\<lambda>x. x = CHR ''/'') (OutcomePath r ?u) = filter (\<lambda>x. x = CHR ''/'') (OutcomePath r s)"
    using escape_slashes [of "ae_Path e"] esc p by simp
  then have "filter (\<lambda>x. x = CHR ''/'') ?u = filter (\<lambda>x. x = CHR ''/'') s" by (simp add: OutcomePath_def)
  then have "CHR ''/'' \<notin> set ?u" using s(5) by (auto simp: filter_empty_conv dest!: arg_cong [where f = set])
  moreover have "?u \<noteq> []" using s(4) by (cases s) (auto split: list.splits)
  moreover have "Cut (r @ outcomeMarker @ ?u) outcomeMarker = Some (r, ?u)"
    using Cut_same_front [of r "CHR ''/''" "''outcome/''" s ?u] cut by (simp add: outcomeMarker_def)
  ultimately show ?thesis using m p s(2) by (auto simp: OutcomeRunID_iff)
qed

lemma pushed_outcome:
  assumes "audit_step ser sha st st'" and "as_entries st' = as_entries st @ [l]"
    and o: "OutcomeRunID l = Some r" and r: "escapeInvalidUTF8 r = r"
  shows "\<not> outcome_held r (as_entries st)"
  using audit_step_cases [OF assms(1)]
proof (elim disjE exE conjE)
  fix linked now e
  assume "st' = push_entry linked st" and once: "\<forall>r. OutcomeRunID e = Some r \<longrightarrow> \<not> outcome_held r (as_entries st)"
    and "Link ser sha (head_entry st) (StampAppendTime (head_entry st) (BindEntryInstall (as_installID st) e) now) = Some linked"
  then have "OutcomeRunID (StampAppendTime (head_entry st) (BindEntryInstall (as_installID st) e) now) = Some r"
    using stored_outcome [OF _ o r] assms(2) by simp
  then show ?thesis using once by (simp add: OutcomeRunID_iff)
next
  fix linked newID t cadenceS
  assume "st' = push_entry linked st" and "Link ser sha (head_entry st) (BindEntryInstall (as_installID st)
    (NewSpanEntry newID t (fst (next_beat st)) (snd (next_beat st)) cadenceS)) = Some linked"
  then have "OutcomeRunID (BindEntryInstall (as_installID st)
    (NewSpanEntry newID t (fst (next_beat st)) (snd (next_beat st)) cadenceS)) = Some r"
    using stored_outcome [OF _ o r] assms(2) by simp
  then show ?thesis by (simp add: OutcomeRunID_iff NewSpanEntry_def SpanMethod_def MethodRun_def)
qed (use assms(2) in simp)

text \<open>A run has one outcome on the record. In every chain the store can hold, no two entries
  record the outcome of the same run, for every run id that is valid UTF-8 without a percent
  sign (the ids the server mints): a second outcome, whatever status it claims, is refused.\<close>

theorem one_outcome_per_run:
  assumes "audit_reachable ser sha st" and "i < j" and "j < length (Chain st)"
    and "OutcomeRunID (Chain st ! i) = Some r" and "ValidString r \<and> CHR ''%'' \<notin> set r"
  shows "OutcomeRunID (Chain st ! j) \<noteq> Some r"
  using assms(1-4) unfolding Chain_def
proof (induction arbitrary: j rule: audit_reachable.induct)
  case new
  then show ?case by (simp add: NewAuditStore_def)
next
  case (more st st')
  have r: "escapeInvalidUTF8 r = r" using assms(5) by (simp add: escape_fixed_iff)
  show ?case
  proof (cases "as_entries st' = as_entries st \<or> j < length (as_entries st)")
    case True
    then show ?thesis
      using more pushed_links [OF more.hyps(2)] by (fastforce simp: nth_append)
  next
    case False
    then obtain l where l: "as_entries st' = as_entries st @ [l]" using pushed_links [OF more.hyps(2)] by blast
    have j: "j = length (as_entries st)" using False l more.prems(2) by simp
    have "outcome_held r (as_entries st)"
      using more.prems(1,3) j l by (auto simp: outcome_held_def list_ex_iff nth_append intro!: bexI [OF _ nth_mem])
    then show ?thesis using pushed_outcome [OF more.hyps(2) l _ r] j l by auto
  qed
qed

definition outcome_entry :: "string \<Rightarrow> string \<Rightarrow> string \<Rightarrow> entry" where
  "outcome_entry i runID status = blank_entry\<lparr>ae_ID := i, ae_Method := MethodRun, ae_Path := OutcomePath runID status\<rparr>"

text \<open>With a serialiser that accepts every value, an append is refused only by its guards.\<close>

lemma Append_accepted:
  assumes "\<not> IsSpanMarker e" and "ae_ID e \<notin> as_ids st"
    and "\<And>r. OutcomeRunID e = Some r \<Longrightarrow> \<not> outcome_held r (as_entries st)"
  shows "\<exists>l. snd (Append (\<lambda>_. Some c) sha now e st) = push_entry l st \<and> ae_ID l = ae_ID e \<and>
    ae_Path l = escapeInvalidUTF8 (ae_Path e) \<and> ae_Method l = escapeInvalidUTF8 (ae_Method e)"
proof -
  let ?e = "StampAppendTime (head_entry st) (BindEntryInstall (as_installID st) e) now"
  obtain l where l: "Link (\<lambda>_. Some c) sha (head_entry st) ?e = Some l"
    by (simp add: Link_def Let_def EntryHash_def checkedLinkOf_def)
  then have "Append (\<lambda>_. Some c) sha now e st = (Appended l, push_entry l st)"
    using assms by (auto simp: Append_def Let_def split: option.splits)
  then show ?thesis using Link_fields [OF l] by auto
qed

lemma two_outcomes:
  assumes p: "escapeInvalidUTF8 (OutcomePath r ''succeeded'') = p" "escapeInvalidUTF8 (OutcomePath r' ''failed'') = p'"
    and i: "OutcomeRunID (outcome_entry ''aud_2'' r' ''failed'') = Some r'"
      "OutcomeRunID (blank_entry\<lparr>ae_Method := MethodRun, ae_Path := p\<rparr>) = Some q" "q \<noteq> r'"
  shows "\<exists>st. audit_reachable (\<lambda>_. Some ''c'') (\<lambda>_. ''h'') st \<and> map ae_Path (Chain st) = [p, p'] \<and>
    map ae_Method (Chain st) = [MethodRun, MethodRun]"
proof -
  have m: "escapeInvalidUTF8 MethodRun = MethodRun" by code_simp
  have ns: "\<not> IsSpanMarker (outcome_entry i x y)" for i x y
    by (simp add: IsSpanMarker_def outcome_entry_def blank_entry_def SpanMethod_def MethodRun_def)
  have f: "ae_ID (outcome_entry i x y) = i" "ae_Path (outcome_entry i x y) = OutcomePath x y"
    "ae_Method (outcome_entry i x y) = MethodRun" for i x y by (simp_all add: outcome_entry_def)
  let ?A = "\<lambda>e st. snd (Append (\<lambda>_. Some ''c'') (\<lambda>_. ''h'') 9000 e st)"
  let ?e = "outcome_entry ''aud_1'' r ''succeeded''" and ?e' = "outcome_entry ''aud_2'' r' ''failed''"
  obtain l where l: "?A ?e NewAuditStore = push_entry l NewAuditStore" "ae_ID l = ''aud_1''" "ae_Path l = p"
      "ae_Method l = MethodRun"
    using Append_accepted [of ?e NewAuditStore "''c''" "\<lambda>_. ''h''" 9000] ns p(1) by (auto simp: f m NewAuditStore_def outcome_held_def)
  have "OutcomeRunID l = Some q" using i(2) l by (simp add: OutcomeRunID_iff)
  then obtain l' where l': "?A ?e' (push_entry l NewAuditStore) = push_entry l' (push_entry l NewAuditStore)"
      "ae_Path l' = p'" "ae_Method l' = MethodRun"
    using Append_accepted [of ?e' "push_entry l NewAuditStore" "''c''" "\<lambda>_. ''h''" 9000] ns p(2) i l
    by (auto simp: f m NewAuditStore_def outcome_held_def)
  have "audit_reachable (\<lambda>_. Some ''c'') (\<lambda>_. ''h'') (?A ?e' (?A ?e NewAuditStore))"
    by (rule audit_reachable.more [OF audit_reachable.more [OF audit_reachable.new audit_step.append] audit_step.append])
  then show ?thesis using l l' by (intro exI conjI) (auto simp: Chain_def NewAuditStore_def)
qed

theorem one_outcome_per_run_witness:
  "\<exists>st. map ae_Path (Chain st) = [OutcomePath ''run_1'' ''succeeded'', OutcomePath ''run_2'' ''failed''] \<and>
    OutcomeRunID (Chain st ! 0) = Some ''run_1'' \<and> OutcomeRunID (Chain st ! 1) \<noteq> Some ''run_1''"
proof -
  have "escapeInvalidUTF8 (OutcomePath ''run_1'' ''succeeded'') = OutcomePath ''run_1'' ''succeeded''"
    "escapeInvalidUTF8 (OutcomePath ''run_2'' ''failed'') = OutcomePath ''run_2'' ''failed''"
    "OutcomeRunID (outcome_entry ''aud_2'' ''run_2'' ''failed'') = Some ''run_2''"
    "OutcomeRunID (blank_entry\<lparr>ae_Method := MethodRun, ae_Path := OutcomePath ''run_1'' ''succeeded''\<rparr>) = Some ''run_1''"
    by code_simp+
  from two_outcomes [OF this] obtain st where st: "audit_reachable (\<lambda>_. Some ''c'') (\<lambda>_. ''h'') st"
      "map ae_Path (Chain st) = [OutcomePath ''run_1'' ''succeeded'', OutcomePath ''run_2'' ''failed'']"
      "map ae_Method (Chain st) = [MethodRun, MethodRun]" by auto
  then have l: "length (Chain st) = 2" by (metis One_nat_def Suc_1 length_map list.size(3,4) Suc_eq_plus1 add_0)
  have "OutcomeRunID (outcome_entry ''aud_1'' ''run_1'' ''succeeded'') = Some ''run_1''" by code_simp
  then have o: "OutcomeRunID (Chain st ! 0) = Some ''run_1''"
    using st l arg_cong [OF st(2), of hd] arg_cong [OF st(3), of hd]
    by (cases "Chain st") (auto simp: OutcomeRunID_iff outcome_entry_def)
  have "ValidString ''run_1'' \<and> CHR ''%'' \<notin> set ''run_1''" by code_simp
  then show ?thesis
    using one_outcome_per_run [OF st(1), of 0 1 "''run_1''"] st(2) o l by (intro exI [of _ st]) simp
qed

text \<open>The check compares the id as it came in with the ids of stored, escaped paths, so an id that
  escaping changes is recorded as often as it is sent.\<close>

lemma escaped_id_records_two_outcomes:
  "\<exists>st. audit_reachable (\<lambda>_. Some ''c'') (\<lambda>_. ''h'') st \<and>
    map ae_Path (Chain st) = [escapeInvalidUTF8 (OutcomePath ''50%'' ''succeeded''), escapeInvalidUTF8 (OutcomePath ''50%'' ''failed'')]"
proof -
  have "OutcomeRunID (outcome_entry ''aud_2'' ''50%'' ''failed'') = Some ''50%''"
    "OutcomeRunID (blank_entry\<lparr>ae_Method := MethodRun, ae_Path := escapeInvalidUTF8 (OutcomePath ''50%'' ''succeeded'')\<rparr>) = Some ''50%25''"
    by code_simp+
  from two_outcomes [OF refl refl this] show ?thesis by auto
qed

end
