(* ===== verification/Audit_Tree.thy ===== *)
theory Audit_Tree
  imports Audit_Store
begin

text \<open>
  The Merkle tree over the chain and the check of a chain against its anchors
  (\<open>internal/audit/tree.go\<close>, \<open>treefold.go\<close>, \<open>scan.go\<close>, \<open>anchorcheck.go\<close>, \<open>installwidth.go\<close>): leaves,
  the incremental tree kept as perfect subtrees, the streaming scanner, and its verdicts. The
  hash functions of the package \<open>merkle\<close> are parameters.
\<close>

section \<open>Install names\<close>

definition PublicKeySize :: nat where "PublicKeySize = 32"

definition LegacyInstallIDFromKey :: "string \<Rightarrow> string" where
  "LegacyInstallIDFromKey pub =
     (if length pub \<noteq> PublicKeySize then [] else ''in_'' @ EncodeToString (take 6 pub))"

definition InstallIDFromKey :: "(string \<Rightarrow> string) \<Rightarrow> string \<Rightarrow> string" where
  "InstallIDFromKey sha pub =
     (if length pub \<noteq> PublicKeySize then [] else ''in_'' @ EncodeToString (take 16 (sha pub)))"

text \<open>A producer identity; no key is \<^const>\<open>None\<close>.\<close>

record identity =
  id_InstallID :: string
  id_public :: "string option"

record install_names =
  in_declared :: string
  in_alias :: string

definition producerNames :: "(string \<Rightarrow> string) \<Rightarrow> string \<Rightarrow> string \<Rightarrow> install_names" where
  "producerNames sha pub declared =
     (if declared = [] then \<lparr>in_declared = declared, in_alias = []\<rparr>
      else
        let wide = InstallIDFromKey sha pub; narrow = LegacyInstallIDFromKey pub
        in if declared = wide then \<lparr>in_declared = declared, in_alias = narrow\<rparr>
           else if declared = narrow then \<lparr>in_declared = declared, in_alias = wide\<rparr>
           else \<lparr>in_declared = declared, in_alias = []\<rparr>)"

definition names_match :: "install_names \<Rightarrow> string \<Rightarrow> bool" where
  "names_match n i = (if in_declared n = [] then False else i = in_declared n \<or> (in_alias n \<noteq> [] \<and> i = in_alias n))"

definition installNamesOf :: "(string \<Rightarrow> string) \<Rightarrow> identity \<Rightarrow> install_names" where
  "installNamesOf sha i =
     (case id_public i of
        None \<Rightarrow> \<lparr>in_declared = id_InstallID i, in_alias = []\<rparr>
      | Some pub \<Rightarrow> producerNames sha pub (id_InstallID i))"

section \<open>Leaves\<close>

definition ClaimType :: string where "ClaimType = ''switchtender.audit/1''"
definition SpanClaimType :: string where "SpanClaimType = ''loomseal.span/1''"
definition TreeProfile :: string where "TreeProfile = ''loomseal-merkle-v1''"

record bundle_claim =
  bc_Type :: string
  bc_At :: string
  bc_Payload :: "(string \<times> json) list"

definition claimContent :: "entry \<Rightarrow> bundle_claim" where
  "claimContent e =
     (let payload = [(''actor'', JStr (ae_Actor e)), (''method'', JStr (ae_Method e)), (''path'', JStr (ae_Path e))] @
            optional_members [(''actor_type'', ae_ActorType e), (''on_behalf_of'', ae_OnBehalfOf e),
              (''content_digest'', ae_ContentDigest e), (''install_id'', ae_InstallID e)];
          claim = \<lparr>bc_Type = ClaimType, bc_At = RFC3339Nano (ae_At e), bc_Payload = payload\<rparr>
      in if ae_Actor e = SpanActor \<and> ae_Method e = SpanMethod then
           (case ParseSpanPath (ae_Path e) of
              Some (beat, cnt, cadenceS) \<Rightarrow>
                claim\<lparr>bc_Type := SpanClaimType, bc_Payload := payload @
                  [(''stream'', JStr ''chain''), (''cadence_s'', JInt cadenceS), (''beat'', JInt beat), (''count'', JInt cnt)]\<rparr>
            | None \<Rightarrow> claim)
         else claim)"

text \<open>The package's functions: the hex digest, the leaf, node and root hashes.\<close>

record merkle =
  Sum256Hex :: "string \<Rightarrow> string"
  MLeafHash :: "string \<Rightarrow> string"
  NodeHash :: "string \<Rightarrow> string \<Rightarrow> string"
  Root :: "string list \<Rightarrow> string"

definition treeLeafEnvelope :: "serializer \<Rightarrow> merkle \<Rightarrow> (string \<times> json) list \<Rightarrow> string \<Rightarrow> string option" where
  "treeLeafEnvelope ser mk content installID =
     (case ser (JObj content) of
        None \<Rightarrow> None
      | Some canonical \<Rightarrow>
          ser (JObj [(''domain'', JStr TreeProfile), (''install_id'', JStr installID),
            (''claim'', JStr (''sha256:'' @ Sum256Hex mk canonical))]))"

definition treeLeaf :: "serializer \<Rightarrow> merkle \<Rightarrow> bundle_claim \<Rightarrow> string \<Rightarrow> string option" where
  "treeLeaf ser mk claim installID =
     treeLeafEnvelope ser mk [(''type'', JStr (bc_Type claim)), (''at'', JStr (bc_At claim)),
       (''payload'', JObj (bc_Payload claim))] installID"

definition entryLeaf :: "serializer \<Rightarrow> merkle \<Rightarrow> string \<Rightarrow> entry \<Rightarrow> string option" where
  "entryLeaf ser mk installID e = treeLeaf ser mk (claimContent e) installID"

fun treeLeaves :: "serializer \<Rightarrow> merkle \<Rightarrow> entry list \<Rightarrow> string \<Rightarrow> string list option" where
  "treeLeaves ser mk [] installID = Some []"
| "treeLeaves ser mk (e # es) installID =
     (case entryLeaf ser mk installID e of
        None \<Rightarrow> None
      | Some leaf \<Rightarrow> map_option (Cons leaf) (treeLeaves ser mk es installID))"

definition LeafHash :: "serializer \<Rightarrow> merkle \<Rightarrow> entry option \<Rightarrow> string \<Rightarrow> string option" where
  "LeafHash ser mk e installID =
     (case e of None \<Rightarrow> None | Some e \<Rightarrow> map_option (MLeafHash mk) (entryLeaf ser mk installID e))"

definition TreeHead :: "serializer \<Rightarrow> merkle \<Rightarrow> entry list \<Rightarrow> string \<Rightarrow> (int \<times> string) option" where
  "TreeHead ser mk entries installID =
     (if entries = [] then None
      else map_option (\<lambda>leaves. (int (length leaves), EncodeToString (Root mk leaves)))
        (treeLeaves ser mk entries installID))"

section \<open>The incremental tree\<close>

type_synonym forest = "string option list"

text \<open>The carry of the first free level; the loop's index is the position in the list.\<close>

fun push :: "merkle \<Rightarrow> forest \<Rightarrow> string \<Rightarrow> forest" where
  "push mk [] h = [Some h]"
| "push mk (None # f) h = Some h # f"
| "push mk (Some sub # f) h = None # push mk f (NodeHash mk sub h)"

fun fold_root :: "merkle \<Rightarrow> string option \<Rightarrow> forest \<Rightarrow> string option" where
  "fold_root mk acc [] = acc"
| "fold_root mk acc (None # f) = fold_root mk acc f"
| "fold_root mk acc (Some sub # f) =
     fold_root mk (case acc of None \<Rightarrow> Some sub | Some r \<Rightarrow> Some (NodeHash mk sub r)) f"

definition tree_root :: "merkle \<Rightarrow> forest \<Rightarrow> string option" where
  "tree_root mk f = fold_root mk None f"

text \<open>A nil slice encodes to the empty string.\<close>

definition hex_root :: "string option \<Rightarrow> string" where
  "hex_root r = EncodeToString (case r of None \<Rightarrow> [] | Some h \<Rightarrow> h)"

record tree_fold =
  tf_installID :: string
  tf_forest :: forest
  tf_fed :: int
  tf_rootAt :: "int \<rightharpoonup> string"
  tf_err :: bool

definition newTreeFold :: "string \<Rightarrow> tree_fold" where
  "newTreeFold installID =
     \<lparr>tf_installID = installID, tf_forest = [], tf_fed = 0, tf_rootAt = Map.empty, tf_err = False\<rparr>"

definition feed :: "serializer \<Rightarrow> merkle \<Rightarrow> int set \<Rightarrow> entry \<Rightarrow> tree_fold \<Rightarrow> tree_fold" where
  "feed ser mk sizes e f =
     (if tf_err f then f
      else case treeLeaf ser mk (claimContent e) (tf_installID f) of
        None \<Rightarrow> f\<lparr>tf_err := True\<rparr>
      | Some leaf \<Rightarrow>
          let f1 = f\<lparr>tf_forest := push mk (tf_forest f) (MLeafHash mk leaf), tf_fed := tf_fed f + 1\<rparr>
          in if tf_fed f1 \<in> sizes
             then f1\<lparr>tf_rootAt := (tf_rootAt f1)(tf_fed f1 \<mapsto> hex_root (tree_root mk (tf_forest f1)))\<rparr>
             else f1)"

section \<open>The scanner\<close>

record anchor_scanner =
  sc_anchors :: "anchor list"
  sc_installID :: string
  sc_names :: install_names
  sc_alt :: "tree_fold option"
  sc_wanted :: "int set"
  sc_atSeq :: "int \<rightharpoonup> string"
  sc_treeSizes :: "int set"
  sc_rootAt :: "int \<rightharpoonup> string"
  sc_forest :: forest
  sc_fed :: int
  sc_treeErr :: bool
  sc_highest :: int

definition scan_anchor :: "anchor \<Rightarrow> anchor_scanner \<Rightarrow> anchor_scanner" where
  "scan_anchor a s =
     (if an_Shape a = AnchorShapeTree then
        let s1 = s\<lparr>sc_treeSizes := insert (an_Seq a) (sc_treeSizes s)\<rparr>; alias = in_alias (sc_names s) in
        if alias \<noteq> [] \<and> sc_alt s1 = None \<and> (an_InstallID a = alias \<or> an_InstallID a = [])
        then s1\<lparr>sc_alt := Some (newTreeFold alias)\<rparr> else s1
      else s\<lparr>sc_wanted := insert (an_Seq a) (sc_wanted s)\<rparr>)"

definition NewAnchorScanner :: "(string \<Rightarrow> string) \<Rightarrow> anchor list \<Rightarrow> identity \<Rightarrow> anchor_scanner" where
  "NewAnchorScanner sha anchors i =
     fold scan_anchor anchors
       \<lparr>sc_anchors = anchors, sc_installID = id_InstallID i, sc_names = installNamesOf sha i,
        sc_alt = None, sc_wanted = {}, sc_atSeq = Map.empty, sc_treeSizes = {}, sc_rootAt = Map.empty,
        sc_forest = [], sc_fed = 0, sc_treeErr = False, sc_highest = 0\<rparr>"

definition altRootAt :: "anchor_scanner \<Rightarrow> anchor \<Rightarrow> string option" where
  "altRootAt s a =
     (case sc_alt s of
        None \<Rightarrow> None
      | Some f \<Rightarrow>
          if in_alias (sc_names s) = [] \<or> tf_err f then None
          else if an_InstallID a \<noteq> [] \<and> an_InstallID a \<noteq> in_alias (sc_names s) then None
          else tf_rootAt f (an_Seq a))"

fun pushLeaf :: "merkle \<Rightarrow> forest \<Rightarrow> string \<Rightarrow> forest" where
  "pushLeaf mk [] h = [Some h]"
| "pushLeaf mk (None # f) h = Some h # f"
| "pushLeaf mk (Some sub # f) h = None # pushLeaf mk f (NodeHash mk sub h)"

definition forestRoot :: "merkle \<Rightarrow> forest \<Rightarrow> string option" where
  "forestRoot mk f = fold_root mk None f"

definition AnchorFeed :: "serializer \<Rightarrow> merkle \<Rightarrow> entry option \<Rightarrow> anchor_scanner \<Rightarrow> anchor_scanner" where
  "AnchorFeed ser mk fed s =
     (case fed of
        None \<Rightarrow> s
      | Some e \<Rightarrow>
          let s1 = (if ae_Seq e > sc_highest s then s\<lparr>sc_highest := ae_Seq e\<rparr> else s);
              s2 = (if ae_Seq e \<in> sc_wanted s1 then s1\<lparr>sc_atSeq := (sc_atSeq s1)(ae_Seq e \<mapsto> ae_Hash e)\<rparr> else s1);
              s3 = (case sc_alt s2 of
                      None \<Rightarrow> s2
                    | Some f \<Rightarrow> s2\<lparr>sc_alt := Some (feed ser mk (sc_treeSizes s2) e f)\<rparr>)
          in if sc_treeSizes s3 = {} \<or> sc_treeErr s3 \<or> sc_installID s3 = [] then s3
             else case treeLeaf ser mk (claimContent e) (sc_installID s3) of
               None \<Rightarrow> s3\<lparr>sc_treeErr := True\<rparr>
             | Some leaf \<Rightarrow>
                 let s4 = s3\<lparr>sc_forest := pushLeaf mk (sc_forest s3) (MLeafHash mk leaf), sc_fed := sc_fed s3 + 1\<rparr>
                 in if sc_fed s4 \<in> sc_treeSizes s4
                    then s4\<lparr>sc_rootAt := (sc_rootAt s4)(sc_fed s4 \<mapsto> hex_root (forestRoot mk (sc_forest s4)))\<rparr>
                    else s4)"

section \<open>Verdicts\<close>

text \<open>The problems, with the values each message names.\<close>

datatype anchor_problem =
    EndsBefore int int int | NoEntry int | LinkRewritten int string string | NoIdentity | Unhashable
  | TreeEndsBefore int int int | NoRoot int | RootRewrittenUnderAlias int string string
  | OtherInstall string string | RootRewritten int string string | UnknownShape string

text \<open>A verdict with no problem is a reached anchor.\<close>

type_synonym anchor_check = "anchor \<times> anchor_problem option"

definition linearVerdict :: "anchor_scanner \<Rightarrow> anchor \<Rightarrow> anchor_check" where
  "linearVerdict s a =
     (a, case sc_atSeq s (an_Seq a) of
           None \<Rightarrow>
             if an_Seq a > sc_highest s
             then Some (EndsBefore (sc_highest s) (an_Seq a) (an_Seq a - sc_highest s))
             else Some (NoEntry (an_Seq a))
         | Some link \<Rightarrow>
             if link \<noteq> an_Link a then Some (LinkRewritten (an_Seq a) link (an_Link a)) else None)"

definition disagreeingTreeVerdict :: "anchor_scanner \<Rightarrow> anchor \<Rightarrow> string \<Rightarrow> anchor_check" where
  "disagreeingTreeVerdict s a root =
     (a, case altRootAt s a of
           Some alt \<Rightarrow>
             if alt = an_Link a then None else Some (RootRewrittenUnderAlias (an_Seq a) alt (an_Link a))
         | None \<Rightarrow>
             if an_InstallID a \<noteq> [] \<and> an_InstallID a \<noteq> sc_installID s
             then Some (OtherInstall (an_InstallID a) (sc_installID s))
             else Some (RootRewritten (an_Seq a) root (an_Link a)))"

definition treeVerdict :: "anchor_scanner \<Rightarrow> anchor \<Rightarrow> anchor_check" where
  "treeVerdict s a =
     (if sc_installID s = [] then (a, Some NoIdentity)
      else if sc_treeErr s then (a, Some Unhashable)
      else case sc_rootAt s (an_Seq a) of
        None \<Rightarrow>
          if an_Seq a > sc_fed s
          then (a, Some (TreeEndsBefore (sc_fed s) (an_Seq a) (an_Seq a - sc_fed s)))
          else (a, Some (NoRoot (an_Seq a)))
      | Some root \<Rightarrow> if root = an_Link a then (a, None) else disagreeingTreeVerdict s a root)"

definition anchor_verdict :: "anchor_scanner \<Rightarrow> anchor \<Rightarrow> anchor_check" where
  "anchor_verdict s a =
     (if an_Shape a = AnchorShapeTree then treeVerdict s a
      else if an_Shape a = AnchorShapeLinear then linearVerdict s a
      else (a, Some (UnknownShape (an_Shape a))))"

definition anchorVerdicts :: "anchor_scanner \<Rightarrow> bool \<times> anchor_check list" where
  "anchorVerdicts s =
     (let results = map (anchor_verdict s) (sc_anchors s)
      in (list_all (\<lambda>r. snd r = None) results, results))"

definition CheckAnchors :: "serializer \<Rightarrow> (string \<Rightarrow> string) \<Rightarrow> merkle \<Rightarrow> entry option list \<Rightarrow> anchor list \<Rightarrow>
    identity \<Rightarrow> bool \<times> anchor_check list" where
  "CheckAnchors ser sha mk entries anchors i =
     anchorVerdicts (fold (AnchorFeed ser mk) entries (NewAnchorScanner sha anchors i))"

section \<open>Anchor times\<close>

definition AnchorClockSkew :: duration where "AnchorClockSkew = 5 * Minute"

text \<open>The time a timestamp token proves is a parameter; the errors are the failed proof and
  \<open>ErrAnchorBeforeEntry\<close>.\<close>

datatype anchor_time_error = BadProof | ErrAnchorBeforeEntry gotime int gotime

definition CheckAnchorTime :: "(string \<Rightarrow> string \<Rightarrow> gotime option) \<Rightarrow> anchor option \<Rightarrow> gotime \<Rightarrow> anchor_time_error option" where
  "CheckAnchorTime prooftime a0 entryAt =
     (case a0 of
        None \<Rightarrow> None
      | Some a \<Rightarrow>
          if an_Type a \<noteq> AnchorRFC3161 \<or> an_Proof a = [] \<or> IsZero entryAt then None
          else case prooftime (an_Link a) (an_Proof a) of
            None \<Rightarrow> Some BadProof
          | Some genTime \<Rightarrow>
              if IsZero genTime \<or> \<not> genTime < entryAt - AnchorClockSkew then None
              else Some (ErrAnchorBeforeEntry genTime (an_Seq a) entryAt))"

end
