(* ===== verification/Audit_Tamper.thy ===== *)
theory Audit_Tamper
  imports Audit_Props
begin

text \<open>
  Tamper evidence: the hash of the newest entry commits to the whole history before it. Two
  chains that verify and end in the same hash agree on every committed field of every entry, or
  they exhibit two different canonical forms with one hash.
\<close>

section \<open>What an entry commits to\<close>

definition member_text :: "(string \<times> json) list \<Rightarrow> string \<Rightarrow> string" where
  "member_text obj k = (case map_of obj k of Some (JStr v) \<Rightarrow> v | _ \<Rightarrow> [])"

text \<open>The fields of an entry a link commits to; the id, the nonce and the hash itself are not.\<close>

definition committed :: "entry \<Rightarrow> int \<times> string list" where
  "committed e = (ae_Seq e, [RFC3339Nano (ae_At e), ae_Actor e, ae_Method e, ae_Path e, ae_PrevHash e,
     ae_ActorType e, ae_OnBehalfOf e, ae_ContentDigest e, ae_InstallID e])"

lemma member_text_claim:
  "map (member_text (claimObject sq at actor method path prev actorType onBehalfOf contentDigest installID))
     [''at'', ''actor'', ''method'', ''path'', ''prev'', ''actor_type'', ''on_behalf_of'', ''content_digest'', ''install_id''] =
   [at, actor, method, path, prev, actorType, onBehalfOf, contentDigest, installID]"
  by (simp add: claimObject_def optional_members_def member_text_def)

lemma committed_claim: "entryClaim e = entryClaim e' \<Longrightarrow> committed e = committed e'"
proof -
  assume eq: "entryClaim e = entryClaim e'"
  have "snd (committed e) = snd (committed e')"
    using arg_cong [OF eq, of "\<lambda>obj. map (member_text obj) [''at'', ''actor'', ''method'', ''path'', ''prev'',
      ''actor_type'', ''on_behalf_of'', ''content_digest'', ''install_id'']"]
    unfolding entryClaim_def member_text_claim by (simp add: committed_def)
  moreover have "ae_Seq e = ae_Seq e'"
    using arg_cong [OF eq, of "\<lambda>obj. map_of obj ''seq''"] by (simp add: entryClaim_def claimObject_def)
  ultimately show ?thesis by (simp add: committed_def)
qed

section \<open>Hashes\<close>

lemma hex_lower_inj: "m < 16 \<Longrightarrow> n < 16 \<Longrightarrow> hex_digit hex_lower m = hex_digit hex_lower n \<Longrightarrow> m = n"
proof -
  have "\<forall>m\<in>set [0..<16]. \<forall>n\<in>set [0..<16]. hex_digit hex_lower m = hex_digit hex_lower n \<longrightarrow> m = n"
    by code_simp
  then show "m < 16 \<Longrightarrow> n < 16 \<Longrightarrow> hex_digit hex_lower m = hex_digit hex_lower n \<Longrightarrow> m = n" by simp
qed

lemma hex_byte_inj: "hex_byte hex_lower a = hex_byte hex_lower b \<Longrightarrow> a = b"
proof -
  assume "hex_byte hex_lower a = hex_byte hex_lower b"
  then have "of_char a div 16 = (of_char b div 16 :: nat)" "of_char a mod 16 = (of_char b mod 16 :: nat)"
    using hex_lower_inj of_char_bounds by (simp_all add: hex_byte_def)
  then have "of_char a = (of_char b :: nat)" by (metis div_mult_mod_eq)
  then show "a = b" by simp
qed

lemma EncodeToString_inj: "EncodeToString s = EncodeToString t \<Longrightarrow> s = t"
proof (induction s arbitrary: t)
  case Nil
  then show ?case by (metis EncodeToString_empty_iff)
next
  case (Cons a s)
  then obtain b u where "t = b # u" by (cases t) (auto simp: EncodeToString_def hex_byte_def)
  then show ?case
    using Cons hex_byte_inj [of a b] by (auto simp: EncodeToString_def hex_byte_def)
qed

definition collide :: "serializer \<Rightarrow> (string \<Rightarrow> string) \<Rightarrow> entry \<Rightarrow> entry \<Rightarrow> bool" where
  "collide ser sha e e' \<longleftrightarrow> (case (ser (JObj (entryClaim e)), ser (JObj (entryClaim e'))) of
     (Some c, Some c') \<Rightarrow> c \<noteq> c' \<and> sha c = sha c' | _ \<Rightarrow> False)"

text \<open>The serialiser gives different claims different canonical forms.\<close>

definition canonical :: "serializer \<Rightarrow> bool" where
  "canonical ser \<longleftrightarrow> (\<forall>e e' c. ser (JObj (entryClaim e)) = Some c \<and> ser (JObj (entryClaim e')) = Some c \<longrightarrow>
     entryClaim e = entryClaim e')"

lemma same_hash:
  assumes "sound ser sha e" "sound ser sha e'" "ae_Hash e = ae_Hash e'" "canonical ser"
  shows "collide ser sha e e' \<or> entryClaim e = entryClaim e'"
proof -
  obtain c c' where c: "ser (JObj (entryClaim e)) = Some c" "ae_Hash e = EncodeToString (sha c)"
      "ser (JObj (entryClaim e')) = Some c'" "ae_Hash e' = EncodeToString (sha c')"
    using assms(1,2) by (auto simp: sound_def checkedEntryHash_def checkedLinkOf_def)
  then have "sha c = sha c'" using EncodeToString_inj assms(3) by simp
  then show ?thesis using c(1,3) assms(4) unfolding canonical_def collide_def by (cases "c = c'") auto
qed

section \<open>Chains\<close>

lemma intact_last:
  "intact ser sha g prev (map Some (es @ [e])) \<longleftrightarrow> intact ser sha g prev (map Some es) \<and> sound ser sha e \<and>
     follows g (if es = [] then prev else Some (last es)) e"
  by (simp add: intact_append last_map)

lemma intact_history:
  assumes "canonical ser" and "intact ser sha True None (map Some es)" and "intact ser sha True None (map Some es')"
    and "es \<noteq> []" and "es' \<noteq> []" and "ae_Hash (last es) = ae_Hash (last es')"
  shows "map committed es = map committed es' \<or> (\<exists>e\<in>set es. \<exists>e'\<in>set es'. collide ser sha e e')"
  using assms(2-6)
proof (induction es arbitrary: es' rule: rev_induct)
  case (snoc e es)
  obtain fs e' where es': "es' = fs @ [e']" using snoc.prems(4) by (cases es' rule: rev_cases) auto
  note i = snoc.prems(1) [unfolded intact_last] and i' = snoc.prems(2) [unfolded es' intact_last]
  show ?case
  proof (cases "collide ser sha e e'")
    case False
    then have eq: "entryClaim e = entryClaim e'"
      using same_hash [of ser sha e e'] i i' snoc.prems(5) assms(1) es' by auto
    then have c: "committed e = committed e'" by (rule committed_claim)
    then have f: "ae_Seq e = ae_Seq e'" "ae_PrevHash e = ae_PrevHash e'" by (simp_all add: committed_def)
    have seq: "1 \<le> ae_Seq (last xs)" if "xs \<noteq> []" "intact ser sha True None (map Some xs)" for xs
      using that by (cases xs rule: rev_cases) (auto simp: intact_append sound_def)
    have "es = [] \<longleftrightarrow> fs = []"
      using i i' f seq [of es] seq [of fs] by (auto simp: follows_def split: if_splits)
    moreover have "ae_Hash (last es) = ae_Hash (last fs)" if "es \<noteq> []" "fs \<noteq> []"
      using i i' f that by (simp add: follows_def)
    ultimately show ?thesis using snoc.IH [of fs] i i' c es' by (cases "es = []") auto
  qed (auto simp: es')
qed simp

text \<open>C32. The newest hash commits to the whole history. When two chains verify and end in entries
  with the same hash, then they have the same length and agree at every position on everything
  a link commits to - sequence number, recorded time, actor, actor type, principal, method,
  path, content digest, install and previous hash - or two of their entries have different
  canonical forms with the same hash, a collision anyone can point at. Editing, dropping,
  inserting or reordering entries under a published head therefore shows.\<close>

theorem head_hash_commits_history:
  assumes "canonical ser" and "Verify ser sha (map Some es) = (True, 0)"
    and "Verify ser sha (map Some es') = (True, 0)"
    and "es \<noteq> []" and "es' \<noteq> []" and "ae_Hash (last es) = ae_Hash (last es')"
  shows "map committed es = map committed es' \<or> (\<exists>e\<in>set es. \<exists>e'\<in>set es'. collide ser sha e e')"
  using intact_history [OF assms(1)] assms(2-6) Verify_intact by blast

text \<open>A serialiser that is canonical: texts with each character marked and an end sign.\<close>

definition mark :: "string \<Rightarrow> string" where
  "mark s = concat (map (\<lambda>c. [CHR ''x'', c]) s) @ ''.''"

fun mark_member :: "string \<times> json \<Rightarrow> string" where
  "mark_member (k, JStr v) = mark k @ ''s'' @ mark v"
| "mark_member (k, JInt i) = mark k @ ''i'' @ mark (FormatInt i)"
| "mark_member (k, JObj _) = mark k @ ''o''"

fun mark_claim :: "json \<Rightarrow> string option" where
  "mark_claim (JObj ms) = Some (concat (map (\<lambda>m. CHR '','' # mark_member m) ms))"
| "mark_claim _ = None"

lemma mark_cancel: "mark s @ r = mark t @ q \<Longrightarrow> s = t \<and> r = q"
proof (induction s arbitrary: t)
  case Nil
  then show ?case by (cases t) (auto simp: mark_def)
next
  case (Cons a s)
  then show ?case by (cases t) (auto simp: mark_def)
qed

fun flat :: "string \<times> json \<Rightarrow> bool" where
  "flat (k, JObj _) = False"
| "flat _ = True"

lemma mark_member_cancel:
  assumes "flat m" "flat n" and eq: "mark_member m @ r = mark_member n @ q"
  shows "m = n \<and> r = q"
proof -
  obtain k v where m: "m = (k, v)" by (cases m)
  obtain k' v' where n: "n = (k', v')" by (cases n)
  have tail: "mark k @ x = mark k' @ y \<Longrightarrow> k = k' \<and> x = y" for x y by (rule mark_cancel)
  consider a b where "v = JStr a" "v' = JStr b" | a j where "v = JStr a" "v' = JInt j"
    | i b where "v = JInt i" "v' = JStr b" | i j where "v = JInt i" "v' = JInt j"
    using assms(1,2) m n by (cases v; cases v') auto
  then show ?thesis
  proof cases
    case 1
    then show ?thesis using eq tail mark_cancel [of a r b q] by (auto simp: m n)
  next
    case 4
    then show ?thesis
      using eq tail mark_cancel [of "FormatInt i" r "FormatInt j" q] FormatInt_inj by (auto simp: m n)
  qed (use eq tail in \<open>auto simp: m n\<close>)
qed

lemma mark_members_inj:
  "list_all flat ms \<Longrightarrow> list_all flat ns \<Longrightarrow>
     concat (map (\<lambda>m. CHR '','' # mark_member m) ms) = concat (map (\<lambda>m. CHR '','' # mark_member m) ns) \<Longrightarrow> ms = ns"
proof (induction ms arbitrary: ns)
  case Nil
  then show ?case by (cases ns) auto
next
  case step: (Cons m ms)
  show ?case
  proof (cases ns)
    case (Cons n ns')
    have "mark_member m @ concat (map (\<lambda>m. CHR '','' # mark_member m) ms) =
        mark_member n @ concat (map (\<lambda>m. CHR '','' # mark_member m) ns')"
      using step.prems(3) Cons by simp
    from mark_member_cancel [OF _ _ this] step.prems step.IH [of ns'] Cons show ?thesis by simp
  qed (use step.prems in simp)
qed

lemma canonical_mark_claim: "canonical mark_claim"
proof -
  have "list_all flat (entryClaim e)" for e
    by (auto simp: entryClaim_def claimObject_def optional_members_def)
  then show ?thesis using mark_members_inj unfolding canonical_def by auto
qed

theorem head_hash_commits_history_witness:
  "\<exists>l. Link mark_claim (\<lambda>x. CHR ''h'' # x) None blank_entry = Some l \<and>
     map committed [l] = map committed [l\<lparr>ae_ID := ''aud_2''\<rparr>]"
proof -
  let ?sha = "\<lambda>x. CHR ''h'' # x"
  obtain l where l: "Link mark_claim ?sha None blank_entry = Some l"
    by (simp add: Link_def Let_def EntryHash_def checkedLinkOf_def)
  have c: "entryClaim (l\<lparr>ae_ID := ''aud_2''\<rparr>) = entryClaim l" by (simp add: entryClaim_def)
  have s: "sound mark_claim ?sha l \<and> follows True None l" by (rule Link_sound [OF l]) simp_all
  then have "sound mark_claim ?sha (l\<lparr>ae_ID := ''aud_2''\<rparr>) \<and> follows True None (l\<lparr>ae_ID := ''aud_2''\<rparr>)"
    by (simp add: sound_def follows_def checkedEntryHash_def c)
  then have v: "Verify mark_claim ?sha (map Some [l]) = (True, 0)"
    "Verify mark_claim ?sha (map Some [l\<lparr>ae_ID := ''aud_2''\<rparr>]) = (True, 0)"
    using s by (simp_all add: Verify_intact)
  have "\<not> collide mark_claim ?sha x y" for x y by (simp add: collide_def)
  then show ?thesis
    using head_hash_commits_history [OF canonical_mark_claim v] l by simp
qed

end
