(* ===== verification/Audit_Anchors.thy ===== *)
theory Audit_Anchors
  imports Audit_Tree Audit_Tamper
begin

text \<open>
  The incremental tree is the RFC 6962 tree: the root a scan captures at a size is the root
  \<open>TreeHead\<close> gives for that prefix. A chain that passes its anchors holds what the anchors were
  taken over.
\<close>

section \<open>The tree hash\<close>

text \<open>RFC 6962, section 2.1: a tree of one leaf is its leaf hash; a larger one splits at the largest
  power of two smaller than its size.\<close>

locale rfc6962 =
  fixes mk :: merkle
  assumes root_leaf: "Root mk [l] = MLeafHash mk l"
    and root_split: "2 ^ k < length ls \<Longrightarrow> length ls \<le> 2 ^ Suc k \<Longrightarrow>
      Root mk ls = NodeHash mk (Root mk (take (2 ^ k) ls)) (Root mk (drop (2 ^ k) ls))"
begin

text \<open>A forest from level \<open>k\<close> up stands for a sequence of leaves: a subtree of \<open>2 ^ k\<close> of them at
  every level that holds one, the smallest level last.\<close>

inductive stands_for :: "nat \<Rightarrow> forest \<Rightarrow> string list \<Rightarrow> bool" where
  empty: "stands_for k [] []"
| gap: "stands_for (Suc k) f xs \<Longrightarrow> stands_for k (None # f) xs"
| tree: "stands_for (Suc k) f xs \<Longrightarrow> length ys = 2 ^ k \<Longrightarrow> stands_for k (Some (Root mk ys) # f) (xs @ ys)"

inductive_cases stands_for_ConsE: "stands_for k (t # f) xs"

lemma root_append:
  assumes "length ys = 2 ^ k" and "zs \<noteq> []" and "length zs \<le> 2 ^ k"
  shows "NodeHash mk (Root mk ys) (Root mk zs) = Root mk (ys @ zs)"
  using root_split [of k "ys @ zs"] assms by (cases zs) auto

lemma push_stands_for:
  "stands_for k f xs \<Longrightarrow> length ys = 2 ^ k \<Longrightarrow> stands_for k (push mk f (Root mk ys)) (xs @ ys)"
proof (induction arbitrary: ys rule: stands_for.induct)
  case (empty k)
  then show ?case using stands_for.tree [OF stands_for.empty] by simp
next
  case (gap k f xs)
  then show ?case using stands_for.tree by simp
next
  case (tree k f xs zs)
  have "NodeHash mk (Root mk zs) (Root mk ys) = Root mk (zs @ ys)"
    using root_append tree by (cases ys) auto
  then show ?case using tree stands_for.gap tree.IH [of "zs @ ys"] by simp
qed

lemma fold_root_stands_for:
  "stands_for k f xs \<Longrightarrow> zs \<noteq> [] \<Longrightarrow> length zs \<le> 2 ^ k \<Longrightarrow>
     fold_root mk (Some (Root mk zs)) f = Some (Root mk (xs @ zs))"
proof (induction arbitrary: zs rule: stands_for.induct)
  case (tree k f xs ys)
  then show ?case using root_append [of ys k zs] tree.IH [of "ys @ zs"] by simp
qed auto

lemma tree_root_stands_for: "stands_for k f xs \<Longrightarrow> xs \<noteq> [] \<Longrightarrow> tree_root mk f = Some (Root mk xs)"
  unfolding tree_root_def
proof (induction rule: stands_for.induct)
  case (tree k f xs ys)
  then show ?case using fold_root_stands_for [of "Suc k" f xs ys] by (cases ys) auto
qed auto

lemma leaf_stands_for: "stands_for 0 f xs \<Longrightarrow> stands_for 0 (push mk f (MLeafHash mk l)) (xs @ [l])"
  using push_stands_for [of 0 f xs "[l]"] by (simp add: root_leaf)

end

section \<open>Folding a chain\<close>

lemma treeLeaves_snoc:
  "treeLeaves ser mk (es @ [e]) i =
     (case treeLeaves ser mk es i of
        None \<Rightarrow> None
      | Some ls \<Rightarrow> map_option (\<lambda>l. ls @ [l]) (treeLeaf ser mk (claimContent e) i))"
  by (induction es) (auto simp: entryLeaf_def option.map_comp comp_def split: option.splits)

lemma treeLeaves_length: "treeLeaves ser mk es i = Some ls \<Longrightarrow> length ls = length es"
  by (induction es arbitrary: ls) (auto split: option.splits)

lemma treeLeaves_take:
  "treeLeaves ser mk es i = Some ls \<Longrightarrow> treeLeaves ser mk (take n es) i = Some (take n ls)"
proof (induction es arbitrary: ls n)
  case (Cons e es)
  then show ?case by (cases n) (auto split: option.splits)
qed simp

lemma pushLeaf_push: "pushLeaf mk f h = push mk f h"
  by (induction mk f h rule: push.induct) simp_all

text \<open>The part of the scanner that folds the tree under the install's own name.\<close>

definition main_fold :: "anchor_scanner \<Rightarrow> tree_fold" where
  "main_fold s = \<lparr>tf_installID = sc_installID s, tf_forest = sc_forest s, tf_fed = sc_fed s,
     tf_rootAt = sc_rootAt s, tf_err = sc_treeErr s\<rparr>"

lemma AnchorFeed_fields:
  "sc_anchors (AnchorFeed ser mk (Some e) s) = sc_anchors s"
  "sc_installID (AnchorFeed ser mk (Some e) s) = sc_installID s"
  "sc_names (AnchorFeed ser mk (Some e) s) = sc_names s"
  "sc_wanted (AnchorFeed ser mk (Some e) s) = sc_wanted s"
  "sc_treeSizes (AnchorFeed ser mk (Some e) s) = sc_treeSizes s"
  "sc_alt (AnchorFeed ser mk (Some e) s) = map_option (feed ser mk (sc_treeSizes s) e) (sc_alt s)"
  "sc_atSeq (AnchorFeed ser mk (Some e) s) =
     (if ae_Seq e \<in> sc_wanted s then (sc_atSeq s)(ae_Seq e \<mapsto> ae_Hash e) else sc_atSeq s)"
  by (simp_all add: AnchorFeed_def Let_def split: option.splits)

lemma AnchorFeed_main:
  "main_fold (AnchorFeed ser mk (Some e) s) =
     (if sc_treeSizes s = {} \<or> sc_installID s = [] then main_fold s
      else feed ser mk (sc_treeSizes s) e (main_fold s))"
  by (simp add: AnchorFeed_def feed_def main_fold_def Let_def pushLeaf_push forestRoot_def tree_root_def
      split: option.splits)

lemma fold_AnchorFeed:
  "let s' = fold (AnchorFeed ser mk) (map Some es) s
   in sc_anchors s' = sc_anchors s \<and> sc_installID s' = sc_installID s \<and> sc_names s' = sc_names s \<and>
      sc_treeSizes s' = sc_treeSizes s \<and> sc_wanted s' = sc_wanted s \<and>
      sc_alt s' = map_option (fold (feed ser mk (sc_treeSizes s)) es) (sc_alt s) \<and>
      main_fold s' = (if sc_treeSizes s = {} \<or> sc_installID s = [] then main_fold s
        else fold (feed ser mk (sc_treeSizes s)) es (main_fold s))"
proof (induction es arbitrary: s)
  case (Cons e es)
  then show ?case
    unfolding Let_def by (simp add: AnchorFeed_fields AnchorFeed_main option.map_comp comp_def)
qed (simp add: option.map_id)

lemma fold_AnchorFeed_atSeq:
  "sc_atSeq (fold (AnchorFeed ser mk) (map Some es) s) q =
     (if q \<notin> sc_wanted s then sc_atSeq s q
      else case find (\<lambda>e. ae_Seq e = q) (rev es) of Some e \<Rightarrow> Some (ae_Hash e) | None \<Rightarrow> sc_atSeq s q)"
proof (induction es rule: rev_induct)
  case (snoc e es)
  have "sc_wanted (fold (AnchorFeed ser mk) (map Some es) s) = sc_wanted s"
    using fold_AnchorFeed [of ser mk es s] by (simp add: Let_def)
  then show ?case using snoc by (auto simp: AnchorFeed_fields)
qed simp

section \<open>The scanner before the chain\<close>

definition tree_anchor :: "anchor \<Rightarrow> bool" where
  "tree_anchor a \<longleftrightarrow> an_Shape a = AnchorShapeTree"

lemma fold_scan_anchor:
  "let s' = fold scan_anchor as s; alias = in_alias (sc_names s)
   in sc_treeSizes s' = sc_treeSizes s \<union> an_Seq ` {a \<in> set as. tree_anchor a} \<and>
      sc_wanted s' = sc_wanted s \<union> an_Seq ` {a \<in> set as. \<not> tree_anchor a} \<and>
      sc_alt s' = (case sc_alt s of Some f \<Rightarrow> Some f | None \<Rightarrow>
        if alias \<noteq> [] \<and> (\<exists>a\<in>set as. tree_anchor a \<and> (an_InstallID a = alias \<or> an_InstallID a = []))
        then Some (newTreeFold alias) else None) \<and>
      sc_names s' = sc_names s \<and> sc_anchors s' = sc_anchors s \<and> sc_atSeq s' = sc_atSeq s \<and>
      main_fold s' = main_fold s"
proof (induction as arbitrary: s)
  case (Cons a as)
  have "sc_names (scan_anchor a s) = sc_names s" "sc_anchors (scan_anchor a s) = sc_anchors s"
    "sc_atSeq (scan_anchor a s) = sc_atSeq s" "main_fold (scan_anchor a s) = main_fold s"
    "sc_treeSizes (scan_anchor a s) = sc_treeSizes s \<union> an_Seq ` {b. b = a \<and> tree_anchor a}"
    "sc_wanted (scan_anchor a s) = sc_wanted s \<union> an_Seq ` {b. b = a \<and> \<not> tree_anchor a}"
    "sc_alt (scan_anchor a s) = (case sc_alt s of Some f \<Rightarrow> Some f | None \<Rightarrow>
        if in_alias (sc_names s) \<noteq> [] \<and> tree_anchor a \<and> (an_InstallID a = in_alias (sc_names s) \<or> an_InstallID a = [])
        then Some (newTreeFold (in_alias (sc_names s))) else None)"
    by (auto simp: scan_anchor_def Let_def tree_anchor_def main_fold_def split: option.splits)
  note this [simp]
  show ?case
    using Cons [of "scan_anchor a s"] unfolding Let_def by (cases "sc_alt s") auto
qed (simp split: option.splits)

section \<open>What an anchor proves\<close>

definition linear_holds :: "entry list \<Rightarrow> anchor \<Rightarrow> bool" where
  "linear_holds es a \<longleftrightarrow>
     (case find (\<lambda>e. ae_Seq e = an_Seq a) (rev es) of Some e \<Rightarrow> ae_Hash e = an_Link a | None \<Rightarrow> False)"

text \<open>The tree over the prefix the anchor names, under an install name, has the recorded root.\<close>

definition tree_holds :: "serializer \<Rightarrow> merkle \<Rightarrow> entry list \<Rightarrow> string \<Rightarrow> anchor \<Rightarrow> bool" where
  "tree_holds ser mk es i a \<longleftrightarrow> treeLeaves ser mk es i \<noteq> None \<and> 1 \<le> an_Seq a \<and>
     TreeHead ser mk (take (nat (an_Seq a)) es) i = Some (an_Seq a, an_Link a)"

definition anchor_holds :: "serializer \<Rightarrow> (string \<Rightarrow> string) \<Rightarrow> merkle \<Rightarrow> entry list \<Rightarrow> identity \<Rightarrow> anchor \<Rightarrow> bool" where
  "anchor_holds ser sha mk es i a \<longleftrightarrow>
     (an_Shape a = AnchorShapeLinear \<and> linear_holds es a) \<or>
     (an_Shape a = AnchorShapeTree \<and> id_InstallID i \<noteq> [] \<and> treeLeaves ser mk es (id_InstallID i) \<noteq> None \<and>
      (tree_holds ser mk es (id_InstallID i) a \<or>
       (let alias = in_alias (installNamesOf sha i)
        in alias \<noteq> [] \<and> (an_InstallID a = [] \<or> an_InstallID a = alias) \<and> tree_holds ser mk es alias a)))"

context rfc6962
begin

definition captured :: "int set \<Rightarrow> string list \<Rightarrow> int \<Rightarrow> string option" where
  "captured sizes ls q =
     (if 1 \<le> q \<and> q \<le> int (length ls) \<and> q \<in> sizes then Some (EncodeToString (Root mk (take (nat q) ls))) else None)"

lemma captured_snoc:
  "captured sizes (ls @ [l]) = (let n = int (length ls) + 1 in
     if n \<in> sizes then (captured sizes ls)(n \<mapsto> EncodeToString (Root mk (ls @ [l]))) else captured sizes ls)"
proof
  fix q
  show "captured sizes (ls @ [l]) q = (let n = int (length ls) + 1 in
     if n \<in> sizes then (captured sizes ls)(n \<mapsto> EncodeToString (Root mk (ls @ [l]))) else captured sizes ls) q"
  proof (cases "q = int (length ls) + 1")
    case True
    then have "nat q = length (ls @ [l])" by simp
    then show ?thesis using True by (simp add: captured_def Let_def)
  next
    case False
    then have "q \<le> int (length (ls @ [l])) \<longleftrightarrow> q \<le> int (length ls)" by auto
    moreover have "take (nat q) (ls @ [l]) = take (nat q) ls" if "q \<le> int (length ls)" using that by simp
    ultimately show ?thesis using False by (auto simp: captured_def Let_def)
  qed
qed

text \<open>What a fold has captured after any number of entries.\<close>

lemma fold_feed:
  "let f = fold (feed ser mk sizes) es (newTreeFold i)
   in tf_installID f = i \<and>
      (case treeLeaves ser mk es i of
         None \<Rightarrow> tf_err f
       | Some ls \<Rightarrow> \<not> tf_err f \<and> tf_fed f = int (length ls) \<and> stands_for 0 (tf_forest f) ls \<and>
           tf_rootAt f = captured sizes ls)"
proof (induction es rule: rev_induct)
  case Nil
  show ?case by (auto simp: newTreeFold_def captured_def intro: stands_for.empty)
next
  case (snoc e es)
  define f where "f = fold (feed ser mk sizes) es (newTreeFold i)"
  have next_f: "fold (feed ser mk sizes) (es @ [e]) (newTreeFold i) = feed ser mk sizes e f" by (simp add: f_def)
  note IH = snoc [folded f_def, unfolded Let_def]
  show ?case
  proof (cases "treeLeaves ser mk es i")
    case None
    then show ?thesis using IH unfolding next_f by (simp add: treeLeaves_snoc Let_def feed_def)
  next
    case (Some ls)
    then have f: "tf_installID f = i" "\<not> tf_err f" "tf_fed f = int (length ls)" "stands_for 0 (tf_forest f) ls"
        "tf_rootAt f = captured sizes ls"
      using IH by simp_all
    show ?thesis
    proof (cases "treeLeaf ser mk (claimContent e) i")
      case None
      then show ?thesis using f Some unfolding next_f by (simp add: treeLeaves_snoc Let_def feed_def)
    next
      case leaf: (Some l)
      have st: "stands_for 0 (push mk (tf_forest f) (MLeafHash mk l)) (ls @ [l])"
        by (rule leaf_stands_for [OF f(4)])
      then have "tree_root mk (push mk (tf_forest f) (MLeafHash mk l)) = Some (Root mk (ls @ [l]))"
        by (rule tree_root_stands_for) simp
      then show ?thesis
        using f st leaf Some unfolding next_f
        by (simp add: treeLeaves_snoc Let_def feed_def captured_snoc hex_root_def)
    qed
  qed
qed

lemmas fold_feed_facts = fold_feed [unfolded Let_def]

lemma captured_head:
  assumes "treeLeaves ser mk es i = Some ls" and "an_Seq a \<in> sizes"
  shows "captured sizes ls (an_Seq a) = Some (an_Link a) \<longleftrightarrow> tree_holds ser mk es i a"
proof -
  have "treeLeaves ser mk (take (nat (an_Seq a)) es) i = Some (take (nat (an_Seq a)) ls)" "length ls = length es"
    using treeLeaves_take [OF assms(1)] treeLeaves_length [OF assms(1)] by auto
  then show ?thesis
    using assms by (auto simp: captured_def tree_holds_def TreeHead_def)
qed

definition scanned :: "serializer \<Rightarrow> (string \<Rightarrow> string) \<Rightarrow> entry list \<Rightarrow> anchor list \<Rightarrow> identity \<Rightarrow> anchor_scanner" where
  "scanned ser sha es anchors i = fold (AnchorFeed ser mk) (map Some es) (NewAnchorScanner sha anchors i)"

lemma scanned_facts:
  fixes ser sha es anchors i
  defines "s \<equiv> scanned ser sha es anchors i" and "other \<equiv> in_alias (installNamesOf sha i)"
    and "sizes \<equiv> an_Seq ` {a \<in> set anchors. tree_anchor a}"
  shows "sc_anchors s = anchors" "sc_installID s = id_InstallID i" "in_alias (sc_names s) = other"
    "sc_alt s = (if other \<noteq> [] \<and> (\<exists>a\<in>set anchors. tree_anchor a \<and> (an_InstallID a = other \<or> an_InstallID a = []))
       then Some (fold (feed ser mk sizes) es (newTreeFold other)) else None)"
    "sizes \<noteq> {} \<Longrightarrow> id_InstallID i \<noteq> [] \<Longrightarrow>
       main_fold s = fold (feed ser mk sizes) es (newTreeFold (id_InstallID i))"
    "a \<in> set anchors \<Longrightarrow> \<not> tree_anchor a \<Longrightarrow>
       sc_atSeq s (an_Seq a) = map_option ae_Hash (find (\<lambda>e. ae_Seq e = an_Seq a) (rev es))"
proof -
  define s0 where "s0 = NewAnchorScanner sha anchors i"
  define s00 where "s00 = \<lparr>sc_anchors = anchors, sc_installID = id_InstallID i, sc_names = installNamesOf sha i,
        sc_alt = None, sc_wanted = {}, sc_atSeq = Map.empty, sc_treeSizes = {}, sc_rootAt = Map.empty,
        sc_forest = [], sc_fed = 0, sc_treeErr = False, sc_highest = 0\<rparr>"
  have s0: "s0 = fold scan_anchor anchors s00" by (simp add: s0_def s00_def NewAnchorScanner_def)
  note f0 = fold_scan_anchor [of anchors s00, folded s0, unfolded Let_def]
  have s: "s = fold (AnchorFeed ser mk) (map Some es) s0" by (simp add: s_def s0_def scanned_def)
  note f = fold_AnchorFeed [of ser mk es s0, folded s, unfolded Let_def]
  have m: "main_fold s0 = newTreeFold (id_InstallID i)" "sc_names s0 = installNamesOf sha i" "sc_anchors s0 = anchors"
      "sc_treeSizes s0 = sizes" "sc_wanted s0 = an_Seq ` {a \<in> set anchors. \<not> tree_anchor a}" "sc_atSeq s0 = Map.empty"
    using f0 by (simp_all add: s00_def main_fold_def newTreeFold_def sizes_def)
  then have i: "sc_installID s0 = id_InstallID i" by (simp add: main_fold_def newTreeFold_def)
  show "sc_anchors s = anchors" "sc_installID s = id_InstallID i" "in_alias (sc_names s) = other"
    using f m i by (simp_all add: other_def)
  show "sc_alt s = (if other \<noteq> [] \<and> (\<exists>a\<in>set anchors. tree_anchor a \<and> (an_InstallID a = other \<or> an_InstallID a = []))
       then Some (fold (feed ser mk sizes) es (newTreeFold other)) else None)"
    using f f0 m by (simp add: s00_def other_def)
  show "main_fold s = fold (feed ser mk sizes) es (newTreeFold (id_InstallID i))"
    if "sizes \<noteq> {}" "id_InstallID i \<noteq> []" using f m i that by simp
  show "sc_atSeq s (an_Seq a) = map_option ae_Hash (find (\<lambda>e. ae_Seq e = an_Seq a) (rev es))"
    if "a \<in> set anchors" "\<not> tree_anchor a"
    using that fold_AnchorFeed_atSeq [of ser mk es s0 "an_Seq a", folded s] m by (auto split: option.splits)
qed

lemma linear_verdict_iff:
  assumes "a \<in> set anchors" and "\<not> tree_anchor a"
  shows "snd (linearVerdict (scanned ser sha es anchors i) a) = None \<longleftrightarrow> linear_holds es a"
  using scanned_facts(6) [OF assms, where ser = ser and sha = sha and es = es and i = i]
  by (auto simp: linearVerdict_def linear_holds_def split: option.splits)

lemma tree_verdict_iff:
  assumes a: "a \<in> set anchors" "tree_anchor a"
  shows "snd (treeVerdict (scanned ser sha es anchors i) a) = None \<longleftrightarrow> anchor_holds ser sha mk es i a"
proof (cases "id_InstallID i = []")
  case True
  then show ?thesis
    using a scanned_facts(2) [where ser = ser and sha = sha and es = es and anchors = anchors and i = i]
    by (simp add: treeVerdict_def anchor_holds_def tree_anchor_def AnchorShapeTree_def AnchorShapeLinear_def)
next
  case False
  define s and other and sizes where "s = scanned ser sha es anchors i" and "other = in_alias (installNamesOf sha i)"
    and "sizes = an_Seq ` {a \<in> set anchors. tree_anchor a}"
  note sf = scanned_facts [where ser = ser and sha = sha and es = es and anchors = anchors and i = i, folded s_def other_def sizes_def]
  have sz: "an_Seq a \<in> sizes" using a by (auto simp: sizes_def)
  then have mf: "main_fold s = fold (feed ser mk sizes) es (newTreeFold (id_InstallID i))" using sf(5) False by auto
  have shape: "anchor_holds ser sha mk es i a \<longleftrightarrow> treeLeaves ser mk es (id_InstallID i) \<noteq> None \<and>
      (tree_holds ser mk es (id_InstallID i) a \<or>
       other \<noteq> [] \<and> (an_InstallID a = [] \<or> an_InstallID a = other) \<and> tree_holds ser mk es other a)"
    using a False by (simp add: anchor_holds_def tree_anchor_def AnchorShapeTree_def AnchorShapeLinear_def other_def Let_def)
  have alt: "altRootAt s a = Some (an_Link a) \<longleftrightarrow>
      other \<noteq> [] \<and> (an_InstallID a = [] \<or> an_InstallID a = other) \<and> tree_holds ser mk es other a"
  proof (cases "other \<noteq> [] \<and> (an_InstallID a = [] \<or> an_InstallID a = other)")
    case True
    then have "sc_alt s = Some (fold (feed ser mk sizes) es (newTreeFold other))" using sf(4) a by auto
    then show ?thesis
      using fold_feed_facts [where ser = ser and sizes = sizes and es = es and i = other] captured_head [OF _ sz] True sf(3)
      by (cases "treeLeaves ser mk es other") (auto simp: altRootAt_def tree_holds_def)
  qed (use sf(3) in \<open>auto simp: altRootAt_def split: option.splits\<close>)
  note main = fold_feed_facts [where ser = ser and sizes = sizes and es = es and i = "id_InstallID i", folded mf]
  show ?thesis
  proof (cases "treeLeaves ser mk es (id_InstallID i)")
    case None
    then have "sc_treeErr s" using main by (simp add: main_fold_def)
    then show ?thesis using shape None False sf(2) by (simp add: treeVerdict_def flip: s_def)
  next
    case (Some ls)
    then have m: "\<not> sc_treeErr s" "sc_rootAt s = captured sizes ls" using main by (simp_all add: main_fold_def)
    have "captured sizes ls (an_Seq a) \<noteq> None" if "tree_holds ser mk es other a"
    proof -
      have "treeLeaves ser mk es other \<noteq> None" using that by (simp add: tree_holds_def)
      then obtain ls' where ls': "treeLeaves ser mk es other = Some ls'" by blast
      have "captured sizes ls' (an_Seq a) \<noteq> None" using captured_head [OF ls' sz] that by simp
      then show ?thesis
        using treeLeaves_length [OF ls'] treeLeaves_length [OF Some] by (auto simp: captured_def split: if_splits)
    qed
    then have t: "captured sizes ls (an_Seq a) = None \<Longrightarrow> \<not> tree_holds ser mk es other a" by blast
    note h = captured_head [OF Some sz] and v = treeVerdict_def [of s a]
    have disagree: "snd (disagreeingTreeVerdict s a root) = None \<longleftrightarrow> altRootAt s a = Some (an_Link a)" for root
      by (simp add: disagreeingTreeVerdict_def split: option.split)
    show ?thesis
    proof (cases "captured sizes ls (an_Seq a)")
      case None
      then have "snd (treeVerdict s a) \<noteq> None" using m v False sf(2) by simp
      moreover have "\<not> anchor_holds ser sha mk es i a" using None t h shape by simp
      ultimately show ?thesis by (simp add: s_def)
    next
      case root: (Some root)
      have "snd (treeVerdict s a) = None \<longleftrightarrow> root = an_Link a \<or> altRootAt s a = Some (an_Link a)"
        using m v False sf(2) root disagree by simp
      moreover have "anchor_holds ser sha mk es i a \<longleftrightarrow> root = an_Link a \<or> altRootAt s a = Some (an_Link a)"
        unfolding shape alt using root h Some by simp
      ultimately show ?thesis by (simp add: s_def)
    qed
  qed
qed

lemma CheckAnchors_iff:
  "fst (CheckAnchors ser sha mk (map Some es) anchors i) \<longleftrightarrow> (\<forall>a\<in>set anchors. anchor_holds ser sha mk es i a)"
proof -
  have "snd (anchor_verdict (scanned ser sha es anchors i) a) = None \<longleftrightarrow> anchor_holds ser sha mk es i a"
    if "a \<in> set anchors" for a
    using tree_verdict_iff [OF that] linear_verdict_iff [OF that]
    by (auto simp: anchor_verdict_def tree_anchor_def anchor_holds_def AnchorShapeTree_def AnchorShapeLinear_def)
  then show ?thesis
    using scanned_facts(1) [where ser = ser and sha = sha and es = es and anchors = anchors and i = i]
    by (simp add: CheckAnchors_def anchorVerdicts_def Let_def list_all_iff flip: scanned_def)
qed

end

section \<open>The reference tree\<close>

text \<open>The tree hash as the RFC writes it, over any leaf and node hash.\<close>

fun pow_below :: "nat \<Rightarrow> nat" where
  "pow_below n = (if n \<le> 2 then 1 else 2 * pow_below ((n + 1) div 2))"

declare pow_below.simps [simp del]

lemma pow_below_pos: "0 < pow_below n"
  by (induction n rule: pow_below.induct) (subst pow_below.simps, auto)

lemma pow_below_less: "2 \<le> n \<Longrightarrow> pow_below n < n"
proof (induction n rule: pow_below.induct)
  case (1 n)
  show ?case
  proof (cases "n \<le> 2")
    case False
    then have "pow_below ((n + 1) div 2) < (n + 1) div 2" using 1 by simp
    then show ?thesis using False by (subst pow_below.simps) auto
  qed (use 1 in \<open>subst pow_below.simps, auto\<close>)
qed

lemma pow_below_eq: "2 ^ k < n \<Longrightarrow> n \<le> 2 ^ Suc k \<Longrightarrow> pow_below n = 2 ^ k"
proof (induction k arbitrary: n)
  case 0
  then show ?case by (subst pow_below.simps) simp
next
  case (Suc k)
  then have "pow_below ((n + 1) div 2) = 2 ^ k" by auto
  moreover have "\<not> n \<le> 2" using Suc.prems(1) [unfolded power_Suc] one_le_power [of "2 :: nat" k] by linarith
  ultimately show ?case by (subst pow_below.simps) simp
qed

function mth :: "(string \<Rightarrow> string) \<Rightarrow> (string \<Rightarrow> string \<Rightarrow> string) \<Rightarrow> string list \<Rightarrow> string" where
  "mth lf nd ls =
     (if length ls \<le> 1 then lf (concat ls)
      else nd (mth lf nd (take (pow_below (length ls)) ls)) (mth lf nd (drop (pow_below (length ls)) ls)))"
  by pat_completeness auto
termination
  using pow_below_pos pow_below_less
  by (relation "measure (\<lambda>(_, _, ls). length ls)") (auto simp: not_le Suc_le_eq intro!: diff_less)

declare mth.simps [simp del]

definition reference :: "(string \<Rightarrow> string) \<Rightarrow> (string \<Rightarrow> string) \<Rightarrow> (string \<Rightarrow> string \<Rightarrow> string) \<Rightarrow> merkle" where
  "reference sm lf nd = \<lparr>Sum256Hex = sm, MLeafHash = lf, NodeHash = nd, Root = mth lf nd\<rparr>"

lemma rfc6962_reference: "rfc6962 (reference sm lf nd)"
proof
  show "Root (reference sm lf nd) [l] = MLeafHash (reference sm lf nd) l" for l
    by (simp add: reference_def mth.simps)
  fix k and ls :: "string list"
  assume k: "2 ^ k < length ls" "length ls \<le> 2 ^ Suc k"
  then have "\<not> length ls \<le> 1" using one_le_power [of "2 :: nat" k] by linarith
  then show "Root (reference sm lf nd) ls = NodeHash (reference sm lf nd)
      (Root (reference sm lf nd) (take (2 ^ k) ls)) (Root (reference sm lf nd) (drop (2 ^ k) ls))"
    using pow_below_eq [OF k] by (simp add: reference_def mth.simps [of lf nd ls])
qed

interpretation reference_tree: rfc6962 "reference sm lf nd" for sm lf nd
  by (rule rfc6962_reference)

section \<open>Properties\<close>

text \<open>The incremental tree is the tree. However many entries a scan has streamed past, the
  subtrees it keeps fold to the root \<open>TreeHead\<close> computes from all the leaves at once, and the
  roots it captured are exactly those of the prefixes of the sizes asked for. A logarithm of the
  chain's length is enough memory, and the root is the same.\<close>

theorem streaming_root_is_TreeHead:
  assumes "rfc6962 mk" and "TreeHead ser mk es i = Some (n, r)"
  shows "let f = fold (feed ser mk sizes) es (newTreeFold i)
    in hex_root (tree_root mk (tf_forest f)) = r \<and> tf_fed f = n \<and> \<not> tf_err f \<and>
       (\<forall>k. tf_rootAt f k = (if 1 \<le> k \<and> k \<le> n \<and> k \<in> sizes
          then map_option snd (TreeHead ser mk (take (nat k) es) i) else None))"
proof -
  obtain ls where ls: "treeLeaves ser mk es i = Some ls" "ls \<noteq> []" "n = int (length ls)" "r = EncodeToString (Root mk ls)"
    using assms(2) treeLeaves_length by (fastforce simp: TreeHead_def split: if_splits)
  note f = rfc6962.fold_feed_facts [OF assms(1), where ser = ser and sizes = sizes and es = es and i = i]
  have T: "TreeHead ser mk (take (nat k) es) i = Some (int (length (take (nat k) ls)), EncodeToString (Root mk (take (nat k) ls)))"
    if "1 \<le> k" for k
    using that treeLeaves_take [OF ls(1), of "nat k"] ls(2) treeLeaves_length [OF ls(1)] by (auto simp: TreeHead_def)
  show ?thesis
    using f ls rfc6962.tree_root_stands_for [OF assms(1), of 0 _ ls]
    by (auto simp: Let_def hex_root_def rfc6962.captured_def [OF assms(1)] T)
qed

text \<open>The anchor check decides exactly what the anchors prove. It passes if and only if the
  chain still holds, for every linear anchor, the recorded link at the recorded position, and for
  every tree anchor the recorded root over the recorded prefix, computed under the install's own
  name or, for an anchor that names it or none, under the other name the same key derives. A chain
  cut off before an anchor, or rewritten under it, never passes.\<close>

theorem anchor_check_decides:
  assumes "rfc6962 mk"
  shows "fst (CheckAnchors ser sha mk (map Some es) anchors i) \<longleftrightarrow> (\<forall>a\<in>set anchors. anchor_holds ser sha mk es i a)"
  by (rule rfc6962.CheckAnchors_iff [OF assms])





text \<open>Concrete hashes, serialiser, chain and anchor.\<close>

definition plain_merkle :: merkle where
  "plain_merkle = reference (\<lambda>s. s) (\<lambda>s. CHR ''l'' # s) (\<lambda>a b. CHR ''n'' # a @ b)"

lemma rfc6962_plain: "rfc6962 plain_merkle"
  unfolding plain_merkle_def by (rule rfc6962_reference)

theorem streaming_root_is_TreeHead_witness:
  "hex_root (tree_root plain_merkle (tf_forest (fold (feed (\<lambda>_. Some ''c'') plain_merkle {})
     [blank_entry, blank_entry, blank_entry] (newTreeFold ''in_1'')))) = EncodeToString ''nnlclclc''"
proof -
  have "mth (\<lambda>s. CHR ''l'' # s) (\<lambda>a b. CHR ''n'' # a @ b) [''c'', ''c'', ''c''] = ''nnlclclc''"
    by (simp add: mth.simps pow_below.simps)
  then have "TreeHead (\<lambda>_. Some ''c'') plain_merkle [blank_entry, blank_entry, blank_entry] ''in_1'' =
      Some (3, EncodeToString ''nnlclclc'')"
    by (simp add: TreeHead_def entryLeaf_def treeLeaf_def treeLeafEnvelope_def plain_merkle_def reference_def)
  from streaming_root_is_TreeHead [OF rfc6962_plain this, of "{}"] show ?thesis by (simp add: Let_def)
qed

definition link_anchor :: "entry \<Rightarrow> anchor" where
  "link_anchor e = \<lparr>an_ID = ''anc_1'', an_Type = AnchorGit, an_Shape = AnchorShapeLinear, an_Seq = ae_Seq e,
     an_Link = ae_Hash e, an_At = 0, an_Ref = [], an_Proof = [], an_InstallID = []\<rparr>"

theorem anchor_check_decides_witness:
  "fst (CheckAnchors mark_claim (\<lambda>x. x) plain_merkle [Some blank_entry] [link_anchor blank_entry]
     \<lparr>id_InstallID = ''in_1'', id_public = None\<rparr>) \<and>
   \<not> fst (CheckAnchors mark_claim (\<lambda>x. x) plain_merkle [] [link_anchor blank_entry]
     \<lparr>id_InstallID = ''in_1'', id_public = None\<rparr>)"
  using anchor_check_decides [OF rfc6962_plain, of mark_claim "\<lambda>x. x" "[blank_entry]" "[link_anchor blank_entry]"]
    anchor_check_decides [OF rfc6962_plain, of mark_claim "\<lambda>x. x" "[]" "[link_anchor blank_entry]"]
  by (simp add: anchor_holds_def linear_holds_def link_anchor_def AnchorShapeLinear_def AnchorShapeTree_def)


end
