(* ===== verification/Policy.thy ===== *)
theory Policy
  imports Run_Options GoFmt
begin

text \<open>
  Approval policies (\<open>internal/policy\<close>): which runs a rule covers (\<open>policy.go\<close>, \<open>account.go\<close>), what
  the built-in hold on agents' runs keeps waiting (\<open>agentdefault.go\<close>), the rule engine of a build
  without the paid module (\<open>engine.go\<close>), what a Rego program decides (\<open>rego.go\<close>), reason
  requirements (\<open>decision/decision.go\<close>) and the store of rules (\<open>store.go\<close>). Lower-casing follows
  the Unicode tables, which are the parameter \<open>lower\<close>; a compiled Rego module is a function of the
  run. A nil rule is skipped by every loop, so a rule set is a list of rules.
\<close>

section \<open>Dry runs that change nothing\<close>

definition ScanChangeFree :: "dry_run_scan \<Rightarrow> bool" where
  "ScanChangeFree s \<longleftrightarrow> ds_Findings s = [] \<and> ds_Unread s = []"

definition ScansChangeFree :: "dry_run_scan list \<Rightarrow> bool" where
  "ScansChangeFree scans \<longleftrightarrow> list_all ScanChangeFree scans"

definition ChangeFree :: "run \<Rightarrow> bool" where
  "ChangeFree r =
     (if \<not> DryRun r then False
      else if DryRunScans r = [] then IsBuiltinTool (Tool r)
      else ScansChangeFree (DryRunScans r))"

section \<open>Reason requirements\<close>

definition RequireDenials :: string where "RequireDenials = ''denials''"
definition RequireAlways :: string where "RequireAlways = ''always''"

definition ValidRequirement :: "string \<Rightarrow> bool" where
  "ValidRequirement v \<longleftrightarrow> v = [] \<or> v = RequireDenials \<or> v = RequireAlways"

definition reason_rank :: "string \<Rightarrow> nat" where
  "reason_rank v = (if v = RequireAlways then 2 else if v = RequireDenials then 1 else 0)"

definition Stricter :: "string \<Rightarrow> string \<Rightarrow> string" where
  "Stricter a b = (if reason_rank b > reason_rank a then b else a)"

definition ReasonRequired :: "string \<Rightarrow> bool \<Rightarrow> bool" where
  "ReasonRequired requirement approve =
     (if requirement = RequireAlways then True
      else if requirement = RequireDenials then \<not> approve
      else False)"

section \<open>Rego programs\<close>

record rego_decision =
  rd_Deny :: "string list"
  rd_Hold :: "string list"
  rd_Note :: "string list"
  rd_RequireDistinctApprover :: bool
  rd_PlanGate :: bool
  rd_Err :: "string option"

text \<open>A program carries the evaluator compiled for it, or none in a build that has no compiler.\<close>

record rego_program =
  rp_digest :: string
  rp_warn :: string
  rp_compiled :: "(run \<Rightarrow> rego_decision) option"

definition no_decision :: rego_decision where
  "no_decision = \<lparr>rd_Deny = [], rd_Hold = [], rd_Note = [], rd_RequireDistinctApprover = False,
     rd_PlanGate = False, rd_Err = None\<rparr>"

definition RegoUnavailableReason :: string where
  "RegoUnavailableReason = ''Rego policies require Team; this build cannot evaluate this '' @
     ''policy, so the run is held''"

definition RegoWarnHold :: string where "RegoWarnHold = ''hold''"
definition RegoWarnNote :: string where "RegoWarnNote = ''note''"

fun mergeReasons :: "string list \<Rightarrow> string list \<Rightarrow> string list" where
  "mergeReasons out [] = out"
| "mergeReasons out (s # ss) = mergeReasons (if s \<in> set out then out else out @ [s]) ss"

definition stricter_decision :: "rego_decision \<Rightarrow> rego_decision \<Rightarrow> rego_decision" where
  "stricter_decision a b =
     (if rd_Err a \<noteq> None then a
      else if rd_Err b \<noteq> None then b
      else \<lparr>rd_Deny = mergeReasons (rd_Deny a) (rd_Deny b), rd_Hold = mergeReasons (rd_Hold a) (rd_Hold b),
        rd_Note = mergeReasons (rd_Note a) (rd_Note b),
        rd_RequireDistinctApprover = (rd_RequireDistinctApprover a \<or> rd_RequireDistinctApprover b),
        rd_PlanGate = (rd_PlanGate a \<or> rd_PlanGate b), rd_Err = None\<rparr>)"

definition decide :: "rego_program \<Rightarrow> run \<Rightarrow> rego_decision" where
  "decide p r =
     (if rp_digest p = [] then no_decision\<lparr>rd_Err := Some ''rego policy: the program was never compiled''\<rparr>
      else case rp_compiled p of
        None \<Rightarrow> no_decision\<lparr>rd_Hold := [RegoUnavailableReason]\<rparr>
      | Some ev \<Rightarrow> ev r)"

definition Decide :: "rego_program \<Rightarrow> run \<Rightarrow> rego_decision" where
  "Decide p r =
     (let d = decide p r
      in if \<not> DryRun r \<or> ChangeFree r \<or> rd_Err d \<noteq> None then d
         else stricter_decision d (decide p (r\<lparr>DryRun := False\<rparr>)))"

section \<open>Rules\<close>

definition DisabledMaxDestroy :: int where "DisabledMaxDestroy = -1"
definition EffectRequireApproval :: string where "EffectRequireApproval = ''require_approval''"
definition EffectDeny :: string where "EffectDeny = ''deny''"
definition EffectExempt :: string where "EffectExempt = ''exempt''"
definition ActorKindAgent :: string where "ActorKindAgent = ''agent''"
definition ActorKindHuman :: string where "ActorKindHuman = ''human''"

lemmas effect_names = EffectRequireApproval_def EffectDeny_def EffectExempt_def

definition humanActorTypes :: "string list" where
  "humanActorTypes = [''session'', ''token'', ''cli'', ''forge_comment'']"

record policy =
  pl_ID :: string
  pl_Name :: string
  pl_Tool :: string
  pl_CommandContains :: string
  pl_InventoryID :: string
  pl_Queue :: string
  pl_ActorKind :: string
  pl_Actor :: string
  pl_Account :: string
  pl_MinRisk :: string
  pl_Reversibility :: string
  pl_Effect :: string
  pl_ExcludeDryRun :: bool
  pl_RequireDistinctApprover :: bool
  pl_RequireReason :: string
  pl_MaxDestroy :: int
  pl_Rego :: "rego_program option"
  pl_CreatedAt :: gotime

definition Denies :: "policy \<Rightarrow> bool" where "Denies p \<longleftrightarrow> pl_Effect p = EffectDeny"
definition Exempts :: "policy \<Rightarrow> bool" where "Exempts p \<longleftrightarrow> pl_Effect p = EffectExempt"

definition Label :: "policy \<Rightarrow> string" where
  "Label p = (if pl_Name p \<noteq> [] then pl_Name p else pl_ID p)"

fun Contains :: "string \<Rightarrow> string \<Rightarrow> bool" where
  "Contains [] sub \<longleftrightarrow> sub = []"
| "Contains (c # s) sub \<longleftrightarrow> take (length sub) (c # s) = sub \<or> Contains s sub"

definition containsFold :: "(string \<Rightarrow> string) \<Rightarrow> string \<Rightarrow> string \<Rightarrow> bool" where
  "containsFold lower txt want \<longleftrightarrow> Contains (lower txt) (lower want)"

definition AgentRequested :: "run \<Rightarrow> bool" where
  "AgentRequested r \<longleftrightarrow> ActorType r = ActorKindAgent \<or> Initiator r \<noteq> None"

definition accountOf :: "run \<Rightarrow> string \<times> bool" where
  "accountOf r =
     (if Account r \<noteq> [] then (Account r, True)
      else if ActorUserID r \<noteq> [] \<or> AgentRequested r then ([], False)
      else ([], True))"

definition matchesAccount :: "policy \<Rightarrow> run \<Rightarrow> bool" where
  "matchesAccount p r =
     (if pl_Account p = [] then True
      else let (account, known) = accountOf r
           in if \<not> known then \<not> Exempts p else account = pl_Account p)"

definition matchesActor :: "policy \<Rightarrow> run \<Rightarrow> bool" where
  "matchesActor p r =
     (if pl_Actor p \<noteq> [] \<and> pl_Actor p \<noteq> Actor r then False
      else if \<not> matchesAccount p r then False
      else if pl_ActorKind p = [] then True
      else if pl_ActorKind p = ActorKindAgent then AgentRequested r
      else if pl_ActorKind p = ActorKindHuman then ActorType r \<in> set humanActorTypes
      else False)"

definition MatchesPlain :: "(string \<Rightarrow> string) \<Rightarrow> policy \<Rightarrow> run \<Rightarrow> bool" where
  "MatchesPlain lower p r =
     (if pl_ExcludeDryRun p \<and> ChangeFree r then False
      else if pl_Tool p \<noteq> [] \<and> NormalizeTool (pl_Tool p) \<noteq> NormalizeTool (Tool r) then False
      else if pl_CommandContains p \<noteq> [] \<and> \<not> containsFold lower (Command r) (pl_CommandContains p) then False
      else if pl_InventoryID p \<noteq> [] \<and> \<not> TargetsInventory r (pl_InventoryID p) then False
      else if pl_Queue p \<noteq> [] \<and> pl_Queue p \<noteq> Queue r then False
      else matchesActor p r)"

definition ProRules :: "policy \<Rightarrow> bool" where
  "ProRules p = (if Exempts p then False
     else pl_Effect p = EffectDeny \<or> pl_MinRisk p \<noteq> [] \<or> pl_Reversibility p \<noteq> [])"

definition TeamRules :: "policy \<Rightarrow> bool" where
  "TeamRules p = (if Exempts p then False
     else pl_Rego p \<noteq> None \<or> pl_RequireDistinctApprover p \<or> pl_ActorKind p \<noteq> [] \<or> pl_Actor p \<noteq> [] \<or>
       pl_Account p \<noteq> [])"

definition Advanced :: "policy \<Rightarrow> bool" where
  "Advanced p \<longleftrightarrow> ProRules p \<or> TeamRules p"

datatype feature = FeaturePolicyFull | FeaturePolicyRules

text \<open>What the license answers for a feature: a refusal that is a lapse, or one that is not.\<close>

datatype license_error = ErrLapsed | ErrUnlicensed feature

fun ask_features :: "(feature \<Rightarrow> license_error option) \<Rightarrow> feature list \<Rightarrow> license_error option \<Rightarrow> license_error option" where
  "ask_features allow [] lapse = lapse"
| "ask_features allow (f # fs) lapse =
     (case allow f of
        None \<Rightarrow> ask_features allow fs lapse
      | Some ErrLapsed \<Rightarrow> ask_features allow fs (if lapse = None then Some ErrLapsed else lapse)
      | Some e \<Rightarrow> Some e)"

definition AllowRules :: "(feature \<Rightarrow> license_error option) \<Rightarrow> policy list \<Rightarrow> license_error option" where
  "AllowRules allow ps =
     (let team = list_ex TeamRules ps; pro = list_ex ProRules ps;
          needs = (if team then [FeaturePolicyFull] else []) @ (if pro then [FeaturePolicyRules] else [])
      in ask_features allow needs None)"

section \<open>Validation\<close>

datatype policy_error =
    BadRequirement string | RegoWithCriteria | BadEffect string | BadActorKind string | BadMinRisk string
  | BadReversibility string | DenyWithMaxDestroy | ErrExemptionAccount string | ExemptionKind string
  | ExemptionCriteria

definition validateRego :: "policy \<Rightarrow> policy_error option" where
  "validateRego p =
     (if pl_Tool p \<noteq> [] \<or> pl_CommandContains p \<noteq> [] \<or> pl_InventoryID p \<noteq> [] \<or> pl_Queue p \<noteq> [] \<or>
        pl_ActorKind p \<noteq> [] \<or> pl_Actor p \<noteq> [] \<or> pl_Account p \<noteq> [] \<or> pl_MinRisk p \<noteq> [] \<or>
        pl_Reversibility p \<noteq> [] \<or> pl_Effect p \<noteq> [] \<or> pl_ExcludeDryRun p \<or> pl_RequireDistinctApprover p \<or>
        pl_MaxDestroy p \<ge> 0
      then Some RegoWithCriteria else None)"

definition validateExemption :: "policy \<Rightarrow> policy_error option" where
  "validateExemption p =
     (if pl_Actor p \<noteq> [] \<and> pl_Account p = [] then Some (ErrExemptionAccount (pl_Actor p))
      else if pl_ActorKind p \<noteq> [] \<and> pl_ActorKind p \<noteq> ActorKindAgent then Some (ExemptionKind (pl_ActorKind p))
      else if pl_MinRisk p \<noteq> [] \<or> pl_Reversibility p \<noteq> [] \<or> pl_ExcludeDryRun p \<or> pl_RequireDistinctApprover p \<or>
        pl_RequireReason p \<noteq> [] \<or> pl_MaxDestroy p \<ge> 0
      then Some ExemptionCriteria
      else None)"

definition Validate :: "policy \<Rightarrow> policy_error option" where
  "Validate p =
     (if \<not> ValidRequirement (pl_RequireReason p) then Some (BadRequirement (pl_RequireReason p))
      else if pl_Rego p \<noteq> None then validateRego p
      else if pl_Effect p = EffectExempt then validateExemption p
      else if pl_Effect p \<noteq> [] \<and> pl_Effect p \<noteq> EffectRequireApproval \<and> pl_Effect p \<noteq> EffectDeny
      then Some (BadEffect (pl_Effect p))
      else if pl_ActorKind p \<noteq> [] \<and> pl_ActorKind p \<noteq> ActorKindAgent \<and> pl_ActorKind p \<noteq> ActorKindHuman
      then Some (BadActorKind (pl_ActorKind p))
      else if pl_MinRisk p \<notin> {[], ''low'', ''medium'', ''high''} then Some (BadMinRisk (pl_MinRisk p))
      else if pl_Reversibility p \<notin> {[], ''reversible'', ''costly'', ''irreversible''}
      then Some (BadReversibility (pl_Reversibility p))
      else if Denies p \<and> pl_MaxDestroy p \<ge> 0 then Some DenyWithMaxDestroy
      else None)"

section \<open>The built-in agent hold\<close>

definition AgentDefaultID :: string where "AgentDefaultID = ''builtin_agent_hold''"
definition AgentDefaultName :: string where "AgentDefaultName = ''requested by an agent, held by default''"

definition plain_policy :: policy where
  "plain_policy = \<lparr>pl_ID = [], pl_Name = [], pl_Tool = [], pl_CommandContains = [], pl_InventoryID = [],
     pl_Queue = [], pl_ActorKind = [], pl_Actor = [], pl_Account = [], pl_MinRisk = [], pl_Reversibility = [],
     pl_Effect = [], pl_ExcludeDryRun = False, pl_RequireDistinctApprover = False, pl_RequireReason = [],
     pl_MaxDestroy = 0, pl_Rego = None, pl_CreatedAt = zero_time\<rparr>"

definition NewPolicy :: "string \<Rightarrow> gotime \<Rightarrow> string \<Rightarrow> policy" where
  "NewPolicy newID now name = plain_policy\<lparr>pl_ID := newID, pl_Name := name, pl_MaxDestroy := DisabledMaxDestroy,
     pl_CreatedAt := now\<rparr>"

definition AgentDefault :: policy where
  "AgentDefault = plain_policy\<lparr>pl_ID := AgentDefaultID, pl_Name := AgentDefaultName,
     pl_MaxDestroy := DisabledMaxDestroy\<rparr>"

definition IsAgentDefault :: "policy option \<Rightarrow> bool" where
  "IsAgentDefault p = (case p of None \<Rightarrow> False | Some q \<Rightarrow> pl_ID q = AgentDefaultID \<and> pl_Rego q = None)"

fun Exempting :: "(string \<Rightarrow> string) \<Rightarrow> policy list \<Rightarrow> run \<Rightarrow> policy option" where
  "Exempting lower [] r = None"
| "Exempting lower (p # ps) r =
     (if pl_Rego p \<noteq> None \<or> \<not> Exempts p \<or> (pl_Actor p \<noteq> [] \<and> pl_Account p = []) then Exempting lower ps r
      else if MatchesPlain lower p r then Some p
      else Exempting lower ps r)"

definition AgentHolds :: "(string \<Rightarrow> string) \<Rightarrow> policy list \<Rightarrow> run \<Rightarrow> bool" where
  "AgentHolds lower ps r \<longleftrightarrow> AgentRequested r \<and> Exempting lower ps r = None"

definition unplannedApply :: "run \<Rightarrow> bool" where
  "unplannedApply r =
     (let tool = NormalizeTool (Tool r)
      in (tool = ToolTerraform \<or> tool = ToolOpenTofu) \<and> \<not> DryRun r \<and> ProposedFrom r = [])"

definition AgentPlansFirst :: "(string \<Rightarrow> string) \<Rightarrow> policy list \<Rightarrow> run \<Rightarrow> bool" where
  "AgentPlansFirst lower ps r \<longleftrightarrow> unplannedApply r \<and> ParentID r = None \<and> AgentHolds lower ps r"

definition AgentWorkflowApplyID :: string where "AgentWorkflowApplyID = ''builtin_agent_workflow_apply''"
definition AgentWorkflowApplyName :: string where
  "AgentWorkflowApplyName = ''an agent's workflow may not apply Terraform or OpenTofu''"

definition AgentWorkflowApply :: policy where
  "AgentWorkflowApply = plain_policy\<lparr>pl_ID := AgentWorkflowApplyID, pl_Name := AgentWorkflowApplyName,
     pl_Effect := EffectDeny, pl_MaxDestroy := DisabledMaxDestroy\<rparr>"

definition AgentWorkflowApplies :: "(string \<Rightarrow> string) \<Rightarrow> policy list \<Rightarrow> run \<Rightarrow> bool" where
  "AgentWorkflowApplies lower ps step \<longleftrightarrow> unplannedApply step \<and> AgentHolds lower ps step"

section \<open>The engine of a build without the paid module\<close>

definition regoLabel :: "policy \<Rightarrow> string \<Rightarrow> string" where
  "regoLabel p why =
     (let digest = (case pl_Rego p of None \<Rightarrow> [] | Some g \<Rightarrow> rp_digest g)
      in Label p @ '' ('' @ why @ '', rego sha256:'' @ take 12 digest @ '')'')"

definition RegoVerdict :: "policy \<Rightarrow> string \<Rightarrow> string list \<Rightarrow> string option \<Rightarrow> policy" where
  "RegoVerdict p effect reasons err =
     p\<lparr>pl_Effect := effect,
       pl_Name := regoLabel p (case err of None \<Rightarrow> JoinStrings reasons '', '' | Some e \<Rightarrow> e)\<rparr>"

definition scoped :: "policy \<Rightarrow> bool" where
  "scoped p \<longleftrightarrow> pl_Actor p \<noteq> [] \<or> pl_ActorKind p \<noteq> [] \<or> pl_Account p \<noteq> []"

definition coversUnscoped :: "(string \<Rightarrow> string) \<Rightarrow> policy \<Rightarrow> run \<Rightarrow> bool" where
  "coversUnscoped lower p r = MatchesPlain lower (p\<lparr>pl_Actor := [], pl_ActorKind := [], pl_Account := []\<rparr>) r"

definition covers :: "(string \<Rightarrow> string) \<Rightarrow> policy \<Rightarrow> run \<Rightarrow> bool" where
  "covers lower p r = (if Advanced p then coversUnscoped lower p r else MatchesPlain lower p r)"

text \<open>The refusal a Community install gives for a feature is the parameter \<open>unlicensed\<close>.\<close>

definition tierVerdict :: "(feature \<Rightarrow> string) \<Rightarrow> policy \<Rightarrow> policy" where
  "tierVerdict unlicensed p =
     (let f = (if TeamRules p then FeaturePolicyFull else FeaturePolicyRules);
          scope = (if scoped p then ''; its actor scope is not applied on this build'' else [])
      in p\<lparr>pl_Effect := EffectRequireApproval,
           pl_Name := Label p @ '' (held because this build cannot evaluate it: '' @ unlicensed f @ scope @ '')''\<rparr>)"

fun CommunityDenying :: "policy list \<Rightarrow> run \<Rightarrow> policy option" where
  "CommunityDenying [] r = None"
| "CommunityDenying (p # ps) r =
     (case pl_Rego p of
        None \<Rightarrow> CommunityDenying ps r
      | Some g \<Rightarrow>
          let d = Decide g r
          in if rd_Err d \<noteq> None \<or> rd_Deny d \<noteq> [] then Some (RegoVerdict p EffectDeny (rd_Deny d) (rd_Err d))
             else CommunityDenying ps r)"

fun CommunityRequiring :: "(string \<Rightarrow> string) \<Rightarrow> (feature \<Rightarrow> string) \<Rightarrow> policy list \<Rightarrow> run \<Rightarrow> policy option" where
  "CommunityRequiring lower unlicensed [] r = None"
| "CommunityRequiring lower unlicensed (p # ps) r =
     (case pl_Rego p of
        Some g \<Rightarrow>
          let d = Decide g r
          in if rd_Err d \<noteq> None \<or> rd_Hold d \<noteq> []
             then Some (RegoVerdict p EffectRequireApproval (rd_Hold d) (rd_Err d))
             else CommunityRequiring lower unlicensed ps r
      | None \<Rightarrow>
          if Exempts p \<or> pl_MaxDestroy p \<ge> 0 \<or> \<not> covers lower p r then CommunityRequiring lower unlicensed ps r
          else if Advanced p then Some (tierVerdict unlicensed p)
          else Some p)"

fun CommunityRequireDistinct :: "(string \<Rightarrow> string) \<Rightarrow> policy list \<Rightarrow> run \<Rightarrow> bool" where
  "CommunityRequireDistinct lower [] r = False"
| "CommunityRequireDistinct lower (p # ps) r =
     (case pl_Rego p of
        Some g \<Rightarrow>
          let d = Decide g r
          in if rd_Err d \<noteq> None \<or> rd_RequireDistinctApprover d then True else CommunityRequireDistinct lower ps r
      | None \<Rightarrow>
          if pl_RequireDistinctApprover p \<and> \<not> Exempts p \<and> covers lower p r then True
          else CommunityRequireDistinct lower ps r)"

definition reason_step :: "(string \<Rightarrow> string) \<Rightarrow> run \<Rightarrow> policy \<Rightarrow> string \<Rightarrow> string" where
  "reason_step lower r p out =
     (if pl_RequireReason p = [] then out
      else case pl_Rego p of
        Some g \<Rightarrow>
          let d = Decide g r
          in if rd_Err d \<noteq> None \<or> rd_Hold d \<noteq> [] then Stricter out (pl_RequireReason p) else out
      | None \<Rightarrow> if \<not> Exempts p \<and> covers lower p r then Stricter out (pl_RequireReason p) else out)"

definition CommunityReasonRequirement :: "(string \<Rightarrow> string) \<Rightarrow> policy list \<Rightarrow> run \<Rightarrow> string" where
  "CommunityReasonRequirement lower ps r = fold (reason_step lower r) ps []"

fun CommunityPlanGated :: "(string \<Rightarrow> string) \<Rightarrow> policy list \<Rightarrow> run \<Rightarrow> bool" where
  "CommunityPlanGated lower [] r = False"
| "CommunityPlanGated lower (p # ps) r =
     (case pl_Rego p of
        Some g \<Rightarrow>
          let d = Decide g r
          in if rd_Err d \<noteq> None \<or> rd_PlanGate d then True else CommunityPlanGated lower ps r
      | None \<Rightarrow>
          if Exempts p \<or> \<not> covers lower p r then CommunityPlanGated lower ps r
          else if pl_MaxDestroy p \<ge> 0 \<or> Advanced p then True
          else CommunityPlanGated lower ps r)"

definition exceededPlain :: "(string \<Rightarrow> string) \<Rightarrow> policy list \<Rightarrow> run \<Rightarrow> int \<Rightarrow> policy list" where
  "exceededPlain lower ps r destroys =
     filter (\<lambda>p. pl_Rego p = None \<and> pl_MaxDestroy p \<ge> 0 \<and> destroys > pl_MaxDestroy p \<and> covers lower p r) ps"

definition CommunityExceeding :: "(string \<Rightarrow> string) \<Rightarrow> (feature \<Rightarrow> string) \<Rightarrow> policy list \<Rightarrow> run \<Rightarrow> int \<Rightarrow>
    policy option" where
  "CommunityExceeding lower unlicensed ps r destroys =
     (case exceededPlain lower ps r destroys of
        [] \<Rightarrow> None
      | p # _ \<Rightarrow> if Advanced p then Some (tierVerdict unlicensed p) else Some p)"

definition CommunityExceedingDistinct :: "(string \<Rightarrow> string) \<Rightarrow> policy list \<Rightarrow> run \<Rightarrow> int \<Rightarrow> bool" where
  "CommunityExceedingDistinct lower ps r destroys = list_ex pl_RequireDistinctApprover (exceededPlain lower ps r destroys)"

definition CommunityExceedingReason :: "(string \<Rightarrow> string) \<Rightarrow> policy list \<Rightarrow> run \<Rightarrow> int \<Rightarrow> string" where
  "CommunityExceedingReason lower ps r destroys =
     fold (\<lambda>p out. Stricter out (pl_RequireReason p)) (exceededPlain lower ps r destroys) []"

section \<open>The questions the gate asks\<close>

text \<open>The registered engine: the paid module registers its own in place of the community one.\<close>

record engine =
  en_Denying :: "policy list \<Rightarrow> run \<Rightarrow> policy option"
  en_Requiring :: "policy list \<Rightarrow> run \<Rightarrow> policy option"
  en_RequireDistinct :: "policy list \<Rightarrow> run \<Rightarrow> bool"
  en_ReasonRequirement :: "policy list \<Rightarrow> run \<Rightarrow> string"
  en_PlanGated :: "policy list \<Rightarrow> run \<Rightarrow> bool"
  en_Exceeding :: "policy list \<Rightarrow> run \<Rightarrow> int \<Rightarrow> policy option"
  en_ExceedingDistinct :: "policy list \<Rightarrow> run \<Rightarrow> int \<Rightarrow> bool"
  en_ExceedingReason :: "policy list \<Rightarrow> run \<Rightarrow> int \<Rightarrow> string"

definition communityEngine :: "(string \<Rightarrow> string) \<Rightarrow> (feature \<Rightarrow> string) \<Rightarrow> engine" where
  "communityEngine lower unlicensed =
     \<lparr>en_Denying = CommunityDenying, en_Requiring = CommunityRequiring lower unlicensed,
      en_RequireDistinct = CommunityRequireDistinct lower, en_ReasonRequirement = CommunityReasonRequirement lower,
      en_PlanGated = CommunityPlanGated lower, en_Exceeding = CommunityExceeding lower unlicensed,
      en_ExceedingDistinct = CommunityExceedingDistinct lower, en_ExceedingReason = CommunityExceedingReason lower\<rparr>"

definition Denying :: "engine \<Rightarrow> policy list \<Rightarrow> run \<Rightarrow> policy option" where
  "Denying eng ps r = en_Denying eng ps r"

definition Requiring :: "(string \<Rightarrow> string) \<Rightarrow> engine \<Rightarrow> policy list \<Rightarrow> run \<Rightarrow> policy option" where
  "Requiring lower eng ps r =
     (case en_Requiring eng ps r of
        Some p \<Rightarrow> Some p
      | None \<Rightarrow> if AgentHolds lower ps r then Some AgentDefault else None)"

definition Requires :: "(string \<Rightarrow> string) \<Rightarrow> engine \<Rightarrow> policy list \<Rightarrow> run \<Rightarrow> bool" where
  "Requires lower eng ps r \<longleftrightarrow> Requiring lower eng ps r \<noteq> None"

definition PlanGated :: "(string \<Rightarrow> string) \<Rightarrow> engine \<Rightarrow> policy list \<Rightarrow> run \<Rightarrow> bool" where
  "PlanGated lower eng ps r =
     (if \<not> unplannedApply r then False
      else if ParentID r = None \<and> AgentHolds lower ps r then True
      else if ParentID r = None \<and> Status r \<noteq> StatusPendingApproval \<and> DecisionID r = [] \<and>
        ApprovedSpecDigest r = [] \<and> (ApprovalRequested r \<or> Requiring lower eng ps r \<noteq> None) then True
      else en_PlanGated eng ps r)"

definition RequireDistinct :: "engine \<Rightarrow> policy list \<Rightarrow> run \<Rightarrow> bool" where
  "RequireDistinct eng ps r = en_RequireDistinct eng ps r"

definition ReasonRequirement :: "engine \<Rightarrow> policy list \<Rightarrow> run \<Rightarrow> string" where
  "ReasonRequirement eng ps r = en_ReasonRequirement eng ps r"

definition Exceeding :: "engine \<Rightarrow> policy list \<Rightarrow> run \<Rightarrow> int \<Rightarrow> policy option" where
  "Exceeding eng ps r destroys = en_Exceeding eng ps r destroys"

definition PlanExceeds :: "engine \<Rightarrow> policy list \<Rightarrow> run \<Rightarrow> int \<Rightarrow> bool" where
  "PlanExceeds eng ps r destroys \<longleftrightarrow> Exceeding eng ps r destroys \<noteq> None"

definition ExceedingDistinct :: "engine \<Rightarrow> policy list \<Rightarrow> run \<Rightarrow> int \<Rightarrow> bool" where
  "ExceedingDistinct eng ps r destroys = en_ExceedingDistinct eng ps r destroys"

definition ExceedingReason :: "engine \<Rightarrow> policy list \<Rightarrow> run \<Rightarrow> int \<Rightarrow> string" where
  "ExceedingReason eng ps r destroys = en_ExceedingReason eng ps r destroys"

section \<open>What the evidence records\<close>

definition maxNoteReasons :: nat where "maxNoteReasons = 10"

definition noteLabel :: "policy \<Rightarrow> string list \<Rightarrow> string" where
  "noteLabel p reasons =
     (let shown = (if length reasons > maxNoteReasons
        then take maxNoteReasons reasons @ [''and '' @ FormatInt (int (length reasons - maxNoteReasons)) @ '' more'']
        else reasons)
      in regoLabel p (JoinStrings shown '', ''))"

definition Noting :: "policy list \<Rightarrow> run \<Rightarrow> string list" where
  "Noting ps r = concat (map (\<lambda>p. case pl_Rego p of
       None \<Rightarrow> []
     | Some g \<Rightarrow>
         if rp_warn g \<noteq> RegoWarnNote then []
         else let d = Decide g r in if rd_Err d = None \<and> rd_Note d \<noteq> [] then [noteLabel p (rd_Note d)] else []) ps)"

text \<open>\<open>%q\<close> quotes a text as a Go literal; it is the parameter \<open>quote\<close>.\<close>

definition AgentNote :: "(string \<Rightarrow> string) \<Rightarrow> (string \<Rightarrow> string) \<Rightarrow> policy list \<Rightarrow> run \<Rightarrow> string" where
  "AgentNote quote lower ps r =
     (if \<not> AgentRequested r then []
      else case Exempting lower ps r of
        None \<Rightarrow> AgentDefaultName
      | Some p \<Rightarrow>
          let (account, known) = accountOf r
          in if known \<and> account \<noteq> []
             then ''requested by an agent bound to account '' @ quote account @ '', exempt from the default '' @
               ''hold by policy '' @ quote (Label p)
             else ''requested by an agent, exempt from the default hold by policy '' @ quote (Label p))"

text \<open>Which of its messages the built-in hold gives, none where its name says enough.\<close>

datatype agent_hold_reason = CheckModeRun | PlanRun | OtherDryRun | PlannedApply | UnplannedApply

definition AgentHoldReason :: "run \<Rightarrow> agent_hold_reason option" where
  "AgentHoldReason r =
     (let tool = NormalizeTool (Tool r); terraform = (tool = ToolTerraform \<or> tool = ToolOpenTofu)
      in if DryRun r \<and> tool = ToolAnsible then Some CheckModeRun
         else if DryRun r \<and> terraform then Some PlanRun
         else if DryRun r then Some OtherDryRun
         else if terraform \<and> ProposedFrom r \<noteq> [] then Some PlannedApply
         else if terraform then Some UnplannedApply
         else None)"

section \<open>The store of rules\<close>

datatype policy_store_error = PolicyNotFound | ErrRegoNotStored

type_synonym policy_store = "string \<rightharpoonup> policy"

definition SavePolicy :: "policy \<Rightarrow> policy_store \<Rightarrow> policy_store_error option \<times> policy_store" where
  "SavePolicy p st =
     (if pl_Rego p \<noteq> None then (Some ErrRegoNotStored, st) else (None, st(pl_ID p \<mapsto> p)))"

definition GetPolicy :: "string \<Rightarrow> policy_store \<Rightarrow> policy_store_error + policy" where
  "GetPolicy i st = (case st i of None \<Rightarrow> Inl PolicyNotFound | Some p \<Rightarrow> Inr p)"

definition DeletePolicy :: "string \<Rightarrow> policy_store \<Rightarrow> policy_store_error option \<times> policy_store" where
  "DeletePolicy i st = (case st i of None \<Rightarrow> (Some PolicyNotFound, st) | Some _ \<Rightarrow> (None, st(i := None)))"

end
