(* ===== verification/Policy_Gate.thy ===== *)
theory Policy_Gate
  imports Policy
begin

text \<open>
  The gate every submission passes (\<open>internal/dispatch/policies.go\<close>): a run or a workflow is
  refused by a deny rule, held by an approval rule or the built-in agent hold, or goes ahead. What
  the dispatcher knows and other parts compute is the record \<open>dispatcher\<close>: the rule engine, the
  rules it can list, the graded copy of a run (its scans and grades read from the project), the
  run a step would execute as, the masking of secrets, and the texts of notes.
\<close>

section \<open>The dispatcher\<close>

text \<open>No policy store, one that cannot be read, or the rules it lists.\<close>

datatype policy_source = NoStore | Unreadable | Rules "policy list"

record dispatcher =
  dp_policies :: policy_source
  dp_engine :: engine
  dp_lower :: "string \<Rightarrow> string"
  dp_quote :: "string \<Rightarrow> string"
  dp_graded :: "run \<Rightarrow> run"
  dp_stepRun :: "run \<Rightarrow> pipeline_step \<Rightarrow> nat \<Rightarrow> run"
  dp_mask :: "run \<Rightarrow> string \<Rightarrow> string"
  dp_inForce :: "policy list \<Rightarrow> policy_set"
  dp_exemptionText :: "policy list \<Rightarrow> run \<Rightarrow> policy \<Rightarrow> string"
  dp_agentText :: "agent_hold_reason \<Rightarrow> string"

datatype gate_error =
    ErrPolicyUnavailable | ErrPolicyDenied string | ErrStepDenied string string | ErrAgentWorkflowApply string string

definition listPolicies :: "dispatcher \<Rightarrow> gate_error + policy list" where
  "listPolicies d = (case dp_policies d of NoStore \<Rightarrow> Inr [] | Unreadable \<Rightarrow> Inl ErrPolicyUnavailable | Rules ps \<Rightarrow> Inr ps)"

definition no_store :: "dispatcher \<Rightarrow> bool" where
  "no_store d = (case dp_policies d of NoStore \<Rightarrow> True | _ \<Rightarrow> False)"

abbreviation requiring :: "dispatcher \<Rightarrow> policy list \<Rightarrow> run \<Rightarrow> policy option" where
  "requiring d \<equiv> Requiring (dp_lower d) (dp_engine d)"

section \<open>Notes\<close>

definition asChangeFree :: "run \<Rightarrow> run" where
  "asChangeFree gr = gr\<lparr>DryRunScans := [], Reversibility := None\<rparr>"

definition exemptionHoldNote :: "dispatcher \<Rightarrow> policy list \<Rightarrow> run \<Rightarrow> policy \<Rightarrow> string" where
  "exemptionHoldNote d ps gr held =
     (if \<not> DryRun gr \<or> ChangeFree gr then []
      else if requiring d ps (asChangeFree gr) \<noteq> None then []
      else dp_exemptionText d ps gr held)"

definition agentHoldNote :: "dispatcher \<Rightarrow> policy list \<Rightarrow> run \<Rightarrow> string \<Rightarrow> string" where
  "agentHoldNote d ps gr note =
     (if \<not> AgentHolds (dp_lower d) ps gr then note
      else case AgentHoldReason gr of
        Some why \<Rightarrow> dp_mask d gr (dp_agentText d why)
      | None \<Rightarrow> note)"

definition policyNotes :: "dispatcher \<Rightarrow> policy list \<Rightarrow> run \<Rightarrow> string list" where
  "policyNotes d ps g =
     (let notes = Noting ps g; note = AgentNote (dp_quote d) (dp_lower d) ps g
      in map (dp_mask d g) (if note \<noteq> [] then notes @ [note] else notes))"

section \<open>Single runs\<close>

definition planFirstOnRequest :: "run \<Rightarrow> run" where
  "planFirstOnRequest r =
     (let tool = NormalizeTool (Tool r)
      in if tool \<noteq> ToolTerraform \<and> tool \<noteq> ToolOpenTofu then r
         else if Status r \<noteq> StatusPendingApproval \<or> DryRun r \<or> ProposedFrom r \<noteq> [] \<or> ParentID r \<noteq> None \<or>
           PlanSHA256 r \<noteq> [] then r
         else r\<lparr>Status := StatusPending, ApprovalRequested := True\<rparr>)"

definition recordHold :: "string \<Rightarrow> run \<Rightarrow> run" where
  "recordHold reason r =
     (if Status r = StatusPendingApproval \<and> HeldByPolicy r = [] then r\<lparr>HeldByPolicy := reason\<rparr> else r)"

text \<open>The answer and the run with what the gate recorded on it.\<close>

definition requiresApproval :: "dispatcher \<Rightarrow> run \<Rightarrow> gate_error + bool \<times> run" where
  "requiresApproval d r =
     (case listPolicies d of
        Inl e \<Rightarrow> Inl e
      | Inr ps \<Rightarrow>
          let gr = dp_graded d r;
              r1 = r\<lparr>DryRunScans := DryRunScans gr, PolicyNotes := policyNotes d ps gr\<rparr>
          in case requiring d ps gr of
               None \<Rightarrow> Inr (False, r1)
             | Some p \<Rightarrow>
                 if \<not> AgentPlansFirst (dp_lower d) ps gr \<and> Status r \<noteq> StatusPendingApproval \<and>
                    PlanGated (dp_lower d) (dp_engine d) ps gr
                 then Inr (False, r1)
                 else Inr (True, r1\<lparr>HeldByPolicy := dp_mask d gr (Label p),
                   HoldNote := agentHoldNote d ps gr (exemptionHoldNote d ps gr p),
                   RequireDistinctApprover := RequireDistinctApprover r1 \<or> RequireDistinct (dp_engine d) ps gr,
                   RequireReason := Stricter (RequireReason r1) (ReasonRequirement (dp_engine d) ps gr)\<rparr>))"

definition stampPolicySet :: "dispatcher \<Rightarrow> policy list \<Rightarrow> run \<Rightarrow> run" where
  "stampPolicySet d ps r = r\<lparr>PolicySet := Some (dp_inForce d ps)\<rparr>"

definition denied :: "dispatcher \<Rightarrow> run \<Rightarrow> gate_error option \<times> run" where
  "denied d r =
     (case dp_policies d of
        NoStore \<Rightarrow> (None, stampPolicySet d [] r)
      | Unreadable \<Rightarrow> (Some ErrPolicyUnavailable, r)
      | Rules ps \<Rightarrow>
          let r1 = stampPolicySet d ps r; gr = dp_graded d r1
          in case Denying (dp_engine d) ps gr of
               Some p \<Rightarrow> (Some (ErrPolicyDenied (dp_mask d gr (Label p))), r1)
             | None \<Rightarrow> (None, r1))"

section \<open>Workflows\<close>

definition policyUnits :: "dispatcher \<Rightarrow> run \<Rightarrow> pipeline_step list \<Rightarrow> (run \<times> string) list" where
  "policyUnits d parent steps =
     map (\<lambda>(i, s). (dp_stepRun d parent s i, ps_Name s))
       (filter (\<lambda>(i, s). \<not> IsApproval s) (enumerate 0 steps))"

fun first_denied :: "dispatcher \<Rightarrow> policy list \<Rightarrow> (run \<times> string) list \<Rightarrow> gate_error option" where
  "first_denied d ps [] = None"
| "first_denied d ps ((u, name) # us) =
     (let gs = dp_graded d u
      in case Denying (dp_engine d) ps gs of
           Some p \<Rightarrow> Some (ErrStepDenied (dp_mask d gs (Label p)) name)
         | None \<Rightarrow> first_denied d ps us)"

definition pipelineDenied :: "dispatcher \<Rightarrow> run \<Rightarrow> pipeline_step list \<Rightarrow> gate_error option" where
  "pipelineDenied d parent steps =
     (case dp_policies d of
        NoStore \<Rightarrow> None
      | Unreadable \<Rightarrow> Some ErrPolicyUnavailable
      | Rules ps \<Rightarrow>
          let gp = dp_graded d parent
          in case Denying (dp_engine d) ps gp of
               Some p \<Rightarrow> Some (ErrPolicyDenied (dp_mask d gp (Label p)))
             | None \<Rightarrow> first_denied d ps (policyUnits d parent steps))"

definition toolName :: "string \<Rightarrow> string" where
  "toolName tool = (if NormalizeTool tool = ToolOpenTofu then ''OpenTofu'' else ''Terraform'')"

definition refuseAgentWorkflowApply :: "dispatcher \<Rightarrow> run \<Rightarrow> pipeline_step list \<Rightarrow> gate_error option" where
  "refuseAgentWorkflowApply d parent steps =
     (case listPolicies d of
        Inl e \<Rightarrow> Some e
      | Inr ps \<Rightarrow>
          case find (\<lambda>(u, _). AgentWorkflowApplies (dp_lower d) ps u) (policyUnits d parent steps) of
            None \<Rightarrow> None
          | Some (u, name) \<Rightarrow> Some (ErrAgentWorkflowApply name (toolName (Tool u))))"

definition StepPrefix :: "(string \<Rightarrow> string) \<Rightarrow> string \<Rightarrow> string" where
  "StepPrefix quote step = ''step '' @ quote step @ '': ''"

definition stepNamed :: "run \<Rightarrow> string \<Rightarrow> run" where
  "stepNamed gs name = gs\<lparr>DryRunScans := map (\<lambda>s. s\<lparr>ds_Step := name\<rparr>) (DryRunScans gs)\<rparr>"

text \<open>One turn of the loop over the steps: what is recorded, and the first rule that holds.\<close>

definition gate_unit :: "dispatcher \<Rightarrow> policy list \<Rightarrow> run \<times> string \<Rightarrow> bool \<times> run \<Rightarrow> bool \<times> run" where
  "gate_unit d ps un hp =
     (let (unit, name) = un; (held, parent) = hp;
          gs = dp_graded d unit; named = stepNamed gs name;
          parent1 = parent\<lparr>DryRunScans := DryRunScans parent @ DryRunScans named,
            PolicyNotes := PolicyNotes parent @ map (\<lambda>n. StepPrefix (dp_quote d) name @ n) (policyNotes d ps gs)\<rparr>
      in if held then (held, parent1)
         else case requiring d ps gs of
           None \<Rightarrow> (held, parent1)
         | Some p \<Rightarrow> (True, parent1\<lparr>HeldByPolicy := dp_mask d gs (Label p),
             HoldNote := exemptionHoldNote d ps named p\<rparr>))"

definition gate_parent :: "dispatcher \<Rightarrow> policy list \<Rightarrow> run \<Rightarrow> bool \<times> run" where
  "gate_parent d ps parent =
     (let gp = dp_graded d parent;
          parent1 = parent\<lparr>DryRunScans := DryRunScans gp, PolicyNotes := policyNotes d ps gp\<rparr>
      in case requiring d ps gp of
           None \<Rightarrow> (False, parent1)
         | Some p \<Rightarrow> (True, parent1\<lparr>HeldByPolicy := dp_mask d gp (Label p), HoldNote := exemptionHoldNote d ps gp p\<rparr>))"

definition strictest :: "dispatcher \<Rightarrow> policy list \<Rightarrow> run list \<Rightarrow> run \<Rightarrow> run" where
  "strictest d ps units parent =
     (let parent1 = (if list_ex (RequireDistinct (dp_engine d) ps) units
        then parent\<lparr>RequireDistinctApprover := True\<rparr> else parent)
      in fold (\<lambda>gu p. p\<lparr>RequireReason := Stricter (RequireReason p) (ReasonRequirement (dp_engine d) ps gu)\<rparr>)
           units parent1)"

text \<open>The steps are read as runs of the parent as the gate has annotated it so far.\<close>

definition pipelineRequiresApproval :: "dispatcher \<Rightarrow> run \<Rightarrow> pipeline_step list \<Rightarrow> gate_error + bool \<times> run" where
  "pipelineRequiresApproval d parent steps =
     (case listPolicies d of
        Inl e \<Rightarrow> Inl e
      | Inr ps \<Rightarrow>
          let gp = dp_graded d parent;
              (held0, parent1) = gate_parent d ps parent;
              stepUnits = policyUnits d parent1 steps;
              (held, parent2) = fold (gate_unit d ps) stepUnits (held0, parent1)
          in if \<not> held then Inr (False, parent2)
             else Inr (True, strictest d ps (gp # map (\<lambda>u. dp_graded d (fst u)) stepUnits) parent2))"

definition approvalStepsRequireDistinct :: "dispatcher \<Rightarrow> run \<Rightarrow> pipeline_step list \<Rightarrow> gate_error + run" where
  "approvalStepsRequireDistinct d parent steps =
     (if no_store d \<or> RequireDistinctApprover parent \<or> \<not> HasApproval steps then Inr parent
      else case listPolicies d of
        Inl e \<Rightarrow> Inl e
      | Inr ps \<Rightarrow>
          if list_ex (\<lambda>u. RequireDistinct (dp_engine d) ps (dp_graded d u)) (parent # map fst (policyUnits d parent steps))
          then Inr (parent\<lparr>RequireDistinctApprover := True\<rparr>) else Inr parent)"

definition approvalStepsRequireReason :: "dispatcher \<Rightarrow> run \<Rightarrow> pipeline_step list \<Rightarrow> gate_error + run" where
  "approvalStepsRequireReason d parent steps =
     (if no_store d \<or> \<not> HasApproval steps then Inr parent
      else case listPolicies d of
        Inl e \<Rightarrow> Inl e
      | Inr ps \<Rightarrow> Inr (fold (\<lambda>u p. p\<lparr>RequireReason :=
            Stricter (RequireReason p) (ReasonRequirement (dp_engine d) ps (dp_graded d u))\<rparr>)
          (parent # map fst (policyUnits d parent steps)) parent))"

end
