(* ===== verification/Policy_Props.thy ===== *)
theory Policy_Props
  imports Policy_Gate
begin

text \<open>
  What the gate guarantees: an agent's run waits for a person, a workflow is gated by the strictest
  of its steps, the community engine never lets through what a rule would hold, and neither the
  order of the rules nor an exemption weakens a hold.
\<close>

section \<open>Rules\<close>

lemma refuse_else: "(if a then False else b) \<longleftrightarrow> \<not> a \<and> b"
  by simp

lemma MatchesPlain_iff:
  "MatchesPlain lower p r \<longleftrightarrow> \<not> (pl_ExcludeDryRun p \<and> ChangeFree r) \<and>
     (pl_Tool p = [] \<or> NormalizeTool (pl_Tool p) = NormalizeTool (Tool r)) \<and>
     (pl_CommandContains p = [] \<or> containsFold lower (Command r) (pl_CommandContains p)) \<and>
     (pl_InventoryID p = [] \<or> TargetsInventory r (pl_InventoryID p)) \<and>
     (pl_Queue p = [] \<or> pl_Queue p = Queue r) \<and> matchesActor p r"
  unfolding MatchesPlain_def refuse_else by blast

lemma MatchesPlain_unscoped:
  "MatchesPlain lower p r \<Longrightarrow> MatchesPlain lower (p\<lparr>pl_Actor := [], pl_ActorKind := [], pl_Account := []\<rparr>) r"
  by (simp add: MatchesPlain_iff matchesActor_def [of "p\<lparr>pl_Actor := [], pl_ActorKind := [], pl_Account := []\<rparr>"]
      matchesAccount_def)

lemma covers_matching: "MatchesPlain lower p r \<Longrightarrow> covers lower p r"
  by (simp add: covers_def coversUnscoped_def MatchesPlain_unscoped)

lemma Exempting_Some:
  "Exempting lower ps r = Some p \<Longrightarrow>
     p \<in> set ps \<and> pl_Rego p = None \<and> Exempts p \<and> (pl_Actor p \<noteq> [] \<longrightarrow> pl_Account p \<noteq> []) \<and> MatchesPlain lower p r"
  by (induction ps) (auto split: if_splits)

lemma Exempting_None_iff:
  "Exempting lower ps r = None \<longleftrightarrow>
     (\<forall>p\<in>set ps. \<not> (pl_Rego p = None \<and> Exempts p \<and> (pl_Actor p \<noteq> [] \<longrightarrow> pl_Account p \<noteq> []) \<and> MatchesPlain lower p r))"
  by (induction ps) auto

text \<open>Whether a rule holds, refuses or asks for anything, by itself.\<close>

definition rego_says :: "(rego_decision \<Rightarrow> bool) \<Rightarrow> policy \<Rightarrow> run \<Rightarrow> bool" where
  "rego_says Q p r = (case pl_Rego p of None \<Rightarrow> False | Some g \<Rightarrow> rd_Err (Decide g r) \<noteq> None \<or> Q (Decide g r))"

definition rule_holds :: "(string \<Rightarrow> string) \<Rightarrow> policy \<Rightarrow> run \<Rightarrow> bool" where
  "rule_holds lower p r \<longleftrightarrow> rego_says (\<lambda>d. rd_Hold d \<noteq> []) p r \<or>
     (pl_Rego p = None \<and> \<not> Exempts p \<and> pl_MaxDestroy p < 0 \<and> covers lower p r)"

definition rule_distinct :: "(string \<Rightarrow> string) \<Rightarrow> policy \<Rightarrow> run \<Rightarrow> bool" where
  "rule_distinct lower p r \<longleftrightarrow> rego_says rd_RequireDistinctApprover p r \<or>
     (pl_Rego p = None \<and> pl_RequireDistinctApprover p \<and> \<not> Exempts p \<and> covers lower p r)"

definition rule_reason :: "(string \<Rightarrow> string) \<Rightarrow> policy \<Rightarrow> run \<Rightarrow> string" where
  "rule_reason lower p r =
     (if rego_says (\<lambda>d. rd_Hold d \<noteq> []) p r \<or> (pl_Rego p = None \<and> \<not> Exempts p \<and> covers lower p r)
      then pl_RequireReason p else [])"

lemma CommunityRequiring_None_iff:
  "CommunityRequiring lower unl ps r = None \<longleftrightarrow> (\<forall>p\<in>set ps. \<not> rule_holds lower p r)"
  by (induction ps) (auto simp: rule_holds_def rego_says_def Let_def split: option.splits)

lemma CommunityDenying_None_iff:
  "CommunityDenying ps r = None \<longleftrightarrow> (\<forall>p\<in>set ps. \<not> rego_says (\<lambda>d. rd_Deny d \<noteq> []) p r)"
  by (induction ps) (auto simp: rego_says_def Let_def split: option.splits)

lemma CommunityRequireDistinct_Cons:
  "CommunityRequireDistinct lower (p # ps) r \<longleftrightarrow> rule_distinct lower p r \<or> CommunityRequireDistinct lower ps r"
  by (cases "pl_Rego p") (auto simp: rule_distinct_def rego_says_def Let_def)

lemma CommunityRequireDistinct_iff:
  "CommunityRequireDistinct lower ps r \<longleftrightarrow> (\<exists>p\<in>set ps. rule_distinct lower p r)"
  by (induction ps) (simp_all only: CommunityRequireDistinct_Cons, simp_all)

definition rule_plans :: "(string \<Rightarrow> string) \<Rightarrow> policy \<Rightarrow> run \<Rightarrow> bool" where
  "rule_plans lower p r \<longleftrightarrow> rego_says rd_PlanGate p r \<or>
     (pl_Rego p = None \<and> \<not> Exempts p \<and> covers lower p r \<and> (pl_MaxDestroy p \<ge> 0 \<or> Advanced p))"

lemma CommunityPlanGated_Cons:
  "CommunityPlanGated lower (p # ps) r \<longleftrightarrow> rule_plans lower p r \<or> CommunityPlanGated lower ps r"
  by (cases "pl_Rego p") (auto simp: rule_plans_def rego_says_def Let_def)

lemma CommunityPlanGated_iff: "CommunityPlanGated lower ps r \<longleftrightarrow> (\<exists>p\<in>set ps. rule_plans lower p r)"
  by (induction ps) (simp_all only: CommunityPlanGated_Cons, simp_all)

section \<open>Reasons\<close>

lemma rank_Stricter: "reason_rank (Stricter a b) = max (reason_rank a) (reason_rank b)"
  by (simp add: Stricter_def)

lemma Stricter_Nil [simp]: "Stricter out [] = out"
  by (simp add: Stricter_def reason_rank_def RequireAlways_def RequireDenials_def)

lemma reason_step_eq: "reason_step lower r p out = Stricter out (rule_reason lower p r)"
  by (cases "pl_Rego p") (simp_all add: reason_step_def rule_reason_def rego_says_def Let_def)

lemma rank_fold:
  assumes "\<And>x out. reason_rank (f x out) = max (reason_rank out) (g x)"
  shows "reason_rank (fold f xs out) = Max (insert (reason_rank out) (g ` set xs))"
proof (induction xs arbitrary: out)
  case (Cons x xs)
  have "Max (insert (max (reason_rank out) (g x)) (g ` set xs)) = Max (insert (reason_rank out) (insert (g x) (g ` set xs)))"
    by (cases "set xs = {}") (simp_all add: max.assoc max.left_commute Max_insert)
  then show ?case using Cons by (simp add: assms)
qed simp

lemma rank_CommunityReasonRequirement:
  "reason_rank (CommunityReasonRequirement lower ps r) = Max (insert 0 ((\<lambda>p. reason_rank (rule_reason lower p r)) ` set ps))"
  unfolding CommunityReasonRequirement_def
  by (subst rank_fold [of _ "\<lambda>p. reason_rank (rule_reason lower p r)"])
    (simp_all add: reason_step_eq rank_Stricter, simp add: reason_rank_def RequireAlways_def RequireDenials_def)

lemma reason_step_named: "ValidRequirement out \<Longrightarrow> ValidRequirement (reason_step lower r p out)"
  by (auto simp: reason_step_eq Stricter_def ValidRequirement_def reason_rank_def split: if_splits)

lemma ReasonRequirement_named: "ValidRequirement (CommunityReasonRequirement lower ps r)"
proof -
  have "ValidRequirement out \<Longrightarrow> ValidRequirement (fold (reason_step lower r) ps out)" for out
    by (induction ps arbitrary: out) (simp_all add: reason_step_named)
  then show ?thesis by (simp add: CommunityReasonRequirement_def ValidRequirement_def)
qed

lemma rank_inj: "ValidRequirement a \<Longrightarrow> ValidRequirement b \<Longrightarrow> reason_rank a = reason_rank b \<Longrightarrow> a = b"
  by (auto simp: ValidRequirement_def reason_rank_def RequireAlways_def RequireDenials_def split: if_splits)

section \<open>The interface of an engine\<close>

text \<open>What the gate relies on, whichever engine is registered: a plain rule that matches holds, and an
  exemption is never itself a reason to hold or not to.\<close>

locale rule_engine =
  fixes lower :: "string \<Rightarrow> string" and eng :: engine
  assumes plain_rule_holds: "p \<in> set ps \<Longrightarrow> pl_Rego p = None \<Longrightarrow> \<not> Advanced p \<Longrightarrow> \<not> Exempts p \<Longrightarrow>
      pl_MaxDestroy p < 0 \<Longrightarrow> MatchesPlain lower p r \<Longrightarrow> en_Requiring eng ps r \<noteq> None"
    and exemptions_ignored: "(en_Requiring eng (filter (\<lambda>p. \<not> (pl_Rego p = None \<and> Exempts p)) ps) r = None) =
      (en_Requiring eng ps r = None)"
begin

lemma exemption_keeps_other_holds:
  assumes "AgentRequested r \<Longrightarrow> False"
  shows "Requires lower eng (filter (\<lambda>p. \<not> (pl_Rego p = None \<and> Exempts p)) ps) r = Requires lower eng ps r"
  using exemptions_ignored [of ps r] assms
  by (auto simp: Requires_def Requiring_def AgentHolds_def split: option.splits)

lemma plain_rule_gates:
  assumes "dp_engine d = eng" "dp_lower d = lower" "listPolicies d = Inr ps" "p \<in> set ps" "pl_Rego p = None"
    "\<not> Advanced p" "\<not> Exempts p" "pl_MaxDestroy p < 0" "MatchesPlain lower p (dp_graded d r)"
    and "requiresApproval d r = Inr (held, r')" and "\<not> unplannedApply (dp_graded d r)"
  shows held
  using assms plain_rule_holds [OF assms(4-9)]
  by (auto simp: requiresApproval_def Requiring_def PlanGated_def Let_def split: option.splits if_splits)

end

lemma rule_engine_community: "rule_engine lower (communityEngine lower unl)"
proof
  fix p ps r
  assume "p \<in> set ps" "pl_Rego p = None" "\<not> Advanced p" "\<not> Exempts p" "pl_MaxDestroy p < 0" "MatchesPlain lower p r"
  then have "rule_holds lower p r" by (simp add: rule_holds_def covers_matching)
  then show "en_Requiring (communityEngine lower unl) ps r \<noteq> None"
    using \<open>p \<in> set ps\<close> CommunityRequiring_None_iff by (auto simp: communityEngine_def)
next
  fix ps r
  show "(en_Requiring (communityEngine lower unl) (filter (\<lambda>p. \<not> (pl_Rego p = None \<and> Exempts p)) ps) r = None) =
      (en_Requiring (communityEngine lower unl) ps r = None)"
    by (auto simp: communityEngine_def CommunityRequiring_None_iff rule_holds_def rego_says_def)
qed

interpretation community: rule_engine lower "communityEngine lower unl" for lower unl
  by (rule rule_engine_community)

section \<open>Properties of the engine\<close>

text \<open>The community engine fails closed. A stored rule that matches a run on every criterion it
  names is never passed over, whatever stands before it in the list and whatever tier it needs: a
  blanket rule, a deny rule included, holds the run; a destroy limit holds the apply whose plan
  exceeds it; a demanded second approver and a demanded reason are demanded; and a Rego program
  that cannot decide refuses the run and holds it.\<close>

theorem community_engine_fails_closed:
  fixes unl lower
  defines "eng \<equiv> communityEngine lower unl"
  assumes p: "p \<in> set ps"
  shows "(pl_Rego p = None \<and> \<not> Exempts p \<and> MatchesPlain lower p r \<longrightarrow>
      (pl_MaxDestroy p < 0 \<longrightarrow> Requires lower eng ps r) \<and>
      (0 \<le> pl_MaxDestroy p \<and> pl_MaxDestroy p < destroys \<longrightarrow> PlanExceeds eng ps r destroys) \<and>
      (pl_RequireDistinctApprover p \<longrightarrow> RequireDistinct eng ps r) \<and>
      reason_rank (pl_RequireReason p) \<le> reason_rank (ReasonRequirement eng ps r)) \<and>
    (rego_says (\<lambda>_. False) p r \<longrightarrow> Denying eng ps r \<noteq> None \<and> Requires lower eng ps r \<and> RequireDistinct eng ps r)"
proof (intro conjI impI)
  assume "pl_Rego p = None \<and> \<not> Exempts p \<and> MatchesPlain lower p r"
  then have m: "pl_Rego p = None" "\<not> Exempts p" "covers lower p r" by (simp_all add: covers_matching)
  { assume "pl_MaxDestroy p < 0"
    then have "CommunityRequiring lower unl ps r \<noteq> None"
      using m p CommunityRequiring_None_iff by (auto simp: rule_holds_def)
    then show "Requires lower eng ps r"
      by (auto simp: Requires_def Requiring_def eng_def communityEngine_def split: option.splits) }
  { assume "0 \<le> pl_MaxDestroy p \<and> pl_MaxDestroy p < destroys"
    then have "p \<in> set (exceededPlain lower ps r destroys)" using m p by (simp add: exceededPlain_def)
    then show "PlanExceeds eng ps r destroys"
      by (auto simp: PlanExceeds_def Exceeding_def eng_def communityEngine_def CommunityExceeding_def split: list.splits) }
  { assume "pl_RequireDistinctApprover p"
    then show "RequireDistinct eng ps r"
      using m p by (auto simp: RequireDistinct_def eng_def communityEngine_def CommunityRequireDistinct_iff rule_distinct_def) }
  have "rule_reason lower p r = pl_RequireReason p" using m by (simp add: rule_reason_def)
  then have "reason_rank (pl_RequireReason p) \<in> insert 0 ((\<lambda>p. reason_rank (rule_reason lower p r)) ` set ps)"
    using p by force
  then show "reason_rank (pl_RequireReason p) \<le> reason_rank (ReasonRequirement eng ps r)"
    by (simp add: ReasonRequirement_def eng_def communityEngine_def rank_CommunityReasonRequirement del: insert_iff)
next
  assume "rego_says (\<lambda>_. False) p r"
  then have e: "rego_says Q p r" for Q by (auto simp: rego_says_def split: option.splits)
  show "Denying eng ps r \<noteq> None"
    using e p CommunityDenying_None_iff by (auto simp: Denying_def eng_def communityEngine_def)
  have "CommunityRequiring lower unl ps r \<noteq> None"
    using e p CommunityRequiring_None_iff by (auto simp: rule_holds_def)
  then show "Requires lower eng ps r"
    by (auto simp: Requires_def Requiring_def eng_def communityEngine_def split: option.splits)
  show "RequireDistinct eng ps r"
    using e p by (auto simp: RequireDistinct_def eng_def communityEngine_def CommunityRequireDistinct_iff rule_distinct_def)
qed

theorem community_engine_fails_closed_witness:
  "Requires id (communityEngine id (\<lambda>_. [])) [plain_policy\<lparr>pl_Effect := EffectDeny, pl_Actor := ''bob'', pl_MaxDestroy := -1\<rparr>]
     (zero_run\<lparr>Actor := ''bob''\<rparr>)"
proof -
  let ?p = "plain_policy\<lparr>pl_Effect := EffectDeny, pl_Actor := ''bob'', pl_MaxDestroy := -1\<rparr>"
  have "pl_Rego ?p = None \<and> \<not> Exempts ?p \<and> MatchesPlain id ?p (zero_run\<lparr>Actor := ''bob''\<rparr>)"
    by (simp add: plain_policy_def Exempts_def effect_names MatchesPlain_def matchesActor_def matchesAccount_def zero_run_def)
  then show ?thesis
    using community_engine_fails_closed [where p = ?p and ps = "[?p]" and lower = id and r = "zero_run\<lparr>Actor := ''bob''\<rparr>" and unl = "\<lambda>_. []"]
    by (simp add: plain_policy_def)
qed

text \<open>The order and the repetition of the rules decide nothing but the name on the record: two
  lists of the same rules refuse, hold, plan first, demand a second approver, demand a reason and
  exempt exactly the same runs.\<close>

theorem rule_order_decides_nothing:
  fixes lower unl
  defines "eng \<equiv> communityEngine lower unl"
  assumes "set ps = set ps'"
  shows "(Denying eng ps r = None \<longleftrightarrow> Denying eng ps' r = None) \<and>
    (Requires lower eng ps r \<longleftrightarrow> Requires lower eng ps' r) \<and>
    (PlanGated lower eng ps r \<longleftrightarrow> PlanGated lower eng ps' r) \<and>
    (RequireDistinct eng ps r \<longleftrightarrow> RequireDistinct eng ps' r) \<and>
    ReasonRequirement eng ps r = ReasonRequirement eng ps' r \<and>
    (AgentHolds lower ps r \<longleftrightarrow> AgentHolds lower ps' r)"
proof (intro conjI)
  show "Denying eng ps r = None \<longleftrightarrow> Denying eng ps' r = None"
    using assms(2) by (simp add: Denying_def eng_def communityEngine_def CommunityDenying_None_iff)
  show h: "AgentHolds lower ps r \<longleftrightarrow> AgentHolds lower ps' r"
    using assms(2) by (simp add: AgentHolds_def Exempting_None_iff)
  have "(CommunityRequiring lower unl ps r = None) = (CommunityRequiring lower unl ps' r = None)"
    using assms(2) by (simp add: CommunityRequiring_None_iff)
  then show q: "Requires lower eng ps r \<longleftrightarrow> Requires lower eng ps' r"
    using h by (auto simp: Requires_def Requiring_def eng_def communityEngine_def split: option.splits)
  have "en_PlanGated eng ps r \<longleftrightarrow> en_PlanGated eng ps' r"
    using assms(2) by (simp add: eng_def communityEngine_def CommunityPlanGated_iff)
  then show "PlanGated lower eng ps r \<longleftrightarrow> PlanGated lower eng ps' r"
    using h q [unfolded Requires_def] unfolding PlanGated_def by presburger
  show "RequireDistinct eng ps r \<longleftrightarrow> RequireDistinct eng ps' r"
    using assms(2) by (simp add: RequireDistinct_def eng_def communityEngine_def CommunityRequireDistinct_iff)
  show "ReasonRequirement eng ps r = ReasonRequirement eng ps' r"
    unfolding ReasonRequirement_def
    by (rule rank_inj) (use assms(2) in \<open>simp_all add: eng_def communityEngine_def ReasonRequirement_named
        rank_CommunityReasonRequirement\<close>)
qed

theorem rule_order_decides_nothing_witness:
  "ReasonRequirement (communityEngine id (\<lambda>_. []))
     [plain_policy\<lparr>pl_RequireReason := RequireDenials\<rparr>, plain_policy\<lparr>pl_RequireReason := RequireAlways\<rparr>] zero_run =
   ReasonRequirement (communityEngine id (\<lambda>_. []))
     [plain_policy\<lparr>pl_RequireReason := RequireAlways\<rparr>, plain_policy\<lparr>pl_RequireReason := RequireDenials\<rparr>] zero_run"
  using rule_order_decides_nothing [of "[plain_policy\<lparr>pl_RequireReason := RequireDenials\<rparr>, plain_policy\<lparr>pl_RequireReason := RequireAlways\<rparr>]"
    "[plain_policy\<lparr>pl_RequireReason := RequireAlways\<rparr>, plain_policy\<lparr>pl_RequireReason := RequireDenials\<rparr>]" id "\<lambda>_. []" zero_run]
  by auto

section \<open>Properties of the gate\<close>

definition stopped :: "gate_error + bool \<times> run \<Rightarrow> bool" where
  "stopped res = (case res of Inl _ \<Rightarrow> True | Inr (held, _) \<Rightarrow> held)"

lemma AgentHolds_requiring: "AgentHolds (dp_lower d) ps gr \<Longrightarrow> requiring d ps gr \<noteq> None"
  by (auto simp: Requiring_def split: option.splits)

lemma AgentHolds_held:
  assumes "listPolicies d = Inr ps" and "AgentHolds (dp_lower d) ps (dp_graded d r)" and "ParentID (dp_graded d r) = None"
  shows "stopped (requiresApproval d r)"
proof -
  obtain p where "requiring d ps (dp_graded d r) = Some p" using AgentHolds_requiring [OF assms(2)] by blast
  then show ?thesis
    using assms by (auto simp: stopped_def requiresApproval_def AgentPlansFirst_def PlanGated_def Let_def)
qed

lemma fst_gate_unit: "fst (gate_unit d ps (u, n) hp) \<longleftrightarrow> fst hp \<or> requiring d ps (dp_graded d u) \<noteq> None"
  by (auto simp: gate_unit_def Let_def split: prod.splits option.splits)

lemma fst_fold_gate_unit:
  "fst (fold (gate_unit d ps) us hp) \<longleftrightarrow> fst hp \<or> (\<exists>u\<in>set us. requiring d ps (dp_graded d (fst u)) \<noteq> None)"
proof (induction us arbitrary: hp)
  case (Cons un us)
  obtain u n where un: "un = (u, n)" by (cases un)
  show ?case using Cons [of "gate_unit d ps un hp"] fst_gate_unit [of d ps u n hp] by (auto simp: un)
qed simp

text \<open>The units a workflow is gated as: itself and every step that executes something.\<close>

definition gated_units :: "dispatcher \<Rightarrow> policy list \<Rightarrow> run \<Rightarrow> pipeline_step list \<Rightarrow> run list" where
  "gated_units d ps parent steps =
     dp_graded d parent # map (\<lambda>u. dp_graded d (fst u)) (policyUnits d (snd (gate_parent d ps parent)) steps)"

lemma fst_gate_parent: "fst (gate_parent d ps parent) \<longleftrightarrow> requiring d ps (dp_graded d parent) \<noteq> None"
  by (auto simp: gate_parent_def Let_def split: option.splits)

lemma pipeline_held_iff:
  assumes "listPolicies d = Inr ps" and "pipelineRequiresApproval d parent steps = Inr (held, parent')"
  shows "held \<longleftrightarrow> (\<exists>u\<in>set (gated_units d ps parent steps). requiring d ps u \<noteq> None)"
proof -
  obtain h0 p1 where gp: "gate_parent d ps parent = (h0, p1)" by (cases "gate_parent d ps parent")
  obtain h p2 where f: "fold (gate_unit d ps) (policyUnits d p1 steps) (h0, p1) = (h, p2)"
    by (cases "fold (gate_unit d ps) (policyUnits d p1 steps) (h0, p1)")
  have "held = h" using assms by (auto simp: pipelineRequiresApproval_def gp f Let_def split: if_splits)
  then show ?thesis
    using fst_fold_gate_unit [of d ps "policyUnits d p1 steps" "(h0, p1)"] fst_gate_parent [of d ps parent]
    by (auto simp: f gp gated_units_def)
qed

lemma listPolicies_readable: "pipelineRequiresApproval d parent steps = Inr x \<Longrightarrow> \<exists>ps. listPolicies d = Inr ps"
  by (auto simp: pipelineRequiresApproval_def split: sum.splits)

text \<open>C30. A run an agent asked for waits for a person. Whatever rules are stored, whatever engine is
  registered and whatever the run is - a dry run, an apply, a workflow - the gate refuses it or
  holds it unless an exemption matches it on every criterion, and an exemption that names the
  agent's label also names an account, which has to be known and the run's own.\<close>

theorem agent_runs_wait_for_a_person:
  assumes "AgentRequested (dp_graded d r)" and "ParentID (dp_graded d r) = None"
  shows "(stopped (requiresApproval d r) \<and> stopped (pipelineRequiresApproval d r steps)) \<or>
    (\<exists>ps p. listPolicies d = Inr ps \<and> p \<in> set ps \<and> Exempts p \<and> MatchesPlain (dp_lower d) p (dp_graded d r) \<and>
      (pl_Actor p \<noteq> [] \<longrightarrow> pl_Actor p = Actor (dp_graded d r) \<and> pl_Account p \<noteq> []) \<and>
      (pl_Account p \<noteq> [] \<longrightarrow> accountOf (dp_graded d r) = (pl_Account p, True)))"
proof (cases "listPolicies d")
  case (Inl e)
  then show ?thesis by (simp add: stopped_def requiresApproval_def pipelineRequiresApproval_def)
next
  case (Inr ps)
  let ?gr = "dp_graded d r"
  show ?thesis
  proof (cases "Exempting (dp_lower d) ps ?gr")
    case None
    then have h: "AgentHolds (dp_lower d) ps ?gr" using assms(1) by (simp add: AgentHolds_def)
    have "held" if "pipelineRequiresApproval d r steps = Inr (held, r')" for held r'
      using pipeline_held_iff [OF Inr that] AgentHolds_requiring [OF h] by (simp add: gated_units_def)
    then have "stopped (pipelineRequiresApproval d r steps)"
      by (auto simp: stopped_def split: sum.splits)
    then show ?thesis using AgentHolds_held [OF Inr h assms(2)] by blast
  next
    case (Some p)
    have a: "matchesActor p ?gr" and x: "p \<in> set ps" "Exempts p" "MatchesPlain (dp_lower d) p ?gr"
      "pl_Actor p \<noteq> [] \<longrightarrow> pl_Account p \<noteq> []"
      using Exempting_Some [OF Some] by (auto simp: MatchesPlain_iff)
    have "pl_Actor p \<noteq> [] \<longrightarrow> pl_Actor p = Actor ?gr" "matchesAccount p ?gr"
      using a by (auto simp: matchesActor_def split: if_splits)
    moreover from this have "pl_Account p \<noteq> [] \<longrightarrow> accountOf ?gr = (pl_Account p, True)"
      using x(2) by (cases "accountOf ?gr") (auto simp: matchesAccount_def split: if_splits)
    ultimately show ?thesis using x Inr by blast
  qed
qed

text \<open>A dispatcher that changes nothing it is handed, over a given source of rules.\<close>

definition sample_dispatcher :: "policy_source \<Rightarrow> dispatcher" where
  "sample_dispatcher src = \<lparr>dp_policies = src, dp_engine = communityEngine id (\<lambda>_. []), dp_lower = id, dp_quote = id,
     dp_graded = id, dp_stepRun = (\<lambda>r s _. r\<lparr>Tool := ps_Tool s, Command := ps_Command s\<rparr>), dp_mask = (\<lambda>_ s. s),
     dp_inForce = (\<lambda>ps. \<lparr>pset_Digest = [], pset_Count = int (length ps), pset_Rules = []\<rparr>),
     dp_exemptionText = (\<lambda>_ _ _. []), dp_agentText = (\<lambda>_. [])\<rparr>"

theorem agent_runs_wait_for_a_person_witness:
  "listPolicies (sample_dispatcher NoStore) = Inr [] \<and>
   stopped (requiresApproval (sample_dispatcher NoStore) (zero_run\<lparr>ActorType := ''agent'', DryRun := True\<rparr>))"
proof -
  let ?d = "sample_dispatcher NoStore" and ?r = "zero_run\<lparr>ActorType := ''agent'', DryRun := True\<rparr>"
  have "AgentRequested (dp_graded ?d ?r)" "ParentID (dp_graded ?d ?r) = None" "listPolicies ?d = Inr []"
    by (simp_all add: AgentRequested_def ActorKindAgent_def zero_run_def listPolicies_def sample_dispatcher_def)
  then show ?thesis using agent_runs_wait_for_a_person [of ?d ?r "[]"] by auto
qed

section \<open>Workflows\<close>

lemma fold_reason:
  "RequireReason (fold (\<lambda>gu p. p\<lparr>RequireReason := Stricter (RequireReason p) (q gu)\<rparr>) units parent) =
     fold (\<lambda>gu out. Stricter out (q gu)) units (RequireReason parent)"
  "RequireDistinctApprover (fold (\<lambda>gu p. p\<lparr>RequireReason := Stricter (RequireReason p) (q gu)\<rparr>) units parent) =
     RequireDistinctApprover parent"
  by (induction units arbitrary: parent) simp_all

lemma rank_fold_Stricter:
  "reason_rank (fold (\<lambda>gu out. Stricter out (q gu)) units out) = Max (insert (reason_rank out) ((\<lambda>u. reason_rank (q u)) ` set units))"
  by (rule rank_fold) (simp add: rank_Stricter)

lemma gate_unit_flags:
  "RequireDistinctApprover (snd (gate_unit d ps un hp)) = RequireDistinctApprover (snd hp)"
  "RequireReason (snd (gate_unit d ps un hp)) = RequireReason (snd hp)"
  by (auto simp: gate_unit_def Let_def split: prod.splits option.splits)

lemma fold_gate_unit_flags:
  "RequireDistinctApprover (snd (fold (gate_unit d ps) us hp)) = RequireDistinctApprover (snd hp) \<and>
   RequireReason (snd (fold (gate_unit d ps) us hp)) = RequireReason (snd hp)"
  by (induction us arbitrary: hp) (simp_all add: gate_unit_flags)

lemma gate_parent_flags:
  "RequireDistinctApprover (snd (gate_parent d ps parent)) = RequireDistinctApprover parent"
  "RequireReason (snd (gate_parent d ps parent)) = RequireReason parent"
  by (auto simp: gate_parent_def Let_def split: option.splits)

lemma strictest_flags:
  "RequireDistinctApprover (strictest d ps units parent) \<longleftrightarrow>
     RequireDistinctApprover parent \<or> (\<exists>u\<in>set units. RequireDistinct (dp_engine d) ps u)"
  "reason_rank (RequireReason (strictest d ps units parent)) =
     Max (insert (reason_rank (RequireReason parent)) ((\<lambda>u. reason_rank (ReasonRequirement (dp_engine d) ps u)) ` set units))"
  by (auto simp: strictest_def Let_def list_ex_iff fold_reason rank_fold_Stricter)

text \<open>Wrapping a change in a workflow does not launder it. A workflow is held exactly when some
  rule, or the built-in hold, stops the workflow or any step of it that executes something; and a
  held one asks for a second approver when any unit's rules do, and for a reason as strict as the
  strictest of them, since approving it releases every step.\<close>

theorem workflow_gated_as_its_steps:
  assumes "listPolicies d = Inr ps"
  shows "\<exists>held parent'. pipelineRequiresApproval d parent steps = Inr (held, parent') \<and>
    (held \<longleftrightarrow> (\<exists>u\<in>set (gated_units d ps parent steps). Requires (dp_lower d) (dp_engine d) ps u)) \<and>
    (held \<longrightarrow>
      (RequireDistinctApprover parent' \<longleftrightarrow> RequireDistinctApprover parent \<or>
        (\<exists>u\<in>set (gated_units d ps parent steps). RequireDistinct (dp_engine d) ps u)) \<and>
      (\<forall>u\<in>set (gated_units d ps parent steps).
        reason_rank (ReasonRequirement (dp_engine d) ps u) \<le> reason_rank (RequireReason parent')) \<and>
      reason_rank (RequireReason parent) \<le> reason_rank (RequireReason parent'))"
proof -
  obtain h0 p1 where gp: "gate_parent d ps parent = (h0, p1)" by (cases "gate_parent d ps parent")
  obtain h p2 where f: "fold (gate_unit d ps) (policyUnits d p1 steps) (h0, p1) = (h, p2)"
    by (cases "fold (gate_unit d ps) (policyUnits d p1 steps) (h0, p1)")
  let ?us = "gated_units d ps parent steps"
  let ?p = "if h then strictest d ps ?us p2 else p2"
  have us: "?us = dp_graded d parent # map (\<lambda>u. dp_graded d (fst u)) (policyUnits d p1 steps)"
    by (simp add: gated_units_def gp)
  have res: "pipelineRequiresApproval d parent steps = Inr (h, ?p)"
    using assms by (simp add: pipelineRequiresApproval_def gp f Let_def us)
  have flags: "RequireDistinctApprover p2 = RequireDistinctApprover parent" "RequireReason p2 = RequireReason parent"
    using fold_gate_unit_flags [of d ps "policyUnits d p1 steps" "(h0, p1)"] gate_parent_flags [of d ps parent]
    by (simp_all add: f gp)
  have held: "h \<longleftrightarrow> (\<exists>u\<in>set ?us. Requires (dp_lower d) (dp_engine d) ps u)"
    using pipeline_held_iff [OF assms res] by (simp add: Requires_def)
  have "reason_rank (ReasonRequirement (dp_engine d) ps u) \<le> reason_rank (RequireReason (strictest d ps ?us p2))"
    if "u \<in> set ?us" for u
    unfolding strictest_flags using that by (intro Max_ge) auto
  moreover have "reason_rank (RequireReason parent) \<le> reason_rank (RequireReason (strictest d ps ?us p2))"
    unfolding strictest_flags flags by (intro Max_ge) auto
  ultimately have "h \<longrightarrow> (RequireDistinctApprover ?p \<longleftrightarrow> RequireDistinctApprover parent \<or>
        (\<exists>u\<in>set ?us. RequireDistinct (dp_engine d) ps u)) \<and>
      (\<forall>u\<in>set ?us. reason_rank (ReasonRequirement (dp_engine d) ps u) \<le> reason_rank (RequireReason ?p)) \<and>
      reason_rank (RequireReason parent) \<le> reason_rank (RequireReason ?p)"
    by (simp add: strictest_flags(1) flags)
  then show ?thesis using res held by blast
qed



theorem workflow_gated_as_its_steps_witness:
  "\<exists>parent'. pipelineRequiresApproval
     (sample_dispatcher (Rules [plain_policy\<lparr>pl_Tool := ''bash'', pl_MaxDestroy := -1\<rparr>])) zero_run
     [\<lparr>ps_Name = ''a'', ps_Type = [], ps_Description = [], ps_ApprovalTimeout = 0, ps_Playbook = [], ps_Inventory = [],
       ps_Tool = ''bash'', ps_Command = ''true'', ps_DryRun = False, ps_ContinueOnFailure = False, ps_Retries = 0,
       ps_DependsOn = [], ps_IfDenied = []\<rparr>] = Inr (True, parent')"
proof -
  let ?p = "plain_policy\<lparr>pl_Tool := ''bash'', pl_MaxDestroy := -1\<rparr>"
  let ?d = "sample_dispatcher (Rules [?p])"
  let ?s = "\<lparr>ps_Name = ''a'', ps_Type = [], ps_Description = [], ps_ApprovalTimeout = 0, ps_Playbook = [], ps_Inventory = [],
       ps_Tool = ''bash'', ps_Command = ''true'', ps_DryRun = False, ps_ContinueOnFailure = False, ps_Retries = 0,
       ps_DependsOn = [], ps_IfDenied = []\<rparr>"
  let ?u = "(snd (gate_parent ?d [?p] zero_run))\<lparr>Tool := ''bash'', Command := ''true''\<rparr>"
  have l: "listPolicies ?d = Inr [?p]" by (simp add: sample_dispatcher_def listPolicies_def)
  have u: "?u \<in> set (gated_units ?d [?p] zero_run [?s])"
    by (simp add: gated_units_def policyUnits_def IsApproval_def StepApproval_def sample_dispatcher_def)
  have "pl_Rego ?p = None \<and> \<not> Exempts ?p \<and> MatchesPlain id ?p ?u"
    by (simp add: plain_policy_def Exempts_def effect_names MatchesPlain_def matchesActor_def matchesAccount_def
        NormalizeTool_def)
  then have "rule_holds id ?p ?u" by (simp add: rule_holds_def covers_matching)
  then have "CommunityRequiring id (\<lambda>_. []) [?p] ?u \<noteq> None" by (simp only: CommunityRequiring_None_iff) simp
  then have "Requires (dp_lower ?d) (dp_engine ?d) [?p] ?u"
    by (auto simp: Requires_def Requiring_def sample_dispatcher_def communityEngine_def split: option.splits)
  then have req: "\<exists>u\<in>set (gated_units ?d [?p] zero_run [?s]). Requires (dp_lower ?d) (dp_engine ?d) [?p] u"
    using u by (rule bexI)
  obtain held parent' where "pipelineRequiresApproval ?d zero_run [?s] = Inr (held, parent')"
    and "held = (\<exists>u\<in>set (gated_units ?d [?p] zero_run [?s]). Requires (dp_lower ?d) (dp_engine ?d) [?p] u)"
    using workflow_gated_as_its_steps [OF l, of zero_run "[?s]"] by iprover
  with req show ?thesis by (intro exI [of _ parent']) simp
qed

end
