(* ===== verification/Dag_Walk.thy ===== *)
theory Dag_Walk
  imports Approval_Closure Audit_Entry
begin

text \<open>
  The graph walk of a workflow (\<open>internal/dispatch/dag.go\<close>): one coordinator starts every step
  whose dependencies let it, skips the steps that can never start, waits at approval steps, and
  folds how the steps ended into how the workflow ends. A walk starts fresh or from the step
  records a parked workflow left behind.

  What the walk asks of the world around it, the stop signal of its context, the store, the audit
  chain and the binding verifier, is the record \<open>walk_env\<close>. Its answers are indexed by a clock that
  advances with every question, so two questions may be answered differently. The goroutine a
  started step runs in is the state \<open>stepRunning\<close> of the step: its one result arrives later, at a
  time the environment picks.
\<close>

section \<open>Chain roots and refusals\<close>

record root =
  rt_EntryID :: string
  rt_ContentDigest :: string
  rt_Path :: string
  rt_Method :: string
  rt_Actor :: string
  rt_ActorType :: string
  rt_OnBehalfOf :: string

definition zero_root :: root where
  "zero_root = \<lparr>rt_EntryID = [], rt_ContentDigest = [], rt_Path = [], rt_Method = [], rt_Actor = [],
     rt_ActorType = [], rt_OnBehalfOf = []\<rparr>"

definition RootOf :: "entry \<Rightarrow> root" where
  "RootOf e = \<lparr>rt_EntryID = ae_ID e, rt_ContentDigest = ae_ContentDigest e, rt_Path = ae_Path e,
     rt_Method = ae_Method e, rt_Actor = ae_Actor e, rt_ActorType = ae_ActorType e,
     rt_OnBehalfOf = ae_OnBehalfOf e\<rparr>"

definition StepApproved :: string where "StepApproved = ''approved''"
definition StepRejected :: string where "StepRejected = ''rejected''"
definition StepTimedOut :: string where "StepTimedOut = ''timed_out''"

definition StepDecisionPath :: "string \<Rightarrow> string \<Rightarrow> string \<Rightarrow> string" where
  "StepDecisionPath runID stepRunID verdict =
     ''/runs/'' @ runID @ ''/steps/'' @ stepRunID @ ''/decision/'' @ verdict"

text \<open>Why a check failed: a refusal in its own words, or a read that failed. \<open>Unverified\<close> is an
  error that wraps \<open>ErrUnverified\<close> and one store error, with its whole text and the store error's;
  \<open>UnverifiedOther\<close> one that wraps \<open>ErrUnverified\<close> in any other shape.\<close>

datatype check_error = Refused string | Unverified string string | UnverifiedOther string

definition error_text :: "check_error \<Rightarrow> string" where
  "error_text e = (case e of Refused t \<Rightarrow> t | Unverified t _ \<Rightarrow> t | UnverifiedOther t \<Rightarrow> t)"

definition CutSuffix :: "string \<Rightarrow> string \<Rightarrow> string option" where
  "CutSuffix s p = map_option rev (CutPrefix (rev s) (rev p))"

definition RefusalText :: "check_error \<Rightarrow> string" where
  "RefusalText e =
     (let unread = ''could not verify: a read the check depends on failed'' in
      case e of
        Refused t \<Rightarrow> t
      | Unverified t cause \<Rightarrow> (case CutSuffix t ('': '' @ cause) of Some p \<Rightarrow> p | None \<Rightarrow> unread)
      | UnverifiedOther t \<Rightarrow> unread)"

definition drift :: "string \<Rightarrow> string \<Rightarrow> check_error" where
  "drift subject what = Refused (''refused: '' @ subject @ '': '' @ what)"

definition unverified :: "string \<Rightarrow> string \<Rightarrow> string \<Rightarrow> check_error" where
  "unverified subject what cause =
     Unverified (''could not verify: '' @ subject @ '': '' @ what @ '': '' @ cause) cause"

section \<open>The environment\<close>

text \<open>A store error, and whether it reports a write that landed in part.\<close>

datatype io_error = IoError string | PartlyDelivered string

definition io_text :: "io_error \<Rightarrow> string" where
  "io_text e = (case e of IoError t \<Rightarrow> t | PartlyDelivered t \<Rightarrow> t)"

text \<open>How an approval step's request went: recorded under the node's id, or not, with the id of
  the node when it was stored before the request failed.\<close>

datatype open_answer = Opened string | NotOpened "string option"

record walk_env =
  en_binder :: bool
  en_audits :: bool
  en_quote :: "string \<Rightarrow> string"
  en_stopped :: "nat \<Rightarrow> bool"
  en_shutdown :: "nat \<Rightarrow> bool"
  en_chainEntry :: "nat \<Rightarrow> string \<Rightarrow> io_error + entry option"
  en_stepBinding :: "nat \<Rightarrow> run \<Rightarrow> run \<Rightarrow> check_error option"
  en_result :: "nat \<Rightarrow> run \<Rightarrow> check_error option"
  en_openStep :: "nat \<Rightarrow> run \<Rightarrow> pipeline_step \<Rightarrow> nat \<Rightarrow> open_answer"
  en_Get :: "nat \<Rightarrow> string \<Rightarrow> run option"

text \<open>\<open>withRetries\<close> gives a call four attempts and stops early at a write that landed in part.\<close>

fun retries :: "nat \<Rightarrow> (nat \<Rightarrow> io_error + 'a) \<Rightarrow> nat \<Rightarrow> (io_error + 'a) \<times> nat" where
  "retries 0 f t = (f t, Suc t)"
| "retries (Suc left) f t =
     (case f t of
        Inr a \<Rightarrow> (Inr a, Suc t)
      | Inl (PartlyDelivered e) \<Rightarrow> (Inl (PartlyDelivered e), Suc t)
      | Inl (IoError e) \<Rightarrow> retries left f (Suc t))"

definition withRetries :: "(nat \<Rightarrow> io_error + 'a) \<Rightarrow> nat \<Rightarrow> (io_error + 'a) \<times> nat" where
  "withRetries f t = retries 3 f t"

definition stoppedStatus :: "walk_env \<Rightarrow> nat \<Rightarrow> status" where
  "stoppedStatus env t = (if en_shutdown env t then StatusInterrupted else StatusCanceled)"

text \<open>The decision that won the workflow, as the chain records it.\<close>

definition workflowRoots :: "walk_env \<Rightarrow> run \<Rightarrow> nat \<Rightarrow> (check_error + root list) \<times> nat" where
  "workflowRoots env parent t =
     (if \<not> en_binder env \<or> DecisionID parent = [] then (Inr [], t)
      else
        let subject = ''workflow run '' @ ID parent; named = ''chain entry '' @ DecisionID parent in
        case withRetries (\<lambda>t. en_chainEntry env t (DecisionID parent)) t of
          (Inl e, t') \<Rightarrow> (Inl (unverified subject (''read '' @ named) (io_text e)), t')
        | (Inr None, t') \<Rightarrow> (Inl (drift subject (named @ '' it names is not on the chain'')), t')
        | (Inr (Some e), t') \<Rightarrow>
            if ae_Method e \<noteq> MethodDecision \<or>
               ae_Path e \<noteq> ''/runs/'' @ ID parent @ ''/decision/'' @ StepApproved
            then (Inl (drift subject (named @ '' is not the decision it names'')), t')
            else (Inr [RootOf e], t'))"

definition verdictRoot ::
  "walk_env \<Rightarrow> run \<Rightarrow> run \<Rightarrow> string list \<Rightarrow> nat \<Rightarrow> (check_error + root) \<times> nat" where
  "verdictRoot env parent node verdicts t =
     (let subject = ''approval step '' @ en_quote env (StepName node) @ '' (run '' @ ID node @ '')'';
          named = ''chain entry '' @ DecisionID node
      in if DecisionID node = []
         then (Inl (drift subject (''it reads as '' @ status_text (Status node) @
                 '' and names no decision on the chain'')), t)
         else case withRetries (\<lambda>t. en_chainEntry env t (DecisionID node)) t of
           (Inl e, t') \<Rightarrow> (Inl (unverified subject (''read '' @ named) (io_text e)), t')
         | (Inr None, t') \<Rightarrow> (Inl (drift subject (named @ '' it names is not on the chain'')), t')
         | (Inr (Some e), t') \<Rightarrow>
             if \<exists>v\<in>set verdicts. ae_Method e = MethodDecision \<and>
                  ae_Path e = StepDecisionPath (ID parent) (ID node) v
             then (Inr (RootOf e), t')
             else (Inl (drift subject (named @ '' does not record a verdict of '' @
                     JoinStrings verdicts '' or '' @ '' on it'')), t'))"

section \<open>The walk\<close>

datatype stepState = stepWaiting | stepRunning | stepDone | stepSkipped | stepAwaiting

type_synonym vars = "(string \<times> goany) list"

record stepResult =
  sr_idx :: nat
  sr_status :: status
  sr_outputs :: vars
  sr_reason :: string

record stepsResult =
  failed :: bool
  canceled :: bool
  interrupted :: bool
  parked :: bool
  reason :: string

definition zero_result :: stepsResult where
  "zero_result = \<lparr>failed = False, canceled = False, interrupted = False, parked = False, reason = []\<rparr>"

text \<open>\<open>w_clock\<close> counts the answers the environment gave, and \<open>w_launched\<close> what each started step was
  handed: its inputs and the chain entries that released it.\<close>

record dag_walk =
  w_parent :: run
  w_steps :: "pipeline_step list"
  w_byName :: "string \<rightharpoonup> nat"
  w_closures :: closures
  w_states :: "stepState list"
  w_results :: "status list"
  w_outputs :: "vars list"
  w_nodes :: "nat \<rightharpoonup> string"
  w_handled :: "bool list"
  w_refused :: "bool list"
  w_roots :: "root list"
  w_workflowRoots :: "root list"
  w_workflowRead :: bool
  w_running :: int
  w_awaiting :: int
  w_res :: stepsResult
  w_clock :: nat
  w_launched :: "(nat \<times> vars \<times> root list) list"

text \<open>\<open>depClosures\<close> shares \<open>build\<close> with \<open>stepClosures\<close>; a name the graph does not have reads as step 0,
  the zero value of the map.\<close>

definition named_indices :: "pipeline_step list \<Rightarrow> (string \<rightharpoonup> nat) \<Rightarrow> nat \<Rightarrow> nat list" where
  "named_indices steps byName i =
     map (index_of byName) (ps_DependsOn (steps ! i) @ ps_IfDenied (steps ! i))"

definition depClosures :: "pipeline_step list \<Rightarrow> (string \<rightharpoonup> nat) \<Rightarrow> closures" where
  "depClosures steps byName =
     (let n = length steps in
      fold (build n (named_indices steps byName)) [0..<n] (replicate n None))"

fun hasDependencies :: "pipeline_step list \<Rightarrow> bool" where
  "hasDependencies [] = False"
| "hasDependencies (s # ss) =
     (if length (ps_DependsOn s) > 0 \<or> length (ps_IfDenied s) > 0 then True else hasDependencies ss)"

definition mark_handled :: "pipeline_step list \<Rightarrow> (string \<rightharpoonup> nat) \<Rightarrow> bool list" where
  "mark_handled steps byName =
     fold (\<lambda>s. fold (\<lambda>dep h. h[index_of byName dep := True]) (ps_IfDenied s)) steps
       (replicate (length steps) False)"

definition newDAGWalk :: "run \<Rightarrow> pipeline_step list \<Rightarrow> dag_walk" where
  "newDAGWalk parent steps =
     (let n = length steps; byName = name_index 0 steps in
      \<lparr>w_parent = parent, w_steps = steps, w_byName = byName,
       w_closures = depClosures steps byName, w_states = replicate n stepWaiting,
       w_results = replicate n (StatusOther []), w_outputs = replicate n [], w_nodes = Map.empty,
       w_handled = mark_handled steps byName, w_refused = replicate n False,
       w_roots = replicate n zero_root, w_workflowRoots = [], w_workflowRead = False,
       w_running = 0, w_awaiting = 0, w_res = zero_result, w_clock = 0, w_launched = []\<rparr>)"

subsection \<open>Settling a step\<close>

definition note_result :: "dag_walk \<Rightarrow> nat \<Rightarrow> status \<Rightarrow> stepsResult \<Rightarrow> stepsResult" where
  "note_result w i status res =
     (case status of
        StatusInterrupted \<Rightarrow> res\<lparr>interrupted := True\<rparr>
      | StatusCanceled \<Rightarrow> res\<lparr>canceled := True\<rparr>
      | StatusSucceeded \<Rightarrow> res
      | _ \<Rightarrow> if IsApproval (w_steps w ! i) \<and> w_handled w ! i \<and> \<not> w_refused w ! i then res
             else res\<lparr>failed := True\<rparr>)"

definition settle :: "nat \<Rightarrow> status \<Rightarrow> vars \<Rightarrow> dag_walk \<Rightarrow> dag_walk" where
  "settle i status out w =
     w\<lparr>w_states := (w_states w)[i := stepDone], w_results := (w_results w)[i := status],
       w_outputs := (w_outputs w)[i := out], w_res := note_result w i status (w_res w)\<rparr>"

definition mark_refused :: "nat \<Rightarrow> string \<Rightarrow> dag_walk \<Rightarrow> dag_walk" where
  "mark_refused i why w =
     w\<lparr>w_refused := (w_refused w)[i := True], w_res := (w_res w)\<lparr>reason := why\<rparr>\<rparr>"

definition refuse :: "nat \<Rightarrow> string \<Rightarrow> dag_walk \<Rightarrow> dag_walk" where
  "refuse i why w = settle i StatusFailed [] (mark_refused i why w)"

definition finish :: "stepResult \<Rightarrow> dag_walk \<Rightarrow> dag_walk" where
  "finish r w =
     (if sr_reason r \<noteq> [] then refuse (sr_idx r) (sr_reason r) w
      else settle (sr_idx r) (sr_status r) (sr_outputs r) w)"

subsection \<open>What an approval step's record settles\<close>

definition approved_node :: "walk_env \<Rightarrow> nat \<Rightarrow> run \<Rightarrow> dag_walk \<Rightarrow> check_error option \<times> dag_walk" where
  "approved_node env i node w =
     (let check = (\<lambda>t. en_stepBinding env t (w_parent w) node) in
      if \<not> en_binder env
      then (check (w_clock w), w\<lparr>w_clock := Suc (w_clock w)\<rparr>)
      else case verdictRoot env (w_parent w) node [StepApproved] (w_clock w) of
        (Inl e, t) \<Rightarrow> (Some e, w\<lparr>w_clock := t\<rparr>)
      | (Inr r, t) \<Rightarrow>
          (case check t of
             Some e \<Rightarrow> (Some e, w\<lparr>w_clock := Suc t\<rparr>)
           | None \<Rightarrow> (None, w\<lparr>w_clock := Suc t, w_roots := (w_roots w)[i := r]\<rparr>)))"

definition denied_node :: "walk_env \<Rightarrow> nat \<Rightarrow> run \<Rightarrow> dag_walk \<Rightarrow> check_error option \<times> dag_walk" where
  "denied_node env i node w =
     (if \<not> en_audits env then (None, w)
      else case verdictRoot env (w_parent w) node [StepRejected, StepTimedOut] (w_clock w) of
        (Inl e, t) \<Rightarrow> (Some e, w\<lparr>w_clock := t\<rparr>)
      | (Inr r, t) \<Rightarrow>
          (None, w\<lparr>w_clock := t, w_roots := (if en_binder env then (w_roots w)[i := r] else w_roots w)\<rparr>))"

definition decided :: "walk_env \<Rightarrow> nat \<Rightarrow> run \<Rightarrow> dag_walk \<Rightarrow> status \<times> dag_walk" where
  "decided env i node w =
     (let held = (\<lambda>(err, w'). case err of
                    Some e \<Rightarrow> (StatusFailed, mark_refused i (RefusalText e) w')
                  | None \<Rightarrow> (Status node, w'))
      in case Status node of
        StatusSucceeded \<Rightarrow> held (approved_node env i node w)
      | StatusRejected \<Rightarrow> held (denied_node env i node w)
      | StatusFailed \<Rightarrow> held (denied_node env i node w)
      | s \<Rightarrow> (s, w))"

definition settle_node :: "walk_env \<Rightarrow> nat \<Rightarrow> run \<Rightarrow> dag_walk \<Rightarrow> dag_walk" where
  "settle_node env i node w = (case decided env i node w of (status, w') \<Rightarrow> settle i status [] w')"

subsection \<open>Readiness\<close>

definition baseStepVars :: "run \<Rightarrow> vars" where
  "baseStepVars parent = AList.merge [] (ExtraVars parent)"

definition inputsFor :: "dag_walk \<Rightarrow> nat \<Rightarrow> vars" where
  "inputsFor w i =
     fold (\<lambda>j vars. if \<not> row (w_closures w) i ! j \<or> w_outputs w ! j = [] then vars
             else AList.merge vars (w_outputs w ! j))
       [0..<length (w_steps w)] (baseStepVars (w_parent w))"

definition depSettled :: "dag_walk \<Rightarrow> nat \<Rightarrow> bool" where
  "depSettled w j \<longleftrightarrow> w_states w ! j = stepDone \<or> w_states w ! j = stepSkipped"

definition depAllows :: "dag_walk \<Rightarrow> nat \<Rightarrow> bool" where
  "depAllows w j =
     (if w_states w ! j \<noteq> stepDone \<or> w_refused w ! j then False
      else if IsApproval (w_steps w ! j) then w_results w ! j = StatusSucceeded
      else w_results w ! j = StatusSucceeded \<or> ps_ContinueOnFailure (w_steps w ! j))"

definition depDenied :: "dag_walk \<Rightarrow> nat \<Rightarrow> bool" where
  "depDenied w j =
     (if w_states w ! j \<noteq> stepDone \<or> w_refused w ! j then False
      else w_results w ! j = StatusRejected \<or> w_results w ! j = StatusFailed)"

definition behindRefusal :: "dag_walk \<Rightarrow> nat \<Rightarrow> bool" where
  "behindRefusal w i \<longleftrightarrow>
     (\<exists>j\<in>set [0..<length (row (w_closures w) i)]. row (w_closures w) i ! j \<and> w_refused w ! j)"

text \<open>One of the two loops of \<open>readiness\<close>, over the names \<open>deps\<close> and the test \<open>lets\<close> a settled
  dependency has to pass.\<close>

fun ready_over :: "dag_walk \<Rightarrow> (dag_walk \<Rightarrow> nat \<Rightarrow> bool) \<Rightarrow> string list \<Rightarrow> bool \<times> bool \<Rightarrow> bool \<times> bool" where
  "ready_over w lets [] rb = rb"
| "ready_over w lets (dep # deps) (ready, blocked) =
     (let j = index_of (w_byName w) dep in
      if \<not> depSettled w j then ready_over w lets deps (False, blocked)
      else if w_states w ! j = stepSkipped \<or> \<not> lets w j then ready_over w lets deps (ready, True)
      else ready_over w lets deps (ready, blocked))"

definition readiness :: "dag_walk \<Rightarrow> nat \<Rightarrow> bool \<times> bool" where
  "readiness w i =
     (if behindRefusal w i then (False, True)
      else ready_over w depDenied (ps_IfDenied (w_steps w ! i))
             (ready_over w depAllows (ps_DependsOn (w_steps w ! i)) (True, False)))"

subsection \<open>Starting a step\<close>

definition releaseRoots :: "walk_env \<Rightarrow> nat \<Rightarrow> dag_walk \<Rightarrow> (check_error + root list) \<times> dag_walk" where
  "releaseRoots env i w =
     (let named = (\<lambda>w. w_workflowRoots w @
            map (\<lambda>j. w_roots w ! j)
              (filter (\<lambda>j. row (w_closures w) i ! j \<and> IsApproval (w_steps w ! j) \<and>
                          rt_EntryID (w_roots w ! j) \<noteq> []) [0..<length (w_steps w)]))
      in if \<not> en_binder env then (Inr [], w)
         else if w_workflowRead w then (Inr (named w), w)
         else case workflowRoots env (w_parent w) (w_clock w) of
           (Inl e, t) \<Rightarrow> (Inl e, w\<lparr>w_clock := t\<rparr>)
         | (Inr rs, t) \<Rightarrow>
             let w' = w\<lparr>w_clock := t, w_workflowRoots := rs, w_workflowRead := True\<rparr>
             in (Inr (named w'), w'))"

definition launch :: "walk_env \<Rightarrow> nat \<Rightarrow> dag_walk \<Rightarrow> dag_walk" where
  "launch env i w =
     (case releaseRoots env i w of
        (Inl e, w') \<Rightarrow> refuse i (RefusalText e) w'
      | (Inr roots, w') \<Rightarrow>
          w'\<lparr>w_states := (w_states w')[i := stepRunning], w_running := w_running w' + 1,
             w_launched := w_launched w' @ [(i, inputsFor w' i, roots)]\<rparr>)"

definition unasked :: "walk_env \<Rightarrow> string \<Rightarrow> string" where
  "unasked env name = ''approval step '' @ en_quote env name @ '' could not record its request, so nobody '' @
     ''could be asked and neither of its paths runs''"

definition open_step :: "walk_env \<Rightarrow> nat \<Rightarrow> dag_walk \<Rightarrow> dag_walk" where
  "open_step env i w =
     (let w' = w\<lparr>w_clock := Suc (w_clock w)\<rparr> in
      case en_openStep env (w_clock w) (w_parent w) (w_steps w ! i) i of
        Opened node \<Rightarrow>
          w'\<lparr>w_states := (w_states w)[i := stepAwaiting], w_nodes := (w_nodes w)(i \<mapsto> node),
             w_awaiting := w_awaiting w + 1\<rparr>
      | NotOpened node \<Rightarrow>
          let w1 = (case node of None \<Rightarrow> w' | Some n \<Rightarrow> w'\<lparr>w_nodes := (w_nodes w)(i \<mapsto> n)\<rparr>);
              w2 = (if en_audits env then mark_refused i (unasked env (ps_Name (w_steps w ! i))) w1 else w1)
          in settle i StatusFailed [] w2)"

definition skip_step :: "nat \<Rightarrow> dag_walk \<Rightarrow> dag_walk" where
  "skip_step i w = w\<lparr>w_states := (w_states w)[i := stepSkipped]\<rparr>"

definition cancel_step :: "nat \<Rightarrow> dag_walk \<Rightarrow> dag_walk" where
  "cancel_step i w = (skip_step i w)\<lparr>w_res := (w_res w)\<lparr>canceled := True\<rparr>\<rparr>"

definition tick :: "dag_walk \<Rightarrow> dag_walk" where
  "tick w = w\<lparr>w_clock := Suc (w_clock w)\<rparr>"

text \<open>The body of \<open>advance\<close>'s inner loop: \<open>None\<close> when a dry walk found something to start, otherwise
  the walk after the step and whether it made progress.\<close>

definition start_step :: "walk_env \<Rightarrow> bool \<Rightarrow> nat \<Rightarrow> dag_walk \<Rightarrow> (dag_walk \<times> bool) option" where
  "start_step env dry i w =
     (case readiness w i of
        (ready, blocked) \<Rightarrow>
          if blocked then Some (skip_step i w, True)
          else if ready \<and> dry then None
          else if ready \<and> IsApproval (w_steps w ! i) then Some (open_step env i w, True)
          else if ready then Some (launch env i w, True)
          else Some (w, False))"

definition advance_step :: "walk_env \<Rightarrow> bool \<Rightarrow> nat \<Rightarrow> dag_walk \<Rightarrow> (dag_walk \<times> bool) option" where
  "advance_step env dry i w =
     (if w_states w ! i \<noteq> stepWaiting then Some (w, False)
      else if dry then start_step env dry i w
      else if en_stopped env (w_clock w) then Some (cancel_step i (tick w), True)
      else start_step env dry i (tick w))"

fun advance_pass :: "walk_env \<Rightarrow> bool \<Rightarrow> nat list \<Rightarrow> dag_walk \<times> bool \<Rightarrow> (dag_walk \<times> bool) option" where
  "advance_pass env dry [] st = Some st"
| "advance_pass env dry (i # is) (w, progress) =
     (case advance_step env dry i w of
        None \<Rightarrow> None
      | Some (w', p) \<Rightarrow> advance_pass env dry is (w', progress \<or> p))"

subsection \<open>What a pass does to the states\<close>

lemma settle_states [simp]: "w_states (settle i s out w) = (w_states w)[i := stepDone]"
  by (simp add: settle_def)

lemma refuse_states [simp]: "w_states (refuse i why w) = (w_states w)[i := stepDone]"
  by (simp add: refuse_def mark_refused_def)

lemma releaseRoots_keeps:
  "\<exists>t rs b. snd (releaseRoots env i w) = w\<lparr>w_clock := t, w_workflowRoots := rs, w_workflowRead := b\<rparr>"
proof -
  have keep: "\<exists>t rs b. w\<lparr>w_clock := u\<rparr> = w\<lparr>w_clock := t, w_workflowRoots := rs, w_workflowRead := b\<rparr>" for u
    by (rule exI [of _ u], rule exI [of _ "w_workflowRoots w"], rule exI [of _ "w_workflowRead w"]) simp
  show ?thesis
    using keep [of "w_clock w"] keep
    by (auto simp: releaseRoots_def Let_def split: prod.splits sum.splits)
qed

lemma launch_states:
  "\<exists>s\<in>{stepRunning, stepDone}. w_states (launch env i w) = (w_states w)[i := s]"
  using releaseRoots_keeps [of env i w] by (auto simp: launch_def split: prod.splits sum.splits)

lemma open_step_states:
  "\<exists>s\<in>{stepAwaiting, stepDone}. w_states (open_step env i w) = (w_states w)[i := s]"
  by (auto simp: open_step_def Let_def mark_refused_def split: open_answer.splits option.splits)

text \<open>Every step a pass touches leaves \<open>stepWaiting\<close>.\<close>

lemma advance_step_states:
  assumes "advance_step env dry i w = Some (w', p)"
  shows "(\<not> p \<and> w_states w' = w_states w) \<or>
    (p \<and> w_states w ! i = stepWaiting \<and> (\<exists>s. s \<noteq> stepWaiting \<and> w_states w' = (w_states w)[i := s]))"
proof -
  have start: "(\<not> p \<and> w_states w' = w_states v) \<or>
      (p \<and> (\<exists>s. s \<noteq> stepWaiting \<and> w_states w' = (w_states v)[i := s]))"
    if "start_step env dry i v = Some (w', p)" for v
    using that launch_states [of env i v] open_step_states [of env i v]
    by (auto simp: start_step_def skip_step_def split: prod.splits if_splits)
  show ?thesis
    using assms start [of w] start [of "tick w"]
    by (auto simp: advance_step_def cancel_step_def skip_step_def tick_def split: if_splits)
qed

definition waiting_steps :: "dag_walk \<Rightarrow> nat" where
  "waiting_steps w = count_list (w_states w) stepWaiting"

lemma advance_pass_waiting:
  assumes "advance_pass env dry is (w, progress) = Some (w', progress')"
    and "set is \<subseteq> {..<length (w_states w)}"
  shows "length (w_states w') = length (w_states w) \<and> waiting_steps w' \<le> waiting_steps w \<and>
    (progress' \<longrightarrow> progress \<or> waiting_steps w' < waiting_steps w)"
  using assms
proof (induction "is" arbitrary: w progress)
  case Nil
  then show ?case by simp
next
  case (Cons i "is")
  then obtain w1 p where step: "advance_step env dry i w = Some (w1, p)"
    and rest: "advance_pass env dry is (w1, progress \<or> p) = Some (w', progress')"
    by (auto split: option.splits)
  have len: "length (w_states w1) = length (w_states w)"
    using advance_step_states [OF step] by auto
  have cnt: "waiting_steps w1 \<le> waiting_steps w \<and> (p \<longrightarrow> waiting_steps w1 < waiting_steps w)"
  proof (cases p)
    case False
    then show ?thesis using advance_step_states [OF step] by (simp add: waiting_steps_def)
  next
    case True
    then obtain s where "w_states w ! i = stepWaiting" "s \<noteq> stepWaiting"
      "w_states w1 = (w_states w)[i := s]"
      using advance_step_states [OF step] by auto
    then show ?thesis
      using count_list_update [of i "w_states w" s stepWaiting] Cons.prems(2)
      by (simp add: waiting_steps_def)
  qed
  show ?case
    using Cons.IH [OF rest] Cons.prems(2) len cnt by auto
qed

text \<open>\<open>advance\<close> repeats the pass until one makes no progress. The states are allocated with the
  length of the steps, so the pass runs over all of them. The flag says whether a dry walk found a
  step to start.\<close>

function advance :: "walk_env \<Rightarrow> bool \<Rightarrow> dag_walk \<Rightarrow> dag_walk \<times> bool" where
  "advance env dry w =
     (case advance_pass env dry [0..<length (w_states w)] (w, False) of
        None \<Rightarrow> (w, True)
      | Some (w', progress) \<Rightarrow> if progress then advance env dry w' else (w', False))"
  by pat_completeness auto
termination
  by (relation "measure (\<lambda>(env, dry, w). waiting_steps w)") (auto dest: advance_pass_waiting)

declare advance.simps [simp del]

section \<open>Waiting at approval steps\<close>

text \<open>\<open>poll\<close> and \<open>withdraw\<close> range over the map of asked nodes, in an order \<open>ord\<close> the language leaves
  open. What \<open>withdraw\<close> asks of the store, to cancel the nodes and to finish the decisions already
  claimed, changes nothing of the walk.\<close>

definition poll_node :: "walk_env \<Rightarrow> nat \<Rightarrow> dag_walk \<Rightarrow> dag_walk \<times> bool" where
  "poll_node env i w =
     (case w_nodes w i of
        None \<Rightarrow> (w, False)
      | Some node_id \<Rightarrow>
          if w_states w ! i \<noteq> stepAwaiting then (w, False)
          else case en_Get env (w_clock w) node_id of
            None \<Rightarrow> (tick w, False)
          | Some node \<Rightarrow>
              if \<not> Terminal (Status node) then (tick w, False)
              else (settle_node env i node ((tick w)\<lparr>w_awaiting := w_awaiting w - 1\<rparr>), True))"

fun poll_nodes :: "walk_env \<Rightarrow> nat list \<Rightarrow> dag_walk \<times> bool \<Rightarrow> dag_walk \<times> bool" where
  "poll_nodes env [] st = st"
| "poll_nodes env (i # is) (w, changed) =
     (case poll_node env i w of (w', p) \<Rightarrow> poll_nodes env is (w', changed \<or> p))"

definition poll :: "walk_env \<Rightarrow> nat list \<Rightarrow> dag_walk \<Rightarrow> dag_walk \<times> bool" where
  "poll env ord w = poll_nodes env ord (w, False)"

definition withdraw_node :: "walk_env \<Rightarrow> nat \<Rightarrow> dag_walk \<Rightarrow> dag_walk" where
  "withdraw_node env i w =
     (case w_nodes w i of
        None \<Rightarrow> w
      | Some node_id \<Rightarrow>
          if w_states w ! i \<noteq> stepAwaiting then w
          else settle i (stoppedStatus env (w_clock w)) []
                 ((tick w)\<lparr>w_awaiting := w_awaiting w - 1\<rparr>))"

definition withdraw :: "walk_env \<Rightarrow> nat list \<Rightarrow> dag_walk \<Rightarrow> dag_walk" where
  "withdraw env ord w = fold (withdraw_node env) ord w"

section \<open>Restoring a walk\<close>

definition newer :: "run \<Rightarrow> run option \<Rightarrow> bool" where
  "newer c prev = (case prev of
     None \<Rightarrow> True
   | Some p \<Rightarrow> Attempt c > Attempt p \<or> (Attempt c = Attempt p \<and> CreatedAt c > CreatedAt p))"

definition latest_attempts :: "nat \<Rightarrow> run list \<Rightarrow> (nat \<rightharpoonup> run)" where
  "latest_attempts n children =
     fold (\<lambda>c latest. case StepIndex c of
             None \<Rightarrow> latest
           | Some k \<Rightarrow> if k < 0 \<or> k \<ge> int n then latest
                      else if newer c (latest (nat k)) then latest(nat k \<mapsto> c) else latest)
       children Map.empty"

definition resultRefusal :: "walk_env \<Rightarrow> run \<Rightarrow> nat \<Rightarrow> string \<times> nat" where
  "resultRefusal env c t =
     (if \<not> en_binder env then ([], t)
      else (case en_result env t c of None \<Rightarrow> [] | Some e \<Rightarrow> RefusalText e, Suc t))"

definition restore_step :: "walk_env \<Rightarrow> bool \<Rightarrow> nat \<Rightarrow> run \<Rightarrow> dag_walk \<Rightarrow> dag_walk" where
  "restore_step env dry i c w =
     (let asked = w\<lparr>w_nodes := (w_nodes w)(i \<mapsto> ID c)\<rparr> in
      if Kind c = KindApproval \<and> Status c = StatusPendingApproval
      then asked\<lparr>w_states := (w_states w)[i := stepAwaiting], w_awaiting := w_awaiting w + 1\<rparr>
      else if Kind c = KindApproval \<and> dry then settle i (Status c) [] asked
      else if Kind c = KindApproval then settle_node env i c asked
      else if Terminal (Status c) then
        (case (if dry then ([], w_clock w) else resultRefusal env c (w_clock w)) of
           (why, t) \<Rightarrow>
             if why \<noteq> [] then refuse i why (w\<lparr>w_clock := t\<rparr>)
             else settle i (Status c) (if Status c = StatusSucceeded then Outputs c else [])
                    (w\<lparr>w_clock := t\<rparr>))
      else w\<lparr>w_states := (w_states w)[i := stepRunning], w_running := w_running w + 1\<rparr>)"

definition load :: "walk_env \<Rightarrow> bool \<Rightarrow> run list \<Rightarrow> dag_walk \<Rightarrow> dag_walk" where
  "load env dry children w =
     (let latest = latest_attempts (length (w_steps w)) children in
      fold (\<lambda>i w. case latest i of None \<Rightarrow> w | Some c \<Rightarrow> restore_step env dry i c w)
        [0..<length (w_steps w)] w)"

definition restore :: "walk_env \<Rightarrow> run list \<Rightarrow> dag_walk \<Rightarrow> dag_walk" where
  "restore env children w = load env False children w"

definition restoreDry :: "walk_env \<Rightarrow> run list \<Rightarrow> dag_walk \<Rightarrow> dag_walk" where
  "restoreDry env children w = load env True children w"

definition parkedHasWork :: "walk_env \<Rightarrow> run \<Rightarrow> run list option \<Rightarrow> bool" where
  "parkedHasWork env parent children =
     (case children of
        None \<Rightarrow> False
      | Some cs \<Rightarrow>
          if cs = [] then False
          else let w = restoreDry env cs (newDAGWalk parent (GraphSteps (Steps parent))) in
            if w_awaiting w = 0 \<or> w_running w > 0 then True else snd (advance env True w))"

section \<open>The loop\<close>

text \<open>One turn of \<open>run\<close>: the walk advances and then goes round with what happened next (\<open>walk_turn\<close>), or
  returns (\<open>walk_returns\<close>, with the walk whose \<open>w_res\<close> it returns). A walk with something running, or
  one stopped with a step open and no reason to park, blocks: it takes a result of a running step,
  the poll timer fires, or the stop of its context reaches it.\<close>

datatype walk_event = Received nat | Polled bool | Withdrew

definition park :: "dag_walk \<Rightarrow> dag_walk" where
  "park w = w\<lparr>w_res := (w_res w)\<lparr>parked := True\<rparr>\<rparr>"

definition blocks :: "walk_env \<Rightarrow> dag_walk \<Rightarrow> bool" where
  "blocks env w \<longleftrightarrow> w_running w \<noteq> 0 \<or>
     (w_awaiting w \<noteq> 0 \<and> en_stopped env (w_clock w) \<and>
      (interrupted (w_res w) \<or> \<not> en_shutdown env (w_clock w)))"

inductive walk_turn :: "walk_env \<Rightarrow> dag_walk \<Rightarrow> walk_event \<Rightarrow> dag_walk \<Rightarrow> bool" for env where
  decided_before_park:
    "w1 = fst (advance env False w) \<Longrightarrow> w_running w1 = 0 \<Longrightarrow> w_awaiting w1 \<noteq> 0 \<Longrightarrow>
     \<not> en_stopped env (w_clock w1) \<Longrightarrow> iterates ord (w_nodes w1) \<Longrightarrow>
     poll env ord (tick w1) = (w2, True) \<Longrightarrow> walk_turn env w (Polled True) w2"
| received:
    "w1 = fst (advance env False w) \<Longrightarrow> w_running w1 \<noteq> 0 \<Longrightarrow> sr_idx r < length (w_states w1) \<Longrightarrow>
     w_states w1 ! sr_idx r = stepRunning \<Longrightarrow>
     walk_turn env w (Received (sr_idx r)) (finish r (w1\<lparr>w_running := w_running w1 - 1\<rparr>))"
| timer:
    "w1 = fst (advance env False w) \<Longrightarrow> blocks env w1 \<Longrightarrow> w_awaiting w1 \<noteq> 0 \<Longrightarrow>
     iterates ord (w_nodes w1) \<Longrightarrow> poll env ord (tick w1) = (w2, changed) \<Longrightarrow>
     walk_turn env w (Polled changed) w2"
| stop_reached:
    "w1 = fst (advance env False w) \<Longrightarrow> blocks env w1 \<Longrightarrow> w_awaiting w1 \<noteq> 0 \<Longrightarrow>
     en_stopped env (w_clock w1) \<Longrightarrow> iterates ord (w_nodes w1) \<Longrightarrow>
     walk_turn env w Withdrew (withdraw env ord (tick w1))"

inductive walk_returns :: "walk_env \<Rightarrow> dag_walk \<Rightarrow> dag_walk \<Rightarrow> bool" for env where
  finished:
    "w1 = fst (advance env False w) \<Longrightarrow> w_running w1 = 0 \<Longrightarrow> w_awaiting w1 = 0 \<Longrightarrow> walk_returns env w w1"
| waits_for_a_person:
    "w1 = fst (advance env False w) \<Longrightarrow> w_running w1 = 0 \<Longrightarrow> w_awaiting w1 \<noteq> 0 \<Longrightarrow>
     \<not> en_stopped env (w_clock w1) \<Longrightarrow> iterates ord (w_nodes w1) \<Longrightarrow>
     poll env ord (tick w1) = (w2, False) \<Longrightarrow> walk_returns env w (park w2)"
| shut_down:
    "w1 = fst (advance env False w) \<Longrightarrow> w_running w1 = 0 \<Longrightarrow> w_awaiting w1 \<noteq> 0 \<Longrightarrow>
     en_stopped env (w_clock w1) \<Longrightarrow> \<not> interrupted (w_res w1) \<Longrightarrow> en_shutdown env (w_clock w1) \<Longrightarrow>
     walk_returns env w (park w1)"

text \<open>The events of a whole walk, from the walk it starts with to the one it has reached.\<close>

inductive walks :: "walk_env \<Rightarrow> dag_walk \<Rightarrow> walk_event list \<Rightarrow> dag_walk \<Rightarrow> bool" for env where
  walks_nil: "walks env w [] w"
| walks_turn: "walks env w es w' \<Longrightarrow> walk_turn env w' e w'' \<Longrightarrow> walks env w (es @ [e]) w''"

text \<open>How the outcome of the steps becomes the record of the workflow.\<close>

definition errShuttingDown :: string where
  "errShuttingDown = ''the server stopped while this run was executing''"

definition stoppedReason :: "walk_env \<Rightarrow> nat \<Rightarrow> string" where
  "stoppedReason env t = (if en_shutdown env t then errShuttingDown else [])"

definition pipelineOutcome :: "walk_env \<Rightarrow> nat \<Rightarrow> stepsResult \<Rightarrow> status \<times> string \<times> int option" where
  "pipelineOutcome env t res =
     (if interrupted res then (StatusInterrupted, errShuttingDown, None)
      else if canceled res then (stoppedStatus env t, stoppedReason env t, None)
      else if failed res then (StatusFailed, reason res, Some 1)
      else (StatusSucceeded, [], Some 0))"

end
