(* ===== verification/Dag_Spec.thy ===== *)
theory Dag_Spec
  imports Dag_Walk
begin

text \<open>
  What a graph walk promises, as an abstract machine over the step graph: a view of the walk (where
  each step is, how the settled ones ended, what was refused, the two counters and the flags of the
  outcome) and the moves a step may make, with the guards in terms of the dependency edges of the
  graph rather than of name maps and memo tables. The invariants of the machine are here; that the
  walk of \<open>Dag_Walk\<close> implements it is in \<open>Dag_Sim\<close>.
\<close>

section \<open>The view\<close>

record walk_view =
  v_states :: "stepState list"
  v_results :: "status list"
  v_refused :: "bool list"
  v_running :: int
  v_awaiting :: int
  v_failed :: bool
  v_canceled :: bool
  v_interrupted :: bool

definition view :: "dag_walk \<Rightarrow> walk_view" where
  "view w = \<lparr>v_states = w_states w, v_results = w_results w, v_refused = w_refused w,
     v_running = w_running w, v_awaiting = w_awaiting w, v_failed = failed (w_res w),
     v_canceled = canceled (w_res w), v_interrupted = interrupted (w_res w)\<rparr>"

lemma view_sel [simp]:
  "v_states (view w) = w_states w" "v_results (view w) = w_results w"
  "v_refused (view w) = w_refused w" "v_running (view w) = w_running w"
  "v_awaiting (view w) = w_awaiting w" "v_failed (view w) = failed (w_res w)"
  "v_canceled (view w) = canceled (w_res w)" "v_interrupted (view w) = interrupted (w_res w)"
  by (simp_all add: view_def)

definition sized :: "pipeline_step list \<Rightarrow> walk_view \<Rightarrow> bool" where
  "sized steps v \<longleftrightarrow> length (v_states v) = length steps \<and> length (v_results v) = length steps \<and>
     length (v_refused v) = length steps"

section \<open>The edges of the graph\<close>

definition waits_for :: "pipeline_step list \<Rightarrow> nat \<Rightarrow> nat \<Rightarrow> bool" where
  "waits_for steps i j \<longleftrightarrow> j < length steps \<and> ps_Name (steps ! j) \<in> set (ps_DependsOn (steps ! i))"

definition on_denial :: "pipeline_step list \<Rightarrow> nat \<Rightarrow> nat \<Rightarrow> bool" where
  "on_denial steps i j \<longleftrightarrow> j < length steps \<and> ps_Name (steps ! j) \<in> set (ps_IfDenied (steps ! i))"

definition denial_handled :: "pipeline_step list \<Rightarrow> nat \<Rightarrow> bool" where
  "denial_handled steps j \<longleftrightarrow> (\<exists>i<length steps. on_denial steps i j)"

definition unsettled :: "stepState \<Rightarrow> bool" where
  "unsettled s \<longleftrightarrow> s \<noteq> stepDone \<and> s \<noteq> stepSkipped"

definition allows :: "pipeline_step list \<Rightarrow> walk_view \<Rightarrow> nat \<Rightarrow> bool" where
  "allows steps v j \<longleftrightarrow> v_states v ! j = stepDone \<and> \<not> v_refused v ! j \<and>
     (v_results v ! j = StatusSucceeded \<or> \<not> IsApproval (steps ! j) \<and> ps_ContinueOnFailure (steps ! j))"

definition denies :: "walk_view \<Rightarrow> nat \<Rightarrow> bool" where
  "denies v j \<longleftrightarrow> v_states v ! j = stepDone \<and> \<not> v_refused v ! j \<and>
     v_results v ! j \<in> {StatusRejected, StatusFailed}"

text \<open>A step may start when every step it waits for lets it, every approval step whose denial it
  handles was denied, and nothing it waits behind was refused. It never can once one of these fails
  for good.\<close>

definition edges_met :: "pipeline_step list \<Rightarrow> walk_view \<Rightarrow> nat \<Rightarrow> bool" where
  "edges_met steps v i \<longleftrightarrow>
     (\<forall>j. waits_for steps i j \<longrightarrow> allows steps v j) \<and> (\<forall>j. on_denial steps i j \<longrightarrow> denies v j)"

definition edge_failed :: "pipeline_step list \<Rightarrow> walk_view \<Rightarrow> nat \<Rightarrow> bool" where
  "edge_failed steps v i \<longleftrightarrow>
     (\<exists>j. waits_for steps i j \<and> \<not> unsettled (v_states v ! j) \<and> \<not> allows steps v j) \<or>
     (\<exists>j. on_denial steps i j \<and> \<not> unsettled (v_states v ! j) \<and> \<not> denies v j)"

definition behind_refusal :: "pipeline_step list \<Rightarrow> walk_view \<Rightarrow> nat \<Rightarrow> bool" where
  "behind_refusal steps v i \<longleftrightarrow> (\<exists>j<length steps. (j, i) \<in> depends_on steps \<and> v_refused v ! j)"

section \<open>Moves\<close>

definition v_skip :: "nat \<Rightarrow> walk_view \<Rightarrow> walk_view" where
  "v_skip i v = v\<lparr>v_states := (v_states v)[i := stepSkipped]\<rparr>"

definition v_stop :: "nat \<Rightarrow> walk_view \<Rightarrow> walk_view" where
  "v_stop i v = (v_skip i v)\<lparr>v_canceled := True\<rparr>"

definition v_run :: "nat \<Rightarrow> walk_view \<Rightarrow> walk_view" where
  "v_run i v = v\<lparr>v_states := (v_states v)[i := stepRunning], v_running := v_running v + 1\<rparr>"

definition v_ask :: "nat \<Rightarrow> walk_view \<Rightarrow> walk_view" where
  "v_ask i v = v\<lparr>v_states := (v_states v)[i := stepAwaiting], v_awaiting := v_awaiting v + 1\<rparr>"

text \<open>How a settled step counts: a denied approval step whose denial the graph handles is no failure,
  unless it was refused.\<close>

definition fails :: "pipeline_step list \<Rightarrow> nat \<Rightarrow> status \<Rightarrow> bool \<Rightarrow> bool" where
  "fails steps i st refused \<longleftrightarrow> st \<notin> {StatusSucceeded, StatusCanceled, StatusInterrupted} \<and>
     \<not> (IsApproval (steps ! i) \<and> denial_handled steps i \<and> \<not> refused)"

definition v_settle :: "pipeline_step list \<Rightarrow> nat \<Rightarrow> status \<Rightarrow> bool \<Rightarrow> walk_view \<Rightarrow> walk_view" where
  "v_settle steps i st b v =
     (let refused = v_refused v ! i \<or> b in
      v\<lparr>v_states := (v_states v)[i := stepDone], v_results := (v_results v)[i := st],
        v_refused := (v_refused v)[i := refused],
        v_running := v_running v - (if v_states v ! i = stepRunning then 1 else 0),
        v_awaiting := v_awaiting v - (if v_states v ! i = stepAwaiting then 1 else 0),
        v_failed := (v_failed v \<or> fails steps i st refused),
        v_canceled := (v_canceled v \<or> st = StatusCanceled),
        v_interrupted := (v_interrupted v \<or> st = StatusInterrupted)\<rparr>)"

lemmas move_defs = v_skip_def v_stop_def v_run_def v_ask_def v_settle_def Let_def

inductive view_move :: "pipeline_step list \<Rightarrow> nat \<Rightarrow> walk_view \<Rightarrow> walk_view \<Rightarrow> bool" for steps i v where
  "i < length steps \<Longrightarrow> v_states v ! i = stepWaiting \<Longrightarrow> v' \<in> {v_skip i v, v_stop i v, v_run i v, v_ask i v} \<Longrightarrow>
     view_move steps i v v'"
| "i < length steps \<Longrightarrow> unsettled (v_states v ! i) \<Longrightarrow> b \<longrightarrow> st = StatusFailed \<Longrightarrow>
     view_move steps i v (v_settle steps i st b v)"

text \<open>The machine: each move with its guard.\<close>

inductive graph_step :: "pipeline_step list \<Rightarrow> walk_view \<Rightarrow> walk_view \<Rightarrow> bool" for steps v where
  skipped: "i < length steps \<Longrightarrow> v_states v ! i = stepWaiting \<Longrightarrow>
     edge_failed steps v i \<or> behind_refusal steps v i \<Longrightarrow> graph_step steps v (v_skip i v)"
| stopped: "i < length steps \<Longrightarrow> v_states v ! i = stepWaiting \<Longrightarrow> graph_step steps v (v_stop i v)"
| started: "i < length steps \<Longrightarrow> v_states v ! i = stepWaiting \<Longrightarrow> edges_met steps v i \<Longrightarrow>
     \<not> behind_refusal steps v i \<Longrightarrow> \<not> IsApproval (steps ! i) \<Longrightarrow> graph_step steps v (v_run i v)"
| asked: "i < length steps \<Longrightarrow> v_states v ! i = stepWaiting \<Longrightarrow> edges_met steps v i \<Longrightarrow>
     \<not> behind_refusal steps v i \<Longrightarrow> IsApproval (steps ! i) \<Longrightarrow> graph_step steps v (v_ask i v)"
| not_started: "i < length steps \<Longrightarrow> v_states v ! i = stepWaiting \<Longrightarrow> edges_met steps v i \<Longrightarrow>
     \<not> behind_refusal steps v i \<Longrightarrow> graph_step steps v (v_settle steps i StatusFailed b v)"
| reported: "i < length steps \<Longrightarrow> v_states v ! i \<in> {stepRunning, stepAwaiting} \<Longrightarrow>
     b \<longrightarrow> st = StatusFailed \<Longrightarrow> graph_step steps v (v_settle steps i st b v)"

lemma graph_step_move: "graph_step steps v v' \<Longrightarrow> \<exists>i. view_move steps i v v'"
proof (induction rule: graph_step.induct)
  case (not_started i b)
  then have "unsettled (v_states v ! i)" by (simp add: unsettled_def)
  with not_started view_move.intros(2) [of i steps v b StatusFailed] show ?case by blast
next
  case (reported i b st)
  then have "unsettled (v_states v ! i)" by (auto simp: unsettled_def)
  with reported show ?case by (blast intro: view_move.intros(2))
qed (blast intro: view_move.intros(1))+

section \<open>Invariants of the moves\<close>

lemma move_sized: "view_move steps i v v' \<Longrightarrow> sized steps v \<Longrightarrow> sized steps v'"
  by (induction rule: view_move.induct) (auto simp: sized_def move_defs)

text \<open>What a settled step left behind never changes.\<close>

lemma move_elsewhere:
  assumes "view_move steps i v v'" and "j \<noteq> i"
  shows "v_states v' ! j = v_states v ! j \<and> v_results v' ! j = v_results v ! j \<and>
    v_refused v' ! j = v_refused v ! j"
  using assms by (induction rule: view_move.induct) (auto simp: move_defs)

lemma move_from: "view_move steps i v v' \<Longrightarrow> i < length steps \<and> unsettled (v_states v ! i)"
  by (induction rule: view_move.induct) (auto simp: unsettled_def)

lemma move_keeps_settled:
  assumes "view_move steps i v v'" and "\<not> unsettled (v_states v ! j)"
  shows "v_states v' ! j = v_states v ! j \<and> v_results v' ! j = v_results v ! j \<and>
    v_refused v' ! j = v_refused v ! j"
  using assms move_elsewhere move_from by metis

lemma move_keeps_edges:
  assumes "view_move steps k v v'"
  shows "allows steps v j \<Longrightarrow> allows steps v' j" "denies v j \<Longrightarrow> denies v' j"
    "edges_met steps v i \<Longrightarrow> edges_met steps v' i" "edge_failed steps v i \<Longrightarrow> edge_failed steps v' i"
proof -
  have A: "allows steps v j \<Longrightarrow> allows steps v' j" for j
    using move_keeps_settled [OF assms, of j] by (auto simp: allows_def unsettled_def)
  have D: "denies v j \<Longrightarrow> denies v' j" for j
    using move_keeps_settled [OF assms, of j] by (auto simp: denies_def unsettled_def)
  have N: "\<not> unsettled (v_states v ! j) \<Longrightarrow> \<not> unsettled (v_states v' ! j) \<and>
      allows steps v' j = allows steps v j \<and> denies v' j = denies v j" for j
    using move_keeps_settled [OF assms, of j] by (auto simp: denies_def allows_def)
  show "allows steps v j \<Longrightarrow> allows steps v' j" "denies v j \<Longrightarrow> denies v' j" by (fact A, fact D)
  show "edges_met steps v i \<Longrightarrow> edges_met steps v' i" using A D by (simp add: edges_met_def)
  show "edge_failed steps v i \<Longrightarrow> edge_failed steps v' i" using N by (auto simp: edge_failed_def)
qed

text \<open>The counters count, and every move uses up part of a bounded budget.\<close>

definition counted :: "walk_view \<Rightarrow> bool" where
  "counted v \<longleftrightarrow> v_running v = int (count_list (v_states v) stepRunning) \<and>
     v_awaiting v = int (count_list (v_states v) stepAwaiting)"

definition work :: "walk_view \<Rightarrow> nat" where
  "work v = 2 * count_list (v_states v) stepWaiting + count_list (v_states v) stepRunning +
     count_list (v_states v) stepAwaiting"

lemma move_state:
  assumes "view_move steps i v v'"
  obtains s where "v_states v' = (v_states v)[i := s]"
    "s \<noteq> stepWaiting" "unsettled s \<longrightarrow> v_states v ! i = stepWaiting"
    "v_running v' = v_running v - (if v_states v ! i = stepRunning then 1 else 0) + (if s = stepRunning then 1 else 0)"
    "v_awaiting v' = v_awaiting v - (if v_states v ! i = stepAwaiting then 1 else 0) + (if s = stepAwaiting then 1 else 0)"
  using assms by (cases rule: view_move.cases) (auto simp: move_defs unsettled_def)

lemma move_counted:
  assumes "view_move steps i v v'" and "sized steps v" and "counted v"
  shows "counted v'"
proof -
  obtain s where s: "v_states v' = (v_states v)[i := s]"
    "v_running v' = v_running v - (if v_states v ! i = stepRunning then 1 else 0) + (if s = stepRunning then 1 else 0)"
    "v_awaiting v' = v_awaiting v - (if v_states v ! i = stepAwaiting then 1 else 0) + (if s = stepAwaiting then 1 else 0)"
    by (rule move_state [OF assms(1)])
  have i: "i < length (v_states v)" using move_from [OF assms(1)] assms(2) by (simp add: sized_def)
  show ?thesis
    using assms(3) s count_list_update [OF i, of s stepRunning] count_list_update [OF i, of s stepAwaiting]
    by (auto simp: counted_def split: if_splits)
qed

lemma move_work:
  assumes "view_move steps i v v'" and "sized steps v"
  shows "work v' < work v"
proof -
  obtain s where s: "v_states v' = (v_states v)[i := s]" "s \<noteq> stepWaiting"
    "unsettled s \<longrightarrow> v_states v ! i = stepWaiting"
    by (rule move_state [OF assms(1)])
  have i: "i < length (v_states v)" using move_from [OF assms(1)] assms(2) by (simp add: sized_def)
  have "unsettled (v_states v ! i)" using move_from [OF assms(1)] by simp
  then show ?thesis
    using s count_list_update [OF i, of s stepRunning] count_list_update [OF i, of s stepAwaiting]
      count_list_update [OF i, of s stepWaiting]
    by (cases "v_states v ! i"; cases s) (auto simp: work_def unsettled_def)
qed

section \<open>Invariants of the outcome\<close>

text \<open>The flags say exactly what the settled steps say, apart from the cancel flag, which a stop sets
  as well, and a refused step is a failed one.\<close>

definition truthful :: "pipeline_step list \<Rightarrow> walk_view \<Rightarrow> bool" where
  "truthful steps v \<longleftrightarrow>
     (v_failed v \<longleftrightarrow> (\<exists>i<length steps. v_states v ! i = stepDone \<and>
        fails steps i (v_results v ! i) (v_refused v ! i))) \<and>
     (v_interrupted v \<longleftrightarrow> (\<exists>i<length steps. v_states v ! i = stepDone \<and> v_results v ! i = StatusInterrupted)) \<and>
     (\<forall>i<length steps. v_states v ! i = stepDone \<and> v_results v ! i = StatusCanceled \<longrightarrow> v_canceled v) \<and>
     (\<forall>i<length steps. v_refused v ! i \<longrightarrow> v_states v ! i = stepDone \<and> v_results v ! i = StatusFailed)"

lemma truthful_same_done:
  assumes "truthful steps v" and "\<not> (v_states v ! i = stepDone)" and "s \<noteq> stepDone"
    and "v_states v' = (v_states v)[i := s]" and "v_results v' = v_results v" and "v_refused v' = v_refused v"
    and "v_failed v' = v_failed v" and "v_interrupted v' = v_interrupted v"
    and "v_canceled v \<longrightarrow> v_canceled v'" and "i < length (v_states v)"
  shows "truthful steps v'"
proof -
  have same: "v_states v' ! j = stepDone \<longleftrightarrow> v_states v ! j = stepDone" for j
    using assms(2-4,10) by (cases "j = i") auto
  show ?thesis using assms(1,5-9) unfolding truthful_def same by auto
qed

lemma ex_less_update:
  assumes "i < n" and "\<And>j. j \<noteq> i \<Longrightarrow> P' j = P j" and "\<not> P i"
  shows "(\<exists>j<n. P' j) \<longleftrightarrow> (\<exists>j<n. P j) \<or> P' i"
  using assms by metis

lemma truthful_settle:
  assumes T: "truthful steps v" and S: "sized steps v" and i: "i < length steps"
    and u: "unsettled (v_states v ! i)" and b: "b \<longrightarrow> st = StatusFailed"
  shows "truthful steps (v_settle steps i st b v)"
proof -
  let ?v = "v_settle steps i st b v"
  have nd: "v_states v ! i \<noteq> stepDone" using u by (simp add: unsettled_def)
  then have r: "\<not> v_refused v ! i" using T i by (auto simp: truthful_def)
  have at: "v_states ?v ! i = stepDone" "v_results ?v ! i = st" "v_refused ?v ! i = b"
    using S i r by (simp_all add: sized_def v_settle_def Let_def)
  have off: "v_states ?v ! j = v_states v ! j" "v_results ?v ! j = v_results v ! j"
    "v_refused ?v ! j = v_refused v ! j" if "j \<noteq> i" for j
    using that by (simp_all add: v_settle_def Let_def)
  have F: "(\<exists>j<length steps. v_states ?v ! j = stepDone \<and> fails steps j (v_results ?v ! j) (v_refused ?v ! j)) \<longleftrightarrow>
      v_failed v \<or> fails steps i st b"
    using ex_less_update [OF i, of "\<lambda>j. v_states ?v ! j = stepDone \<and> fails steps j (v_results ?v ! j) (v_refused ?v ! j)"
        "\<lambda>j. v_states v ! j = stepDone \<and> fails steps j (v_results v ! j) (v_refused v ! j)"]
      off at nd T by (simp add: truthful_def)
  have I: "(\<exists>j<length steps. v_states ?v ! j = stepDone \<and> v_results ?v ! j = StatusInterrupted) \<longleftrightarrow>
      v_interrupted v \<or> st = StatusInterrupted"
    using ex_less_update [OF i, of "\<lambda>j. v_states ?v ! j = stepDone \<and> v_results ?v ! j = StatusInterrupted"
        "\<lambda>j. v_states v ! j = stepDone \<and> v_results v ! j = StatusInterrupted"]
      off at nd T by (simp add: truthful_def)
  have C: "v_canceled ?v" if "j < length steps" "v_states ?v ! j = stepDone" "v_results ?v ! j = StatusCanceled" for j
    using that T at off [of j] by (cases "j = i") (auto simp: truthful_def v_settle_def Let_def)
  have R: "v_states ?v ! j = stepDone \<and> v_results ?v ! j = StatusFailed"
    if "j < length steps" "v_refused ?v ! j" for j
    using that T at off [of j] b by (cases "j = i") (auto simp: truthful_def)
  have flags: "v_failed ?v = (v_failed v \<or> fails steps i st b)"
    "v_interrupted ?v = (v_interrupted v \<or> st = StatusInterrupted)"
    using r by (simp_all add: v_settle_def Let_def)
  show ?thesis unfolding truthful_def flags F I using C R by blast
qed

lemma move_truthful:
  assumes "view_move steps i v v'" and "sized steps v" and "truthful steps v"
  shows "truthful steps v'"
  using assms
proof (induction rule: view_move.induct)
  case (1 v')
  have flags: "v_results v' = v_results v" "v_refused v' = v_refused v" "v_failed v' = v_failed v"
    "v_interrupted v' = v_interrupted v" "v_canceled v \<longrightarrow> v_canceled v'"
    using 1(3) by (auto simp: move_defs)
  have "\<exists>s. s \<noteq> stepDone \<and> v_states v' = (v_states v)[i := s]"
    using 1(3) by (elim insertE emptyE) (force simp: move_defs)+
  with flags show ?case using 1 truthful_same_done [of steps v i _ v'] by (auto simp: sized_def)
next
  case (2 b st)
  then show ?case by (simp add: truthful_settle)
qed

text \<open>A skipped step is explained by an edge that failed, by a refusal it stood behind, or by the
  stop of the workflow.\<close>

definition skips_explained :: "pipeline_step list \<Rightarrow> walk_view \<Rightarrow> bool" where
  "skips_explained steps v \<longleftrightarrow> (\<forall>i<length steps. v_states v ! i = stepSkipped \<longrightarrow>
     v_canceled v \<or> edge_failed steps v i \<or> behind_refusal steps v i)"

text \<open>Every step that left \<open>stepWaiting\<close> in the walk, the steps of \<open>S\<close> apart, had its edges met.\<close>

definition starts_justified :: "pipeline_step list \<Rightarrow> nat set \<Rightarrow> walk_view \<Rightarrow> bool" where
  "starts_justified steps S v \<longleftrightarrow> (\<forall>i<length steps. i \<notin> S \<longrightarrow>
     v_states v ! i \<in> {stepRunning, stepAwaiting, stepDone} \<longrightarrow> edges_met steps v i)"

lemma move_keeps_refusals:
  assumes "view_move steps k v v'" and "truthful steps v" and "behind_refusal steps v i"
  shows "behind_refusal steps v' i"
  using assms move_keeps_settled [OF assms(1)]
  by (auto simp: behind_refusal_def truthful_def unsettled_def)

lemma move_canceled: "view_move steps k v v' \<Longrightarrow> v_canceled v \<Longrightarrow> v_canceled v'"
  by (induction rule: view_move.induct) (auto simp: move_defs)

lemma graph_step_skips:
  assumes "graph_step steps v v'" and "sized steps v" and "truthful steps v" and "skips_explained steps v"
  shows "skips_explained steps v'"
proof -
  obtain k where k: "view_move steps k v v'" using graph_step_move [OF assms(1)] by blast
  have new: "v_states v' ! i = stepSkipped \<Longrightarrow> v_states v ! i \<noteq> stepSkipped \<Longrightarrow>
      v_canceled v' \<or> edge_failed steps v i \<or> behind_refusal steps v i" if "i < length steps" for i
    using assms(1,2) that
    by (induction rule: graph_step.induct) (auto simp: move_defs nth_list_update_if sized_def split: if_splits)
  show ?thesis
    unfolding skips_explained_def
  proof (intro allI impI)
    fix i assume i: "i < length steps" "v_states v' ! i = stepSkipped"
    have "v_canceled v' \<or> edge_failed steps v i \<or> behind_refusal steps v i"
      using new [OF i] assms(4) i(1) move_canceled [OF k] by (auto simp: skips_explained_def)
    then show "v_canceled v' \<or> edge_failed steps v' i \<or> behind_refusal steps v' i"
      using move_keeps_edges(4) [OF k] move_keeps_refusals [OF k assms(3)] by blast
  qed
qed

lemma graph_step_starts:
  assumes "graph_step steps v v'" and "sized steps v" and "starts_justified steps S v"
  shows "starts_justified steps S v'"
proof -
  obtain k where k: "view_move steps k v v'" using graph_step_move [OF assms(1)] by blast
  have new: "i \<in> S \<or> edges_met steps v i"
    if "i < length steps" "v_states v' ! i \<in> {stepRunning, stepAwaiting, stepDone}" for i
    using assms that
    by (induction rule: graph_step.induct)
      (auto simp: move_defs nth_list_update_if sized_def starts_justified_def split: if_splits)
  then show ?thesis using move_keeps_edges(3) [OF k] by (auto simp: starts_justified_def)
qed

end
