(* ===== verification/Dag_Sim.thy ===== *)
theory Dag_Sim
  imports Dag_Spec
begin

text \<open>
  The walk of \<open>Dag_Walk\<close> implements the machine of \<open>Dag_Spec\<close>: on a graph the validation accepts, every
  turn is a sequence of the machine's moves on the view of the walk, and so is what happens before
  the walk returns. The interface \<open>simulation\<close> carries the machine's invariants over to the walk.
\<close>

section \<open>Simulations\<close>

locale simulation =
  fixes conc :: "'s \<Rightarrow> 's \<Rightarrow> bool" and spec :: "'a \<Rightarrow> 'a \<Rightarrow> bool"
    and abs :: "'s \<Rightarrow> 'a" and ok :: "'s \<Rightarrow> bool"
  assumes ok_step: "ok s \<Longrightarrow> conc s s' \<Longrightarrow> ok s'"
    and sim_step: "ok s \<Longrightarrow> conc s s' \<Longrightarrow> spec\<^sup>*\<^sup>* (abs s) (abs s')"
begin

lemma simulates:
  assumes "conc\<^sup>*\<^sup>* s s'" and "ok s"
  shows "ok s' \<and> spec\<^sup>*\<^sup>* (abs s) (abs s')"
  using assms
proof (induction rule: rtranclp_induct)
  case base
  then show ?case by simp
next
  case (step y z)
  then show ?case using ok_step [of y z] sim_step [of y z] by (metis rtranclp_trans)
qed

lemma carries:
  assumes "conc\<^sup>*\<^sup>* s s'" and "ok s" and "I (abs s)" and "\<And>a a'. I a \<Longrightarrow> spec a a' \<Longrightarrow> I a'"
  shows "I (abs s')"
proof -
  have "spec\<^sup>*\<^sup>* (abs s) (abs s')" using simulates [OF assms(1,2)] by simp
  then show ?thesis using assms(3,4) by (induction rule: rtranclp_induct) auto
qed

end

section \<open>Walks over a legal graph\<close>

definition walk_of :: "pipeline_step list \<Rightarrow> dag_walk \<Rightarrow> bool" where
  "walk_of steps w \<longleftrightarrow> validatePipelineGraph steps = None \<and> w_steps w = steps \<and>
     w_byName w = name_index 0 steps \<and> w_closures w = depClosures steps (name_index 0 steps) \<and>
     w_handled w = mark_handled steps (name_index 0 steps) \<and> sized steps (view w) \<and>
     dom (w_nodes w) \<subseteq> {..<length steps} \<and>
     (\<forall>i<length steps. w_states w ! i = stepAwaiting \<longrightarrow> w_nodes w i \<noteq> None)"

lemma index_of_name:
  assumes "names_legal steps" and "j < length steps"
  shows "index_of (name_index 0 steps) (ps_Name (steps ! j)) = j"
proof -
  have "name_index 0 steps (ps_Name (steps ! j)) = Some j"
    using name_index_Some [of steps 0 "ps_Name (steps ! j)" j] assms by (auto simp: names_legal_def)
  then show ?thesis by (simp add: index_of_def)
qed

lemma named_index:
  assumes "names_legal steps" and "deps_legal steps" and "i < length steps"
    and "dep \<in> set (dep_names (steps ! i))"
  obtains j where "j < length steps" "ps_Name (steps ! j) = dep" "index_of (name_index 0 steps) dep = j"
proof -
  have "\<exists>j<length steps. ps_Name (steps ! j) = dep"
    using assms(2-4) unfolding deps_legal_nth by blast
  then show ?thesis using that index_of_name [OF assms(1)] by blast
qed

lemma over_edges:
  assumes "names_legal steps" and "deps_legal steps" and "i < length steps"
  shows "(\<forall>dep\<in>set (ps_DependsOn (steps ! i)). P (index_of (name_index 0 steps) dep)) \<longleftrightarrow>
      (\<forall>j. waits_for steps i j \<longrightarrow> P j)"
    and "(\<forall>dep\<in>set (ps_IfDenied (steps ! i)). P (index_of (name_index 0 steps) dep)) \<longleftrightarrow>
      (\<forall>j. on_denial steps i j \<longrightarrow> P j)"
proof -
  have into: "\<exists>j<length steps. ps_Name (steps ! j) = dep \<and> index_of (name_index 0 steps) dep = j"
    if "dep \<in> set (ps_DependsOn (steps ! i)) \<or> dep \<in> set (ps_IfDenied (steps ! i))" for dep
    using that named_index [OF assms, of dep] by (auto simp: dep_names_def)
  show "(\<forall>dep\<in>set (ps_DependsOn (steps ! i)). P (index_of (name_index 0 steps) dep)) \<longleftrightarrow>
      (\<forall>j. waits_for steps i j \<longrightarrow> P j)"
    using into index_of_name [OF assms(1)] unfolding waits_for_def by metis
  show "(\<forall>dep\<in>set (ps_IfDenied (steps ! i)). P (index_of (name_index 0 steps) dep)) \<longleftrightarrow>
      (\<forall>j. on_denial steps i j \<longrightarrow> P j)"
    using into index_of_name [OF assms(1)] unfolding on_denial_def by metis
qed

lemma validated_legal:
  assumes "validatePipelineGraph steps = None"
  obtains ord where "names_legal steps" "deps_legal steps" "topo_order steps ord"
  using assms by (auto simp: validatePipelineGraph_None_iff)

lemma named_indices_legal:
  assumes "names_legal steps" and "deps_legal steps" and "i < length steps"
  shows "named_indices steps (name_index 0 steps) i = dep_indices steps (name_index 0 steps) i"
proof -
  have known: "name_index 0 steps dep \<noteq> None \<and> index_of (name_index 0 steps) dep = the (name_index 0 steps dep)"
    if d: "dep \<in> set (dep_names (steps ! i))" for dep
  proof -
    obtain j where "j < length steps" "ps_Name (steps ! j) = dep"
      using named_index [OF assms d] by metis
    then have "name_index 0 steps dep = Some j"
      using name_index_Some [of steps 0 dep j] assms(1) by (auto simp: names_legal_def)
    then show ?thesis by (simp add: index_of_def)
  qed
  then show ?thesis
    by (auto simp: named_indices_def dep_indices_def dep_names_def filter_empty_conv intro!: map_cong
        intro: filter_True [symmetric])
qed

text \<open>The closure rows of the walk are the transitive dependencies.\<close>

lemma depClosures_row:
  assumes "validatePipelineGraph steps = None" and "i < length steps"
  shows "length (row (depClosures steps (name_index 0 steps)) i) = length steps \<and>
    (\<forall>k<length steps. row (depClosures steps (name_index 0 steps)) i ! k \<longleftrightarrow> (k, i) \<in> depends_on steps)"
proof -
  let ?d = "named_indices steps (name_index 0 steps)" and ?n = "length steps"
  obtain ord where L: "names_legal steps" "deps_legal steps" "topo_order steps ord"
    using assms(1) by (rule validated_legal)
  have R: "ranked ?d ?n (position ord)"
    using topo_ranked(1) [OF L] named_indices_legal [OF L(1,2)] by (simp add: ranked_def)
  have "dep_rel ?d ?n = dep_rel (dep_indices steps (name_index 0 steps)) ?n"
    using named_indices_legal [OF L(1,2)] by (auto simp: dep_rel_def)
  then have "dep_rel ?d ?n = {(j, i). dep_edge steps j i}" using dep_rel_legal [OF L(1,2)] by simp
  then show ?thesis
    using closures_crow [OF R topo_ranked(2) [OF L] assms(2)]
    by (simp add: row_def crow_def depends_on_def depClosures_def Let_def)
qed

section \<open>Readiness\<close>

lemma fold_mark:
  "(fold (\<lambda>x h. h[f x := True]) xs h) ! i \<longleftrightarrow> h ! i \<or> (\<exists>x\<in>set xs. f x = i)" if "i < length h"
  using that by (induction xs arbitrary: h) (auto simp: nth_list_update_if)

lemma length_fold_mark [simp]: "length (fold (\<lambda>x h. h[f x := True]) xs h) = length h"
  by (induction xs arbitrary: h) auto

lemma fold_fold_mark:
  "i < length h \<Longrightarrow>
     (fold (\<lambda>s. fold (\<lambda>x h. h[f x := True]) (g s)) ss h) ! i \<longleftrightarrow> h ! i \<or> (\<exists>s\<in>set ss. \<exists>x\<in>set (g s). f x = i)"
  by (induction ss arbitrary: h) (auto simp: fold_mark)

lemma handled_iff:
  assumes "validatePipelineGraph steps = None" and "i < length steps"
  shows "mark_handled steps (name_index 0 steps) ! i \<longleftrightarrow> denial_handled steps i"
proof -
  obtain ord where L: "names_legal steps" "deps_legal steps"
    using assms(1) by (rule validated_legal)
  have "mark_handled steps (name_index 0 steps) ! i \<longleftrightarrow>
      (\<exists>s\<in>set steps. \<exists>dep\<in>set (ps_IfDenied s). index_of (name_index 0 steps) dep = i)"
    using assms(2) by (simp add: mark_handled_def fold_fold_mark)
  also have "\<dots> \<longleftrightarrow> (\<exists>k<length steps. \<not> (\<forall>dep\<in>set (ps_IfDenied (steps ! k)). index_of (name_index 0 steps) dep \<noteq> i))"
    by (auto simp: Bex_def in_set_conv_nth)
  also have "\<dots> \<longleftrightarrow> denial_handled steps i"
    using over_edges(2) [OF L, of _ "\<lambda>j. j \<noteq> i"] unfolding denial_handled_def by blast
  finally show ?thesis .
qed

lemma ready_over_iff:
  "ready_over w lets deps (r, b) =
     (r \<and> (\<forall>d\<in>set deps. depSettled w (index_of (w_byName w) d)),
      b \<or> (\<exists>d\<in>set deps. depSettled w (index_of (w_byName w) d) \<and>
         (w_states w ! index_of (w_byName w) d = stepSkipped \<or> \<not> lets w (index_of (w_byName w) d))))"
  by (induction deps arbitrary: r b) (auto simp: Let_def)

lemma depAllows_view: "depAllows w j \<longleftrightarrow> allows (w_steps w) (view w) j"
  by (auto simp: depAllows_def allows_def)

lemma depDenied_view: "depDenied w j \<longleftrightarrow> denies (view w) j"
  by (auto simp: depDenied_def denies_def)

lemma depSettled_view: "depSettled w j \<longleftrightarrow> \<not> unsettled (v_states (view w) ! j)"
  by (simp add: depSettled_def unsettled_def)

lemma behindRefusal_view:
  assumes "walk_of steps w" and "i < length steps"
  shows "behindRefusal w i \<longleftrightarrow> behind_refusal steps (view w) i"
  using assms depClosures_row [of steps i]
  by (auto simp: walk_of_def behindRefusal_def behind_refusal_def)

lemma readiness_iff:
  assumes W: "walk_of steps w" and i: "i < length steps" and R: "readiness w i = (ready, blocked)"
  shows "blocked \<longleftrightarrow> edge_failed steps (view w) i \<or> behind_refusal steps (view w) i"
    and "ready \<and> \<not> blocked \<longleftrightarrow> edges_met steps (view w) i \<and> \<not> behind_refusal steps (view w) i"
    and "ready \<longleftrightarrow> \<not> behind_refusal steps (view w) i \<and>
      (\<forall>j. waits_for steps i j \<or> on_denial steps i j \<longrightarrow> \<not> unsettled (w_states w ! j))"
proof -
  obtain ord where L: "names_legal steps" "deps_legal steps"
    using W validated_legal [of steps] by (auto simp: walk_of_def)
  have steps: "w_steps w = steps" and names: "w_byName w = name_index 0 steps"
    using W by (simp_all add: walk_of_def)
  note E = over_edges [OF L i]
  let ?A = "\<lambda>j. unsettled (w_states w ! j) \<or> allows steps (view w) j"
  let ?D = "\<lambda>j. unsettled (w_states w ! j) \<or> denies (view w) j"
  let ?S = "\<lambda>j. \<not> unsettled (w_states w ! j)"
  have skipA: "w_states w ! j = stepSkipped \<Longrightarrow> \<not> allows steps (view w) j" for j by (simp add: allows_def)
  have skipD: "w_states w ! j = stepSkipped \<Longrightarrow> \<not> denies (view w) j" for j by (simp add: denies_def)
  have B: "blocked \<longleftrightarrow> behind_refusal steps (view w) i \<or>
      \<not> (\<forall>d\<in>set (ps_DependsOn (steps ! i)). ?A (index_of (name_index 0 steps) d)) \<or>
      \<not> (\<forall>d\<in>set (ps_IfDenied (steps ! i)). ?D (index_of (name_index 0 steps) d))"
    using R behindRefusal_view [OF W i] skipA skipD
    by (auto simp: readiness_def ready_over_iff steps names depAllows_view depDenied_view depSettled_view
        split: if_splits)
  have A: "ready \<longleftrightarrow> \<not> behind_refusal steps (view w) i \<and>
      (\<forall>d\<in>set (ps_DependsOn (steps ! i)). ?S (index_of (name_index 0 steps) d)) \<and>
      (\<forall>d\<in>set (ps_IfDenied (steps ! i)). ?S (index_of (name_index 0 steps) d))"
    using R behindRefusal_view [OF W i]
    by (auto simp: readiness_def ready_over_iff steps names depSettled_view split: if_splits)
  show blocked: "blocked \<longleftrightarrow> edge_failed steps (view w) i \<or> behind_refusal steps (view w) i"
    unfolding B E(1) [of ?A] E(2) [of ?D] by (auto simp: edge_failed_def)
  show ready: "ready \<longleftrightarrow> \<not> behind_refusal steps (view w) i \<and>
      (\<forall>j. waits_for steps i j \<or> on_denial steps i j \<longrightarrow> \<not> unsettled (w_states w ! j))"
    unfolding A E(1) [of ?S] E(2) [of ?S] by blast
  have over: "allows steps (view w) j \<Longrightarrow> ?S j" "denies (view w) j \<Longrightarrow> ?S j" for j
    by (simp_all add: allows_def denies_def unsettled_def)
  show "ready \<and> \<not> blocked \<longleftrightarrow> edges_met steps (view w) i \<and> \<not> behind_refusal steps (view w) i"
    unfolding ready blocked edges_met_def edge_failed_def using over by auto
qed

section \<open>The operations on the view\<close>

text \<open>Settling a step leaves the counters to the caller.\<close>

definition recount :: "dag_walk \<Rightarrow> walk_view \<Rightarrow> walk_view" where
  "recount w v = v\<lparr>v_running := w_running w, v_awaiting := w_awaiting w\<rparr>"

lemma view_settle:
  assumes "walk_of steps w" and "i < length steps"
  shows "view (settle i st out w) = recount w (v_settle steps i st False (view w))"
  using assms handled_iff [of steps i]
  by (cases st) (auto simp: walk_of_def view_def recount_def settle_def note_result_def v_settle_def
      Let_def fails_def)

lemma view_settle_refused:
  assumes "walk_of steps w" and "i < length steps"
  shows "view (settle i StatusFailed out (mark_refused i why w)) =
    recount w (v_settle steps i StatusFailed True (view w))"
  using assms
  by (auto simp: walk_of_def view_def recount_def settle_def mark_refused_def note_result_def
      v_settle_def Let_def fails_def sized_def)

lemma decided_cases:
  obtains t rs where "decided env i node w = (Status node, w\<lparr>w_clock := t, w_roots := rs\<rparr>)"
  | t rs why where "decided env i node w =
      (StatusFailed, mark_refused i why (w\<lparr>w_clock := t, w_roots := rs\<rparr>))"
proof -
  have keep: "w\<lparr>w_clock := t\<rparr> = w\<lparr>w_clock := t, w_roots := w_roots w\<rparr>" for t by simp
  have keep0: "w = w\<lparr>w_clock := w_clock w, w_roots := w_roots w\<rparr>" by simp
  have A: "\<exists>t rs. snd (approved_node env i node w) = w\<lparr>w_clock := t, w_roots := rs\<rparr>"
    unfolding approved_node_def Let_def
    by (cases "verdictRoot env (w_parent w) node [StepApproved] (w_clock w)")
      (auto split: sum.splits option.splits intro: keep)
  have D: "\<exists>t rs. snd (denied_node env i node w) = w\<lparr>w_clock := t, w_roots := rs\<rparr>"
    unfolding denied_node_def
    by (cases "verdictRoot env (w_parent w) node [StepRejected, StepTimedOut] (w_clock w)")
      (auto split: sum.splits intro: keep keep0)
  show ?thesis
  proof (cases "Status node \<in> {StatusSucceeded, StatusRejected, StatusFailed}")
    case True
    then obtain err t rs where "decided env i node w =
        (case err of Some e \<Rightarrow> (StatusFailed, mark_refused i (RefusalText e) (w\<lparr>w_clock := t, w_roots := rs\<rparr>))
         | None \<Rightarrow> (Status node, w\<lparr>w_clock := t, w_roots := rs\<rparr>))"
      using A D unfolding decided_def Let_def
      by (cases "approved_node env i node w"; cases "denied_node env i node w") auto
    then show ?thesis using that by (cases err) auto
  next
    case False
    then have "decided env i node w = (Status node, w\<lparr>w_clock := w_clock w, w_roots := w_roots w\<rparr>)"
      by (cases "Status node") (auto simp: decided_def)
    then show ?thesis by (rule that(1))
  qed
qed

lemma walk_of_more:
  "walk_of steps (w\<lparr>w_clock := t, w_roots := rs\<rparr>) = walk_of steps w"
  "walk_of steps (w\<lparr>w_clock := t\<rparr>) = walk_of steps w"
  "walk_of steps (w\<lparr>w_clock := t, w_workflowRoots := rs, w_workflowRead := b\<rparr>) = walk_of steps w"
  "walk_of steps (tick w) = walk_of steps w"
  "walk_of steps (mark_refused i why w) = walk_of steps w"
  "walk_of steps (w\<lparr>w_running := n\<rparr>) = walk_of steps w"
  "walk_of steps (w\<lparr>w_awaiting := n\<rparr>) = walk_of steps w"
  by (simp_all add: walk_of_def sized_def tick_def mark_refused_def)

lemma view_more:
  "view (w\<lparr>w_clock := t, w_roots := rs\<rparr>) = view w"
  "view (w\<lparr>w_clock := t\<rparr>) = view w"
  "view (w\<lparr>w_clock := t, w_workflowRoots := wr, w_workflowRead := b\<rparr>) = view w"
  "view (tick w) = view w"
  "view (w\<lparr>w_nodes := ns\<rparr>) = view w"
  by (simp_all add: view_def tick_def)

lemma walk_of_settle:
  "walk_of steps w \<Longrightarrow> walk_of steps (settle i st out w)"
  by (auto simp: walk_of_def sized_def settle_def nth_list_update_if split: if_splits)

text \<open>Settling a node: some verdict, a refusal of it only as a failure.\<close>

lemma settle_node_view:
  assumes "walk_of steps w" and "i < length steps"
  shows "walk_of steps (settle_node env i node w) \<and>
    (\<exists>st b. (b \<longrightarrow> st = StatusFailed) \<and>
       view (settle_node env i node w) = recount w (v_settle steps i st b (view w)))"
proof (cases rule: decided_cases [of env i node w])
  case (1 t rs)
  have W: "walk_of steps (w\<lparr>w_clock := t, w_roots := rs\<rparr>)" using assms(1) by (simp only: walk_of_more)
  show ?thesis
    using view_settle [OF W assms(2), of "Status node" "[]"] walk_of_settle [OF W]
    by (auto simp: settle_node_def 1 view_more recount_def)
next
  case (2 t rs why)
  have W: "walk_of steps (w\<lparr>w_clock := t, w_roots := rs\<rparr>)" using assms(1) by (simp only: walk_of_more)
  then have "walk_of steps (mark_refused i why (w\<lparr>w_clock := t, w_roots := rs\<rparr>))" by (simp only: walk_of_more)
  then show ?thesis
    using view_settle_refused [OF W assms(2), of "[]" why] walk_of_settle
    by (auto simp: settle_node_def 2 view_more recount_def)
qed

text \<open>From where a step is, the caller's count is the one \<open>v_settle\<close> keeps.\<close>

lemma recount_waiting:
  "w_states w ! i = stepWaiting \<Longrightarrow> recount w (v_settle steps i st b (view w)) = v_settle steps i st b (view w)"
  by (simp add: recount_def v_settle_def Let_def)

lemma recount_running:
  "w_states w ! i = stepRunning \<Longrightarrow>
     recount (w\<lparr>w_running := w_running w - 1\<rparr>) (v_settle steps i st b (view (w\<lparr>w_running := w_running w - 1\<rparr>))) =
     v_settle steps i st b (view w)"
  by (simp add: recount_def v_settle_def Let_def view_def)

lemma recount_awaiting:
  "w_states w ! i = stepAwaiting \<Longrightarrow>
     recount (w\<lparr>w_awaiting := w_awaiting w - 1\<rparr>) (v_settle steps i st b (view (w\<lparr>w_awaiting := w_awaiting w - 1\<rparr>))) =
     v_settle steps i st b (view w)"
  by (simp add: recount_def v_settle_def Let_def view_def)

section \<open>Every operation is a move of the machine\<close>

lemma launch_sim:
  assumes W: "walk_of steps w" and i: "i < length steps" and s: "w_states w ! i = stepWaiting"
  shows "walk_of steps (launch env i w) \<and>
    view (launch env i w) \<in> {v_run i (view w), v_settle steps i StatusFailed True (view w)}"
proof -
  obtain a t rs b where R: "releaseRoots env i w =
      (a, w\<lparr>w_clock := t, w_workflowRoots := rs, w_workflowRead := b\<rparr>)" (is "_ = (a, ?w)")
    using releaseRoots_keeps [of env i w] by (metis prod.collapse)
  have W': "walk_of steps ?w" using W by (simp only: walk_of_more)
  show ?thesis
  proof (cases a)
    case (Inl e)
    then have "launch env i w = settle i StatusFailed [] (mark_refused i (RefusalText e) ?w)"
      by (simp add: launch_def R refuse_def)
    moreover have "view \<dots> = recount w (v_settle steps i StatusFailed True (view w))"
      unfolding view_settle_refused [OF W' i] by (simp add: view_more recount_def)
    moreover have "walk_of steps (mark_refused i (RefusalText e) ?w)" using W' by (simp only: walk_of_more)
    ultimately show ?thesis using walk_of_settle recount_waiting [OF s] by simp
  next
    case (Inr roots)
    then show ?thesis
      using W i by (simp add: launch_def R walk_of_def sized_def v_run_def view_def nth_list_update_if)
  qed
qed

lemma open_step_sim:
  assumes W: "walk_of steps w" and i: "i < length steps" and s: "w_states w ! i = stepWaiting"
  shows "walk_of steps (open_step env i w) \<and>
    (view (open_step env i w) = v_ask i (view w) \<or>
     (\<exists>b. view (open_step env i w) = v_settle steps i StatusFailed b (view w)))"
proof (cases "en_openStep env (w_clock w) (w_parent w) (w_steps w ! i) i")
  case (Opened node)
  then show ?thesis
    using W i by (auto simp: open_step_def walk_of_def sized_def v_ask_def view_def nth_list_update_if)
next
  case (NotOpened node)
  define w1 where "w1 = (case node of None \<Rightarrow> tick w
      | Some n \<Rightarrow> (tick w)\<lparr>w_nodes := (w_nodes w)(i \<mapsto> n)\<rparr>)"
  have W1: "walk_of steps w1"
    using W i by (auto simp: w1_def walk_of_def sized_def tick_def split: option.splits)
  have v1: "view w1 = view w" by (simp add: w1_def view_more split: option.splits)
  then have c1: "recount w1 v = recount w v" for v by (simp add: view_def recount_def)
  have eq: "open_step env i w = settle i StatusFailed []
      (if en_audits env then mark_refused i (unasked env (ps_Name (w_steps w ! i))) w1 else w1)"
    by (simp add: open_step_def NotOpened w1_def tick_def Let_def cong: option.case_cong)
  show ?thesis
    using view_settle [OF W1 i, of StatusFailed "[]"] view_settle_refused [OF W1 i, of "[]"]
      walk_of_settle [OF W1] walk_of_settle [of steps "mark_refused i _ w1"] W1 recount_waiting [OF s]
    by (auto simp: eq v1 c1 walk_of_more)
qed

lemma advance_step_sim:
  assumes W: "walk_of steps w" and i: "i < length steps" and A: "advance_step env False i w = Some (w', p)"
  shows "walk_of steps w' \<and> (if p then graph_step steps (view w) (view w') else view w' = view w)"
proof (cases "w_states w ! i = stepWaiting")
  case False
  then show ?thesis using A W by (simp add: advance_step_def)
next
  case wait: True
  let ?w = "tick w"
  have W': "walk_of steps ?w" using W by (simp only: walk_of_more)
  have s: "w_states ?w ! i = stepWaiting" using wait by (simp add: tick_def)
  have st: "w_steps w = steps" using W by (simp add: walk_of_def)
  show ?thesis
  proof (cases "en_stopped env (w_clock w)")
    case True
    then have "w' = cancel_step i ?w" "p" using A wait by (simp_all add: advance_step_def)
    then show ?thesis
      using W i wait graph_step.stopped [of i steps "view w"]
      by (auto simp: cancel_step_def skip_step_def tick_def walk_of_def sized_def view_def v_stop_def
          v_skip_def nth_list_update_if)
  next
    case False
    obtain ready blocked where R: "readiness ?w i = (ready, blocked)" by fastforce
    have A': "start_step env False i ?w = Some (w', p)" using A wait False by (simp add: advance_step_def)
    note RI = readiness_iff [OF W' i R]
    consider (blocked) "blocked" "w' = skip_step i ?w" "p"
      | (open_it) "ready" "\<not> blocked" "IsApproval (steps ! i)" "w' = open_step env i ?w" "p"
      | (launch_it) "ready" "\<not> blocked" "\<not> IsApproval (steps ! i)" "w' = launch env i ?w" "p"
      | (neither) "w' = ?w" "\<not> p"
      using A' R st by (auto simp: start_step_def tick_def split: if_splits)
    then show ?thesis
    proof cases
      case blocked
      have "view w' = v_skip i (view w)"
        by (simp add: blocked skip_step_def tick_def view_def v_skip_def)
      moreover have "walk_of steps w'"
        using W i by (auto simp: blocked skip_step_def tick_def walk_of_def sized_def nth_list_update_if)
      moreover have "edge_failed steps (view w) i \<or> behind_refusal steps (view w) i"
        using RI(1) blocked by (simp add: view_more)
      ultimately show ?thesis using graph_step.skipped [of i steps "view w"] i wait blocked by simp
    next
      case open_it
      have "edges_met steps (view w) i" "\<not> behind_refusal steps (view w) i"
        using RI(2) open_it by (simp_all add: view_more)
      then show ?thesis
        using open_step_sim [OF W' i s, of env] open_it i wait graph_step.asked [of i steps "view w"]
          graph_step.not_started [of i steps "view w"] by (auto simp: view_more)
    next
      case launch_it
      have "edges_met steps (view w) i" "\<not> behind_refusal steps (view w) i"
        using RI(2) launch_it by (simp_all add: view_more)
      then show ?thesis
        using launch_sim [OF W' i s, of env] launch_it i wait graph_step.started [of i steps "view w"]
          graph_step.not_started [of i steps "view w"] by (auto simp: view_more)
    next
      case neither
      then show ?thesis using W' by (simp add: view_more)
    qed
  qed
qed

lemma start_step_live: "start_step env False i w \<noteq> None"
  by (auto simp: start_step_def split: prod.splits)

lemma advance_step_live: "advance_step env False i w \<noteq> None"
  using start_step_live by (auto simp: advance_step_def)

lemma advance_pass_sim:
  assumes "walk_of steps w" and "set is \<subseteq> {..<length steps}"
    and "advance_pass env False is (w, progress) = Some (w', progress')"
  shows "walk_of steps w' \<and> (graph_step steps)\<^sup>*\<^sup>* (view w) (view w') \<and>
    (\<not> progress' \<longrightarrow> \<not> progress \<and> view w' = view w \<and>
      (\<forall>i\<in>set is. \<exists>v p. walk_of steps v \<and> view v = view w \<and> advance_step env False i v = Some (p, False)))"
  using assms
proof (induction "is" arbitrary: w progress)
  case Nil
  then show ?case by simp
next
  case (Cons i "is")
  obtain w1 p where step: "advance_step env False i w = Some (w1, p)"
    and rest: "advance_pass env False is (w1, progress \<or> p) = Some (w', progress')"
    using Cons.prems(3) by (auto split: option.splits)
  have i: "i < length steps" "set is \<subseteq> {..<length steps}" using Cons.prems(2) by auto
  note S = advance_step_sim [OF Cons.prems(1) i(1) step]
  note IH = Cons.IH [OF conjunct1 [OF S] i(2) rest]
  have "(graph_step steps)\<^sup>*\<^sup>* (view w) (view w1)" using S by (cases p) auto
  then have "(graph_step steps)\<^sup>*\<^sup>* (view w) (view w')" using IH by (auto intro: rtranclp_trans)
  moreover have "\<not> progress \<and> view w' = view w \<and>
      (\<forall>k\<in>set (i # is). \<exists>v p. walk_of steps v \<and> view v = view w \<and> advance_step env False k v = Some (p, False))"
    if "\<not> progress'"
  proof -
    have np: "\<not> progress" "\<not> p" using IH that by auto
    then have "view w1 = view w" using S by simp
    then show ?thesis using IH that np step Cons.prems(1) by auto
  qed
  ultimately show ?case using IH by blast
qed

text \<open>After \<open>advance\<close> no step is left that could start, could never start, or should have stopped.\<close>

lemma advance_sim:
  assumes "walk_of steps w"
  shows "walk_of steps (fst (advance env False w)) \<and>
    (graph_step steps)\<^sup>*\<^sup>* (view w) (view (fst (advance env False w))) \<and>
    (\<forall>i<length steps. \<exists>v p. walk_of steps v \<and> view v = view (fst (advance env False w)) \<and>
       advance_step env False i v = Some (p, False))"
  using assms
proof (induction env "False" w rule: advance.induct)
  case (1 env w)
  have len: "length (w_states w) = length steps" using 1(2) by (simp add: walk_of_def sized_def)
  have live: "advance_pass env False is st \<noteq> None" for "is" st
    using advance_step_live by (induction "is" arbitrary: st) (auto split: option.splits)
  obtain w1 progress where P: "advance_pass env False [0..<length steps] (w, False) = Some (w1, progress)"
    using live by fastforce
  note S = advance_pass_sim [OF 1(2) _ P]
  show ?case
  proof (cases progress)
    case False
    then have "fst (advance env False w) = w1" using P len by (simp add: advance.simps)
    then show ?thesis using S False by (auto simp: lessThan_atLeast0)
  next
    case True
    then have eq: "fst (advance env False w) = fst (advance env False w1)"
      using P len by (subst advance.simps) simp
    have W1: "walk_of steps w1" using S by (simp add: lessThan_atLeast0)
    have "advance_pass env False [0..<length (w_states w)] (w, False) = Some (w1, progress)" using P len by simp
    from 1(1) [OF this _ True W1] show ?thesis
      unfolding eq using S by (auto simp: lessThan_atLeast0 intro: rtranclp_trans)
  qed
qed

lemma advance_quiescent:
  assumes "walk_of steps w" and w1: "w1 = fst (advance env False w)" and "i < length steps"
    and "w_states w1 ! i = stepWaiting"
  shows "\<exists>j. (waits_for steps i j \<or> on_denial steps i j) \<and> unsettled (w_states w1 ! j)"
proof -
  obtain v p where v: "walk_of steps v" "view v = view w1" "advance_step env False i v = Some (p, False)"
    using advance_sim [OF assms(1), of env] assms(3) w1 by blast
  have s: "w_states v = w_states w1" using v(2) by (metis view_sel(1))
  have T: "walk_of steps (tick v)" using v(1) by (simp only: walk_of_more)
  obtain ready blocked where R: "readiness (tick v) i = (ready, blocked)" by fastforce
  have "\<not> ready" "\<not> blocked"
    using v(3) assms(4) R s by (auto simp: advance_step_def start_step_def split: if_splits)
  then show ?thesis
    using readiness_iff(1,3) [OF T assms(3) R] s by (auto simp: tick_def)
qed

lemma finish_sim:
  assumes W: "walk_of steps w" and i: "sr_idx r < length steps" and s: "w_states w ! sr_idx r = stepRunning"
  shows "walk_of steps (finish r (w\<lparr>w_running := w_running w - 1\<rparr>)) \<and>
    graph_step steps (view w) (view (finish r (w\<lparr>w_running := w_running w - 1\<rparr>)))"
proof -
  let ?w = "w\<lparr>w_running := w_running w - 1\<rparr>"
  have W': "walk_of steps ?w" using W by (simp only: walk_of_more)
  have "walk_of steps (finish r ?w)"
    using walk_of_settle [OF W'] walk_of_settle [of steps "mark_refused (sr_idx r) (sr_reason r) ?w"] W'
    by (simp add: finish_def refuse_def walk_of_more)
  moreover have "\<exists>st b. (b \<longrightarrow> st = StatusFailed) \<and> view (finish r ?w) = v_settle steps (sr_idx r) st b (view w)"
    using view_settle [OF W' i, of "sr_status r" "sr_outputs r"] view_settle_refused [OF W' i, of "[]" "sr_reason r"]
      recount_running [OF s, of steps]
    by (auto simp: finish_def refuse_def)
  ultimately show ?thesis using graph_step.reported [OF i, of "view w"] s by auto
qed

lemma poll_node_sim:
  assumes W: "walk_of steps w" and P: "poll_node env i w = (w', p)"
  shows "walk_of steps w' \<and> (if p then graph_step steps (view w) (view w') else view w' = view w)"
proof (cases p)
  case False
  then show ?thesis
    using P W by (auto simp: poll_node_def view_more walk_of_more split: option.splits if_splits)
next
  case True
  obtain node_id node where n: "w_nodes w i = Some node_id" "w_states w ! i = stepAwaiting"
    and w': "w' = settle_node env i node ((tick w)\<lparr>w_awaiting := w_awaiting w - 1\<rparr>)"
    using P True by (auto simp: poll_node_def split: option.splits if_splits)
  have i: "i < length steps" using W n(1) by (auto simp: walk_of_def)
  let ?w = "(tick w)\<lparr>w_awaiting := w_awaiting (tick w) - 1\<rparr>"
  have "walk_of steps ?w" using W by (simp only: walk_of_more)
  from settle_node_view [OF this i, of env node] obtain st b where
    sn: "walk_of steps w'" "b \<longrightarrow> st = StatusFailed" "view w' = recount ?w (v_settle steps i st b (view ?w))"
    by (auto simp: w' tick_def)
  have "view w' = v_settle steps i st b (view w)"
    using recount_awaiting [of "tick w" i steps st b] sn(3) n(2) by (simp add: view_more tick_def)
  then show ?thesis using sn True n(2) graph_step.reported [OF i, of "view w" b st] by simp
qed

lemma poll_nodes_sim:
  assumes "walk_of steps w" and "poll_nodes env is (w, c) = (w', c')"
  shows "walk_of steps w' \<and> (graph_step steps)\<^sup>*\<^sup>* (view w) (view w') \<and>
    (c' \<longrightarrow> c \<or> (graph_step steps)\<^sup>+\<^sup>+ (view w) (view w')) \<and> (\<not> c' \<longrightarrow> view w' = view w)"
  using assms
proof (induction "is" arbitrary: w c)
  case Nil
  then show ?case by simp
next
  case (Cons i "is")
  obtain w1 p where P: "poll_node env i w = (w1, p)" by fastforce
  note S = poll_node_sim [OF Cons.prems(1) P]
  have rest: "poll_nodes env is (w1, c \<or> p) = (w', c')" using Cons.prems(2) P by simp
  note IH = Cons.IH [OF conjunct1 [OF S] rest]
  show ?case
  proof (cases p)
    case True
    then have "graph_step steps (view w) (view w1)" using S by simp
    then have "(graph_step steps)\<^sup>+\<^sup>+ (view w) (view w')" using IH by (auto intro: rtranclp_into_tranclp2)
    moreover have "c'" using rest True by (induction "is" arbitrary: w1 c) (auto split: prod.splits)
    ultimately show ?thesis using IH by (auto dest: tranclp_into_rtranclp)
  next
    case False
    then show ?thesis using S IH by auto
  qed
qed

lemma withdraw_node_sim:
  assumes W: "walk_of steps w"
  shows "walk_of steps (withdraw_node env i w) \<and>
    (graph_step steps (view w) (view (withdraw_node env i w)) \<or> withdraw_node env i w = w) \<and>
    (w_nodes w i \<noteq> None \<longrightarrow> w_states (withdraw_node env i w) ! i \<noteq> stepAwaiting)"
proof (cases "w_nodes w i \<noteq> None \<and> w_states w ! i = stepAwaiting")
  case False
  then show ?thesis using W by (auto simp: withdraw_node_def split: option.splits)
next
  case True
  then have i: "i < length steps" using W by (auto simp: walk_of_def)
  let ?w = "(tick w)\<lparr>w_awaiting := w_awaiting (tick w) - 1\<rparr>"
  have W': "walk_of steps ?w" using W by (simp only: walk_of_more)
  have eq: "withdraw_node env i w = settle i (stoppedStatus env (w_clock w)) [] ?w"
    using True by (auto simp: withdraw_node_def tick_def)
  have "view (withdraw_node env i w) = v_settle steps i (stoppedStatus env (w_clock w)) False (view w)"
    using view_settle [OF W' i] recount_awaiting [of "tick w" i steps] True
    by (simp add: eq view_more tick_def)
  moreover have "w_states (withdraw_node env i w) ! i = stepDone"
    using W' i by (simp add: eq walk_of_def sized_def)
  ultimately show ?thesis
    using walk_of_settle [OF W'] graph_step.reported [OF i, of "view w" False] True by (simp add: eq)
qed

lemma withdraw_sim:
  assumes "walk_of steps w"
  shows "walk_of steps (withdraw env is w) \<and> (graph_step steps)\<^sup>*\<^sup>* (view w) (view (withdraw env is w)) \<and>
    ((\<exists>i\<in>set is. w_nodes w i \<noteq> None \<and> w_states w ! i = stepAwaiting) \<longrightarrow>
      (graph_step steps)\<^sup>+\<^sup>+ (view w) (view (withdraw env is w)))"
  using assms
proof (induction "is" arbitrary: w)
  case Nil
  then show ?case by (simp add: withdraw_def)
next
  case (Cons i "is")
  let ?w = "withdraw_node env i w"
  have step: "withdraw env (i # is) w = withdraw env is ?w" by (simp add: withdraw_def)
  note S = withdraw_node_sim [OF Cons.prems, of env i]
  note IH = Cons.IH [of ?w]
  show ?case
  proof (cases "?w = w")
    case True
    then show ?thesis using IH S unfolding step True by auto
  next
    case False
    then have "(graph_step steps)\<^sup>+\<^sup>+ (view w) (view (withdraw env is ?w))"
      using S IH by (auto intro: rtranclp_into_tranclp2)
    then show ?thesis using IH S unfolding step by (auto dest: tranclp_into_rtranclp)
  qed
qed

section \<open>The loop\<close>

text \<open>An event that is more than an empty look at the open approval steps.\<close>

definition productive :: "walk_event \<Rightarrow> bool" where
  "productive e \<longleftrightarrow> e \<noteq> Polled False"

definition tallied :: "pipeline_step list \<Rightarrow> dag_walk \<Rightarrow> bool" where
  "tallied steps w \<longleftrightarrow> walk_of steps w \<and> counted (view w)"

lemma steps_sized: "(graph_step steps)\<^sup>*\<^sup>* v v' \<Longrightarrow> sized steps v \<Longrightarrow> sized steps v'"
  by (induction rule: rtranclp_induct) (auto dest: graph_step_move intro: move_sized)

lemma steps_counted:
  assumes "(graph_step steps)\<^sup>*\<^sup>* v v'" and "sized steps v" and "counted v"
  shows "counted v'"
  using assms
proof (induction rule: rtranclp_induct)
  case (step y z)
  then obtain i where "view_move steps i y z" using graph_step_move by blast
  then show ?case using step steps_sized [OF step.hyps(1)] move_counted by blast
qed simp

lemma tallied_by:
  assumes "tallied steps w" and "walk_of steps w'" and "(graph_step steps)\<^sup>*\<^sup>* (view w) (view w')"
  shows "tallied steps w'"
  using assms steps_counted [OF assms(3)] by (simp add: tallied_def walk_of_def)

lemma awaiting_node:
  assumes "tallied steps w" and "w_awaiting w \<noteq> 0" and "iterates ord (w_nodes w)"
  shows "\<exists>i\<in>set ord. w_nodes w i \<noteq> None \<and> w_states w ! i = stepAwaiting"
proof -
  have "count_list (w_states w) stepAwaiting \<noteq> 0" using assms(1,2) by (simp add: tallied_def counted_def)
  then have "stepAwaiting \<in> set (w_states w)" by (simp add: count_list_0_iff)
  then obtain i where "i < length steps" "w_states w ! i = stepAwaiting"
    using assms(1) by (auto simp: tallied_def walk_of_def sized_def in_set_conv_nth)
  moreover from this have "w_nodes w i \<noteq> None" using assms(1) by (simp add: tallied_def walk_of_def)
  ultimately show ?thesis using iterates_mem [OF assms(3), of i] by blast
qed

lemma turn_sim:
  assumes T: "tallied steps w" and "walk_turn env w e w'"
  shows "tallied steps w' \<and> (graph_step steps)\<^sup>*\<^sup>* (view w) (view w') \<and>
    (productive e \<longrightarrow> (graph_step steps)\<^sup>+\<^sup>+ (view w) (view w'))"
proof -
  let ?w1 = "fst (advance env False w)"
  have W: "walk_of steps w" using T by (simp add: tallied_def)
  have A: "walk_of steps ?w1" "(graph_step steps)\<^sup>*\<^sup>* (view w) (view ?w1)" using advance_sim [OF W] by simp_all
  have T1: "tallied steps ?w1" using tallied_by [OF T A] .
  have tk: "walk_of steps (tick ?w1)" using A(1) by (simp only: walk_of_more)
  have "walk_of steps w' \<and> (graph_step steps)\<^sup>*\<^sup>* (view ?w1) (view w') \<and>
      (productive e \<longrightarrow> (graph_step steps)\<^sup>+\<^sup>+ (view ?w1) (view w'))"
    using assms(2)
  proof (cases rule: walk_turn.cases)
    case (decided_before_park w1 ord)
    then show ?thesis using poll_nodes_sim [OF tk, of env ord False w' True]
      by (auto simp: poll_def view_more)
  next
    case (received w1 r)
    then have "sr_idx r < length steps" using A(1) by (simp add: walk_of_def sized_def)
    then show ?thesis using finish_sim [OF A(1), of r] received by auto
  next
    case (timer w1 ord changed)
    then show ?thesis using poll_nodes_sim [OF tk, of env ord False w' changed]
      by (auto simp: poll_def view_more productive_def)
  next
    case (stop_reached w1 ord)
    then have "\<exists>i\<in>set ord. w_nodes (tick ?w1) i \<noteq> None \<and> w_states (tick ?w1) ! i = stepAwaiting"
      using awaiting_node [OF T1, of ord] by (simp add: tick_def)
    then show ?thesis using withdraw_sim [OF tk, of env ord] stop_reached by (simp add: view_more)
  qed
  then show ?thesis
    using A(2) tallied_by [OF T, of w'] by (auto intro: rtranclp_trans rtranclp_tranclp_tranclp)
qed

interpretation graph_walk: simulation "\<lambda>w w'. \<exists>e. walk_turn env w e w'" "graph_step steps" view "tallied steps"
  for env steps
  by unfold_locales (use turn_sim in blast)+

lemma walks_reach: "walks env w es w' \<Longrightarrow> (\<lambda>w w'. \<exists>e. walk_turn env w e w')\<^sup>*\<^sup>* w w'"
  by (induction rule: walks.induct) (auto intro: rtranclp.rtrancl_into_rtrancl)

lemma returns_sim:
  assumes T: "tallied steps w" and "walk_returns env w w'"
  shows "(graph_step steps)\<^sup>*\<^sup>* (view w) (view w') \<and> tallied steps w'"
proof -
  let ?w1 = "fst (advance env False w)"
  have W: "walk_of steps w" using T by (simp add: tallied_def)
  have A: "walk_of steps ?w1" "(graph_step steps)\<^sup>*\<^sup>* (view w) (view ?w1)" using advance_sim [OF W] by simp_all
  have tk: "walk_of steps (tick ?w1)" using A(1) by (simp only: walk_of_more)
  have pk: "view (park v) = view v \<and> walk_of steps (park v) = walk_of steps v" for v
    by (simp add: park_def view_def walk_of_def sized_def)
  have "view w' = view ?w1 \<and> walk_of steps w'"
    using assms(2)
  proof (cases rule: walk_returns.cases)
    case (waits_for_a_person w1 ord w2)
    then show ?thesis using poll_nodes_sim [OF tk, of env ord False w2 False] pk
      by (auto simp: poll_def view_more)
  qed (use A(1) pk in auto)
  then show ?thesis using A(2) tallied_by [OF T, of w'] by simp
qed

section \<open>Where walks start\<close>

lemma new_walk:
  assumes "validatePipelineGraph steps = None"
  shows "tallied steps (newDAGWalk parent steps)"
  using assms
  by (auto simp: tallied_def walk_of_def newDAGWalk_def Let_def sized_def counted_def)

text \<open>Restoring moves steps the machine's way, without its guards.\<close>

lemma restore_step_move:
  assumes W: "walk_of steps w" and i: "i < length steps" and s: "w_states w ! i = stepWaiting"
  shows "walk_of steps (restore_step env dry i c w) \<and>
    view_move steps i (view w) (view (restore_step env dry i c w)) \<and>
    w_states (restore_step env dry i c w) ! i \<noteq> stepSkipped"
proof -
  let ?a = "w\<lparr>w_nodes := (w_nodes w)(i \<mapsto> ID c)\<rparr>"
  have Wa: "walk_of steps ?a" using W i by (auto simp: walk_of_def sized_def)
  have u: "unsettled (v_states (view w) ! i)" using s by (simp add: unsettled_def)
  have len: "length (w_states w) = length steps" using W by (simp add: walk_of_def sized_def)
  note settled = view_move.intros(2) [OF i u]
  have rc: "recount ?a v = recount w v" "recount (w\<lparr>w_clock := t\<rparr>) v = recount w v" for v t
    by (simp_all add: recount_def)
  have Wt: "walk_of steps (w\<lparr>w_clock := t\<rparr>)" for t using W by (simp only: walk_of_more)
  consider (pending) "Kind c = KindApproval" "Status c = StatusPendingApproval"
    | (dry) "Kind c = KindApproval" "Status c \<noteq> StatusPendingApproval" "dry"
    | (node) "Kind c = KindApproval" "Status c \<noteq> StatusPendingApproval" "\<not> dry"
    | (over) "Kind c \<noteq> KindApproval" "Terminal (Status c)"
    | (live) "Kind c \<noteq> KindApproval" "\<not> Terminal (Status c)" by blast
  then show ?thesis
  proof cases
    case pending
    then have "view (restore_step env dry i c w) = v_ask i (view w)"
      by (simp add: restore_step_def Let_def v_ask_def view_def)
    moreover have "walk_of steps (restore_step env dry i c w)"
      using pending W i by (auto simp: restore_step_def Let_def walk_of_def sized_def nth_list_update_if)
    ultimately show ?thesis
      using view_move.intros(1) [of i steps "view w" "v_ask i (view w)"] i s pending len
      by (simp add: restore_step_def Let_def)
  next
    case dry
    then show ?thesis
      using view_settle [OF Wa i, of "Status c" "[]"] walk_of_settle [OF Wa] settled [of False] len i
        recount_waiting [OF s, of steps]
      by (simp add: restore_step_def Let_def view_more rc)
  next
    case node
    then have eq: "restore_step env dry i c w = settle_node env i c ?a" by (simp add: restore_step_def Let_def)
    have "w_states (settle_node env i c ?a) ! i = stepDone"
      using i len by (cases rule: decided_cases [of env i c ?a]) (auto simp: settle_node_def mark_refused_def)
    then show ?thesis
      using settle_node_view [OF Wa i, of env c] settled recount_waiting [OF s, of steps]
      by (auto simp: eq view_more rc)
  next
    case over
    obtain why t where wt: "(if dry then ([], w_clock w) else resultRefusal env c (w_clock w)) = (why, t)"
      by fastforce
    show ?thesis
    proof (cases "why = []")
      case True
      then show ?thesis
        using over wt view_settle [OF Wt i] walk_of_settle [OF Wt] settled [of False] len i
          recount_waiting [OF s, of steps]
        by (simp add: restore_step_def Let_def view_more rc)
    next
      case False
      have Wr: "walk_of steps (mark_refused i why (w\<lparr>w_clock := t\<rparr>))" using W by (simp only: walk_of_more)
      show ?thesis
        using False over wt view_settle_refused [OF Wt i, of "[]" why] walk_of_settle [OF Wr] settled [of True] len i
          recount_waiting [OF s, of steps]
        by (simp add: restore_step_def Let_def view_more rc refuse_def mark_refused_def)
    qed
  next
    case live
    have "Status c \<noteq> StatusPendingApproval \<or> Kind c \<noteq> KindApproval" using live by simp
    then have "view (restore_step env dry i c w) = v_run i (view w)"
      using live by (auto simp: restore_step_def Let_def v_run_def view_def)
    moreover have "walk_of steps (restore_step env dry i c w)"
      using live W i by (auto simp: restore_step_def Let_def walk_of_def sized_def nth_list_update_if)
    ultimately show ?thesis
      using view_move.intros(1) [of i steps "view w" "v_run i (view w)"] i s live len
      by (simp add: restore_step_def Let_def)
  qed
qed

definition restored_ok :: "pipeline_step list \<Rightarrow> dag_walk \<Rightarrow> bool" where
  "restored_ok steps w \<longleftrightarrow> tallied steps w \<and> truthful steps (view w) \<and>
     (\<forall>i<length steps. w_states w ! i \<noteq> stepSkipped)"

lemma restore_step_ok:
  assumes "restored_ok steps w" and "i < length steps" and "w_states w ! i = stepWaiting"
  shows "restored_ok steps (restore_step env dry i c w) \<and>
    (\<forall>j. j \<noteq> i \<longrightarrow> w_states (restore_step env dry i c w) ! j = w_states w ! j)"
proof -
  have W: "walk_of steps w" "sized steps (view w)" "counted (view w)" "truthful steps (view w)"
    using assms(1) by (simp_all add: restored_ok_def tallied_def walk_of_def)
  note R = restore_step_move [OF W(1) assms(2,3), of env dry c]
  have off: "\<forall>j. j \<noteq> i \<longrightarrow> w_states (restore_step env dry i c w) ! j = w_states w ! j"
    using move_elsewhere [OF conjunct1 [OF conjunct2 [OF R]]] by simp
  moreover have "w_states (restore_step env dry i c w) ! j \<noteq> stepSkipped" if "j < length steps" for j
    using R off assms(1) that by (cases "j = i") (auto simp: restored_ok_def)
  ultimately show ?thesis
    using R move_counted [OF _ W(2,3)] move_truthful [OF _ W(2,4)]
    by (auto simp: restored_ok_def tallied_def)
qed

lemma restore_fold:
  assumes "restored_ok steps w" and "distinct is" and "\<forall>i\<in>set is. i < length steps \<and> w_states w ! i = stepWaiting"
    and "w' = fold (\<lambda>i w. case latest i of None \<Rightarrow> w | Some c \<Rightarrow> restore_step env dry i c w) is w"
  shows "restored_ok steps w' \<and> (\<forall>i. (i \<in> set is \<longrightarrow> latest i = None) \<longrightarrow> w_states w' ! i = w_states w ! i)"
  using assms
proof (induction "is" arbitrary: w)
  case Nil
  then show ?case by simp
next
  case (Cons i "is")
  define w1 where "w1 = (case latest i of None \<Rightarrow> w | Some c \<Rightarrow> restore_step env dry i c w)"
  have S: "restored_ok steps w1 \<and> (\<forall>j. j \<noteq> i \<or> latest i = None \<longrightarrow> w_states w1 ! j = w_states w ! j)"
    using restore_step_ok [OF Cons.prems(1), of i env dry] Cons.prems(1,3)
    by (cases "latest i") (auto simp: w1_def)
  have "\<forall>k\<in>set is. k < length steps \<and> w_states w1 ! k = stepWaiting"
    using Cons.prems(2,3) S by auto
  from Cons.IH [OF _ _ this] S Cons.prems(2,4) show ?case by (auto simp: w1_def)
qed

text \<open>A walk restored from step records: consistent, nothing skipped, and a step with no record waits.\<close>

lemma restored_walk:
  assumes "validatePipelineGraph steps = None" and "w0 = load env dry children (newDAGWalk parent steps)"
  shows "restored_ok steps w0"
    and "\<forall>i<length steps. latest_attempts (length steps) children i = None \<longrightarrow> w_states w0 ! i = stepWaiting"
proof -
  let ?w = "newDAGWalk parent steps"
  have sel: "w_states ?w = replicate (length steps) stepWaiting" "w_steps ?w = steps"
    "w_refused ?w = replicate (length steps) False" "w_res ?w = zero_result"
    by (simp_all add: newDAGWalk_def Let_def)
  have ok: "restored_ok steps ?w"
    using new_walk [OF assms(1)] by (auto simp: restored_ok_def truthful_def sel zero_result_def)
  note R = restore_fold [OF ok _ _ assms(2) [unfolded load_def Let_def sel(2)]]
  show "restored_ok steps w0" using R sel by simp
  show "\<forall>i<length steps. latest_attempts (length steps) children i = None \<longrightarrow> w_states w0 ! i = stepWaiting"
    using R sel by simp
qed

end
