(* ===== verification/Dag_Props.thy ===== *)
theory Dag_Props
  imports Dag_Sim
begin

text \<open>
  What the graph walk guarantees, for walks that start fresh or from the records of a parked
  workflow (a fresh walk is one restored from no records).
\<close>

section \<open>Invariants along a walk\<close>

lemma steps_invariants:
  assumes "(graph_step steps)\<^sup>*\<^sup>* v v'" and "sized steps v" and "truthful steps v"
    and "skips_explained steps v" and "starts_justified steps S v"
  shows "truthful steps v' \<and> skips_explained steps v' \<and> starts_justified steps S v'"
  using assms
proof (induction rule: rtranclp_induct)
  case (step y z)
  obtain i where "view_move steps i y z" using graph_step_move [OF step.hyps(2)] by blast
  moreover have "sized steps y" using steps_sized [OF step.hyps(1) step.prems(1)] .
  ultimately show ?case
    using step move_truthful graph_step_skips graph_step_starts by blast
qed simp

text \<open>A walk from \<open>children\<close>'s records, somewhere along its turns or returned.\<close>

lemma walk_facts:
  assumes "validatePipelineGraph steps = None"
    and w0: "w0 = restore env children (newDAGWalk parent steps)"
    and "walks env w0 es w" and "w' = w \<or> walk_returns env w w'"
  shows "tallied steps w'" and "(graph_step steps)\<^sup>*\<^sup>* (view w0) (view w')"
    and "truthful steps (view w')" and "skips_explained steps (view w')"
    and "starts_justified steps {i. latest_attempts (length steps) children i \<noteq> None} (view w')"
proof -
  let ?S = "{i. latest_attempts (length steps) children i \<noteq> None}"
  note R = restored_walk [OF assms(1), of w0 env False children parent]
  have ok: "restored_ok steps w0" using R(1) w0 by (simp add: restore_def)
  then have T: "tallied steps w0" "sized steps (view w0)" "truthful steps (view w0)"
    by (simp_all add: restored_ok_def tallied_def walk_of_def)
  have K: "skips_explained steps (view w0)" using ok by (simp add: skips_explained_def restored_ok_def)
  have J: "starts_justified steps ?S (view w0)"
    using R(2) w0 by (auto simp: starts_justified_def restore_def)
  have S: "tallied steps w" "(graph_step steps)\<^sup>*\<^sup>* (view w0) (view w)"
    using graph_walk.simulates [OF walks_reach [OF assms(3)] T(1)] by simp_all
  show "tallied steps w'" using assms(4) S(1) returns_sim by blast
  show reach: "(graph_step steps)\<^sup>*\<^sup>* (view w0) (view w')"
    using assms(4) S returns_sim [OF S(1)] by (auto intro: rtranclp_trans)
  show "truthful steps (view w')" "skips_explained steps (view w')" "starts_justified steps ?S (view w')"
    using steps_invariants [OF reach T(2,3) K J] by simp_all
qed

section \<open>The end of a walk\<close>

lemma all_settled:
  assumes T: "tallied steps w" and w1: "w1 = fst (advance env False w)"
    and none: "w_running w1 = 0" "w_awaiting w1 = 0"
  shows "\<forall>i<length steps. \<not> unsettled (w_states w1 ! i)"
proof -
  have W: "walk_of steps w" using T by (simp add: tallied_def)
  have T1: "tallied steps w1" using tallied_by [OF T] advance_sim [OF W, of env] w1 by simp
  have none': "s \<notin> set (w_states w1)" if "s \<in> {stepRunning, stepAwaiting}" for s
    using T1 none that by (auto simp: tallied_def counted_def count_list_0_iff)
  have idle: "unsettled (w_states w1 ! i) \<Longrightarrow> w_states w1 ! i = stepWaiting" if "i < length steps" for i
    using none' that T1 nth_mem [of i "w_states w1"]
    by (cases "w_states w1 ! i") (auto simp: unsettled_def tallied_def walk_of_def sized_def)
  obtain ord where L: "names_legal steps" "deps_legal steps" "topo_order steps ord"
    using W validated_legal [of steps] by (auto simp: walk_of_def)
  have "i < length steps \<Longrightarrow> \<not> unsettled (w_states w1 ! i)" for i
  proof (induction "position ord i" arbitrary: i rule: less_induct)
    case less
    show ?case
    proof
      assume "unsettled (w_states w1 ! i)"
      then obtain j where j: "waits_for steps i j \<or> on_denial steps i j" "unsettled (w_states w1 ! j)"
        using advance_quiescent [OF W w1 less.prems] idle [OF less.prems] by blast
      then have e: "dep_edge steps j i"
        using less.prems by (auto simp: dep_edge_def waits_for_def on_denial_def dep_names_def)
      then have "position ord j < position ord i"
        using topo_ranked(1) [OF L] less.prems dep_indices_legal [OF L(1,2) less.prems]
        by (simp add: ranked_def)
      then show False using less.hyps j(2) e by (auto simp: dep_edge_def)
    qed
  qed
  then show ?thesis by blast
qed

lemma work_bound: "work v \<le> 2 * length (v_states v)"
proof -
  have "2 * count_list xs stepWaiting + count_list xs stepRunning + count_list xs stepAwaiting \<le> 2 * length xs" for xs
    by (induction xs) auto
  then show ?thesis by (simp add: work_def)
qed

lemma steps_work:
  assumes "(graph_step steps)\<^sup>*\<^sup>* v v'" and "sized steps v"
  shows "work v' \<le> work v"
  using assms
proof (induction rule: rtranclp_induct)
  case (step y z)
  obtain i where "view_move steps i y z" using graph_step_move [OF step.hyps(2)] by blast
  then show ?case using move_work [OF _ steps_sized [OF step.hyps(1) step.prems]] step by fastforce
qed simp

lemma steps_work_less:
  assumes "(graph_step steps)\<^sup>+\<^sup>+ v v'" and "sized steps v"
  shows "work v' < work v"
proof -
  obtain u where u: "graph_step steps v u" "(graph_step steps)\<^sup>*\<^sup>* u v'"
    using assms(1) by (blast dest: tranclpD)
  obtain i where "view_move steps i v u" using graph_step_move [OF u(1)] by blast
  then have "work u < work v" "sized steps u" using move_work move_sized assms(2) by blast+
  then show ?thesis using steps_work [OF u(2)] by fastforce
qed

lemma productive_bound:
  assumes "walks env w es w'" and "tallied steps w"
  shows "length (filter productive es) + work (view w') \<le> work (view w) \<and> tallied steps w'"
  using assms
proof (induction rule: walks.induct)
  case (walks_turn w es w' e w'')
  note S = turn_sim [OF _ walks_turn.hyps(2), of steps]
  have T: "tallied steps w'" "sized steps (view w')" using walks_turn by (simp_all add: tallied_def walk_of_def)
  show ?case
    using walks_turn S [OF T(1)] steps_work [of steps "view w'" "view w''"]
      steps_work_less [of steps "view w'" "view w''"] T(2)
    by (auto simp: productive_def)
qed simp

text \<open>A walk is never stuck: it returns, or something can happen next.\<close>

lemma walk_not_stuck:
  assumes T: "tallied steps w"
  shows "(\<exists>w'. walk_returns env w w') \<or> (\<exists>e w'. walk_turn env w e w')"
proof -
  let ?w1 = "fst (advance env False w)"
  have T1: "tallied steps ?w1"
    using tallied_by [OF T] advance_sim [of steps w env] T by (simp add: tallied_def)
  have "finite (dom (w_nodes ?w1))"
    using T1 finite_subset [of "dom (w_nodes ?w1)"] by (auto simp: tallied_def walk_of_def)
  then obtain ord where ord: "iterates ord (w_nodes ?w1)"
    using finite_distinct_list [of "dom (w_nodes ?w1)"] by (auto simp: iterates_def)
  obtain w2 c where P: "poll env ord (tick ?w1) = (w2, c)" by fastforce
  show ?thesis
  proof (cases "w_running ?w1 = 0")
    case False
    then have "stepRunning \<in> set (w_states ?w1)"
      using T1 by (auto simp: tallied_def counted_def count_list_0_iff)
    then obtain i where i: "i < length (w_states ?w1)" "w_states ?w1 ! i = stepRunning"
      by (auto simp: in_set_conv_nth)
    show ?thesis
      using walk_turn.received [OF refl False, of "\<lparr>sr_idx = i, sr_status = StatusFailed, sr_outputs = [], sr_reason = []\<rparr>"]
        i by auto
  next
    case idle: True
    show ?thesis
    proof (cases "w_awaiting ?w1 = 0 \<or> \<not> en_stopped env (w_clock ?w1)")
      case True
      then show ?thesis
        using walk_returns.finished [OF refl idle] walk_returns.waits_for_a_person [OF refl idle _ _ ord]
          walk_turn.decided_before_park [OF refl idle _ _ ord] P
        by (cases c; cases "w_awaiting ?w1 = 0"; force)
    next
      case False
      then show ?thesis
        using walk_returns.shut_down [OF refl idle] walk_turn.timer [OF refl _ _ ord P]
        by (auto simp: blocks_def)
    qed
  qed
qed

lemma edge_failed_deps:
  assumes "walk_of steps w" and "i < length steps" and "edge_failed steps (view w) i"
  shows "(\<exists>dep\<in>set (ps_DependsOn (steps ! i)). \<not> depAllows w (index_of (w_byName w) dep)) \<or>
    (\<exists>dep\<in>set (ps_IfDenied (steps ! i)). \<not> depDenied w (index_of (w_byName w) dep))"
proof -
  have W: "w_steps w = steps" "w_byName w = name_index 0 steps" using assms(1) by (simp_all add: walk_of_def)
  obtain ord where L: "names_legal steps" "deps_legal steps"
    using assms(1) validated_legal [of steps] by (auto simp: walk_of_def)
  have "\<not> (\<forall>j. waits_for steps i j \<longrightarrow> allows steps (view w) j) \<or>
      \<not> (\<forall>j. on_denial steps i j \<longrightarrow> denies (view w) j)"
    using assms(3) by (auto simp: edge_failed_def)
  then show ?thesis
    unfolding over_edges(1) [OF L assms(2), of "allows steps (view w)", symmetric]
      over_edges(2) [OF L assms(2), of "denies (view w)", symmetric]
    by (simp add: W depAllows_view depDenied_view)
qed

section \<open>The properties\<close>

text \<open>C21. On a graph the validation accepts, the walk implements the abstract machine: from wherever it
  starts, fresh or restored from step records, every state it reaches by its turns, whatever the
  store, the chain, the stop signal and the order of results do, is reached by guarded moves of the
  machine on the view of the walk, and so is the state it returns.\<close>

theorem graph_walk_refines_machine:
  assumes "validatePipelineGraph steps = None"
    and "walks env (restore env children (newDAGWalk parent steps)) es w"
  shows "(graph_step steps)\<^sup>*\<^sup>* (view (restore env children (newDAGWalk parent steps))) (view w) \<and>
    (\<forall>w'. walk_returns env w w' \<longrightarrow> (graph_step steps)\<^sup>*\<^sup>* (view w) (view w'))"
proof -
  note F = walk_facts [OF assms(1) refl assms(2), of w]
  show ?thesis using F(2) returns_sim [OF F(1)] by blast
qed

text \<open>C22. A step of the workflow is started, or its approval asked for, only when the graph lets it: at
  any point of the walk, a step that was started or has settled by running, and that no stored record
  had settled before the walk, has every step it waits for finished in a way that lets it run (a
  success, or a failure its author continues past, and for an approval step only an approval), every
  approval step whose denial it handles denied or timed out, and none of them refused.\<close>

theorem started_steps_were_let_through:
  assumes "validatePipelineGraph steps = None"
    and "walks env (restore env children (newDAGWalk parent steps)) es w"
    and "i < length steps" and "latest_attempts (length steps) children i = None"
    and "w_states w ! i \<in> {stepRunning, stepAwaiting, stepDone}"
  shows "(\<forall>dep\<in>set (ps_DependsOn (steps ! i)). depAllows w (index_of (w_byName w) dep)) \<and>
    (\<forall>dep\<in>set (ps_IfDenied (steps ! i)). depDenied w (index_of (w_byName w) dep))"
proof -
  note F = walk_facts [OF assms(1) refl assms(2), of w]
  obtain ord where L: "names_legal steps" "deps_legal steps" using assms(1) by (rule validated_legal)
  have W: "w_steps w = steps" "w_byName w = name_index 0 steps"
    using F(1) by (simp_all add: tallied_def walk_of_def)
  have "edges_met steps (view w) i" using F(5) assms(3-5) by (auto simp: starts_justified_def)
  then show ?thesis
    unfolding W depAllows_view depDenied_view over_edges [OF L assms(3)] by (simp add: edges_met_def)
qed

lemma succeeded_outcome:
  "fst (pipelineOutcome env t res) = StatusSucceeded \<Longrightarrow> \<not> failed res \<and> \<not> canceled res \<and> \<not> interrupted res"
  by (auto simp: pipelineOutcome_def stoppedStatus_def split: if_splits)

lemma clean_walk_step:
  assumes "truthful steps (view w)" "skips_explained steps (view w)" and "i < length steps"
    and "\<not> failed (w_res w)" "\<not> canceled (w_res w)" "\<not> interrupted (w_res w)"
  shows "w_states w ! i = stepDone \<Longrightarrow>
      w_results w ! i = StatusSucceeded \<or> IsApproval (steps ! i) \<and> denial_handled steps i \<and> \<not> w_refused w ! i"
    and "w_states w ! i = stepSkipped \<Longrightarrow> edge_failed steps (view w) i"
proof -
  show "w_results w ! i = StatusSucceeded \<or> IsApproval (steps ! i) \<and> denial_handled steps i \<and> \<not> w_refused w ! i"
    if "w_states w ! i = stepDone"
    using assms that by (auto simp: truthful_def fails_def)
  have "\<not> w_refused w ! j" if "j < length steps" for j
    using assms(1,4) that by (auto simp: truthful_def fails_def)
  then have "\<not> behind_refusal steps (view w) i" by (auto simp: behind_refusal_def)
  then show "edge_failed steps (view w) i" if "w_states w ! i = stepSkipped"
    using assms that by (auto simp: skips_explained_def)
qed

text \<open>C23. A walk that returns without parking leaves no step undecided, and a workflow recorded as
  succeeded did everything its graph asked: every step ran and succeeded, or is an approval step
  that ended otherwise and has a step on its deny path, its verdict not refused, or was skipped because
  a step it waits for did not let it through or an approval whose denial it handles was not denied.\<close>

theorem succeeded_workflow_is_complete:
  assumes "validatePipelineGraph steps = None"
    and "walks env (restore env children (newDAGWalk parent steps)) es w"
    and "walk_returns env w w'" and "\<not> parked (w_res w')"
    and "i < length steps"
  shows "w_states w' ! i \<in> {stepDone, stepSkipped} \<and>
    (fst (pipelineOutcome env t (w_res w')) = StatusSucceeded \<longrightarrow>
      w_states w' ! i = stepDone \<and> w_results w' ! i = StatusSucceeded \<or>
      w_states w' ! i = stepDone \<and> IsApproval (steps ! i) \<and> w_handled w' ! i \<and> \<not> w_refused w' ! i \<or>
      w_states w' ! i = stepSkipped \<and>
        ((\<exists>dep\<in>set (ps_DependsOn (steps ! i)). \<not> depAllows w' (index_of (w_byName w') dep)) \<or>
         (\<exists>dep\<in>set (ps_IfDenied (steps ! i)). \<not> depDenied w' (index_of (w_byName w') dep))))"
proof -
  note F = walk_facts [OF assms(1) refl assms(2), of w'] and F0 = walk_facts [OF assms(1) refl assms(2), of w]
  have T: "tallied steps w" using F0(1) by simp
  have w1: "w' = fst (advance env False w)" "w_running w' = 0" "w_awaiting w' = 0"
    using assms(3,4) by (auto simp: park_def elim: walk_returns.cases)
  have settled: "w_states w' ! i \<in> {stepDone, stepSkipped}"
    using all_settled [OF T w1] assms(5) by (auto simp: unsettled_def)
  have Wk: "walk_of steps w'" using F(1) assms(3) by (simp add: tallied_def)
  then have W: "w_handled w' = mark_handled steps (name_index 0 steps)" by (simp add: walk_of_def)
  have inv: "truthful steps (view w')" "skips_explained steps (view w')" using F(3,4) assms(3) by simp_all
  show ?thesis
  proof (intro conjI impI)
    show "w_states w' ! i \<in> {stepDone, stepSkipped}" by (fact settled)
  next
    assume "fst (pipelineOutcome env t (w_res w')) = StatusSucceeded"
    note clean = clean_walk_step [OF inv assms(5)] and f = succeeded_outcome [OF this]
    show "w_states w' ! i = stepDone \<and> w_results w' ! i = StatusSucceeded \<or>
      w_states w' ! i = stepDone \<and> IsApproval (steps ! i) \<and> w_handled w' ! i \<and> \<not> w_refused w' ! i \<or>
      w_states w' ! i = stepSkipped \<and>
        ((\<exists>dep\<in>set (ps_DependsOn (steps ! i)). \<not> depAllows w' (index_of (w_byName w') dep)) \<or>
         (\<exists>dep\<in>set (ps_IfDenied (steps ! i)). \<not> depDenied w' (index_of (w_byName w') dep)))"
    proof (cases "w_states w' ! i = stepDone")
      case True
      then show ?thesis using clean(1) f handled_iff [OF assms(1,5)] W by simp
    next
      case False
      then have "w_states w' ! i = stepSkipped" using settled by simp
      then show ?thesis using edge_failed_deps [OF Wk assms(5) clean(2)] f by simp
    qed
  qed
qed

text \<open>C24. The walk ends: a walk of \<open>n\<close> steps goes round at most \<open>2 n\<close> times with anything to show for it
  (a result taken, an approval step decided or withdrawn), all its other turns being looks at approval
  steps nobody has decided, and it is never stuck: it returns or something can happen next.\<close>

theorem walk_ends:
  assumes "validatePipelineGraph steps = None"
    and "walks env (restore env children (newDAGWalk parent steps)) es w"
  shows "length (filter productive es) \<le> 2 * length steps \<and>
    ((\<exists>w'. walk_returns env w w') \<or> (\<exists>e w'. walk_turn env w e w'))"
proof -
  let ?w0 = "restore env children (newDAGWalk parent steps)"
  have T0: "tallied steps ?w0"
    using restored_walk(1) [OF assms(1) refl, of env False children parent]
    by (simp add: restored_ok_def restore_def)
  note B = productive_bound [OF assms(2) T0]
  have "work (view ?w0) \<le> 2 * length steps"
    using work_bound [of "view ?w0"] T0 by (simp add: tallied_def walk_of_def sized_def)
  then show ?thesis using B walk_not_stuck [of steps w env] by simp
qed

section \<open>A walk of two steps\<close>

definition quiet_env :: walk_env where
  "quiet_env = \<lparr>en_binder = False, en_audits = False, en_quote = (\<lambda>s. s), en_stopped = (\<lambda>_. False),
     en_shutdown = (\<lambda>_. False), en_chainEntry = (\<lambda>_ _. Inr None), en_stepBinding = (\<lambda>_ _ _. None),
     en_result = (\<lambda>_ _. None), en_openStep = (\<lambda>_ _ _ _. Opened ''node''), en_Get = (\<lambda>_ _. None)\<rparr>"

definition two_steps :: "pipeline_step list" where
  "two_steps = [zero_step\<lparr>ps_Name := ''build''\<rparr>,
     zero_step\<lparr>ps_Name := ''deploy'', ps_DependsOn := [''build'']\<rparr>]"

definition succeeds :: "nat \<Rightarrow> stepResult" where
  "succeeds i = \<lparr>sr_idx = i, sr_status = StatusSucceeded, sr_outputs = [], sr_reason = []\<rparr>"

definition goes_on :: "nat \<Rightarrow> dag_walk \<Rightarrow> dag_walk" where
  "goes_on i w = (let w1 = fst (advance quiet_env False w)
     in finish (succeeds i) (w1\<lparr>w_running := w_running w1 - 1\<rparr>))"

definition walk0 :: dag_walk where
  "walk0 = restore quiet_env [] (newDAGWalk zero_run two_steps)"

lemma goes_on_turn:
  assumes "w_running (fst (advance quiet_env False w)) \<noteq> 0"
    and "i < length (w_states (fst (advance quiet_env False w)))"
    and "w_states (fst (advance quiet_env False w)) ! i = stepRunning"
  shows "walk_turn quiet_env w (Received i) (goes_on i w)"
  using walk_turn.received [OF refl assms(1), of "succeeds i"] assms(2,3)
  by (simp add: goes_on_def Let_def succeeds_def)

lemma two_steps_walk:
  "walks quiet_env (restore quiet_env [] (newDAGWalk zero_run two_steps)) [Received 0, Received 1]
     (goes_on 1 (goes_on 0 walk0))"
proof -
  have "walk_turn quiet_env walk0 (Received 0) (goes_on 0 walk0)"
    by (rule goes_on_turn; code_simp)
  moreover have "walk_turn quiet_env (goes_on 0 walk0) (Received 1) (goes_on 1 (goes_on 0 walk0))"
    by (rule goes_on_turn; code_simp)
  ultimately show ?thesis
    using walks.intros [of quiet_env walk0] by (metis append.left_neutral append_Cons walk0_def)
qed

lemma two_steps_legal: "validatePipelineGraph two_steps = None"
  by code_simp

lemma two_steps_returns:
  "walk_returns quiet_env (goes_on 1 (goes_on 0 walk0)) (fst (advance quiet_env False (goes_on 1 (goes_on 0 walk0))))"
  by (rule walk_returns.finished [OF refl]; code_simp)

theorem graph_walk_refines_machine_witness:
  "(graph_step two_steps)\<^sup>*\<^sup>* (view (restore quiet_env [] (newDAGWalk zero_run two_steps)))
     (view (goes_on 1 (goes_on 0 walk0)))"
  using graph_walk_refines_machine [OF two_steps_legal two_steps_walk] by simp

theorem started_steps_were_let_through_witness:
  "depAllows (goes_on 1 (goes_on 0 walk0)) (index_of (w_byName (goes_on 1 (goes_on 0 walk0))) ''build'')"
proof -
  have "w_states (goes_on 1 (goes_on 0 walk0)) ! 1 \<in> {stepRunning, stepAwaiting, stepDone}" by code_simp
  then show ?thesis
    using started_steps_were_let_through [OF two_steps_legal two_steps_walk, of 1]
    by (simp add: two_steps_def latest_attempts_def)
qed

theorem succeeded_workflow_is_complete_witness:
  "w_states (fst (advance quiet_env False (goes_on 1 (goes_on 0 walk0)))) ! 1 \<in> {stepDone, stepSkipped}"
proof -
  have "\<not> parked (w_res (fst (advance quiet_env False (goes_on 1 (goes_on 0 walk0)))))" by code_simp
  then show ?thesis
    using succeeded_workflow_is_complete [OF two_steps_legal two_steps_walk two_steps_returns, of 1]
    by (simp add: two_steps_def)
qed

theorem walk_ends_witness:
  "length (filter productive [Received 0, Received 1]) \<le> 2 * length two_steps"
  using walk_ends [OF two_steps_legal two_steps_walk] by simp

end
