(* ===== verification/Step_Run.thy ===== *)
theory Step_Run
  imports Policy_Gate Dag_Walk
begin

text \<open>
  How a step of a workflow executes (\<open>internal/dispatch/dispatch_split.go\<close>,
  \<open>internal/dispatch/approvals_step.go\<close>): the run a step becomes and what it takes from the
  workflow, the attempts a step gets, and the ordered execution of a sequence with no edges. The
  store, the chain and the executors a step waits on are the record \<open>attempt_env\<close>, indexed by the
  attempt.
\<close>

section \<open>The run of a step\<close>

definition StepDryRunScans :: "run \<Rightarrow> string \<Rightarrow> dry_run_scan list" where
  "StepDryRunScans r step =
     map (\<lambda>s. s\<lparr>ds_Step := []\<rparr>) (filter (\<lambda>s. ds_Step s = step) (DryRunScans r))"

fun step_notes :: "string \<Rightarrow> string list \<Rightarrow> string list" where
  "step_notes prefix [] = []"
| "step_notes prefix (n # ns) =
     (case CutPrefix n prefix of Some rest \<Rightarrow> rest # step_notes prefix ns | None \<Rightarrow> step_notes prefix ns)"

text \<open>\<open>new_id\<close> is the id drawn for the run, \<open>now\<close> the clock, \<open>quote\<close> the quoting of \<open>%q\<close>.\<close>

definition stepRun :: "(string \<Rightarrow> string) \<Rightarrow> string \<Rightarrow> gotime \<Rightarrow> run \<Rightarrow> pipeline_step \<Rightarrow> nat \<Rightarrow> int \<Rightarrow> vars \<Rightarrow> run" where
  "stepRun quote new_id now parent step idx att vars =
     zero_run\<lparr>ID := new_id, Playbook := ps_Playbook step,
       Inventory := (if ps_Inventory step = [] then Inventory parent else ps_Inventory step),
       Tool := ps_Tool step, Command := ps_Command step, Status := StatusPending, CreatedAt := now,
       ParentID := Some (ID parent), StepIndex := Some (int idx), StepName := ps_Name step,
       Attempt := att, ExtraVars := vars, AuditReceipt := AuditReceipt parent,
       CredentialIDs := CredentialIDs parent, SealedNames := SealedNames parent,
       SealedVars := SealedVars parent, SealedDigests := SealedDigests parent,
       ProjectID := ProjectID parent, InventoryID := InventoryID parent,
       InventoryResolution := InventoryResolution parent, InventorySnapshot := InventorySnapshot parent,
       InventorySealed := InventorySealed parent, Queue := Queue parent, Timeout := Timeout parent,
       Image := Image parent, PullCredentialID := PullCredentialID parent, Labels := Labels parent,
       Actor := Actor parent, ActorType := ActorType parent, ActorUserID := ActorUserID parent,
       Account := Account parent, Tags := Tags parent, SkipTags := SkipTags parent,
       Verbosity := Verbosity parent, Forks := Forks parent, DiffMode := DiffMode parent,
       UseFactCache := UseFactCache parent, FactCacheTimeout := FactCacheTimeout parent,
       PolicySet := PolicySet parent, PinnedCommit := PinnedCommit parent,
       TemplateID := TemplateID parent, GitRef := GitRef parent, OrgID := OrgID parent,
       Limit := Limit parent, DryRun := (ps_DryRun step \<or> DryRun parent),
       DryRunScans := StepDryRunScans parent (ps_Name step),
       PolicyNotes := step_notes (StepPrefix quote (ps_Name step)) (PolicyNotes parent)\<rparr>"

definition approvalStepRun :: "(string \<Rightarrow> string) \<Rightarrow> string \<Rightarrow> run \<Rightarrow> pipeline_step \<Rightarrow> nat \<Rightarrow> gotime \<Rightarrow> run" where
  "approvalStepRun quote new_id parent step idx at =
     (stepRun quote new_id at parent step idx 0 [])
       \<lparr>Kind := KindApproval, Status := StatusPendingApproval, CreatedAt := at,
        Timeout := ps_ApprovalTimeout step, DryRun := False,
        HeldByPolicy := ''approval step '' @ quote (ps_Name step),
        RequireDistinctApprover := RequireDistinctApprover parent,
        RequireReason := RequireReason parent\<rparr>"

section \<open>Attempts\<close>

text \<open>What each attempt of a step meets: whether the workflow was stopped before it, what its release
  on the chain gave (a record to run as and whether another launcher stored it, or why not), whether
  its record was saved, the status it reached, and what its record read as afterwards.\<close>

record attempt_env =
  at_binder :: bool
  at_quote :: "string \<Rightarrow> string"
  at_stopped :: "int \<Rightarrow> bool"
  at_newID :: "int \<Rightarrow> string"
  at_now :: "int \<Rightarrow> gotime"
  at_release :: "int \<Rightarrow> run \<Rightarrow> root list \<Rightarrow> run option \<times> bool \<times> string"
  at_saved :: "int \<Rightarrow> run \<Rightarrow> bool"
  at_wait :: "int \<Rightarrow> string \<Rightarrow> status"
  at_get :: "int \<Rightarrow> string \<Rightarrow> string + run"
  at_result :: "int \<Rightarrow> run \<Rightarrow> check_error option"

definition startAttempt ::
  "attempt_env \<Rightarrow> run \<Rightarrow> pipeline_step \<Rightarrow> nat \<Rightarrow> int \<Rightarrow> vars \<Rightarrow> root list \<Rightarrow> run option \<times> status \<times> string" where
  "startAttempt env parent step idx att vars roots =
     (let child = stepRun (at_quote env) (at_newID env att) (at_now env att) parent step idx att vars in
      case (if at_binder env then at_release env att child roots else (Some child, False, [])) of
        (released, adopted, why) \<Rightarrow>
          if why \<noteq> [] then (None, StatusFailed, why)
          else case released of
            None \<Rightarrow> (None, StatusCanceled, [])
          | Some c \<Rightarrow>
              if adopted then (Some c, StatusOther [], [])
              else if \<not> at_saved env att c then (None, StatusFailed, [])
              else (Some c, StatusOther [], []))"

definition stepOutputs :: "attempt_env \<Rightarrow> int \<Rightarrow> run \<Rightarrow> vars \<times> string" where
  "stepOutputs env att child =
     (case at_get env att (ID child) of
        Inl e \<Rightarrow>
          if \<not> at_binder env then ([], [])
          else ([], RefusalText (unverified (''run '' @ ID child) ''read its record'' e))
      | Inr fresh \<Rightarrow>
          if at_binder env \<and> Status fresh \<noteq> StatusSucceeded
          then ([], error_text (drift (''run '' @ ID fresh)
                 (''its status changed after it finished, from '' @ status_text StatusSucceeded @ '' to '' @
                  status_text (Status fresh))))
          else case (if at_binder env then at_result env att fresh else None) of
            Some e \<Rightarrow> if RefusalText e \<noteq> [] then ([], RefusalText e) else (Outputs fresh, [])
          | None \<Rightarrow> (Outputs fresh, []))"

text \<open>The attempts \<open>att\<close>, \<open>att + 1\<close>, \dots of a step, \<open>left\<close> of them, with the status of the last.\<close>

fun attempts :: "attempt_env \<Rightarrow> run \<Rightarrow> pipeline_step \<Rightarrow> nat \<Rightarrow> vars \<Rightarrow> root list \<Rightarrow> nat \<Rightarrow> int \<Rightarrow> status \<Rightarrow>
    status \<times> vars \<times> string" where
  "attempts env parent step idx vars roots 0 att status = (status, [], [])"
| "attempts env parent step idx vars roots (Suc left) att status =
     (if at_stopped env att then (StatusCanceled, [], [])
      else case startAttempt env parent step idx att vars roots of
        (None, ended, why) \<Rightarrow> (ended, [], why)
      | (Some child, _, _) \<Rightarrow>
          let st = at_wait env att (ID child) in
          if st = StatusSucceeded then (case stepOutputs env att child of (out, why) \<Rightarrow> (st, out, why))
          else if st = StatusCanceled then (st, [], [])
          else attempts env parent step idx vars roots left (att + 1) st)"

definition runStepAttempts :: "attempt_env \<Rightarrow> run \<Rightarrow> pipeline_step \<Rightarrow> nat \<Rightarrow> vars \<Rightarrow> root list \<Rightarrow>
    status \<times> vars \<times> string" where
  "runStepAttempts env parent step idx vars roots =
     attempts env parent step idx vars roots (nat (ps_Retries step + 1)) 0 StatusFailed"

section \<open>A sequence\<close>

definition cloneVars :: "vars \<Rightarrow> vars" where
  "cloneVars vars = (if vars = [] then [] else vars)"

text \<open>The steps from index \<open>i\<close> on, with the variables gathered so far. Each step meets its own
  environment, and \<open>stopped\<close> says whether the workflow was stopped before it.\<close>

fun run_linear :: "(nat \<Rightarrow> bool) \<Rightarrow> (nat \<Rightarrow> attempt_env) \<Rightarrow> run \<Rightarrow> root list \<Rightarrow> nat \<Rightarrow> pipeline_step list \<Rightarrow>
    vars \<Rightarrow> stepsResult \<Rightarrow> stepsResult" where
  "run_linear stopped envs parent roots i [] vars res = res"
| "run_linear stopped envs parent roots i (step # steps) vars res =
     (if stopped i then res\<lparr>canceled := True\<rparr>
      else case runStepAttempts (envs i) parent step i (cloneVars vars) roots of
        (status, outputs, why) \<Rightarrow>
          if why \<noteq> [] then res\<lparr>failed := True, reason := why\<rparr>
          else if status = StatusInterrupted then res\<lparr>interrupted := True\<rparr>
          else if status = StatusCanceled then res\<lparr>canceled := True\<rparr>
          else if status \<noteq> StatusSucceeded then
            (if \<not> ps_ContinueOnFailure step then res\<lparr>failed := True\<rparr>
             else run_linear stopped envs parent roots (Suc i) steps vars (res\<lparr>failed := True\<rparr>))
          else run_linear stopped envs parent roots (Suc i) steps (AList.merge vars outputs) res)"

definition runStepsLinear :: "walk_env \<Rightarrow> nat \<Rightarrow> (nat \<Rightarrow> bool) \<Rightarrow> (nat \<Rightarrow> attempt_env) \<Rightarrow> run \<Rightarrow>
    pipeline_step list \<Rightarrow> stepsResult" where
  "runStepsLinear env t stopped envs parent steps =
     (case fst (workflowRoots env parent t) of
        Inl e \<Rightarrow> zero_result\<lparr>failed := True, reason := RefusalText e\<rparr>
      | Inr roots \<Rightarrow> run_linear stopped envs parent roots 0 steps (baseStepVars parent) zero_result)"

section \<open>What a step keeps of its workflow\<close>

text \<open>A step executes in its workflow's scope: same tenant, host limit, tags, pinned commit, queue,
  credentials and requester; it is dry whenever the workflow is; and it carries exactly the notes and
  scans the gate recorded under its own name.\<close>

lemma step_notes_own:
  "step_notes prefix (map (\<lambda>n. prefix @ n) ns) = ns"
  by (induction ns) (auto simp: CutPrefix_def)

lemma step_notes_others:
  "(\<forall>n\<in>set ns. take (length prefix) n \<noteq> prefix) \<Longrightarrow> step_notes prefix ns = []"
  by (induction ns) (auto simp: CutPrefix_def)

lemma step_notes_append: "step_notes prefix (a @ b) = step_notes prefix a @ step_notes prefix b"
  by (induction a) (auto split: option.splits)

lemma stepRun_dry: "DryRun parent \<Longrightarrow> DryRun (stepRun quote nid now parent step idx att vars)"
  by (simp add: stepRun_def)

text \<open>The gate and the executor see the same run: what a rule decided on at submission is what an
  attempt executes, up to its id, its clock, the number of the attempt and the values published by
  the steps before it.\<close>

lemma gated_as_executed:
  "stepRun quote nid now parent step idx att vars =
     (stepRun quote gid submitted parent step idx 0 (baseStepVars parent))\<lparr>ID := nid, CreatedAt := now, Attempt := att, ExtraVars := vars\<rparr>"
  by (simp add: stepRun_def zero_run_def)

text \<open>An approval step's record is one no executor can claim: it is born held, under a kind of its own.\<close>

lemma approvalStepRun_held:
  "Status (approvalStepRun quote nid parent step idx at) = StatusPendingApproval \<and>
   Kind (approvalStepRun quote nid parent step idx at) = KindApproval \<and>
   ClaimedBy (approvalStepRun quote nid parent step idx at) = [] \<and>
   DecisionClaim (approvalStepRun quote nid parent step idx at) = []"
  by (simp add: approvalStepRun_def stepRun_def zero_run_def)

section \<open>How attempts and sequences end\<close>

text \<open>When the executors a step waits on report final statuses, the step ends in one.\<close>

lemma startAttempt_None:
  "startAttempt env parent step idx att vars roots = (None, ended, why) \<Longrightarrow> Terminal ended"
  by (auto simp: startAttempt_def Let_def split: prod.splits if_splits option.splits)

lemma attempts_terminal:
  assumes "\<And>att i. Terminal (at_wait env att i)" and "Terminal status"
  shows "Terminal (fst (attempts env parent step idx vars roots left att status))"
  using assms
proof (induction left arbitrary: att status)
  case 0
  then show ?case by simp
next
  case (Suc left)
  obtain c ended why where S: "startAttempt env parent step idx att vars roots = (c, ended, why)"
    by (metis prod_cases3)
  have W: "Terminal (at_wait env att (ID r))" for r using Suc.prems(1) by simp
  show ?case
    using startAttempt_None [of env parent step idx att vars roots ended why] S
      Suc.IH [OF Suc.prems(1) W] W
    by (cases c) (auto simp: Let_def split: prod.splits)
qed

text \<open>Outputs flow only from a step that succeeded.\<close>

lemma attempts_outputs:
  "attempts env parent step idx vars roots left att status = (st, out, why) \<Longrightarrow> out \<noteq> [] \<Longrightarrow>
     st = StatusSucceeded \<and> why = []"
proof (induction left arbitrary: att status)
  case 0
  then show ?case by simp
next
  case (Suc left)
  obtain c ended w where S: "startAttempt env parent step idx att vars roots = (c, ended, w)"
    by (metis prod_cases3)
  have O: "stepOutputs env att child = (out, y) \<Longrightarrow> out \<noteq> [] \<Longrightarrow> y = []" for child y
    by (auto simp: stepOutputs_def split: sum.splits if_splits option.splits)
  show ?case
    using Suc O S by (cases c) (auto simp: Let_def split: if_splits prod.splits)
qed

end
