(* ===== verification/GoStrings.thy ===== *)
theory GoStrings
  imports GoText GoFmt
begin

text \<open>
  The parts of Go's \<open>strings\<close> package the graders and the schedules use: white space, trimming,
  splitting into fields, and tests on prefixes and members, over the runes of a byte string.
\<close>

definition HasPrefix :: "string \<Rightarrow> string \<Rightarrow> bool" where
  "HasPrefix s p \<longleftrightarrow> take (length p) s = p"

definition ContainsAny :: "string \<Rightarrow> string \<Rightarrow> bool" where
  "ContainsAny s chars \<longleftrightarrow> (\<exists>c\<in>set s. c \<in> set chars)"

definition TrimPrefix :: "string \<Rightarrow> string \<Rightarrow> string" where
  "TrimPrefix s p = (if HasPrefix s p then drop (length p) s else s)"

definition HasSuffix :: "string \<Rightarrow> string \<Rightarrow> bool" where
  "HasSuffix s p \<longleftrightarrow> HasPrefix (rev s) (rev p)"

fun split_on :: "char \<Rightarrow> string \<Rightarrow> string \<Rightarrow> string list" where
  "split_on c [] cur = [cur]"
| "split_on c (x # xs) cur = (if x = c then cur # split_on c xs [] else split_on c xs (cur @ [x]))"

definition Split :: "string \<Rightarrow> char \<Rightarrow> string list" where
  "Split s c = split_on c s []"

definition TrimSuffix :: "string \<Rightarrow> string \<Rightarrow> string" where
  "TrimSuffix s p = (if HasSuffix s p then take (length s - length p) s else s)"

text \<open>\<open>unicode.IsSpace\<close> on the encoding of a rune.\<close>

definition IsSpace :: "string \<Rightarrow> bool" where
  "IsSpace c \<longleftrightarrow> c \<in> set [[CHR 0x09], [CHR 0x0A], [CHR 0x0B], [CHR 0x0C], [CHR 0x0D], [CHR 0x20],
     [CHR 0xC2, CHR 0x85], [CHR 0xC2, CHR 0xA0], [CHR 0xE1, CHR 0x9A, CHR 0x80],
     [CHR 0xE2, CHR 0x80, CHR 0xA8], [CHR 0xE2, CHR 0x80, CHR 0xA9], [CHR 0xE2, CHR 0x80, CHR 0xAF],
     [CHR 0xE2, CHR 0x81, CHR 0x9F], [CHR 0xE3, CHR 0x80, CHR 0x80],
     [CHR 0xE2, CHR 0x80, CHR 0x80], [CHR 0xE2, CHR 0x80, CHR 0x81], [CHR 0xE2, CHR 0x80, CHR 0x82], [CHR 0xE2, CHR 0x80, CHR 0x83], [CHR 0xE2, CHR 0x80, CHR 0x84], [CHR 0xE2, CHR 0x80, CHR 0x85],
     [CHR 0xE2, CHR 0x80, CHR 0x86], [CHR 0xE2, CHR 0x80, CHR 0x87], [CHR 0xE2, CHR 0x80, CHR 0x88], [CHR 0xE2, CHR 0x80, CHR 0x89], [CHR 0xE2, CHR 0x80, CHR 0x8A]]"

definition TrimSpace :: "string \<Rightarrow> string" where
  "TrimSpace s = concat (rev (dropWhile IsSpace (rev (dropWhile IsSpace (runes s)))))"

text \<open>\<open>FieldsFunc\<close>: the maximal pieces of \<open>s\<close> whose runes do not satisfy \<open>sep\<close>.\<close>

fun fields_of :: "(string \<Rightarrow> bool) \<Rightarrow> string list \<Rightarrow> string \<Rightarrow> string list" where
  "fields_of sep [] cur = (if cur = [] then [] else [cur])"
| "fields_of sep (c # cs) cur =
     (if sep c then (if cur = [] then fields_of sep cs [] else cur # fields_of sep cs [])
      else fields_of sep cs (cur @ c))"

definition FieldsFunc :: "string \<Rightarrow> (string \<Rightarrow> bool) \<Rightarrow> string list" where
  "FieldsFunc s sep = fields_of sep (runes s) []"

definition Fields :: "string \<Rightarrow> string list" where
  "Fields s = FieldsFunc s IsSpace"

text \<open>Everything after the last \<open>c\<close> of \<open>s\<close>, all of \<open>s\<close> when it holds none.\<close>

definition after_last :: "char \<Rightarrow> string \<Rightarrow> string" where
  "after_last c s = rev (takeWhile (\<lambda>x. x \<noteq> c) (rev s))"

lemma fields_of_nonempty: "[] \<notin> set (fields_of sep cs cur)"
  by (induction cs arbitrary: cur) auto

lemma FieldsFunc_nonempty: "f \<in> set (FieldsFunc s sep) \<Longrightarrow> f \<noteq> []"
  using fields_of_nonempty by (auto simp: FieldsFunc_def)

lemma runes_Nil [simp]: "runes [] = []"
  by (simp add: runes.simps)

lemma TrimSpace_Nil [simp]: "TrimSpace [] = []"
  by (simp add: TrimSpace_def)

section \<open>Trimming\<close>

text \<open>A run of whole pieces of a string decodes to those pieces, so trimming twice is trimming once.\<close>

lemma rune_width_prefix: "rune_width u \<noteq> 0 \<Longrightarrow> rune_width (u @ t) = rune_width u"
  using rune_width_append [of u "drop (rune_width u) u @ t"] by (metis append.assoc append_take_drop_id)

lemma runes_step: "s \<noteq> [] \<Longrightarrow> runes s = take (max 1 (rune_width s)) s # runes (drop (max 1 (rune_width s)) s)"
  by (subst runes.simps) (simp add: Let_def)

lemma runes_concat_drop: "runes (concat (drop k (runes s))) = drop k (runes s)"
proof (induction k arbitrary: s)
  case (Suc k)
  then show ?case by (cases "s = []") (simp_all add: runes_step)
qed simp

lemma runes_concat_take: "runes (concat (take k (runes s))) = take k (runes s)"
proof (induction k arbitrary: s)
  case (Suc k)
  show ?case
  proof (cases "s = []")
    case False
    let ?w = "max 1 (rune_width s)"
    define u where "u = take ?w s @ concat (take k (runes (drop ?w s)))"
    have u: "concat (take (Suc k) (runes s)) = u" using False by (simp add: runes_step u_def)
    have "drop ?w s = concat (take k (runes (drop ?w s))) @ concat (drop k (runes (drop ?w s)))"
      by (metis append_take_drop_id concat_append concat_runes)
    then obtain t where "s = u @ t" unfolding u_def by (metis append.assoc append_take_drop_id)
    then have "rune_width s = 0 \<Longrightarrow> rune_width u = 0" using rune_width_prefix [of u t] by fastforce
    moreover have "rune_width s \<noteq> 0 \<Longrightarrow> rune_width u = rune_width s"
      using rune_width_append [of s] by (auto simp: u_def max_def)
    ultimately have w: "max 1 (rune_width u) = ?w" by (cases "rune_width s = 0") auto
    have len: "length (take ?w s) = ?w" using False rune_width_le [of s] by (cases s) auto
    have tk: "take ?w u = take ?w s" "drop ?w u = concat (take k (runes (drop ?w s)))"
      using len by (simp_all add: u_def)
    have "u \<noteq> []" using False len by (auto simp: u_def)
    then show ?thesis
      unfolding u using runes_step [of u, unfolded w tk] runes_step [OF False] Suc.IH [of "drop ?w s"] by simp
  qed simp
qed simp

lemma dropWhile_stuck: "xs = [] \<or> \<not> P (hd xs) \<Longrightarrow> dropWhile P xs = xs"
  by (cases xs) auto

lemma TrimSpace_idem [simp]: "TrimSpace (TrimSpace s) = TrimSpace s"
proof -
  let ?r = "dropWhile IsSpace (runes s)"
  let ?m = "rev (dropWhile IsSpace (rev ?r))"
  have r: "?r = drop (length (takeWhile IsSpace (runes s))) (runes s)" by (simp add: dropWhile_eq_drop)
  have m: "?m = take (length ?r - length (takeWhile IsSpace (rev ?r))) ?r"
    using rev_drop [of "length (takeWhile IsSpace (rev ?r))" "rev ?r"]
    by (simp only: dropWhile_eq_drop [of IsSpace "rev ?r"] rev_rev_ident length_rev)
  have dec: "runes (concat ?m) = ?m"
  proof -
    have "runes (concat ?r) = ?r" unfolding r by (rule runes_concat_drop)
    then show ?thesis unfolding m using runes_concat_take [of _ "concat ?r"] by simp
  qed
  have "?m = [] \<or> \<not> IsSpace (hd ?m)"
  proof (cases "?m = []")
    case False
    then have "hd ?m = hd ?r" using m by (metis hd_take length_greater_0_conv take_eq_Nil2 diff_is_0_eq not_gr_zero)
    moreover have "?r \<noteq> []" using False m by (metis take_Nil)
    ultimately show ?thesis using hd_dropWhile by metis
  qed simp
  then have d1: "dropWhile IsSpace ?m = ?m" by (rule dropWhile_stuck)
  have "dropWhile IsSpace (rev ?m) = rev ?m" by (simp only: rev_rev_ident dropWhile_idem)
  then have "rev (dropWhile IsSpace (rev (dropWhile IsSpace ?m))) = ?m" by (simp only: d1 rev_rev_ident)
  then show ?thesis unfolding TrimSpace_def dec by simp
qed

section \<open>Clipped text\<close>

definition rune_start :: "char \<Rightarrow> bool" where
  "rune_start c \<longleftrightarrow> \<not> byte_in 0x80 0xBF c"

fun back_to_start :: "string \<Rightarrow> nat \<Rightarrow> nat" where
  "back_to_start s 0 = 0"
| "back_to_start s (Suc k) = (if rune_start (s ! Suc k) then Suc k else back_to_start s k)"

definition Clip :: "string \<Rightarrow> int \<Rightarrow> string" where
  "Clip s limit =
     (let n = nat limit in
      if length s \<le> n then s else take (back_to_start s n) s @ ''...'')"

end
