(* ===== verification/Grading.thy ===== *)
theory Grading
  imports Policy_Gate Store_Types GoStrings
begin

text \<open>
  The graders of a run (\<open>internal/run/risk.go\<close>, \<open>reversibility.go\<close>, \<open>dryrunscan.go\<close>, \<open>checkmode.go\<close>,
  \<open>narrow.go\<close>): how dangerous a run is and whether it can be taken back, computed from its tool,
  its command, its variables, its plan and what was read of its playbook. \<open>lower\<close> is the lowering
  of a text and \<open>quote\<close> the quoting of \<open>%q\<close>. The variables of a run are listed in the order an
  iteration over the map visits them.
\<close>

section \<open>Dry-run scans\<close>

definition DryRunChangeFree :: string where "DryRunChangeFree = ''change_free''"
definition DryRunNotChangeFree :: string where "DryRunNotChangeFree = ''not_change_free''"
definition DryRunIncomplete :: string where "DryRunIncomplete = ''incomplete''"

definition Classified :: "dry_run_scan \<Rightarrow> dry_run_scan" where
  "Classified s =
     s\<lparr>ds_Classification :=
        (if ds_Findings s \<noteq> [] then DryRunNotChangeFree
         else if ds_Unread s \<noteq> [] then DryRunIncomplete else DryRunChangeFree)\<rparr>"

record dry_run_words =
  dw_lead :: string
  dw_unread :: string

definition wordsFor :: "string \<Rightarrow> dry_run_words" where
  "wordsFor tool =
     (let t = NormalizeTool tool in
      if t = ToolAnsible then
        \<lparr>dw_lead = ''dry run that still runs work for real under check mode'',
         dw_unread = ''so it may set check_mode to false''\<rparr>
      else if t = ToolTerraform \<or> t = ToolOpenTofu then
        \<lparr>dw_lead = ''plan that may run a program while it plans'',
         dw_unread = ''so it may run a program during plan''\<rparr>
      else \<lparr>dw_lead = ''dry run that may run work for real'', dw_unread = ''so it may run work for real''\<rparr>)"

definition Entries :: "dry_run_scan \<Rightarrow> string list" where
  "Entries s = ds_Findings s @
     map (\<lambda>u. ''could not read '' @ u @ '', '' @ dw_unread (wordsFor (ds_Tool s))) (ds_Unread s)"

definition ScanEntries :: "(string \<Rightarrow> string) \<Rightarrow> dry_run_scan list \<Rightarrow> string list" where
  "ScanEntries quote scans =
     concat (map (\<lambda>s. map (\<lambda>e. (if ds_Step s \<noteq> [] then StepPrefix quote (ds_Step s) else []) @ e) (Entries s)) scans)"

definition DryRunFindings :: "(string \<Rightarrow> string) \<Rightarrow> run \<Rightarrow> string list" where
  "DryRunFindings quote r = ScanEntries quote (DryRunScans r)"

fun first_lead :: "dry_run_scan list \<Rightarrow> string" where
  "first_lead [] = dw_lead (wordsFor [])"
| "first_lead (s # ss) = (if \<not> ScanChangeFree s then dw_lead (wordsFor (ds_Tool s)) else first_lead ss)"

definition NotChangeFreeSummary :: "(string \<Rightarrow> string) \<Rightarrow> run \<Rightarrow> string" where
  "NotChangeFreeSummary quote r =
     (case DryRunFindings quote r of
        [] \<Rightarrow> []
      | e # es \<Rightarrow>
          let lead = first_lead (DryRunScans r); n = length (e # es) in
          if n > 1 then lead @ '': '' @ e @ '', and '' @ FormatInt (int n - 1) @ '' more''
          else lead @ '': '' @ e)"

definition ScansForStep :: "string \<Rightarrow> dry_run_scan list \<Rightarrow> dry_run_scan list" where
  "ScansForStep step scans = map (\<lambda>s. s\<lparr>ds_Step := step\<rparr>) scans"

record playbook_signals =
  pb_Permanent :: "string list"
  pb_Forced :: "string list"
  pb_Unread :: "string list"
  pb_Files :: int
  pb_Inputs :: "string list"
  pb_Source :: string

section \<open>The text a run executes\<close>

definition maxVarScanDepth :: nat where "maxVarScanDepth = 32"

fun writeVarText :: "nat \<Rightarrow> goany \<Rightarrow> string" where
  "writeVarText 0 v = []"
| "writeVarText (Suc d) v =
     (case v of
        AnyStr s \<Rightarrow> '' '' @ s
      | AnyStrs l \<Rightarrow> concat (map (\<lambda>x. writeVarText d (AnyStr x)) l)
      | AnyList l \<Rightarrow> concat (map (writeVarText d) l)
      | AnyStrMap m \<Rightarrow> concat (map (\<lambda>kv. writeVarText d (AnyStr (snd kv))) m)
      | AnyMap m \<Rightarrow> concat (map (\<lambda>kv. writeVarText d (snd kv)) m)
      | _ \<Rightarrow> [])"

definition run_text :: "(string \<Rightarrow> string) \<Rightarrow> run \<Rightarrow> string" where
  "run_text lower r =
     lower (Command r @ '' '' @ Playbook r @ writeVarText maxVarScanDepth (AnyMap (ExtraVars r)))"

section \<open>Permanent commands\<close>

definition permanentMarkers :: "string list" where
  "permanentMarkers =
     [''terraform destroy'', ''tofu destroy'', ''mkfs'', ''dd if='', ''wipefs'', ''shred '', ''blkdiscard'',
      ''sgdisk'', ''lvremove'', ''vgremove'', ''pvremove'', ''remove-item'', ''format-volume'',
      ''drop table'', ''drop database'', ''drop schema'', ''drop keyspace'', ''truncate '', ''flushall'',
      ''aws s3 rb'', ''s3 rm '', ''delete-bucket'', ''delete-db-instance'', ''delete-db-cluster'',
      ''terminate-instances'', ''delete-table'', ''instances delete'', ''group delete'',
      ''kubectl delete namespace'', ''kubectl delete ns '', ''kubectl delete pvc'', ''kubectl delete pv '',
      ''helm uninstall'', ''helm delete'']"

definition baseName :: "string \<Rightarrow> string" where
  "baseName token = after_last (CHR ''/'') token"

definition hasCommand :: "string list \<Rightarrow> string \<Rightarrow> bool" where
  "hasCommand toks name \<longleftrightarrow> (\<exists>f\<in>set toks. baseName f = name)"

definition hasToken :: "string list \<Rightarrow> string \<Rightarrow> bool" where
  "hasToken toks want \<longleftrightarrow> want \<in> set toks"

definition hasTokenPrefix :: "string list \<Rightarrow> string \<Rightarrow> bool" where
  "hasTokenPrefix toks want \<longleftrightarrow> (\<exists>f\<in>set toks. HasPrefix f want)"

text \<open>The arguments after an \<open>rm\<close>, up to \<open>--\<close>.\<close>

fun recursive_flag :: "string list \<Rightarrow> bool" where
  "recursive_flag [] = False"
| "recursive_flag (arg # args) =
     (if arg = ''--'' then False
      else if arg = ''--recursive'' then True
      else if HasPrefix arg ''--'' then recursive_flag args
      else if HasPrefix arg ''-'' \<and> length arg > 1 \<and> ContainsAny arg ''rR'' then True
      else recursive_flag args)"

fun removesRecursively :: "string list \<Rightarrow> bool" where
  "removesRecursively [] = False"
| "removesRecursively (field # rest) =
     (if baseName field \<noteq> ''rm'' then removesRecursively rest
      else if recursive_flag rest then True else removesRecursively rest)"

definition segmentFindings :: "string list \<Rightarrow> string list" where
  "segmentFindings toks =
     (if removesRecursively toks
      then [''command removes recursively, which cannot be undone from here''] else []) @
     (if hasCommand toks ''find'' \<and> hasToken toks ''-delete''
      then [''command runs find -delete, which removes what it matched and cannot be undone from here''] else []) @
     (if hasCommand toks ''rsync'' \<and> hasTokenPrefix toks ''--delete''
      then [''command runs rsync --delete, which removes what the source lacks and cannot be undone from here''] else []) @
     (if (hasCommand toks ''terraform'' \<or> hasCommand toks ''tofu'') \<and> hasToken toks ''apply'' \<and>
         (hasToken toks ''-destroy'' \<or> hasTokenPrefix toks ''-destroy='' \<or> hasToken toks ''--destroy'')
      then [''command applies a destroy plan, which cannot be undone from here''] else []) @
     (if hasCommand toks ''del'' \<and> (hasToken toks ''/f'' \<or> hasToken toks ''/q'')
      then [''command runs del with a force flag, which cannot be undone from here''] else [])"

definition commandSegments :: "string \<Rightarrow> string list list" where
  "commandSegments cmd =
     filter (\<lambda>toks. toks \<noteq> [])
       (map Fields (FieldsFunc cmd (\<lambda>r. r \<in> {'';'', ''|'', ''&'', ''('', '')'', [CHR 0x0A], [CHR 0x60]})))"

definition permanentCommandFindings :: "string \<Rightarrow> string list" where
  "permanentCommandFindings cmd =
     map (\<lambda>m. ''command contains '' @ TrimSpace m @ '', which cannot be undone from here'')
       (filter (Contains cmd) permanentMarkers) @
     concat (map segmentFindings (commandSegments cmd))"

definition plannedDestroys :: "run \<Rightarrow> string" where
  "plannedDestroys r =
     (case PlanDestroys r of
        None \<Rightarrow> []
      | Some n \<Rightarrow>
          if n \<le> 0 then []
          else ''its plan destroys '' @ FormatInt n @ '' '' @ (if n = 1 then ''resource'' else ''resources'') @
               '', which cannot be undone from here'')"

section \<open>Risk\<close>

definition RiskLow :: string where "RiskLow = ''low''"
definition RiskMedium :: string where "RiskMedium = ''medium''"
definition RiskHigh :: string where "RiskHigh = ''high''"

definition disruptiveMarkers :: "string list" where
  "disruptiveMarkers = [''reboot'', ''shutdown'', ''halt'', ''--force'', ''-force'']"

definition risk_rank :: "string \<Rightarrow> int" where
  "risk_rank l = (if l = RiskMedium then 1 else if l = RiskHigh then 2 else 0)"

definition raise :: "string \<Rightarrow> string \<Rightarrow> string" where
  "raise cur new = (if risk_rank new > risk_rank cur then new else cur)"

fun selects_all :: "(string \<Rightarrow> string) \<Rightarrow> string list \<Rightarrow> bool" where
  "selects_all lower [] = True"
| "selects_all lower (t # ts) =
     (let term = lower (TrimSpace t) in
      if term = [] \<or> hd term = CHR ''!'' \<or> hd term = CHR ''&'' then selects_all lower ts
      else if term \<noteq> ''all'' \<and> term \<noteq> ''*'' then False else selects_all lower ts)"

definition WholeInventoryLimit :: "(string \<Rightarrow> string) \<Rightarrow> string \<Rightarrow> bool" where
  "WholeInventoryLimit lower limit =
     (let trimmed = TrimSpace limit in
      if trimmed = [] then True
      else selects_all lower (FieldsFunc trimmed (\<lambda>r. r = '':'' \<or> r = '','')))"

text \<open>The grade as the code builds it, signal by signal.\<close>

definition AssessRisk :: "(string \<Rightarrow> string) \<Rightarrow> (string \<Rightarrow> string) \<Rightarrow> run \<Rightarrow> risk" where
  "AssessRisk lower quote r =
     (if ChangeFree r then \<lparr>rk_Level = RiskLow, rk_Reasons = [''dry run, makes no changes'']\<rparr>
      else
        let text = run_text lower r;
            why = NotChangeFreeSummary quote r;
            g0 = (RiskLow, if why \<noteq> [] then [why] else []);
            g1 = (case permanentCommandFindings text of
                    [] \<Rightarrow> g0 | f # _ \<Rightarrow> (RiskHigh, snd g0 @ [''destructive '' @ f]));
            g2 = (if plannedDestroys r \<noteq> [] then (RiskHigh, snd g1 @ [plannedDestroys r]) else g1);
            g3 = (case find (Contains text) disruptiveMarkers of
                    None \<Rightarrow> g2 | Some m \<Rightarrow> (RiskHigh, snd g2 @ [''destructive command: '' @ TrimSpace m]));
            g4 = (if NormalizeTool (Tool r) = ToolTerraform \<or> NormalizeTool (Tool r) = ToolOpenTofu
                  then (raise (fst g3) RiskMedium, snd g3 @ [''infrastructure apply'']) else g3);
            g5 = (if WholeInventoryLimit lower (Limit r) \<and> NormalizeTool (Tool r) = ToolAnsible
                  then (raise (fst g4) RiskMedium, snd g4 @ [''targets the whole inventory, no limit'']) else g4);
            g6 = (case ShardCount r of
                    Some n \<Rightarrow> if n \<ge> 50 then (raise (fst g5) RiskMedium, snd g5 @ [''fans out across many hosts'']) else g5
                  | None \<Rightarrow> g5)
        in \<lparr>rk_Level = fst g6,
            rk_Reasons = (if fst g6 = RiskLow then snd g6 @ [''no elevated signal''] else snd g6)\<rparr>)"

section \<open>Reversibility\<close>

definition Reversible :: string where "Reversible = ''reversible''"
definition ReversibleCostly :: string where "ReversibleCostly = ''costly''"
definition Irreversible :: string where "Irreversible = ''irreversible''"

definition reversibilityRank :: "string \<Rightarrow> int" where
  "reversibilityRank cls =
     (if cls = Reversible then 0 else if cls = ReversibleCostly then 1 else if cls = Irreversible then 2 else -1)"

definition ValidReversibility :: "string \<Rightarrow> bool" where
  "ValidReversibility cls \<longleftrightarrow> reversibilityRank cls \<ge> 0"

record reversibility_evidence =
  ev_Playbook :: "playbook_signals option"
  ev_Hosts :: "host_summary list"

definition no_evidence :: reversibility_evidence where
  "no_evidence = \<lparr>ev_Playbook = None, ev_Hosts = []\<rparr>"

definition readReason :: "int \<Rightarrow> string" where
  "readReason files =
     (if files \<le> 1 then ''the playbook was read and holds nothing this grades as permanent''
      else if files = 2 then ''the playbook and the file it pulls in were read and hold nothing this grades as permanent''
      else ''the playbook and the '' @ FormatInt (files - 1) @
           '' files it pulls in were read and hold nothing this grades as permanent'')"

definition unreadReason :: "string list \<Rightarrow> string \<Rightarrow> string" where
  "unreadReason unread meaning =
     (case unread of
        [a] \<Rightarrow> ''could not follow '' @ a @ '', so '' @ meaning
      | [a, b] \<Rightarrow> ''could not follow '' @ a @ '' or '' @ b @ '', so '' @ meaning
      | _ \<Rightarrow> ''could not follow '' @ FormatInt (int (length unread)) @ '' roles and includes, among them '' @
             unread ! 0 @ '' and '' @ unread ! 1 @ '', so '' @ meaning)"

definition withSource :: "string list \<Rightarrow> string \<Rightarrow> string list" where
  "withSource reasons source = (if source = [] then reasons else reasons @ [source])"

definition undoing :: string where
  "undoing = ''changes state, so undoing it means running something else''"

definition assessPlaybook :: "playbook_signals \<Rightarrow> reversibility" where
  "assessPlaybook pb =
     (if pb_Permanent pb \<noteq> [] then
        \<lparr>rv_Class = Irreversible,
         rv_Reasons = withSource (pb_Permanent pb @
           (if pb_Unread pb \<noteq> [] then [unreadReason (pb_Unread pb) ''there may be more''] else [])) (pb_Source pb)\<rparr>
      else
        \<lparr>rv_Class = ReversibleCostly,
         rv_Reasons = withSource ([undoing, readReason (pb_Files pb)] @
           (if pb_Unread pb \<noteq> [] then [unreadReason (pb_Unread pb) ''the grade covers only what was read''] else []))
           (pb_Source pb)\<rparr>)"

definition assessChange :: "(string \<Rightarrow> string) \<Rightarrow> run \<Rightarrow> reversibility_evidence \<Rightarrow> reversibility" where
  "assessChange lower r ev =
     (if plannedDestroys r \<noteq> [] then \<lparr>rv_Class = Irreversible, rv_Reasons = [plannedDestroys r]\<rparr>
      else if Terminal (Status r) \<and> ev_Hosts ev \<noteq> [] \<and> sum_list (map hs_Changed (ev_Hosts ev)) = 0 then
        \<lparr>rv_Class = Reversible,
         rv_Reasons = [''finished with no host reporting a change, so there is nothing to undo'']\<rparr>
      else
        let found = permanentCommandFindings (run_text lower r) in
        if found \<noteq> [] then \<lparr>rv_Class = Irreversible, rv_Reasons = found\<rparr>
        else case ev_Playbook ev of
          Some pb \<Rightarrow> assessPlaybook pb
        | None \<Rightarrow>
            if Command r = [] then
              \<lparr>rv_Class = ReversibleCostly, rv_Reasons = [undoing,
                 ''graded from what the run declares: the playbook''@ [CHR 0x27] @ ''s own contents were not examined'']\<rparr>
            else \<lparr>rv_Class = ReversibleCostly, rv_Reasons = [undoing]\<rparr>)"

definition AssessReversibilityFrom ::
  "(string \<Rightarrow> string) \<Rightarrow> (string \<Rightarrow> string) \<Rightarrow> run \<Rightarrow> reversibility_evidence \<Rightarrow> reversibility" where
  "AssessReversibilityFrom lower quote r ev =
     (if ChangeFree r then \<lparr>rv_Class = Reversible, rv_Reasons = [''dry run, changes nothing to undo'']\<rparr>
      else
        let out = assessChange lower r ev; why = NotChangeFreeSummary quote r in
        if why \<noteq> [] then out\<lparr>rv_Reasons := why # rv_Reasons out\<rparr> else out)"

definition AssessReversibility :: "(string \<Rightarrow> string) \<Rightarrow> (string \<Rightarrow> string) \<Rightarrow> run \<Rightarrow> reversibility" where
  "AssessReversibility lower quote r = AssessReversibilityFrom lower quote r no_evidence"

section \<open>Narrowing a launch\<close>

datatype narrow_error = EveryHost string | Pinned string string

definition CheckLimitNarrows :: "(string \<Rightarrow> string) \<Rightarrow> string \<Rightarrow> string \<Rightarrow> narrow_error option" where
  "CheckLimitNarrows lower pinned requested =
     (let req = TrimSpace requested in
      if req = [] then None
      else if WholeInventoryLimit lower req then Some (EveryHost req)
      else let p = TrimSpace pinned in
        if p \<noteq> [] \<and> p \<noteq> req then Some (Pinned p req) else None)"

end
