(* ===== verification/Grading_Props.thy ===== *)
theory Grading_Props
  imports Grading
begin

text \<open>
  What the two grades of a run mean, how they relate, and when a launch limit narrows.
\<close>

lemmas level_names = RiskLow_def RiskMedium_def RiskHigh_def
lemmas class_names = Reversible_def ReversibleCostly_def Irreversible_def

section \<open>The signals\<close>

text \<open>The signals of a run that may change something: it destroys or forces, it reaches wide.\<close>

definition permanent :: "(string \<Rightarrow> string) \<Rightarrow> run \<Rightarrow> bool" where
  "permanent lower r \<longleftrightarrow> permanentCommandFindings (run_text lower r) \<noteq> [] \<or> (\<exists>n. PlanDestroys r = Some n \<and> n > 0)"

definition disruptive :: "(string \<Rightarrow> string) \<Rightarrow> run \<Rightarrow> bool" where
  "disruptive lower r \<longleftrightarrow> (\<exists>m\<in>set disruptiveMarkers. Contains (run_text lower r) m)"

definition reaches_wide :: "(string \<Rightarrow> string) \<Rightarrow> run \<Rightarrow> bool" where
  "reaches_wide lower r \<longleftrightarrow>
     NormalizeTool (Tool r) \<in> {ToolTerraform, ToolOpenTofu} \<or>
     NormalizeTool (Tool r) = ToolAnsible \<and> WholeInventoryLimit lower (Limit r) \<or>
     (\<exists>n. ShardCount r = Some n \<and> n \<ge> 50)"

lemma plannedDestroys_iff: "plannedDestroys r \<noteq> [] \<longleftrightarrow> (\<exists>n. PlanDestroys r = Some n \<and> n > 0)"
  by (auto simp: plannedDestroys_def split: option.splits)

lemma find_None_iff2: "find P xs = None \<longleftrightarrow> \<not> (\<exists>x\<in>set xs. P x)"
  by (auto simp: find_None_iff)

lemma raise_medium:
  "raise RiskHigh RiskMedium = RiskHigh" "raise RiskLow RiskMedium = RiskMedium"
  "raise RiskMedium RiskMedium = RiskMedium"
  by (simp_all add: raise_def risk_rank_def level_names)

lemma level_distinct:
  "RiskLow \<noteq> RiskMedium" "RiskLow \<noteq> RiskHigh" "RiskMedium \<noteq> RiskHigh"
  "RiskMedium \<noteq> RiskLow" "RiskHigh \<noteq> RiskLow" "RiskHigh \<noteq> RiskMedium"
  by (simp_all add: level_names)

lemma class_distinct:
  "Reversible \<noteq> ReversibleCostly" "Reversible \<noteq> Irreversible" "ReversibleCostly \<noteq> Irreversible"
  "ReversibleCostly \<noteq> Reversible" "Irreversible \<noteq> Reversible" "Irreversible \<noteq> ReversibleCostly"
  by (simp_all add: class_names)

lemma AssessRisk_level:
  assumes "\<not> ChangeFree r"
  shows "rk_Level (AssessRisk lower quote r) =
    (if permanent lower r \<or> disruptive lower r then RiskHigh
     else if reaches_wide lower r then RiskMedium else RiskLow)"
proof -
  let ?F = "permanentCommandFindings (run_text lower r)"
  let ?M = "find (Contains (run_text lower r)) disruptiveMarkers"
  let ?h = "(if permanent lower r \<or> disruptive lower r then RiskHigh else RiskLow)"
  have D: "?M = None \<longleftrightarrow> \<not> disruptive lower r" by (auto simp: disruptive_def find_None_iff2)
  define g3 where "g3 = (case ?M of
      None \<Rightarrow> if plannedDestroys r \<noteq> [] then RiskHigh
              else (case ?F of [] \<Rightarrow> RiskLow | f # _ \<Rightarrow> RiskHigh)
    | Some m \<Rightarrow> RiskHigh)"
  have g3: "g3 = ?h"
    using D by (cases ?M; cases ?F) (auto simp: g3_def permanent_def plannedDestroys_iff [symmetric])
  have "rk_Level (AssessRisk lower quote r) =
      (let l4 = (if NormalizeTool (Tool r) = ToolTerraform \<or> NormalizeTool (Tool r) = ToolOpenTofu
                 then raise g3 RiskMedium else g3);
           l5 = (if WholeInventoryLimit lower (Limit r) \<and> NormalizeTool (Tool r) = ToolAnsible
                 then raise l4 RiskMedium else l4)
       in case ShardCount r of Some n \<Rightarrow> if n \<ge> 50 then raise l5 RiskMedium else l5 | None \<Rightarrow> l5)"
    using assms unfolding AssessRisk_def g3_def
    by (cases ?M; cases ?F; cases "ShardCount r") (auto simp: Let_def)
  also have "\<dots> = (if permanent lower r \<or> disruptive lower r then RiskHigh
     else if reaches_wide lower r then RiskMedium else RiskLow)"
    unfolding g3 by (cases "ShardCount r") (auto simp: Let_def reaches_wide_def raise_medium)
  finally show ?thesis .
qed

lemma AssessReversibility_class:
  assumes "\<not> ChangeFree r"
  shows "rv_Class (AssessReversibility lower quote r) =
    (if permanent lower r then Irreversible else ReversibleCostly)"
  using assms
  by (auto simp: AssessReversibility_def AssessReversibilityFrom_def assessChange_def no_evidence_def
      Let_def permanent_def plannedDestroys_iff)

lemma selects_all_iff:
  "selects_all lower ts \<longleftrightarrow> (\<forall>t\<in>set ts. let term = lower (TrimSpace t) in
     term = [] \<or> hd term = CHR ''!'' \<or> hd term = CHR ''&'' \<or> term = ''all'' \<or> term = ''*'')"
  by (induction ts) (auto simp: Let_def)

section \<open>The properties\<close>

text \<open>The two grades are what their signals say and never contradict each other. A run shown to
  change nothing is low risk and reversible; any other is high risk exactly when its command, its
  variables or its plan hold something that destroys or forces, medium when it only reaches wide, and
  low otherwise; it is irreversible exactly when what it holds is permanent and costly otherwise. So
  whatever cannot be undone is high risk, and what was read of the playbook only ever raises the
  reversibility class.\<close>

theorem grades_agree:
  "rk_Level (AssessRisk lower quote r) =
     (if ChangeFree r then RiskLow
      else if permanent lower r \<or> disruptive lower r then RiskHigh
      else if reaches_wide lower r then RiskMedium else RiskLow) \<and>
   rv_Class (AssessReversibility lower quote r) =
     (if ChangeFree r then Reversible else if permanent lower r then Irreversible else ReversibleCostly) \<and>
   (rv_Class (AssessReversibility lower quote r) = Irreversible \<longrightarrow>
      rk_Level (AssessRisk lower quote r) = RiskHigh) \<and>
   reversibilityRank (rv_Class (AssessReversibilityFrom lower quote r (ev\<lparr>ev_Playbook := None\<rparr>))) \<le>
   reversibilityRank (rv_Class (AssessReversibilityFrom lower quote r (ev\<lparr>ev_Playbook := Some pb\<rparr>)))"
proof -
  have low: "rk_Level (AssessRisk lower quote r) = RiskLow" if "ChangeFree r"
    using that by (simp add: AssessRisk_def)
  have rev: "rv_Class (AssessReversibility lower quote r) = Reversible" if "ChangeFree r"
    using that by (simp add: AssessReversibility_def AssessReversibilityFrom_def)
  have up: "reversibilityRank (rv_Class (AssessReversibilityFrom lower quote r (ev\<lparr>ev_Playbook := None\<rparr>))) \<le>
      reversibilityRank (rv_Class (AssessReversibilityFrom lower quote r (ev\<lparr>ev_Playbook := Some pb\<rparr>)))"
    by (auto simp: AssessReversibilityFrom_def assessChange_def assessPlaybook_def Let_def
        reversibilityRank_def class_distinct)
  show ?thesis
    using low rev AssessRisk_level [of r lower quote] AssessReversibility_class [of r lower quote] up
    by (simp add: class_distinct)
qed

text \<open>A launch limit an agent asks for only narrows. When it is accepted, either nothing was asked
  for, or the pattern names at least one target other than everything, neither \<open>all\<close> nor \<open>*\<close>,
  neither an exclusion nor an intersection, and it is the very pattern the template pins whenever the
  template pins one.\<close>

theorem accepted_limit_narrows:
  assumes "CheckLimitNarrows lower pinned requested = None" and "TrimSpace requested \<noteq> []"
  shows "(\<exists>t\<in>set (FieldsFunc (TrimSpace requested) (\<lambda>c. c = '':'' \<or> c = '','')).
      let term = lower (TrimSpace t) in
      term \<noteq> [] \<and> hd term \<noteq> CHR ''!'' \<and> hd term \<noteq> CHR ''&'' \<and> term \<noteq> ''all'' \<and> term \<noteq> ''*'') \<and>
    (TrimSpace pinned = [] \<or> TrimSpace requested = TrimSpace pinned)"
proof -
  have "\<not> WholeInventoryLimit lower (TrimSpace requested)"
    "TrimSpace pinned = [] \<or> TrimSpace pinned = TrimSpace requested"
    using assms(1,2) by (auto simp: CheckLimitNarrows_def Let_def split: if_splits)
  then show ?thesis
    using assms(2) by (auto simp: WholeInventoryLimit_def selects_all_iff Let_def)
qed

section \<open>Witnesses\<close>

definition formatting_run :: run where
  "formatting_run = zero_run\<lparr>Tool := ''bash'', Command := ''mkfs /dev/sda''\<rparr>"

theorem grades_agree_witness:
  "rv_Class (AssessReversibility (\<lambda>s. s) (\<lambda>s. s) formatting_run) = Irreversible \<and>
   rk_Level (AssessRisk (\<lambda>s. s) (\<lambda>s. s) formatting_run) = RiskHigh"
proof -
  have "rv_Class (AssessReversibility (\<lambda>s. s) (\<lambda>s. s) formatting_run) = Irreversible" by code_simp
  then show ?thesis using grades_agree [of "\<lambda>s. s" "\<lambda>s. s" formatting_run no_evidence] by blast
qed

theorem accepted_limit_narrows_witness:
  "CheckLimitNarrows (\<lambda>s. s) '' web1 '' ''web1'' = None \<and>
   TrimSpace ''web1'' = TrimSpace '' web1 ''"
proof -
  have "CheckLimitNarrows (\<lambda>s. s) '' web1 '' ''web1'' = None" "TrimSpace ''web1'' \<noteq> []"
    "TrimSpace '' web1 '' \<noteq> []" by code_simp+
  then show ?thesis using accepted_limit_narrows [of "\<lambda>s. s" "'' web1 ''" "''web1''"] by blast
qed

section \<open>Limits of the grades\<close>

text \<open>The risk grade does not see the playbook: a run whose playbook was read and holds permanent work
  is irreversible and low risk at once.\<close>

definition canary_run :: run where
  "canary_run = zero_run\<lparr>Playbook := ''site.yml'', Limit := ''web1''\<rparr>"

lemma canary_grade:
  assumes "r = canary_run\<lparr>ExtraVars := vs\<rparr>"
  shows "rk_Level (AssessRisk lower quote r) =
    (if permanentCommandFindings (run_text lower r) \<noteq> [] \<or> disruptive lower r then RiskHigh
     else if WholeInventoryLimit lower ''web1'' then RiskMedium else RiskLow)"
proof -
  have "\<not> ChangeFree r" by (simp add: assms canary_run_def zero_run_def ChangeFree_def)
  then show ?thesis
    by (simp add: AssessRisk_level permanent_def reaches_wide_def assms canary_run_def zero_run_def
        NormalizeTool_def tool_names)
qed

lemma canary_limit: "\<not> WholeInventoryLimit (\<lambda>s. s) ''web1''"
  by code_simp

lemma permanent_playbook_low_risk:
  "rv_Class (AssessReversibilityFrom (\<lambda>s. s) (\<lambda>s. s) canary_run
     \<lparr>ev_Playbook = Some \<lparr>pb_Permanent = [''drops a database''], pb_Forced = [], pb_Unread = [], pb_Files = 1,
        pb_Inputs = [''site.yml''], pb_Source = []\<rparr>, ev_Hosts = []\<rparr>) = Irreversible"
  "rk_Level (AssessRisk (\<lambda>s. s) (\<lambda>s. s) canary_run) = RiskLow"
proof -
  show "rv_Class (AssessReversibilityFrom (\<lambda>s. s) (\<lambda>s. s) canary_run
     \<lparr>ev_Playbook = Some \<lparr>pb_Permanent = [''drops a database''], pb_Forced = [], pb_Unread = [], pb_Files = 1,
        pb_Inputs = [''site.yml''], pb_Source = []\<rparr>, ev_Hosts = []\<rparr>) = Irreversible" by code_simp
  have "canary_run = canary_run\<lparr>ExtraVars := []\<rparr>" by (simp add: canary_run_def zero_run_def)
  moreover have "permanentCommandFindings (run_text (\<lambda>s. s) canary_run) = []"
    "\<not> disruptive (\<lambda>s. s) canary_run" by code_simp+
  ultimately show "rk_Level (AssessRisk (\<lambda>s. s) (\<lambda>s. s) canary_run) = RiskLow"
    using canary_grade canary_limit by metis
qed

text \<open>A map of variables is read in no particular order, and two values that stand next to each other
  read as one text, so one and the same run can be graded two ways.\<close>

lemma grade_depends_on_map_order:
  "rk_Level (AssessRisk (\<lambda>s. s) (\<lambda>s. s) (canary_run\<lparr>ExtraVars := [(''a'', AnyStr ''drop''), (''b'', AnyStr ''table'')]\<rparr>)) = RiskHigh"
  "rk_Level (AssessRisk (\<lambda>s. s) (\<lambda>s. s) (canary_run\<lparr>ExtraVars := [(''b'', AnyStr ''table''), (''a'', AnyStr ''drop'')]\<rparr>)) = RiskLow"
proof -
  let ?r = "\<lambda>vs. canary_run\<lparr>ExtraVars := vs\<rparr>"
  have "permanentCommandFindings (run_text (\<lambda>s. s) (?r [(''a'', AnyStr ''drop''), (''b'', AnyStr ''table'')])) \<noteq> []"
    by code_simp
  then show "rk_Level (AssessRisk (\<lambda>s. s) (\<lambda>s. s) (?r [(''a'', AnyStr ''drop''), (''b'', AnyStr ''table'')])) = RiskHigh"
    using canary_grade [OF refl] by simp
  have "permanentCommandFindings (run_text (\<lambda>s. s) (?r [(''b'', AnyStr ''table''), (''a'', AnyStr ''drop'')])) = []"
    "\<not> disruptive (\<lambda>s. s) (?r [(''b'', AnyStr ''table''), (''a'', AnyStr ''drop'')])"
    by code_simp+
  then show "rk_Level (AssessRisk (\<lambda>s. s) (\<lambda>s. s) (?r [(''b'', AnyStr ''table''), (''a'', AnyStr ''drop'')])) = RiskLow"
    using canary_grade [OF refl] canary_limit by simp
qed

end
