(* ===== verification/Template.thy ===== *)
theory Template
  imports Run_Options Pipeline GoStrings "HOL-Library.Product_Lexorder" "HOL-Library.List_Lexorder" "HOL-Library.Char_ord"
begin

text \<open>
  Job templates (\<open>internal/template\<close>): the saved launch preset, its survey, how answers and defaults
  become variables, how a secret default is sealed and masked, and the in-memory store with its
  bindings of AWX job template ids. Three things the code calls are arguments: \<open>re\<close>, the regular
  expression library, which gives \<open>None\<close> for a pattern that does not compile and else whether a text
  matches; \<open>f2i\<close>, the platform's conversion of a \<open>float64\<close> to \<open>int\<close>; and \<open>seal\<close>, the credential key's
  sealing, \<open>None\<close> for its errors.
\<close>

section \<open>Data\<close>

definition FieldText :: string where "FieldText = ''text''"
definition FieldInt :: string where "FieldInt = ''int''"
definition FieldBool :: string where "FieldBool = ''bool''"
definition FieldChoice :: string where "FieldChoice = ''choice''"
definition FieldMultiline :: string where "FieldMultiline = ''multiline''"
definition FieldSecret :: string where "FieldSecret = ''secret''"

lemmas field_types = FieldText_def FieldInt_def FieldBool_def FieldChoice_def FieldMultiline_def FieldSecret_def

definition fieldTypeSpellings :: "(string \<times> string) list" where
  "fieldTypeSpellings = [(''integer'', FieldInt), (''boolean'', FieldBool), (''string'', FieldText),
     (''textarea'', FieldMultiline), (''password'', FieldSecret)]"

definition read_field_type :: "(string \<Rightarrow> string) \<Rightarrow> string \<Rightarrow> string" where
  "read_field_type lower s = (case map_of fieldTypeSpellings (lower s) of Some typ \<Rightarrow> typ | None \<Rightarrow> s)"

record survey_field =
  sf_Var :: string
  sf_Label :: string
  sf_Type :: string
  sf_Required :: bool
  sf_Default :: "goany option"
  sf_Choices :: "string list"
  sf_Help :: string
  sf_Min :: "int option"
  sf_Max :: "int option"
  sf_MinLength :: int
  sf_MaxLength :: int
  sf_Pattern :: string
  sf_SealedDefault :: string

definition Secret :: "survey_field \<Rightarrow> bool" where
  "Secret f \<longleftrightarrow> sf_Type f = FieldSecret"

record template =
  tp_ID :: string
  tp_Name :: string
  tp_ProjectID :: string
  tp_Playbook :: string
  tp_Inventory :: string
  tp_InventoryID :: string
  tp_Tool :: string
  tp_Command :: string
  tp_DryRun :: bool
  tp_Limit :: string
  tp_Tags :: "string list"
  tp_SkipTags :: "string list"
  tp_Verbosity :: int
  tp_Forks :: int
  tp_DiffMode :: bool
  tp_Shards :: int
  tp_Queue :: string
  tp_Timeout :: int
  tp_Image :: string
  tp_PullCredentialID :: string
  tp_CredentialIDs :: "string list"
  tp_SelectableCredentialIDs :: "string list"
  tp_ExtraVars :: "(string \<times> goany) list"
  tp_Steps :: "pipeline_step list"
  tp_Survey :: "survey_field list"
  tp_ConfirmOnLaunch :: bool
  tp_Notifications :: "notify_target list"
  tp_OrgID :: string
  tp_UseFactCache :: bool
  tp_FactCacheTimeout :: int
  tp_AllowCallbacks :: bool
  tp_HostConfigKey :: string
  tp_HostConfigKeySet :: bool
  tp_CallbackLimit :: string
  tp_AWXCallback :: bool
  tp_AWXJobTemplateID :: int
  tp_AWXCallbackCalledAt :: "gotime option"
  tp_CreatedAt :: gotime

section \<open>Answers\<close>

type_synonym regex_lib = "string \<Rightarrow> (string \<Rightarrow> bool) option"
type_synonym float_conv = "int \<Rightarrow> int \<Rightarrow> int"

definition anchorPattern :: "string \<Rightarrow> string" where
  "anchorPattern p = CHR 0x5C # ''A(?:'' @ p @ '')'' @ CHR 0x5C # ''z''"

datatype survey_error =
    SurveyRequired string
  | SurveyNotText string
  | SurveyTooShort string int
  | SurveyTooLong string int
  | SurveyBadPattern string
  | SurveyNoMatch string
  | SurveyNotInteger string
  | SurveyBelow string int
  | SurveyAbove string int
  | SurveyNotBool string
  | SurveyNotChoice string
  | SurveyOtherChoice string string
  | SurveyUnknownType string string

definition text_type :: "string \<Rightarrow> bool" where
  "text_type t \<longleftrightarrow> t \<in> {FieldText, FieldMultiline, FieldSecret, []}"

definition coerce_text :: "regex_lib \<Rightarrow> survey_field \<Rightarrow> goany \<Rightarrow> survey_error + goany" where
  "coerce_text re f raw =
     (case raw of
        AnyStr s \<Rightarrow>
          let n = int (length (runes s)) in
          if sf_Required f \<and> s = [] then Inl (SurveyRequired (sf_Var f))
          else if sf_MinLength f > 0 \<and> n < sf_MinLength f then Inl (SurveyTooShort (sf_Var f) (sf_MinLength f))
          else if sf_MaxLength f > 0 \<and> n > sf_MaxLength f then Inl (SurveyTooLong (sf_Var f) (sf_MaxLength f))
          else if sf_Pattern f \<noteq> [] then
            (case re (anchorPattern (sf_Pattern f)) of
               None \<Rightarrow> Inl (SurveyBadPattern (sf_Var f))
             | Some matches \<Rightarrow> if matches s then Inr (AnyStr s) else Inl (SurveyNoMatch (sf_Var f)))
          else Inr (AnyStr s)
      | _ \<Rightarrow> Inl (SurveyNotText (sf_Var f)))"

definition coerce_int :: "survey_field \<Rightarrow> int \<Rightarrow> survey_error + goany" where
  "coerce_int f n =
     (if (case sf_Min f of Some m \<Rightarrow> n < m | None \<Rightarrow> False) then Inl (SurveyBelow (sf_Var f) (the (sf_Min f)))
      else if (case sf_Max f of Some m \<Rightarrow> n > m | None \<Rightarrow> False) then Inl (SurveyAbove (sf_Var f) (the (sf_Max f)))
      else Inr (AnyInt n))"

definition coerce :: "regex_lib \<Rightarrow> float_conv \<Rightarrow> survey_field \<Rightarrow> goany \<Rightarrow> survey_error + goany" where
  "coerce re f2i f raw =
     (if text_type (sf_Type f) then coerce_text re f raw
      else if sf_Type f = FieldInt then
        (case raw of
           AnyFloat m e \<Rightarrow> coerce_int f (f2i m e)
         | AnyInt n \<Rightarrow> coerce_int f n
         | _ \<Rightarrow> Inl (SurveyNotInteger (sf_Var f)))
      else if sf_Type f = FieldBool then
        (case raw of AnyBool b \<Rightarrow> Inr (AnyBool b) | _ \<Rightarrow> Inl (SurveyNotBool (sf_Var f)))
      else if sf_Type f = FieldChoice then
        (case raw of
           AnyStr s \<Rightarrow> if s \<in> set (sf_Choices f) then Inr (AnyStr s) else Inl (SurveyOtherChoice (sf_Var f) s)
         | _ \<Rightarrow> Inl (SurveyNotChoice (sf_Var f)))
      else Inl (SurveyUnknownType (sf_Var f) (sf_Type f)))"

record secret_answers =
  sa_Plain :: "(string \<times> string) list"
  sa_Sealed :: "(string \<times> string) list"

definition no_secrets :: secret_answers where
  "no_secrets = \<lparr>sa_Plain = [], sa_Sealed = []\<rparr>"

definition secrets_empty :: "secret_answers \<Rightarrow> bool" where
  "secrets_empty s \<longleftrightarrow> sa_Plain s = [] \<and> sa_Sealed s = []"

definition text_of :: "goany \<Rightarrow> string" where
  "text_of v = (case v of AnyStr s \<Rightarrow> s | _ \<Rightarrow> [])"

text \<open>What a question left blank contributes: a secret question's sealed default, another's default.\<close>

definition take_default ::
  "survey_field \<Rightarrow> (string \<times> goany) list \<times> secret_answers \<Rightarrow> (string \<times> goany) list \<times> secret_answers" where
  "take_default f acc =
     (if Secret f then
        (if sf_SealedDefault f \<noteq> [] then
           (fst acc, (snd acc)\<lparr>sa_Sealed := AList.update (sf_Var f) (sf_SealedDefault f) (sa_Sealed (snd acc))\<rparr>)
         else acc)
      else case sf_Default f of
        Some d \<Rightarrow> (AList.update (sf_Var f) d (fst acc), snd acc)
      | None \<Rightarrow> acc)"

definition take_answer ::
  "survey_field \<Rightarrow> goany \<Rightarrow> (string \<times> goany) list \<times> secret_answers \<Rightarrow> (string \<times> goany) list \<times> secret_answers" where
  "take_answer f val acc =
     (if Secret f then
        (fst acc, (snd acc)\<lparr>sa_Plain := AList.update (sf_Var f) (text_of val) (sa_Plain (snd acc))\<rparr>)
      else (AList.update (sf_Var f) val (fst acc), snd acc))"

text \<open>\<open>answers\<close> gives \<open>Some None\<close> for a question answered with nil.\<close>

fun resolve_answers :: "regex_lib \<Rightarrow> float_conv \<Rightarrow> (string \<rightharpoonup> goany option) \<Rightarrow> survey_field list \<Rightarrow>
    (string \<times> goany) list \<times> secret_answers \<Rightarrow> survey_error + (string \<times> goany) list \<times> secret_answers" where
  "resolve_answers re f2i answers [] acc = Inr acc"
| "resolve_answers re f2i answers (f # fs) acc =
     (case answers (sf_Var f) of
        Some (Some raw) \<Rightarrow>
          (case coerce re f2i f raw of
             Inl e \<Rightarrow> Inl e
           | Inr val \<Rightarrow> resolve_answers re f2i answers fs (take_answer f val acc))
      | _ \<Rightarrow>
          if sf_Required f then Inl (SurveyRequired (sf_Var f))
          else resolve_answers re f2i answers fs (take_default f acc))"

definition ResolveSurveyAnswers :: "regex_lib \<Rightarrow> float_conv \<Rightarrow> survey_field list \<Rightarrow> (string \<rightharpoonup> goany option) \<Rightarrow>
    survey_error + (string \<times> goany) list \<times> secret_answers" where
  "ResolveSurveyAnswers re f2i fs answers = resolve_answers re f2i answers fs ([], no_secrets)"

definition ResolveSurvey :: "regex_lib \<Rightarrow> float_conv \<Rightarrow> survey_field list \<Rightarrow> (string \<rightharpoonup> goany option) \<Rightarrow>
    survey_error + (string \<times> goany) list" where
  "ResolveSurvey re f2i fs answers = map_sum (\<lambda>e. e) fst (ResolveSurveyAnswers re f2i fs answers)"

section \<open>Launches with nobody to answer\<close>

datatype unanswered = NoDefault | InvalidDefault survey_error

type_synonym unanswered_error = "(string \<times> unanswered) list"

definition no_text_default :: "survey_field \<Rightarrow> bool" where
  "no_text_default f \<longleftrightarrow> (case sf_Default f of None \<Rightarrow> True | Some d \<Rightarrow> d = AnyStr [])"

definition default_step :: "regex_lib \<Rightarrow> float_conv \<Rightarrow> survey_field \<Rightarrow>
    unanswered_error \<times> (string \<times> goany) list \<times> secret_answers \<Rightarrow>
    unanswered_error \<times> (string \<times> goany) list \<times> secret_answers" where
  "default_step re f2i f acc =
     (let (missing, vals) = acc in
      if Secret f then
        (if sf_SealedDefault f \<noteq> [] then (missing, take_default f vals)
         else if sf_Required f then (missing @ [(sf_Var f, NoDefault)], vals)
         else acc)
      else if \<not> sf_Required f then (missing, take_default f vals)
      else if no_text_default f then (missing @ [(sf_Var f, NoDefault)], vals)
      else case coerce re f2i f (the (sf_Default f)) of
        Inl e \<Rightarrow> (missing @ [(sf_Var f, InvalidDefault e)], vals)
      | Inr val \<Rightarrow> (missing, take_answer f val vals))"

definition ResolveSurveyDefaults :: "regex_lib \<Rightarrow> float_conv \<Rightarrow> survey_field list \<Rightarrow>
    unanswered_error + (string \<times> goany) list \<times> secret_answers" where
  "ResolveSurveyDefaults re f2i fs =
     (let (missing, vals) = fold (default_step re f2i) fs ([], [], no_secrets)
      in if missing \<noteq> [] then Inl missing else Inr vals)"

definition UnattendedVars :: "regex_lib \<Rightarrow> float_conv \<Rightarrow> template \<Rightarrow>
    unanswered_error + (string \<times> goany) list \<times> (string \<times> string) list" where
  "UnattendedVars re f2i t =
     (if tp_Survey t = [] then Inr (tp_ExtraVars t, [])
      else case ResolveSurveyDefaults re f2i (tp_Survey t) of
        Inl e \<Rightarrow> Inl e
      | Inr (resolved, secrets) \<Rightarrow>
          Inr (filter (\<lambda>kv. fst kv \<notin> fst ` set (sa_Sealed secrets))
                 (fold (\<lambda>(k, v) m. AList.update k v m) resolved (tp_ExtraVars t)),
               sa_Sealed secrets))"

definition UnattendedOptions :: "(string \<Rightarrow> string) \<Rightarrow> regex_lib \<Rightarrow> float_conv \<Rightarrow> template \<Rightarrow>
    unanswered_error + submit_option list" where
  "UnattendedOptions sha re f2i t =
     map_sum (\<lambda>e. e) (\<lambda>(vars, sealed). [WithExactExtraVars vars, WithSealedVars sha sealed])
       (UnattendedVars re f2i t)"

definition LaunchOptions :: "template \<Rightarrow> submit_option list" where
  "LaunchOptions t =
     [WithTemplate (tp_ID t), WithCredentialIDs (tp_CredentialIDs t), WithExtraVars (tp_ExtraVars t),
      WithTool (tp_Tool t), WithCommand (tp_Command t), WithDryRun (tp_DryRun t), WithTags (tp_Tags t),
      WithSkipTags (tp_SkipTags t), WithVerbosity (tp_Verbosity t), WithForks (tp_Forks t),
      WithDiffMode (tp_DiffMode t), WithFactCache (tp_UseFactCache t) (tp_FactCacheTimeout t)]
     @ (if tp_Limit t \<noteq> [] then [WithLimit (tp_Limit t)] else [])
     @ (if tp_ProjectID t \<noteq> [] then [WithProject (tp_ProjectID t)] else [])
     @ (if tp_InventoryID t \<noteq> [] then [WithInventory (tp_InventoryID t)] else [])
     @ (if tp_Queue t \<noteq> [] then [WithQueue (tp_Queue t)] else [])
     @ (if tp_Timeout t > 0 then [WithTimeout (tp_Timeout t)] else [])
     @ (if tp_Image t \<noteq> [] then [WithImage (tp_Image t) (tp_PullCredentialID t)] else [])
     @ (if tp_Notifications t \<noteq> [] then [WithNotifications (tp_Notifications t)] else [])"

section \<open>Secret defaults\<close>

definition Marker :: string where "Marker = ''[redacted]''"

datatype field_error =
    FieldDefaultNotText string
  | FieldNoStoredDefault string
  | FieldNoKey string
  | FieldSealFailed string
  | FieldPlainSecret string
  | FieldBadPattern string
  | FieldLengths string
  | FieldBounds string
  | FieldNoChoices string
  | FieldUnknownType string string

fun storedSealedDefault :: "survey_field list \<Rightarrow> string \<Rightarrow> string" where
  "storedSealedDefault [] v = []"
| "storedSealedDefault (f # fs) v =
     (if sf_Var f = v \<and> Secret f then sf_SealedDefault f else storedSealedDefault fs v)"

definition seal_field :: "(string \<Rightarrow> string option) option \<Rightarrow> survey_field list \<Rightarrow> survey_field \<Rightarrow>
    field_error + survey_field" where
  "seal_field seal existing f0 =
     (let f = f0\<lparr>sf_SealedDefault := []\<rparr> in
      if \<not> Secret f \<or> sf_Default f = None then Inr f
      else case the (sf_Default f) of
        AnyStr plain \<Rightarrow>
          let g = f\<lparr>sf_Default := None\<rparr> in
          if plain = [] then Inr g
          else if plain = Marker then
            (let kept = storedSealedDefault existing (sf_Var g) in
             if kept = [] then Inl (FieldNoStoredDefault (sf_Var g)) else Inr (g\<lparr>sf_SealedDefault := kept\<rparr>))
          else (case seal of
             None \<Rightarrow> Inl (FieldNoKey (sf_Var g))
           | Some s \<Rightarrow> (case s plain of
               None \<Rightarrow> Inl (FieldSealFailed (sf_Var g))
             | Some sealed \<Rightarrow> Inr (g\<lparr>sf_SealedDefault := sealed\<rparr>)))
      | _ \<Rightarrow> Inl (FieldDefaultNotText (sf_Var f)))"

fun SealDefaults :: "(string \<Rightarrow> string option) option \<Rightarrow> survey_field list \<Rightarrow> survey_field list \<Rightarrow>
    field_error + survey_field list" where
  "SealDefaults seal existing [] = Inr []"
| "SealDefaults seal existing (f # fs) =
     (case seal_field seal existing f of
        Inl e \<Rightarrow> Inl e
      | Inr g \<Rightarrow> map_sum (\<lambda>e. e) (\<lambda>gs. g # gs) (SealDefaults seal existing fs))"

definition mask_field :: "survey_field \<Rightarrow> survey_field" where
  "mask_field f =
     (let g = (if Secret f
               then f\<lparr>sf_Default := (if sf_SealedDefault f \<noteq> [] then Some (AnyStr Marker) else None)\<rparr>
               else f)
      in g\<lparr>sf_SealedDefault := []\<rparr>)"

definition MaskSurvey :: "survey_field list \<Rightarrow> survey_field list" where
  "MaskSurvey fs = map mask_field fs"

definition validate_field :: "regex_lib \<Rightarrow> survey_field \<Rightarrow> field_error option" where
  "validate_field re f =
     (if text_type (sf_Type f) then
        (if Secret f \<and> sf_Default f \<noteq> None then Some (FieldPlainSecret (sf_Var f))
         else if sf_Pattern f \<noteq> [] \<and> re (anchorPattern (sf_Pattern f)) = None then Some (FieldBadPattern (sf_Var f))
         else if sf_MinLength f > 0 \<and> sf_MaxLength f > 0 \<and> sf_MinLength f > sf_MaxLength f
         then Some (FieldLengths (sf_Var f))
         else None)
      else if sf_Type f = FieldInt then
        (case (sf_Min f, sf_Max f) of
           (Some lo, Some hi) \<Rightarrow> if lo > hi then Some (FieldBounds (sf_Var f)) else None
         | _ \<Rightarrow> None)
      else if sf_Type f = FieldBool then None
      else if sf_Type f = FieldChoice then
        (if sf_Choices f = [] then Some (FieldNoChoices (sf_Var f)) else None)
      else Some (FieldUnknownType (sf_Var f) (sf_Type f)))"

fun ValidateSurvey :: "regex_lib \<Rightarrow> survey_field list \<Rightarrow> field_error option" where
  "ValidateSurvey re [] = None"
| "ValidateSurvey re (f # fs) =
     (case validate_field re f of Some e \<Rightarrow> Some e | None \<Rightarrow> ValidateSurvey re fs)"

section \<open>The store\<close>

datatype template_error = ErrTemplateNotFound | ErrAWXConflict

record awx_binding =
  ab_AWXID :: int
  ab_TemplateID :: string
  ab_Organization :: string
  ab_Name :: string
  ab_CreatedAt :: gotime
  ab_UpdatedAt :: gotime
  ab_LastCalledAt :: "gotime option"

record template_store =
  tst_templates :: "string \<rightharpoonup> template"
  tst_awx :: "int \<rightharpoonup> awx_binding"

definition NewTemplateStore :: template_store where
  "NewTemplateStore = \<lparr>tst_templates = Map.empty, tst_awx = Map.empty\<rparr>"

definition SaveTemplate :: "template \<Rightarrow> template_store \<Rightarrow> template_store" where
  "SaveTemplate t st = st\<lparr>tst_templates := (tst_templates st)(tp_ID t \<mapsto> t)\<rparr>"

definition UpdateTemplate :: "template \<Rightarrow> template_store \<Rightarrow> template_error option \<times> template_store" where
  "UpdateTemplate t st =
     (case tst_templates st (tp_ID t) of
        None \<Rightarrow> (Some ErrTemplateNotFound, st)
      | Some existing \<Rightarrow>
          (None, SaveTemplate (t\<lparr>tp_CreatedAt := tp_CreatedAt existing,
                                 tp_HostConfigKey := tp_HostConfigKey existing\<rparr>) st))"

definition SetHostConfigKey :: "string \<Rightarrow> string \<Rightarrow> template_store \<Rightarrow> template_error option \<times> template_store" where
  "SetHostConfigKey i sealed st =
     (case tst_templates st i of
        None \<Rightarrow> (Some ErrTemplateNotFound, st)
      | Some t \<Rightarrow> (None, st\<lparr>tst_templates := (tst_templates st)(i \<mapsto> t\<lparr>tp_HostConfigKey := sealed\<rparr>)\<rparr>))"

definition GetTemplate :: "string \<Rightarrow> template_store \<Rightarrow> template_error + template" where
  "GetTemplate i st = (case tst_templates st i of None \<Rightarrow> Inl ErrTemplateNotFound | Some t \<Rightarrow> Inr t)"

definition ListTemplates :: "string list \<Rightarrow> template_store \<Rightarrow> template list" where
  "ListTemplates ord st =
     sort_key (\<lambda>t. (tp_CreatedAt t, tp_ID t)) (List.map_filter (tst_templates st) ord)"

definition DeleteTemplate :: "string \<Rightarrow> template_store \<Rightarrow> template_error option \<times> template_store" where
  "DeleteTemplate i st =
     (case tst_templates st i of
        None \<Rightarrow> (Some ErrTemplateNotFound, st)
      | Some _ \<Rightarrow> (None, st\<lparr>tst_templates := (tst_templates st)(i := None)\<rparr>))"

definition SameObject :: "awx_binding \<Rightarrow> string \<Rightarrow> string \<Rightarrow> bool" where
  "SameObject b org name \<longleftrightarrow> ab_Organization b = org \<and> ab_Name b = name"

definition BindAWX :: "awx_binding \<Rightarrow> template_store \<Rightarrow> template_error option \<times> template_store" where
  "BindAWX b st =
     (case tst_awx st (ab_AWXID b) of
        None \<Rightarrow> (None, st\<lparr>tst_awx := (tst_awx st)(ab_AWXID b \<mapsto> b)\<rparr>)
      | Some existing \<Rightarrow>
          if \<not> SameObject existing (ab_Organization b) (ab_Name b) then (Some ErrAWXConflict, st)
          else (None, st\<lparr>tst_awx := (tst_awx st)(ab_AWXID b \<mapsto>
            existing\<lparr>ab_TemplateID := ab_TemplateID b, ab_UpdatedAt := ab_UpdatedAt b\<rparr>)\<rparr>))"

definition UnbindAWX :: "awx_binding \<Rightarrow> template_store \<Rightarrow> template_store" where
  "UnbindAWX b st =
     (case tst_awx st (ab_AWXID b) of
        None \<Rightarrow> st
      | Some held \<Rightarrow>
          if SameObject held (ab_Organization b) (ab_Name b) \<and> ab_TemplateID held = ab_TemplateID b
          then st\<lparr>tst_awx := (tst_awx st)(ab_AWXID b := None)\<rparr> else st)"

definition AWXBindingFor :: "int \<Rightarrow> template_store \<Rightarrow> template_error + awx_binding" where
  "AWXBindingFor i st = (case tst_awx st i of None \<Rightarrow> Inl ErrTemplateNotFound | Some b \<Rightarrow> Inr b)"

definition AWXBindings :: "int list \<Rightarrow> template_store \<Rightarrow> awx_binding list" where
  "AWXBindings ord st = sort_key ab_AWXID (List.map_filter (tst_awx st) ord)"

definition MarkAWXCalled :: "int \<Rightarrow> gotime \<Rightarrow> template_store \<Rightarrow> template_error option \<times> template_store" where
  "MarkAWXCalled i at st =
     (case tst_awx st i of
        None \<Rightarrow> (Some ErrTemplateNotFound, st)
      | Some b \<Rightarrow> (None, st\<lparr>tst_awx := (tst_awx st)(i \<mapsto> b\<lparr>ab_LastCalledAt := Some at\<rparr>)\<rparr>))"

text \<open>A claim of AWX ids: \<open>Inr\<close> the bindings claimed, which the release gives back, and \<open>Inl\<close> the
  conflict once they have been. The other operations run whole, so the model is one pass.\<close>

definition release_claims :: "awx_binding list \<Rightarrow> template_store \<Rightarrow> template_store" where
  "release_claims claimed st = fold UnbindAWX claimed st"

fun claim_ids :: "awx_binding list \<Rightarrow> awx_binding list \<Rightarrow> template_store \<Rightarrow>
    (template_error + awx_binding list) \<times> template_store" where
  "claim_ids claimed [] st = (Inr claimed, st)"
| "claim_ids claimed (b # bs) st =
     (case AWXBindingFor (ab_AWXID b) st of
        Inr held \<Rightarrow>
          if SameObject held (ab_Organization b) (ab_Name b) then claim_ids claimed bs st
          else (Inl ErrAWXConflict, release_claims claimed st)
      | Inl _ \<Rightarrow>
          (case BindAWX b st of
             (Some e, st') \<Rightarrow> (Inl e, release_claims claimed st')
           | (None, st') \<Rightarrow> claim_ids (claimed @ [b]) bs st'))"

definition ClaimAWX :: "awx_binding list \<Rightarrow> template_store \<Rightarrow>
    (template_error + awx_binding list) \<times> template_store" where
  "ClaimAWX bs st = claim_ids [] bs st"

section \<open>Callbacks\<close>

definition CallbackLimitIntersect :: string where "CallbackLimitIntersect = ''intersect''"
definition CallbackLimitReplace :: string where "CallbackLimitReplace = ''replace''"

definition NormalizeCallbackLimit :: "string \<Rightarrow> string" where
  "NormalizeCallbackLimit mode = (if mode = [] then CallbackLimitIntersect else mode)"

definition ValidCallbackLimit :: "string \<Rightarrow> bool" where
  "ValidCallbackLimit mode \<longleftrightarrow> mode \<in> {[], CallbackLimitIntersect, CallbackLimitReplace}"

definition AWXCallbackPath :: "int \<Rightarrow> string" where
  "AWXCallbackPath i = ''/api/v2/job_templates/'' @ FormatInt i @ ''/callback/''"

definition HostConfigKeyMatches :: "string \<Rightarrow> string \<Rightarrow> bool" where
  "HostConfigKeyMatches key presented =
     (let p = TrimSpace presented in key \<noteq> [] \<and> p \<noteq> [] \<and> key = p)"

end
