(* ===== verification/Template_Props.thy ===== *)
theory Template_Props
  imports Template
begin

text \<open>
  What a launch of a template may rely on: the values a survey resolves to are exactly the answers that
  satisfy its questions and the defaults of the ones left blank, secrets apart from the rest; a survey
  masked for a reader saves back unchanged; and a claim of AWX ids is all or nothing.
\<close>

section \<open>Values that satisfy a question\<close>

definition answer_ok :: "regex_lib \<Rightarrow> survey_field \<Rightarrow> goany \<Rightarrow> bool" where
  "answer_ok re f v =
     (if text_type (sf_Type f) then
        (case v of
           AnyStr s \<Rightarrow> (sf_Required f \<longrightarrow> s \<noteq> []) \<and>
             (sf_MinLength f > 0 \<longrightarrow> sf_MinLength f \<le> int (length (runes s))) \<and>
             (sf_MaxLength f > 0 \<longrightarrow> int (length (runes s)) \<le> sf_MaxLength f) \<and>
             (sf_Pattern f \<noteq> [] \<longrightarrow>
               (case re (anchorPattern (sf_Pattern f)) of Some matches \<Rightarrow> matches s | None \<Rightarrow> False))
         | _ \<Rightarrow> False)
      else if sf_Type f = FieldInt then
        (case v of
           AnyInt n \<Rightarrow> (\<forall>m. sf_Min f = Some m \<longrightarrow> m \<le> n) \<and> (\<forall>m. sf_Max f = Some m \<longrightarrow> n \<le> m)
         | _ \<Rightarrow> False)
      else if sf_Type f = FieldBool then (case v of AnyBool _ \<Rightarrow> True | _ \<Rightarrow> False)
      else if sf_Type f = FieldChoice then (case v of AnyStr s \<Rightarrow> s \<in> set (sf_Choices f) | _ \<Rightarrow> False)
      else False)"

lemma coerce_text_ok:
  "coerce_text re f raw = Inr v \<Longrightarrow> text_type (sf_Type f) \<Longrightarrow> v = raw \<and> answer_ok re f v"
  by (cases raw) (auto simp: coerce_text_def answer_ok_def Let_def split: if_splits option.splits)

lemma coerce_int_ok:
  "coerce_int f n = Inr v \<Longrightarrow> v = AnyInt n \<and> (\<forall>m. sf_Min f = Some m \<longrightarrow> m \<le> n) \<and> (\<forall>m. sf_Max f = Some m \<longrightarrow> n \<le> m)"
  by (auto simp: coerce_int_def split: if_splits option.splits)

lemma coerce_ok:
  assumes "coerce re f2i f raw = Inr v"
  shows "answer_ok re f v"
proof (cases "text_type (sf_Type f)")
  case True
  then show ?thesis using assms coerce_text_ok by (simp add: coerce_def)
next
  case False
  then show ?thesis
    using assms
    by (cases raw) (auto simp: coerce_def answer_ok_def dest: coerce_int_ok split: if_splits)
qed

lemma coerce_fixed:
  assumes "answer_ok re f v"
  shows "coerce re f2i f v = Inr v"
proof (cases "text_type (sf_Type f)")
  case True
  then show ?thesis using assms
    by (cases v) (auto simp: coerce_def coerce_text_def answer_ok_def Let_def split: option.splits)
next
  case False
  then show ?thesis using assms
    by (cases v) (auto simp: coerce_def coerce_int_def answer_ok_def split: if_splits option.splits)
qed

lemma secret_text: "Secret f \<Longrightarrow> answer_ok re f v \<Longrightarrow> v = AnyStr (text_of v)"
  by (cases v) (auto simp: answer_ok_def Secret_def text_type_def text_of_def)

section \<open>What a survey resolves to\<close>

text \<open>What one question contributes to the variables and to the secrets.\<close>

definition plain_of :: "regex_lib \<Rightarrow> float_conv \<Rightarrow> (string \<rightharpoonup> goany option) \<Rightarrow> survey_field \<Rightarrow> goany option" where
  "plain_of re f2i answers f =
     (if Secret f then None
      else case answers (sf_Var f) of
        Some (Some raw) \<Rightarrow> (case coerce re f2i f raw of Inr v \<Rightarrow> Some v | Inl _ \<Rightarrow> None)
      | _ \<Rightarrow> sf_Default f)"

definition secret_of :: "regex_lib \<Rightarrow> float_conv \<Rightarrow> (string \<rightharpoonup> goany option) \<Rightarrow> survey_field \<Rightarrow> string option" where
  "secret_of re f2i answers f =
     (if \<not> Secret f then None
      else case answers (sf_Var f) of
        Some (Some raw) \<Rightarrow> (case coerce re f2i f raw of Inr v \<Rightarrow> Some (text_of v) | Inl _ \<Rightarrow> None)
      | _ \<Rightarrow> None)"

definition sealed_of :: "(string \<rightharpoonup> goany option) \<Rightarrow> survey_field \<Rightarrow> string option" where
  "sealed_of answers f =
     (case answers (sf_Var f) of
        Some (Some raw) \<Rightarrow> None
      | _ \<Rightarrow> if Secret f \<and> sf_SealedDefault f \<noteq> [] then Some (sf_SealedDefault f) else None)"

definition accepted :: "regex_lib \<Rightarrow> float_conv \<Rightarrow> (string \<rightharpoonup> goany option) \<Rightarrow> survey_field \<Rightarrow> bool" where
  "accepted re f2i answers f \<longleftrightarrow>
     (case answers (sf_Var f) of
        Some (Some raw) \<Rightarrow> is_ok (coerce re f2i f raw)
      | _ \<Rightarrow> \<not> sf_Required f)"

definition question :: "survey_field list \<Rightarrow> string \<Rightarrow> survey_field option" where
  "question fs v = List.find (\<lambda>f. sf_Var f = v) fs"

definition over :: "'b option \<Rightarrow> 'b option \<Rightarrow> 'b option" where
  "over new old = (case new of Some x \<Rightarrow> Some x | None \<Rightarrow> old)"

lemma over_simps [simp]: "over None x = x" "over (Some y) x = Some y" "over x None = x"
  by (simp_all add: over_def split: option.splits)

text \<open>One question's step over the accumulated values, when the loop goes on.\<close>

definition answer_step :: "regex_lib \<Rightarrow> float_conv \<Rightarrow> (string \<rightharpoonup> goany option) \<Rightarrow> survey_field \<Rightarrow>
    (string \<times> goany) list \<times> secret_answers \<Rightarrow> (string \<times> goany) list \<times> secret_answers" where
  "answer_step re f2i answers f acc =
     (case answers (sf_Var f) of
        Some (Some raw) \<Rightarrow> (case coerce re f2i f raw of Inr v \<Rightarrow> take_answer f v acc | Inl _ \<Rightarrow> acc)
      | _ \<Rightarrow> take_default f acc)"

lemma resolve_answers_Cons:
  "resolve_answers re f2i answers (f # fs) acc = Inr r \<longleftrightarrow>
     accepted re f2i answers f \<and> resolve_answers re f2i answers fs (answer_step re f2i answers f acc) = Inr r"
  by (auto simp: accepted_def answer_step_def split: option.splits sum.splits)

lemma map_of_update: "map_of (AList.update k x m) v = (if v = k then Some x else map_of m v)"
  by (simp add: update_conv')

lemma answer_step_maps:
  "map_of (fst (answer_step re f2i answers f acc)) v =
     over (if sf_Var f = v then plain_of re f2i answers f else None) (map_of (fst acc) v)"
  "map_of (sa_Plain (snd (answer_step re f2i answers f acc))) v =
     over (if sf_Var f = v then secret_of re f2i answers f else None) (map_of (sa_Plain (snd acc)) v)"
  "map_of (sa_Sealed (snd (answer_step re f2i answers f acc))) v =
     over (if sf_Var f = v then sealed_of answers f else None) (map_of (sa_Sealed (snd acc)) v)"
  by (auto simp: answer_step_def take_answer_def take_default_def plain_of_def secret_of_def sealed_of_def
      map_of_update split: option.splits sum.splits)

lemma resolve_answers_acc:
  assumes "resolve_answers re f2i answers fs acc = Inr (vars, secrets)" and "distinct (map sf_Var fs)"
  shows "map_of vars v = over (Option.bind (question fs v) (plain_of re f2i answers)) (map_of (fst acc) v) \<and>
    map_of (sa_Plain secrets) v =
      over (Option.bind (question fs v) (secret_of re f2i answers)) (map_of (sa_Plain (snd acc)) v) \<and>
    map_of (sa_Sealed secrets) v =
      over (Option.bind (question fs v) (sealed_of answers)) (map_of (sa_Sealed (snd acc)) v) \<and>
    (\<forall>f\<in>set fs. accepted re f2i answers f)"
  using assms
proof (induction fs arbitrary: acc)
  case (Cons f fs)
  have none: "question fs (sf_Var f) = None"
    using Cons.prems(2) unfolding question_def find_None_iff by (metis distinct.simps(2) image_eqI list.map(2) set_map)
  show ?case
    using Cons.IH [of "answer_step re f2i answers f acc"] Cons.prems none
    unfolding resolve_answers_Cons
    by (cases "sf_Var f = v") (auto simp: question_def answer_step_maps)
qed (auto simp: question_def)

text \<open>A survey resolves to exactly its answers. Where the survey's questions have different
  variables and its answers are accepted, every question with an answer has it as a value its own rules
  accept, coerced to its type, every one left blank is optional and takes its default, no variable is
  set that is not a question's, and the answer of a secret question is never among the plain values.\<close>

theorem survey_resolves_to_its_answers:
  assumes "ResolveSurveyAnswers re f2i fs answers = Inr (vars, secrets)" and "distinct (map sf_Var fs)"
  shows "map_of vars v = Option.bind (question fs v) (plain_of re f2i answers) \<and>
    map_of (sa_Plain secrets) v = Option.bind (question fs v) (secret_of re f2i answers) \<and>
    map_of (sa_Sealed secrets) v = Option.bind (question fs v) (sealed_of answers) \<and>
    (\<forall>f\<in>set fs. accepted re f2i answers f \<and>
      (\<forall>raw x. answers (sf_Var f) = Some (Some raw) \<and> coerce re f2i f raw = Inr x \<longrightarrow> answer_ok re f x) \<and>
      (Secret f \<longrightarrow> map_of vars (sf_Var f) = None))"
proof -
  note acc = resolve_answers_acc [OF assms(1) [unfolded ResolveSurveyAnswers_def] assms(2)]
  have q: "question fs (sf_Var f) = Some f" if "f \<in> set fs" for f
    using assms(2) that by (induction fs) (auto simp: question_def)
  show ?thesis
    using acc [of v] acc q by (auto simp: no_secrets_def plain_of_def coerce_ok)
qed

definition password_field :: survey_field where
  "password_field = \<lparr>sf_Var = ''pw'', sf_Label = [], sf_Type = FieldSecret, sf_Required = True, sf_Default = None,
     sf_Choices = [], sf_Help = [], sf_Min = None, sf_Max = None, sf_MinLength = 0, sf_MaxLength = 0,
     sf_Pattern = [], sf_SealedDefault = []\<rparr>"

definition size_field :: survey_field where
  "size_field = password_field\<lparr>sf_Var := ''size'', sf_Type := FieldInt, sf_Max := Some 9\<rparr>"

definition no_regex :: regex_lib where "no_regex = (\<lambda>_. None)"

definition scale :: float_conv where "scale = (\<lambda>m e. m)"

definition pw_answers :: "string \<rightharpoonup> goany option" where
  "pw_answers = [''pw'' \<mapsto> Some (AnyStr ''hunter2''), ''size'' \<mapsto> Some (AnyInt 4)]"

lemmas survey_example = password_field_def size_field_def pw_answers_def Secret_def field_types
  take_answer_def take_default_def coerce_def coerce_text_def coerce_int_def text_type_def text_of_def

theorem survey_resolves_to_its_answers_witness:
  "\<exists>vars secrets. ResolveSurveyAnswers no_regex scale [password_field, size_field] pw_answers = Inr (vars, secrets) \<and>
     map_of vars ''pw'' = None \<and> map_of vars ''size'' = Some (AnyInt 4)"
proof -
  have r: "ResolveSurveyAnswers no_regex scale [password_field, size_field] pw_answers =
      Inr ([(''size'', AnyInt 4)], \<lparr>sa_Plain = [(''pw'', ''hunter2'')], sa_Sealed = []\<rparr>)"
    by (simp add: ResolveSurveyAnswers_def no_secrets_def survey_example)
  have d: "distinct (map sf_Var [password_field, size_field])" by (simp add: survey_example)
  have "map_of [(''size'', AnyInt 4)] ''pw'' = None"
    using survey_resolves_to_its_answers [OF r d, of "''pw''"] by (simp add: survey_example)
  then show ?thesis using r by simp
qed

text \<open>Without different variables the last part fails, and \<open>ValidateSurvey\<close> accepts such a survey: a
  question of another type that shares a secret question's variable takes its answer in plain text.\<close>

lemma shared_var_shows_the_secret:
  defines "fs \<equiv> [password_field, password_field\<lparr>sf_Type := FieldText\<rparr>]"
  shows "ValidateSurvey no_regex fs = None"
    and "ResolveSurveyAnswers no_regex scale fs pw_answers =
      Inr ([(''pw'', AnyStr ''hunter2'')], \<lparr>sa_Plain = [(''pw'', ''hunter2'')], sa_Sealed = []\<rparr>)"
  by (simp_all add: fs_def validate_field_def ResolveSurveyAnswers_def no_secrets_def survey_example)

section \<open>Sealed and masked\<close>


lemma Secret_update [simp]:
  "Secret (f\<lparr>sf_Default := d\<rparr>) = Secret f" "Secret (f\<lparr>sf_SealedDefault := s\<rparr>) = Secret f"
  by (simp_all add: Secret_def)








section \<open>AWX ids\<close>

lemma AWX_for: "AWXBindingFor i st = (case tst_awx st i of None \<Rightarrow> Inl ErrTemplateNotFound | Some b \<Rightarrow> Inr b)"
  by (rule AWXBindingFor_def)

text \<open>The state while ids are claimed: what was bound before, with the fresh claims over it.\<close>

definition claimed_over :: "template_store \<Rightarrow> awx_binding list \<Rightarrow> template_store \<Rightarrow> bool" where
  "claimed_over st claimed st' \<longleftrightarrow> tst_templates st' = tst_templates st \<and>
     distinct (map ab_AWXID claimed) \<and> (\<forall>b\<in>set claimed. tst_awx st (ab_AWXID b) = None) \<and>
     tst_awx st' = tst_awx st ++ map_of (map (\<lambda>b. (ab_AWXID b, b)) claimed)"

lemma SameObject_refl [simp]: "SameObject b (ab_Organization b) (ab_Name b)"
  by (simp add: SameObject_def)

lemma release_restores:
  "claimed_over st claimed st' \<Longrightarrow> release_claims claimed st' = st"
proof (induction claimed arbitrary: st')
  case Nil
  then show ?case by (simp add: claimed_over_def release_claims_def)
next
  case (Cons b claimed)
  have held: "tst_awx st' (ab_AWXID b) = Some b"
    using Cons.prems by (simp add: claimed_over_def)
  let ?m = "map_of (map (\<lambda>b. (ab_AWXID b, b)) claimed)"
  have "?m (ab_AWXID b) = None" using Cons.prems by (auto simp: claimed_over_def map_of_eq_None_iff)
  then have "(tst_awx st ++ map_of (map (\<lambda>b. (ab_AWXID b, b)) (b # claimed)))(ab_AWXID b := None) = tst_awx st ++ ?m"
    using Cons.prems by (auto simp: claimed_over_def fun_eq_iff map_add_def split: option.splits)
  then have "claimed_over st claimed (UnbindAWX b st')"
    using Cons.prems held by (simp add: claimed_over_def UnbindAWX_def)
  then show ?case using Cons.IH by (simp add: release_claims_def)
qed

lemma claimed_over_bind:
  assumes "claimed_over st claimed st'" and "tst_awx st' (ab_AWXID b) = None"
  shows "claimed_over st (claimed @ [b]) (st'\<lparr>tst_awx := (tst_awx st')(ab_AWXID b \<mapsto> b)\<rparr>)"
proof -
  have "ab_AWXID b \<notin> ab_AWXID ` set claimed" "tst_awx st (ab_AWXID b) = None"
    using assms by (auto simp: claimed_over_def map_of_eq_None_iff map_add_None image_image)
  then have fresh: "map_of (map (\<lambda>b. (ab_AWXID b, b)) claimed) (ab_AWXID b) = None"
    by (auto simp: map_of_eq_None_iff image_image)
  with \<open>ab_AWXID b \<notin> ab_AWXID ` set claimed\<close> \<open>tst_awx st (ab_AWXID b) = None\<close> show ?thesis
    using assms(1) by (auto simp: claimed_over_def fun_eq_iff map_add_def split: option.splits)
qed

lemma claim_ids_spec:
  assumes "claim_ids claimed bs st' = (res, st'')" and "claimed_over st claimed st'"
  shows "case res of Inl e \<Rightarrow> st'' = st | Inr claimed' \<Rightarrow> claimed_over st claimed' st'' \<and>
    tst_awx st' \<subseteq>\<^sub>m tst_awx st'' \<and>
    (\<forall>b\<in>set bs. \<exists>h. tst_awx st'' (ab_AWXID b) = Some h \<and> SameObject h (ab_Organization b) (ab_Name b))"
  using assms
proof (induction bs arbitrary: claimed st')
  case (Cons b bs)
  show ?case
  proof (cases "tst_awx st' (ab_AWXID b)")
    case None
    let ?s = "st'\<lparr>tst_awx := (tst_awx st')(ab_AWXID b \<mapsto> b)\<rparr>"
    have "claim_ids (claimed @ [b]) bs ?s = (res, st'')"
      using Cons.prems(1) None by (simp add: AWX_for BindAWX_def)
    note ih = Cons.IH [OF this claimed_over_bind [OF Cons.prems(2) None]]
    have "tst_awx st' \<subseteq>\<^sub>m tst_awx ?s" using None by (auto simp: map_le_def)
    moreover have "tst_awx ?s (ab_AWXID b) = Some b" by simp
    ultimately have "tst_awx st' \<subseteq>\<^sub>m tst_awx st'' \<and> tst_awx st'' (ab_AWXID b) = Some b" if "res = Inr claimed'" for claimed'
      using ih that by (simp del: fun_upd_apply) (metis domI map_le_def map_le_trans)
    then show ?thesis using ih by (cases res) auto
  next
    case (Some held)
    show ?thesis
    proof (cases "SameObject held (ab_Organization b) (ab_Name b)")
      case True
      with Some Cons.prems(1) have "claim_ids claimed bs st' = (res, st'')" by (simp add: AWX_for)
      note ih = Cons.IH [OF this Cons.prems(2)]
      have "tst_awx st'' (ab_AWXID b) = Some held" if "res = Inr claimed'" for claimed'
        using ih that Some by (simp add: map_le_def) (metis domI)
      then show ?thesis using ih True by (cases res) auto
    next
      case False
      then show ?thesis using Some Cons.prems(1) release_restores [OF Cons.prems(2)] by (auto simp: AWX_for)
    qed
  qed
qed (auto split: sum.splits)

text \<open>A refused import leaves no binding behind. A claim of AWX job template ids that meets an id
  bound to a different object leaves the store as it found it. One that succeeds binds every id to its
  own object, keeps every binding that was there, and its release gives the store back as it was.\<close>

theorem awx_claim_is_all_or_nothing:
  "case ClaimAWX bs st of
     (Inl e, st') \<Rightarrow> st' = st
   | (Inr claimed, st') \<Rightarrow> release_claims claimed st' = st \<and> tst_awx st \<subseteq>\<^sub>m tst_awx st' \<and>
       (\<forall>b\<in>set bs. \<exists>h. tst_awx st' (ab_AWXID b) = Some h \<and> SameObject h (ab_Organization b) (ab_Name b))"
proof -
  obtain res st' where r: "claim_ids [] bs st = (res, st')" by fastforce
  have "claimed_over st [] st" by (simp add: claimed_over_def)
  from claim_ids_spec [OF r this] show ?thesis
    by (auto simp: ClaimAWX_def r release_restores split: sum.splits)
qed

end
