(* ===== verification/Schedule_Store.thy ===== *)
theory Schedule_Store
  imports Pipeline GoStrings "HOL-Library.Product_Lexorder" "HOL-Library.List_Lexorder" "HOL-Library.Char_ord"
begin

text \<open>
  Schedules and their in-memory store (\<open>internal/schedule/schedule.go\<close>, \<open>store.go\<close>). Every method of
  the store is one locked step: a function of the state, which is the rows and, kept apart from them,
  the occurrence each row marks in flight. A loop over a map takes the order it visits, and a method
  that reads the clock takes the reading.
\<close>

record schedule =
  sc_ID :: string
  sc_Name :: string
  sc_Cron :: string
  sc_RRule :: string
  sc_Timezone :: string
  sc_SpringForward :: string
  sc_Playbook :: string
  sc_Inventory :: string
  sc_Shards :: int
  sc_Steps :: "pipeline_step list"
  sc_TemplateID :: string
  sc_OrgID :: string
  sc_Enabled :: bool
  sc_CreatedAt :: gotime
  sc_NextRunAt :: "gotime option"
  sc_CreatedBy :: string
  sc_LastRunAt :: "gotime option"
  sc_LastRunID :: string
  sc_LastError :: string
  sc_LastSkip :: string
  sc_SkippedFires :: int

record in_flight =
  fl_ScheduleID :: string
  fl_Occurrence :: gotime

record in_flight_mark =
  fm_occurrence :: gotime
  fm_since :: gotime

record schedule_store =
  ss_schedules :: "string \<rightharpoonup> schedule"
  ss_inflight :: "string \<rightharpoonup> in_flight_mark"

datatype schedule_error = ErrScheduleNotFound

definition NewScheduleStore :: schedule_store where
  "NewScheduleStore = \<lparr>ss_schedules = Map.empty, ss_inflight = Map.empty\<rparr>"

definition put_schedule :: "string \<Rightarrow> schedule \<Rightarrow> schedule_store \<Rightarrow> schedule_store" where
  "put_schedule i sc st = st\<lparr>ss_schedules := (ss_schedules st)(i \<mapsto> sc)\<rparr>"

section \<open>Rows\<close>

definition SaveSchedule :: "schedule \<Rightarrow> schedule_store \<Rightarrow> schedule_store" where
  "SaveSchedule s st = put_schedule (sc_ID s) s st"

definition UpdateSchedule :: "schedule \<Rightarrow> schedule_store \<Rightarrow> schedule_error option \<times> schedule_store" where
  "UpdateSchedule s st =
     (case ss_schedules st (sc_ID s) of
        None \<Rightarrow> (Some ErrScheduleNotFound, st)
      | Some _ \<Rightarrow> (None, put_schedule (sc_ID s) s st))"

definition GetSchedule :: "string \<Rightarrow> schedule_store \<Rightarrow> schedule_error + schedule" where
  "GetSchedule i st =
     (case ss_schedules st i of None \<Rightarrow> Inl ErrScheduleNotFound | Some s \<Rightarrow> Inr s)"

text \<open>\<open>ord\<close> is the order the loop visits the map in. The comparison orders by creation, then by id.\<close>

definition ListSchedules :: "string list \<Rightarrow> schedule_store \<Rightarrow> schedule list" where
  "ListSchedules ord st =
     sort_key (\<lambda>s. (sc_CreatedAt s, sc_ID s)) (List.map_filter (ss_schedules st) ord)"

definition DeleteSchedule :: "string \<Rightarrow> schedule_store \<Rightarrow> schedule_error option \<times> schedule_store" where
  "DeleteSchedule i st =
     (case ss_schedules st i of
        None \<Rightarrow> (Some ErrScheduleNotFound, st)
      | Some _ \<Rightarrow> (None, st\<lparr>ss_schedules := (ss_schedules st)(i := None),
                          ss_inflight := (ss_inflight st)(i := None)\<rparr>))"

definition RecordFire :: "string \<Rightarrow> gotime \<Rightarrow> string \<Rightarrow> string \<Rightarrow> schedule_store \<Rightarrow> schedule_store" where
  "RecordFire i at runID failure st =
     (case ss_schedules st i of
        None \<Rightarrow> st
      | Some sc \<Rightarrow> put_schedule i (sc\<lparr>sc_LastRunAt := Some at,
          sc_LastRunID := (if runID \<noteq> [] then runID else sc_LastRunID sc),
          sc_LastError := SafeText failure, sc_LastSkip := [], sc_SkippedFires := 0\<rparr>) st)"

definition RecordSkip :: "string \<Rightarrow> gotime \<Rightarrow> string \<Rightarrow> schedule_store \<Rightarrow> schedule_store" where
  "RecordSkip i at reason st =
     (case ss_schedules st i of
        None \<Rightarrow> st
      | Some sc \<Rightarrow> put_schedule i (sc\<lparr>sc_LastRunAt := Some at, sc_LastError := [],
          sc_LastSkip := SafeText reason, sc_SkippedFires := sc_SkippedFires sc + 1\<rparr>) st)"

section \<open>Claims\<close>

text \<open>A row still expects the occurrence a claim read.\<close>

definition expects :: "string \<Rightarrow> gotime \<Rightarrow> schedule_store \<Rightarrow> bool" where
  "expects i t st \<longleftrightarrow> (\<exists>sc. ss_schedules st i = Some sc \<and> sc_NextRunAt sc = Some t)"

lemma expects_code [code]:
  "expects i t st = (case ss_schedules st i of None \<Rightarrow> False | Some sc \<Rightarrow> sc_NextRunAt sc = Some t)"
  by (auto simp: expects_def split: option.splits)

definition set_next :: "string \<Rightarrow> gotime option \<Rightarrow> schedule_store \<Rightarrow> schedule_store" where
  "set_next i t st =
     (case ss_schedules st i of
        None \<Rightarrow> st | Some sc \<Rightarrow> put_schedule i (sc\<lparr>sc_NextRunAt := t\<rparr>) st)"

definition ClaimDue :: "string \<Rightarrow> gotime \<Rightarrow> gotime \<Rightarrow> schedule_store \<Rightarrow> bool \<times> schedule_store" where
  "ClaimDue i oldNext newNext st =
     (if expects i oldNext st then (True, set_next i (Some newNext) st) else (False, st))"

definition ClaimFinal :: "string \<Rightarrow> gotime \<Rightarrow> schedule_store \<Rightarrow> bool \<times> schedule_store" where
  "ClaimFinal i oldNext st =
     (if expects i oldNext st then (True, set_next i None st) else (False, st))"

definition Release :: "string \<Rightarrow> gotime option \<Rightarrow> gotime \<Rightarrow> schedule_store \<Rightarrow> bool \<times> schedule_store" where
  "Release i claimed due st =
     (case ss_schedules st i of
        None \<Rightarrow> (False, st)
      | Some sc \<Rightarrow>
          if sc_NextRunAt sc = claimed then (True, set_next i (Some due) st) else (False, st))"

definition ClaimFire ::
  "gotime \<Rightarrow> string \<Rightarrow> gotime \<Rightarrow> gotime option \<Rightarrow> schedule_store \<Rightarrow> bool \<times> schedule_store" where
  "ClaimFire clock i oldNext nxt st =
     (if \<not> expects i oldNext st then (False, st)
      else if (case ss_inflight st i of Some mark \<Rightarrow> fm_occurrence mark \<noteq> oldNext | None \<Rightarrow> False)
      then (False, st)
      else (True, (set_next i nxt st)\<lparr>ss_inflight :=
        (ss_inflight st)(i \<mapsto> \<lparr>fm_occurrence = oldNext, fm_since = clock\<rparr>)\<rparr>))"

section \<open>The sweep of in-flight occurrences\<close>

definition SortInFlight :: "in_flight list \<Rightarrow> in_flight list" where
  "SortInFlight = sort_key (\<lambda>x. (fl_Occurrence x, fl_ScheduleID x))"

definition take_one :: "gotime \<Rightarrow> duration \<Rightarrow> string \<Rightarrow>
    in_flight list \<times> (string \<rightharpoonup> in_flight_mark) \<Rightarrow> in_flight list \<times> (string \<rightharpoonup> in_flight_mark)" where
  "take_one clock grace i acc =
     (case snd acc i of
        None \<Rightarrow> acc
      | Some mark \<Rightarrow>
          if clock - fm_since mark < grace then acc
          else (fst acc @ [\<lparr>fl_ScheduleID = i, fl_Occurrence = fm_occurrence mark\<rparr>],
                (snd acc)(i \<mapsto> \<lparr>fm_occurrence = fm_occurrence mark, fm_since = clock\<rparr>)))"

definition TakeInFlight ::
  "gotime \<Rightarrow> string list \<Rightarrow> duration \<Rightarrow> schedule_store \<Rightarrow> in_flight list \<times> schedule_store" where
  "TakeInFlight clock ord grace st =
     (let (out, marks) = fold (take_one clock grace) ord ([], ss_inflight st)
      in (SortInFlight out, st\<lparr>ss_inflight := marks\<rparr>))"

definition SettleInFlight :: "string \<Rightarrow> gotime \<Rightarrow> schedule_store \<Rightarrow> schedule_store" where
  "SettleInFlight i t st =
     (case ss_inflight st i of
        None \<Rightarrow> st
      | Some mark \<Rightarrow>
          if fm_occurrence mark = t then st\<lparr>ss_inflight := (ss_inflight st)(i := None)\<rparr> else st)"

section \<open>Rows and marks after each operation\<close>

lemma schedules_put [simp]: "ss_schedules (put_schedule i sc st) = (ss_schedules st)(i \<mapsto> sc)"
  and inflight_put [simp]: "ss_inflight (put_schedule i sc st) = ss_inflight st"
  by (simp_all add: put_schedule_def)

lemma inflight_set_next [simp]: "ss_inflight (set_next i t st) = ss_inflight st"
  by (simp add: set_next_def split: option.splits)

text \<open>The next fire time of a row, and the occurrence it marks in flight.\<close>

definition next_of :: "string \<Rightarrow> schedule_store \<Rightarrow> gotime option" where
  "next_of i st = Option.bind (ss_schedules st i) sc_NextRunAt"

definition mark_of :: "string \<Rightarrow> schedule_store \<Rightarrow> gotime option" where
  "mark_of i st = map_option fm_occurrence (ss_inflight st i)"

lemma expects_next: "expects i t st \<longleftrightarrow> next_of i st = Some t"
  by (auto simp: expects_def next_of_def split: Option.bind_splits)

lemma next_put [simp]: "next_of j (put_schedule i sc st) = (if j = i then sc_NextRunAt sc else next_of j st)"
  by (simp add: next_of_def)

lemma next_set_next: "next_of j (set_next i t st) = (if j = i \<and> ss_schedules st i \<noteq> None then t else next_of j st)"
  by (auto simp: set_next_def next_of_def split: option.splits)

lemma next_Some_row: "next_of i st = Some t \<Longrightarrow> ss_schedules st i \<noteq> None"
  by (auto simp: next_of_def bind_eq_Some_conv)

lemma take_one_marks:
  "map_option fm_occurrence (snd (take_one clock grace i acc) j) = map_option fm_occurrence (snd acc j)"
  by (auto simp: take_one_def split: option.splits)

lemma fold_take_marks:
  "map_option fm_occurrence (snd (fold (take_one clock grace) ord acc) j) = map_option fm_occurrence (snd acc j)"
  by (induction ord arbitrary: acc) (simp_all add: take_one_marks)

lemma TakeInFlight_frame [simp]:
  "ss_schedules (snd (TakeInFlight clock ord grace st)) = ss_schedules st"
  "mark_of i (snd (TakeInFlight clock ord grace st)) = mark_of i st"
  using fold_take_marks [of clock grace ord "([], ss_inflight st)" i]
  by (auto simp: TakeInFlight_def mark_of_def split: prod.splits)

text \<open>Which marks a sweep takes: over an order that visits a map once, the overdue ones, each
  stamped again with the sweep's clock.\<close>

definition overdue :: "gotime \<Rightarrow> duration \<Rightarrow> (string \<rightharpoonup> in_flight_mark) \<Rightarrow> string \<Rightarrow> in_flight option" where
  "overdue clock grace marks i =
     (case marks i of
        None \<Rightarrow> None
      | Some mark \<Rightarrow> if clock - fm_since mark < grace then None
          else Some \<lparr>fl_ScheduleID = i, fl_Occurrence = fm_occurrence mark\<rparr>)"

lemma map_filter_agree: "(\<And>x. x \<in> set xs \<Longrightarrow> f x = g x) \<Longrightarrow> List.map_filter f xs = List.map_filter g xs"
  by (induction xs) (auto simp: map_filter_simps split: option.splits)

lemma take_one_eq:
  "take_one clock grace i acc =
     (case overdue clock grace (snd acc) i of
        None \<Rightarrow> acc
      | Some x \<Rightarrow> (fst acc @ [x],
          (snd acc)(i \<mapsto> \<lparr>fm_occurrence = fl_Occurrence x, fm_since = clock\<rparr>)))"
  by (simp add: take_one_def overdue_def split: option.splits)

lemma fold_take_one:
  "distinct ord \<Longrightarrow> fold (take_one clock grace) ord acc =
     (fst acc @ List.map_filter (overdue clock grace (snd acc)) ord,
      (\<lambda>j. if j \<in> set ord then (case overdue clock grace (snd acc) j of
             Some x \<Rightarrow> Some \<lparr>fm_occurrence = fl_Occurrence x, fm_since = clock\<rparr> | None \<Rightarrow> snd acc j)
           else snd acc j))"
proof (induction ord arbitrary: acc)
  case (Cons i ord)
  let ?acc = "take_one clock grace i acc"
  have same: "snd ?acc j = snd acc j" if "j \<noteq> i" for j
    using that by (simp add: take_one_def split: option.splits)
  then have other: "overdue clock grace (snd ?acc) j = overdue clock grace (snd acc) j" if "j \<noteq> i" for j
    using that by (simp add: overdue_def)
  have "List.map_filter (overdue clock grace (snd ?acc)) ord = List.map_filter (overdue clock grace (snd acc)) ord"
    by (rule map_filter_agree, rule other) (use Cons.prems in auto)
  then show ?case
    using Cons.IH [of ?acc] Cons.prems same other
    by (auto simp: map_filter_simps take_one_eq fun_eq_iff split: option.splits)
qed (simp add: map_filter_simps)

lemma overdue_Some:
  "overdue clock grace marks i = Some x \<longleftrightarrow> (\<exists>mark. marks i = Some mark \<and> clock - fm_since mark \<ge> grace \<and>
     x = \<lparr>fl_ScheduleID = i, fl_Occurrence = fm_occurrence mark\<rparr>)"
  by (auto simp: overdue_def split: option.splits)

lemma TakeInFlight_out:
  assumes "iterates ord (ss_inflight st)"
  shows "x \<in> set (fst (TakeInFlight clock ord grace st)) \<longleftrightarrow>
    overdue clock grace (ss_inflight st) (fl_ScheduleID x) = Some x"
proof -
  have "set (fst (TakeInFlight clock ord grace st)) =
      {x. \<exists>i\<in>set ord. overdue clock grace (ss_inflight st) i = Some x}"
    using assms fold_take_one [of ord clock grace "([], ss_inflight st)"]
    by (simp add: TakeInFlight_def SortInFlight_def iterates_def set_map_filter split: prod.splits)
  moreover have "overdue clock grace (ss_inflight st) i = Some x \<Longrightarrow> i = fl_ScheduleID x \<and> i \<in> set ord" for i
    using assms by (auto simp: overdue_Some iterates_def)
  ultimately show ?thesis by auto
qed

lemma TakeInFlight_marks:
  assumes "iterates ord (ss_inflight st)"
  shows "ss_inflight (snd (TakeInFlight clock ord grace st)) i =
    (case overdue clock grace (ss_inflight st) i of
       Some x \<Rightarrow> Some \<lparr>fm_occurrence = fl_Occurrence x, fm_since = clock\<rparr>
     | None \<Rightarrow> ss_inflight st i)"
  using assms fold_take_one [of ord clock grace "([], ss_inflight st)"]
  by (auto simp: TakeInFlight_def iterates_def overdue_def split: prod.splits option.splits)

end
