(* ===== verification/Schedule_Claims.thy ===== *)
theory Schedule_Claims
  imports Schedule_Store
begin

text \<open>
  What the schedule store promises the schedulers that share it, over any sequence of its operations,
  from whichever servers and operators they come: an occurrence is won once for every time it was put
  back, a mark outlives every write but the two that end it, and the sweep takes every overdue mark
  and leaves it alone for another grace.
\<close>

datatype schedule_op =
    OpSave schedule
  | OpUpdate schedule
  | OpDelete string
  | OpRecordFire string gotime string string
  | OpRecordSkip string gotime string
  | OpClaimDue string gotime gotime
  | OpClaimFinal string gotime
  | OpRelease string "gotime option" gotime
  | OpClaimFire gotime string gotime "gotime option"
  | OpTake gotime "string list" duration
  | OpSettle string gotime

fun apply_op :: "schedule_op \<Rightarrow> schedule_store \<Rightarrow> schedule_store" where
  "apply_op (OpSave s) st = SaveSchedule s st"
| "apply_op (OpUpdate s) st = snd (UpdateSchedule s st)"
| "apply_op (OpDelete i) st = snd (DeleteSchedule i st)"
| "apply_op (OpRecordFire i at runID failure) st = RecordFire i at runID failure st"
| "apply_op (OpRecordSkip i at reason) st = RecordSkip i at reason st"
| "apply_op (OpClaimDue i old new) st = snd (ClaimDue i old new st)"
| "apply_op (OpClaimFinal i old) st = snd (ClaimFinal i old st)"
| "apply_op (OpRelease i claimed due) st = snd (Release i claimed due st)"
| "apply_op (OpClaimFire clock i old nxt) st = snd (ClaimFire clock i old nxt st)"
| "apply_op (OpTake clock ord grace) st = snd (TakeInFlight clock ord grace st)"
| "apply_op (OpSettle i t) st = SettleInFlight i t st"

abbreviation apply_ops :: "schedule_op list \<Rightarrow> schedule_store \<Rightarrow> schedule_store" where
  "apply_ops \<equiv> fold apply_op"

section \<open>Claims are exclusive\<close>

text \<open>The claims of an occurrence that won, and the writes that put the row back at it or before it:
  a release that succeeded, and an operator's own edit.\<close>

fun wins :: "string \<Rightarrow> gotime \<Rightarrow> schedule_op \<Rightarrow> schedule_store \<Rightarrow> bool" where
  "wins i t (OpClaimDue j old new) st \<longleftrightarrow> i = j \<and> t = old \<and> fst (ClaimDue j old new st)"
| "wins i t (OpClaimFinal j old) st \<longleftrightarrow> i = j \<and> t = old \<and> fst (ClaimFinal j old st)"
| "wins i t (OpClaimFire clock j old nxt) st \<longleftrightarrow> i = j \<and> t = old \<and> fst (ClaimFire clock j old nxt st)"
| "wins i t _ st \<longleftrightarrow> False"

definition until :: "gotime \<Rightarrow> gotime option \<Rightarrow> bool" where
  "until t nxt \<longleftrightarrow> (case nxt of Some n \<Rightarrow> n \<le> t | None \<Rightarrow> False)"

fun rewinds :: "string \<Rightarrow> gotime \<Rightarrow> schedule_op \<Rightarrow> schedule_store \<Rightarrow> bool" where
  "rewinds i t (OpSave s) st \<longleftrightarrow> sc_ID s = i \<and> until t (sc_NextRunAt s)"
| "rewinds i t (OpUpdate s) st \<longleftrightarrow> sc_ID s = i \<and> until t (sc_NextRunAt s)"
| "rewinds i t (OpRelease j claimed due) st \<longleftrightarrow> i = j \<and> due \<le> t \<and> fst (Release j claimed due st)"
| "rewinds i t _ st \<longleftrightarrow> False"

fun count_along :: "(schedule_op \<Rightarrow> schedule_store \<Rightarrow> bool) \<Rightarrow> schedule_op list \<Rightarrow> schedule_store \<Rightarrow> nat" where
  "count_along P [] st = 0"
| "count_along P (x # xs) st = (if P x st then 1 else 0) + count_along P xs (apply_op x st)"

text \<open>A claim moves the row forward: the next fire time the scheduler works out is after the one it
  read.\<close>

fun advances :: "schedule_op \<Rightarrow> bool" where
  "advances (OpClaimDue i old new) \<longleftrightarrow> old < new"
| "advances (OpClaimFire clock i old nxt) \<longleftrightarrow> (case nxt of Some n \<Rightarrow> old < n | None \<Rightarrow> True)"
| "advances _ \<longleftrightarrow> True"

definition claimable_until :: "string \<Rightarrow> gotime \<Rightarrow> schedule_store \<Rightarrow> nat" where
  "claimable_until i t st = (if until t (next_of i st) then 1 else 0)"

lemmas op_defs = SaveSchedule_def UpdateSchedule_def DeleteSchedule_def RecordFire_def RecordSkip_def
  ClaimDue_def ClaimFinal_def Release_def ClaimFire_def SettleInFlight_def

lemma until_simps [simp]: "until t None = False" "until t (Some n) = (n \<le> t)"
  by (simp_all add: until_def)

lemma next_frame [simp]: "next_of i (st\<lparr>ss_inflight := m\<rparr>) = next_of i st"
  by (simp add: next_of_def)

lemma next_Delete: "next_of i (snd (DeleteSchedule j st)) = (if i = j then None else next_of i st)"
  by (auto simp: DeleteSchedule_def next_of_def split: option.splits)

lemma next_Record [simp]:
  "next_of i (RecordFire j at runID failure st) = next_of i st"
  "next_of i (RecordSkip j at reason st) = next_of i st"
  "next_of i (SettleInFlight j t st) = next_of i st"
  by (auto simp: op_defs next_of_def split: option.splits)

lemma next_Take [simp]: "next_of i (snd (TakeInFlight clock ord grace st)) = next_of i st"
  by (simp add: next_of_def)

lemma next_apply:
  assumes "advances x"
  shows "(if wins i t x st then 1 else 0) + claimable_until i t (apply_op x st)
    \<le> claimable_until i t st + (if rewinds i t x st then 1 else 0)"
proof (cases x)
  case (OpRelease j claimed due)
  then show ?thesis
    by (auto simp: Release_def claimable_until_def next_set_next split: option.splits)
next
  case (OpClaimFire clock j old nxt)
  then show ?thesis using assms
    by (auto simp: ClaimFire_def claimable_until_def next_set_next expects_next next_Some_row
        split: option.splits if_splits)
next
  case (OpClaimDue j old new)
  then show ?thesis using assms
    by (auto simp: ClaimDue_def claimable_until_def next_set_next expects_next next_Some_row)
next
  case (OpClaimFinal j old)
  then show ?thesis
    by (auto simp: ClaimFinal_def claimable_until_def next_set_next expects_next next_Some_row)
qed (auto simp: claimable_until_def next_Delete SaveSchedule_def UpdateSchedule_def split: option.splits)

lemma wins_bound:
  "\<forall>x\<in>set xs. advances x \<Longrightarrow>
     count_along (wins i t) xs st + claimable_until i t (apply_ops xs st)
       \<le> claimable_until i t st + count_along (rewinds i t) xs st"
proof (induction xs arbitrary: st)
  case (Cons x xs)
  then show ?case using next_apply [of x i t st] Cons.IH [of "apply_op x st"] by fastforce
qed simp

text \<open>A highly available pair never launches an occurrence twice. Over any interleaving of store
  operations from any number of schedulers and operators, in which each claim moves the row to a later
  time, an occurrence is won at most once more than the row was put back at or before it, by a release
  that succeeded or by an operator's edit.\<close>

theorem claims_are_exclusive:
  assumes "\<forall>x\<in>set xs. advances x"
  shows "count_along (wins i t) xs st \<le> 1 + count_along (rewinds i t) xs st"
  using wins_bound [OF assms, of i t st] by (simp add: claimable_until_def split: if_splits)

definition nightly :: schedule where
  "nightly = \<lparr>sc_ID = ''s'', sc_Name = ''nightly'', sc_Cron = ''0 2 * * *'', sc_RRule = [], sc_Timezone = ''UTC'',
     sc_SpringForward = [], sc_Playbook = ''site.yml'', sc_Inventory = ''prod'', sc_Shards = 0, sc_Steps = [],
     sc_TemplateID = [], sc_OrgID = [], sc_Enabled = True, sc_CreatedAt = 1, sc_NextRunAt = Some 5,
     sc_CreatedBy = [], sc_LastRunAt = None, sc_LastRunID = [], sc_LastError = [], sc_LastSkip = [],
     sc_SkippedFires = 0\<rparr>"

definition nightly_store :: schedule_store where
  "nightly_store = SaveSchedule nightly NewScheduleStore"

lemmas nightly_defs = nightly_store_def nightly_def NewScheduleStore_def SaveSchedule_def put_schedule_def

theorem claims_are_exclusive_witness:
  "wins ''s'' 5 (OpClaimFire 7 ''s'' 5 (Some 9)) nightly_store \<and>
   count_along (wins ''s'' 5) [OpClaimFire 7 ''s'' 5 (Some 9), OpClaimDue ''s'' 5 9, OpClaimFinal ''s'' 5]
     nightly_store \<le> 1"
proof -
  let ?ops = "[OpClaimFire 7 ''s'' 5 (Some 9), OpClaimDue ''s'' 5 9, OpClaimFinal ''s'' 5]"
  have "\<forall>x\<in>set ?ops. advances x" by simp
  from claims_are_exclusive [OF this, of "''s''" 5 nightly_store]
  have "count_along (wins ''s'' 5) ?ops nightly_store \<le> 1" by simp
  moreover have "wins ''s'' 5 (OpClaimFire 7 ''s'' 5 (Some 9)) nightly_store"
    by (simp add: nightly_defs ClaimFire_def expects_def)
  ultimately show ?thesis by blast
qed

section \<open>Marks outlive other writes\<close>

fun ends_mark :: "string \<Rightarrow> gotime \<Rightarrow> schedule_op \<Rightarrow> bool" where
  "ends_mark i t (OpDelete j) \<longleftrightarrow> i = j"
| "ends_mark i t (OpSettle j u) \<longleftrightarrow> i = j \<and> t = u"
| "ends_mark i t _ \<longleftrightarrow> False"

lemma mark_frame [simp]:
  "mark_of i (put_schedule j sc st) = mark_of i st"
  "mark_of i (set_next j nx st) = mark_of i st"
  by (simp_all add: mark_of_def)

lemma mark_apply:
  assumes "mark_of i st = Some t" and "\<not> ends_mark i t x"
  shows "mark_of i (apply_op x st) = Some t"
  using assms
proof (cases x)
  case (OpClaimFire clock j old nxt)
  then show ?thesis using assms(1) by (auto simp: ClaimFire_def mark_of_def)
next
  case (OpDelete j)
  then show ?thesis using assms by (auto simp: DeleteSchedule_def mark_of_def split: option.splits)
next
  case (OpSettle j u)
  then show ?thesis using assms by (auto simp: SettleInFlight_def mark_of_def split: option.splits)
qed (auto simp: op_defs split: option.splits)

lemma mark_apply_ops:
  "mark_of i st = Some t \<Longrightarrow> \<forall>x\<in>set xs. \<not> ends_mark i t x \<Longrightarrow> mark_of i (apply_ops xs st) = Some t"
  by (induction xs arbitrary: st) (simp_all add: mark_apply)

section \<open>Sweeps\<close>

text \<open>The clock an operation stamps a mark with, and where the stamp of a mark comes from.\<close>

fun op_clock :: "schedule_op \<Rightarrow> gotime option" where
  "op_clock (OpClaimFire clock i old nxt) = Some clock"
| "op_clock (OpTake clock ord grace) = Some clock"
| "op_clock _ = None"

lemma fold_take_since:
  "snd (fold (take_one clock grace) ord acc) i = Some m \<Longrightarrow>
     fm_since m = clock \<or> snd acc i = Some m"
proof (induction ord arbitrary: acc)
  case (Cons j ord)
  then have "fm_since m = clock \<or> snd (take_one clock grace j acc) i = Some m" by simp
  then show ?case by (auto simp: take_one_def split: option.splits if_splits)
qed simp

lemma stamp_apply:
  assumes "ss_inflight (apply_op x st) i = Some m"
  shows "op_clock x = Some (fm_since m) \<or> ss_inflight st i = Some m"
proof (cases x)
  case (OpTake clock ord grace)
  then show ?thesis using assms fold_take_since [of clock grace ord "([], ss_inflight st)" i m]
    by (auto simp: TakeInFlight_def split: prod.splits)
next
  case (OpDelete j)
  then show ?thesis using assms by (auto simp: DeleteSchedule_def split: option.splits if_splits)
next
  case (OpSettle j t)
  then show ?thesis using assms by (auto simp: SettleInFlight_def split: option.splits if_splits)
next
  case (OpClaimFire clock j old nxt)
  then show ?thesis using assms by (auto simp: ClaimFire_def split: option.splits if_splits)
qed (use assms in \<open>auto simp: op_defs split: option.splits if_splits\<close>)

lemma stamp_apply_ops:
  assumes "ss_inflight (apply_ops xs st) i = Some m"
  shows "(\<exists>x\<in>set xs. op_clock x = Some (fm_since m)) \<or> ss_inflight st i = Some m"
  using assms
proof (induction xs arbitrary: st)
  case (Cons x xs)
  then show ?case using stamp_apply [of x st i m] by fastforce
qed simp

text \<open>A fire whose server stops is not lost. Once a claim has won an occurrence, whatever the
  schedulers and operators then write, so long as the occurrence is not settled and its schedule is not
  deleted, the first sweep a grace after the last clock that stamped it takes the occurrence up.\<close>

theorem unsettled_occurrence_is_taken_up:
  assumes "fst (ClaimFire clock i t nxt st)"
    and "\<forall>x\<in>set xs. \<not> ends_mark i t x \<and> (\<forall>c. op_clock x = Some c \<longrightarrow> c \<le> last_stamp)"
    and "clock \<le> last_stamp" and "last_stamp + grace \<le> now"
    and "after = apply_ops xs (snd (ClaimFire clock i t nxt st))"
    and "iterates ord (ss_inflight after)"
  shows "\<lparr>fl_ScheduleID = i, fl_Occurrence = t\<rparr> \<in> set (fst (TakeInFlight now ord grace after))"
proof -
  have claimed: "ss_inflight (snd (ClaimFire clock i t nxt st)) i = Some \<lparr>fm_occurrence = t, fm_since = clock\<rparr>"
    using assms(1) by (auto simp: ClaimFire_def split: if_splits)
  then have "mark_of i after = Some t"
    using mark_apply_ops [of i "snd (ClaimFire clock i t nxt st)" t xs] assms(2,5) by (simp add: mark_of_def)
  then obtain m where m: "ss_inflight after i = Some m" "fm_occurrence m = t" by (auto simp: mark_of_def)
  have "fm_since m \<le> last_stamp"
    using stamp_apply_ops [of xs "snd (ClaimFire clock i t nxt st)" i m] m(1) assms(2,3,5) claimed by auto
  then show ?thesis
    using m assms(4) TakeInFlight_out [OF assms(6)] by (auto simp: overdue_Some)
qed

theorem unsettled_occurrence_is_taken_up_witness:
  "\<lparr>fl_ScheduleID = ''s'', fl_Occurrence = 5\<rparr> \<in> set (fst (TakeInFlight 17 [''s''] 10
     (apply_ops [OpRecordFire ''s'' 7 [] ''late''] (snd (ClaimFire 7 ''s'' 5 (Some 9) nightly_store)))))"
  by (rule unsettled_occurrence_is_taken_up
      [where clock = 7 and st = nightly_store and nxt = "Some 9" and xs = "[OpRecordFire ''s'' 7 [] ''late'']"
        and last_stamp = 7])
    (auto simp: nightly_defs ClaimFire_def expects_def set_next_def RecordFire_def iterates_def)

text \<open>Two sweeps never take up one schedule's fire at once. When a sweep has taken an occurrence of
  a schedule, and no later operation reads an earlier clock, no sweep takes one of that schedule again
  within the grace, whatever is claimed, settled, edited or swept between the two.\<close>

theorem sweeps_are_a_grace_apart:
  assumes "iterates ord (ss_inflight st)" and "x \<in> set (fst (TakeInFlight now ord grace st))"
    and "\<forall>y\<in>set xs. \<forall>c. op_clock y = Some c \<longrightarrow> now \<le> c"
    and "after = apply_ops xs (snd (TakeInFlight now ord grace st))"
    and "iterates ord' (ss_inflight after)" and "x' \<in> set (fst (TakeInFlight now' ord' grace' after))"
    and "fl_ScheduleID x' = fl_ScheduleID x"
  shows "now + grace' \<le> now'"
proof -
  let ?i = "fl_ScheduleID x"
  have "ss_inflight (snd (TakeInFlight now ord grace st)) ?i =
      Some \<lparr>fm_occurrence = fl_Occurrence x, fm_since = now\<rparr>"
    using assms(1,2) TakeInFlight_marks [OF assms(1)] TakeInFlight_out [OF assms(1)] by simp
  moreover obtain m where "ss_inflight after ?i = Some m" "now' - fm_since m \<ge> grace'"
    using assms(6,7) TakeInFlight_out [OF assms(5)] by (auto simp: overdue_Some)
  ultimately show ?thesis
    using stamp_apply_ops [of xs "snd (TakeInFlight now ord grace st)" ?i m] assms(3,4) by fastforce
qed

theorem sweeps_are_a_grace_apart_witness:
  "(7::int) + 10 \<le> 20 \<and> \<lparr>fl_ScheduleID = ''s'', fl_Occurrence = 5\<rparr> \<in> set (fst (TakeInFlight 20 [''s''] 10
     (snd (TakeInFlight 7 [''s''] 10
       \<lparr>ss_schedules = Map.empty, ss_inflight = [''s'' \<mapsto> \<lparr>fm_occurrence = 5, fm_since = -9\<rparr>]\<rparr>))))"
proof -
  let ?st = "\<lparr>ss_schedules = Map.empty, ss_inflight = [''s'' \<mapsto> \<lparr>fm_occurrence = 5, fm_since = -9\<rparr>]\<rparr>"
  let ?x = "\<lparr>fl_ScheduleID = ''s'', fl_Occurrence = 5\<rparr>"
  have it: "iterates [''s''] (ss_inflight ?st)" "iterates [''s''] (ss_inflight (snd (TakeInFlight 7 [''s''] 10 ?st)))"
    and took: "?x \<in> set (fst (TakeInFlight 7 [''s''] 10 ?st))"
      "?x \<in> set (fst (TakeInFlight 20 [''s''] 10 (snd (TakeInFlight 7 [''s''] 10 ?st))))"
    by (auto simp: iterates_def TakeInFlight_def take_one_def SortInFlight_def split: if_splits)
  have "(7::int) + 10 \<le> 20"
    by (rule sweeps_are_a_grace_apart [OF it(1) took(1), where xs = "[]", OF _ _ it(2) took(2)]) simp_all
  then show ?thesis using took(2) by blast
qed

end
