(* ===== verification/Dedupe.thy ===== *)
theory Dedupe
  imports Store_Types GoStrings
begin

text \<open>
  Idempotency keys (\<open>internal/run/dedupe.go\<close>): the keys the server derives for its own actions, the
  stored form of the keys callers send, and the lookup that collapses a repeated action onto the run
  it already created. \<open>digestHex\<close>, the hexadecimal SHA-256 of a text, is the parameter \<open>digest\<close>.
\<close>

type_synonym digest_fun = "string \<Rightarrow> string"

definition DedupeWindow :: duration where "DedupeWindow = 10 * 1000000000"
definition internalKeyPrefix :: string where "internalKeyPrefix = ''st:''"
definition MaxClientKeyBytes :: nat where "MaxClientKeyBytes = 255"
definition clientDigestPrefix :: string where "clientDigestPrefix = internalKeyPrefix @ ''client:''"
definition digestMark :: string where "digestMark = ''#''"

lemmas key_defs = internalKeyPrefix_def clientDigestPrefix_def digestMark_def

definition keyPart :: "digest_fun \<Rightarrow> string \<Rightarrow> string" where
  "keyPart digest s =
     (if IsSafeText s \<and> \<not> HasPrefix s digestMark then s else digestMark @ digest s)"

definition dedupeKeyIn :: "digest_fun \<Rightarrow> string \<Rightarrow> string \<Rightarrow> int \<Rightarrow> string" where
  "dedupeKeyIn digest action i bucket =
     internalKeyPrefix @ action @ '':'' @ keyPart digest i @ '':'' @ FormatInt bucket"

text \<open>The bucket is a division of \<open>int64\<close>, which truncates towards zero.\<close>

definition bucket_of :: "gotime \<Rightarrow> int" where
  "bucket_of at = sgn at * (\<bar>at\<bar> div DedupeWindow)"

definition DedupeKey :: "digest_fun \<Rightarrow> string \<Rightarrow> string \<Rightarrow> gotime \<Rightarrow> string" where
  "DedupeKey digest action i at = dedupeKeyIn digest action i (bucket_of at)"

definition ScheduleKey :: "string \<Rightarrow> gotime \<Rightarrow> string" where
  "ScheduleKey scheduleID occurrence =
     internalKeyPrefix @ ''schedule:'' @ scheduleID @ '':'' @ FormatInt occurrence"

datatype key_error = ErrKeyTooLong nat | ErrReservedPrefix | ErrReservedNul

definition clientStoredKey :: "digest_fun \<Rightarrow> string \<Rightarrow> string" where
  "clientStoredKey digest joined =
     (if IsSafeText joined then joined else clientDigestPrefix @ digest joined)"

definition ClientKey :: "digest_fun \<Rightarrow> string \<Rightarrow> string \<Rightarrow> key_error + string" where
  "ClientKey digest supplied orgID =
     (if length supplied > MaxClientKeyBytes then Inl (ErrKeyTooLong (length supplied))
      else if HasPrefix supplied internalKeyPrefix then Inl ErrReservedPrefix
      else if CHR 0x00 \<in> set supplied then Inl ErrReservedNul
      else Inr (clientStoredKey digest
             (if orgID \<noteq> [] then orgID @ [CHR 0x00] @ supplied else supplied)))"

text \<open>\<open>strconv.ParseInt\<close> in base ten at 64 bits, \<open>None\<close> for its errors, and the two sides of the last
  \<open>c\<close> of a string.\<close>

definition ParseInt64 :: "string \<Rightarrow> int option" where
  "ParseInt64 s =
     (let neg = HasPrefix s ''-'';
          ds = (if neg \<or> HasPrefix s ''+'' then tl s else s);
          n = int (digits_value ds)
      in if ds = [] \<or> \<not> list_all is_digit ds then None
         else if neg then (if n \<le> 2 ^ 63 then Some (- n) else None)
         else if n < 2 ^ 63 then Some n else None)"

definition cut_last :: "char \<Rightarrow> string \<Rightarrow> (string \<times> string) option" where
  "cut_last c s =
     (if c \<in> set s then Some (rev (tl (dropWhile (\<lambda>x. x \<noteq> c) (rev s))), after_last c s) else None)"

definition derived_parts :: "string \<Rightarrow> (string \<times> string \<times> int) option" where
  "derived_parts stored =
     Option.bind (CutPrefix stored internalKeyPrefix) (\<lambda>rest.
     Option.bind (Cut rest '':'') (\<lambda>(action, t).
     Option.bind (cut_last (CHR '':'') t) (\<lambda>(i, num).
       if IsSafeText action then map_option (\<lambda>bucket. (action, i, bucket)) (ParseInt64 num) else None)))"

definition CurrentKey :: "digest_fun \<Rightarrow> string \<Rightarrow> string \<times> bool" where
  "CurrentKey digest stored =
     (if IsSafeText stored then (stored, False)
      else case derived_parts stored of
        Some (action, i, bucket) \<Rightarrow> (dedupeKeyIn digest action i bucket, True)
      | None \<Rightarrow> (clientDigestPrefix @ digest stored, True))"

text \<open>What a repeat of \<open>action\<close> resolves to: the run it already created and the key a fresh run must
  carry, empty for none. \<open>find_key\<close> is the store's lookup, \<open>Inl\<close> an error.\<close>

fun resolve_in :: "gotime \<Rightarrow> string \<Rightarrow> (string \<Rightarrow> 'e + run option) \<Rightarrow> string list \<Rightarrow> 'e + (run option \<times> string)" where
  "resolve_in now key find_key [] = Inr (None, key)"
| "resolve_in now key find_key (k # ks) =
     (case find_key k of
        Inl e \<Rightarrow> Inl e
      | Inr None \<Rightarrow> resolve_in now key find_key ks
      | Inr (Some r) \<Rightarrow>
          let age = now - CreatedAt r in
          if age < DedupeWindow \<and> age > - DedupeWindow then Inr (Some r, key)
          else if k = key then Inr (None, [])
          else resolve_in now key find_key ks)"

definition ResolveDedupe :: "digest_fun \<Rightarrow> (string \<Rightarrow> 'e + run option) \<Rightarrow> string \<Rightarrow> string \<Rightarrow> gotime \<Rightarrow>
    'e + (run option \<times> string)" where
  "ResolveDedupe digest find_key action i now =
     resolve_in now (DedupeKey digest action i now) find_key
       [DedupeKey digest action i now, DedupeKey digest action i (now - DedupeWindow)]"

section \<open>Keys read back\<close>

lemma FormatInt_no_colon: "CHR '':'' \<notin> set (FormatInt n)"
  using decimal_digits [of "CHR '':''"] by (auto simp: FormatInt_def is_digit_def byte_in_def)

lemma front_sep_inj:
  assumes "a @ c # b = a' @ c # b'" and "c \<notin> set a" and "c \<notin> set a'"
  shows "a = a' \<and> b = b'"
proof -
  have "takeWhile (\<lambda>x. x \<noteq> c) (a @ c # b) = a" "takeWhile (\<lambda>x. x \<noteq> c) (a' @ c # b') = a'"
    using assms(2,3) by (auto intro!: takeWhile_tail simp: takeWhile_append)
  then have "a = a'" using assms(1) by simp
  then show ?thesis using assms(1) by simp
qed

lemma back_sep_inj:
  assumes "a @ c # b = a' @ c # b'" and "c \<notin> set b" and "c \<notin> set b'"
  shows "a = a' \<and> b = b'"
  using front_sep_inj [of "rev b" c "rev a" "rev b'" "rev a'"] arg_cong [OF assms(1), of rev] assms(2,3) by simp

lemma ScheduleKey_inj: "ScheduleKey i t = ScheduleKey i' t' \<longleftrightarrow> i = i' \<and> t = t'"
  using back_sep_inj [of i "CHR '':''" "FormatInt t" i' "FormatInt t'"] FormatInt_no_colon FormatInt_inj
  by (auto simp: ScheduleKey_def)

text \<open>The text a caller's key is taken from: with the organization joined by a NUL byte.\<close>

abbreviation joined :: "string \<Rightarrow> string \<Rightarrow> string" where
  "joined supplied orgID \<equiv> (if orgID \<noteq> [] then orgID @ [CHR 0x00] @ supplied else supplied)"

lemma joined_inj:
  assumes "joined s i = joined s' i'" and "CHR 0x00 \<notin> set s" and "CHR 0x00 \<notin> set s'"
  shows "s = s' \<and> i = i'"
  using assms back_sep_inj [of i "CHR 0x00" s i' s'] by (auto split: if_splits)

lemma ClientKey_joined:
  assumes "ClientKey digest supplied orgID = Inr k"
  shows "CHR 0x00 \<notin> set supplied"
    and "k = joined supplied orgID \<and> \<not> HasPrefix k internalKeyPrefix \<or>
      k = clientDigestPrefix @ digest (joined supplied orgID)"
  using assms by (auto simp: ClientKey_def clientStoredKey_def IsSafeText_def split: if_splits)

text \<open>A caller cannot plant a run under a key the server derives. A key accepted from a caller is
  never the key of a schedule's occurrence nor of any action of the server (no action is named client
  and none holds a colon), and, where SHA-256 does not collide, two callers share a stored key only
  when they sent the same key for the same organization.\<close>

theorem client_keys_are_apart:
  assumes "ClientKey digest supplied orgID = Inr k"
  shows "k \<noteq> ScheduleKey sid occurrence \<and>
    (action \<noteq> ''client'' \<and> CHR '':'' \<notin> set action \<longrightarrow> k \<noteq> DedupeKey digest action i at) \<and>
    (inj digest \<and> ClientKey digest supplied' orgID' = Inr k \<longrightarrow> supplied = supplied' \<and> orgID = orgID')"
proof (intro conjI impI)
  have derived: "HasPrefix (internalKeyPrefix @ t) internalKeyPrefix" for t by (simp add: HasPrefix_def)
  have digested: "HasPrefix (clientDigestPrefix @ t) internalKeyPrefix" for t
    using derived by (simp add: clientDigestPrefix_def)
  show "k \<noteq> ScheduleKey sid occurrence"
    using ClientKey_joined(2) [OF assms] derived by (auto simp: ScheduleKey_def clientDigestPrefix_def)
  show "k \<noteq> DedupeKey digest action i at" if a: "action \<noteq> ''client'' \<and> CHR '':'' \<notin> set action"
  proof -
    have "clientDigestPrefix @ d \<noteq> internalKeyPrefix @ action @ '':'' @ t" for d t
      using a front_sep_inj [of "''client''" "CHR '':''" d action t] by (auto simp: clientDigestPrefix_def)
    note apart = this this [symmetric]
    show ?thesis
      using ClientKey_joined(2) [OF assms] derived apart by (auto simp: DedupeKey_def dedupeKeyIn_def)
  qed
  show "supplied = supplied'" "orgID = orgID'"
    if other: "inj digest \<and> ClientKey digest supplied' orgID' = Inr k"
  proof -
    have inj: "digest x = digest y \<longleftrightarrow> x = y" for x y using other by (auto simp: inj_eq)
    have "joined supplied orgID = joined supplied' orgID'"
      using ClientKey_joined(2) [OF assms] ClientKey_joined(2) [OF conjunct2 [OF other]] digested
      by (auto simp: inj)
    then show "supplied = supplied'" "orgID = orgID'"
      using joined_inj ClientKey_joined(1) [OF assms] ClientKey_joined(1) [OF conjunct2 [OF other]] by blast+
  qed
qed

theorem client_keys_are_apart_witness:
  "\<exists>k. ClientKey (\<lambda>s. s) ''nightly'' ''acme'' = Inr k \<and> k \<noteq> ScheduleKey ''sch_1'' 5 \<and>
     k \<noteq> DedupeKey (\<lambda>s. s) ''rerun'' ''run_1'' 5"
proof -
  have "\<not> IsSafeText (''acme'' @ [CHR 0x00] @ ''nightly'')" by (simp add: IsSafeText_def)
  then have k: "ClientKey (\<lambda>s. s) ''nightly'' ''acme'' =
      Inr (clientDigestPrefix @ ''acme'' @ [CHR 0x00] @ ''nightly'')"
    by (simp add: ClientKey_def clientStoredKey_def MaxClientKeyBytes_def HasPrefix_def key_defs)
  note apart = client_keys_are_apart [OF k, of "''sch_1''" 5 "''rerun''" "''run_1''" 5 "[]" "[]"]
  have "''rerun'' \<noteq> ''client'' \<and> CHR '':'' \<notin> set ''rerun''" by simp
  then show ?thesis using k apart by blast
qed

section \<open>Keys of earlier releases\<close>

lemma ParseInt64_FormatInt: "- (2 ^ 63) \<le> n \<Longrightarrow> n < 2 ^ 63 \<Longrightarrow> ParseInt64 (FormatInt n) = Some n"
proof -
  assume b: "- (2 ^ 63) \<le> n" "n < 2 ^ 63"
  have d: "list_all is_digit (decimal k)" for k using decimal_digits by (auto simp: list_all_iff)
  have p: "\<not> HasPrefix (decimal k) [c]" if "\<not> is_digit c" for k c
  proof (cases "decimal k")
    case (Cons x xs)
    then have "is_digit x" using decimal_digits [of x k] by simp
    then show ?thesis using Cons that by (auto simp: HasPrefix_def)
  qed simp
  have s: "\<not> is_digit (CHR ''-'')" "\<not> is_digit (CHR ''+'')" by (simp_all add: is_digit_def byte_in_def)
  have m: "HasPrefix (CHR ''-'' # u) ''-''" for u by (simp add: HasPrefix_def)
  show ?thesis
    using b d p [OF s(1)] p [OF s(2)] m by (cases "n < 0") (simp_all add: ParseInt64_def FormatInt_def Let_def)
qed

lemma cut_last_app:
  assumes "c \<notin> set b" shows "cut_last c (a @ c # b) = Some (a, b)"
proof -
  have "takeWhile (\<lambda>x. x \<noteq> c) (rev b @ c # rev a) = rev b" "dropWhile (\<lambda>x. x \<noteq> c) (rev b @ c # rev a) = c # rev a"
    using assms by (simp_all add: takeWhile_append dropWhile_append)
  then show ?thesis by (simp add: cut_last_def after_last_def)
qed

lemma Cut_app: "c \<notin> set a \<Longrightarrow> Cut (a @ c # b) [c] = Some (a, b)"
  by (induction a) (auto simp: CutPrefix_def)

lemma HasPrefix_nul: "CHR 0x00 \<notin> set p \<Longrightarrow> HasPrefix (a @ [CHR 0x00] @ b) p \<longleftrightarrow> HasPrefix a p"
proof (induction p arbitrary: a)
  case (Cons x p)
  then show ?case by (cases a) (auto simp: HasPrefix_def)
qed (simp add: HasPrefix_def)

text \<open>An upgrade keeps every repeat finding its run: a key an earlier release stored as text no
  longer stored that way is rewritten to exactly the key this release looks up. A caller's key joined
  to its organization becomes the key \<open>ClientKey\<close> gives, and a derived key becomes the one
  \<open>dedupeKeyIn\<close> gives for the same action, id and window. A key already storable is left alone.\<close>

theorem upgraded_keys_are_found:
  "(ClientKey digest supplied orgID = Inr k \<and> \<not> HasPrefix orgID internalKeyPrefix \<longrightarrow>
      fst (CurrentKey digest (if orgID \<noteq> [] then orgID @ [CHR 0x00] @ supplied else supplied)) = k) \<and>
   (IsSafeText action \<and> CHR '':'' \<notin> set action \<and> - (2 ^ 63) \<le> bucket \<and> bucket < 2 ^ 63 \<and>
    old = internalKeyPrefix @ action @ '':'' @ i @ '':'' @ FormatInt bucket \<and> \<not> IsSafeText old \<longrightarrow>
      CurrentKey digest old = (dedupeKeyIn digest action i bucket, True)) \<and>
   (IsSafeText stored \<longrightarrow> CurrentKey digest stored = (stored, False))"
proof (intro conjI impI)
  assume a: "ClientKey digest supplied orgID = Inr k \<and> \<not> HasPrefix orgID internalKeyPrefix"
  have "derived_parts (joined supplied orgID) = None"
  proof -
    have "\<not> HasPrefix supplied internalKeyPrefix" using a by (auto simp: ClientKey_def split: if_splits)
    then have "\<not> HasPrefix (joined supplied orgID) internalKeyPrefix"
      using a HasPrefix_nul [of internalKeyPrefix orgID supplied] by (simp add: internalKeyPrefix_def)
    then show ?thesis by (simp add: derived_parts_def CutPrefix_def HasPrefix_def)
  qed
  then show "fst (CurrentKey digest (joined supplied orgID)) = k"
    using a by (auto simp: CurrentKey_def ClientKey_def clientStoredKey_def split: if_splits)
next
  assume b: "IsSafeText action \<and> CHR '':'' \<notin> set action \<and> - (2 ^ 63) \<le> bucket \<and> bucket < 2 ^ 63 \<and>
    old = internalKeyPrefix @ action @ '':'' @ i @ '':'' @ FormatInt bucket \<and> \<not> IsSafeText old"
  then have "derived_parts old = Some (action, i, bucket)"
    using cut_last_app [OF FormatInt_no_colon, of i] Cut_app [of "CHR '':''" action]
    by (simp add: derived_parts_def ParseInt64_FormatInt)
  then show "CurrentKey digest old = (dedupeKeyIn digest action i bucket, True)"
    using b by (auto simp: CurrentKey_def)
qed (simp add: CurrentKey_def)

theorem upgraded_keys_are_found_witness:
  "fst (CurrentKey (\<lambda>s. s) (''acme'' @ [CHR 0x00] @ ''nightly'')) = ''st:client:acme'' @ [CHR 0x00] @ ''nightly'' \<and>
   CurrentKey (\<lambda>s. s) (internalKeyPrefix @ ''callback'' @ '':'' @ [CHR 0x00] @ '':'' @ FormatInt 7) =
     (dedupeKeyIn (\<lambda>s. s) ''callback'' [CHR 0x00] 7, True)"
proof -
  have u: "\<not> IsSafeText (a @ [CHR 0x00] @ b)" for a b by (simp add: IsSafeText_def)
  have k: "ClientKey (\<lambda>s. s) ''nightly'' ''acme'' = Inr (clientDigestPrefix @ ''acme'' @ [CHR 0x00] @ ''nightly'')"
    using u [of "''acme''" "''nightly''"]
    by (simp add: ClientKey_def clientStoredKey_def MaxClientKeyBytes_def HasPrefix_def key_defs)
  have safe: "IsSafeText ''callback''" by code_simp
  show ?thesis
    using k safe u [of "internalKeyPrefix @ ''callback'' @ '':''" "'':'' @ FormatInt 7"]
      upgraded_keys_are_found [of "\<lambda>s. s" "''nightly''" "''acme''" "clientDigestPrefix @ ''acme'' @ [CHR 0x00] @ ''nightly''"
        "''callback''" 7 "internalKeyPrefix @ ''callback'' @ '':'' @ [CHR 0x00] @ '':'' @ FormatInt 7" "[CHR 0x00]"]
    by (simp add: HasPrefix_def key_defs)
qed

end
