(* ===== verification/Scheduler.thy ===== *)
theory Scheduler
  imports Schedule_Claims Template Dedupe
begin

text \<open>
  The scheduler (\<open>internal/schedule/scheduler.go\<close>, \<open>inflight.go\<close>, \<open>skip.go\<close>). A fire goes through several
  writes to the shared store, and other servers and operators write between any two of them, so the
  code is modelled as tasks: a task is a point of one call of \<open>fireDue\<close> or \<open>takeUp\<close> at which the next
  thing it does is a write or a fire, with what the call has in its variables there, and
  \<open>task_step\<close> is that write and the code up to the next one. What the world answers is a record.
\<close>

section \<open>Firing a schedule\<close>

datatype fire_error =
    FireNoHosts
  | FireTemplatesOff string
  | FireTemplate string template_error
  | FireUnanswered string unanswered_error bool
  | FireUnrecorded string
  | FireSubmit string

definition skipped :: "fire_error \<Rightarrow> bool" where
  "skipped e \<longleftrightarrow> e = FireNoHosts"

datatype submission =
    SubmitRun string string "submit_option list"
  | SubmitSplit string string int "submit_option list"
  | SubmitPipeline string string "pipeline_step list" "submit_option list"

text \<open>What a fire meets: the template store, \<open>None\<close> when none is wired; the answer of the audit trail
  to an append under a path, \<open>None\<close> when none is kept and else \<open>Some\<close> error, empty for accepted; and the
  submitter, whose answer is an error, if any, and the id of the run it saved, if it came to that.\<close>

record fire_env =
  fe_sha :: "string \<Rightarrow> string"
  fe_re :: regex_lib
  fe_f2i :: float_conv
  fe_templates :: "(string \<Rightarrow> template_error + template) option"
  fe_append :: "(string \<Rightarrow> string) option"
  fe_submit :: "submission \<Rightarrow> fire_error option \<times> string option"
  fe_text :: "fire_error \<Rightarrow> string"

definition loadTemplate :: "fire_env \<Rightarrow> schedule \<Rightarrow> fire_error + template option" where
  "loadTemplate env sc =
     (if sc_TemplateID sc = [] then Inr None
      else case fe_templates env of
        None \<Rightarrow> Inl (FireTemplatesOff (sc_ID sc))
      | Some get \<Rightarrow> (case get (sc_TemplateID sc) of
          Inl e \<Rightarrow> Inl (FireTemplate (sc_ID sc) e) | Inr t \<Rightarrow> Inr (Some t)))"

definition append_entry :: "fire_env \<Rightarrow> string \<Rightarrow> string" where
  "append_entry env path = (case fe_append env of None \<Rightarrow> [] | Some answer \<Rightarrow> answer path)"

definition refuseUnanswered :: "fire_env \<Rightarrow> schedule \<Rightarrow> template \<Rightarrow> unanswered_error \<Rightarrow> fire_error" where
  "refuseUnanswered env sc t cause =
     FireUnanswered (tp_Name t) cause
       (append_entry env (''/schedules/'' @ sc_ID sc @ ''/refused/survey/'' @ JoinStrings (map fst cause) '','') = [])"

definition recordFireEntry :: "fire_env \<Rightarrow> schedule \<Rightarrow> fire_error option" where
  "recordFireEntry env sc =
     (let e = append_entry env (''/schedules/'' @ sc_ID sc @ ''/fired'')
      in if e = [] then None else Some (FireUnrecorded e))"

definition fireTemplate :: "schedule \<Rightarrow> template \<Rightarrow> submit_option list \<Rightarrow> submission" where
  "fireTemplate sc t extra =
     (let owner = (if sc_OrgID sc = [] then tp_OrgID t else sc_OrgID sc);
          opts = LaunchOptions t @ extra @ [WithSource ''schedule'' (sc_ID sc), WithOrgID owner]
      in if tp_Steps t \<noteq> [] then SubmitPipeline (tp_Name t) (tp_Inventory t) (tp_Steps t) opts
         else if tp_Shards t \<ge> 2 then SubmitSplit (tp_Playbook t) (tp_Inventory t) (tp_Shards t) opts
         else SubmitRun (tp_Playbook t) (tp_Inventory t) opts)"

definition occurrence_key :: "schedule \<Rightarrow> string" where
  "occurrence_key sc = (case sc_NextRunAt sc of Some t \<Rightarrow> ScheduleKey (sc_ID sc) t | None \<Rightarrow> [])"

definition fire_target :: "schedule \<Rightarrow> template option \<Rightarrow> submit_option list \<Rightarrow> submission" where
  "fire_target sc t survey =
     (let key = WithIdempotencyKey (occurrence_key sc);
          base = [WithSource ''schedule'' (sc_ID sc), WithOrgID (sc_OrgID sc), key]
      in case t of
           Some t \<Rightarrow> fireTemplate sc t (survey @ [key])
         | None \<Rightarrow>
             if sc_Steps sc \<noteq> [] then SubmitPipeline (sc_Name sc) (sc_Inventory sc) (sc_Steps sc) base
             else if sc_Shards sc \<ge> 2 then SubmitSplit (sc_Playbook sc) (sc_Inventory sc) (sc_Shards sc) base
             else SubmitRun (sc_Playbook sc) (sc_Inventory sc) base)"

text \<open>A submit under a key finds the run that holds it, and else saves a run under it, which it may have
  done even when it answers with an error.\<close>

definition submit :: "fire_env \<Rightarrow> submission \<Rightarrow> string \<Rightarrow> (string \<rightharpoonup> string) \<Rightarrow>
    (fire_error + string) \<times> (string \<rightharpoonup> string)" where
  "submit env sub key runs =
     (let (err, saved) = fe_submit env sub;
          runs' = (case (runs key, saved) of (None, Some r) \<Rightarrow> runs(key \<mapsto> r) | _ \<Rightarrow> runs)
      in (case err of
            Some e \<Rightarrow> Inl e
          | None \<Rightarrow> (case runs' key of Some r \<Rightarrow> Inr r | None \<Rightarrow> Inl (FireSubmit [])), runs'))"

definition fire :: "fire_env \<Rightarrow> schedule \<Rightarrow> (string \<rightharpoonup> string) \<Rightarrow> (fire_error + string) \<times> (string \<rightharpoonup> string)" where
  "fire env sc runs =
     (let loaded = loadTemplate env sc;
          t = (case loaded of Inr (Some t) \<Rightarrow> Some t | _ \<Rightarrow> None)
      in case (case t of
                 Some t \<Rightarrow> map_sum (\<lambda>e. refuseUnanswered env sc t e) (\<lambda>opts. opts)
                   (UnattendedOptions (fe_sha env) (fe_re env) (fe_f2i env) t)
               | None \<Rightarrow> Inr []) of
           Inl e \<Rightarrow> (Inl e, runs)
         | Inr survey \<Rightarrow>
             (case recordFireEntry env sc of
                Some e \<Rightarrow> (Inl e, runs)
              | None \<Rightarrow>
                  (case loaded of
                     Inl e \<Rightarrow> (Inl e, runs)
                   | Inr _ \<Rightarrow> submit env (fire_target sc t survey) (occurrence_key sc) runs)))"

text \<open>The options a fire submits with, over any run they are applied to.\<close>

definition sub_opts :: "submission \<Rightarrow> submit_option list" where
  "sub_opts s = (case s of SubmitRun _ _ o1 \<Rightarrow> o1 | SubmitSplit _ _ _ o2 \<Rightarrow> o2 | SubmitPipeline _ _ _ o3 \<Rightarrow> o3)"

definition maxFailure :: int where "maxFailure = 1000"

section \<open>Tasks\<close>

text \<open>\<open>nxt\<close> is the fire time the claim writes, \<open>None\<close> for the last occurrence of a bounded rule. The tasks,
  in the order the code reaches them: \<open>fireDue\<close>'s claim of an overlapped occurrence, its claim of one
  whose run exists, its claim to fire, and its fire; \<open>takeUp\<close>'s reads and its fire; \<open>skip\<close>'s chain entry and
  its record, or the failure it records; \<open>handBack\<close>'s release and note; the record of a fire and the
  settling of the mark.\<close>

datatype task =
    TPass string gotime "gotime option"
  | TClaimOwn string gotime "gotime option" gotime string
  | TClaim schedule gotime "gotime option" gotime
  | TFire schedule gotime "gotime option" gotime
  | TTake in_flight gotime
  | TDisabled string gotime gotime
  | TRefire schedule gotime gotime
  | TSkip schedule gotime gotime
  | TSkipFailed string gotime gotime string
  | TSkipNote string gotime gotime
  | TRelease string gotime "gotime option" gotime string
  | TReleaseNote string gotime gotime string
  | TRecord string gotime gotime string string
  | TSettle string gotime

datatype next_fire = NextAt gotime | Exhausted | NextError

text \<open>The answers one step may get: whether the store call fails, whether a failed one took effect all
  the same, the store's clock, whether the scheduler has been told to stop, what the run store and the
  trail answer, and what a fire meets.\<close>

record answer =
  an_fails :: bool
  an_landed :: bool
  an_clock :: gotime
  an_stopped :: bool
  an_runByKey :: "(string \<Rightarrow> unit + string) option"
  an_skipEntry :: string
  an_fire :: fire_env

text \<open>\<open>fireDue\<close> up to its first write: \<open>nxt\<close> is what \<open>NextFireAfter\<close> answers, \<open>waiting\<close> what \<open>overlaps\<close> does.\<close>

definition overlaps :: "(string \<Rightarrow> string \<Rightarrow> unit + string) option \<Rightarrow> schedule \<Rightarrow> string" where
  "overlaps runActive sc =
     (case runActive of
        None \<Rightarrow> []
      | Some active \<Rightarrow> (case active (sc_ID sc) (sc_LastRunID sc) of Inl _ \<Rightarrow> [] | Inr w \<Rightarrow> w))"

definition occurrenceRun :: "(string \<Rightarrow> unit + string) option \<Rightarrow> string \<Rightarrow> gotime \<Rightarrow> string" where
  "occurrenceRun runByKey i due =
     (case runByKey of
        None \<Rightarrow> []
      | Some look \<Rightarrow> (case look (ScheduleKey i due) of Inl _ \<Rightarrow> [] | Inr r \<Rightarrow> r))"

definition fireDue :: "answer \<Rightarrow> (string \<Rightarrow> string \<Rightarrow> unit + string) option \<Rightarrow> next_fire \<Rightarrow> schedule \<Rightarrow> gotime \<Rightarrow>
    gotime \<Rightarrow> task list" where
  "fireDue an runActive nf sc due now =
     (case nf of
        NextError \<Rightarrow> []
      | _ \<Rightarrow>
          let nxt = (case nf of NextAt n \<Rightarrow> Some n | _ \<Rightarrow> None);
              own = occurrenceRun (an_runByKey an) (sc_ID sc) due
          in if overlaps runActive sc \<noteq> [] then
               (if own \<noteq> [] then [TClaimOwn (sc_ID sc) due nxt now own] else [TPass (sc_ID sc) due nxt])
             else if an_stopped an then []
             else [TClaim sc due nxt now])"

definition tick :: "answer \<Rightarrow> (string \<Rightarrow> string \<Rightarrow> unit + string) option \<Rightarrow> next_fire \<Rightarrow> schedule \<Rightarrow> gotime \<Rightarrow> task list" where
  "tick an runActive nf sc now =
     (case sc_NextRunAt sc of
        Some due \<Rightarrow> if sc_Enabled sc \<and> due \<le> now then fireDue an runActive nf sc due now else []
      | None \<Rightarrow> [])"

section \<open>Steps\<close>

text \<open>What the steps write to: the schedule store, the runs by key, and a history of the occurrences
  claimed for a fire, of how each was accounted for, of the ones handed back, of the skips no store took
  a record of, and of the schedules deleted.\<close>

record world =
  wo_store :: schedule_store
  wo_runs :: "string \<rightharpoonup> string"
  wo_claimed :: "(string \<times> gotime) set"
  wo_accounted :: "(string \<times> gotime) set"
  wo_handed :: "(string \<times> gotime) set"
  wo_unrecorded :: "(string \<times> gotime) set"
  wo_deleted :: "string set"

text \<open>A write of the store: done, or failed with or without effect.\<close>

definition do_write :: "answer \<Rightarrow> schedule_op \<Rightarrow> world \<Rightarrow> world" where
  "do_write an op w = (if an_fails an \<and> \<not> an_landed an then w else w\<lparr>wo_store := apply_op op (wo_store w)\<rparr>)"

text \<open>A claim for a fire: what the scheduler hears, and the history, which notes a claim that landed.\<close>

definition claimFire :: "answer \<Rightarrow> string \<Rightarrow> gotime \<Rightarrow> gotime option \<Rightarrow> world \<Rightarrow> bool \<times> world" where
  "claimFire an i due nxt w =
     (let won = fst (ClaimFire (an_clock an) i due nxt (wo_store w));
          landed = won \<and> \<not> (an_fails an \<and> \<not> an_landed an);
          w' = do_write an (OpClaimFire (an_clock an) i due nxt) w
      in (won \<and> \<not> an_fails an,
          if landed then w'\<lparr>wo_claimed := insert (i, due) (wo_claimed w')\<rparr> else w'))"

definition claim_op :: "string \<Rightarrow> gotime \<Rightarrow> gotime option \<Rightarrow> schedule_op" where
  "claim_op i due nxt = (case nxt of None \<Rightarrow> OpClaimFinal i due | Some n \<Rightarrow> OpClaimDue i due n)"

definition account :: "string \<Rightarrow> gotime \<Rightarrow> world \<Rightarrow> world" where
  "account i due w = w\<lparr>wo_accounted := insert (i, due) (wo_accounted w)\<rparr>"

definition failure_of :: "answer \<Rightarrow> fire_error + string \<Rightarrow> string" where
  "failure_of an r = (case r of Inl e \<Rightarrow> Clip (fe_text (an_fire an) e) maxFailure | Inr _ \<Rightarrow> [])"

definition run_of :: "fire_error + string \<Rightarrow> string" where
  "run_of r = (case r of Inl _ \<Rightarrow> [] | Inr i \<Rightarrow> i)"

text \<open>What follows a fire, in \<open>fireDue\<close> and in \<open>takeUp\<close>.\<close>

definition after_fire :: "answer \<Rightarrow> schedule \<Rightarrow> gotime \<Rightarrow> gotime option \<Rightarrow> gotime \<Rightarrow> fire_error + string \<Rightarrow> task list" where
  "after_fire an sc due nxt now r =
     (case r of
        Inl e \<Rightarrow>
          if skipped e then [TSkip sc due now]
          else if an_stopped an then [TRelease (sc_ID sc) due nxt now (fe_text (an_fire an) e)]
          else [TRecord (sc_ID sc) due now [] (failure_of an r)]
      | Inr i \<Rightarrow> [TRecord (sc_ID sc) due now i []])"

definition after_refire :: "answer \<Rightarrow> schedule \<Rightarrow> gotime \<Rightarrow> gotime \<Rightarrow> fire_error + string \<Rightarrow> task list" where
  "after_refire an sc due now r =
     (case r of
        Inl e \<Rightarrow>
          if skipped e then [TSkip sc due now]
          else if an_stopped an then []
          else [TRecord (sc_ID sc) due now [] (failure_of an r)]
      | Inr i \<Rightarrow> [TRecord (sc_ID sc) due now i []])"

definition disabledReason :: string where
  "disabledReason = ''the server stopped while this fire was starting its run, and the schedule was '' @
     ''disabled before the fire was taken up again, so this occurrence did not run''"

definition changedReason :: string where
  "changedReason = ''the server stopped while this fire was starting its run, and the schedule changed '' @
     ''before the fire could be handed back, so this occurrence did not run: ''"

definition handedReason :: string where
  "handedReason = ''the server stopped while this fire was starting its run, so the occurrence was '' @
     ''handed back and fires when a scheduler next checks: ''"

definition SkipNoHosts :: string where "SkipNoHosts = ''no hosts matched''"

definition takeUp :: "answer \<Rightarrow> in_flight \<Rightarrow> gotime \<Rightarrow> world \<Rightarrow> task list" where
  "takeUp an fl now w =
     (if an_fails an then []
      else case GetSchedule (fl_ScheduleID fl) (wo_store w) of
        Inl _ \<Rightarrow> []
      | Inr sc \<Rightarrow>
          (case (case an_runByKey an of None \<Rightarrow> Inr [] | Some look \<Rightarrow> look (ScheduleKey (sc_ID sc) (fl_Occurrence fl))) of
             Inl _ \<Rightarrow> []
           | Inr runID \<Rightarrow>
               if runID \<noteq> [] then [TRecord (sc_ID sc) (fl_Occurrence fl) now runID []]
               else if \<not> sc_Enabled sc then [TDisabled (sc_ID sc) (fl_Occurrence fl) now]
               else [TRefire (sc\<lparr>sc_NextRunAt := Some (fl_Occurrence fl)\<rparr>) (fl_Occurrence fl) now]))"

text \<open>A record of a fire and, when it was written, the settling of the mark.\<close>

definition record_then_settle :: "answer \<Rightarrow> string \<Rightarrow> gotime \<Rightarrow> schedule_op \<Rightarrow> world \<Rightarrow> task list \<times> world" where
  "record_then_settle an i due op w =
     (if an_fails an then ([], do_write an op w) else ([TSettle i due], account i due (do_write an op w)))"

fun task_step :: "answer \<Rightarrow> task \<Rightarrow> world \<Rightarrow> task list \<times> world" where
  "task_step an (TPass i due nxt) w = ([], do_write an (claim_op i due nxt) w)"
| "task_step an (TClaimOwn i due nxt now runID) w =
     (let (won, w') = claimFire an i due nxt w
      in (if won then [TRecord i due now runID []] else [], w'))"
| "task_step an (TClaim sc due nxt now) w =
     (let (won, w') = claimFire an (sc_ID sc) due nxt w
      in (if won then [TFire sc due nxt now] else [], w'))"
| "task_step an (TFire sc due nxt now) w =
     (let (r, runs) = fire (an_fire an) sc (wo_runs w)
      in (after_fire an sc due nxt now r, w\<lparr>wo_runs := runs\<rparr>))"
| "task_step an (TTake fl now) w = (takeUp an fl now w, w)"
| "task_step an (TDisabled i due now) w =
     record_then_settle an i due (OpRecordFire i now [] (Clip disabledReason maxFailure)) w"
| "task_step an (TRefire sc due now) w =
     (let (r, runs) = fire (an_fire an) sc (wo_runs w)
      in (after_refire an sc due now r, w\<lparr>wo_runs := runs\<rparr>))"
| "task_step an (TSkip sc due now) w =
     (if an_skipEntry an \<noteq> [] then [TSkipFailed (sc_ID sc) due now (Clip (an_skipEntry an) maxFailure)]
      else [TSkipNote (sc_ID sc) due now], w)"
| "task_step an (TSkipFailed i due now failure) w =
     ([TSettle i due],
      (let w' = do_write an (OpRecordFire i now [] failure) w
       in if an_fails an then w'\<lparr>wo_unrecorded := insert (i, due) (wo_unrecorded w')\<rparr> else account i due w'))"
| "task_step an (TSkipNote i due now) w =
     ([TSettle i due],
      (let w' = do_write an (OpRecordSkip i now SkipNoHosts) w
       in if an_fails an then w'\<lparr>wo_unrecorded := insert (i, due) (wo_unrecorded w')\<rparr> else account i due w'))"
| "task_step an (TRelease i due nxt now cause) w =
     (let back = fst (Release i nxt due (wo_store w)) \<and> \<not> an_fails an
      in ([TReleaseNote i due now ((if back then handedReason else changedReason) @ cause)],
          do_write an (OpRelease i nxt due) w))"
| "task_step an (TReleaseNote i due now reason) w =
     (if an_fails an then ([], do_write an (OpRecordFire i now [] (Clip reason maxFailure)) w)
      else ([TSettle i due],
        (let w' = do_write an (OpRecordFire i now [] (Clip reason maxFailure)) w
         in w'\<lparr>wo_handed := insert (i, due) (wo_handed w')\<rparr>)))"
| "task_step an (TRecord i due now runID failure) w =
     record_then_settle an i due (OpRecordFire i now runID failure) w"
| "task_step an (TSettle i due) w = ([], do_write an (OpSettle i due) w)"

end
