(* ===== verification/Scheduler_Props.thy ===== *)
theory Scheduler_Props
  imports Scheduler
begin

text \<open>
  Any number of schedulers and operators over one store: the tasks of every server step in any order,
  a server may stop at any point, which drops its tasks, and operators save, edit and delete schedules
  between any two steps.
\<close>

record system =
  sy_world :: world
  sy_tasks :: "task list"

inductive sched_step :: "system \<Rightarrow> system \<Rightarrow> bool" where
  save: "sched_step \<lparr>sy_world = w, sy_tasks = ts\<rparr>
     \<lparr>sy_world = w\<lparr>wo_store := SaveSchedule s (wo_store w)\<rparr>, sy_tasks = ts\<rparr>"
| edit: "sched_step \<lparr>sy_world = w, sy_tasks = ts\<rparr>
     \<lparr>sy_world = w\<lparr>wo_store := snd (UpdateSchedule s (wo_store w))\<rparr>, sy_tasks = ts\<rparr>"
| delete: "sched_step \<lparr>sy_world = w, sy_tasks = ts\<rparr>
     \<lparr>sy_world = w\<lparr>wo_store := snd (DeleteSchedule i (wo_store w)), wo_deleted := insert i (wo_deleted w)\<rparr>,
      sy_tasks = ts\<rparr>"
| tick: "sched_step \<lparr>sy_world = w, sy_tasks = ts\<rparr>
     \<lparr>sy_world = w, sy_tasks = ts @ tick an runActive nf sc now\<rparr>"
| sweep: "sched_step \<lparr>sy_world = w, sy_tasks = ts\<rparr>
     \<lparr>sy_world = w\<lparr>wo_store := snd (TakeInFlight clock ord grace (wo_store w))\<rparr>,
      sy_tasks = ts @ map (\<lambda>fl. TTake fl now) (fst (TakeInFlight clock ord grace (wo_store w)))\<rparr>"
| stop: "sched_step \<lparr>sy_world = w, sy_tasks = ts @ t # us\<rparr> \<lparr>sy_world = w, sy_tasks = ts @ us\<rparr>"
| task: "task_step an t w = (new, w') \<Longrightarrow>
     sched_step \<lparr>sy_world = w, sy_tasks = ts @ t # us\<rparr> \<lparr>sy_world = w', sy_tasks = ts @ new @ us\<rparr>"

definition fresh_world :: "world \<Rightarrow> bool" where
  "fresh_world w \<longleftrightarrow> wo_claimed w = {}"

inductive scheduled :: "system \<Rightarrow> bool" where
  init: "fresh_world w \<Longrightarrow> scheduled \<lparr>sy_world = w, sy_tasks = []\<rparr>"
| step: "scheduled s \<Longrightarrow> sched_step s s' \<Longrightarrow> scheduled s'"

section \<open>No claimed occurrence is lost\<close>





lemma write_history [simp]:
  "wo_claimed (do_write an op w) = wo_claimed w" "wo_accounted (do_write an op w) = wo_accounted w"
  "wo_handed (do_write an op w) = wo_handed w" "wo_unrecorded (do_write an op w) = wo_unrecorded w"
  "wo_deleted (do_write an op w) = wo_deleted w" "wo_runs (do_write an op w) = wo_runs w"
  by (simp_all add: do_write_def)









lemma no_settle [simp]:
  "TSettle i t \<notin> set (after_fire an sc due nxt now r)"
  "TSettle i t \<notin> set (after_refire an sc due now r)"
  "TSettle i t \<notin> set (takeUp an fl now w)"
  "TSettle i t \<notin> set (fireDue an runActive nf sc due now)"
  "TSettle i t \<notin> set (tick an runActive nf sc now)"
  by (auto simp: after_fire_def after_refire_def takeUp_def fireDue_def tick_def Let_def
      split: sum.splits option.splits next_fire.splits)








section \<open>A run of steps\<close>

definition calm :: answer where
  "calm = \<lparr>an_fails = False, an_landed = False, an_clock = 6, an_stopped = False, an_runByKey = None,
     an_skipEntry = [], an_fire = \<lparr>fe_sha = (\<lambda>s. s), fe_re = (\<lambda>_. None), fe_f2i = (\<lambda>m e. m), fe_templates = None,
       fe_append = None, fe_submit = (\<lambda>_. (Some (FireSubmit []), None)), fe_text = (\<lambda>_. [])\<rparr>\<rparr>"

definition first_world :: world where
  "first_world = \<lparr>wo_store = nightly_store, wo_runs = Map.empty, wo_claimed = {}, wo_accounted = {}, wo_handed = {},
     wo_unrecorded = {}, wo_deleted = {}\<rparr>"

abbreviation system_of :: "world \<Rightarrow> task list \<Rightarrow> system" where
  "system_of w ts \<equiv> \<lparr>sy_world = w, sy_tasks = ts\<rparr>"

lemma scheduled_task:
  "scheduled (system_of w (ts @ t # us)) \<Longrightarrow>
     scheduled (system_of (snd (task_step an t w)) (ts @ fst (task_step an t w) @ us))"
  by (rule scheduled.step, assumption, rule sched_step.task) simp

lemma scheduled_tick:
  "scheduled (system_of w ts) \<Longrightarrow> scheduled (system_of w (ts @ tick an runActive nf sc now))"
  by (rule scheduled.step, assumption, rule sched_step.tick)

text \<open>The world once the occurrence at 5 of the nightly schedule is claimed, with the next one at 9.\<close>

definition claimed_world :: world where
  "claimed_world = first_world\<lparr>wo_store := snd (ClaimFire 6 ''s'' 5 (Some 9) nightly_store), wo_claimed := {(''s'', 5)}\<rparr>"

lemma nightly_ID [simp]: "sc_ID nightly = ''s''"
  by (simp add: nightly_def)

lemma nightly_claim: "fst (ClaimFire 6 ''s'' 5 (Some 9) nightly_store)"
  by (simp add: nightly_defs ClaimFire_def expects_def)

lemma claim_nightly: "task_step calm (TClaim nightly 5 (Some 9) 6) first_world = ([TFire nightly 5 (Some 9) 6], claimed_world)"
  using nightly_claim
  by (simp add: claimFire_def do_write_def calm_def first_world_def claimed_world_def)

lemma scheduled_claimed: "scheduled (system_of claimed_world [TFire nightly 5 (Some 9) 6])"
proof -
  have "scheduled (system_of first_world [])"
    by (rule scheduled.init) (simp add: first_world_def fresh_world_def)
  from scheduled_tick [OF this, of calm None "NextAt 9" nightly 6]
  have "scheduled (system_of first_world ([] @ TClaim nightly 5 (Some 9) 6 # []))"
    by (simp add: tick_def fireDue_def overlaps_def calm_def nightly_def)
  from scheduled_task [OF this, of calm] show ?thesis by (simp add: claim_nightly del: task_step.simps)
qed


section \<open>One run for each occurrence\<close>












section \<open>Where the guarantee ends\<close>

text \<open>\<open>handBack\<close> releases the occurrence first and settles its mark last. Between the two another server
  may claim the occurrence again, which marks it again, and the settling then clears that server's mark.
  Should it stop before its run exists, the occurrence is gone: nothing runs it, the row has moved on,
  and all the schedule says is that it was handed back and fires later.\<close>

definition halting :: answer where
  "halting = calm\<lparr>an_stopped := True\<rparr>"

lemma fire_nightly: "fire (an_fire calm) nightly runs = (Inl (FireSubmit []), runs)"
  by (simp add: fire_def loadTemplate_def nightly_def recordFireEntry_def append_entry_def calm_def submit_def
      split: option.splits)

lemma release_nightly:
  "fst (Release ''s'' (Some 9) 5 (wo_store claimed_world))"
  "expects ''s'' 5 (snd (Release ''s'' (Some 9) 5 (wo_store claimed_world)))"
  "mark_of ''s'' (snd (Release ''s'' (Some 9) 5 (wo_store claimed_world))) = Some 5"
  using nightly_claim
  by (auto simp: claimed_world_def ClaimFire_def Release_def set_next_def nightly_defs expects_def mark_of_def
      split: if_splits)

lemma hand_back_can_lose_a_claim:
  "\<exists>w. scheduled (system_of w []) \<and> (''s'', 5) \<in> wo_claimed w \<and> mark_of ''s'' (wo_store w) = None \<and>
     next_of ''s'' (wo_store w) = Some 9 \<and> wo_runs w = Map.empty \<and> (''s'', 5) \<notin> wo_accounted w \<and>
     wo_unrecorded w = {} \<and> wo_deleted w = {}"
proof -
  let ?fire = "TFire nightly 5 (Some 9) 6"
  have "scheduled (system_of claimed_world ([] @ ?fire # []))" using scheduled_claimed by simp
  from scheduled_task [OF this, of halting]
  have released: "scheduled (system_of claimed_world ([] @ TRelease ''s'' 5 (Some 9) 6 [] # []))"
    by (simp add: halting_def after_fire_def skipped_def fire_nightly) (simp add: calm_def)
  define w1 where "w1 = claimed_world\<lparr>wo_store := snd (Release ''s'' (Some 9) 5 (wo_store claimed_world))\<rparr>"
  from scheduled_task [OF released, of calm] release_nightly(1)
  have noting: "scheduled (system_of w1 [TReleaseNote ''s'' 5 6 handedReason])"
    by (simp add: w1_def do_write_def calm_def)
  from scheduled_tick [OF this, of calm None "NextAt 9" nightly 6]
  have claiming: "scheduled (system_of w1 ([TReleaseNote ''s'' 5 6 handedReason] @ TClaim nightly 5 (Some 9) 6 # []))"
    by (simp add: tick_def fireDue_def overlaps_def calm_def nightly_def)
  have again: "fst (ClaimFire 6 ''s'' 5 (Some 9) (wo_store w1))"
    using release_nightly(2,3) by (auto simp: ClaimFire_def w1_def mark_of_def split: option.splits)
  define w2 where "w2 = w1\<lparr>wo_store := snd (ClaimFire 6 ''s'' 5 (Some 9) (wo_store w1)), wo_claimed := insert (''s'', 5) (wo_claimed w1)\<rparr>"
  from scheduled_task [OF claiming, of calm] again
  have "scheduled (system_of w2 ([] @ TReleaseNote ''s'' 5 6 handedReason # [?fire]))"
    by (simp add: claimFire_def do_write_def calm_def w2_def)
  from scheduled_task [OF this, of calm] obtain w3 where
    w3: "scheduled (system_of w3 ([] @ TSettle ''s'' 5 # [?fire]))"
    and w3_def: "w3 = w2\<lparr>wo_store := RecordFire ''s'' 6 [] (Clip handedReason maxFailure) (wo_store w2),
      wo_handed := insert (''s'', 5) (wo_handed w2)\<rparr>"
    by (simp add: do_write_def calm_def)
  define w4 where "w4 = w3\<lparr>wo_store := SettleInFlight ''s'' 5 (wo_store w3)\<rparr>"
  from scheduled_task [OF w3, of calm] have "scheduled (system_of w4 ([] @ ?fire # []))"
    by (simp add: do_write_def calm_def w4_def)
  from scheduled.step [OF this sched_step.stop] have done_w4: "scheduled (system_of w4 [])" by simp
  have "mark_of ''s'' (wo_store w2) = Some 5" "next_of ''s'' (wo_store w2) = Some 9"
    using again by (auto simp: w2_def ClaimFire_def mark_of_def next_set_next expects_next next_Some_row split: if_splits)
  then have "mark_of ''s'' (wo_store w4) = None" "next_of ''s'' (wo_store w4) = Some 9"
    by (auto simp: w4_def w3_def mark_of_def SettleInFlight_def RecordFire_def next_of_def
        split: option.splits Option.bind_splits)
  then show ?thesis
    using done_w4 by (intro exI [of _ w4]) (simp add: w4_def w3_def w2_def w1_def claimed_world_def first_world_def)
qed

text \<open>\<open>skip\<close> only logs a record its store refused, and the mark is settled all the same: the fire ends
  with neither a run nor a word on its schedule, where \<open>recordFire\<close> keeps the mark for a later sweep.\<close>

lemma refused_skip_record_is_settled:
  assumes "an_fails an" and "\<not> an_landed an"
  shows "task_step an (TSkipNote i due now) w =
      ([TSettle i due], w\<lparr>wo_unrecorded := insert (i, due) (wo_unrecorded w)\<rparr>)"
    and "task_step an (TRecord i due now runID failure) w = ([], w)"
  using assms by (simp_all add: do_write_def record_then_settle_def)

end
