(* ===== verification/Recurrence.thy ===== *)
theory Recurrence
  imports Zone_Time GoStrings
begin

text \<open>
  RFC 5545 recurrences (\<open>internal/schedule/rrule.go\<close>): what a stored rule may hold, and its next instant
  after a time. The rrule library is the record \<open>rrule_lib\<close>: it reads a rule's text, refuses options it
  cannot build, and expands them into the wall clock readings they name, in order, which end in the year
  9999. The record also holds what the standard library does with names and dates: \<open>upper\<close>, the zone
  database and the reading of a date. Instants are Unix seconds, except a rule's own start, which is in
  nanoseconds, since the fast forward adds a \<open>time.Duration\<close> to it, 64 bits of nanoseconds that wrap.
  \<open>rl_parseDate\<close> reads a date, or a date and time, in UTC.
\<close>

datatype frequency = YEARLY | MONTHLY | WEEKLY | DAILY | HOURLY | MINUTELY | SECONDLY

record roption =
  ro_Freq :: frequency
  ro_Dtstart :: int
  ro_Interval :: int
  ro_Count :: int
  ro_Bylists :: "int list list"

record rrule_lib =
  rl_upper :: "string \<Rightarrow> string"
  rl_zone :: "string \<Rightarrow> zone option"
  rl_date :: "zone \<Rightarrow> int \<Rightarrow> int"
  rl_parseDate :: "bool \<Rightarrow> string \<Rightarrow> int option"
  rl_parseRule :: "string \<Rightarrow> roption option"
  rl_builds :: "roption \<Rightarrow> bool"
  rl_expand :: "roption \<Rightarrow> int list"

datatype recur_error =
    RecurTooLong | RecurNotProperty string | RecurTwoStarts | RecurNoRule string | RecurUnknown string
  | RecurNoStart | RecurNoRules | RecurTooManyRules | RecurTooManyDates | RecurNoTime | RecurParam string
  | RecurBadZone string | RecurValue string | RecurPair string | RecurKey string | RecurTwice string
  | RecurCountUntil | RecurUnread string | RecurSecondly | RecurCount | RecurInterval | RecurByProduct int
  | RecurBadDate string | RecurNoDates string | RecurZoneAndZ string | RecurUnbuilt | RecurWithoutEnd
  | RecurZones string string
  | RecurExhausted

record bound =
  bd_opt :: roption
  bd_until :: "int option"

record recurrence =
  rc_loc :: zone
  rc_zone :: string
  rc_start :: int
  rc_include :: "bound list"
  rc_exclude :: "bound list"
  rc_rdates :: "int list"
  rc_exdates :: "int list"
  rc_gap :: string

definition maxRecurrenceBytes :: nat where "maxRecurrenceBytes = 8 * 1024"
definition maxRules :: nat where "maxRules = 16"
definition maxDates :: nat where "maxDates = 1000"
definition maxCount :: int where "maxCount = 10000"
definition maxInterval :: int where "maxInterval = 100000"
definition maxExamined :: nat where "maxExamined = 200000"
definition maxByProduct :: int where "maxByProduct = 100000"
definition fastForwardMargin :: int where "fastForwardMargin = 3 * 86400"

definition ruleKeys :: "string list" where
  "ruleKeys = [''FREQ'', ''INTERVAL'', ''COUNT'', ''UNTIL'', ''WKST'', ''BYSETPOS'', ''BYMONTH'', ''BYMONTHDAY'',
     ''BYYEARDAY'', ''BYWEEKNO'', ''BYDAY'', ''BYHOUR'', ''BYMINUTE'', ''BYSECOND'']"

section \<open>Bounds on a rule\<close>

text \<open>\<open>byProduct\<close> counts the occurrences the BY parts place in a period, and stops once past the bound.\<close>

fun by_product :: "int list \<Rightarrow> int \<Rightarrow> int" where
  "by_product [] product = product"
| "by_product (n # ns) product =
     (if n \<le> 1 then by_product ns product
      else if product > maxByProduct div n + 1 then maxByProduct + 1
      else by_product ns (product * n))"

definition byProduct :: "roption \<Rightarrow> int" where
  "byProduct opt = by_product (map (\<lambda>l. int (length l)) (ro_Bylists opt)) 1"

definition wrap64 :: "int \<Rightarrow> int" where
  "wrap64 n = (n + 2 ^ 63) mod 2 ^ 64 - 2 ^ 63"

definition fastForward :: "roption \<Rightarrow> int \<Rightarrow> roption" where
  "fastForward opt target =
     (if ro_Count opt > 0 then opt
      else
        let unit = (case ro_Freq opt of MINUTELY \<Rightarrow> 60 | HOURLY \<Rightarrow> 3600 | DAILY \<Rightarrow> 86400 | WEEKLY \<Rightarrow> 7 * 86400
                    | _ \<Rightarrow> 0);
            period = unit * max (ro_Interval opt) 1;
            gap = target - ro_Dtstart opt div second
        in if unit = 0 \<or> gap \<le> period then opt
           else opt\<lparr>ro_Dtstart := ro_Dtstart opt + wrap64 (gap div period * period * second)\<rparr>)"

section \<open>Exclusions\<close>

record exclusion_rule =
  er_next :: "int list"
  er_until :: "int option"
  er_reached :: "int option"

record exclusion_set =
  ex_loc :: zone
  ex_highOff :: int
  ex_rules :: "exclusion_rule list"
  ex_hits :: "int set"
  ex_gap :: string

definition under_until :: "int option \<Rightarrow> int \<Rightarrow> bool" where
  "under_until u t \<longleftrightarrow> (case u of None \<Rightarrow> True | Some v \<Rightarrow> t \<le> v)"

text \<open>One rule expanded past \<open>upper\<close>, its instants added to the hits. \<open>er_reached\<close> is \<open>None\<close> while it is the
  zero time, which is before every reading.\<close>

fun expand_rule :: "rrule_lib \<Rightarrow> zone \<Rightarrow> string \<Rightarrow> int \<Rightarrow> int option \<Rightarrow> int option \<Rightarrow> int list \<Rightarrow> int set \<Rightarrow>
    exclusion_rule \<times> int set" where
  "expand_rule lib z gap upper until reached [] hits =
     (\<lparr>er_next = [], er_until = until, er_reached = reached\<rparr>, hits)"
| "expand_rule lib z gap upper until reached (w # ws) hits =
     (if (case reached of Some r \<Rightarrow> r > upper | None \<Rightarrow> False)
      then (\<lparr>er_next = w # ws, er_until = until, er_reached = reached\<rparr>, hits)
      else expand_rule lib z gap upper until (Some w) ws
        (case placeWall (rl_date lib z) z w gap of
           Some at \<Rightarrow> if under_until until at then insert at hits else hits
         | None \<Rightarrow> hits))"

fun expand_rules :: "rrule_lib \<Rightarrow> zone \<Rightarrow> string \<Rightarrow> int \<Rightarrow> exclusion_rule list \<Rightarrow> int set \<Rightarrow>
    exclusion_rule list \<times> int set" where
  "expand_rules lib z gap upper [] hits = ([], hits)"
| "expand_rules lib z gap upper (r # rs) hits =
     (let (r', hits1) = expand_rule lib z gap upper (er_until r) (er_reached r) (er_next r) hits;
          (rs', hits2) = expand_rules lib z gap upper rs hits1
      in (r' # rs', hits2))"

definition excluded :: "rrule_lib \<Rightarrow> exclusion_set \<Rightarrow> int \<Rightarrow> bool \<times> exclusion_set" where
  "excluded lib ex at =
     (let (rs, hits) = expand_rules lib (ex_loc ex) (ex_gap ex) (at + ex_highOff ex + 1) (ex_rules ex) (ex_hits ex)
      in (at \<in> hits, ex\<lparr>ex_rules := rs, ex_hits := hits\<rparr>))"

definition exclusions :: "rrule_lib \<Rightarrow> recurrence \<Rightarrow> int \<Rightarrow> int \<Rightarrow> recur_error + exclusion_set" where
  "exclusions lib rc floor highOff =
     (if list_all (\<lambda>b. rl_builds lib (fastForward (bd_opt b) (floor - fastForwardMargin))) (rc_exclude rc)
      then Inr \<lparr>ex_loc = rc_loc rc, ex_highOff = highOff,
        ex_rules = map (\<lambda>b. \<lparr>er_next = rl_expand lib (fastForward (bd_opt b) (floor - fastForwardMargin)),
          er_until = bd_until b, er_reached = None\<rparr>) (rc_exclude rc),
        ex_hits = set (rc_exdates rc), ex_gap = rc_gap rc\<rparr>
      else Inl RecurUnbuilt)"

section \<open>The next instant\<close>

definition earlier :: "int \<Rightarrow> int option \<Rightarrow> bool" where
  "earlier t best \<longleftrightarrow> (case best of None \<Rightarrow> True | Some b \<Rightarrow> t < b)"

text \<open>The scan of one rule's readings. \<open>examined\<close> is how many it may still look at.\<close>

fun scan_rule :: "rrule_lib \<Rightarrow> recurrence \<Rightarrow> int option \<Rightarrow> int \<Rightarrow> int \<Rightarrow> int \<Rightarrow> nat \<Rightarrow> int list \<Rightarrow> int option \<Rightarrow>
    exclusion_set \<Rightarrow> recur_error + int option \<times> exclusion_set" where
  "scan_rule lib rc until after floor highOff examined [] best ex = Inr (best, ex)"
| "scan_rule lib rc until after floor highOff 0 (w # ws) best ex = Inl RecurWithoutEnd"
| "scan_rule lib rc until after floor highOff (Suc examined) (w # ws) best ex =
     (if \<not> w > floor then scan_rule lib rc until after floor highOff examined ws best ex
      else if (case best of Some b \<Rightarrow> w - highOff > b | None \<Rightarrow> False) then Inr (best, ex)
      else if (case until of Some u \<Rightarrow> w - highOff > u | None \<Rightarrow> False) then Inr (best, ex)
      else case placeWall (rl_date lib (rc_loc rc)) (rc_loc rc) w (rc_gap rc) of
        None \<Rightarrow> scan_rule lib rc until after floor highOff examined ws best ex
      | Some at \<Rightarrow>
          if \<not> at > after \<or> \<not> under_until until at then scan_rule lib rc until after floor highOff examined ws best ex
          else if \<not> earlier at best then scan_rule lib rc until after floor highOff examined ws best ex
          else (let (out, ex') = excluded lib ex at
                in scan_rule lib rc until after floor highOff examined ws (if out then best else Some at) ex'))"

definition nextOf :: "rrule_lib \<Rightarrow> recurrence \<Rightarrow> bound \<Rightarrow> int \<Rightarrow> int \<Rightarrow> int option \<Rightarrow> int \<Rightarrow> exclusion_set \<Rightarrow>
    recur_error + int option \<times> exclusion_set" where
  "nextOf lib rc b after floor best highOff ex =
     (let opt = fastForward (bd_opt b) (floor - fastForwardMargin)
      in if \<not> rl_builds lib opt then Inl RecurUnbuilt
         else scan_rule lib rc (bd_until b) after floor highOff maxExamined (rl_expand lib opt) best ex)"

fun next_rules :: "rrule_lib \<Rightarrow> recurrence \<Rightarrow> int \<Rightarrow> int \<Rightarrow> int \<Rightarrow> bound list \<Rightarrow> int option \<Rightarrow> exclusion_set \<Rightarrow>
    recur_error + int option \<times> exclusion_set" where
  "next_rules lib rc after floor highOff [] best ex = Inr (best, ex)"
| "next_rules lib rc after floor highOff (b # bs) best ex =
     (case nextOf lib rc b after floor best highOff ex of
        Inl e \<Rightarrow> Inl e
      | Inr (found, ex') \<Rightarrow>
          next_rules lib rc after floor highOff bs
            (case found of Some f \<Rightarrow> if earlier f best then Some f else best | None \<Rightarrow> best) ex')"

fun next_dates :: "rrule_lib \<Rightarrow> int \<Rightarrow> int list \<Rightarrow> int option \<Rightarrow> exclusion_set \<Rightarrow> int option \<times> exclusion_set" where
  "next_dates lib after [] best ex = (best, ex)"
| "next_dates lib after (d # ds) best ex =
     (if d > after \<and> earlier d best
      then (let (out, ex') = excluded lib ex d in next_dates lib after ds (if out then best else Some d) ex')
      else next_dates lib after ds best ex)"

definition RecurrenceNext :: "rrule_lib \<Rightarrow> recurrence \<Rightarrow> int \<Rightarrow> recur_error + int" where
  "RecurrenceNext lib rc after =
     (let (lowOff, highOff) = offsetRange (rc_loc rc) after;
          floor = after + lowOff
      in case exclusions lib rc floor highOff of
           Inl e \<Rightarrow> Inl e
         | Inr ex \<Rightarrow>
             (case next_rules lib rc after floor highOff (rc_include rc) None ex of
                Inl e \<Rightarrow> Inl e
              | Inr (best, ex') \<Rightarrow>
                  (case fst (next_dates lib after (rc_rdates rc) best ex') of
                     None \<Rightarrow> Inl RecurExhausted
                   | Some t \<Rightarrow> Inr t)))"

end
