(* ===== verification/Zone_Props.thy ===== *)
theory Zone_Props
  imports Zone_Time
begin

text \<open>
  Placing a wall clock reading is right on every night: a reading the clocks show is placed at its first
  occurrence, and one they skip exactly at the jump that skips it. The search for the jump always ends,
  at an instant past it and less than a second late.
\<close>

section \<open>Offsets and bounds\<close>

text \<open>The reading of the wall clock at an instant.\<close>

definition reading :: "zone \<Rightarrow> int \<Rightarrow> int" where
  "reading z t = t + offset_at z t"

definition same_side :: "zone \<Rightarrow> int \<Rightarrow> int \<Rightarrow> bool" where
  "same_side z t u \<longleftrightarrow> (\<forall>a\<in>fst ` set (zn_trans z). a \<le> t \<longleftrightarrow> a \<le> u)"

lemma same_side_offset: "same_side z t u \<Longrightarrow> offset_at z t = offset_at z u"
  and same_side_begin: "same_side z t u \<Longrightarrow> zone_begin z t = zone_begin z u"
  by (induction "zn_trans z") (auto simp: offset_at_def zone_begin_def same_side_def intro!: fold_cong)

lemma same_side_finish: "same_side z t u \<Longrightarrow> zone_finish z t = zone_finish z u"
proof -
  assume "same_side z t u"
  then have "List.find (\<lambda>(a, _). t < a) (zn_trans z) = List.find (\<lambda>(a, _). u < a) (zn_trans z)"
    by (intro find_cong) (force simp: same_side_def)+
  then show ?thesis by (simp add: zone_finish_def)
qed

lemma finish_None: "zone_finish z t = None \<longleftrightarrow> (\<forall>a\<in>fst ` set (zn_trans z). a \<le> t)"
  by (force simp: zone_finish_def find_None_iff)

lemma finish_Some:
  assumes "zone_ok z" and "zone_finish z t = Some e"
  shows "t < e" and "e \<in> fst ` set (zn_trans z)" and "\<forall>a\<in>fst ` set (zn_trans z). t < a \<longrightarrow> e \<le> a"
proof -
  have "t < e \<and> e \<in> fst ` set xs \<and> (\<forall>a\<in>fst ` set xs. t < a \<longrightarrow> e \<le> a)"
    if "sorted_wrt (<) (map fst xs)" "map_option fst (List.find (\<lambda>(a, _). t < a) xs) = Some e" for xs :: "(int \<times> int) list"
    using that by (induction xs) (auto split: if_splits prod.splits)
  then show "t < e" "e \<in> fst ` set (zn_trans z)" "\<forall>a\<in>fst ` set (zn_trans z). t < a \<longrightarrow> e \<le> a"
    using assms unfolding zone_ok_def zone_finish_def by blast+
qed

lemma same_side_period: "same_side z t u \<Longrightarrow> period_at z t = period_at z u"
  by (simp add: period_at_def same_side_offset [of z t u] same_side_begin [of z t u] same_side_finish [of z t u])

lemma same_side_until:
  assumes "zone_ok z" and "t \<le> u" and "\<forall>e. zone_finish z t = Some e \<longrightarrow> u < e"
  shows "same_side z t u"
proof (cases "zone_finish z t")
  case None
  then show ?thesis using assms(2) by (force simp: finish_None same_side_def)
next
  case (Some e)
  then show ?thesis using assms finish_Some [OF assms(1) Some] by (force simp: same_side_def)
qed

lemma begin_fold:
  fixes xs :: "(int \<times> int) list"
  assumes "sorted_wrt (<) (map fst xs)"
  shows "case fold (\<lambda>(a, _) cur. if a \<le> t then Some a else cur) xs None of
      None \<Rightarrow> \<forall>a\<in>fst ` set xs. t < a
    | Some b \<Rightarrow> b \<le> t \<and> b \<in> fst ` set xs \<and> (\<forall>a\<in>fst ` set xs. a \<le> t \<longrightarrow> a \<le> b)"
  using assms
proof (induction xs rule: rev_induct)
  case (snoc y xs)
  obtain a off where y: "y = (a, off)" by (cases y)
  have below: "\<forall>b\<in>fst ` set xs. b < a" and s: "sorted_wrt (<) (map fst xs)"
    using snoc.prems by (auto simp: y sorted_wrt_append)
  show ?case using snoc.IH [OF s] below by (cases "a \<le> t") (fastforce simp: y split: option.splits)+
qed simp

lemma begin_None: "zone_ok z \<Longrightarrow> zone_begin z t = None \<Longrightarrow> \<forall>a\<in>fst ` set (zn_trans z). t < a"
  using begin_fold [of "zn_trans z" t] by (simp add: zone_ok_def zone_begin_def)

lemma begin_Some:
  assumes "zone_ok z" and "zone_begin z t = Some b"
  shows "b \<le> t" and "b \<in> fst ` set (zn_trans z)" and "\<forall>a\<in>fst ` set (zn_trans z). a \<le> t \<longrightarrow> a \<le> b"
  using begin_fold [of "zn_trans z" t] assms by (auto simp: zone_ok_def zone_begin_def)

text \<open>The instants of a period are those no transition parts from the one it was read at.\<close>

definition in_range :: "int \<Rightarrow> bool" where
  "in_range t \<longleftrightarrow> - (2 ^ 62) < t \<and> t < 2 ^ 62"

definition within :: "zone_period \<Rightarrow> int \<Rightarrow> bool" where
  "within p t \<longleftrightarrow> zp_start p \<le> t \<and> t < zp_end p"

lemma within_period:
  assumes "zone_ok z" and "in_range u"
  shows "within (period_at z t) u \<longleftrightarrow> same_side z t u"
proof
  assume w: "within (period_at z t) u"
  show "same_side z t u"
    unfolding same_side_def
  proof
    fix a
    assume a: "a \<in> fst ` set (zn_trans z)"
    have "a \<le> t \<Longrightarrow> a \<le> u"
      using w a begin_None [OF assms(1), of t] begin_Some [OF assms(1), of t]
      by (force simp: within_def period_at_def split: option.splits)
    moreover have "\<not> a \<le> t \<Longrightarrow> \<not> a \<le> u"
      using w a finish_None [of z t] finish_Some [OF assms(1), of t]
      by (force simp: within_def period_at_def split: option.splits)
    ultimately show "a \<le> t \<longleftrightarrow> a \<le> u" by blast
  qed
next
  assume s: "same_side z t u"
  have "zp_start (period_at z t) \<le> u"
    using s begin_Some [OF assms(1), of t] assms(2)
    by (auto simp: period_at_def same_side_def MinInt64_def in_range_def split: option.splits)
  moreover have "u < zp_end (period_at z t)"
    using s finish_Some [OF assms(1), of t] assms(2)
    by (force simp: period_at_def same_side_def MaxInt64_def in_range_def split: option.splits)
  ultimately show "within (period_at z t) u" by (simp add: within_def)
qed

section \<open>The walk over periods\<close>

text \<open>How many transitions lie ahead of \<open>t\<close>, up to \<open>u\<close>.\<close>

definition ahead :: "zone \<Rightarrow> int \<Rightarrow> int \<Rightarrow> nat" where
  "ahead z t u = length (filter (\<lambda>(a, _). t < a \<and> a \<le> u) (zn_trans z))"

lemma ahead_less:
  assumes "e \<in> fst ` set (zn_trans z)" and "t < e" and "e \<le> u"
  shows "ahead z e u < ahead z t u"
proof -
  have "length (filter (\<lambda>(a, _). e < a \<and> a \<le> u) xs) < length (filter (\<lambda>(a, _). t < a \<and> a \<le> u) xs)"
    if "e \<in> fst ` set xs" for xs :: "(int \<times> int) list"
    using that
  proof (induction xs)
    case (Cons x xs)
    have le: "length (filter (\<lambda>(a, _). e < a \<and> a \<le> u) ys) \<le> length (filter (\<lambda>(a, _). t < a \<and> a \<le> u) ys)"
      for ys :: "(int \<times> int) list"
      using assms(2) by (induction ys) auto
    show ?case
    proof (cases "fst x = e")
      case True
      then show ?thesis using le [of xs] assms(2,3) by (cases x) auto
    next
      case False
      then have "e \<in> fst ` set xs" using Cons.prems by auto
      from Cons.IH [OF this] show ?thesis using assms(2) by (cases x) auto
    qed
  qed simp
  then show ?thesis using assms(1) by (simp add: ahead_def)
qed

lemma walk_covers:
  assumes "zone_ok z" and "ahead z t u < n" and "t \<le> v" and "v \<le> u"
  shows "period_at z v \<in> set (zone_walk n z t u)"
  using assms(2,3)
proof (induction n arbitrary: t)
  case (Suc n)
  show ?case
  proof (cases "\<forall>e. zone_finish z t = Some e \<longrightarrow> v < e")
    case True
    then show ?thesis using same_side_period [OF same_side_until [OF assms(1) Suc.prems(2)]] by simp
  next
    case False
    then obtain e where e: "zone_finish z t = Some e" "e \<le> v" by auto
    have "ahead z e u < n"
      using ahead_less [of e z t u] finish_Some [OF assms(1) e(1)] e(2) assms(4) Suc.prems(1) by simp
    from Suc.IH [OF this e(2)] show ?thesis using e assms(4) by simp
  qed
qed simp

text \<open>Every period of a walk is one of the zone's, and two that follow each other meet at a transition.\<close>

lemma walk_periods: "p \<in> set (zone_walk n z t u) \<Longrightarrow> \<exists>v. p = period_at z v"
  by (induction n arbitrary: t) (auto split: option.splits if_splits)

lemma period_at_start:
  assumes "zone_ok z" and "zone_finish z t = Some e"
  shows "zp_start (period_at z e) = e" and "same_side z t (e - 1)"
proof -
  have "zone_begin z e \<noteq> None"
    using begin_None [OF assms(1), of e] finish_Some(2) [OF assms] by auto
  then obtain b where b: "zone_begin z e = Some b" by auto
  have "e \<le> b" using begin_Some(3) [OF assms(1) b] finish_Some(2) [OF assms] by blast
  then have "b = e" using begin_Some(1) [OF assms(1) b] by simp
  then show "zp_start (period_at z e) = e" using b by (simp add: period_at_def)
  show "same_side z t (e - 1)" using same_side_until [OF assms(1), of t "e - 1"] finish_Some(1) [OF assms] assms(2) by simp
qed

lemma walk_head: "zone_walk (Suc n) z t u = period_at z t # tl (zone_walk (Suc n) z t u)"
  by simp

lemma skipped_at_walk:
  assumes "zone_ok z" and "skipped_at sec (zone_walk n z t u) = Some (before, jump)"
  shows "before = period_at z (zp_start jump - 1) \<and> jump = period_at z (zp_start jump) \<and>
    sec \<ge> zp_start jump + zp_offset before \<and> sec < zp_start jump + zp_offset jump"
  using assms(2)
proof (induction n arbitrary: t)
  case (Suc n)
  show ?case
  proof (cases "\<exists>e m. zone_finish z t = Some e \<and> e \<le> u \<and> n = Suc m")
    case True
    then obtain e m where e: "zone_finish z t = Some e" "e \<le> u" "n = Suc m" by blast
    have w: "zone_walk (Suc n) z t u = period_at z t # zone_walk n z e u" using e by simp
    have w': "zone_walk n z e u = period_at z e # tl (zone_walk n z e u)" using e(3) walk_head by simp
    note st = period_at_start [OF assms(1) e(1)]
    show ?thesis
    proof (cases "sec \<ge> zp_start (period_at z e) + zp_offset (period_at z t) \<and> sec < zp_start (period_at z e) + zp_offset (period_at z e)")
      case True
      then have "before = period_at z t" "jump = period_at z e"
        using Suc.prems unfolding w by (subst (asm) w', simp)+
      then show ?thesis using True st same_side_period [OF st(2)] by simp
    next
      case False
      then have "skipped_at sec (zone_walk n z e u) = Some (before, jump)"
        using Suc.prems unfolding w by (subst w', subst (asm) w') auto
      then show ?thesis by (rule Suc.IH)
    qed
  next
    case False
    then show ?thesis using Suc.prems by (cases n) (auto split: option.splits if_splits)
  qed
qed simp

lemma skipped_at_exists:
  assumes "zone_ok z" and "s \<in> fst ` set (zn_trans z)" and "s \<le> u"
    and "s + offset_at z (s - 1) \<le> sec" and "sec < s + offset_at z s"
    and "ahead z t u < n" and "t < s"
  shows "skipped_at sec (zone_walk n z t u) \<noteq> None"
  using assms(6,7)
proof (induction n arbitrary: t)
  case (Suc n)
  obtain e where e: "zone_finish z t = Some e"
    using finish_None [of z t] assms(2) Suc.prems(2) by (cases "zone_finish z t") auto
  note fe = finish_Some [OF assms(1) e]
  have es: "e \<le> s" using fe(3) assms(2) Suc.prems(2) by auto
  have n: "ahead z e u < n" using ahead_less [OF fe(2) fe(1), of u] es assms(3) Suc.prems(1) by simp
  then obtain m where m: "n = Suc m" by (cases n) auto
  have w: "zone_walk (Suc n) z t u = period_at z t # period_at z e # tl (zone_walk n z e u)"
    using e es assms(3) walk_head [of m z e u] by (simp add: m)
  have rest: "zone_walk n z e u = period_at z e # tl (zone_walk n z e u)" using walk_head m by simp
  note st = period_at_start [OF assms(1) e]
  show ?case
  proof (cases "e = s")
    case True
    then have "zp_offset (period_at z t) = offset_at z (s - 1)"
      using same_side_offset [OF st(2)] by (simp add: period_at_def)
    then show ?thesis using True st(1) assms(4,5) unfolding w by (simp add: period_at_def [of z s])
  next
    case False
    then have "skipped_at sec (zone_walk n z e u) \<noteq> None" using Suc.IH [OF n] es by simp
    then show ?thesis unfolding w by (subst (asm) rest) auto
  qed
qed simp

section \<open>Placing a reading\<close>

definition fits :: "int \<Rightarrow> zone_period \<Rightarrow> bool" where
  "fits sec p \<longleftrightarrow> within p (sec - zp_offset p)"

lemma earliest_fold:
  "fold (\<lambda>p found. let at = sec - zp_offset p
      in if at \<ge> zp_start p \<and> at < zp_end p \<and> at < found then at else found) ps m =
   fold min (map (\<lambda>p. sec - zp_offset p) (filter (fits sec) ps)) m"
  by (induction ps arbitrary: m) (auto simp: fits_def within_def Let_def min_def)

lemma fold_min: "fold min xs (m :: int) = Min (set (m # xs))"
  by (rule Min.set_eq_fold [symmetric])

lemma earliest_reading_Min:
  "earliest_reading sec ps = Min (insert MaxInt64 ((\<lambda>p. sec - zp_offset p) ` {p \<in> set ps. fits sec p}))"
  unfolding earliest_reading_def earliest_fold fold_min by simp

definition bounded_zone :: "zone \<Rightarrow> bool" where
  "bounded_zone z \<longleftrightarrow> zone_ok z \<and> \<bar>zn_first z\<bar> < window \<and> (\<forall>off\<in>snd ` set (zn_trans z). \<bar>off\<bar> < window)"

lemma offset_bound:
  assumes "bounded_zone z"
  shows "\<bar>offset_at z t\<bar> < window"
proof -
  have "\<bar>fold (\<lambda>(a, off) cur. if a \<le> t then off else cur) xs c\<bar> < window"
    if "\<bar>c\<bar> < window" "\<forall>off\<in>snd ` set xs. \<bar>off\<bar> < window" for xs :: "(int \<times> int) list" and c
    using that by (induction xs arbitrary: c) auto
  then show ?thesis using assms unfolding bounded_zone_def offset_at_def by blast
qed

lemma reading_jump:
  assumes "reading z lo < sec" and "sec < reading z hi" and "lo \<le> hi" and "\<forall>t. reading z t \<noteq> sec"
  shows "\<exists>s. lo < s \<and> s \<le> hi \<and> reading z (s - 1) < sec \<and> sec < reading z s"
  using assms(2,3)
proof (induction "nat (hi - lo)" arbitrary: hi)
  case 0
  then show ?case using assms(1) by simp
next
  case (Suc n)
  show ?case
  proof (cases "reading z (hi - 1) < sec")
    case True
    then show ?thesis using Suc.prems Suc.hyps(2) by (intro exI [of _ hi]) auto
  next
    case False
    then have "sec < reading z (hi - 1)" using assms(4) by (metis linorder_less_linear)
    then show ?thesis using Suc.hyps(1) [of "hi - 1"] Suc.hyps(2) by fastforce
  qed
qed

lemma jump_is_transition:
  assumes "reading z (s - 1) < sec" and "sec < reading z s"
  shows "s \<in> fst ` set (zn_trans z)"
proof (rule ccontr)
  assume "s \<notin> fst ` set (zn_trans z)"
  then have "same_side z (s - 1) s" by (force simp: same_side_def)
  then have "offset_at z (s - 1) = offset_at z s" by (rule same_side_offset)
  then show False using assms by (simp add: reading_def)
qed

text \<open>What \<open>placeWall\<close> should give.\<close>

definition placed_at :: "zone \<Rightarrow> int \<Rightarrow> string \<Rightarrow> int option \<Rightarrow> bool" where
  "placed_at z sec setting r \<longleftrightarrow>
     (if \<exists>t. reading z t = sec
      then \<exists>u. r = Some u \<and> reading z u = sec \<and> (\<forall>t. reading z t = sec \<longrightarrow> u \<le> t)
      else \<exists>s. reading z (s - 1) < sec \<and> sec < reading z s \<and>
        r = (if setting = SpringForwardSkip then None
             else if setting = SpringForwardJump then Some s
             else Some (sec - offset_at z (s - 1))))"

lemma placeWall_placed_at:
  assumes "bounded_zone z" and "ahead z (sec - window) (sec + window) < 64" and "\<bar>sec\<bar> < 2 ^ 61"
  shows "placed_at z sec setting (placeWall date z sec setting)"
proof -
  have ok: "zone_ok z" using assms(1) by (simp add: bounded_zone_def)
  define ps where "ps = zonePeriods z (sec - window) (sec + window)"
  let ?C = "(\<lambda>p. sec - zp_offset p) ` {p \<in> set ps. fits sec p}"
  have off: "\<bar>offset_at z t\<bar> < window" for t by (rule offset_bound [OF assms(1)])
  have range: "in_range c" if "\<bar>sec - c\<bar> < window" for c
    using assms(3) that by (auto simp: in_range_def window_def)
  have shown: "c \<in> ?C \<longleftrightarrow> reading z c = sec" for c
  proof
    assume "c \<in> ?C"
    then obtain v where v: "c = sec - offset_at z v" "within (period_at z v) c"
      using walk_periods [of _ 64 z] by (force simp: ps_def zonePeriods_def fits_def period_at_def)
    have "in_range c" using range off [of v] v(1) by simp
    then have "same_side z v c" using within_period [OF ok] v(2) by simp
    then show "reading z c = sec" using v(1) same_side_offset [of z v c] by (simp add: reading_def)
  next
    assume r: "reading z c = sec"
    then have near: "\<bar>sec - c\<bar> < window" using off [of c] by (auto simp: reading_def)
    then have "period_at z c \<in> set ps"
      using walk_covers [OF ok assms(2), of c] by (simp add: ps_def zonePeriods_def)
    moreover have "within (period_at z c) c"
      using within_period [OF ok range [OF near]] by (simp add: same_side_def)
    ultimately show "c \<in> ?C"
      using r by (intro image_eqI [of _ _ "period_at z c"]) (auto simp: fits_def period_at_def reading_def)
  qed
  have small: "c < MaxInt64" if "c \<in> ?C" for c
    using range [of c] off [of c] that shown [of c] by (auto simp: reading_def in_range_def MaxInt64_def)
  have fin: "finite ?C" by simp
  show ?thesis
  proof (cases "\<exists>t. reading z t = sec")
    case True
    then have ne: "?C \<noteq> {}" using shown by blast
    have "earliest_reading sec ps = Min ?C"
      using earliest_reading_Min [of sec ps] Min_insert [OF fin ne, of MaxInt64] small [OF Min_in [OF fin ne]]
      by (simp add: min_def)
    moreover have "Min ?C \<noteq> MaxInt64" using small [OF Min_in [OF fin ne]] by simp
    ultimately have "placeWall date z sec setting = Some (Min ?C)"
      by (simp add: placeWall_def ps_def [symmetric] Let_def)
    moreover have "reading z (Min ?C) = sec" using shown Min_in [OF fin ne] by blast
    moreover have "\<forall>t. reading z t = sec \<longrightarrow> Min ?C \<le> t" using shown Min_le [OF fin] by blast
    ultimately show ?thesis using True by (simp add: placed_at_def)
  next
    case False
    then have "?C = {}" using shown by blast
    then have none: "earliest_reading sec ps = MaxInt64" using earliest_reading_Min [of sec ps] by (simp only: Min_singleton)
    have "reading z (sec - window) < sec" "sec < reading z (sec + window)"
      using off [of "sec - window"] off [of "sec + window"] by (auto simp: reading_def)
    from reading_jump [OF this] False obtain s where
      s: "sec - window < s" "s \<le> sec + window" "reading z (s - 1) < sec" "sec < reading z s"
      by (auto simp: window_def)
    have "skipped_at sec ps \<noteq> None"
      using skipped_at_exists [OF ok jump_is_transition [OF s(3,4)] s(2) _ _ assms(2) s(1)] s(3,4)
      by (simp add: ps_def zonePeriods_def reading_def)
    then obtain before jump where j: "skipped_at sec ps = Some (before, jump)" by auto
    note at = skipped_at_walk [OF ok j [unfolded ps_def zonePeriods_def]]
    have offs: "zp_offset before = offset_at z (zp_start jump - 1)" "zp_offset jump = offset_at z (zp_start jump)"
      using at by (metis period_at_def zone_period.select_convs(1))+
    have "placeWall date z sec setting =
        (if setting = SpringForwardSkip then None
         else if setting = SpringForwardJump then Some (zp_start jump)
         else Some (sec - offset_at z (zp_start jump - 1)))"
      by (simp add: placeWall_def ps_def [symmetric] Let_def none j offs(1))
    moreover have "reading z (zp_start jump - 1) < sec" "sec < reading z (zp_start jump)"
      using at by (simp_all add: reading_def offs)
    ultimately show ?thesis using False unfolding placed_at_def by auto
  qed
qed

text \<open>A wall clock time is placed right on every night of the year. Where the clocks show a time,
  once or twice, it is placed at the first instant they do, whatever the setting. Where they skip it,
  there is one jump over it, and it is placed at that jump, as far after it as the time was past the
  last one shown, or nowhere, as the setting says. The standard library is never left to choose. The
  zone's offsets are below 36 hours and it has fewer than 64 transitions in the three days around.\<close>

theorem wall_time_is_placed:
  assumes "bounded_zone z" and "ahead z (sec - window) (sec + window) < 64" and "\<bar>sec\<bar> < 2 ^ 61"
  shows "placed_at z sec setting (placeWall date z sec setting)"
  using assms by (rule placeWall_placed_at)

definition chicago :: zone where
  "chicago = \<lparr>zn_first = -21600, zn_trans = [(100000, -18000)]\<rparr>"

theorem wall_time_is_placed_witness:
  "placed_at chicago 79000 SpringForwardJump (placeWall (\<lambda>s. s) chicago 79000 SpringForwardJump) \<and>
   placeWall (\<lambda>s. s) chicago 79000 SpringForwardJump = Some 100000"
proof
  show "placed_at chicago 79000 SpringForwardJump (placeWall (\<lambda>s. s) chicago 79000 SpringForwardJump)"
    by (rule wall_time_is_placed) (simp_all add: bounded_zone_def zone_ok_def chicago_def window_def ahead_def)
  show "placeWall (\<lambda>s. s) chicago 79000 SpringForwardJump = Some 100000" by code_simp
qed

section \<open>Searching for the jump\<close>

definition just_after :: "(int \<Rightarrow> int) \<Rightarrow> int \<Rightarrow> int \<Rightarrow> int \<Rightarrow> int \<Rightarrow> bool" where
  "just_after off b lo hi r \<longleftrightarrow> lo < r \<and> r \<le> hi \<and> off r \<noteq> b \<and> (\<exists>t. r - second \<le> t \<and> t < r \<and> off t = b)"

lemma search_step:
  "hi - lo > second \<Longrightarrow> search_jump off b lo hi =
     (if off (lo + (hi - lo) div 2) = b then search_jump off b (lo + (hi - lo) div 2) hi
      else search_jump off b lo (lo + (hi - lo) div 2))"
  "\<not> hi - lo > second \<Longrightarrow> search_jump off b lo hi = hi"
  by (simp_all add: search_jump.simps [of off b lo hi] Let_def)

lemma search_jump_just_after:
  "off lo = b \<Longrightarrow> off hi \<noteq> b \<Longrightarrow> lo < hi \<Longrightarrow> just_after off b lo hi (search_jump off b lo hi)"
proof (induction off b lo hi rule: search_jump.induct)
  case (1 off b lo hi)
  let ?mid = "lo + (hi - lo) div 2"
  show ?case
  proof (cases "hi - lo > second")
    case True
    have mid: "lo < ?mid" "?mid < hi" using True by (auto simp: second_def)
    show ?thesis
    proof (cases "off ?mid = b")
      case in_force: True
      from "1.IH"(1) [OF True refl in_force in_force "1.prems"(2) mid(2)] show ?thesis
        using mid(1) in_force by (simp add: search_step(1) [OF True] just_after_def)
    next
      case False
      from "1.IH"(2) [OF True refl False "1.prems"(1) False mid(1)] show ?thesis
        using mid(2) False by (simp add: search_step(1) [OF True] just_after_def)
    qed
  next
    case False
    then show ?thesis
      using "1.prems" by (auto simp: search_step(2) [OF False] just_after_def intro!: exI [of _ lo])
  qed
qed

text \<open>The search for the moment the clocks jump ends, for every zone and every pair of times, with
  an instant after the jump that is less than a second late: the offset there is no longer the one in
  force at the start, and within the second before it, it still was.\<close>

theorem jump_search_ends_within_a_second:
  assumes "off (truncate after) = beforeOffset" and "truncate after < truncate nxt"
    and "transitionInstant off after nxt beforeOffset = Some jump"
  shows "truncate after < jump \<and> jump \<le> truncate nxt \<and> off jump \<noteq> beforeOffset \<and>
    (\<exists>t. jump - second \<le> t \<and> t < jump \<and> off t = beforeOffset)"
  using assms search_jump_just_after [of off "truncate after" beforeOffset "truncate nxt"]
  by (auto simp: transitionInstant_def just_after_def split: if_splits)

text \<open>The offset of a zone at an instant in nanoseconds.\<close>

definition offset_ns :: "zone \<Rightarrow> int \<Rightarrow> int" where
  "offset_ns z t = offset_at z (t div second)"

theorem jump_search_ends_within_a_second_witness:
  "\<exists>jump. transitionInstant (offset_ns chicago) (99999 * second) (100002 * second) (-21600) = Some jump \<and>
     offset_ns chicago jump \<noteq> -21600 \<and> 99999 * second < jump"
proof -
  let ?off = "offset_ns chicago"
  have "transitionInstant ?off (99999 * second) (100002 * second) (-21600) \<noteq> None" by code_simp
  then obtain jump where j: "transitionInstant ?off (99999 * second) (100002 * second) (-21600) = Some jump" by auto
  have pre: "?off (truncate (99999 * second)) = -21600" "truncate (99999 * second) < truncate (100002 * second)"
    by code_simp+
  have "truncate (99999 * second) = 99999 * second" by code_simp
  then show ?thesis using j jump_search_ends_within_a_second [OF pre j] by auto
qed

text \<open>The instant it gives need not be a whole second, nor the first of the new offset: halving an odd
  number of seconds leaves the bounds between two. Here the clocks jump at second 100000.\<close>

lemma jump_search_is_late:
  "transitionInstant (offset_ns chicago) (99999 * second) (100002 * second) (-21600) =
     Some (100000 * second + second div 2)"
  by code_simp

end
