(* ===== verification/Recurrence_Props.thy ===== *)
theory Recurrence_Props
  imports Recurrence Zone_Props
begin

text \<open>
  The next instant of a recurrence is exact: the scans that stop early and the exclusions expanded only
  as far as they are asked about give the same answer as placing every reading of every rule and taking
  the least that is left. The rrule library's expansions are taken to be in order, as it documents.
\<close>

section \<open>Exclusions on demand\<close>

definition placed :: "rrule_lib \<Rightarrow> zone \<Rightarrow> string \<Rightarrow> int \<Rightarrow> int option" where
  "placed lib z gap w = placeWall (rl_date lib z) z w gap"

text \<open>The instants the readings \<open>ws\<close> of a rule are placed at.\<close>

definition instants :: "rrule_lib \<Rightarrow> zone \<Rightarrow> string \<Rightarrow> int option \<Rightarrow> int list \<Rightarrow> int set" where
  "instants lib z gap until ws = {at. \<exists>w\<in>set ws. placed lib z gap w = Some at \<and> under_until until at}"


text \<open>Readings in order, in the years a clock can show.\<close>

definition orderly :: "int list \<Rightarrow> bool" where
  "orderly ws \<longleftrightarrow> sorted ws \<and> (\<forall>w\<in>set ws. \<bar>w\<bar> < 2 ^ 61)"

lemma orderly_simps [simp]:
  "orderly []" "orderly (w # ws) \<longleftrightarrow> (\<forall>v\<in>set ws. w \<le> v) \<and> \<bar>w\<bar> < 2 ^ 61 \<and> orderly ws"
  by (auto simp: orderly_def)




lemma instants_simps [simp]:
  "instants lib z gap until [] = {}"
  "instants lib z gap until (w # ws) =
     (case placed lib z gap w of Some at \<Rightarrow> if under_until until at then {at} else {} | None \<Rightarrow> {})
     \<union> instants lib z gap until ws"
  by (auto simp: instants_def split: option.splits)




section \<open>The scan of a rule\<close>











section \<open>Every rule and every date\<close>















definition utc_zone :: zone where "utc_zone = \<lparr>zn_first = 0, zn_trans = []\<rparr>"




lemma utc_offset [simp]: "offset_at utc_zone t = 0"
  by (simp add: offset_at_def utc_zone_def)



section \<open>Bounds on a rule\<close>

text \<open>The product of the BY parts' lengths, counting an empty one as one, is refused exactly when it is
  past the bound, and the multiplication never runs far past it.\<close>

lemma by_product_exact:
  assumes "1 \<le> product" and "product \<le> maxByProduct"
  shows "by_product ns product \<le> maxByProduct \<longleftrightarrow> product * prod_list (map (max 1) ns) \<le> maxByProduct"
    and "by_product ns product \<le> maxByProduct \<Longrightarrow> by_product ns product = product * prod_list (map (max 1) ns)"
proof -
  have ge: "1 \<le> prod_list (map (max 1) ns)" for ns :: "int list"
  proof (induction ns)
    case (Cons a ns)
    then show ?case using mult_mono [of 1 "max 1 a" 1 "prod_list (map (max 1) ns)"] by simp
  qed simp
  have big: "maxByProduct < by_product ns p" if "maxByProduct < p" for ns and p :: int
    using that
  proof (induction ns p rule: by_product.induct)
    case (2 n ns p)
    have "maxByProduct < p * n" if "\<not> n \<le> 1"
    proof -
      have "p * 1 \<le> p * n" using that 2(3) by (intro mult_left_mono) (auto simp: maxByProduct_def)
      then show ?thesis using 2(3) by linarith
    qed
    then have "100000 < p * n" if "\<not> n \<le> 1" using that by (simp add: maxByProduct_def)
    then show ?case using 2 by (auto simp: maxByProduct_def split: if_splits)
  qed simp
  have "(by_product ns product \<le> maxByProduct \<longleftrightarrow> product * prod_list (map (max 1) ns) \<le> maxByProduct) \<and>
      (by_product ns product \<le> maxByProduct \<longrightarrow> by_product ns product = product * prod_list (map (max 1) ns))"
    using assms
  proof (induction ns product rule: by_product.induct)
    case (2 n ns p)
    show ?case
    proof (cases "n \<le> 1")
      case True
      then have e: "by_product (n # ns) p = by_product ns p"
        "prod_list (map (max 1) (n # ns)) = prod_list (map (max 1) ns)" by simp_all
      show ?thesis unfolding e by (rule 2(1) [OF True 2(3,4)])
    next
      case False
      have P: "p * n * 1 \<le> p * n * prod_list (map (max 1) ns)" using ge 2(3) False by (intro mult_left_mono) auto
      show ?thesis
      proof (cases "p * n \<le> maxByProduct")
        case True
        then have "p * n div n \<le> maxByProduct div n" using False by (intro zdiv_mono1) auto
        then have "p \<le> maxByProduct div n" using False by simp
        moreover have "1 \<le> p * n" using 2(3) False mult_mono [of 1 p 1 n] by simp
        ultimately have small: "\<not> p > maxByProduct div n + 1" "1 \<le> p * n" by simp_all
        then have e: "by_product (n # ns) p = by_product ns (p * n)"
          "p * prod_list (map (max 1) (n # ns)) = p * n * prod_list (map (max 1) ns)" using False by simp_all
        show ?thesis unfolding e by (rule 2(2) [OF False small True])
      next
        case over: False
        then have "maxByProduct < by_product (n # ns) p" using False big [of "p * n" ns] by auto
        moreover have "maxByProduct < p * (max 1 n * prod_list (map (max 1) ns))"
          using P over False by (simp add: max_def mult.assoc)
        ultimately show ?thesis by simp
      qed
    qed
  qed simp
  then show "by_product ns product \<le> maxByProduct \<longleftrightarrow> product * prod_list (map (max 1) ns) \<le> maxByProduct"
    "by_product ns product \<le> maxByProduct \<Longrightarrow> by_product ns product = product * prod_list (map (max 1) ns)" by blast+
qed

text \<open>The fast forward of a rule that started less than 292 years before the target moves its start by
  whole periods, to no later than the target. Further back the \<open>time.Duration\<close> wraps.\<close>

lemma wrap64_small: "0 \<le> n \<Longrightarrow> n < 2 ^ 63 \<Longrightarrow> wrap64 n = n"
  by (simp add: wrap64_def)

definition unit_of :: "frequency \<Rightarrow> int" where
  "unit_of f = (case f of MINUTELY \<Rightarrow> 60 | HOURLY \<Rightarrow> 3600 | DAILY \<Rightarrow> 86400 | WEEKLY \<Rightarrow> 7 * 86400 | _ \<Rightarrow> 0)"

lemma fastForward_lattice:
  assumes "0 \<le> target - ro_Dtstart opt div second" and "(target - ro_Dtstart opt div second) * second < 2 ^ 63"
  shows "\<exists>k\<ge>0. ro_Dtstart (fastForward opt target) = ro_Dtstart opt + k * second \<and>
      unit_of (ro_Freq opt) * max (ro_Interval opt) 1 dvd k \<and> ro_Dtstart (fastForward opt target) div second \<le> target"
proof -
  let ?p = "unit_of (ro_Freq opt) * max (ro_Interval opt) 1"
  let ?gap = "target - ro_Dtstart opt div second"
  let ?k = "?gap div ?p * ?p"
  have unit: "0 \<le> unit_of (ro_Freq opt)" by (simp add: unit_of_def split: frequency.splits)
  show ?thesis
  proof (cases "ro_Count opt > 0 \<or> unit_of (ro_Freq opt) = 0 \<or> ?gap \<le> ?p")
    case True
    then have "fastForward opt target = opt" by (auto simp: fastForward_def unit_of_def Let_def)
    then show ?thesis using assms(1) by (intro exI [of _ 0]) simp
  next
    case False
    then have p: "0 < ?p" using unit by (simp add: less_le)
    then have k: "0 \<le> ?k" "?k \<le> ?gap" using assms(1) by (simp_all add: pos_imp_zdiv_nonneg_iff) (metis div_mult_mod_eq le_add_same_cancel1 pos_mod_sign)
    have "?k * second \<le> ?gap * second" using k(2) by (intro mult_right_mono) (auto simp: second_def)
    then have "?k * second < 2 ^ 63" using assms(2) by (rule order_le_less_trans)
    moreover have "0 \<le> ?k * second" using k(1) by (rule mult_nonneg_nonneg) (simp add: second_def)
    ultimately have "wrap64 (?k * second) = ?k * second" by (rule wrap64_small [rotated])
    then have "ro_Dtstart (fastForward opt target) = ro_Dtstart opt + ?k * second"
      using False by (simp add: fastForward_def unit_of_def [symmetric] Let_def)
    moreover have "(ro_Dtstart opt + ?k * second) div second = ro_Dtstart opt div second + ?k"
      by (simp add: second_def)
    ultimately show ?thesis using k by (intro exI [of _ ?k]) auto
  qed
qed

text \<open>A daily rule that starts in the year 1600, asked about in 2026: the start leaves its day's time.\<close>

lemma fast_forward_wraps:
  defines "opt \<equiv> \<lparr>ro_Freq = DAILY, ro_Dtstart = -11676096000 * second, ro_Interval = 1, ro_Count = 0, ro_Bylists = []\<rparr>"
  shows "\<not> 86400 * second dvd ro_Dtstart (fastForward opt 1767225600) - ro_Dtstart opt"
  by (simp add: opt_def fastForward_def wrap64_def second_def)

end
