(* ===== verification/Recurrence_Parse.thy ===== *)
theory Recurrence_Parse
  imports Recurrence
begin

text \<open>
  The reading of a recurrence's text (\<open>internal/schedule/rrule.go\<close>): its properties, their parameters,
  its rules and its dates, and the proof that whatever is read keeps within the bounds a stored rule is
  held to.
\<close>

text \<open>A step that may fail, over a list.\<close>

fun try_fold :: "('a \<Rightarrow> 's \<Rightarrow> 'e + 's) \<Rightarrow> 'a list \<Rightarrow> 's \<Rightarrow> 'e + 's" where
  "try_fold f [] s = Inr s"
| "try_fold f (x # xs) s = (case f x s of Inl e \<Rightarrow> Inl e | Inr s' \<Rightarrow> try_fold f xs s')"

section \<open>Dates and zones\<close>

definition parseWall :: "rrule_lib \<Rightarrow> string \<Rightarrow> recur_error + int \<times> bool" where
  "parseWall lib value =
     (let v = rl_upper lib (TrimSpace value);
          utc = HasSuffix v ''Z'';
          v = (if utc then butlast v else v)
      in case rl_parseDate lib (length v = 8) v of
           None \<Rightarrow> Inl (RecurBadDate value)
         | Some t \<Rightarrow> Inr (t, utc))"

definition zone_param :: "rrule_lib \<Rightarrow> string \<Rightarrow> (zone \<times> string) option \<Rightarrow> recur_error + (zone \<times> string) option" where
  "zone_param lib param acc =
     (case Cut param ''='' of
        None \<Rightarrow> Inl (RecurParam param)
      | Some (key, value) \<Rightarrow>
          let k = rl_upper lib (TrimSpace key) in
          if k = ''TZID'' then
            (let v = TrimSpace value in
             case rl_zone lib v of
               Some z \<Rightarrow> if v = [] \<or> rl_upper lib v = ''LOCAL'' then Inl (RecurBadZone v) else Inr (Some (z, v))
             | None \<Rightarrow> Inl (RecurBadZone v))
          else if k = ''VALUE'' then
            (if rl_upper lib (TrimSpace value) \<in> {''DATE-TIME'', ''DATE''} then Inr acc else Inl (RecurValue value))
          else Inl (RecurParam key))"

definition paramZone :: "rrule_lib \<Rightarrow> string \<Rightarrow> recur_error + (zone \<times> string) option" where
  "paramZone lib params = try_fold (zone_param lib) (tl (Split params (CHR '';''))) None"

definition parseStart :: "rrule_lib \<Rightarrow> string \<Rightarrow> recurrence \<Rightarrow> recur_error + recurrence" where
  "parseStart lib field rc =
     (case Cut field '':'' of
        None \<Rightarrow> Inl RecurNoTime
      | Some (params, value) \<Rightarrow>
          if value = [] then Inl RecurNoTime
          else case paramZone lib params of
            Inl e \<Rightarrow> Inl e
          | Inr named \<Rightarrow>
              (case parseWall lib value of
                 Inl e \<Rightarrow> Inl e
               | Inr (wall, utc) \<Rightarrow>
                   (case named of
                      Some (z, name) \<Rightarrow>
                        if utc then Inl (RecurZoneAndZ name)
                        else Inr (rc\<lparr>rc_loc := z, rc_zone := name, rc_start := wall\<rparr>)
                    | None \<Rightarrow>
                        if utc then Inr (rc\<lparr>rc_loc := \<lparr>zn_first = 0, zn_trans = []\<rparr>, rc_zone := ''UTC'', rc_start := wall\<rparr>)
                        else Inr (rc\<lparr>rc_start := wall\<rparr>))))"

section \<open>Rules\<close>

definition rule_part :: "rrule_lib \<Rightarrow> string \<Rightarrow> string list \<times> string \<Rightarrow> recur_error + string list \<times> string" where
  "rule_part lib part acc =
     (case Cut part ''='' of
        None \<Rightarrow> Inl (RecurPair part)
      | Some (key0, value) \<Rightarrow>
          let key = rl_upper lib (TrimSpace key0); (seen, untilRaw) = acc in
          if value = [] then Inl (RecurPair part)
          else if key \<notin> set ruleKeys then Inl (RecurKey key)
          else if key \<in> set seen then Inl (RecurTwice key)
          else Inr (seen @ [key], if key = ''UNTIL'' then value else untilRaw))"

definition rule_until :: "rrule_lib \<Rightarrow> zone \<Rightarrow> string \<Rightarrow> recur_error + int option" where
  "rule_until lib z untilRaw =
     (if untilRaw = [] then Inr None
      else case parseWall lib untilRaw of
        Inl e \<Rightarrow> Inl e
      | Inr (wall, utc) \<Rightarrow> Inr (Some (if utc then wall else resolveWall (rl_date lib z) z wall)))"

definition check_option :: "string list \<Rightarrow> roption \<Rightarrow> recur_error option" where
  "check_option seen opt =
     (if ro_Freq opt = SECONDLY then Some RecurSecondly
      else if ro_Count opt < 0 \<or> ro_Count opt > maxCount then Some RecurCount
      else if ro_Interval opt < 0 \<or> ro_Interval opt > maxInterval then Some RecurInterval
      else if ''COUNT'' \<in> set seen \<and> ro_Count opt = 0 then Some RecurCount
      else if ''INTERVAL'' \<in> set seen \<and> ro_Interval opt = 0 then Some RecurInterval
      else if byProduct opt > maxByProduct then Some (RecurByProduct (byProduct opt))
      else None)"

definition parseRule :: "rrule_lib \<Rightarrow> recurrence \<Rightarrow> string \<Rightarrow> recur_error + bound" where
  "parseRule lib rc text =
     (case try_fold (rule_part lib) (Split text (CHR '';'')) ([], []) of
        Inl e \<Rightarrow> Inl e
      | Inr (seen, untilRaw) \<Rightarrow>
          if ''COUNT'' \<in> set seen \<and> ''UNTIL'' \<in> set seen then Inl RecurCountUntil
          else case rl_parseRule lib (rl_upper lib text) of
            None \<Rightarrow> Inl (RecurUnread text)
          | Some opt \<Rightarrow>
              (case check_option seen opt of
                 Some e \<Rightarrow> Inl e
               | None \<Rightarrow>
                   (case rule_until lib (rc_loc rc) untilRaw of
                      Inl e \<Rightarrow> Inl e
                    | Inr until \<Rightarrow>
                        let opt' = opt\<lparr>ro_Dtstart := rc_start rc * second\<rparr>
                        in if rl_builds lib opt' then Inr \<lparr>bd_opt = opt', bd_until = until\<rparr> else Inl (RecurUnread text))))"

definition date_value :: "rrule_lib \<Rightarrow> recurrence \<Rightarrow> zone \<Rightarrow> string \<Rightarrow> int list \<Rightarrow> recur_error + int list" where
  "date_value lib rc z raw out =
     (case parseWall lib (TrimSpace raw) of
        Inl e \<Rightarrow> Inl e
      | Inr (wall, utc) \<Rightarrow>
          (case (if utc then Some wall else placeWall (rl_date lib z) z wall (rc_gap rc)) of
             None \<Rightarrow> Inr out
           | Some at \<Rightarrow> if length out + 1 > maxDates then Inl RecurTooManyDates else Inr (out @ [at])))"

definition parseDates :: "rrule_lib \<Rightarrow> recurrence \<Rightarrow> string \<Rightarrow> recur_error + int list" where
  "parseDates lib rc field =
     (case Cut field '':'' of
        None \<Rightarrow> Inl (RecurNoDates field)
      | Some (params, value) \<Rightarrow>
          if value = [] then Inl (RecurNoDates field)
          else case paramZone lib params of
            Inl e \<Rightarrow> Inl e
          | Inr named \<Rightarrow>
              let z = (case named of Some (z, _) \<Rightarrow> z | None \<Rightarrow> rc_loc rc)
              in try_fold (date_value lib rc z) (Split value (CHR '','')) [])"

section \<open>The whole text\<close>

record recur_fields =
  rf_dtstart :: string
  rf_rules :: "string list"
  rf_exrules :: "string list"
  rf_rdates :: "string list"
  rf_exdates :: "string list"

definition read_field :: "rrule_lib \<Rightarrow> string \<Rightarrow> recur_fields \<Rightarrow> recur_error + recur_fields" where
  "read_field lib field rf =
     (if HasPrefix (rl_upper lib field) ''FREQ='' then Inr (rf\<lparr>rf_rules := rf_rules rf @ [field]\<rparr>)
      else
        let name0 = takeWhile (\<lambda>c. c \<notin> set '';:'') field; name = rl_upper lib name0 in
        if name0 = [] \<or> length name0 = length field then Inl (RecurNotProperty field)
        else if name = ''DTSTART'' then
          (if rf_dtstart rf \<noteq> [] then Inl RecurTwoStarts else Inr (rf\<lparr>rf_dtstart := field\<rparr>))
        else if name = ''RRULE'' \<or> name = ''EXRULE'' then
          (case Cut field '':'' of
             None \<Rightarrow> Inl (RecurNoRule name)
           | Some (_, value) \<Rightarrow>
               if value = [] then Inl (RecurNoRule name)
               else if name = ''RRULE'' then Inr (rf\<lparr>rf_rules := rf_rules rf @ [value]\<rparr>)
               else Inr (rf\<lparr>rf_exrules := rf_exrules rf @ [value]\<rparr>))
        else if name = ''RDATE'' then Inr (rf\<lparr>rf_rdates := rf_rdates rf @ [field]\<rparr>)
        else if name = ''EXDATE'' then Inr (rf\<lparr>rf_exdates := rf_exdates rf @ [field]\<rparr>)
        else Inl (RecurUnknown name))"

definition add_include :: "rrule_lib \<Rightarrow> string \<Rightarrow> recurrence \<Rightarrow> recur_error + recurrence" where
  "add_include lib text rc =
     map_sum (\<lambda>e. e) (\<lambda>b. rc\<lparr>rc_include := rc_include rc @ [b]\<rparr>) (parseRule lib rc text)"

definition add_exclude :: "rrule_lib \<Rightarrow> string \<Rightarrow> recurrence \<Rightarrow> recur_error + recurrence" where
  "add_exclude lib text rc =
     map_sum (\<lambda>e. e) (\<lambda>b. rc\<lparr>rc_exclude := rc_exclude rc @ [b]\<rparr>) (parseRule lib rc text)"

definition add_rdates :: "rrule_lib \<Rightarrow> string \<Rightarrow> recurrence \<Rightarrow> recur_error + recurrence" where
  "add_rdates lib field rc =
     map_sum (\<lambda>e. e) (\<lambda>ds. rc\<lparr>rc_rdates := rc_rdates rc @ ds\<rparr>) (parseDates lib rc field)"

definition add_exdates :: "rrule_lib \<Rightarrow> string \<Rightarrow> recurrence \<Rightarrow> recur_error + recurrence" where
  "add_exdates lib field rc =
     map_sum (\<lambda>e. e) (\<lambda>ds. rc\<lparr>rc_exdates := rc_exdates rc @ ds\<rparr>) (parseDates lib rc field)"

definition and_then :: "'e + 'a \<Rightarrow> ('a \<Rightarrow> 'e + 'b) \<Rightarrow> 'e + 'b" where
  "and_then r f = (case r of Inl e \<Rightarrow> Inl e | Inr x \<Rightarrow> f x)"

definition check_fields :: "recur_fields \<Rightarrow> recur_error option" where
  "check_fields rf =
     (if rf_dtstart rf = [] then Some RecurNoStart
      else if rf_rules rf = [] then Some RecurNoRules
      else if length (rf_rules rf) + length (rf_exrules rf) > maxRules then Some RecurTooManyRules
      else None)"

definition read_recurrence :: "rrule_lib \<Rightarrow> zone \<Rightarrow> string \<Rightarrow> recur_fields \<Rightarrow> recur_error + recurrence" where
  "read_recurrence lib fallback setting rf =
     and_then (parseStart lib (rf_dtstart rf)
       \<lparr>rc_loc = fallback, rc_zone = [], rc_start = 0, rc_include = [], rc_exclude = [], rc_rdates = [], rc_exdates = [],
         rc_gap = setting\<rparr>) (\<lambda>rc0.
     and_then (try_fold (add_include lib) (rf_rules rf) rc0) (\<lambda>rc1.
     and_then (try_fold (add_exclude lib) (rf_exrules rf) rc1) (\<lambda>rc2.
     and_then (try_fold (add_rdates lib) (rf_rdates rf) rc2) (\<lambda>rc3.
     and_then (try_fold (add_exdates lib) (rf_exdates rf) rc3) (\<lambda>rc4.
       if length (rc_rdates rc4) + length (rc_exdates rc4) > maxDates then Inl RecurTooManyDates else Inr rc4)))))"

definition parseRecurrence :: "rrule_lib \<Rightarrow> string \<Rightarrow> zone \<Rightarrow> string \<Rightarrow> recur_error + recurrence" where
  "parseRecurrence lib text fallback setting =
     (if length text > maxRecurrenceBytes then Inl RecurTooLong
      else and_then (try_fold (read_field lib) (Fields text)
          \<lparr>rf_dtstart = [], rf_rules = [], rf_exrules = [], rf_rdates = [], rf_exdates = []\<rparr>) (\<lambda>rf.
        case check_fields rf of Some e \<Rightarrow> Inl e | None \<Rightarrow> read_recurrence lib fallback setting rf))"

definition RecurrenceZone :: "rrule_lib \<Rightarrow> string \<Rightarrow> string" where
  "RecurrenceZone lib text =
     (case parseRecurrence lib text \<lparr>zn_first = 0, zn_trans = []\<rparr> SpringForwardLater of
        Inl _ \<Rightarrow> [] | Inr rc \<Rightarrow> rc_zone rc)"

section \<open>What a reading keeps within\<close>

definition bound_ok :: "rrule_lib \<Rightarrow> int \<Rightarrow> bound \<Rightarrow> bool" where
  "bound_ok lib start b \<longleftrightarrow> ro_Freq (bd_opt b) \<noteq> SECONDLY \<and> 0 \<le> ro_Count (bd_opt b) \<and> ro_Count (bd_opt b) \<le> maxCount \<and>
     0 \<le> ro_Interval (bd_opt b) \<and> ro_Interval (bd_opt b) \<le> maxInterval \<and> byProduct (bd_opt b) \<le> maxByProduct \<and>
     rl_builds lib (bd_opt b) \<and> ro_Dtstart (bd_opt b) = start * second"

lemma parseRule_ok: "parseRule lib rc text = Inr b \<Longrightarrow> bound_ok lib (rc_start rc) b"
  by (auto simp: parseRule_def bound_ok_def check_option_def byProduct_def Let_def
      split: sum.splits option.splits if_splits)

lemma and_then_Inr [simp]: "and_then r f = Inr y \<longleftrightarrow> (\<exists>x. r = Inr x \<and> f x = Inr y)"
  by (auto simp: and_then_def split: sum.splits)

lemma try_fold_add:
  assumes "try_fold f xs s = Inr s'"
    and "\<And>x s s'. f x s = Inr s' \<Longrightarrow> key s' = key s \<and> (\<exists>ys. field s' = field s @ ys \<and> length ys = 1 \<and> (\<forall>y\<in>set ys. ok (key s) y))"
  shows "key s' = key s \<and>
    (\<exists>ys. field s' = field s @ ys \<and> length ys = length xs \<and> (\<forall>y\<in>set ys. ok (key s) y))"
  using assms(1)
proof (induction xs arbitrary: s)
  case (Cons x xs)
  then obtain s1 where s1: "f x s = Inr s1" "try_fold f xs s1 = Inr s'" by (auto split: sum.splits)
  from assms(2) [OF s1(1)] obtain ys where ys: "key s1 = key s" "field s1 = field s @ ys" "length ys = 1"
    "\<forall>y\<in>set ys. ok (key s) y" by blast
  from Cons.IH [OF s1(2)] obtain zs where zs: "key s' = key s1" "field s' = field s1 @ zs" "length zs = length xs"
    "\<forall>z\<in>set zs. ok (key s1) z" by blast
  show ?case using ys zs by (auto intro!: exI [of _ "ys @ zs"])
qed (auto intro: exI [of _ "[]"])

text \<open>The parts of a recurrence a rule or a date adds nothing to.\<close>

definition rest_of_include :: "recurrence \<Rightarrow> recurrence" where "rest_of_include rc = rc\<lparr>rc_include := []\<rparr>"
definition rest_of_exclude :: "recurrence \<Rightarrow> recurrence" where "rest_of_exclude rc = rc\<lparr>rc_exclude := []\<rparr>"
definition rest_of_dates :: "recurrence \<Rightarrow> recurrence" where "rest_of_dates rc = rc\<lparr>rc_rdates := [], rc_exdates := []\<rparr>"

lemmas rest_defs = rest_of_include_def rest_of_exclude_def rest_of_dates_def

lemma read_include:
  assumes "try_fold (add_include lib) ts rc = Inr rc'"
  shows "rest_of_include rc' = rest_of_include rc \<and>
    (\<exists>bs. rc_include rc' = rc_include rc @ bs \<and> length bs = length ts \<and> (\<forall>b\<in>set bs. bound_ok lib (rc_start rc) b))"
proof -
  have "rest_of_include s' = rest_of_include s \<and>
      (\<exists>bs. rc_include s' = rc_include s @ bs \<and> length bs = 1 \<and>
        (\<forall>b\<in>set bs. bound_ok lib (rc_start (rest_of_include s)) b))" if "add_include lib t s = Inr s'" for t s s'
    using that by (cases "parseRule lib s t") (auto simp: add_include_def rest_defs dest!: parseRule_ok)
  from try_fold_add [where key = rest_of_include and field = rc_include and ok = "\<lambda>k. bound_ok lib (rc_start k)", OF assms this]
  show ?thesis by (simp add: rest_defs)
qed

lemma read_exclude:
  assumes "try_fold (add_exclude lib) ts rc = Inr rc'"
  shows "rest_of_exclude rc' = rest_of_exclude rc \<and>
    (\<exists>bs. rc_exclude rc' = rc_exclude rc @ bs \<and> length bs = length ts \<and> (\<forall>b\<in>set bs. bound_ok lib (rc_start rc) b))"
proof -
  have "rest_of_exclude s' = rest_of_exclude s \<and>
      (\<exists>bs. rc_exclude s' = rc_exclude s @ bs \<and> length bs = 1 \<and>
        (\<forall>b\<in>set bs. bound_ok lib (rc_start (rest_of_exclude s)) b))" if "add_exclude lib t s = Inr s'" for t s s'
    using that by (cases "parseRule lib s t") (auto simp: add_exclude_def rest_defs dest!: parseRule_ok)
  from try_fold_add [where key = rest_of_exclude and field = rc_exclude and ok = "\<lambda>k. bound_ok lib (rc_start k)", OF assms this]
  show ?thesis by (simp add: rest_defs)
qed

lemma try_fold_keeps:
  "try_fold f xs s = Inr s' \<Longrightarrow> (\<And>x s s'. f x s = Inr s' \<Longrightarrow> key s' = key s) \<Longrightarrow> key s' = key s"
  by (induction xs arbitrary: s) (auto split: sum.splits)

lemma read_rdates: "try_fold (add_rdates lib) ts rc = Inr rc' \<Longrightarrow> rest_of_dates rc' = rest_of_dates rc"
  by (erule try_fold_keeps, erule rev_mp)
    (simp add: add_rdates_def rest_defs map_sum_def split: sum.splits, auto)

lemma read_exdates: "try_fold (add_exdates lib) ts rc = Inr rc' \<Longrightarrow> rest_of_dates rc' = rest_of_dates rc"
  by (erule try_fold_keeps, erule rev_mp)
    (simp add: add_exdates_def rest_defs map_sum_def split: sum.splits, auto)

lemma parseStart_parts:
  "parseStart lib f rc = Inr rc' \<Longrightarrow> rc_include rc' = rc_include rc \<and> rc_exclude rc' = rc_exclude rc \<and> rc_gap rc' = rc_gap rc"
  by (auto simp: parseStart_def split: option.splits sum.splits if_splits)

text \<open>A recurrence that is read keeps within its bounds, so that evaluating it on every tick is
  bounded too: some rule, at most 16 of them and 1000 dates, none by the second, each with a count, an
  interval and a product of its BY parts below its limit, and each one the library builds, starting at
  the recurrence's own start. The spring-forward setting is the one it was read with.\<close>

theorem parsed_recurrence_is_bounded:
  assumes "parseRecurrence lib text fallback setting = Inr rc"
  shows "length text \<le> maxRecurrenceBytes \<and> rc_include rc \<noteq> [] \<and>
    length (rc_include rc) + length (rc_exclude rc) \<le> maxRules \<and>
    length (rc_rdates rc) + length (rc_exdates rc) \<le> maxDates \<and>
    (\<forall>b\<in>set (rc_include rc) \<union> set (rc_exclude rc). bound_ok lib (rc_start rc) b) \<and> rc_gap rc = setting"
proof -
  obtain rf where rf: "check_fields rf = None" "read_recurrence lib fallback setting rf = Inr rc"
    and len: "length text \<le> maxRecurrenceBytes"
    using assms by (auto simp: parseRecurrence_def split: if_splits option.splits)
  obtain rc0 rc1 rc2 rc3 where
    r0: "parseStart lib (rf_dtstart rf) \<lparr>rc_loc = fallback, rc_zone = [], rc_start = 0, rc_include = [], rc_exclude = [],
      rc_rdates = [], rc_exdates = [], rc_gap = setting\<rparr> = Inr rc0"
    and r1: "try_fold (add_include lib) (rf_rules rf) rc0 = Inr rc1"
    and r2: "try_fold (add_exclude lib) (rf_exrules rf) rc1 = Inr rc2"
    and r3: "try_fold (add_rdates lib) (rf_rdates rf) rc2 = Inr rc3"
    and r4: "try_fold (add_exdates lib) (rf_exdates rf) rc3 = Inr rc"
    and dates: "length (rc_rdates rc) + length (rc_exdates rc) \<le> maxDates"
    using rf(2) by (auto simp: read_recurrence_def split: if_splits)
  note p0 = parseStart_parts [OF r0] and p1 = read_include [OF r1] and p2 = read_exclude [OF r2]
  have p34: "rest_of_dates rc = rest_of_dates rc2" using read_rdates [OF r3] read_exdates [OF r4] by simp
  have keep: "rc_include rc = rc_include rc2" "rc_exclude rc = rc_exclude rc2" "rc_start rc = rc_start rc2" "rc_gap rc = rc_gap rc2"
    using p34 by (auto simp: rest_defs dest: arg_cong [where f = rc_include] arg_cong [where f = rc_exclude]
        arg_cong [where f = rc_start] arg_cong [where f = rc_gap])
  have keep2: "rc_include rc2 = rc_include rc1" "rc_start rc2 = rc_start rc1" "rc_gap rc2 = rc_gap rc1"
    using conjunct1 [OF p2] by (auto simp: rest_defs dest: arg_cong [where f = rc_include] arg_cong [where f = rc_start]
        arg_cong [where f = rc_gap])
  have keep1: "rc_exclude rc1 = rc_exclude rc0" "rc_start rc1 = rc_start rc0" "rc_gap rc1 = rc_gap rc0"
    using conjunct1 [OF p1] by (auto simp: rest_defs dest: arg_cong [where f = rc_exclude] arg_cong [where f = rc_start]
        arg_cong [where f = rc_gap])
  show ?thesis
    using rf(1) len dates p0 p1 p2 keep keep1 keep2 by (auto simp: check_fields_def split: if_splits)
qed

definition reading_lib :: rrule_lib where
  "reading_lib = \<lparr>rl_upper = (\<lambda>s. s), rl_zone = (\<lambda>_. None), rl_date = (\<lambda>_ s. s), rl_parseDate = (\<lambda>_ _. Some 0),
     rl_parseRule = (\<lambda>_. Some \<lparr>ro_Freq = MONTHLY, ro_Dtstart = 0, ro_Interval = 1, ro_Count = 0, ro_Bylists = []\<rparr>),
     rl_builds = (\<lambda>_. True), rl_expand = (\<lambda>_. [])\<rparr>"

theorem parsed_recurrence_is_bounded_witness:
  "\<exists>rc. parseRecurrence reading_lib ''DTSTART:20260105Z FREQ=MONTHLY'' \<lparr>zn_first = 0, zn_trans = []\<rparr> SpringForwardLater = Inr rc \<and>
     rc_include rc \<noteq> [] \<and> rc_gap rc = SpringForwardLater"
proof -
  let ?z = "\<lparr>zn_first = 0, zn_trans = []\<rparr>"
  let ?rf = "\<lparr>rf_dtstart = ''DTSTART:20260105Z'', rf_rules = [''FREQ=MONTHLY''], rf_exrules = [], rf_rdates = [], rf_exdates = []\<rparr>"
  have "Fields ''DTSTART:20260105Z FREQ=MONTHLY'' = [''DTSTART:20260105Z'', ''FREQ=MONTHLY'']" by code_simp
  moreover have "try_fold (read_field reading_lib) [''DTSTART:20260105Z'', ''FREQ=MONTHLY'']
      \<lparr>rf_dtstart = [], rf_rules = [], rf_exrules = [], rf_rdates = [], rf_exdates = []\<rparr> = Inr ?rf"
    by code_simp
  moreover have "check_fields ?rf = None" by (simp add: check_fields_def maxRules_def)
  moreover have "parseStart reading_lib ''DTSTART:20260105Z'' \<lparr>rc_loc = ?z, rc_zone = [], rc_start = 0, rc_include = [], rc_exclude = [],
      rc_rdates = [], rc_exdates = [], rc_gap = SpringForwardLater\<rparr> = Inr \<lparr>rc_loc = ?z, rc_zone = ''UTC'', rc_start = 0,
      rc_include = [], rc_exclude = [], rc_rdates = [], rc_exdates = [], rc_gap = SpringForwardLater\<rparr>"
    by code_simp
  moreover have "\<exists>b. parseRule reading_lib \<lparr>rc_loc = ?z, rc_zone = ''UTC'', rc_start = 0, rc_include = [], rc_exclude = [],
      rc_rdates = [], rc_exdates = [], rc_gap = SpringForwardLater\<rparr> ''FREQ=MONTHLY'' = Inr b"
  proof -
    have "try_fold (rule_part reading_lib) (Split ''FREQ=MONTHLY'' (CHR '';'')) ([], []) = Inr ([''FREQ''], [])" by code_simp
    moreover have "rule_until reading_lib z [] = Inr None" for z by (simp add: rule_until_def)
    moreover have "\<exists>opt. (\<forall>s. rl_parseRule reading_lib s = Some opt) \<and> check_option [''FREQ''] opt = None \<and> rl_builds reading_lib = (\<lambda>_. True)"
      by (simp add: reading_lib_def check_option_def maxCount_def maxInterval_def byProduct_def maxByProduct_def)
    ultimately show ?thesis by (auto simp: parseRule_def)
  qed
  ultimately obtain rc where "parseRecurrence reading_lib ''DTSTART:20260105Z FREQ=MONTHLY'' ?z SpringForwardLater = Inr rc"
    by (auto simp: parseRecurrence_def maxRecurrenceBytes_def read_recurrence_def and_then_def add_include_def maxDates_def)
  from parsed_recurrence_is_bounded [OF this] this show ?thesis by blast
qed

end
