(* ===== verification/Schedule_Fire.thy ===== *)
theory Schedule_Fire
  imports Schedule_Claims Recurrence_Parse
begin

text \<open>
  When a schedule fires next (\<open>internal/schedule/schedule.go\<close>, \<open>springforward.go\<close>). The cron library is the
  record \<open>cron_schedule\<close> its parser gives: the next time after one, \<open>None\<close> for the zero time, whether it is
  an interval, and the zone it is read in. Instants are nanoseconds; \<open>loc\<close> is the zone of the time the
  caller asks with.
\<close>

record cron_schedule =
  cs_next :: "int \<Rightarrow> int option"
  cs_interval :: bool
  cs_zone :: "zone option"

record sched_lib =
  sl_cron :: "string \<Rightarrow> cron_schedule option"
  sl_duration :: "string \<Rightarrow> int option"
  sl_rrule :: rrule_lib

datatype fire_time_error =
    BadTimezone string | BadSpringForward string | BadCron string | BadRecurrence recur_error | ZonesDisagree string string
  | BothCadences | NoTarget | Exhausted_rule

definition UnnamedZone :: string where "UnnamedZone = ''UTC''"

section \<open>Settings\<close>

definition validTimezone :: "sched_lib \<Rightarrow> schedule \<Rightarrow> fire_time_error option" where
  "validTimezone lib s =
     (if sc_Timezone s = [] then None
      else if ContainsAny (sc_Timezone s) ('' ='' @ [CHR 0x09, CHR 0x0D, CHR 0x0A]) then Some (BadTimezone (sc_Timezone s))
      else if rl_zone (sl_rrule lib) (sc_Timezone s) = None then Some (BadTimezone (sc_Timezone s))
      else None)"

definition validSpringForward :: "schedule \<Rightarrow> fire_time_error option" where
  "validSpringForward s =
     (if sc_SpringForward s \<in> {[], SpringForwardJump, SpringForwardLater, SpringForwardSkip} then None
      else Some (BadSpringForward (sc_SpringForward s)))"

definition SpringForwardSetting :: "schedule \<Rightarrow> string" where
  "SpringForwardSetting s =
     (if sc_SpringForward s \<noteq> [] then sc_SpringForward s
      else if sc_RRule s \<noteq> [] then SpringForwardLater else SpringForwardJump)"

definition hasZoneDescriptor :: "string \<Rightarrow> bool" where
  "hasZoneDescriptor spec \<longleftrightarrow> HasPrefix spec ''CRON_TZ='' \<or> HasPrefix spec ''TZ=''"

definition effectiveCron :: "schedule \<Rightarrow> string" where
  "effectiveCron s =
     (if sc_Timezone s \<noteq> [] then ''CRON_TZ='' @ sc_Timezone s @ '' '' @ sc_Cron s
      else if hasZoneDescriptor (sc_Cron s) then sc_Cron s
      else ''CRON_TZ='' @ UnnamedZone @ '' '' @ sc_Cron s)"

definition NamesZone :: "sched_lib \<Rightarrow> schedule \<Rightarrow> bool" where
  "NamesZone lib s \<longleftrightarrow> sc_Timezone s \<noteq> [] \<or> hasZoneDescriptor (sc_Cron s) \<or> RecurrenceZone (sl_rrule lib) (sc_RRule s) \<noteq> []"

definition PinZone :: "sched_lib \<Rightarrow> string \<Rightarrow> schedule \<Rightarrow> schedule" where
  "PinZone lib z s = (if NamesZone lib s then s else s\<lparr>sc_Timezone := z\<rparr>)"

section \<open>Expressions\<close>

definition withoutZoneDescriptor :: "string \<Rightarrow> fire_time_error + string" where
  "withoutZoneDescriptor spec =
     (case (case CutPrefix spec ''CRON_TZ='' of Some body \<Rightarrow> Some body | None \<Rightarrow> CutPrefix spec ''TZ='') of
        Some body \<Rightarrow> (case Cut body '' '' of None \<Rightarrow> Inl (BadCron spec) | Some (_, expr) \<Rightarrow> Inr (TrimSpace expr))
      | None \<Rightarrow> Inr spec)"

definition checkInterval :: "sched_lib \<Rightarrow> string \<Rightarrow> fire_time_error option" where
  "checkInterval lib expr =
     (case CutPrefix expr ''@every '' of
        None \<Rightarrow> None
      | Some raw \<Rightarrow> (case sl_duration lib raw of
          None \<Rightarrow> None | Some every \<Rightarrow> if every \<le> 0 then Some (BadCron expr) else None))"

definition checkSpec :: "sched_lib \<Rightarrow> string \<Rightarrow> fire_time_error option" where
  "checkSpec lib spec =
     (case withoutZoneDescriptor spec of Inl e \<Rightarrow> Some e | Inr expr \<Rightarrow> checkInterval lib expr)"

definition utcSpec :: "string \<Rightarrow> string" where
  "utcSpec spec =
     (let trimmed = TrimSpace spec in
      case CutPrefix trimmed ''CRON_TZ='' of
        Some rest \<Rightarrow> (case Cut rest '' '' of Some (_, expr) \<Rightarrow> ''CRON_TZ=UTC '' @ TrimSpace expr | None \<Rightarrow> trimmed)
      | None \<Rightarrow> ''CRON_TZ=UTC '' @ trimmed)"

section \<open>Daylight saving\<close>

definition offset_in :: "zone \<Rightarrow> int \<Rightarrow> int" where
  "offset_in z t = offset_at z (t div second)"

definition wall_of :: "zone \<Rightarrow> int \<Rightarrow> int" where
  "wall_of z t = t + offset_in z t * second"

definition sameLocalMinute :: "zone \<Rightarrow> int \<Rightarrow> int \<Rightarrow> bool" where
  "sameLocalMinute z a b \<longleftrightarrow> a \<noteq> b \<and> wall_of z a div (60 * second) = wall_of z b div (60 * second)"

definition cronZone :: "cron_schedule \<Rightarrow> zone \<Rightarrow> zone" where
  "cronZone sched loc = (case cs_zone sched of Some z \<Rightarrow> z | None \<Rightarrow> loc)"

definition minute_of_day :: "int \<Rightarrow> int" where
  "minute_of_day w = w div (60 * second) mod 1440"

definition skippedBySpringForward :: "sched_lib \<Rightarrow> string \<Rightarrow> zone \<Rightarrow> int \<Rightarrow> int \<Rightarrow> int option" where
  "skippedBySpringForward lib spec z after nxt =
     (if offset_in z nxt \<le> offset_in z after then None
      else case sl_cron lib (utcSpec spec) of
        None \<Rightarrow> None
      | Some shadow \<Rightarrow>
          (case cs_next shadow (wall_of z after) of
             None \<Rightarrow> None
           | Some wall \<Rightarrow>
               if minute_of_day (wall_of z (rl_date (sl_rrule lib) z (wall div second) * second)) = minute_of_day wall then None
               else case transitionInstant (offset_in z) after nxt (offset_in z after) of
                 None \<Rightarrow> None
               | Some jump \<Rightarrow> if jump > after \<and> jump < nxt then Some jump else None))"

definition jumpLookback :: int where "jumpLookback = 36 * 3600 * second"

fun shifted_scan :: "cron_schedule \<Rightarrow> int \<Rightarrow> int \<Rightarrow> zone_period list \<Rightarrow> int option \<Rightarrow> int option" where
  "shifted_scan shadow after nxt (before # jumped # ps) best =
     shifted_scan shadow after nxt (jumped # ps)
       (if zp_offset jumped \<le> zp_offset before then best
        else
          let first = zp_start jumped + zp_offset before;
              last_r = zp_start jumped + zp_offset jumped;
              start = max (first - 1) (after div second + zp_offset before)
          in case cs_next shadow (start * second) of
               None \<Rightarrow> best
             | Some wall \<Rightarrow>
                 if wall div second \<ge> last_r then best
                 else let at = (wall div second - zp_offset before) * second
                      in if \<not> at > after \<or> at > nxt then best
                         else if earlier at best then Some at else best)"
| "shifted_scan shadow after nxt _ best = best"

definition shiftedBySpringForward :: "sched_lib \<Rightarrow> string \<Rightarrow> zone \<Rightarrow> int \<Rightarrow> int \<Rightarrow> int option" where
  "shiftedBySpringForward lib spec z after nxt =
     (case sl_cron lib (utcSpec spec) of
        None \<Rightarrow> None
      | Some shadow \<Rightarrow>
          shifted_scan shadow after nxt (zonePeriods z ((after - jumpLookback) div second) (nxt div second)) None)"

definition cronSpringForward :: "sched_lib \<Rightarrow> string \<Rightarrow> zone \<Rightarrow> int \<Rightarrow> int \<Rightarrow> string \<Rightarrow> int" where
  "cronSpringForward lib spec z after nxt setting =
     (if setting = SpringForwardSkip then nxt
      else case (if setting = SpringForwardLater then shiftedBySpringForward lib spec z after nxt
                 else skippedBySpringForward lib spec z after nxt) of
        Some t \<Rightarrow> t | None \<Rightarrow> nxt)"

section \<open>The next fire\<close>

definition nextCronFire :: "sched_lib \<Rightarrow> zone \<Rightarrow> string \<Rightarrow> int \<Rightarrow> string \<Rightarrow> fire_time_error + int" where
  "nextCronFire lib loc spec after setting =
     (case checkSpec lib spec of
        Some e \<Rightarrow> Inl e
      | None \<Rightarrow>
          (case sl_cron lib spec of
             None \<Rightarrow> Inl (BadCron spec)
           | Some sched \<Rightarrow>
               (case cs_next sched after of
                  None \<Rightarrow> Inl (BadCron spec)
                | Some nxt \<Rightarrow>
                    if cs_interval sched then Inr nxt
                    else
                      let z = cronZone sched loc in
                      case (if sameLocalMinute z nxt after then cs_next sched nxt else Some nxt) of
                        None \<Rightarrow> Inl (BadCron spec)
                      | Some n \<Rightarrow> Inr (cronSpringForward lib spec z after n setting))))"

definition recurrenceFallback :: "sched_lib \<Rightarrow> schedule \<Rightarrow> fire_time_error + zone" where
  "recurrenceFallback lib s =
     (let name = (if sc_Timezone s = [] then UnnamedZone else sc_Timezone s)
      in case rl_zone (sl_rrule lib) name of None \<Rightarrow> Inl (BadTimezone name) | Some z \<Rightarrow> Inr z)"

definition recur_fire_error :: "recur_error \<Rightarrow> fire_time_error" where
  "recur_fire_error e = (if e = RecurExhausted then Exhausted_rule else BadRecurrence e)"

definition nextRecurrence :: "sched_lib \<Rightarrow> schedule \<Rightarrow> int \<Rightarrow> fire_time_error + int" where
  "nextRecurrence lib s after =
     (case recurrenceFallback lib s of
        Inl e \<Rightarrow> Inl e
      | Inr z \<Rightarrow>
          (case parseRecurrence (sl_rrule lib) (sc_RRule s) z (SpringForwardSetting s) of
             Inl e \<Rightarrow> Inl (recur_fire_error e)
           | Inr rc \<Rightarrow>
               if rc_zone rc \<noteq> [] \<and> sc_Timezone s \<noteq> [] \<and> rc_zone rc \<noteq> sc_Timezone s
               then Inl (ZonesDisagree (rc_zone rc) (sc_Timezone s))
               else map_sum recur_fire_error (\<lambda>t. t * second) (RecurrenceNext (sl_rrule lib) rc (after div second))))"

definition NextFire :: "sched_lib \<Rightarrow> zone \<Rightarrow> schedule \<Rightarrow> int \<Rightarrow> fire_time_error + int" where
  "NextFire lib loc s after =
     (case validTimezone lib s of
        Some e \<Rightarrow> Inl e
      | None \<Rightarrow>
          (case validSpringForward s of
             Some e \<Rightarrow> Inl e
           | None \<Rightarrow>
               if sc_RRule s \<noteq> [] then nextRecurrence lib s after
               else nextCronFire lib loc (effectiveCron s) after (SpringForwardSetting s)))"

definition ValidateAt :: "sched_lib \<Rightarrow> zone \<Rightarrow> schedule \<Rightarrow> int \<Rightarrow> fire_time_error option" where
  "ValidateAt lib loc s now =
     (case validTimezone lib s of
        Some e \<Rightarrow> Some e
      | None \<Rightarrow>
          (case validSpringForward s of
             Some e \<Rightarrow> Some e
           | None \<Rightarrow>
               if sc_Cron s \<noteq> [] \<and> sc_RRule s \<noteq> [] then Some BothCadences
               else case NextFire lib loc s now of
                 Inl e \<Rightarrow> Some e
               | Inr _ \<Rightarrow>
                   if sc_Playbook s = [] \<and> sc_Steps s = [] \<and> sc_TemplateID s = [] then Some NoTarget else None))"







section \<open>The next fire is later\<close>
























end
