(* ===== verification/Accounts.thy ===== *)
theory Accounts
  imports GoStrings Run "HOL-Library.Product_Lexorder" "HOL-Library.List_Lexorder" "HOL-Library.Char_ord"
begin

text \<open>
  Accounts, teams, organizations, tokens and grants (\<open>internal/user\<close>, \<open>team\<close>, \<open>org\<close>, \<open>auth\<close>, \<open>grant\<close>) and
  their in-memory stores. A method of a store holds its lock throughout, so it is a function of the
  state; one that ranges over a map takes the order it visits the keys in. A set of members is a
  partial function to \<open>unit\<close>, or to the member's role.
\<close>

section \<open>Roles and users\<close>

definition RoleAdmin :: string where "RoleAdmin = ''admin''"
definition RoleOperator :: string where "RoleOperator = ''operator''"
definition RoleViewer :: string where "RoleViewer = ''viewer''"

lemmas role_defs = RoleAdmin_def RoleOperator_def RoleViewer_def

definition AgentRole :: "string \<Rightarrow> string" where
  "AgentRole role = (if role = RoleAdmin then RoleOperator else role)"

definition ValidRole :: "string \<Rightarrow> bool" where
  "ValidRole r \<longleftrightarrow> r = RoleAdmin \<or> r = RoleOperator \<or> r = RoleViewer"

record user =
  us_ID :: string
  us_Username :: string
  us_PasswordHash :: string
  us_Role :: string
  us_FullName :: string
  us_Email :: string
  us_Phone :: string
  us_Title :: string
  us_Links :: "string list"
  us_Notes :: string
  us_Source :: string
  us_CreatedAt :: gotime

datatype user_error =
    ErrUserNotFound | ErrUsernameTaken | ErrUsernameTooLong nat | ErrBadRole | ErrBadCredentials | ErrBadProfile string

definition MaxUsernameBytes :: nat where "MaxUsernameBytes = 255"

definition CheckUsername :: "string \<Rightarrow> user_error option" where
  "CheckUsername name = (if length name > MaxUsernameBytes then Some (ErrUsernameTooLong (length name)) else None)"

text \<open>A new account: \<open>hash\<close> and \<open>suffix\<close> are what bcrypt and the random source answer, \<open>None\<close> when one fails.\<close>

definition NewUser :: "string option \<Rightarrow> string option \<Rightarrow> gotime \<Rightarrow> string \<Rightarrow> string \<Rightarrow> user_error option + user" where
  "NewUser hash suffix now name role =
     (if \<not> ValidRole role then Inl (Some ErrBadRole)
      else case CheckUsername name of
        Some e \<Rightarrow> Inl (Some e)
      | None \<Rightarrow>
          (case (hash, suffix) of
             (Some h, Some x) \<Rightarrow> Inr \<lparr>us_ID = ''user_'' @ x, us_Username = name, us_PasswordHash = h, us_Role = role,
               us_FullName = [], us_Email = [], us_Phone = [], us_Title = [], us_Links = [], us_Notes = [],
               us_Source = [], us_CreatedAt = now\<rparr>
           | _ \<Rightarrow> Inl None))"

definition maxProfileField :: nat where "maxProfileField = 320"
definition maxNotes :: nat where "maxNotes = 2000"
definition maxLinks :: nat where "maxLinks = 8"

text \<open>\<open>web\<close> says whether \<open>url.Parse\<close> reads a link as an http or https address with a host.\<close>

fun normalize_links :: "(string \<Rightarrow> bool) \<Rightarrow> string list \<Rightarrow> user_error + string list" where
  "normalize_links web [] = Inr []"
| "normalize_links web (l # ls) =
     (let link = TrimSpace l in
      if link = [] then normalize_links web ls
      else if length link > maxProfileField then Inl (ErrBadProfile ''links'')
      else if \<not> web link then Inl (ErrBadProfile ''links'')
      else map_sum (\<lambda>e. e) ((#) link) (normalize_links web ls))"

text \<open>\<open>ord\<close> is the order the loop over the four bounded fields visits them in.\<close>

definition profile_field :: "user \<Rightarrow> string \<Rightarrow> string" where
  "profile_field u f =
     (if f = ''full_name'' then us_FullName u else if f = ''email'' then us_Email u
      else if f = ''phone'' then us_Phone u else us_Title u)"

definition NormalizeProfile :: "(string \<Rightarrow> bool) \<Rightarrow> string list \<Rightarrow> user \<Rightarrow> user_error + user" where
  "NormalizeProfile web ord u =
     (let v = u\<lparr>us_FullName := TrimSpace (us_FullName u), us_Email := TrimSpace (us_Email u),
            us_Phone := TrimSpace (us_Phone u), us_Title := TrimSpace (us_Title u), us_Notes := TrimSpace (us_Notes u)\<rparr>
      in case List.find (\<lambda>f. length (profile_field v f) > maxProfileField) ord of
           Some f \<Rightarrow> Inl (ErrBadProfile f)
         | None \<Rightarrow>
             if us_Email v \<noteq> [] \<and> CHR ''@'' \<notin> set (us_Email v) then Inl (ErrBadProfile ''email'')
             else if length (us_Notes v) > maxNotes then Inl (ErrBadProfile ''notes'')
             else case normalize_links web (us_Links v) of
               Inl e \<Rightarrow> Inl e
             | Inr ls \<Rightarrow> if length ls > maxLinks then Inl (ErrBadProfile ''links'') else Inr (v\<lparr>us_Links := ls\<rparr>))"

type_synonym user_store = "string \<rightharpoonup> user"

text \<open>The users a loop over the map visits.\<close>

definition users_in :: "string list \<Rightarrow> user_store \<Rightarrow> user list" where
  "users_in ord st = List.map_filter st ord"

definition usernameTakenLocked :: "string list \<Rightarrow> string \<Rightarrow> string \<Rightarrow> user_store \<Rightarrow> bool" where
  "usernameTakenLocked ord i name st \<longleftrightarrow> list_ex (\<lambda>u. us_ID u \<noteq> i \<and> us_Username u = name) (users_in ord st)"

definition SaveUser :: "string list \<Rightarrow> user \<Rightarrow> user_store \<Rightarrow> user_error option \<times> user_store" where
  "SaveUser ord u st =
     (if usernameTakenLocked ord (us_ID u) (us_Username u) st then (Some ErrUsernameTaken, st)
      else (None, st(us_ID u \<mapsto> u)))"

definition updated_user :: "user \<Rightarrow> user \<Rightarrow> user" where
  "updated_user old u = old\<lparr>us_Username := us_Username u, us_Role := us_Role u, us_PasswordHash := us_PasswordHash u,
     us_FullName := us_FullName u, us_Email := us_Email u, us_Phone := us_Phone u, us_Title := us_Title u,
     us_Links := us_Links u, us_Notes := us_Notes u\<rparr>"

definition UpdateUser :: "string list \<Rightarrow> user \<Rightarrow> user_store \<Rightarrow> user_error option \<times> user_store" where
  "UpdateUser ord u st =
     (case st (us_ID u) of
        None \<Rightarrow> (Some ErrUserNotFound, st)
      | Some old \<Rightarrow>
          if usernameTakenLocked ord (us_ID u) (us_Username u) st then (Some ErrUsernameTaken, st)
          else (None, st(us_ID u \<mapsto> updated_user old u)))"

fun admin_scan :: "string \<Rightarrow> user list \<Rightarrow> bool \<times> nat \<Rightarrow> bool \<times> nat" where
  "admin_scan i [] acc = acc"
| "admin_scan i (u # us) (target, others) =
     admin_scan i us
       (if us_Role u \<noteq> RoleAdmin then (target, others)
        else if us_ID u = i then (True, others) else (target, others + 1))"

definition lastAdminLocked :: "string list \<Rightarrow> string \<Rightarrow> user_store \<Rightarrow> bool" where
  "lastAdminLocked ord i st = (let (target, others) = admin_scan i (users_in ord st) (False, 0) in target \<and> others = 0)"

definition DeleteUnlessLastAdmin :: "string list \<Rightarrow> string \<Rightarrow> user_store \<Rightarrow> (user_error + bool) \<times> user_store" where
  "DeleteUnlessLastAdmin ord i st =
     (case st i of
        None \<Rightarrow> (Inl ErrUserNotFound, st)
      | Some _ \<Rightarrow> if lastAdminLocked ord i st then (Inr False, st) else (Inr True, st(i := None)))"

definition UpdateUnlessLastAdmin :: "string list \<Rightarrow> user \<Rightarrow> user_store \<Rightarrow> (user_error + bool) \<times> user_store" where
  "UpdateUnlessLastAdmin ord u st =
     (case st (us_ID u) of
        None \<Rightarrow> (Inl ErrUserNotFound, st)
      | Some old \<Rightarrow>
          if us_Role u \<noteq> RoleAdmin \<and> lastAdminLocked ord (us_ID u) st then (Inr False, st)
          else if usernameTakenLocked ord (us_ID u) (us_Username u) st then (Inl ErrUsernameTaken, st)
          else (Inr True, st(us_ID u \<mapsto> updated_user old u)))"

definition GetUser :: "string \<Rightarrow> user_store \<Rightarrow> user_error + user" where
  "GetUser i st = (case st i of None \<Rightarrow> Inl ErrUserNotFound | Some u \<Rightarrow> Inr u)"

definition FindByUsername :: "string list \<Rightarrow> string \<Rightarrow> user_store \<Rightarrow> user_error + user" where
  "FindByUsername ord name st =
     (case List.find (\<lambda>u. us_Username u = name) (users_in ord st) of None \<Rightarrow> Inl ErrUserNotFound | Some u \<Rightarrow> Inr u)"

definition ListUsers :: "string list \<Rightarrow> user_store \<Rightarrow> user list" where
  "ListUsers ord st = sort_key (\<lambda>u. (us_CreatedAt u, us_ID u)) (users_in ord st)"

definition DeleteUser :: "string \<Rightarrow> user_store \<Rightarrow> user_error option \<times> user_store" where
  "DeleteUser i st = (case st i of None \<Rightarrow> (Some ErrUserNotFound, st) | Some _ \<Rightarrow> (None, st(i := None)))"

text \<open>\<open>compare\<close> is bcrypt's comparison of a hash with a password.\<close>

definition Authenticate :: "(string \<Rightarrow> string \<Rightarrow> bool) \<Rightarrow> string list \<Rightarrow> string \<Rightarrow> string \<Rightarrow> user_store \<Rightarrow>
    user_error + user" where
  "Authenticate compare ord name password st =
     (case FindByUsername ord name st of
        Inl _ \<Rightarrow> Inl ErrBadCredentials
      | Inr u \<Rightarrow> if compare (us_PasswordHash u) password then Inr u else Inl ErrBadCredentials)"

section \<open>Teams and organizations\<close>

record team =
  tm_ID :: string
  tm_Name :: string
  tm_CreatedAt :: gotime

record team_store =
  ts_teams :: "string \<rightharpoonup> team"
  ts_members :: "string \<rightharpoonup> (string \<rightharpoonup> unit)"

datatype group_error = ErrGroupNotFound

definition NewTeamStore :: team_store where
  "NewTeamStore = \<lparr>ts_teams = Map.empty, ts_members = Map.empty\<rparr>"

definition SaveTeam :: "team \<Rightarrow> team_store \<Rightarrow> team_store" where
  "SaveTeam t st = st\<lparr>ts_teams := (ts_teams st)(tm_ID t \<mapsto> t)\<rparr>"

definition GetTeam :: "string \<Rightarrow> team_store \<Rightarrow> group_error + team" where
  "GetTeam i st = (case ts_teams st i of None \<Rightarrow> Inl ErrGroupNotFound | Some t \<Rightarrow> Inr t)"

definition ListTeams :: "string list \<Rightarrow> team_store \<Rightarrow> team list" where
  "ListTeams ord st = sort_key (\<lambda>t. (tm_CreatedAt t, tm_ID t)) (List.map_filter (ts_teams st) ord)"

definition DeleteTeam :: "string \<Rightarrow> team_store \<Rightarrow> group_error option \<times> team_store" where
  "DeleteTeam i st =
     (case ts_teams st i of
        None \<Rightarrow> (Some ErrGroupNotFound, st)
      | Some _ \<Rightarrow> (None, st\<lparr>ts_teams := (ts_teams st)(i := None), ts_members := (ts_members st)(i := None)\<rparr>))"

text \<open>The member set of a map of them: a missing entry reads as empty.\<close>

definition members_at :: "(string \<rightharpoonup> (string \<rightharpoonup> 'r)) \<Rightarrow> string \<Rightarrow> (string \<rightharpoonup> 'r)" where
  "members_at ms i = (case ms i of None \<Rightarrow> Map.empty | Some m \<Rightarrow> m)"

text \<open>Deleting from a missing set does nothing.\<close>

definition without_member :: "string \<Rightarrow> string \<Rightarrow> (string \<rightharpoonup> (string \<rightharpoonup> 'r)) \<Rightarrow> (string \<rightharpoonup> (string \<rightharpoonup> 'r))" where
  "without_member i u ms = (case ms i of None \<Rightarrow> ms | Some m \<Rightarrow> ms(i \<mapsto> m(u := None)))"

definition AddTeamMember :: "string \<Rightarrow> string \<Rightarrow> team_store \<Rightarrow> group_error option \<times> team_store" where
  "AddTeamMember i u st =
     (case ts_teams st i of
        None \<Rightarrow> (Some ErrGroupNotFound, st)
      | Some _ \<Rightarrow> (None, st\<lparr>ts_members := (ts_members st)(i \<mapsto> (members_at (ts_members st) i)(u \<mapsto> ()))\<rparr>))"

definition RemoveTeamMember :: "string \<Rightarrow> string \<Rightarrow> team_store \<Rightarrow> team_store" where
  "RemoveTeamMember i u st = st\<lparr>ts_members := without_member i u (ts_members st)\<rparr>"

definition TeamMembers :: "string list \<Rightarrow> string \<Rightarrow> team_store \<Rightarrow> string list" where
  "TeamMembers uord i st = sort (filter (\<lambda>u. members_at (ts_members st) i u \<noteq> None) uord)"

definition TeamsForUser :: "string list \<Rightarrow> string \<Rightarrow> team_store \<Rightarrow> string list" where
  "TeamsForUser ord u st = sort (filter (\<lambda>i. members_at (ts_members st) i u \<noteq> None) ord)"

record org =
  og_ID :: string
  og_Name :: string
  og_CreatedAt :: gotime

record org_store =
  os_orgs :: "string \<rightharpoonup> org"
  os_members :: "string \<rightharpoonup> (string \<rightharpoonup> string)"

definition OrgRoleAdmin :: string where "OrgRoleAdmin = ''admin''"
definition OrgRoleMember :: string where "OrgRoleMember = ''member''"

definition ValidOrgRole :: "string \<Rightarrow> bool" where
  "ValidOrgRole r \<longleftrightarrow> r = OrgRoleAdmin \<or> r = OrgRoleMember"

definition NewOrgStore :: org_store where
  "NewOrgStore = \<lparr>os_orgs = Map.empty, os_members = Map.empty\<rparr>"

definition SaveOrg :: "org \<Rightarrow> org_store \<Rightarrow> org_store" where
  "SaveOrg g st = st\<lparr>os_orgs := (os_orgs st)(og_ID g \<mapsto> g)\<rparr>"

definition GetOrg :: "string \<Rightarrow> org_store \<Rightarrow> group_error + org" where
  "GetOrg i st = (case os_orgs st i of None \<Rightarrow> Inl ErrGroupNotFound | Some g \<Rightarrow> Inr g)"

definition ListOrgs :: "string list \<Rightarrow> org_store \<Rightarrow> org list" where
  "ListOrgs ord st = sort_key (\<lambda>g. (og_CreatedAt g, og_ID g)) (List.map_filter (os_orgs st) ord)"

definition DeleteOrg :: "string \<Rightarrow> org_store \<Rightarrow> group_error option \<times> org_store" where
  "DeleteOrg i st =
     (case os_orgs st i of
        None \<Rightarrow> (Some ErrGroupNotFound, st)
      | Some _ \<Rightarrow> (None, st\<lparr>os_orgs := (os_orgs st)(i := None), os_members := (os_members st)(i := None)\<rparr>))"

definition AddOrgMember :: "string \<Rightarrow> string \<Rightarrow> string \<Rightarrow> org_store \<Rightarrow> group_error option \<times> org_store" where
  "AddOrgMember i u role st =
     (case os_orgs st i of
        None \<Rightarrow> (Some ErrGroupNotFound, st)
      | Some _ \<Rightarrow> (None, st\<lparr>os_members := (os_members st)(i \<mapsto> (members_at (os_members st) i)(u \<mapsto> role))\<rparr>))"

definition RemoveOrgMember :: "string \<Rightarrow> string \<Rightarrow> org_store \<Rightarrow> org_store" where
  "RemoveOrgMember i u st = st\<lparr>os_members := without_member i u (os_members st)\<rparr>"

definition OrgMembers :: "string list \<Rightarrow> string \<Rightarrow> org_store \<Rightarrow> (string \<times> string) list" where
  "OrgMembers uord i st =
     sort_key fst (List.map_filter (\<lambda>u. map_option (\<lambda>r. (u, r)) (members_at (os_members st) i u)) uord)"

definition OrgsForUser :: "string list \<Rightarrow> string \<Rightarrow> org_store \<Rightarrow> (string \<times> string) list" where
  "OrgsForUser ord u st =
     sort_key fst (List.map_filter (\<lambda>i. map_option (\<lambda>r. (i, r)) (members_at (os_members st) i u)) ord)"

section \<open>Tokens\<close>

record token =
  tk_ID :: string
  tk_Name :: string
  tk_UserID :: string
  tk_Kind :: string
  tk_CreatedBy :: string
  tk_CreatedByType :: string
  tk_Hash :: string
  tk_CreatedAt :: gotime
  tk_LastUsedAt :: "gotime option"
  tk_ExpiresAt :: "gotime option"

type_synonym token_store = "string \<rightharpoonup> token"

datatype token_error = ErrTokenNotFound | ErrTokenNameTooLong nat

definition KindAgent :: string where "KindAgent = ''agent''"
definition KindSession :: string where "KindSession = ''session''"

definition MaxNameBytes :: nat where "MaxNameBytes = 255"

definition Expired :: "token \<Rightarrow> gotime \<Rightarrow> bool" where
  "Expired t now \<longleftrightarrow> (case tk_ExpiresAt t of None \<Rightarrow> False | Some e \<Rightarrow> now > e)"

definition IsAgent :: "token \<Rightarrow> bool" where "IsAgent t \<longleftrightarrow> tk_Kind t = KindAgent"
definition IsSession :: "token \<Rightarrow> bool" where "IsSession t \<longleftrightarrow> tk_Kind t = KindSession"

definition SaveToken :: "token \<Rightarrow> token_store \<Rightarrow> token_store" where
  "SaveToken t st = st(tk_ID t \<mapsto> t)"

definition ListTokens :: "string list \<Rightarrow> token_store \<Rightarrow> token list" where
  "ListTokens ord st = sort_key (\<lambda>t. (tk_CreatedAt t, tk_ID t)) (List.map_filter st ord)"

definition Touch :: "string \<Rightarrow> gotime \<Rightarrow> token_store \<Rightarrow> token_store" where
  "Touch i at st = (case st i of None \<Rightarrow> st | Some t \<Rightarrow> st(i \<mapsto> t\<lparr>tk_LastUsedAt := Some at\<rparr>))"

definition DeleteToken :: "string \<Rightarrow> token_store \<Rightarrow> token_error option \<times> token_store" where
  "DeleteToken i st = (case st i of None \<Rightarrow> (Some ErrTokenNotFound, st) | Some _ \<Rightarrow> (None, st(i := None)))"

definition FindByHash :: "string list \<Rightarrow> string \<Rightarrow> token_store \<Rightarrow> token_error + token" where
  "FindByHash ord hash st =
     (case List.find (\<lambda>t. tk_Hash t = hash) (List.map_filter st ord) of None \<Rightarrow> Inl ErrTokenNotFound | Some t \<Rightarrow> Inr t)"

definition HashToken :: "(string \<Rightarrow> string) \<Rightarrow> string \<Rightarrow> string" where
  "HashToken sha plain = sha (TrimSpace plain)"

text \<open>\<open>lower\<close> stands for the folding of \<open>EqualFold\<close> on the scheme, which is ASCII.\<close>

definition FromHeader :: "(string \<Rightarrow> string) \<Rightarrow> string \<Rightarrow> string" where
  "FromHeader lower header =
     (let scheme = ''Bearer '' in
      if length header > length scheme \<and> lower (take (length scheme) header) = lower scheme
      then TrimSpace (drop (length scheme) header) else [])"

section \<open>Grants\<close>

definition AccessRead :: string where "AccessRead = ''read''"
definition AccessUse :: string where "AccessUse = ''use''"
definition AccessManage :: string where "AccessManage = ''manage''"

lemmas access_defs = AccessRead_def AccessUse_def AccessManage_def

record grant =
  gr_ID :: string
  gr_Subject :: string
  gr_Object :: string
  gr_Access :: string
  gr_CreatedAt :: gotime

definition QueuePrefix :: string where "QueuePrefix = ''queue:''"

definition QueueObject :: "string \<Rightarrow> string" where "QueueObject queue = QueuePrefix @ queue"

definition hasAnyPrefix :: "string \<Rightarrow> string list \<Rightarrow> bool" where
  "hasAnyPrefix s ps \<longleftrightarrow> list_ex (HasPrefix s) ps"

definition ScopesARun :: "string \<Rightarrow> bool" where
  "ScopesARun ob \<longleftrightarrow> hasAnyPrefix ob [''proj_'', ''inv_'', ''cred_'']"

definition ValidAccess :: "string \<Rightarrow> bool" where
  "ValidAccess a \<longleftrightarrow> a = AccessRead \<or> a = AccessUse \<or> a = AccessManage"

definition access_rank :: "string \<Rightarrow> nat" where
  "access_rank a = (if a = AccessManage then 3 else if a = AccessUse then 2 else if a = AccessRead then 1 else 0)"

definition Satisfies :: "string \<Rightarrow> string \<Rightarrow> bool" where
  "Satisfies have_a want \<longleftrightarrow> access_rank have_a \<ge> access_rank want"

definition ValidSubject :: "string \<Rightarrow> bool" where
  "ValidSubject s \<longleftrightarrow> hasAnyPrefix s [''user_'', ''team_'', ''org_'']"

definition ValidObject :: "string \<Rightarrow> bool" where
  "ValidObject ob \<longleftrightarrow>
     (if HasPrefix ob QueuePrefix then TrimSpace (drop (length QueuePrefix) ob) \<noteq> []
      else hasAnyPrefix ob [''proj_'', ''tpl_'', ''inv_'', ''cred_'', ''ntf_'', QueuePrefix])"

type_synonym grant_store = "string \<rightharpoonup> grant"

datatype grant_error = ErrGrantNotFound

definition SaveGrant :: "grant \<Rightarrow> grant_store \<Rightarrow> grant_store" where
  "SaveGrant g st = st(gr_ID g \<mapsto> g)"

definition GetGrant :: "string \<Rightarrow> grant_store \<Rightarrow> grant_error + grant" where
  "GetGrant i st = (case st i of None \<Rightarrow> Inl ErrGrantNotFound | Some g \<Rightarrow> Inr g)"

definition sortGrants :: "grant list \<Rightarrow> grant list" where
  "sortGrants gs = sort_key (\<lambda>g. (gr_CreatedAt g, gr_ID g)) gs"

definition ListGrants :: "string list \<Rightarrow> grant_store \<Rightarrow> grant list" where
  "ListGrants ord st = sortGrants (List.map_filter st ord)"

definition DeleteGrant :: "string \<Rightarrow> grant_store \<Rightarrow> grant_error option \<times> grant_store" where
  "DeleteGrant i st = (case st i of None \<Rightarrow> (Some ErrGrantNotFound, st) | Some _ \<Rightarrow> (None, st(i := None)))"

definition GrantsForObject :: "string list \<Rightarrow> string \<Rightarrow> grant_store \<Rightarrow> grant list" where
  "GrantsForObject ord ob st = sortGrants (filter (\<lambda>g. gr_Object g = ob) (List.map_filter st ord))"

end
