(* ===== verification/Account_Props.thy ===== *)
theory Account_Props
  imports Accounts
begin

text \<open>
  What the account store keeps: the sign-in names stay apart whatever is written, and the operations the
  server changes accounts with never leave an install without an administrator, in whatever order they
  come.
\<close>

definition users_ok :: "user_store \<Rightarrow> bool" where
  "users_ok st \<longleftrightarrow> (\<forall>i u. st i = Some u \<longrightarrow> us_ID u = i) \<and>
     (\<forall>i j u v. st i = Some u \<longrightarrow> st j = Some v \<longrightarrow> us_Username u = us_Username v \<longrightarrow> i = j)"

definition has_admin :: "user_store \<Rightarrow> bool" where
  "has_admin st \<longleftrightarrow> (\<exists>i u. st i = Some u \<and> us_Role u = RoleAdmin)"

lemma users_in_mem: "iterates ord st \<Longrightarrow> u \<in> set (users_in ord st) \<longleftrightarrow> (\<exists>i. st i = Some u)"
  by (force simp: users_in_def map_filter_def iterates_def)

lemma usernameTaken_iff:
  "iterates ord st \<Longrightarrow> usernameTakenLocked ord i name st \<longleftrightarrow> (\<exists>j u. st j = Some u \<and> us_ID u \<noteq> i \<and> us_Username u = name)"
  unfolding usernameTakenLocked_def list_ex_iff Bex_def by (simp add: users_in_mem) blast

lemma admin_scan_spec:
  "admin_scan i us (target, others) =
     (target \<or> (\<exists>u\<in>set us. us_Role u = RoleAdmin \<and> us_ID u = i),
      others + length (filter (\<lambda>u. us_Role u = RoleAdmin \<and> us_ID u \<noteq> i) us))"
  by (induction us arbitrary: target others) auto

lemma lastAdmin_iff:
  assumes "iterates ord st" and "users_ok st"
  shows "lastAdminLocked ord i st \<longleftrightarrow>
    (\<exists>u. st i = Some u \<and> us_Role u = RoleAdmin) \<and> (\<forall>j u. st j = Some u \<longrightarrow> us_Role u = RoleAdmin \<longrightarrow> j = i)"
proof -
  have "lastAdminLocked ord i st \<longleftrightarrow> (\<exists>j u. st j = Some u \<and> us_Role u = RoleAdmin \<and> us_ID u = i) \<and>
      (\<forall>j u. st j = Some u \<longrightarrow> us_Role u = RoleAdmin \<longrightarrow> us_ID u = i)"
    unfolding lastAdminLocked_def admin_scan_spec Let_def
    by (simp add: filter_empty_conv Ball_def Bex_def users_in_mem [OF assms(1)]) blast
  moreover have key: "us_ID u = j" if "st j = Some u" for j u using assms(2) that by (simp add: users_ok_def)
  have "(\<exists>j u. st j = Some u \<and> us_Role u = RoleAdmin \<and> us_ID u = i) \<longleftrightarrow> (\<exists>u. st i = Some u \<and> us_Role u = RoleAdmin)"
    "(\<forall>j u. st j = Some u \<longrightarrow> us_Role u = RoleAdmin \<longrightarrow> us_ID u = i) \<longleftrightarrow>
      (\<forall>j u. st j = Some u \<longrightarrow> us_Role u = RoleAdmin \<longrightarrow> j = i)"
    using key by blast+
  ultimately show ?thesis by simp
qed

section \<open>Operations\<close>

text \<open>What the server does: it creates accounts under fresh ids, and changes and removes them by the
  guarded operations. Every loop over the map may visit it in its own order.\<close>

inductive user_step :: "user_store \<Rightarrow> user_store \<Rightarrow> bool" where
  create: "iterates ord st \<Longrightarrow> st (us_ID u) = None \<Longrightarrow> user_step st (snd (SaveUser ord u st))"
| change: "iterates ord st \<Longrightarrow> user_step st (snd (UpdateUnlessLastAdmin ord u st))"
| remove: "iterates ord st \<Longrightarrow> user_step st (snd (DeleteUnlessLastAdmin ord i st))"

lemma users_ok_put:
  assumes "users_ok st" and "iterates ord st" and "\<not> usernameTakenLocked ord (us_ID u) (us_Username u) st"
  shows "users_ok (st(us_ID u \<mapsto> u))"
proof -
  have apart: "us_Username v \<noteq> us_Username u" if "st j = Some v" "j \<noteq> us_ID u" for j v
    using assms that by (auto simp: usernameTaken_iff users_ok_def)
  show ?thesis using assms(1) apart unfolding users_ok_def by (auto split: if_splits) metis+
qed

lemma updated_user_fields [simp]:
  "us_ID (updated_user old u) = us_ID old" "us_Username (updated_user old u) = us_Username u"
  "us_Role (updated_user old u) = us_Role u"
  by (simp_all add: updated_user_def)

lemma user_step_ok: "user_step st st' \<Longrightarrow> users_ok st \<Longrightarrow> users_ok st'"
proof (induction rule: user_step.induct)
  case (create ord st u)
  have "snd (SaveUser ord u st) = (if usernameTakenLocked ord (us_ID u) (us_Username u) st then st else st(us_ID u \<mapsto> u))"
    by (simp add: SaveUser_def)
  then show ?case using users_ok_put [OF create(3,1), of u] create(3) by presburger
next
  case (change ord st u)
  have "users_ok (st(us_ID u \<mapsto> updated_user old u))"
    if "st (us_ID u) = Some old" "\<not> usernameTakenLocked ord (us_ID u) (us_Username u) st" for old
  proof -
    have "us_ID old = us_ID u" using that(1) change(2) by (simp add: users_ok_def)
    then show ?thesis using users_ok_put [OF change(2,1), of "updated_user old u"] that(2) by simp
  qed
  then show ?case using change by (auto simp: UpdateUnlessLastAdmin_def split: option.splits)
next
  case (remove ord st i)
  then show ?case by (auto simp: DeleteUnlessLastAdmin_def users_ok_def split: option.splits)
qed

lemma user_step_admin:
  assumes "user_step st st'" and "users_ok st" and "has_admin st"
  shows "has_admin st'"
  using assms
proof (induction rule: user_step.induct)
  case (create ord st u)
  then show ?case by (auto simp: SaveUser_def has_admin_def split: if_splits) (metis option.distinct(1))
next
  case (change ord st u)
  note last_iff = lastAdmin_iff [OF change(1,2), of "us_ID u"]
  obtain j v where a: "st j = Some v" "us_Role v = RoleAdmin" using change(3) by (auto simp: has_admin_def)
  show ?case
  proof (cases "us_Role u = RoleAdmin")
    case True
    then show ?thesis using change(3)
      by (auto simp: UpdateUnlessLastAdmin_def has_admin_def split: option.splits)
  next
    case False
    have "\<exists>k w. k \<noteq> us_ID u \<and> st k = Some w \<and> us_Role w = RoleAdmin" if "\<not> lastAdminLocked ord (us_ID u) st"
      using that a last_iff by metis
    then show ?thesis using False change(3)
      by (auto simp: UpdateUnlessLastAdmin_def has_admin_def split: option.splits)
  qed
next
  case (remove ord st i)
  note last_iff = lastAdmin_iff [OF remove(1,2), of i]
  obtain j v where a: "st j = Some v" "us_Role v = RoleAdmin" using remove(3) by (auto simp: has_admin_def)
  have "\<exists>k w. k \<noteq> i \<and> st k = Some w \<and> us_Role w = RoleAdmin" if "\<not> lastAdminLocked ord i st"
    using that a last_iff by metis
  then show ?case using remove(3) by (auto simp: DeleteUnlessLastAdmin_def has_admin_def split: option.splits)
qed

text \<open>An install keeps an administrator and its sign-in names stay apart. Through any sequence of
  account operations of the server, creating accounts, changing them and removing them, in any order and
  whatever order the store's loops visit the accounts in, an install that has an administrator keeps
  one, and a sign-in name leads to one account.\<close>

theorem an_administrator_remains:
  assumes "user_step\<^sup>*\<^sup>* st st'" and "users_ok st" and "has_admin st" and "iterates ord st'"
  shows "has_admin st' \<and>
    (\<forall>i u. st' i = Some u \<longrightarrow> FindByUsername ord (us_Username u) st' = Inr u)"
proof -
  have ok: "users_ok st' \<and> has_admin st'"
    using assms(1-3)
  proof (induction rule: rtranclp_induct)
    case (step y z)
    then show ?case using user_step_ok user_step_admin by blast
  qed simp
  have "FindByUsername ord (us_Username u) st' = Inr u" if "st' i = Some u" for i u
  proof (cases "List.find (\<lambda>v. us_Username v = us_Username u) (users_in ord st')")
    case None
    then show ?thesis using that users_in_mem [OF assms(4), of u] by (auto simp: find_None_iff)
  next
    case (Some v)
    then have "v \<in> set (users_in ord st')" "us_Username v = us_Username u"
      by (auto simp: find_Some_iff)
    then obtain j where "st' j = Some v" "us_Username v = us_Username u"
      using users_in_mem [OF assms(4)] by blast
    then have "v = u" using ok that unfolding users_ok_def by (metis option.inject)
    then show ?thesis using Some by (simp add: FindByUsername_def)
  qed
  then show ?thesis using ok by blast
qed

definition root_user :: user where
  "root_user = \<lparr>us_ID = ''user_1'', us_Username = ''root'', us_PasswordHash = [], us_Role = RoleAdmin, us_FullName = [],
     us_Email = [], us_Phone = [], us_Title = [], us_Links = [], us_Notes = [], us_Source = [], us_CreatedAt = 1\<rparr>"

theorem an_administrator_remains_witness:
  "snd (DeleteUnlessLastAdmin [''user_1''] ''user_1'' [''user_1'' \<mapsto> root_user]) = [''user_1'' \<mapsto> root_user] \<and>
   has_admin (snd (DeleteUnlessLastAdmin [''user_1''] ''user_1'' [''user_1'' \<mapsto> root_user])) \<and>
   FindByUsername [''user_1''] ''root'' [''user_1'' \<mapsto> root_user] = Inr root_user"
proof -
  let ?st = "[''user_1'' \<mapsto> root_user]"
  have it: "iterates [''user_1''] ?st" by (simp add: iterates_def)
  have same: "snd (DeleteUnlessLastAdmin [''user_1''] ''user_1'' ?st) = ?st"
    by (simp add: DeleteUnlessLastAdmin_def lastAdminLocked_def users_in_def map_filter_def root_user_def)
  have "user_step\<^sup>*\<^sup>* ?st (snd (DeleteUnlessLastAdmin [''user_1''] ''user_1'' ?st))"
    using user_step.remove [OF it, of "''user_1''"] by blast
  moreover have "users_ok ?st" "has_admin ?st"
    by (auto simp: users_ok_def has_admin_def root_user_def split: if_splits)
  moreover have "us_Username root_user = ''root''" by (simp add: root_user_def)
  ultimately show ?thesis
    using an_administrator_remains [of ?st "snd (DeleteUnlessLastAdmin [''user_1''] ''user_1'' ?st)" "[''user_1'']"] it same
    by (metis fun_upd_same)
qed

end
