(* ===== verification/Authorize.thy ===== *)
theory Authorize
  imports Accounts Schedule_Store MemLedgers
begin

text \<open>
  Object-level access (\<open>internal/server/authorize.go\<close>, \<open>visibility.go\<close>): who may use, manage or read a
  project, template, inventory, credential or queue, a run or a schedule, and what a listing shows of
  them. An authorizer that is nil is one with nothing wired. The stores it reads may fail, so a read is
  an error or an answer; \<open>None\<close> for an actor is an install that authenticates nobody. A memo of a read is
  that read.
\<close>

record actor =
  ac_UserID :: string
  ac_Role :: string
  ac_Name :: string
  ac_Agent :: bool
  ac_Type :: string
  ac_TokenID :: string

datatype authz_error = ErrForbiddenGrant | ErrForbiddenOrg | ErrAuthzRead string

record grant_reader =
  gd_ForObject :: "string \<Rightarrow> string + grant list"
  gd_List :: "string + grant list"

record authorizer =
  az_grants :: "grant_reader option"
  az_teams :: "(string \<Rightarrow> string + string list) option"
  az_orgs :: "(string \<Rightarrow> string + (string \<times> string) list) option"
  az_orgOwners :: "(string \<Rightarrow> string option) option"
  az_templateOwners :: "(string + (string \<rightharpoonup> string)) option"
  az_strict :: bool

definition nil_authorizer :: authorizer where
  "nil_authorizer = \<lparr>az_grants = None, az_teams = None, az_orgs = None, az_orgOwners = None,
     az_templateOwners = None, az_strict = False\<rparr>"

definition role_rank :: "string \<Rightarrow> nat" where
  "role_rank r = (if r = RoleViewer then 1 else if r = RoleOperator then 2 else if r = RoleAdmin then 3 else 0)"

definition roleAllows :: "string \<Rightarrow> string \<Rightarrow> bool" where
  "roleAllows have_r need \<longleftrightarrow> role_rank have_r \<ge> role_rank need"

section \<open>One object\<close>

definition grantRule :: "bool \<Rightarrow> bool \<Rightarrow> bool \<Rightarrow> bool" where
  "grantRule held controlled strict = (if held then True else if controlled then False else \<not> strict)"

definition subjectsFor :: "authorizer \<Rightarrow> actor \<Rightarrow> string + string set" where
  "subjectsFor a actor =
     (if ac_UserID actor = [] then Inr {}
      else case (case az_teams a of None \<Rightarrow> Inr [] | Some f \<Rightarrow> f (ac_UserID actor)) of
        Inl e \<Rightarrow> Inl e
      | Inr ts \<Rightarrow>
          (case (case az_orgs a of None \<Rightarrow> Inr [] | Some f \<Rightarrow> f (ac_UserID actor)) of
             Inl e \<Rightarrow> Inl e
           | Inr ms \<Rightarrow> Inr (insert (ac_UserID actor) (set ts \<union> set (map fst ms)))))"

fun org_access_in :: "actor \<Rightarrow> string \<Rightarrow> (string \<times> string) list \<Rightarrow> string \<times> bool" where
  "org_access_in actor orgID [] = ([], False)"
| "org_access_in actor orgID ((i, role) # ms) =
     (if i \<noteq> orgID then org_access_in actor orgID ms
      else if role = OrgRoleAdmin \<and> roleAllows (ac_Role actor) RoleOperator then (AccessManage, True)
      else (AccessUse, True))"

definition orgAccess :: "authorizer \<Rightarrow> actor \<Rightarrow> string \<Rightarrow> string + string \<times> bool" where
  "orgAccess a actor ob =
     (case (az_orgOwners a, az_orgs a) of
        (Some owner, Some orgs) \<Rightarrow>
          if ac_UserID actor = [] then Inr ([], False)
          else (case owner ob of
            None \<Rightarrow> Inr ([], False)
          | Some orgID \<Rightarrow>
              if orgID = [] then Inr ([], False)
              else map_sum (\<lambda>e. e) (org_access_in actor orgID) (orgs (ac_UserID actor)))
      | _ \<Rightarrow> Inr ([], False))"

definition grants_give :: "string set \<Rightarrow> string \<Rightarrow> grant list \<Rightarrow> bool" where
  "grants_give subjects want gs \<longleftrightarrow> list_ex (\<lambda>g. gr_Subject g \<in> subjects \<and> Satisfies (gr_Access g) want) gs"

definition authorize :: "authorizer \<Rightarrow> actor option \<Rightarrow> string \<Rightarrow> string \<Rightarrow> authz_error option" where
  "authorize a act ob want =
     (case (az_grants a, act) of
        (Some gd, Some actor) \<Rightarrow>
          if ac_Role actor = RoleAdmin then None
          else (case gd_ForObject gd ob of
            Inl e \<Rightarrow> Some (ErrAuthzRead e)
          | Inr gs \<Rightarrow>
              (case (if gs = [] then Inr False
                     else map_sum (\<lambda>e. e) (\<lambda>subjects. grants_give subjects want gs) (subjectsFor a actor)) of
                 Inl e \<Rightarrow> Some (ErrAuthzRead e)
               | Inr granted \<Rightarrow>
                   (case (if granted then Inr True
                          else map_sum (\<lambda>e. e) (\<lambda>(have_a, member). member \<and> Satisfies have_a want) (orgAccess a actor ob)) of
                      Inl e \<Rightarrow> Some (ErrAuthzRead e)
                    | Inr held \<Rightarrow> if grantRule held (gs \<noteq> []) (az_strict a) then None else Some ErrForbiddenGrant)))
      | _ \<Rightarrow> None)"

fun authorizeAll :: "authorizer \<Rightarrow> actor option \<Rightarrow> string \<Rightarrow> string list \<Rightarrow> authz_error option" where
  "authorizeAll a act want [] = None"
| "authorizeAll a act want (ob # obs) =
     (if ob = [] then authorizeAll a act want obs
      else case authorize a act ob want of Some e \<Rightarrow> Some e | None \<Rightarrow> authorizeAll a act want obs)"

definition authzRefused :: "authz_error option \<Rightarrow> bool" where
  "authzRefused e \<longleftrightarrow> e = Some ErrForbiddenGrant \<or> e = Some ErrForbiddenOrg"

definition mayUse :: "authorizer \<Rightarrow> actor option \<Rightarrow> string \<Rightarrow> authz_error + bool" where
  "mayUse a act ob =
     (case authorize a act ob AccessUse of
        None \<Rightarrow> Inr True
      | Some e \<Rightarrow> if authzRefused (Some e) then Inr False else Inl e)"

definition manages :: "authorizer \<Rightarrow> actor \<Rightarrow> string \<Rightarrow> string + bool" where
  "manages a actor ob =
     (case az_grants a of
        None \<Rightarrow> Inr False
      | Some gd \<Rightarrow>
          if ac_Role actor = RoleAdmin then Inr True
          else (case gd_ForObject gd ob of
            Inl e \<Rightarrow> Inl e
          | Inr gs \<Rightarrow>
              (case subjectsFor a actor of
                 Inl e \<Rightarrow> Inl e
               | Inr subjects \<Rightarrow>
                   if grants_give subjects AccessManage gs then Inr True
                   else map_sum (\<lambda>e. e) (\<lambda>(have_a, member). member \<and> Satisfies have_a AccessManage) (orgAccess a actor ob))))"

definition submitterOrg :: "authorizer \<Rightarrow> actor \<Rightarrow> string + string" where
  "submitterOrg a actor =
     (case az_orgs a of
        None \<Rightarrow> Inr []
      | Some orgs \<Rightarrow>
          if ac_UserID actor = [] then Inr []
          else map_sum (\<lambda>e. e) (\<lambda>ms. fold (\<lambda>m cur. if cur = [] \<or> fst m < cur then fst m else cur) ms [])
            (orgs (ac_UserID actor)))"

definition authorizeOwningOrg :: "authorizer \<Rightarrow> actor option \<Rightarrow> string \<Rightarrow> authz_error option" where
  "authorizeOwningOrg a act orgID =
     (case (az_grants a, act) of
        (Some _, Some actor) \<Rightarrow>
          if ac_Role actor = RoleAdmin then None
          else if \<not> az_strict a then None
          else if orgID \<noteq> [] then
            (case subjectsFor a actor of
               Inl e \<Rightarrow> Some (ErrAuthzRead e)
             | Inr subjects \<Rightarrow> if orgID \<in> subjects then None else Some ErrForbiddenOrg)
          else Some ErrForbiddenOrg
      | _ \<Rightarrow> None)"

text \<open>Whether placing something in an organization is denied.\<close>

definition denyForeignOrg :: "authorizer \<Rightarrow> actor option \<Rightarrow> string \<Rightarrow> nat option" where
  "denyForeignOrg a act orgID =
     (if orgID = [] \<or> \<not> az_strict a then None
      else case act of
        None \<Rightarrow> None
      | Some actor \<Rightarrow>
          if ac_Role actor = RoleAdmin then None
          else (case subjectsFor a actor of
            Inl _ \<Rightarrow> Some 500
          | Inr subjects \<Rightarrow> if orgID \<in> subjects then None else Some 403))"

section \<open>Runs, schedules and queues\<close>

definition runObjects :: "run \<Rightarrow> string list" where
  "runObjects r = Objects (AuthOf r)"

definition authorizeRun :: "authorizer \<Rightarrow> actor option \<Rightarrow> string \<Rightarrow> run \<Rightarrow> authz_error option" where
  "authorizeRun a act want r =
     (if runObjects r \<noteq> [] then authorizeAll a act want (runObjects r) else authorizeOwningOrg a act (OrgID r))"

definition authorizeSchedule :: "authorizer \<Rightarrow> actor option \<Rightarrow> string \<Rightarrow> schedule \<Rightarrow> authz_error option" where
  "authorizeSchedule a act want sc =
     (if sc_TemplateID sc \<noteq> [] then authorize a act (sc_TemplateID sc) want else authorizeOwningOrg a act (sc_OrgID sc))"

definition queueObject :: "string \<Rightarrow> string" where
  "queueObject queue = (let q = TrimSpace queue in if q = [] then [] else QueueObject q)"

definition reexecuteAuthorization :: "authorizer \<Rightarrow> actor option \<Rightarrow> run \<Rightarrow> authz_error option" where
  "reexecuteAuthorization a act r =
     (case authorizeRun a act AccessUse r of
        Some e \<Rightarrow> Some e
      | None \<Rightarrow> if Queue r = [] then None else authorizeAll a act AccessUse [QueueObject (Queue r)])"

definition denyOnAuthzError :: "authz_error option \<Rightarrow> nat option" where
  "denyOnAuthzError e = map_option (\<lambda>e. if e = ErrForbiddenGrant \<or> e = ErrForbiddenOrg then 403 else 500) e"

text \<open>\<open>workers\<close> says whether the license allows workers.\<close>

definition MaxQueueBytes :: nat where "MaxQueueBytes = 255"

definition CheckQueue :: "string \<Rightarrow> bool" where "CheckQueue queue \<longleftrightarrow> length queue \<le> MaxQueueBytes"

definition allowQueue :: "bool \<Rightarrow> string \<Rightarrow> bool" where
  "allowQueue workers queue \<longleftrightarrow> TrimSpace queue = [] \<or> workers"

definition admitQueue :: "bool \<Rightarrow> string \<Rightarrow> nat option" where
  "admitQueue workers queue =
     (if \<not> CheckQueue queue then Some 400 else if \<not> allowQueue workers queue then Some 403 else None)"

definition orgForUpdate :: "string option \<Rightarrow> string \<Rightarrow> string" where
  "orgForUpdate requested stored = (case requested of None \<Rightarrow> stored | Some i \<Rightarrow> i)"

definition orgForCreate :: "string option \<Rightarrow> string" where
  "orgForCreate requested = (case requested of None \<Rightarrow> [] | Some i \<Rightarrow> i)"

section \<open>Listings\<close>

definition objectsFor :: "authorizer \<Rightarrow> string set \<Rightarrow> string \<Rightarrow> (string \<Rightarrow> bool) \<Rightarrow> grant list \<Rightarrow> string set \<times> string set" where
  "objectsFor a subjects want scope gs =
     fold (\<lambda>g (held, controlled).
        if gr_Object g = [] \<or> \<not> scope (gr_Object g) then (held, controlled)
        else (if gr_Subject g \<in> subjects \<and> Satisfies (gr_Access g) want then insert (gr_Object g) held else held,
              insert (gr_Object g) controlled)) gs ({}, {})"

record visibility =
  vi_subjects :: "string set"
  vi_held :: "string set"
  vi_controlled :: "string set"
  vi_strict :: bool
  vi_all :: bool

definition all_visible :: visibility where
  "all_visible = \<lparr>vi_subjects = {}, vi_held = {}, vi_controlled = {}, vi_strict = False, vi_all = True\<rparr>"

definition allows :: "visibility \<Rightarrow> string \<Rightarrow> string \<Rightarrow> bool" where
  "allows v i orgID =
     (if vi_all v then True
      else grantRule (i \<in> vi_held v \<or> (orgID \<noteq> [] \<and> orgID \<in> vi_subjects v)) (i \<in> vi_controlled v) (vi_strict v))"

definition restricted :: "visibility \<Rightarrow> bool" where
  "restricted v = (if vi_all v then False else vi_strict v \<or> card (vi_controlled v) > card (vi_held v))"

definition everyObject :: "string \<Rightarrow> bool" where "everyObject ob = True"
definition runScopedObjects :: "string \<Rightarrow> bool" where "runScopedObjects ob = ScopesARun ob"

definition visibilityFor :: "authorizer \<Rightarrow> actor option \<Rightarrow> string \<Rightarrow> bool \<Rightarrow> (string \<Rightarrow> bool) \<Rightarrow> string + visibility" where
  "visibilityFor a act want whenOpen scope =
     (case az_grants a of
        None \<Rightarrow> Inr all_visible
      | Some gd \<Rightarrow>
          if \<not> az_strict a \<and> \<not> whenOpen then Inr all_visible
          else (case act of
            None \<Rightarrow> Inr all_visible
          | Some actor \<Rightarrow>
              if ac_Role actor = RoleAdmin then Inr all_visible
              else (case subjectsFor a actor of
                Inl e \<Rightarrow> Inl e
              | Inr subjects \<Rightarrow>
                  (case gd_List gd of
                     Inl e \<Rightarrow> Inl e
                   | Inr gs \<Rightarrow>
                       let (held, controlled) = objectsFor a subjects want scope gs
                       in Inr \<lparr>vi_subjects = subjects, vi_held = held, vi_controlled = controlled,
                           vi_strict = az_strict a, vi_all = False\<rparr>))))"

definition filterInEveryMode :: bool where "filterInEveryMode = True"
definition filterUnderStrictOnly :: bool where "filterUnderStrictOnly = False"

definition readFilter :: "authorizer \<Rightarrow> actor option \<Rightarrow> string + (string \<Rightarrow> string \<Rightarrow> bool)" where
  "readFilter a act = map_sum (\<lambda>e. e) allows (visibilityFor a act AccessRead filterUnderStrictOnly everyObject)"

definition filterReadable :: "authorizer \<Rightarrow> actor option \<Rightarrow> ('t \<Rightarrow> string) \<Rightarrow> ('t \<Rightarrow> string) \<Rightarrow> 't list \<Rightarrow> string + 't list" where
  "filterReadable a act i orgOf items =
     map_sum (\<lambda>e. e) (\<lambda>keep. filter (\<lambda>it. keep (i it) (orgOf it)) items) (readFilter a act)"

definition restrictedReader :: "authorizer \<Rightarrow> actor option \<Rightarrow> string + bool" where
  "restrictedReader a act =
     map_sum (\<lambda>e. e) restricted (visibilityFor a act AccessUse filterInEveryMode runScopedObjects)"

definition orgResolverMemo :: "authorizer \<Rightarrow> string \<Rightarrow> string" where
  "orgResolverMemo a ob =
     (case az_orgOwners a of None \<Rightarrow> [] | Some owner \<Rightarrow> (case owner ob of None \<Rightarrow> [] | Some orgID \<Rightarrow> orgID))"

definition runReadable :: "run_auth \<Rightarrow> (string \<Rightarrow> string \<Rightarrow> bool) \<Rightarrow> (string \<Rightarrow> string) \<Rightarrow> bool" where
  "runReadable auth keep orgOf =
     (if Objects auth = [] then keep [] (ra_OrgID auth)
      else list_all (\<lambda>i. keep i (orgOf i)) (Objects auth))"

definition readableRuns :: "authorizer \<Rightarrow> actor option \<Rightarrow> run list \<Rightarrow> string + run list" where
  "readableRuns a act runs =
     (case visibilityFor a act AccessUse filterInEveryMode runScopedObjects of
        Inl e \<Rightarrow> Inl e
      | Inr vis \<Rightarrow>
          if \<not> restricted vis then Inr runs
          else Inr (filter (\<lambda>r. runReadable (AuthOf r) (allows vis) (orgResolverMemo a)) runs))"

definition templateScopedFilter :: "authorizer \<Rightarrow> actor option \<Rightarrow> string + (string \<Rightarrow> string \<Rightarrow> bool)" where
  "templateScopedFilter a act =
     (case visibilityFor a act AccessUse filterInEveryMode everyObject of
        Inl e \<Rightarrow> Inl e
      | Inr vis \<Rightarrow>
          if vi_all vis then Inr (\<lambda>_ _. True)
          else
            (case (case (act, az_orgs a, az_templateOwners a) of
                     (Some actor, Some orgs, Some owners) \<Rightarrow>
                       if ac_UserID actor = [] then Inr Map.empty
                       else (case orgs (ac_UserID actor) of
                         Inl e \<Rightarrow> Inl e
                       | Inr ms \<Rightarrow> if ms = [] then Inr Map.empty else owners)
                   | _ \<Rightarrow> Inr Map.empty) of
               Inl e \<Rightarrow> Inl e
             | Inr owners \<Rightarrow>
                 Inr (\<lambda>t orgID. if t = [] then allows vis [] orgID
                   else allows vis t (case owners t of None \<Rightarrow> [] | Some i \<Rightarrow> i))))"

section \<open>Views derived from runs\<close>

definition derivedReadScan :: nat where "derivedReadScan = 2000"
definition derivedReadProbeHead :: nat where "derivedReadProbeHead = 100"

text \<open>\<open>page\<close> is the store's page of the newest runs, by its length.\<close>

fun probe_limits :: "(nat \<Rightarrow> string + run list) \<Rightarrow> (run \<Rightarrow> bool) \<Rightarrow> nat \<Rightarrow> nat list \<Rightarrow> string + bool" where
  "probe_limits page ok scan [] = Inr False"
| "probe_limits page ok scan (limit # ls) =
     (case page limit of
        Inl e \<Rightarrow> Inl e
      | Inr rs \<Rightarrow>
          if list_ex ok rs then Inr True
          else if limit = scan \<or> length rs < limit then Inr False
          else probe_limits page ok scan ls)"

definition probeAnyReadable :: "(nat \<Rightarrow> string + run list) \<Rightarrow> (string \<Rightarrow> string \<Rightarrow> bool) \<Rightarrow> (string \<Rightarrow> string) \<Rightarrow> nat \<Rightarrow>
    string + bool" where
  "probeAnyReadable page keep orgOf scan =
     probe_limits page (\<lambda>r. runReadable (AuthOf r) keep orgOf) scan [min derivedReadProbeHead scan, scan]"

definition derivedReadFilterIn :: "authorizer \<Rightarrow> actor option \<Rightarrow> mem_store \<Rightarrow> (nat \<Rightarrow> string + run list) \<Rightarrow> nat \<Rightarrow>
    string + (string \<Rightarrow> bool) \<times> bool" where
  "derivedReadFilterIn a act st page scan =
     (case visibilityFor a act AccessUse filterInEveryMode runScopedObjects of
        Inl e \<Rightarrow> Inl e
      | Inr vis \<Rightarrow>
          if \<not> restricted vis then Inr (\<lambda>_. True, True)
          else (case probeAnyReadable page (allows vis) (orgResolverMemo a) scan of
            Inl e \<Rightarrow> Inl e
          | Inr any_r \<Rightarrow>
              Inr (\<lambda>i. case RunAuthFor i st of
                     Inr auth \<Rightarrow> runReadable auth (allows vis) (orgResolverMemo a)
                   | Inl _ \<Rightarrow> False, any_r)))"

definition derivedReadFilter :: "authorizer \<Rightarrow> actor option \<Rightarrow> mem_store \<Rightarrow> (nat \<Rightarrow> string + run list) \<Rightarrow>
    string + (string \<Rightarrow> bool) \<times> bool" where
  "derivedReadFilter a act st page = derivedReadFilterIn a act st page derivedReadScan"

end
