(* ===== verification/Authorize_Props.thy ===== *)
theory Authorize_Props
  imports Authorize Store_Keys
begin

text \<open>
  What object-level access promises. \<open>grant_reading\<close> is what the authorizer needs of a grant store: the
  grants on an object are the ones the whole list holds for it. Under it, a listing built from one
  reduction of the whole list answers as the check of one object does, which is proved once and
  interpreted on the in-memory store of grants.
\<close>

section \<open>Reducing the grants\<close>

lemma objectsFor_fold:
  "fold (\<lambda>g (held, controlled).
        if gr_Object g = [] \<or> \<not> scope (gr_Object g) then (held, controlled)
        else (if gr_Subject g \<in> subjects \<and> Satisfies (gr_Access g) want then insert (gr_Object g) held else held,
              insert (gr_Object g) controlled)) gs (H, C) =
     (H \<union> gr_Object ` {g \<in> set gs. gr_Object g \<noteq> [] \<and> scope (gr_Object g) \<and> gr_Subject g \<in> subjects \<and> Satisfies (gr_Access g) want},
      C \<union> gr_Object ` {g \<in> set gs. gr_Object g \<noteq> [] \<and> scope (gr_Object g)})"
proof (induction gs arbitrary: H C)
  case (Cons g gs)
  show ?case
    by (cases "gr_Object g = [] \<or> \<not> scope (gr_Object g)"; cases "gr_Subject g \<in> subjects \<and> Satisfies (gr_Access g) want")
      (auto simp: Cons.IH)
qed simp

lemma objectsFor_spec:
  "objectsFor a subjects want scope gs =
     (gr_Object ` {g \<in> set gs. gr_Object g \<noteq> [] \<and> scope (gr_Object g) \<and> gr_Subject g \<in> subjects \<and> Satisfies (gr_Access g) want},
      gr_Object ` {g \<in> set gs. gr_Object g \<noteq> [] \<and> scope (gr_Object g)})"
  by (simp add: objectsFor_def objectsFor_fold)

locale grant_reading =
  fixes forObject :: "string \<Rightarrow> string + grant list" and listing :: "string + grant list"
  assumes agree: "listing = Inr gs \<Longrightarrow> \<exists>fs. forObject ob = Inr fs \<and> set fs = {g \<in> set gs. gr_Object g = ob}"
begin

lemma reduction_answers:
  assumes "listing = Inr gs" and "forObject ob = Inr fs" and "ob \<noteq> []" and "scope ob"
  shows "ob \<in> snd (objectsFor a subjects want scope gs) \<longleftrightarrow> fs \<noteq> []"
    and "ob \<in> fst (objectsFor a subjects want scope gs) \<longleftrightarrow> grants_give subjects want fs"
proof -
  have "set fs = {g \<in> set gs. gr_Object g = ob}" using agree [OF assms(1), of ob] assms(2) by auto
  then have mem: "g \<in> set fs \<longleftrightarrow> g \<in> set gs \<and> gr_Object g = ob" for g by blast
  have "ob \<in> snd (objectsFor a subjects want scope gs) \<longleftrightarrow> (\<exists>g. g \<in> set fs)"
    using assms(3,4) by (auto simp: objectsFor_spec mem)
  then show "ob \<in> snd (objectsFor a subjects want scope gs) \<longleftrightarrow> fs \<noteq> []" by (cases fs) auto
  show "ob \<in> fst (objectsFor a subjects want scope gs) \<longleftrightarrow> grants_give subjects want fs"
    using assms(3,4) by (auto simp: objectsFor_spec grants_give_def list_ex_iff mem)
qed

end

section \<open>The in-memory grants\<close>

definition mem_reader :: "string list \<Rightarrow> grant_store \<Rightarrow> grant_reader" where
  "mem_reader ord st = \<lparr>gd_ForObject = (\<lambda>ob. Inr (GrantsForObject ord ob st)), gd_List = Inr (ListGrants ord st)\<rparr>"

lemma mem_reader_simps [simp]:
  "gd_ForObject (mem_reader ord st) ob = Inr (GrantsForObject ord ob st)" "gd_List (mem_reader ord st) = Inr (ListGrants ord st)"
  by (simp_all add: mem_reader_def)

interpretation mem_grants: grant_reading "gd_ForObject (mem_reader ord st)" "gd_List (mem_reader ord st)" for ord st
  by unfold_locales (auto simp: GrantsForObject_def ListGrants_def sortGrants_def)

section \<open>Membership\<close>

lemma org_access_in_map_of:
  "org_access_in actor i ms = (case map_of ms i of
     None \<Rightarrow> ([], False)
   | Some role \<Rightarrow> (if role = OrgRoleAdmin \<and> roleAllows (ac_Role actor) RoleOperator then AccessManage else AccessUse, True))"
  by (induction ms) (auto split: option.splits)

text \<open>The access the owner of an object gives an actor.\<close>

definition org_gives :: "authorizer \<Rightarrow> actor \<Rightarrow> string \<Rightarrow> string \<Rightarrow> bool" where
  "org_gives a actor ob want \<longleftrightarrow> ac_UserID actor \<noteq> [] \<and> orgResolverMemo a ob \<noteq> [] \<and>
     (\<exists>orgs ms role. az_orgs a = Some orgs \<and> orgs (ac_UserID actor) = Inr ms \<and>
        map_of ms (orgResolverMemo a ob) = Some role \<and>
        Satisfies (if role = OrgRoleAdmin \<and> roleAllows (ac_Role actor) RoleOperator then AccessManage else AccessUse) want)"

lemma orgAccess_decides:
  assumes "subjectsFor a actor = Inr S"
  shows "\<exists>have_a member. orgAccess a actor ob = Inr (have_a, member) \<and>
    (member \<and> Satisfies have_a want \<longleftrightarrow> org_gives a actor ob want)"
proof (cases "ac_UserID actor = [] \<or> az_orgs a = None \<or> orgResolverMemo a ob = []")
  case True
  then show ?thesis
    by (auto simp: orgAccess_def org_gives_def orgResolverMemo_def split: option.splits)
next
  case False
  then obtain orgs owner i where o: "az_orgs a = Some orgs" "az_orgOwners a = Some owner" "owner ob = Some i" "i \<noteq> []"
    "ac_UserID actor \<noteq> []" "orgResolverMemo a ob = i"
    by (auto simp: orgResolverMemo_def split: option.splits)
  obtain ms where ms: "orgs (ac_UserID actor) = Inr ms"
    using assms o by (auto simp: subjectsFor_def split: option.splits sum.splits)
  show ?thesis using o ms
    by (auto simp: orgAccess_def org_gives_def org_access_in_map_of split: option.splits)
qed

lemma authorize_decides:
  assumes "az_grants a = Some gd" and "ac_Role actor \<noteq> RoleAdmin" and "gd_ForObject gd ob = Inr gs"
    and "subjectsFor a actor = Inr S"
  shows "authorize a (Some actor) ob want =
    (if grantRule (grants_give S want gs \<or> org_gives a actor ob want) (gs \<noteq> []) (az_strict a)
     then None else Some ErrForbiddenGrant)"
proof -
  obtain h m where m: "orgAccess a actor ob = Inr (h, m)" "m \<and> Satisfies h want \<longleftrightarrow> org_gives a actor ob want"
    using orgAccess_decides [OF assms(4)] by blast
  show ?thesis
    using assms m(1) by (simp add: authorize_def m(2) [symmetric] grants_give_def)
qed


section \<open>Listings and fetches\<close>

text \<open>The ids of accounts and teams are not ids of organizations.\<close>

definition ids_apart :: "authorizer \<Rightarrow> actor \<Rightarrow> bool" where
  "ids_apart a actor \<longleftrightarrow> (\<forall>i. i = ac_UserID actor \<or>
       (\<exists>teams ts. az_teams a = Some teams \<and> teams (ac_UserID actor) = Inr ts \<and> i \<in> set ts) \<longrightarrow> \<not> HasPrefix i ''org_'') \<and>
     (\<forall>ob. orgResolverMemo a ob \<noteq> [] \<longrightarrow> HasPrefix (orgResolverMemo a ob) ''org_'')"

lemma owner_in_subjects:
  assumes "subjectsFor a actor = Inr S" and "ids_apart a actor"
  shows "orgResolverMemo a ob \<noteq> [] \<and> orgResolverMemo a ob \<in> S \<longleftrightarrow> org_gives a actor ob AccessUse"
proof -
  let ?i = "orgResolverMemo a ob"
  have sat: "Satisfies (if b then AccessManage else AccessUse) AccessUse" for b
    by (simp add: Satisfies_def access_rank_def access_defs)
  have apart: "?i \<noteq> ac_UserID actor \<and> (\<forall>teams ts. az_teams a = Some teams \<longrightarrow> teams (ac_UserID actor) = Inr ts \<longrightarrow> ?i \<notin> set ts)"
    if "?i \<noteq> []"
    using assms(2) that unfolding ids_apart_def by blast
  have member: "?i \<in> fst ` set ms \<longleftrightarrow> (\<exists>role. map_of ms ?i = Some role)" for ms :: "(string \<times> string) list"
    by (metis map_of_eq_None_iff not_Some_eq)
  show ?thesis
  proof (cases "?i = [] \<or> ac_UserID actor = []")
    case True
    then show ?thesis using assms(1) by (auto simp: org_gives_def subjectsFor_def)
  next
    case False
    obtain ts ms where t: "(case az_teams a of None \<Rightarrow> Inr [] | Some f \<Rightarrow> f (ac_UserID actor)) = Inr ts"
      and m: "(case az_orgs a of None \<Rightarrow> Inr [] | Some f \<Rightarrow> f (ac_UserID actor)) = Inr ms"
      and S: "S = insert (ac_UserID actor) (set ts \<union> fst ` set ms)"
      using assms(1) False by (auto simp: subjectsFor_def split: sum.splits)
    have "?i \<notin> set ts" using apart t False by (auto split: option.splits)
    then have "?i \<in> S \<longleftrightarrow> (\<exists>role. map_of ms ?i = Some role)" using apart False by (simp add: S member)
    also have "\<dots> \<longleftrightarrow> org_gives a actor ob AccessUse"
      using m False sat by (auto simp: org_gives_def split: option.splits)
    finally show ?thesis using False by simp
  qed
qed

context grant_reading
begin

lemma allows_authorize:
  assumes "az_grants a = Some \<lparr>gd_ForObject = forObject, gd_List = listing\<rparr>" and "ac_Role actor \<noteq> RoleAdmin"
    and "visibilityFor a (Some actor) AccessUse True scope = Inr vis" and "ids_apart a actor"
    and "ob \<noteq> []" and "scope ob"
  shows "allows vis ob (orgResolverMemo a ob) \<longleftrightarrow> authorize a (Some actor) ob AccessUse = None"
proof -
  obtain S gs where S: "subjectsFor a actor = Inr S" and gs: "listing = Inr gs"
    and vis: "vis = \<lparr>vi_subjects = S, vi_held = fst (objectsFor a S AccessUse scope gs),
      vi_controlled = snd (objectsFor a S AccessUse scope gs), vi_strict = az_strict a, vi_all = False\<rparr>"
    using assms(1-3) by (auto simp: visibilityFor_def split: sum.splits prod.splits)
  obtain fs where fs: "forObject ob = Inr fs" using agree [OF gs] by blast
  note red = reduction_answers [where scope = scope and a = a and subjects = S and want = AccessUse, OF gs fs assms(5,6)]
  show ?thesis
    using authorize_decides [OF assms(1,2) _ S, of ob fs AccessUse] fs
    by (simp add: vis allows_def red owner_in_subjects [OF S assms(4)])
qed

end

lemma authorizeAll_iff: "authorizeAll a act want obs = None \<longleftrightarrow> (\<forall>ob\<in>set obs. ob = [] \<or> authorize a act ob want = None)"
  by (induction obs) (auto split: option.splits)

text \<open>The stored objects of a run, as validation leaves them: none is blank and each is of a kind a run
  may name.\<close>

definition run_objects_ok :: "run \<Rightarrow> bool" where
  "run_objects_ok r \<longleftrightarrow> (\<forall>ob\<in>set (runObjects r). ScopesARun ob)"

lemma scoped_nonempty: "ScopesARun ob \<Longrightarrow> ob \<noteq> []"
  by (auto simp: ScopesARun_def hasAnyPrefix_def HasPrefix_def)

lemma unrestricted_allows:
  assumes "\<not> restricted vis" and "\<not> vi_all vis" and "vi_held vis \<subseteq> vi_controlled vis" and "finite (vi_controlled vis)"
  shows "allows vis ob orgID"
proof -
  have "vi_controlled vis = vi_held vis"
    using assms card_seteq [of "vi_controlled vis" "vi_held vis"] by (auto simp: restricted_def)
  then show ?thesis using assms(1,2) by (auto simp: allows_def restricted_def grantRule_def)
qed

lemma runReadable_authorizes:
  assumes "az_grants a = Some (mem_reader ord gst)" and "ac_Role actor \<noteq> RoleAdmin"
    and "visibilityFor a (Some actor) AccessUse True runScopedObjects = Inr vis" and "ids_apart a actor"
    and "run_objects_ok r"
  shows "runReadable (AuthOf r) (allows vis) (orgResolverMemo a) \<longleftrightarrow> authorizeRun a (Some actor) AccessUse r = None"
proof (cases "runObjects r = []")
  case True
  obtain S where S: "subjectsFor a actor = Inr S"
    and v: "vis = \<lparr>vi_subjects = S, vi_held = fst (objectsFor a S AccessUse runScopedObjects (ListGrants ord gst)),
      vi_controlled = snd (objectsFor a S AccessUse runScopedObjects (ListGrants ord gst)),
      vi_strict = az_strict a, vi_all = False\<rparr>"
    using assms(1-3) by (auto simp: visibilityFor_def split: sum.splits prod.splits)
  have vis: "vi_subjects vis = S" "vi_strict vis = az_strict a" "\<not> vi_all vis" "[] \<notin> vi_held vis" "[] \<notin> vi_controlled vis"
    by (auto simp: v objectsFor_spec)
  have "ra_OrgID (AuthOf r) = OrgID r" by (simp add: AuthOf_def)
  then show ?thesis
    using True S vis assms(1,2)
    by (simp add: runReadable_def runObjects_def authorizeRun_def authorizeOwningOrg_def allows_def grantRule_def)
next
  case False
  have "allows vis ob (orgResolverMemo a ob) \<longleftrightarrow> authorize a (Some actor) ob AccessUse = None"
    if "ob \<in> set (runObjects r)" for ob
    using mem_grants.allows_authorize [of a ord gst, OF _ assms(2,3,4)] assms(1,5) that scoped_nonempty
    by (auto simp: run_objects_ok_def runScopedObjects_def mem_reader_def)
  then show ?thesis
    using False scoped_nonempty assms(5)
    by (auto simp: runReadable_def runObjects_def authorizeRun_def authorizeAll_iff list_all_iff run_objects_ok_def)
qed

lemma visible_to_all:
  assumes "ac_Role actor = RoleAdmin"
  shows "authorizeRun a (Some actor) want r = None"
proof -
  have "authorize a (Some actor) ob want = None" for ob
    using assms by (auto simp: authorize_def split: option.splits)
  then show ?thesis
    using assms by (auto simp: authorizeRun_def authorizeAll_iff authorizeOwningOrg_def split: option.splits)
qed

lemma readable_filter:
  assumes "az_grants a = Some (mem_reader ord gst)" and "ids_apart a actor"
    and "visibilityFor a (Some actor) AccessUse True runScopedObjects = Inr vis" and "run_objects_ok r"
  shows "(\<not> restricted vis \<or> runReadable (AuthOf r) (allows vis) (orgResolverMemo a)) \<longleftrightarrow>
    authorizeRun a (Some actor) AccessUse r = None"
proof (cases "ac_Role actor = RoleAdmin")
  case True
  then have "\<not> restricted vis" using assms(1,3) by (auto simp: visibilityFor_def restricted_def all_visible_def)
  then show ?thesis using visible_to_all [OF True] by simp
next
  case False
  note readable = runReadable_authorizes [OF assms(1) False assms(3,2,4)]
  have "\<not> vi_all vis" "vi_held vis \<subseteq> vi_controlled vis" "finite (vi_controlled vis)"
    using assms(1,3) False by (auto simp: visibilityFor_def objectsFor_spec split: sum.splits)
  then have "runReadable (AuthOf r) (allows vis) (orgResolverMemo a)" if "\<not> restricted vis"
    using unrestricted_allows [OF that] by (simp add: runReadable_def list_all_iff)
  then show ?thesis using readable by blast
qed


text \<open>A row derived from a run is shown to exactly those who may read the run, and still is when the
  run itself has been purged: the decision is kept apart from the run, and retention changes no answer.\<close>

theorem derived_rows_follow_their_run:
  assumes "reachable st" and "ms_runs st i = Some r" and "run_objects_ok r"
    and "az_grants a = Some (mem_reader ord gst)" and "ids_apart a actor"
    and "derivedReadFilterIn a (Some actor) (snd (PurgeRunsBefore rord cutoff st)) page scan = Inr (keep, any_r)"
  shows "keep i \<longleftrightarrow> authorizeRun a (Some actor) AccessUse r = None"
proof -
  have auth: "RunAuthFor i (snd (PurgeRunsBefore rord cutoff st)) = Inr (AuthOf r)"
    using PurgeRunsBefore_purging [OF reachable_ok [OF assms(1)], of cutoff rord] assms(2)
    by (simp add: purging_def RunAuthFor_def)
  obtain vis where v: "visibilityFor a (Some actor) AccessUse True runScopedObjects = Inr vis"
    and k: "keep i \<longleftrightarrow> \<not> restricted vis \<or> runReadable (AuthOf r) (allows vis) (orgResolverMemo a)"
    using assms(6) auth by (cases "visibilityFor a (Some actor) AccessUse True runScopedObjects")
      (auto simp: derivedReadFilterIn_def filterInEveryMode_def split: if_splits sum.splits)
  show ?thesis unfolding k by (rule readable_filter [OF assms(4,5) v assms(3)])
qed

section \<open>Submitters, probes and queues\<close>

lemma smallest_org: "fold (\<lambda>m cur. if cur = [] \<or> fst m < cur then fst m else cur) ms cur \<in> insert cur (fst ` set ms)"
  for ms :: "(string \<times> string) list"
proof (induction ms arbitrary: cur)
  case (Cons m ms)
  then show ?case using Cons.IH [of "fst m"] Cons.IH [of cur] by auto
qed simp

text \<open>A submitter may read what it submits: a run that names no stored object is stamped with an organization
  of its submitter, who may then read it in either mode, as may everyone else of that organization.\<close>

lemma submitter_reads_its_run:
  assumes "submitterOrg a actor = Inr orgID" and "orgID \<noteq> []" and "subjectsFor a actor = Inr S"
    and "runObjects r = []" and "OrgID r = orgID"
  shows "authorizeRun a (Some actor) AccessUse r = None"
proof -
  obtain orgs ms where o: "az_orgs a = Some orgs" "ac_UserID actor \<noteq> []" "orgs (ac_UserID actor) = Inr ms"
    "orgID = fold (\<lambda>m cur. if cur = [] \<or> fst m < cur then fst m else cur) ms []"
    using assms(1,2) by (auto simp: submitterOrg_def map_sum_def split: option.splits if_splits sum.splits)
  have "orgID \<in> fst ` set ms" using smallest_org [of ms "[]"] assms(2) by (auto simp: o(4))
  then have "orgID \<in> S" using assms(3) o(1-3) by (auto simp: subjectsFor_def split: option.splits sum.splits)
  then show ?thesis
    using assms by (auto simp: authorizeRun_def authorizeOwningOrg_def split: option.splits)
qed

text \<open>The probe of a short head before the whole window answers as the whole window does.\<close>

lemma probe_is_the_full_scan:
  assumes "\<And>l. page l = Inr (take l newest)"
  shows "probeAnyReadable page keep orgOf scan =
    Inr (list_ex (\<lambda>r. runReadable (AuthOf r) keep orgOf) (take scan newest))"
proof -
  let ?ok = "\<lambda>r. runReadable (AuthOf r) keep orgOf" and ?h = "min derivedReadProbeHead scan"
  have head: "list_ex ?ok (take scan newest)" if "list_ex ?ok (take ?h newest)"
    using that set_take_subset_set_take [of ?h scan newest] by (auto simp: list_ex_iff)
  have short: "take ?h newest = take scan newest" if "length (take ?h newest) < ?h"
  proof -
    have "length newest < ?h" using that by (cases "length newest \<le> ?h") auto
    then show ?thesis by simp
  qed
  show ?thesis
    using head short by (auto simp: probeAnyReadable_def assms)
qed

text \<open>A launch is authorized for the trimmed name of its queue, the run keeps the name as it came, and a
  retry is authorized for that: where the two differ so do the grants they ask for.\<close>

lemma retry_asks_for_another_queue:
  "queueObject '' prod'' = ''queue:prod'' \<and> QueueObject '' prod'' = ''queue: prod''"
  by code_simp

section \<open>Witnesses\<close>

definition tenant_authz :: authorizer where
  "tenant_authz = \<lparr>az_grants = Some (mem_reader [''g1''] [''g1'' \<mapsto>
       \<lparr>gr_ID = ''g1'', gr_Subject = ''user_cat'', gr_Object = ''proj_1'', gr_Access = ''read'', gr_CreatedAt = 1\<rparr>]),
     az_teams = None,
     az_orgs = Some (\<lambda>u. Inr (if u = ''user_ann'' then [(''org_a'', ''member'')] else [(''org_b'', ''admin'')])),
     az_orgOwners = Some (\<lambda>ob. if ob = ''proj_1'' then Some ''org_a'' else None),
     az_templateOwners = None, az_strict = True\<rparr>"

definition operator_named :: "string \<Rightarrow> actor" where
  "operator_named u = \<lparr>ac_UserID = u, ac_Role = RoleOperator, ac_Name = u, ac_Agent = False, ac_Type = ''session'', ac_TokenID = []\<rparr>"

lemma tenant_authz_grants [simp]:
  "az_grants tenant_authz = Some (mem_reader [''g1''] [''g1'' \<mapsto>
       \<lparr>gr_ID = ''g1'', gr_Subject = ''user_cat'', gr_Object = ''proj_1'', gr_Access = ''read'', gr_CreatedAt = 1\<rparr>])"
  by (simp add: tenant_authz_def)

lemma tenant_ids_apart: "u \<in> {''user_ann'', ''user_bob''} \<Longrightarrow> ids_apart tenant_authz (operator_named u)"
  by (auto simp: ids_apart_def operator_named_def tenant_authz_def HasPrefix_def orgResolverMemo_def)


definition project_run :: run where "project_run = zero_run\<lparr>ID := ''r1'', ProjectID := ''proj_1''\<rparr>"



theorem derived_rows_follow_their_run_witness:
  "\<exists>keep any_r. derivedReadFilterIn tenant_authz (Some (operator_named ''user_bob''))
      (snd (PurgeRunsBefore [''r1''] 100 (store_with project_run))) (\<lambda>_. Inr []) 5 = Inr (keep, any_r) \<and>
    (keep ''r1'' \<longleftrightarrow> authorizeRun tenant_authz (Some (operator_named ''user_bob'')) AccessUse
      (save_row None (Sanitize project_run)) = None)"
proof -
  have r: "ms_runs (store_with project_run) ''r1'' = Some (save_row None (Sanitize project_run))"
    by (simp add: runs_store_with project_run_def)
  have "runObjects (save_row None (Sanitize project_run)) = [''proj_1'']" by code_simp
  then have ok: "run_objects_ok (save_row None (Sanitize project_run))"
    by (simp add: run_objects_ok_def ScopesARun_def hasAnyPrefix_def HasPrefix_def)
  obtain vis where v: "visibilityFor tenant_authz (Some (operator_named ''user_bob'')) AccessUse True runScopedObjects = Inr vis"
    by (cases "objectsFor tenant_authz {''user_bob'', ''org_b''} AccessUse runScopedObjects (ListGrants [''g1''] [''g1'' \<mapsto>
       \<lparr>gr_ID = ''g1'', gr_Subject = ''user_cat'', gr_Object = ''proj_1'', gr_Access = ''read'', gr_CreatedAt = 1\<rparr>])")
      (simp add: visibilityFor_def subjectsFor_def operator_named_def tenant_authz_def role_defs)
  have probe: "probeAnyReadable (\<lambda>_. Inr []) p q 5 = Inr False" for p q
    by (simp add: probeAnyReadable_def derivedReadProbeHead_def)
  obtain keep any_r where k: "derivedReadFilterIn tenant_authz (Some (operator_named ''user_bob''))
      (snd (PurgeRunsBefore [''r1''] 100 (store_with project_run))) (\<lambda>_. Inr []) 5 = Inr (keep, any_r)"
    by (cases "restricted vis") (auto simp: derivedReadFilterIn_def filterInEveryMode_def v probe)
  from derived_rows_follow_their_run [OF reachable_store_with r ok tenant_authz_grants tenant_ids_apart k] k
  show ?thesis by auto
qed

end
