(* ===== verification/Auth_Gate.thy ===== *)
theory Auth_Gate
  imports Authorize Policy
begin

text \<open>
  The gate every request passes (\<open>internal/server/authmw.go\<close>): whether it needs authentication, who is
  asking, which role the request takes, what delegation adds, and the entry recorded before a change
  is served. What the gate asks of the world is a record; the handler behind it is the outcome \<open>Served\<close>
  with the actor the request then carries. \<open>lower\<close> is the lowering of a text.
\<close>

record request =
  rq_Method :: string
  rq_Path :: string
  rq_Host :: string
  rq_Authorization :: string
  rq_SecFetchSite :: string
  rq_Origin :: string
  rq_Ticket :: string

definition unversioned :: "request \<Rightarrow> string" where
  "unversioned r = TrimPrefix (rq_Path r) ''/v1''"

section \<open>Paths\<close>

text \<open>\<open>path.Clean\<close>: empty and \<open>.\<close> segments go, \<open>..\<close> takes the segment before it.\<close>

fun clean_segments :: "bool \<Rightarrow> string list \<Rightarrow> string list \<Rightarrow> string list" where
  "clean_segments rooted acc [] = rev acc"
| "clean_segments rooted acc (s # ss) =
     (if s = [] \<or> s = ''.'' then clean_segments rooted acc ss
      else if s = ''..'' then
        (case acc of
           t # ts \<Rightarrow> if t \<noteq> ''..'' then clean_segments rooted ts ss else clean_segments rooted (s # acc) ss
         | [] \<Rightarrow> if rooted then clean_segments rooted [] ss else clean_segments rooted [s] ss)
      else clean_segments rooted (s # acc) ss)"

definition Clean :: "string \<Rightarrow> string" where
  "Clean p =
     (let rooted = HasPrefix p ''/'';
          body = JoinStrings (clean_segments rooted [] (Split p (CHR ''/''))) ''/''
      in if rooted then ''/'' @ body else if body = [] then ''.'' else body)"

definition hookPath :: "(string \<Rightarrow> string) \<Rightarrow> string \<Rightarrow> bool" where
  "hookPath lower p \<longleftrightarrow>
     (let l = TrimPrefix (lower p) ''/v1'';
          segments = filter (\<lambda>s. s \<noteq> []) (Split l (CHR ''/''))
      in HasPrefix (Clean (''/'' @ l)) ''/hooks/'' \<or> length segments > 1 \<and> hd segments = ''hooks'')"

definition isHook :: "(string \<Rightarrow> string) \<Rightarrow> request \<Rightarrow> bool" where
  "isHook lower r \<longleftrightarrow> hookPath lower (rq_Path r) \<and> rq_Method r = ''POST''"

definition maxAWXIDDigits :: nat where "maxAWXIDDigits = 18"
definition awxCallbackPrefix :: string where "awxCallbackPrefix = ''/api/v2/job_templates/''"

definition parseAWXID :: "string \<Rightarrow> nat option" where
  "parseAWXID s =
     (if s = [] \<or> length s > maxAWXIDDigits \<or> \<not> list_all is_digit s then None
      else if digits_value s \<ge> 2 ^ 63 \<or> digits_value s = 0 then None else Some (digits_value s))"

definition isAWXCallbackPath :: "string \<Rightarrow> bool" where
  "isAWXCallbackPath p =
     (case CutPrefix p awxCallbackPrefix of
        None \<Rightarrow> False
      | Some rest \<Rightarrow>
          (case Cut (TrimSuffix rest ''/'') ''/'' of
             None \<Rightarrow> False
           | Some (i, tail) \<Rightarrow> tail = ''callback'' \<and> parseAWXID i \<noteq> None))"

definition isCallback :: "request \<Rightarrow> bool" where
  "isCallback r =
     (if rq_Method r \<noteq> ''POST'' then False
      else if isAWXCallbackPath (rq_Path r) then True
      else if Clean (rq_Path r) \<noteq> rq_Path r \<or> \<not> HasPrefix (rq_Path r) ''/v1/templates/'' then False
      else (case Split (TrimPrefix (rq_Path r) ''/v1/templates/'') (CHR ''/'') of
        [i, c] \<Rightarrow> c = ''callback'' \<and> i \<noteq> [] \<and> i \<noteq> ''.'' \<and> i \<noteq> ''..''
      | _ \<Rightarrow> False))"

definition isSignIn :: "request \<Rightarrow> bool" where
  "isSignIn r \<longleftrightarrow> (let p = unversioned r in
     p = ''/auth/login'' \<or> p = ''/auth/logout'' \<or> HasPrefix p ''/auth/oidc/'' \<or> HasPrefix p ''/auth/saml/'')"

definition auditPath :: "(string \<Rightarrow> string) \<Rightarrow> request \<Rightarrow> string" where
  "auditPath lower r = (if hookPath lower (rq_Path r) then ''/hooks/[redacted]'' else Clean (''/'' @ rq_Path r))"

definition isStream :: "request \<Rightarrow> bool" where
  "isStream r \<longleftrightarrow> rq_Method r = ''GET'' \<and> HasSuffix (unversioned r) ''/stream'' \<and> HasPrefix (unversioned r) ''/runs/''"

definition streamRunID :: "request \<Rightarrow> string" where
  "streamRunID r = TrimPrefix (TrimSuffix (unversioned r) ''/stream'') ''/runs/''"

section \<open>Other sites\<close>

definition isWrite :: "request \<Rightarrow> bool" where
  "isWrite r \<longleftrightarrow> rq_Method r \<notin> {''GET'', ''HEAD'', ''OPTIONS''}"

text \<open>\<open>url_host\<close> is the host \<open>url.Parse\<close> reads in an origin.\<close>

definition crossSiteWrite :: "(string \<Rightarrow> string option) \<Rightarrow> request \<Rightarrow> bool" where
  "crossSiteWrite url_host r =
     (if \<not> isWrite r then False
      else if HasSuffix (unversioned r) ''/auth/saml/acs'' then False
      else if rq_SecFetchSite r = ''cross-site'' \<or> rq_SecFetchSite r = ''same-site'' then True
      else if rq_SecFetchSite r = ''same-origin'' \<or> rq_SecFetchSite r = ''none'' then False
      else if rq_Origin r = [] then False
      else if rq_Origin r = ''null'' then True
      else url_host (rq_Origin r) \<noteq> Some (rq_Host r))"

text \<open>\<open>bare\<close> is the host without its port and \<open>loopback\<close> whether \<open>net\<close> reads an address as one.\<close>

definition reboundRequest :: "(string \<Rightarrow> string) \<Rightarrow> (string \<Rightarrow> string) \<Rightarrow> (string \<Rightarrow> bool) \<Rightarrow> nat \<Rightarrow> request \<Rightarrow> bool" where
  "reboundRequest lower bare loopback trustedProxies r =
     (if rq_SecFetchSite r = [] then False
      else if trustedProxies > 0 then False
      else
        let cutset = (\<lambda>c. c = CHR ''['' \<or> c = CHR '']'');
            host = rev (dropWhile cutset (rev (dropWhile cutset (lower (bare (rq_Host r))))))
        in if host = ''localhost'' \<or> HasSuffix host ''.localhost'' then False else \<not> loopback host)"

section \<open>Roles\<close>

definition under :: "string \<Rightarrow> string \<Rightarrow> bool" where
  "under p root \<longleftrightarrow> p = root \<or> HasPrefix p (root @ ''/'')"

definition is_read :: "request \<Rightarrow> bool" where
  "is_read r \<longleftrightarrow> rq_Method r = ''GET'' \<or> rq_Method r = ''HEAD''"

definition read_role :: "string \<Rightarrow> string" where
  "read_role p =
     (if HasPrefix p ''/inventories/'' \<and> (HasSuffix p ''/facts'' \<or> Contains p ''/facts/'') then RoleOperator
      else if under p ''/schedules'' \<or> under p ''/triggers'' \<or> under p ''/inventory-sources'' \<or>
        under p ''/credentials'' \<or> under p ''/notifications'' then RoleOperator
      else RoleViewer)"

definition write_role :: "string \<Rightarrow> string" where
  "write_role p =
     (if p = ''/auth/check'' \<or> p = ''/auth/logout'' then RoleViewer
      else if under p ''/me/forge-links'' then RoleViewer
      else if p = ''/runs'' \<or> p = ''/pipelines'' then RoleOperator
      else if HasPrefix p ''/runs/'' \<and> HasSuffix p ''/explain'' then RoleViewer
      else if p = ''/ai/draft'' then RoleOperator
      else if p = ''/drift/reconcile'' then RoleOperator
      else if p = ''/ai/ask'' then RoleViewer
      else if p = ''/ai/propose-run'' then RoleOperator
      else if HasPrefix p ''/runs/'' \<and> HasSuffix p ''/stream-ticket'' then RoleViewer
      else if HasPrefix p ''/runs/'' \<and> (HasSuffix p ''/cancel'' \<or> HasSuffix p ''/retry'' \<or> HasSuffix p ''/rerun'' \<or>
        HasSuffix p ''/relaunch-failed'') then RoleOperator
      else if HasPrefix p ''/templates/'' \<and> HasSuffix p ''/launch'' then RoleOperator
      else if HasPrefix p ''/inventories/'' \<and> HasSuffix p ''/preview'' then RoleOperator
      else if HasPrefix p ''/notifications/'' \<and> Contains p ''/attachments'' then RoleOperator
      else RoleAdmin)"

definition requiredRole :: "request \<Rightarrow> string" where
  "requiredRole r =
     (let p = unversioned r in
      if under p ''/audit'' then RoleAdmin
      else if HasPrefix p ''/runs/'' \<and> (HasSuffix p ''/evidence'' \<or> HasSuffix p ''/receipt'' \<or>
        HasSuffix p ''/decisions'' \<and> rq_Method r = ''GET'') then RoleOperator
      else if HasPrefix p ''/runs/'' \<and> HasSuffix p ''/notifications'' then RoleOperator
      else if under p ''/users'' \<or> under p ''/tokens'' then RoleAdmin
      else if under p ''/grants'' \<or> under p ''/policies'' then RoleAdmin
      else if under p ''/orgs'' \<or> under p ''/teams'' \<or> under p ''/credential-types'' \<or> p = ''/doctor'' then RoleAdmin
      else if is_read r then read_role p
      else write_role p)"

definition delegatedObjectKinds :: "string list" where
  "delegatedObjectKinds = [''projects'', ''templates'', ''inventories'', ''credentials'', ''notifications'']"

definition trim_slashes :: "string \<Rightarrow> string" where
  "trim_slashes s = rev (dropWhile (\<lambda>c. c = CHR ''/'') (rev (dropWhile (\<lambda>c. c = CHR ''/'') s)))"

definition delegatedObject :: "request \<Rightarrow> string" where
  "delegatedObject r =
     (if rq_Method r \<noteq> ''PUT'' \<and> rq_Method r \<noteq> ''DELETE'' then []
      else (case Split (trim_slashes (unversioned r)) (CHR ''/'') of
        [kind, i] \<Rightarrow> if kind \<in> set delegatedObjectKinds then i else []
      | _ \<Rightarrow> []))"

section \<open>Enforcement\<close>

text \<open>What \<open>configured\<close> reads: an install told to authenticate, the count of tokens and the accounts, where
  a store that does not answer counts as configured.\<close>

definition configured :: "bool \<Rightarrow> string + nat \<Rightarrow> (string + user list) option \<Rightarrow> bool" where
  "configured alwaysEnforce tokens users =
     (if alwaysEnforce then True
      else case tokens of
        Inl _ \<Rightarrow> True
      | Inr n \<Rightarrow>
          if n > 0 then True
          else (case users of
            None \<Rightarrow> False
          | Some (Inl _) \<Rightarrow> True
          | Some (Inr us) \<Rightarrow> us \<noteq> []))"

definition enforcementCacheTTL :: int where "enforcementCacheTTL = 5 * 1000000000"

record enforcement =
  en_enforced :: bool
  en_latched :: bool
  en_checkedAt :: gotime

definition NewEnforcement :: enforcement where
  "NewEnforcement = \<lparr>en_enforced = False, en_latched = False, en_checkedAt = 0\<rparr>"

text \<open>\<open>since\<close> is the clock where the cache's age is read and \<open>stamp\<close> where it is renewed.\<close>

definition enforcing :: "gotime \<Rightarrow> gotime \<Rightarrow> bool \<Rightarrow> enforcement \<Rightarrow> bool \<times> enforcement" where
  "enforcing since stamp conf g =
     (if en_enforced g \<and> en_latched g then (True, g)
      else if since - en_checkedAt g < enforcementCacheTTL then (en_enforced g, g)
      else (conf, g\<lparr>en_enforced := conf, en_latched := (if conf then True else en_latched g), en_checkedAt := stamp\<rparr>))"

section \<open>The gate\<close>

record recorded_actor =
  rc_Name :: string
  rc_Type :: string
  rc_OnBehalfOf :: string

record gate_env =
  ge_lower :: "string \<Rightarrow> string"
  ge_sha :: "string \<Rightarrow> string"
  ge_urlHost :: "string \<Rightarrow> string option"
  ge_bareHost :: "string \<Rightarrow> string"
  ge_loopback :: "string \<Rightarrow> bool"
  ge_trustedProxies :: nat
  ge_publicReads :: bool
  ge_asked :: "nat \<Rightarrow> gotime \<times> gotime \<times> bool"
  ge_now :: gotime
  ge_token :: "string \<Rightarrow> token option"
  ge_users :: "(string \<Rightarrow> user_error + user) option"
  ge_jwt :: "(string \<Rightarrow> (user \<times> bool) option) option"
  ge_redeem :: "string \<Rightarrow> string \<Rightarrow> actor option"
  ge_audits :: bool
  ge_record :: "recorded_actor \<Rightarrow> request \<Rightarrow> string \<Rightarrow> nat option"
  ge_authz :: authorizer

datatype gate_outcome = Refused nat | Served "actor option"

definition actorTypeSession :: string where "actorTypeSession = ''session''"
definition actorTypeToken :: string where "actorTypeToken = ''token''"
definition actorTypeAgent :: string where "actorTypeAgent = ''agent''"
definition actorTypeUnauthenticated :: string where "actorTypeUnauthenticated = ''unauthenticated''"

text \<open>
  The entry of a change: nothing for a read or with no trail. \<open>ge_record\<close> is the digest of the body, the
  reading of what a delete takes with it and the append, in one answer: \<^const>\<open>None\<close> is an entry written
  for the path given, and a number is the code the change was refused with.
\<close>

definition record_entry :: "gate_env \<Rightarrow> request \<Rightarrow> recorded_actor \<Rightarrow> nat option \<times> recorded_actor list" where
  "record_entry env r who =
     (if \<not> ge_audits env \<or> rq_Method r = ''GET'' \<or> rq_Method r = ''HEAD'' then (None, [])
      else case ge_record env who r (auditPath (ge_lower env) r) of
        None \<Rightarrow> (None, [who])
      | Some code \<Rightarrow> (Some code, []))"

definition roleFor :: "gate_env \<Rightarrow> token \<Rightarrow> (string \<times> string) option" where
  "roleFor env tok =
     (if tk_UserID tok = [] then Some (RoleAdmin, [])
      else case ge_users env of
        None \<Rightarrow> None
      | Some get \<Rightarrow> (case get (tk_UserID tok) of Inl _ \<Rightarrow> None | Inr u \<Rightarrow> Some (us_Role u, us_Username u)))"

definition allowed :: "gate_env \<Rightarrow> actor \<Rightarrow> request \<Rightarrow> string + bool" where
  "allowed env actor r =
     (if roleAllows (ac_Role actor) (requiredRole r) then Inr True
      else if ac_Agent actor then Inr False
      else if delegatedObject r = [] then Inr False
      else manages (ge_authz env) actor (delegatedObject r))"

text \<open>The decision: \<open>None\<close> lets the request on; a refusal is recorded before it is answered.\<close>

definition decide :: "gate_env \<Rightarrow> request \<Rightarrow> actor \<Rightarrow> recorded_actor \<Rightarrow> nat option \<times> recorded_actor list" where
  "decide env r actor who =
     (case allowed env actor r of
        Inl _ \<Rightarrow> (Some 500, [])
      | Inr True \<Rightarrow> (None, [])
      | Inr False \<Rightarrow>
          (case record_entry env r who of
             (Some code, recs) \<Rightarrow> (Some code, recs)
           | (None, recs) \<Rightarrow> (Some 403, recs)))"

text \<open>An authenticated caller: decided, recorded, served.\<close>

definition admit :: "gate_env \<Rightarrow> request \<Rightarrow> actor \<Rightarrow> recorded_actor \<Rightarrow> gate_outcome \<times> recorded_actor list" where
  "admit env r actor who =
     (case decide env r actor who of
        (Some code, recs) \<Rightarrow> (Refused code, recs)
      | (None, _) \<Rightarrow>
          (case record_entry env r who of
             (Some code, recs) \<Rightarrow> (Refused code, recs)
           | (None, recs) \<Rightarrow> (Served (Some actor), recs)))"

definition looksLikeJWT :: "string \<Rightarrow> bool" where
  "looksLikeJWT s \<longleftrightarrow> count_list s (CHR ''.'') = 2"

definition token_actor :: "token \<Rightarrow> string \<Rightarrow> actor" where
  "token_actor tok role =
     \<lparr>ac_UserID = tk_UserID tok, ac_Role = (if IsAgent tok then AgentRole role else role), ac_Name = tk_Name tok,
      ac_Agent = IsAgent tok,
      ac_Type = (if IsAgent tok then actorTypeAgent else if IsSession tok then actorTypeSession else actorTypeToken),
      ac_TokenID = tk_ID tok\<rparr>"

definition jwt_actor :: "user \<Rightarrow> bool \<Rightarrow> actor" where
  "jwt_actor u agent =
     \<lparr>ac_UserID = us_ID u, ac_Role = (if agent then AgentRole (us_Role u) else us_Role u), ac_Name = us_Username u,
      ac_Agent = agent, ac_Type = (if agent then actorTypeAgent else actorTypeSession), ac_TokenID = []\<rparr>"

definition by_token :: "gate_env \<Rightarrow> request \<Rightarrow> string \<Rightarrow> gate_outcome \<times> recorded_actor list" where
  "by_token env r plain =
     (case ge_token env (HashToken (ge_sha env) plain) of
        None \<Rightarrow> (Refused 401, [])
      | Some tok \<Rightarrow>
          if Expired tok (ge_now env) then (Refused 401, [])
          else (case roleFor env tok of
            None \<Rightarrow> (Refused 401, [])
          | Some (role, boundUser) \<Rightarrow>
              (let actor = token_actor tok role
               in admit env r actor \<lparr>rc_Name = tk_Name tok, rc_Type = ac_Type actor, rc_OnBehalfOf = boundUser\<rparr>)))"

definition by_jwt :: "gate_env \<Rightarrow> request \<Rightarrow> (string \<Rightarrow> (user \<times> bool) option) \<Rightarrow> string \<Rightarrow> gate_outcome \<times> recorded_actor list" where
  "by_jwt env r check plain =
     (case check plain of
        None \<Rightarrow> (Refused 401, [])
      | Some (u, agent) \<Rightarrow>
          (let actor = jwt_actor u agent
           in admit env r actor \<lparr>rc_Name = us_Username u, rc_Type = ac_Type actor, rc_OnBehalfOf = []\<rparr>))"

text \<open>A stream opened by a ticket: decided, and served without an entry, since it is a read.\<close>

definition by_ticket :: "gate_env \<Rightarrow> request \<Rightarrow> gate_outcome \<times> recorded_actor list" where
  "by_ticket env r =
     (case ge_redeem env (rq_Ticket r) (streamRunID r) of
        None \<Rightarrow> (Refused 401, [])
      | Some actor \<Rightarrow>
          (case decide env r actor \<lparr>rc_Name = ac_Name actor, rc_Type = ac_Type actor, rc_OnBehalfOf = []\<rparr> of
             (Some code, recs) \<Rightarrow> (Refused code, recs)
           | (None, recs) \<Rightarrow> (Served (Some actor), recs)))"

definition unauthenticatedActor :: "(string \<Rightarrow> string) \<Rightarrow> request \<Rightarrow> string" where
  "unauthenticatedActor lower r =
     (if isHook lower r then ''webhook''
      else if HasSuffix (unversioned r) ''/auth/saml/acs'' then ''saml'' else ''unauthenticated'')"

definition protects :: "(string \<Rightarrow> string) \<Rightarrow> request \<Rightarrow> bool" where
  "protects lower r =
     (let p = unversioned r; get = is_read r in
      if get \<and> p \<in> {''/healthz'', ''/readyz''} then False
      else if get \<and> (p = ''/'' \<or> HasPrefix p ''/ui/'') then False
      else if get \<and> p = ''/.well-known/loomseal.json'' then False
      else if get \<and> p \<in> {''/.well-known/openid-configuration'', ''/.well-known/jwks.json''} then False
      else if get \<and> p = ''/audit/beats'' then False
      else if rq_Method r = ''POST'' \<and> p = ''/auth/login'' then False
      else if get \<and> HasPrefix p ''/auth/oidc/'' then False
      else if get \<and> p = ''/auth/forge/callback'' then False
      else if HasPrefix p ''/auth/saml/'' \<and> (get \<or> rq_Method r = ''POST'' \<and> p = ''/auth/saml/acs'') then False
      else if isHook lower r then False
      else \<not> isCallback r)"

text \<open>A request that needs no credential, or that arrives while the install runs open.\<close>

definition by_nobody :: "gate_env \<Rightarrow> request \<Rightarrow> gate_outcome \<times> recorded_actor list" where
  "by_nobody env r =
     (if \<not> isSignIn r \<and> \<not> isHook (ge_lower env) r \<and> \<not> isCallback r then
        (case record_entry env r \<lparr>rc_Name = unauthenticatedActor (ge_lower env) r,
               rc_Type = actorTypeUnauthenticated, rc_OnBehalfOf = []\<rparr> of
           (Some code, recs) \<Rightarrow> (Refused code, recs)
         | (None, recs) \<Rightarrow> (Served None, recs))
      else (Served None, []))"

definition by_credential :: "gate_env \<Rightarrow> request \<Rightarrow> gate_outcome \<times> recorded_actor list" where
  "by_credential env r =
     (let plain = FromHeader (ge_lower env) (rq_Authorization r) in
      if plain = [] \<and> isStream r then by_ticket env r
      else if plain = [] then (Refused 401, [])
      else (case ge_jwt env of
        Some check \<Rightarrow> if looksLikeJWT plain then by_jwt env r check plain else by_token env r plain
      | None \<Rightarrow> by_token env r plain))"

text \<open>\<open>ge_asked\<close> gives the clock and the stores as the two calls of \<open>enforcing\<close> in one request find them.\<close>

definition ask_enforcing :: "gate_env \<Rightarrow> nat \<Rightarrow> enforcement \<Rightarrow> bool \<times> enforcement" where
  "ask_enforcing env k g = (case ge_asked env k of (since, stamp, conf) \<Rightarrow> enforcing since stamp conf g)"

text \<open>Whether the install runs open, asked only where the guard holds.\<close>

definition runs_open :: "gate_env \<Rightarrow> nat \<Rightarrow> bool \<Rightarrow> bool \<Rightarrow> enforcement \<Rightarrow> bool \<times> enforcement" where
  "runs_open env k guard other g =
     (if guard then (case ask_enforcing env k g of (on, g') \<Rightarrow> (\<not> on, g')) else (other, g))"

definition gate :: "gate_env \<Rightarrow> request \<Rightarrow> enforcement \<Rightarrow> (gate_outcome \<times> recorded_actor list) \<times> enforcement" where
  "gate env r g =
     (if crossSiteWrite (ge_urlHost env) r then ((Refused 403, []), g)
      else
        (case runs_open env 0
            (reboundRequest (ge_lower env) (ge_bareHost env) (ge_loopback env) (ge_trustedProxies env) r \<and>
             (isWrite r \<or> \<not> ge_publicReads env)) False g of
           (rebound, g1) \<Rightarrow>
             if rebound then ((Refused 403, []), g1)
             else (case runs_open env 1 (protects (ge_lower env) r) True g1 of
               (opened, g2) \<Rightarrow> (if opened then by_nobody env r else by_credential env r, g2))))"

section \<open>The evidence of a run\<close>

definition sameActor :: "actor \<Rightarrow> run \<Rightarrow> bool" where
  "sameActor a rn =
     (if ac_UserID a \<noteq> [] \<and> ActorUserID rn \<noteq> [] then ac_UserID a = ActorUserID rn
      else ac_Name a \<noteq> [] \<and> ac_Name a = Actor rn)"

definition denyUnlessAdminOrActor :: "actor option \<Rightarrow> run option \<Rightarrow> bool" where
  "denyUnlessAdminOrActor caller rn =
     (case caller of
        None \<Rightarrow> False
      | Some a \<Rightarrow>
          if roleAllows (ac_Role a) RoleAdmin then False
          else (case rn of Some x \<Rightarrow> \<not> sameActor a x | None \<Rightarrow> True))"

definition actorIsAdmin :: "actor option \<Rightarrow> bool" where
  "actorIsAdmin caller = (case caller of None \<Rightarrow> True | Some a \<Rightarrow> roleAllows (ac_Role a) RoleAdmin)"

section \<open>Sequences of requests\<close>

text \<open>Requests served one after another by one process.\<close>

fun serve :: "(gate_env \<times> request) list \<Rightarrow> enforcement \<Rightarrow> (gate_outcome \<times> recorded_actor list) list" where
  "serve [] g = []"
| "serve ((env, r) # rs) g = (case gate env r g of (out, g') \<Rightarrow> out # serve rs g')"

end
