(* ===== verification/Auth_Gate_Props.thy ===== *)
theory Auth_Gate_Props
  imports Auth_Gate
begin

text \<open>
  What passes the gate: a request served to an actor was vouched for and authorized, a change that is
  served is recorded first, and an install that has authenticated once never runs open again.
\<close>

section \<open>Recording and deciding\<close>

lemma record_entry_cases:
  assumes "record_entry env r who = (None, recs)"
  shows "recs = (if ge_audits env \<and> \<not> is_read r then [who] else [])"
    and "ge_audits env \<and> \<not> is_read r \<Longrightarrow> ge_record env who r (auditPath (ge_lower env) r) = None"
  using assms by (auto simp: record_entry_def is_read_def split: if_splits option.splits)

lemma admit_served:
  assumes "admit env r actor who = (Served act, recs)"
  shows "act = Some actor \<and> allowed env actor r = Inr True \<and> record_entry env r who = (None, recs)"
  using assms
  by (auto simp: admit_def decide_def split: sum.splits bool.splits option.splits prod.splits)

lemma allowed_True:
  "allowed env actor r = Inr True \<longleftrightarrow>
     roleAllows (ac_Role actor) (requiredRole r) \<or>
     \<not> ac_Agent actor \<and> delegatedObject r \<noteq> [] \<and> manages (ge_authz env) actor (delegatedObject r) = Inr True"
  by (auto simp: allowed_def)

text \<open>Who the credential of a request speaks for.\<close>

definition vouched :: "gate_env \<Rightarrow> request \<Rightarrow> actor \<Rightarrow> recorded_actor \<Rightarrow> bool" where
  "vouched env r actor who \<longleftrightarrow>
     (let plain = FromHeader (ge_lower env) (rq_Authorization r) in
      (\<exists>tok role account. plain \<noteq> [] \<and> ge_token env (HashToken (ge_sha env) plain) = Some tok \<and>
         \<not> Expired tok (ge_now env) \<and> roleFor env tok = Some (role, account) \<and> actor = token_actor tok role \<and>
         who = \<lparr>rc_Name = tk_Name tok, rc_Type = ac_Type actor, rc_OnBehalfOf = account\<rparr>) \<or>
      (\<exists>check u agent. plain \<noteq> [] \<and> ge_jwt env = Some check \<and> looksLikeJWT plain \<and> check plain = Some (u, agent) \<and>
         actor = jwt_actor u agent \<and>
         who = \<lparr>rc_Name = us_Username u, rc_Type = ac_Type actor, rc_OnBehalfOf = []\<rparr>) \<or>
      plain = [] \<and> isStream r \<and> ge_redeem env (rq_Ticket r) (streamRunID r) = Some actor \<and>
        who = \<lparr>rc_Name = ac_Name actor, rc_Type = ac_Type actor, rc_OnBehalfOf = []\<rparr>)"

lemma is_read_stream: "isStream r \<Longrightarrow> is_read r"
  by (simp add: isStream_def is_read_def)

lemma ticket_served:
  assumes "by_ticket env r = (Served act, recs)"
  shows "\<exists>actor. act = Some actor \<and> recs = [] \<and> allowed env actor r = Inr True \<and>
    ge_redeem env (rq_Ticket r) (streamRunID r) = Some actor"
  using assms
  by (auto simp: by_ticket_def decide_def split: option.splits prod.splits sum.splits bool.splits)

lemma credential_served:
  assumes "by_credential env r = (Served act, recs)"
  shows "\<exists>actor who. act = Some actor \<and> vouched env r actor who \<and> allowed env actor r = Inr True \<and>
    recs = (if ge_audits env \<and> \<not> is_read r then [who] else []) \<and>
    (ge_audits env \<and> \<not> is_read r \<longrightarrow> ge_record env who r (auditPath (ge_lower env) r) = None)"
proof -
  let ?plain = "FromHeader (ge_lower env) (rq_Authorization r)"
  have token: ?thesis if "?plain \<noteq> []" "by_token env r ?plain = (Served act, recs)"
    using that record_entry_cases [of env r _ recs]
    by (fastforce simp: by_token_def vouched_def Let_def split: option.splits if_splits dest!: admit_served)
  have jwt: ?thesis if "?plain \<noteq> []" "ge_jwt env = Some check" "looksLikeJWT ?plain"
      "by_jwt env r check ?plain = (Served act, recs)" for check
    using that record_entry_cases [of env r _ recs]
    by (fastforce simp: by_jwt_def vouched_def Let_def split: option.splits prod.splits dest!: admit_served)
  have ticket: ?thesis if "?plain = []" "isStream r" "by_ticket env r = (Served act, recs)"
    using that ticket_served [OF that(3)] is_read_stream [OF that(2)] by (auto simp: vouched_def Let_def)
  show ?thesis
    using assms token jwt ticket by (auto simp: by_credential_def Let_def split: if_splits option.splits)
qed

lemma nobody_served:
  assumes "by_nobody env r = (Served act, recs)"
  shows "act = None"
    and "\<not> isSignIn r \<Longrightarrow> \<not> isHook (ge_lower env) r \<Longrightarrow> \<not> isCallback r \<Longrightarrow>
      record_entry env r \<lparr>rc_Name = unauthenticatedActor (ge_lower env) r,
        rc_Type = actorTypeUnauthenticated, rc_OnBehalfOf = []\<rparr> = (None, recs)"
  using assms by (auto simp: by_nobody_def split: if_splits option.splits prod.splits)

section \<open>The gate\<close>

text \<open>What every state of the process keeps: enforcement that is on is latched.\<close>

definition latch_ok :: "enforcement \<Rightarrow> bool" where
  "latch_ok g \<longleftrightarrow> (en_enforced g \<longrightarrow> en_latched g)"

lemma latch_ok_New [simp]: "latch_ok NewEnforcement"
  by (simp add: latch_ok_def NewEnforcement_def)

lemma runs_open_ok:
  assumes "runs_open env k guard other g = (b, g')" and "latch_ok g"
  shows "latch_ok g'"
    and "guard \<Longrightarrow> \<not> b \<Longrightarrow> en_enforced g'"
    and "en_enforced g \<Longrightarrow> g' = g \<and> (guard \<longrightarrow> \<not> b)"
    and "\<not> guard \<Longrightarrow> b = other"
  using assms
  by (auto simp: runs_open_def ask_enforcing_def enforcing_def latch_ok_def split: prod.splits if_splits)

lemma gate_keeps_latch:
  assumes "gate env r g = (out, g')" and "latch_ok g"
  shows "latch_ok g'" and "en_enforced g \<Longrightarrow> en_enforced g'"
  using assms
  by (auto simp: gate_def split: if_splits prod.splits dest: runs_open_ok)

lemma gate_cases:
  assumes "gate env r g = ((Served act, recs), g')" and "latch_ok g"
  obtains (nobody) "by_nobody env r = (Served act, recs)" "protects (ge_lower env) r \<Longrightarrow> \<not> en_enforced g"
  | (credential) "by_credential env r = (Served act, recs)" "protects (ge_lower env) r" "en_enforced g'"
proof -
  let ?guard = "reboundRequest (ge_lower env) (ge_bareHost env) (ge_loopback env) (ge_trustedProxies env) r \<and>
    (isWrite r \<or> \<not> ge_publicReads env)"
  obtain rb g1 where f: "runs_open env 0 ?guard False g = (rb, g1)" by (cases "runs_open env 0 ?guard False g")
  obtain op where s: "runs_open env 1 (protects (ge_lower env) r) True g1 = (op, g')"
    and out: "(if op then by_nobody env r else by_credential env r) = (Served act, recs)"
    using assms(1) f by (auto simp: gate_def split: if_splits prod.splits)
  have "latch_ok g1" "en_enforced g \<Longrightarrow> g1 = g" using runs_open_ok [OF f assms(2)] by auto
  then show thesis
    using runs_open_ok [OF s] out nobody credential by (cases op) auto
qed

section \<open>Agents\<close>

lemma roleAllows_admin [simp]: "roleAllows x RoleAdmin \<longleftrightarrow> x = RoleAdmin"
  by (auto simp: roleAllows_def role_rank_def RoleAdmin_def RoleViewer_def RoleOperator_def)

lemma prefix_clash: "HasPrefix p a \<Longrightarrow> HasPrefix p b \<Longrightarrow> take (length b) a = take (length a) b"
  by (metis HasPrefix_def min.commute take_take)

lemma suffix_clash: "HasSuffix p a \<Longrightarrow> HasSuffix p b \<Longrightarrow> take (length b) (rev a) = take (length a) (rev b)"
  by (metis HasSuffix_def length_rev prefix_clash)

lemma stream_role:
  assumes "isStream r"
  shows "requiredRole r = RoleViewer"
proof -
  let ?p = "unversioned r"
  have p: "HasPrefix ?p ''/runs/''" and s: "HasSuffix ?p ''/stream''" and m: "rq_Method r = ''GET''"
    using assms by (auto simp: isStream_def)
  have pre: "\<not> HasPrefix ?p x" if "take (length x) ''/runs/'' \<noteq> take 6 x" for x
    using that prefix_clash [OF p, of x] by (auto simp: numeral_eq_Suc)
  have suf: "\<not> HasSuffix ?p x" if "take (length x) (rev ''/stream'') \<noteq> take 7 (rev x)" for x
    using that suffix_clash [OF s, of x] by (auto simp: numeral_eq_Suc)
  have whole: "?p \<noteq> x" if "take 6 x \<noteq> ''/runs/''" for x
    using that p by (auto simp: HasPrefix_def numeral_eq_Suc)
  show ?thesis
    using m by (simp add: requiredRole_def read_role_def under_def is_read_def Let_def pre suf whole)
qed

lemma agent_actors: "ac_Agent (token_actor tok role) \<Longrightarrow> ac_Role (token_actor tok role) \<noteq> RoleAdmin"
  "ac_Agent (jwt_actor u agent) \<Longrightarrow> ac_Role (jwt_actor u agent) \<noteq> RoleAdmin"
  by (simp_all add: token_actor_def jwt_actor_def AgentRole_def RoleAdmin_def RoleOperator_def)

lemma vouched_agent:
  assumes "vouched env r actor who" and "ac_Agent actor" and "allowed env actor r = Inr True"
  shows "requiredRole r \<noteq> RoleAdmin"
proof
  assume admin: "requiredRole r = RoleAdmin"
  then have role: "ac_Role actor = RoleAdmin" using assms(2,3) by (auto simp: allowed_True)
  have "\<not> isStream r" using admin stream_role by (auto simp: RoleAdmin_def RoleViewer_def)
  then show False using assms(1,2) role agent_actors by (auto simp: vouched_def Let_def)
qed

section \<open>What passes\<close>

text \<open>C25. A request the gate serves to somebody is authenticated and authorized: its actor comes from
  an unexpired token in the store whose account still exists, from a bearer JWT the directory vouches
  for, or, on a stream only, from a ticket redeemed for that run; the actor's role meets the role the
  request takes, or the request edits one object the actor, who is no agent, manages; and a request
  that takes the admin role is never served to an agent, whatever grants its account holds.\<close>

theorem served_request_is_authorized:
  assumes "gate env r g = ((Served (Some actor), recs), g')" and "latch_ok g"
  shows "(\<exists>who. vouched env r actor who) \<and>
    (roleAllows (ac_Role actor) (requiredRole r) \<or>
      \<not> ac_Agent actor \<and> delegatedObject r \<noteq> [] \<and> manages (ge_authz env) actor (delegatedObject r) = Inr True) \<and>
    (ac_Agent actor \<longrightarrow> requiredRole r \<noteq> RoleAdmin)"
  using assms
proof (cases rule: gate_cases)
  case nobody
  from nobody_served(1) [OF this(1)] show ?thesis by simp
next
  case credential
  from credential_served [OF this(1)] show ?thesis using vouched_agent by (auto simp: allowed_True)
qed

text \<open>C27. A change is recorded before it is served. With a trail, a request other than a read that the
  gate lets through has its entry written, for the path with a webhook's secret redacted, and the entry
  names the kind of actor that is served; the only changes the gate serves without an entry are a
  sign-in, a webhook and a callback that carry no token.\<close>

theorem served_change_is_recorded:
  assumes "gate env r g = ((Served act, recs), g')" and "latch_ok g" and "ge_audits env" and "\<not> is_read r"
    and "act = None \<Longrightarrow> \<not> isSignIn r \<and> \<not> isHook (ge_lower env) r \<and> \<not> isCallback r"
  shows "\<exists>who. recs = [who] \<and> ge_record env who r (auditPath (ge_lower env) r) = None \<and>
    rc_Type who = (case act of None \<Rightarrow> actorTypeUnauthenticated | Some a \<Rightarrow> ac_Type a)"
  using assms(1,2)
proof (cases rule: gate_cases)
  case nobody
  have "act = None" by (rule nobody_served(1) [OF nobody(1)])
  moreover from this nobody_served(2) [OF nobody(1)] assms(5) have
    "record_entry env r \<lparr>rc_Name = unauthenticatedActor (ge_lower env) r,
        rc_Type = actorTypeUnauthenticated, rc_OnBehalfOf = []\<rparr> = (None, recs)" by simp
  from record_entry_cases [OF this] assms(3,4) \<open>act = None\<close> show ?thesis by simp
next
  case credential
  from credential_served [OF this(1)] obtain actor who where
    "act = Some actor" "vouched env r actor who" "recs = [who]"
    "ge_record env who r (auditPath (ge_lower env) r) = None"
    using assms(3,4) by auto
  then show ?thesis by (auto simp: vouched_def Let_def)
qed

text \<open>The state of enforcement before the \<open>i\<close>-th request.\<close>

fun states :: "(gate_env \<times> request) list \<Rightarrow> enforcement \<Rightarrow> enforcement list" where
  "states [] g = [g]"
| "states ((env, r) # rs) g = g # states rs (snd (gate env r g))"

lemma length_serve [simp]: "length (serve rs g) = length rs" "length (states rs g) = Suc (length rs)"
  by (induction rs g rule: states.induct) (auto split: prod.splits)

lemma serve_nth:
  "i < length rs \<Longrightarrow> gate (fst (rs ! i)) (snd (rs ! i)) (states rs g ! i) = (serve rs g ! i, states rs g ! Suc i)"
proof (induction rs g arbitrary: i rule: states.induct)
  case (2 env r rs g)
  obtain out g1 where gate: "gate env r g = (out, g1)" by (cases "gate env r g")
  have "states rs g1 ! 0 = g1" by (cases rs) auto
  then show ?case using 2 gate by (cases i) auto
qed simp

lemma states_latch:
  assumes "latch_ok g"
  shows "i \<le> length rs \<Longrightarrow> latch_ok (states rs g ! i)"
    and "i \<le> j \<Longrightarrow> j \<le> length rs \<Longrightarrow> en_enforced (states rs g ! i) \<Longrightarrow> en_enforced (states rs g ! j)"
proof -
  have zero: "states rs g ! 0 = g" by (cases "(rs, g)" rule: states.cases) auto
  show ok: "i \<le> length rs \<Longrightarrow> latch_ok (states rs g ! i)" for i
  proof (induction i)
    case (Suc i)
    with serve_nth [of i rs g] gate_keeps_latch(1) show ?case by auto
  qed (simp add: zero assms)
  show "i \<le> j \<Longrightarrow> j \<le> length rs \<Longrightarrow> en_enforced (states rs g ! i) \<Longrightarrow> en_enforced (states rs g ! j)"
  proof (induction rule: dec_induct)
    case (step j)
    with serve_nth [of j rs g] gate_keeps_latch(2) ok [of j] show ?case by auto
  qed simp
qed

text \<open>C26. An install that has authenticated once never runs open again. Whatever requests one process
  serves, and whatever its stores answer about tokens and accounts in the meantime, once a request has
  been served to an authenticated actor no later protected request is served to nobody.\<close>

theorem never_open_again:
  assumes "i < j" and "j < length rs" and "fst (serve rs NewEnforcement ! i) = Served (Some actor)"
    and "protects (ge_lower (fst (rs ! j))) (snd (rs ! j))"
  shows "fst (serve rs NewEnforcement ! j) \<noteq> Served None"
proof
  let ?g = "states rs NewEnforcement"
  assume none: "fst (serve rs NewEnforcement ! j) = Served None"
  have gi: "gate (fst (rs ! i)) (snd (rs ! i)) (?g ! i) =
      ((Served (Some actor), snd (serve rs NewEnforcement ! i)), ?g ! Suc i)"
    using serve_nth [of i rs NewEnforcement] assms(1-3) by (metis order.strict_trans prod.collapse)
  have "en_enforced (?g ! Suc i)"
    using gi states_latch(1) [of NewEnforcement i rs] assms(1,2)
    by (auto elim!: gate_cases dest: nobody_served(1))
  then have on: "en_enforced (?g ! j)"
    using states_latch(2) [of NewEnforcement "Suc i" j rs] assms(1,2) by simp
  have gj: "gate (fst (rs ! j)) (snd (rs ! j)) (?g ! j) =
      ((Served None, snd (serve rs NewEnforcement ! j)), ?g ! Suc j)"
    using serve_nth [of j rs NewEnforcement] assms(2) none by (metis prod.collapse)
  show False
    using gj states_latch(1) [of NewEnforcement j rs] assms(2,4) on
    by (auto elim!: gate_cases dest: credential_served)
qed

section \<open>Concrete requests\<close>

text \<open>An install with one agent's token, owned by no account, and a trail that takes every entry.\<close>

definition agent_token :: token where
  "agent_token =
     \<lparr>tk_ID = ''t1'', tk_Name = ''bot'', tk_UserID = [], tk_Kind = KindAgent, tk_CreatedBy = [],
      tk_CreatedByType = [], tk_Hash = ''tok'', tk_CreatedAt = 1, tk_LastUsedAt = None, tk_ExpiresAt = None\<rparr>"

definition sample_gate :: "bool \<Rightarrow> gate_env" where
  "sample_gate conf =
     \<lparr>ge_lower = (\<lambda>s. s), ge_sha = (\<lambda>s. s), ge_urlHost = (\<lambda>_. None), ge_bareHost = (\<lambda>s. s),
      ge_loopback = (\<lambda>_. True), ge_trustedProxies = 0, ge_publicReads = False,
      ge_asked = (\<lambda>_. (6000000000, 6000000000, conf)), ge_now = 10,
      ge_token = (\<lambda>h. if h = ''tok'' then Some agent_token else None), ge_users = None, ge_jwt = None,
      ge_redeem = (\<lambda>_ _. None), ge_audits = True, ge_record = (\<lambda>_ _ _. None), ge_authz = nil_authorizer\<rparr>"

definition sample_request :: "string \<Rightarrow> string \<Rightarrow> string \<Rightarrow> request" where
  "sample_request method p header =
     \<lparr>rq_Method = method, rq_Path = p, rq_Host = ''localhost'', rq_Authorization = header,
      rq_SecFetchSite = [], rq_Origin = [], rq_Ticket = []\<rparr>"

abbreviation agent_launch :: request where
  "agent_launch \<equiv> sample_request ''POST'' ''/v1/runs'' ''Bearer tok''"

lemma agent_launch_served:
  "gate (sample_gate True) agent_launch NewEnforcement =
     ((Served (Some (token_actor agent_token RoleAdmin)), [\<lparr>rc_Name = ''bot'', rc_Type = ''agent'', rc_OnBehalfOf = []\<rparr>]),
      \<lparr>en_enforced = True, en_latched = True, en_checkedAt = 6000000000\<rparr>)"
  by code_simp

theorem served_request_is_authorized_witness:
  "fst (fst (gate (sample_gate True) agent_launch NewEnforcement)) =
     Served (Some (token_actor agent_token RoleAdmin)) \<and>
   ac_Agent (token_actor agent_token RoleAdmin) \<and> requiredRole agent_launch \<noteq> RoleAdmin \<and>
   fst (fst (gate (sample_gate True) (sample_request ''POST'' ''/v1/grants'' ''Bearer tok'') NewEnforcement)) = Refused 403"
proof -
  have "ac_Agent (token_actor agent_token RoleAdmin)" by code_simp
  moreover have "fst (fst (gate (sample_gate True) (sample_request ''POST'' ''/v1/grants'' ''Bearer tok'') NewEnforcement)) = Refused 403"
    by code_simp
  ultimately show ?thesis
    using served_request_is_authorized [OF agent_launch_served latch_ok_New] agent_launch_served by auto
qed

theorem served_change_is_recorded_witness:
  "snd (fst (gate (sample_gate True) agent_launch NewEnforcement)) = [\<lparr>rc_Name = ''bot'', rc_Type = ''agent'', rc_OnBehalfOf = []\<rparr>] \<and>
   (\<exists>who. snd (fst (gate (sample_gate True) agent_launch NewEnforcement)) = [who] \<and>
     rc_Type who = ac_Type (token_actor agent_token RoleAdmin))"
proof -
  have "ge_audits (sample_gate True)" "\<not> is_read agent_launch" by code_simp+
  from served_change_is_recorded [OF agent_launch_served latch_ok_New this] show ?thesis
    by (auto simp: agent_launch_served)
qed

theorem never_open_again_witness:
  "fst (serve [(sample_gate True, agent_launch), (sample_gate False, sample_request ''GET'' ''/v1/runs'' [])]
     NewEnforcement ! 1) \<noteq> Served None \<and>
   fst (serve [(sample_gate False, sample_request ''GET'' ''/v1/runs'' [])] NewEnforcement ! 0) = Served None"
proof
  let ?rs = "[(sample_gate True, agent_launch), (sample_gate False, sample_request ''GET'' ''/v1/runs'' [])]"
  have "fst (serve ?rs NewEnforcement ! 0) = Served (Some (token_actor agent_token RoleAdmin))"
    by (simp add: agent_launch_served split: prod.splits)
  moreover have "protects (ge_lower (fst (?rs ! 1))) (snd (?rs ! 1))" by code_simp
  ultimately show "fst (serve ?rs NewEnforcement ! 1) \<noteq> Served None"
    using never_open_again [of 0 1 ?rs] by simp
  show "fst (serve [(sample_gate False, sample_request ''GET'' ''/v1/runs'' [])] NewEnforcement ! 0) = Served None"
    by code_simp
qed

end
