(* ===== verification/Slice_Sort.thy ===== *)
theory Slice_Sort
  imports Prelude
begin

text \<open>
  \<open>sort.Slice\<close> with a comparison that is a strict weak order. The locale \<open>slice_order\<close> has what a caller
  may rely on: the result is the same elements in order, it commutes with filtering, and where the
  comparison tells all elements apart it does not depend on the order they came in, so neither on the
  iteration of a map they were gathered from nor on how the sort places ties.
\<close>

fun insert_by :: "('a \<Rightarrow> 'a \<Rightarrow> bool) \<Rightarrow> 'a \<Rightarrow> 'a list \<Rightarrow> 'a list" where
  "insert_by lt x [] = [x]"
| "insert_by lt x (y # ys) = (if lt y x then y # insert_by lt x ys else x # y # ys)"

definition sortSlice :: "('a \<Rightarrow> 'a \<Rightarrow> bool) \<Rightarrow> 'a list \<Rightarrow> 'a list" where
  "sortSlice lt xs = foldr (insert_by lt) xs []"

lemma sortSlice_simps [simp]:
  "sortSlice lt [] = []" "sortSlice lt (x # xs) = insert_by lt x (sortSlice lt xs)"
  by (simp_all add: sortSlice_def)

lemma mset_insert_by [simp]: "mset (insert_by lt x ys) = add_mset x (mset ys)"
  by (induction ys) auto

lemma mset_sortSlice [simp]: "mset (sortSlice lt xs) = mset xs"
  by (induction xs) auto

lemma set_sortSlice [simp]: "set (sortSlice lt xs) = set xs"
  by (metis mset_sortSlice set_mset_mset)

lemma length_sortSlice [simp]: "length (sortSlice lt xs) = length xs"
  by (metis mset_sortSlice size_mset)

lemma distinct_sortSlice [simp]: "distinct (sortSlice lt xs) = distinct xs"
  using mset_eq_imp_distinct_iff [OF mset_sortSlice] by blast

lemma map_insert_by: "map f (insert_by (\<lambda>a b. lt (f a) (f b)) x ys) = insert_by lt (f x) (map f ys)"
  by (induction ys) auto

lemma map_sortSlice: "map f (sortSlice (\<lambda>a b. lt (f a) (f b)) xs) = sortSlice lt (map f xs)"
  by (induction xs) (auto simp: map_insert_by)

locale slice_order =
  fixes lt :: "'a \<Rightarrow> 'a \<Rightarrow> bool"
  assumes asym: "lt a b \<Longrightarrow> \<not> lt b a"
    and cotrans: "lt a c \<Longrightarrow> lt a b \<or> lt b c"
begin

definition in_order :: "'a list \<Rightarrow> bool" where
  "in_order xs \<longleftrightarrow> sorted_wrt (\<lambda>a b. \<not> lt b a) xs"

text \<open>The comparison tells the elements of a set apart.\<close>

definition tells_apart :: "'a set \<Rightarrow> bool" where
  "tells_apart A \<longleftrightarrow> (\<forall>a\<in>A. \<forall>b\<in>A. \<not> lt a b \<and> \<not> lt b a \<longrightarrow> a = b)"

lemma not_lt_trans: "\<not> lt a b \<Longrightarrow> \<not> lt b c \<Longrightarrow> \<not> lt a c"
  using cotrans by blast

lemma in_order_insert: "in_order ys \<Longrightarrow> in_order (insert_by lt x ys)"
proof (induction ys)
  case (Cons y ys)
  have "set_mset (mset (insert_by lt x ys)) = insert x (set ys)" by simp
  then have "set (insert_by lt x ys) = insert x (set ys)" by (simp only: set_mset_mset)
  then show ?case using Cons asym [of y x] not_lt_trans [of _ y x] by (auto simp: in_order_def)
qed (simp add: in_order_def)

lemma in_order_sortSlice [simp]: "in_order (sortSlice lt xs)"
  by (induction xs) (auto simp: in_order_insert, simp add: in_order_def)

lemma insert_by_front: "\<forall>y\<in>set ys. \<not> lt y x \<Longrightarrow> insert_by lt x ys = x # ys"
  by (cases ys) auto

lemma filter_insert_by:
  "in_order ys \<Longrightarrow> filter P (insert_by lt x ys) = (if P x then insert_by lt x (filter P ys) else filter P ys)"
proof (induction ys)
  case (Cons y ys)
  have rest: "\<forall>z\<in>set (y # ys). \<not> lt z x" if "\<not> lt y x"
    using that Cons.prems not_lt_trans [of _ y x] by (auto simp: in_order_def)
  show ?case
  proof (cases "lt y x")
    case True
    then show ?thesis using Cons by (auto simp: in_order_def)
  next
    case False
    then show ?thesis using rest insert_by_front [of "filter P (y # ys)" x] by auto
  qed
qed simp

lemma filter_sortSlice: "filter P (sortSlice lt xs) = sortSlice lt (filter P xs)"
  by (induction xs) (auto simp: filter_insert_by)

lemma in_order_unique:
  assumes "in_order xs" and "in_order ys" and "mset xs = mset ys" and "tells_apart (set xs)"
  shows "xs = ys"
  using assms
proof (induction xs arbitrary: ys)
  case (Cons x xs)
  then obtain y ys' where ys: "ys = y # ys'" by (cases ys) auto
  have sets: "set (x # xs) = set ys" using Cons.prems(3) by (metis set_mset_mset)
  have "\<not> lt y x" if "y \<noteq> x" using that Cons.prems(1) sets ys by (auto simp: in_order_def)
  moreover have "\<not> lt x y" if "y \<noteq> x" using that Cons.prems(2) sets ys by (auto simp: in_order_def)
  moreover have "y \<in> set (x # xs)" unfolding sets ys by simp
  ultimately have "x = y" using Cons.prems(4) unfolding tells_apart_def by (metis list.set_intros(1))
  moreover have "xs = ys'"
    using Cons.IH [of ys'] Cons.prems ys \<open>x = y\<close> by (auto simp: in_order_def tells_apart_def)
  ultimately show ?case by (simp add: ys)
qed simp

lemma sortSlice_cong:
  "mset xs = mset ys \<Longrightarrow> tells_apart (set xs) \<Longrightarrow> sortSlice lt xs = sortSlice lt ys"
  by (rule in_order_unique) simp_all

lemma sortSlice_eqI:
  "in_order ys \<Longrightarrow> mset xs = mset ys \<Longrightarrow> tells_apart (set ys) \<Longrightarrow> sortSlice lt xs = ys"
  by (metis in_order_sortSlice in_order_unique mset_sortSlice set_mset_mset)

lemma in_order_filter: "in_order xs \<Longrightarrow> in_order (filter P xs)"
  by (simp add: in_order_def sorted_wrt_filter)

end

text \<open>Orders given by a key, ascending, and by two keys, the first one descending.\<close>

lemma slice_order_key: "slice_order (\<lambda>a b. (f a :: 'k :: linorder) < f b)"
  by unfold_locales auto

lemma slice_order_newest:
  "slice_order (\<lambda>a b. (f a :: 'k :: linorder) > f b \<or> f a = f b \<and> (g a :: 'l :: linorder) > g b)"
  by unfold_locales auto

lemma slice_order_worst:
  "slice_order (\<lambda>a b. (f a :: 'k :: linorder) > f b \<or> f a = f b \<and> (g a :: 'l :: linorder) < g b)"
  by unfold_locales auto

end
