(* ===== verification/Fleet.thy ===== *)
theory Fleet
  imports MemLedgers GoFmt Slice_Sort
begin

text \<open>
  The fleet side of the run store (\<open>run/memstore_fleet.go\<close>, \<open>run/summary.go\<close>, \<open>run/summaryname.go\<close>,
  \<open>run/facts_history.go\<close>, the summaries of \<open>run/sanitize.go\<close>): the names hosts and tasks are stored
  under, the fold of a run's events into summaries, and the store's operations on summaries and facts.
  \<open>sha\<close> is SHA-256. Floating point values are bit patterns, with the four operations the code uses on
  them as a record; the pattern 0 is the number 0.
\<close>

record float_ops =
  fo_add :: "float64 \<Rightarrow> float64 \<Rightarrow> float64"
  fo_div :: "float64 \<Rightarrow> nat \<Rightarrow> float64"
  fo_seconds :: "duration \<Rightarrow> float64"
  fo_positive :: "float64 \<Rightarrow> bool"

section \<open>Names\<close>

definition MaxSummaryNameBytes :: nat where "MaxSummaryNameBytes = 1024"
definition summaryDigestMark :: string where "summaryDigestMark = ''... sha256:''"

text \<open>\<open>utf8.RuneStart\<close>, and the cut moved back to where a rune starts.\<close>

definition RuneStart :: "char \<Rightarrow> bool" where
  "RuneStart c \<longleftrightarrow> \<not> byte_in 128 191 c"

fun cut_back :: "string \<Rightarrow> nat \<Rightarrow> nat" where
  "cut_back name 0 = 0"
| "cut_back name (Suc k) = (if RuneStart (name ! Suc k) then Suc k else cut_back name k)"

definition SummaryName :: "(string \<Rightarrow> string) \<Rightarrow> string \<Rightarrow> string" where
  "SummaryName sha name0 =
     (let name = SafeText name0 in
      if length name \<le> MaxSummaryNameBytes then name
      else
        let suffix = summaryDigestMark @ EncodeToString (sha name)
        in take (cut_back name (MaxSummaryNameBytes - length suffix)) name @ suffix)"

definition SummaryNameKeys :: "(string \<Rightarrow> string) \<Rightarrow> string \<Rightarrow> string \<times> string" where
  "SummaryNameKeys sha name = (let whole = SafeText name in (whole, SummaryName sha whole))"

definition SanitizeHostSummaries :: "(string \<Rightarrow> string) \<Rightarrow> host_summary list \<Rightarrow> host_summary list" where
  "SanitizeHostSummaries sha = map (\<lambda>h. h\<lparr>hs_Host := SummaryName sha (hs_Host h), hs_Worst := SafeText (hs_Worst h)\<rparr>)"

definition SanitizeTaskSummaries :: "(string \<Rightarrow> string) \<Rightarrow> task_summary list \<Rightarrow> task_summary list" where
  "SanitizeTaskSummaries sha = map (\<lambda>t. t\<lparr>ts_Task := SummaryName sha (ts_Task t)\<rparr>)"

definition SanitizeHostFacts :: "(string \<Rightarrow> string) \<Rightarrow> host_facts list \<Rightarrow> host_facts list" where
  "SanitizeHostFacts sha = map (\<lambda>f. f\<lparr>hf_Host := SummaryName sha (hf_Host f), hf_Facts := SafeStringMap (hf_Facts f)\<rparr>)"

section \<open>The spacing and depth of the history\<close>

definition DefaultFactsInterval :: duration where "DefaultFactsInterval = 24 * 3600 * 1000000000"
definition DefaultFactsDepth :: int where "DefaultFactsDepth = 400"

record facts_config =
  fc_interval :: duration
  fc_intervalSet :: bool
  fc_depth :: int
  fc_depthSet :: bool

definition unset_facts_config :: facts_config where
  "unset_facts_config = \<lparr>fc_interval = 0, fc_intervalSet = False, fc_depth = 0, fc_depthSet = False\<rparr>"

definition SetFactsInterval :: "duration \<Rightarrow> facts_config \<Rightarrow> facts_config" where
  "SetFactsInterval d c = c\<lparr>fc_interval := (if d < 0 then 0 else d), fc_intervalSet := True\<rparr>"

definition FactsInterval :: "facts_config \<Rightarrow> duration" where
  "FactsInterval c = (if fc_interval c = 0 \<and> \<not> fc_intervalSet c then DefaultFactsInterval else fc_interval c)"

definition SetFactsDepth :: "int \<Rightarrow> facts_config \<Rightarrow> facts_config" where
  "SetFactsDepth n c = c\<lparr>fc_depth := (if n < 0 then 0 else n), fc_depthSet := True\<rparr>"

definition FactsDepth :: "facts_config \<Rightarrow> int" where
  "FactsDepth c = (if fc_depth c = 0 \<and> \<not> fc_depthSet c then DefaultFactsDepth else fc_depth c)"

text \<open>\<open>time.Truncate\<close> counts from the zero time; \<open>time.RFC3339\<close> prints whole seconds.\<close>

definition Truncate :: "gotime \<Rightarrow> duration \<Rightarrow> gotime" where
  "Truncate t d = (if d \<le> 0 then t else t - (t - zero_time) mod d)"

definition RFC3339 :: "gotime \<Rightarrow> string" where
  "RFC3339 t = RFC3339Nano (t - t mod 1000000000)"

definition FactsBucket :: "gotime \<Rightarrow> string \<Rightarrow> duration \<Rightarrow> string" where
  "FactsBucket at runID interval = (if interval \<le> 0 then runID else RFC3339 (Truncate at interval))"

section \<open>Outcomes\<close>

definition worstFromStats :: "host_stats \<Rightarrow> string" where
  "worstFromStats s =
     (if hst_Failures s > 0 then ''failed''
      else if hst_Unreachable s > 0 then ''unreachable''
      else if hst_Changed s > 0 then ''changed''
      else if hst_OK s > 0 then ''ok'' else ''skipped'')"

definition FailedOutcome :: "string \<Rightarrow> bool" where
  "FailedOutcome worst \<longleftrightarrow> worst = ''failed'' \<or> worst = ''unreachable''"

fun FlipOutcomes :: "string list \<Rightarrow> nat" where
  "FlipOutcomes (a # b # os) = (if FailedOutcome b \<noteq> FailedOutcome a then 1 else 0) + FlipOutcomes (b # os)"
| "FlipOutcomes _ = 0"

definition FlipCount :: "host_summary list \<Rightarrow> nat" where
  "FlipCount ss = FlipOutcomes (map hs_Worst ss)"

section \<open>Folding a run's events\<close>

record summary_fold =
  sf_ranAt :: gotime
  sf_facts :: "string \<rightharpoonup> host_facts"
  sf_stats :: "(string \<times> host_stats) list option"
  sf_outputs :: "(string \<times> goany) list"
  sf_hostSeconds :: "string \<rightharpoonup> float64"
  sf_taskSeconds :: "string \<rightharpoonup> float64"
  sf_hostTaskStart :: gotime
  sf_task :: string
  sf_taskStart :: gotime
  sf_lastResult :: gotime

definition NewSummaryFold :: "gotime \<Rightarrow> summary_fold" where
  "NewSummaryFold ranAt =
     \<lparr>sf_ranAt = ranAt, sf_facts = Map.empty, sf_stats = None, sf_outputs = [], sf_hostSeconds = Map.empty,
      sf_taskSeconds = Map.empty, sf_hostTaskStart = zero_time, sf_task = [], sf_taskStart = zero_time,
      sf_lastResult = zero_time\<rparr>"

text \<open>\<open>Time.Sub\<close> answers the nearest duration of 64 bits; a missing key of a map of numbers reads 0.\<close>

definition time_sub :: "gotime \<Rightarrow> gotime \<Rightarrow> duration" where
  "time_sub a b = max (- (2 ^ 63)) (min (2 ^ 63 - 1) (a - b))"

definition add_at :: "float_ops \<Rightarrow> string \<Rightarrow> float64 \<Rightarrow> (string \<rightharpoonup> float64) \<Rightarrow> (string \<rightharpoonup> float64)" where
  "add_at fo k x m = m(k \<mapsto> fo_add fo (case m k of None \<Rightarrow> 0 | Some v \<Rightarrow> v) x)"

definition banked :: "float_ops \<Rightarrow> summary_fold \<Rightarrow> (string \<rightharpoonup> float64)" where
  "banked fo f =
     (if sf_task f \<noteq> [] \<and> sf_lastResult f > sf_taskStart f
      then add_at fo (sf_task f) (fo_seconds fo (time_sub (sf_lastResult f) (sf_taskStart f))) (sf_taskSeconds f)
      else sf_taskSeconds f)"

definition closeTask :: "float_ops \<Rightarrow> summary_fold \<Rightarrow> summary_fold" where
  "closeTask fo f = f\<lparr>sf_taskSeconds := banked fo f\<rparr>"

definition runner_types :: "string list" where
  "runner_types = [''runner_ok'', ''runner_failed'', ''runner_skipped'', ''runner_unreachable'']"

definition fold_event :: "float_ops \<Rightarrow> event \<Rightarrow> summary_fold \<Rightarrow> summary_fold" where
  "fold_event fo e f =
     (if ev_Type e = ''facts'' then
        (if ev_Host e \<noteq> [] \<and> ev_Facts e \<noteq> []
         then f\<lparr>sf_facts := (sf_facts f)(ev_Host e \<mapsto>
                \<lparr>hf_Host = ev_Host e, hf_Facts = ev_Facts e, hf_RunID = [],
                 hf_GatheredAt = (if IsZero (ev_Time e) then sf_ranAt f else ev_Time e)\<rparr>)\<rparr>
         else f)
      else if ev_Type e = ''stats'' then
        f\<lparr>sf_stats := (if ev_Stats e \<noteq> None then ev_Stats e else sf_stats f),
          sf_outputs := (if ev_Outputs e \<noteq> [] then ev_Outputs e else sf_outputs f)\<rparr>
      else if ev_Type e = ''task_start'' then
        (closeTask fo f)\<lparr>sf_task := ev_Task e, sf_taskStart := ev_Time e, sf_lastResult := zero_time,
          sf_hostTaskStart := ev_Time e\<rparr>
      else if ev_Type e \<in> set runner_types then
        let f1 = f\<lparr>sf_lastResult := (if ev_Time e > sf_lastResult f then ev_Time e else sf_lastResult f)\<rparr>;
            gap = fo_seconds fo (time_sub (ev_Time e) (sf_hostTaskStart f))
        in if ev_Host e = [] \<or> IsZero (sf_hostTaskStart f) then f1
           else if fo_positive fo gap then f1\<lparr>sf_hostSeconds := add_at fo (ev_Host e) gap (sf_hostSeconds f)\<rparr>
           else f1
      else f)"

definition AddEvents :: "float_ops \<Rightarrow> event list \<Rightarrow> summary_fold \<Rightarrow> summary_fold" where
  "AddEvents fo es f = fold (fold_event fo) es f"

definition HostSummaries :: "summary_fold \<Rightarrow> host_summary list" where
  "HostSummaries f =
     (case sf_stats f of
        None \<Rightarrow> []
      | Some stats \<Rightarrow>
          sortSlice (\<lambda>a b. hs_Host a < hs_Host b)
            (map (\<lambda>(host, s). \<lparr>hs_RunID = [], hs_Host = host, hs_OK = hst_OK s, hs_Changed = hst_Changed s,
                 hs_Failures = hst_Failures s, hs_Unreachable = hst_Unreachable s, hs_Skipped = hst_Skipped s,
                 hs_Worst = worstFromStats s,
                 hs_DurationSeconds = (case sf_hostSeconds f host of None \<Rightarrow> 0 | Some v \<Rightarrow> v),
                 hs_RanAt = sf_ranAt f, hs_DryRun = False\<rparr>) stats))"

definition Recap :: "summary_fold \<Rightarrow> nat \<times> bool" where
  "Recap f = (case sf_stats f of None \<Rightarrow> (0, False) | Some stats \<Rightarrow> (length stats, True))"

text \<open>\<open>ord\<close> is the order a map is visited in.\<close>

definition FoldedFacts :: "string list \<Rightarrow> summary_fold \<Rightarrow> host_facts list" where
  "FoldedFacts ord f = sortSlice (\<lambda>a b. hf_Host a < hf_Host b) (List.map_filter (sf_facts f) ord)"

definition TaskSummaries :: "float_ops \<Rightarrow> string list \<Rightarrow> summary_fold \<Rightarrow> task_summary list" where
  "TaskSummaries fo ord f =
     sortSlice (\<lambda>a b. ts_Task a < ts_Task b)
       (List.map_filter (\<lambda>name. map_option (\<lambda>s. \<lparr>ts_RunID = [], ts_Task = name, ts_Seconds = s, ts_RanAt = sf_ranAt f\<rparr>)
          (banked fo f name)) ord)"

section \<open>Summaries in the store\<close>

definition entries :: "(string \<rightharpoonup> 'a list) \<Rightarrow> string \<Rightarrow> 'a list" where
  "entries byRun i = (case byRun i of None \<Rightarrow> [] | Some l \<Rightarrow> l)"

definition all_entries :: "string list \<Rightarrow> (string \<rightharpoonup> 'a list) \<Rightarrow> 'a list" where
  "all_entries ord byRun = concat (map (entries byRun) ord)"

definition is_terminal_row :: "string \<Rightarrow> mem_store \<Rightarrow> bool" where
  "is_terminal_row i st = (case ms_runs st i of None \<Rightarrow> False | Some r \<Rightarrow> Terminal (Status r))"

definition is_dry_row :: "string \<Rightarrow> mem_store \<Rightarrow> bool" where
  "is_dry_row i st = (case ms_runs st i of None \<Rightarrow> False | Some r \<Rightarrow> DryRun r)"

definition RunHostSummaries :: "string \<Rightarrow> mem_store \<Rightarrow> host_summary list" where
  "RunHostSummaries i st =
     sortSlice (\<lambda>a b. hs_Host a < hs_Host b) (map (\<lambda>h. h\<lparr>hs_RunID := i\<rparr>) (entries (ms_summaries st) i))"

definition SaveHostSummary :: "(string \<Rightarrow> string) \<Rightarrow> string \<Rightarrow> host_summary list \<Rightarrow> mem_store \<Rightarrow> mem_store" where
  "SaveHostSummary sha i ss st =
     (if is_terminal_row i st then st
      else if ss = [] then st\<lparr>ms_summaries := (ms_summaries st)(i := None)\<rparr>
      else st\<lparr>ms_summaries := (ms_summaries st)(i \<mapsto>
             map (\<lambda>h. h\<lparr>hs_RunID := i, hs_DryRun := is_dry_row i st\<rparr>) (SanitizeHostSummaries sha ss))\<rparr>)"

text \<open>
  The upsert of one entry by its key. The code keeps the position of every key in a map, where the last
  of several entries under one key wins.
\<close>

fun replace_last :: "('a \<Rightarrow> string) \<Rightarrow> 'a \<Rightarrow> 'a list \<Rightarrow> 'a list option" where
  "replace_last key x [] = None"
| "replace_last key x (y # ys) =
     (case replace_last key x ys of
        Some zs \<Rightarrow> Some (y # zs)
      | None \<Rightarrow> if key y = key x then Some (x # ys) else None)"

definition upsert :: "('a \<Rightarrow> string) \<Rightarrow> 'a \<Rightarrow> 'a list \<Rightarrow> 'a list" where
  "upsert key x ys = (case replace_last key x ys of Some zs \<Rightarrow> zs | None \<Rightarrow> ys @ [x])"

definition AppendHostSummary :: "(string \<Rightarrow> string) \<Rightarrow> string \<Rightarrow> host_summary list \<Rightarrow> mem_store \<Rightarrow> mem_store" where
  "AppendHostSummary sha i ss st =
     (if is_terminal_row i st then st
      else if ss = [] then st
      else st\<lparr>ms_summaries := (ms_summaries st)(i \<mapsto>
             fold (\<lambda>h. upsert hs_Host (h\<lparr>hs_RunID := i, hs_DryRun := is_dry_row i st\<rparr>))
               (SanitizeHostSummaries sha ss) (entries (ms_summaries st) i))\<rparr>)"

definition RunTaskSummaries :: "string \<Rightarrow> mem_store \<Rightarrow> task_summary list" where
  "RunTaskSummaries i st =
     sortSlice (\<lambda>a b. ts_Task a < ts_Task b) (map (\<lambda>t. t\<lparr>ts_RunID := i\<rparr>) (entries (ms_tasks st) i))"

definition SaveTaskSummary :: "(string \<Rightarrow> string) \<Rightarrow> string \<Rightarrow> task_summary list \<Rightarrow> mem_store \<Rightarrow> mem_store" where
  "SaveTaskSummary sha i ts st =
     (if is_terminal_row i st then st
      else if ts = [] then st\<lparr>ms_tasks := (ms_tasks st)(i := None)\<rparr>
      else st\<lparr>ms_tasks := (ms_tasks st)(i \<mapsto> map (\<lambda>t. t\<lparr>ts_RunID := i\<rparr>) (SanitizeTaskSummaries sha ts))\<rparr>)"

definition AppendTaskSummary :: "(string \<Rightarrow> string) \<Rightarrow> string \<Rightarrow> task_summary list \<Rightarrow> mem_store \<Rightarrow> mem_store" where
  "AppendTaskSummary sha i ts st =
     (if is_terminal_row i st then st
      else if ts = [] then st
      else st\<lparr>ms_tasks := (ms_tasks st)(i \<mapsto>
             fold (\<lambda>t. upsert ts_Task (t\<lparr>ts_RunID := i\<rparr>)) (SanitizeTaskSummaries sha ts) (entries (ms_tasks st) i))\<rparr>)"

section \<open>Views over the history\<close>

definition newerHostSummary :: "host_summary \<Rightarrow> host_summary \<Rightarrow> bool" where
  "newerHostSummary a b = (if hs_RanAt a \<noteq> hs_RanAt b then hs_RanAt a > hs_RanAt b else hs_RunID a > hs_RunID b)"

definition newerTaskSummary :: "task_summary \<Rightarrow> task_summary \<Rightarrow> bool" where
  "newerTaskSummary a b = (if ts_RanAt a \<noteq> ts_RanAt b then ts_RanAt a > ts_RanAt b else ts_RunID a > ts_RunID b)"

definition window_of :: "int \<Rightarrow> nat" where
  "window_of w = (if w < 1 then 1 else nat w)"

text \<open>The entries of one key, newest first and cut to the window, for every key of the history.\<close>

definition recent_by :: "('a \<Rightarrow> string) \<Rightarrow> ('a \<Rightarrow> 'a \<Rightarrow> bool) \<Rightarrow> nat \<Rightarrow> 'a list \<Rightarrow> (string \<times> 'a list) list" where
  "recent_by key newer w xs =
     map (\<lambda>k. (k, take w (sortSlice newer (filter (\<lambda>x. key x = k) xs)))) (remdups (map key xs))"

definition recentByHost :: "string list \<Rightarrow> nat \<Rightarrow> mem_store \<Rightarrow> (string \<times> host_summary list) list" where
  "recentByHost ord w st = recent_by hs_Host newerHostSummary w (all_entries ord (ms_summaries st))"

record host_health =
  hh_Host :: string
  hh_Failures :: nat
  hh_Total :: nat
  hh_LastOutcome :: string
  hh_LastRun :: gotime
  hh_Flips :: nat
  hh_Flaky :: bool
  hh_Recent :: "string list"
  hh_RecentRuns :: "string list"

definition health_of :: "string \<times> host_summary list \<Rightarrow> host_health" where
  "health_of p = (case p of (host, recent) \<Rightarrow>
     \<lparr>hh_Host = host, hh_Failures = length (filter (\<lambda>h. FailedOutcome (hs_Worst h)) recent), hh_Total = length recent,
      hh_LastOutcome = hs_Worst (hd recent), hh_LastRun = hs_RanAt (hd recent), hh_Flips = FlipCount recent,
      hh_Flaky = (FlipCount recent \<ge> 2), hh_Recent = map hs_Worst recent, hh_RecentRuns = map hs_RunID recent\<rparr>)"

definition FleetHealth :: "string list \<Rightarrow> int \<Rightarrow> mem_store \<Rightarrow> host_health list" where
  "FleetHealth ord window st =
     sortSlice (\<lambda>a b. if hh_Failures a \<noteq> hh_Failures b then hh_Failures a > hh_Failures b else hh_Host a < hh_Host b)
       (map health_of (recentByHost ord (window_of window) st))"

record host_drift =
  hd_Host :: string
  hd_DriftedTasks :: int
  hd_RunID :: string
  hd_CheckedAt :: gotime

definition latest_check :: "host_summary \<Rightarrow> (string \<rightharpoonup> host_summary) \<Rightarrow> (string \<rightharpoonup> host_summary)" where
  "latest_check h m =
     (if \<not> hs_DryRun h then m
      else case m (hs_Host h) of
        None \<Rightarrow> m(hs_Host h \<mapsto> h)
      | Some cur \<Rightarrow> if newerHostSummary h cur then m(hs_Host h \<mapsto> h) else m)"

text \<open>\<open>hord\<close> visits the hosts of the last loop.\<close>

definition DriftStatus :: "string list \<Rightarrow> string list \<Rightarrow> mem_store \<Rightarrow> host_drift list" where
  "DriftStatus ord hord st =
     (let latest = fold latest_check (all_entries ord (ms_summaries st)) Map.empty
      in sortSlice (\<lambda>a b. if hd_DriftedTasks a \<noteq> hd_DriftedTasks b then hd_DriftedTasks a > hd_DriftedTasks b else hd_Host a < hd_Host b)
           (List.map_filter (\<lambda>host. map_option (\<lambda>h. \<lparr>hd_Host = host, hd_DriftedTasks = hs_Changed h, hd_RunID = hs_RunID h,
              hd_CheckedAt = hs_RanAt h\<rparr>) (latest host)) hord))"

definition HostHistory :: "(string \<Rightarrow> string) \<Rightarrow> string list \<Rightarrow> string \<Rightarrow> int \<Rightarrow> mem_store \<Rightarrow> host_summary list" where
  "HostHistory sha ord host limit st =
     take (window_of limit) (sortSlice newerHostSummary
       (filter (\<lambda>h. hs_Host h = SummaryName sha host) (all_entries ord (ms_summaries st))))"

record task_trend =
  tt_Task :: string
  tt_Runs :: nat
  tt_AvgSeconds :: float64
  tt_LastSeconds :: float64
  tt_LastRun :: gotime
  tt_Recent :: "float64 list"

definition total_seconds :: "float_ops \<Rightarrow> float64 list \<Rightarrow> float64" where
  "total_seconds fo xs = fold (\<lambda>x acc. fo_add fo acc x) xs 0"

definition trend_of :: "float_ops \<Rightarrow> string \<times> task_summary list \<Rightarrow> task_trend" where
  "trend_of fo p = (case p of (task, recent) \<Rightarrow>
     \<lparr>tt_Task = task, tt_Runs = length recent,
      tt_AvgSeconds = fo_div fo (total_seconds fo (map ts_Seconds recent)) (length recent),
      tt_LastSeconds = ts_Seconds (hd recent), tt_LastRun = ts_RanAt (hd recent), tt_Recent = rev (map ts_Seconds recent)\<rparr>)"

definition TaskTrends :: "float_ops \<Rightarrow> string list \<Rightarrow> int \<Rightarrow> mem_store \<Rightarrow> task_trend list" where
  "TaskTrends fo ord window st =
     sortSlice (\<lambda>a b. tt_Task a < tt_Task b)
       (map (trend_of fo) (recent_by ts_Task newerTaskSummary (window_of window) (all_entries ord (ms_tasks st))))"

definition HostCosts :: "float_ops \<Rightarrow> string list \<Rightarrow> int \<Rightarrow> mem_store \<Rightarrow> (string \<rightharpoonup> float64)" where
  "HostCosts fo ord window st =
     map_of (map (\<lambda>(host, recent). (host, fo_div fo (total_seconds fo (map hs_DurationSeconds recent)) (length recent)))
       (recentByHost ord (window_of window) st))"

section \<open>Trimming\<close>

type_synonym summary_ref = "string \<times> nat"

definition refs_of :: "string list \<Rightarrow> (string \<rightharpoonup> 'a list) \<Rightarrow> summary_ref list" where
  "refs_of ord byRun = concat (map (\<lambda>i. map (Pair i) [0..<length (entries byRun i)]) ord)"

definition entry_at :: "(string \<rightharpoonup> 'a list) \<Rightarrow> summary_ref \<Rightarrow> 'a" where
  "entry_at byRun ref = entries byRun (fst ref) ! snd ref"

definition group_refs :: "string list \<Rightarrow> ('a \<Rightarrow> string) \<Rightarrow> (string \<rightharpoonup> 'a list) \<Rightarrow> string \<Rightarrow> summary_ref list" where
  "group_refs ord key byRun k = filter (\<lambda>ref. key (entry_at byRun ref) = k) (refs_of ord byRun)"

definition dropped_of :: "string list \<Rightarrow> nat \<Rightarrow> ('a \<Rightarrow> string) \<Rightarrow> ('a \<Rightarrow> 'a \<Rightarrow> bool) \<Rightarrow> (string \<Rightarrow> bool) \<Rightarrow>
    (string \<rightharpoonup> 'a list) \<Rightarrow> string \<Rightarrow> summary_ref list" where
  "dropped_of ord keep key newer held byRun k =
     (let refs = group_refs ord key byRun k in
      if length refs \<le> keep then []
      else filter (\<lambda>ref. \<not> held (fst ref))
             (drop keep (sortSlice (\<lambda>a b. newer (entry_at byRun a) (entry_at byRun b)) refs)))"

definition dropped :: "string list \<Rightarrow> nat \<Rightarrow> ('a \<Rightarrow> string) \<Rightarrow> ('a \<Rightarrow> 'a \<Rightarrow> bool) \<Rightarrow> (string \<Rightarrow> bool) \<Rightarrow>
    (string \<rightharpoonup> 'a list) \<Rightarrow> summary_ref list" where
  "dropped ord keep key newer held byRun =
     concat (map (dropped_of ord keep key newer held byRun)
       (remdups (map (\<lambda>ref. key (entry_at byRun ref)) (refs_of ord byRun))))"

definition kept_entries :: "summary_ref list \<Rightarrow> string \<Rightarrow> 'a list \<Rightarrow> 'a list" where
  "kept_entries gone i l = map (\<lambda>k. l ! k) (filter (\<lambda>k. (i, k) \<notin> set gone) [0..<length l])"

definition trimNewestPerKey :: "string list \<Rightarrow> nat \<Rightarrow> ('a \<Rightarrow> string) \<Rightarrow> ('a \<Rightarrow> 'a \<Rightarrow> bool) \<Rightarrow> (string \<Rightarrow> bool) \<Rightarrow>
    (string \<rightharpoonup> 'a list) \<Rightarrow> nat \<times> (string \<rightharpoonup> 'a list)" where
  "trimNewestPerKey ord keep key newer held byRun =
     (let gone = dropped ord keep key newer held byRun
      in (length gone,
          \<lambda>i. case byRun i of
                None \<Rightarrow> None
              | Some l \<Rightarrow>
                  if \<not> list_ex (\<lambda>ref. fst ref = i) gone then Some l
                  else if kept_entries gone i l = [] then None else Some (kept_entries gone i l)))"

definition TrimSummaries :: "string list \<Rightarrow> string list \<Rightarrow> int \<Rightarrow> mem_store \<Rightarrow> nat \<times> mem_store" where
  "TrimSummaries ord tord keep st =
     (let k = window_of keep;
          held = (\<lambda>i. case ms_runs st i of None \<Rightarrow> False | Some r \<Rightarrow> heldForOutcome st r);
          (n, hosts) = trimNewestPerKey ord k hs_Host newerHostSummary held (ms_summaries st);
          (m, tasks) = trimNewestPerKey tord k ts_Task newerTaskSummary held (ms_tasks st)
      in (n + m, st\<lparr>ms_summaries := hosts, ms_tasks := tasks\<rparr>))"

section \<open>Facts\<close>

definition bucket_of :: "facts_config \<Rightarrow> host_facts \<Rightarrow> string" where
  "bucket_of cfg f = FactsBucket (hf_GatheredAt f) (hf_RunID f) (FactsInterval cfg)"

fun put_reading :: "facts_config \<Rightarrow> host_facts \<Rightarrow> host_facts list \<Rightarrow> host_facts list" where
  "put_reading cfg cp [] = [cp]"
| "put_reading cfg cp (k # ks) =
     (if bucket_of cfg k = bucket_of cfg cp
      then (if \<not> hf_GatheredAt k > hf_GatheredAt cp then cp else k) # ks
      else k # put_reading cfg cp ks)"

definition cut_depth :: "facts_config \<Rightarrow> host_facts list \<Rightarrow> host_facts list" where
  "cut_depth cfg kept =
     (if FactsDepth cfg > 0 \<and> int (length kept) > FactsDepth cfg
      then drop (length kept - nat (FactsDepth cfg)) kept else kept)"

definition stamped :: "gotime \<Rightarrow> string \<Rightarrow> host_facts \<Rightarrow> host_facts" where
  "stamped now runID f =
     f\<lparr>hf_RunID := runID, hf_GatheredAt := (if IsZero (hf_GatheredAt f) then now else hf_GatheredAt f)\<rparr>"

definition save_facts_one :: "facts_config \<Rightarrow> string \<Rightarrow> gotime \<times> host_facts \<Rightarrow> mem_store \<Rightarrow> mem_store" where
  "save_facts_one cfg runID p st =
     (case p of (now, f) \<Rightarrow>
        if hf_Host f = [] \<or> hf_Facts f = [] then st
        else
          let cp = stamped now runID f;
              host = hf_Host f;
              newest = (case ms_facts st host of None \<Rightarrow> True | Some held \<Rightarrow> \<not> hf_GatheredAt held > hf_GatheredAt cp)
          in st\<lparr>ms_facts := (if newest then (ms_facts st)(host \<mapsto> cp) else ms_facts st),
                ms_factsHistory := (ms_factsHistory st)(host \<mapsto>
                  cut_depth cfg (sortSlice (\<lambda>a b. hf_GatheredAt a < hf_GatheredAt b)
                    (put_reading cfg cp (entries (ms_factsHistory st) host))))\<rparr>)"

text \<open>\<open>clock k\<close> is the time read for the \<open>k\<close>-th host.\<close>

definition SaveHostFacts :: "(string \<Rightarrow> string) \<Rightarrow> facts_config \<Rightarrow> (nat \<Rightarrow> gotime) \<Rightarrow> string \<Rightarrow> host_facts list \<Rightarrow>
    mem_store \<Rightarrow> mem_store" where
  "SaveHostFacts sha cfg clock runID facts st =
     fold (save_facts_one cfg runID) (map (\<lambda>(k, f). (clock k, f)) (enumerate 0 (SanitizeHostFacts sha facts))) st"

definition in_effect :: "gotime \<Rightarrow> host_facts list \<Rightarrow> host_facts option" where
  "in_effect at kept =
     (case rev (takeWhile (\<lambda>f. \<not> hf_GatheredAt f > at) kept) of [] \<Rightarrow> None | f # _ \<Rightarrow> Some f)"

definition EstateAt :: "string list \<Rightarrow> gotime \<Rightarrow> int \<Rightarrow> mem_store \<Rightarrow> host_facts list" where
  "EstateAt hord at limit st =
     (let out = sortSlice (\<lambda>a b. hf_Host a < hf_Host b)
            (List.map_filter (\<lambda>host. map_option (\<lambda>f. f\<lparr>hf_Host := host\<rparr>) (in_effect at (entries (ms_factsHistory st) host))) hord)
      in if limit > 0 \<and> int (length out) > limit then take (nat limit) out else out)"

definition HostFactsFor :: "(string \<Rightarrow> string) \<Rightarrow> string \<Rightarrow> mem_store \<Rightarrow> host_facts option" where
  "HostFactsFor sha host st = ms_facts st (SummaryName sha host)"

definition EstateHorizon :: "string list \<Rightarrow> mem_store \<Rightarrow> gotime" where
  "EstateHorizon hord st =
     fold (\<lambda>f oldest. if IsZero oldest \<or> hf_GatheredAt f < oldest then hf_GatheredAt f else oldest)
       (all_entries hord (ms_factsHistory st)) zero_time"

section \<open>Workers\<close>

definition WorkerWindow :: duration where "WorkerWindow = 48 * 3600 * 1000000000"

record worker_info =
  wi_Owner :: string
  wi_Active :: nat
  wi_Completed :: nat
  wi_Failed :: nat
  wi_LastSeen :: gotime

definition seen_run :: "gotime \<Rightarrow> run \<Rightarrow> (string \<rightharpoonup> worker_info) \<Rightarrow> (string \<rightharpoonup> worker_info)" where
  "seen_run cutoff r m =
     (case ClaimedAt r of
        None \<Rightarrow> m
      | Some at \<Rightarrow>
          if ClaimedBy r = [] \<or> at < cutoff then m
          else if ParentID r \<noteq> None \<and> ParentID r \<noteq> Some [] then m
          else
            let w = (case m (ClaimedBy r) of
                       None \<Rightarrow> \<lparr>wi_Owner = ClaimedBy r, wi_Active = 0, wi_Completed = 0, wi_Failed = 0, wi_LastSeen = zero_time\<rparr>
                     | Some w \<Rightarrow> w);
                w1 = (if Status r = StatusRunning then w\<lparr>wi_Active := wi_Active w + 1\<rparr>
                      else if Status r = StatusSucceeded then w\<lparr>wi_Completed := wi_Completed w + 1\<rparr>
                      else if Status r = StatusFailed then w\<lparr>wi_Failed := wi_Failed w + 1\<rparr> else w)
            in m(ClaimedBy r \<mapsto> w1\<lparr>wi_LastSeen := (if at > wi_LastSeen w1 then at else wi_LastSeen w1)\<rparr>))"

text \<open>\<open>ord\<close> visits the runs and \<open>word\<close> the executors found.\<close>

definition Workers :: "gotime \<Rightarrow> string list \<Rightarrow> string list \<Rightarrow> mem_store \<Rightarrow> worker_info list" where
  "Workers now ord word st =
     sortSlice (\<lambda>a b. if wi_LastSeen a = wi_LastSeen b then wi_Owner a < wi_Owner b else wi_LastSeen a > wi_LastSeen b)
       (List.map_filter (fold (seen_run (now - WorkerWindow)) (List.map_filter (ms_runs st) ord) Map.empty) word)"

end
