(* ===== verification/Fleet_Names.thy ===== *)
theory Fleet_Names
  imports Fleet Audit_Tamper
begin

text \<open>
  The names of hosts and tasks in the fleet tables: within their bound, storable, found again by what a
  view displays, and apart for two long names unless their digests collide.
\<close>

section \<open>Cutting at a rune\<close>

lemma rune_continues:
  assumes "is_rune c" and "0 < k" and "k < length c"
  shows "\<not> RuneStart (c ! k)"
proof -
  obtain a s where c: "c = a # s" using assms(3) by (cases c) auto
  have "byte_in 128 191 b" if "second3 a b \<or> second4 a b" for a b
    using that by (auto simp: second3_def second4_def byte_in_def split: if_splits)
  then show ?thesis using assms c
    by (auto simp: is_rune_def RuneStart_def nth_Cons' less_Suc_eq split: list.splits if_splits)
qed

lemma ValidString_take:
  assumes "ValidString s" and "k = 0 \<or> k \<ge> length s \<or> RuneStart (s ! k)"
  shows "ValidString (take k s)"
proof -
  obtain ds where "s = concat ds" "\<forall>d\<in>set ds. is_rune d" using assms(1) by (auto simp: ValidString_iff)
  then show ?thesis using assms(2)
  proof (induction ds arbitrary: s k)
    case Nil
    show ?case by (simp add: Nil ValidString_ascii)
  next
    case (Cons d ds)
    have rune: "is_rune d" "ValidString d" using Cons.prems(2) ValidString_concat [of "[d]"] by auto
    show ?case
    proof (cases "length d \<le> k")
      case True
      then have "k - length d = 0 \<or> k - length d \<ge> length (concat ds) \<or> RuneStart (concat ds ! (k - length d))"
        using Cons.prems(1,3) by (auto simp: nth_append)
      then have "ValidString (take (k - length d) (concat ds))"
        using Cons.IH [of "concat ds" "k - length d"] Cons.prems(2) by simp
      then show ?thesis using True Cons.prems(1) rune(2) by (simp add: ValidString_append)
    next
      case False
      have "RuneStart (s ! k) \<longleftrightarrow> RuneStart (d ! k)" using False Cons.prems(1) by (simp add: nth_append)
      moreover have "\<not> length s \<le> k" using False Cons.prems(1) by auto
      ultimately have "k = 0" using Cons.prems(3) False rune_continues [OF rune(1), of k] by auto
      then show ?thesis by (simp add: ValidString_ascii)
    qed
  qed
qed

lemma cut_back_le: "cut_back name k \<le> k"
  by (induction k) auto

lemma cut_back_start: "cut_back name k = 0 \<or> RuneStart (name ! cut_back name k)"
  by (induction k) auto

lemma length_hex [simp]: "length (EncodeToString s) = 2 * length s"
  by (induction s) (simp_all add: EncodeToString_def hex_byte_def)

lemma hex_digits: "n < 16 \<Longrightarrow> of_char (hex_digit hex_lower n) < (128 :: nat) \<and> hex_digit hex_lower n \<noteq> CHR 0x00"
  by (simp add: hex_digit_def hex_lower_def nth_Cons')

lemma hex_ascii: "c \<in> set (EncodeToString s) \<Longrightarrow> of_char c < (128 :: nat) \<and> c \<noteq> CHR 0x00"
proof -
  have "of_char b div 16 < (16 :: nat)" for b :: char
    using of_char_bounds [of b] by (simp add: less_mult_imp_div_less)
  then show "c \<in> set (EncodeToString s) \<Longrightarrow> of_char c < (128 :: nat) \<and> c \<noteq> CHR 0x00"
    using hex_digits by (auto simp: EncodeToString_def hex_byte_def)
qed

section \<open>Stored names\<close>

lemma stored_suffix:
  assumes "length (sha x) = 32"
  shows "length (summaryDigestMark @ EncodeToString (sha x)) = 75"
    and "IsSafeText (summaryDigestMark @ EncodeToString (sha x))"
  using assms hex_ascii [of _ "sha x"]
  by (auto simp: summaryDigestMark_def IsSafeText_def intro!: ValidString_ascii)

lemma long_name:
  assumes "length (SafeText name) > MaxSummaryNameBytes" and "\<And>x. length (sha x) = 32"
  obtains k where "SummaryName sha name = take k (SafeText name) @ summaryDigestMark @ EncodeToString (sha (SafeText name))"
    and "k \<le> 949" and "ValidString (take k (SafeText name))"
proof
  let ?k = "cut_back (SafeText name) 949"
  show "SummaryName sha name = take ?k (SafeText name) @ summaryDigestMark @ EncodeToString (sha (SafeText name))"
    using assms(1) stored_suffix(1) [of sha "SafeText name"] assms(2)
    by (simp add: SummaryName_def Let_def MaxSummaryNameBytes_def del: length_append)
  show "?k \<le> 949" by (rule cut_back_le)
  show "ValidString (take ?k (SafeText name))"
    using ValidString_take [of "SafeText name" ?k] cut_back_start IsSafeText_SafeText
    by (auto simp: IsSafeText_def)
qed

text \<open>C20. A host or a task is stored under a name every backend takes and every lookup finds. With a digest
  of 32 bytes, the stored name is at most 1024 bytes of valid text without a NUL, a name already within
  the bound is only made safe, passing a stored name through again changes nothing, so what a view
  displays finds the same rows, and two long names share a stored name only if their digests collide.\<close>

theorem stored_names_are_found:
  assumes "\<And>x. length (sha x) = 32"
  shows "length (SummaryName sha name) \<le> MaxSummaryNameBytes \<and> IsSafeText (SummaryName sha name) \<and>
    SummaryName sha (SummaryName sha name) = SummaryName sha name \<and>
    (length (SafeText name) \<le> MaxSummaryNameBytes \<longrightarrow> SummaryName sha name = SafeText name) \<and>
    (length (SafeText name) > MaxSummaryNameBytes \<and> length (SafeText other) > MaxSummaryNameBytes \<and>
      SummaryName sha name = SummaryName sha other \<longrightarrow> sha (SafeText name) = sha (SafeText other))"
proof -
  have short: "SummaryName sha n = SafeText n" if "length (SafeText n) \<le> MaxSummaryNameBytes" for n
    using that by (simp add: SummaryName_def)
  have ok: "length (SummaryName sha name) \<le> MaxSummaryNameBytes \<and> IsSafeText (SummaryName sha name)"
  proof (cases "length (SafeText name) \<le> MaxSummaryNameBytes")
    case True
    then show ?thesis by (simp add: short)
  next
    case False
    then obtain k where k: "SummaryName sha name = take k (SafeText name) @ summaryDigestMark @ EncodeToString (sha (SafeText name))"
      "k \<le> 949" "ValidString (take k (SafeText name))" using long_name [of name sha] assms by (metis not_le)
    have "CHR 0x00 \<notin> set (take k (SafeText name))"
      using IsSafeText_SafeText [of name] by (auto simp: IsSafeText_def dest: in_set_takeD)
    then show ?thesis
      using k stored_suffix [of sha "SafeText name"] assms
      by (auto simp: IsSafeText_def MaxSummaryNameBytes_def intro!: ValidString_append)
  qed
  moreover have "sha (SafeText name) = sha (SafeText other)"
    if "length (SafeText name) > MaxSummaryNameBytes" "length (SafeText other) > MaxSummaryNameBytes"
      "SummaryName sha name = SummaryName sha other"
  proof -
    note long = that
    obtain j where j: "SummaryName sha name = take j (SafeText name) @ summaryDigestMark @ EncodeToString (sha (SafeText name))"
      using long_name [OF long(1), of sha] assms by metis
    obtain k where k: "SummaryName sha other = take k (SafeText other) @ summaryDigestMark @ EncodeToString (sha (SafeText other))"
      using long_name [OF long(2), of sha] assms by metis
    have "EncodeToString (sha (SafeText name)) = drop (length (SummaryName sha name) - 64) (SummaryName sha name)"
      using assms by (simp add: j)
    moreover have "EncodeToString (sha (SafeText other)) = drop (length (SummaryName sha other) - 64) (SummaryName sha other)"
      using assms by (simp add: k)
    ultimately show ?thesis using long(3) EncodeToString_inj by simp
  qed
  ultimately show ?thesis by (simp add: short)
qed

theorem stored_names_are_found_witness:
  "SummaryName (\<lambda>_. replicate 32 (CHR ''x'')) (SummaryName (\<lambda>_. replicate 32 (CHR ''x'')) (replicate 2000 (CHR ''a''))) =
     SummaryName (\<lambda>_. replicate 32 (CHR ''x'')) (replicate 2000 (CHR ''a'')) \<and>
   length (SummaryName (\<lambda>_. replicate 32 (CHR ''x'')) (replicate 2000 (CHR ''a''))) \<le> 1024"
  using stored_names_are_found [of "\<lambda>_. replicate 32 (CHR ''x'')" "replicate 2000 (CHR ''a'')"]
  by (simp add: MaxSummaryNameBytes_def)

end
