(* ===== verification/Fleet_Trim.thy ===== *)
theory Fleet_Trim
  imports Fleet
begin

text \<open>
  Trimming the history of summaries. The lemmas of \<open>slice_order\<close> say for any order newest first that a
  trim to \<open>keep\<close> entries per key changes no view of at most \<open>keep\<close>; the two interpretations are the orders
  of the store, and the theorem is what the store promises of the trim.
\<close>

section \<open>References\<close>

lemma distinct_refs: "distinct ord \<Longrightarrow> distinct (refs_of ord byRun)"
  by (induction ord) (auto simp: refs_of_def distinct_map inj_on_def)

lemma set_refs: "set (refs_of ord byRun) = {(i, k). i \<in> set ord \<and> k < length (entries byRun i)}"
  by (auto simp: refs_of_def)

lemma entries_of_refs: "map (entry_at byRun) (refs_of ord byRun) = all_entries ord byRun"
  by (induction ord) (auto simp: refs_of_def all_entries_def entry_at_def comp_def map_nth)

lemma mset_all_entries: "distinct ord \<Longrightarrow> mset (all_entries ord m) = (\<Sum>i\<in>set ord. mset (entries m i))"
  by (induction ord) (auto simp: all_entries_def)

lemma all_entries_any_order:
  assumes "iterates ord m" and "iterates ord' m'" and "dom m' \<subseteq> dom m"
  shows "mset (all_entries ord' m') = mset (all_entries ord m')"
proof -
  have "mset (all_entries ord' m') = (\<Sum>i\<in>dom m'. mset (entries m' i))"
    using assms(2) by (simp add: mset_all_entries iterates_def)
  also have "\<dots> = (\<Sum>i\<in>dom m. mset (entries m' i))"
    using assms by (intro sum.mono_neutral_left) (auto simp: entries_def iterates_def [symmetric] split: option.splits,
        metis List.finite_set iterates_def)
  also have "\<dots> = mset (all_entries ord m')"
    using assms(1) by (simp add: mset_all_entries iterates_def)
  finally show ?thesis .
qed

lemma trim_dom: "dom (snd (trimNewestPerKey ord keep key newer held byRun)) \<subseteq> dom byRun"
  by (auto simp: trimNewestPerKey_def Let_def split: option.splits)

lemma kept_all: "\<not> list_ex (\<lambda>ref. fst ref = i) gone \<Longrightarrow> kept_entries gone i l = l"
  unfolding kept_entries_def by (subst filter_True) (auto simp: list_ex_iff map_nth)

lemma entries_trim:
  "entries (snd (trimNewestPerKey ord keep key newer held byRun)) i =
     kept_entries (dropped ord keep key newer held byRun) i (entries byRun i)"
  by (auto simp: trimNewestPerKey_def Let_def entries_def kept_all split: option.splits)
    (simp add: kept_entries_def)

lemma all_entries_trim:
  "all_entries ord (snd (trimNewestPerKey ord' keep key newer held byRun)) =
     map (entry_at byRun) (filter (\<lambda>ref. ref \<notin> set (dropped ord' keep key newer held byRun)) (refs_of ord byRun))"
  unfolding all_entries_def entries_trim refs_of_def
  by (induction ord) (auto simp: kept_entries_def entry_at_def filter_map comp_def)

section \<open>Views after a trim\<close>

lemma dropped_group:
  assumes "ref \<in> set (dropped ord keep key newer held byRun)" and "k = key (entry_at byRun ref)"
  shows "ref \<in> set (drop keep (sortSlice (\<lambda>a b. newer (entry_at byRun a) (entry_at byRun b)) (group_refs ord key byRun k)))"
proof -
  obtain k' where "ref \<in> set (dropped_of ord keep key newer held byRun k')"
    using assms(1) by (auto simp: dropped_def)
  then have d: "ref \<in> set (drop keep (sortSlice (\<lambda>a b. newer (entry_at byRun a) (entry_at byRun b))
      (group_refs ord key byRun k')))"
    by (auto simp: dropped_of_def Let_def split: if_splits)
  then have "ref \<in> set (group_refs ord key byRun k')" by (metis in_set_dropD set_sortSlice)
  then show ?thesis using d assms(2) by (auto simp: group_refs_def)
qed

lemma take_take_append: "w \<le> n \<Longrightarrow> take w (take n xs @ filter P (drop n xs)) = take w xs"
  by (cases "length xs \<le> n") auto

context slice_order
begin

lemma newest_survive:
  fixes byRun :: "string \<rightharpoonup> 'a list" and key :: "'a \<Rightarrow> string"
  assumes "distinct ord"
  defines "S k \<equiv> sortSlice (\<lambda>a b. lt (entry_at byRun a) (entry_at byRun b)) (group_refs ord key byRun k)"
  shows "filter (\<lambda>ref. ref \<notin> set (dropped ord keep key lt held byRun)) (S k) =
    take keep (S k) @ filter (\<lambda>ref. ref \<notin> set (dropped ord keep key lt held byRun)) (drop keep (S k))"
proof -
  have "distinct (S k)" using distinct_refs [OF assms(1), of byRun] by (simp add: S_def group_refs_def)
  then have "distinct (take keep (S k) @ drop keep (S k))" by (simp only: append_take_drop_id)
  then have apart: "set (take keep (S k)) \<inter> set (drop keep (S k)) = {}" by (simp only: distinct_append)
  have "ref \<notin> set (dropped ord keep key lt held byRun)" if "ref \<in> set (take keep (S k))" for ref
  proof
    assume "ref \<in> set (dropped ord keep key lt held byRun)"
    moreover have "key (entry_at byRun ref) = k"
      using in_set_takeD [OF that] by (auto simp: S_def group_refs_def)
    ultimately have "ref \<in> set (drop keep (S k))" using dropped_group [of ref ord keep key lt held byRun k] by (simp add: S_def)
    then show False using that apart by blast
  qed
  then have "filter (\<lambda>ref. ref \<notin> set (dropped ord keep key lt held byRun)) (take keep (S k)) = take keep (S k)"
    by (simp add: filter_id_conv)
  then show ?thesis by (metis append_take_drop_id filter_append)
qed

lemma group_view:
  "sortSlice lt (filter (\<lambda>x. key x = k) (all_entries ord byRun)) =
     map (entry_at byRun) (sortSlice (\<lambda>a b. lt (entry_at byRun a) (entry_at byRun b)) (group_refs ord key byRun k))"
  by (simp add: map_sortSlice group_refs_def filter_map comp_def flip: entries_of_refs)

lemma trimmed_group:
  assumes "iterates ord byRun" and "tells_apart {x \<in> set (all_entries ord byRun). key x = k}"
    and "iterates ord' (snd (trimNewestPerKey ord keep key lt held byRun))"
  shows "sortSlice lt (filter (\<lambda>x. key x = k) (all_entries ord' (snd (trimNewestPerKey ord keep key lt held byRun)))) =
    map (entry_at byRun) (filter (\<lambda>ref. ref \<notin> set (dropped ord keep key lt held byRun))
      (sortSlice (\<lambda>a b. lt (entry_at byRun a) (entry_at byRun b)) (group_refs ord key byRun k)))"
    (is "sortSlice lt ?xs = map ?e (filter ?P ?S)")
proof (rule sortSlice_eqI)
  have "in_order (map ?e ?S)" by (metis group_view in_order_sortSlice)
  then show "in_order (map ?e (filter ?P ?S))" by (simp add: in_order_def sorted_wrt_map sorted_wrt_filter)
  have "filter (\<lambda>x. key x = k) (all_entries ord (snd (trimNewestPerKey ord keep key lt held byRun))) =
      map ?e (filter ?P (group_refs ord key byRun k))"
    by (simp add: all_entries_trim group_refs_def filter_map comp_def conj_commute)
  moreover have "mset ?xs = filter_mset (\<lambda>x. key x = k) (mset (all_entries ord (snd (trimNewestPerKey ord keep key lt held byRun))))"
    using all_entries_any_order [OF assms(1,3) trim_dom] by simp
  ultimately have "mset ?xs = mset (map ?e (filter ?P (group_refs ord key byRun k)))" by (metis mset_filter)
  also have "\<dots> = mset (map ?e (filter ?P ?S))" by (simp only: mset_map mset_filter mset_sortSlice)
  finally show "mset ?xs = mset (map ?e (filter ?P ?S))" .
  have "set (map ?e (filter ?P ?S)) \<subseteq> {x \<in> set (all_entries ord byRun). key x = k}"
    by (auto simp: group_refs_def simp flip: entries_of_refs)
  then show "tells_apart (set (map ?e (filter ?P ?S)))" using assms(2) unfolding tells_apart_def by blast
qed

lemma trim_keeps_window:
  assumes "iterates ord byRun" and "tells_apart {x \<in> set (all_entries ord byRun). key x = k}"
    and "iterates ord' (snd (trimNewestPerKey ord keep key lt held byRun))" and "w \<le> keep"
  shows "take w (sortSlice lt (filter (\<lambda>x. key x = k) (all_entries ord' (snd (trimNewestPerKey ord keep key lt held byRun))))) =
    take w (sortSlice lt (filter (\<lambda>x. key x = k) (all_entries ord byRun)))"
proof -
  have "distinct ord" using assms(1) by (simp add: iterates_def)
  from newest_survive [OF this, where byRun = byRun and key = key and keep = keep and held = held and k = k]
  show ?thesis
    unfolding trimmed_group [OF assms(1-3)] group_view [of key k ord byRun] take_map
    by (simp only: take_take_append [OF assms(4)])
qed

lemma trim_keeps_keys:
  assumes "iterates ord byRun" and "\<And>k. tells_apart {x \<in> set (all_entries ord byRun). key x = k}"
    and "iterates ord' (snd (trimNewestPerKey ord keep key lt held byRun))" and "1 \<le> keep"
  shows "key ` set (all_entries ord' (snd (trimNewestPerKey ord keep key lt held byRun))) = key ` set (all_entries ord byRun)"
proof -
  have mem: "k \<in> key ` set xs \<longleftrightarrow> take 1 (sortSlice lt (filter (\<lambda>x. key x = k) xs)) \<noteq> []" for k xs
  proof -
    have "take 1 (sortSlice lt (filter (\<lambda>x. key x = k) xs)) = [] \<longleftrightarrow> sortSlice lt (filter (\<lambda>x. key x = k) xs) = []"
      by (cases "sortSlice lt (filter (\<lambda>x. key x = k) xs)") auto
    also have "\<dots> \<longleftrightarrow> filter (\<lambda>x. key x = k) xs = []" by (metis length_0_conv length_sortSlice)
    finally show ?thesis by (auto simp: filter_empty_conv)
  qed
  show ?thesis by (rule set_eqI) (simp only: mem trim_keeps_window [OF assms])
qed

lemma trim_keeps_recent:
  assumes "iterates ord byRun" and "\<And>k. tells_apart {x \<in> set (all_entries ord byRun). key x = k}"
    and "iterates ord' (snd (trimNewestPerKey ord keep key lt held byRun))" and "1 \<le> keep" and "w \<le> keep"
  shows "mset (recent_by key lt w (all_entries ord' (snd (trimNewestPerKey ord keep key lt held byRun)))) =
    mset (recent_by key lt w (all_entries ord byRun))"
proof -
  have "mset (remdups (map key (all_entries ord' (snd (trimNewestPerKey ord keep key lt held byRun))))) =
      mset (remdups (map key (all_entries ord byRun)))"
    using trim_keeps_keys [OF assms(1-4)] by (simp flip: set_eq_iff_mset_remdups_eq)
  then show ?thesis unfolding recent_by_def mset_map
    by (simp add: trim_keeps_window [OF assms(1,2,3,5)])
qed

end

end
