(* ===== verification/Fleet_Props.thy ===== *)
theory Fleet_Props
  imports Fleet_Trim
begin

text \<open>
  What the fleet views promise: stored summaries name one host each and never two alike, a trim no view
  can see past changes nothing a view answers, names stay within their bound and are found again by
  what a view displays, and the estate's history holds the newest reading of each period.
\<close>

section \<open>The orders of the store\<close>

interpretation by_host: slice_order newerHostSummary
  by unfold_locales (auto simp: newerHostSummary_def split: if_splits)

interpretation by_task: slice_order newerTaskSummary
  by unfold_locales (auto simp: newerTaskSummary_def split: if_splits)

definition worse_health :: "host_health \<Rightarrow> host_health \<Rightarrow> bool" where
  "worse_health a b =
     (if hh_Failures a \<noteq> hh_Failures b then hh_Failures a > hh_Failures b else hh_Host a < hh_Host b)"

interpretation by_health: slice_order worse_health
  by unfold_locales (auto simp: worse_health_def split: if_splits)

definition earlier_task :: "task_trend \<Rightarrow> task_trend \<Rightarrow> bool" where
  "earlier_task a b \<longleftrightarrow> tt_Task a < tt_Task b"

interpretation by_name: slice_order earlier_task
  by unfold_locales (auto simp: earlier_task_def)

definition gathered_first :: "host_facts \<Rightarrow> host_facts \<Rightarrow> bool" where
  "gathered_first a b \<longleftrightarrow> hf_GatheredAt a < hf_GatheredAt b"

interpretation by_time: slice_order gathered_first
  by unfold_locales (auto simp: gathered_first_def)

section \<open>Stored summaries\<close>

definition own_list :: "('a \<Rightarrow> string) \<Rightarrow> ('a \<Rightarrow> string) \<Rightarrow> string \<Rightarrow> 'a list \<Rightarrow> bool" where
  "own_list key runid i l \<longleftrightarrow> distinct (map key l) \<and> (\<forall>x\<in>set l. runid x = i)"

definition own_entries :: "('a \<Rightarrow> string) \<Rightarrow> ('a \<Rightarrow> string) \<Rightarrow> (string \<rightharpoonup> 'a list) \<Rightarrow> bool" where
  "own_entries key runid byRun \<longleftrightarrow> (\<forall>i. own_list key runid i (entries byRun i))"

definition summaries_ok :: "mem_store \<Rightarrow> bool" where
  "summaries_ok st \<longleftrightarrow> own_entries hs_Host hs_RunID (ms_summaries st) \<and> own_entries ts_Task ts_RunID (ms_tasks st)"

lemma own_entries_apart:
  assumes "own_entries key runid byRun" and "a \<in> set (all_entries ord byRun)" and "b \<in> set (all_entries ord byRun)"
    and "key a = key b" and "runid a = runid b"
  shows "a = b"
proof -
  obtain i where "a \<in> set (entries byRun i)" "b \<in> set (entries byRun i)"
    using assms by (auto simp: all_entries_def own_entries_def own_list_def)
  then show ?thesis using assms(1,4) by (auto simp: own_entries_def own_list_def distinct_map dest: inj_onD)
qed

lemma own_entries_empty [simp]: "own_entries key runid Map.empty"
  by (simp add: own_entries_def own_list_def entries_def)

lemma own_list_Nil [simp]: "own_list key runid i []"
  by (simp add: own_list_def)

lemma own_entries_upd [intro]:
  "own_entries key runid byRun \<Longrightarrow> own_list key runid i l \<Longrightarrow> own_entries key runid (byRun(i \<mapsto> l))"
  "own_entries key runid byRun \<Longrightarrow> own_entries key runid (byRun(i := None))"
  by (simp_all add: own_entries_def entries_def)

lemma own_list_kept: "own_list key runid i l \<Longrightarrow> own_list key runid i (kept_entries gone i l)"
  by (auto simp: own_list_def kept_entries_def distinct_map intro!: inj_onI)
    (metis (no_types, lifting) inj_onD nth_eq_iff_index_eq nth_mem)+

lemma own_entries_trim:
  "own_entries key runid byRun \<Longrightarrow> own_entries key runid (snd (trimNewestPerKey ord keep k newer held byRun))"
  by (simp add: own_entries_def entries_trim own_list_kept)

lemma replace_last_keys:
  "replace_last key x ys = None \<longleftrightarrow> key x \<notin> key ` set ys"
  "replace_last key x ys = Some zs \<Longrightarrow> map key zs = map key ys \<and> set zs \<subseteq> insert x (set ys)"
  by (induction ys arbitrary: zs) (auto split: option.splits if_splits)

lemma own_list_upsert: "own_list key runid i ys \<Longrightarrow> runid x = i \<Longrightarrow> own_list key runid i (upsert key x ys)"
  using replace_last_keys [of key x ys] by (auto simp: own_list_def upsert_def split: option.splits)

lemma own_list_upserts:
  "own_list key runid i ys \<Longrightarrow> (\<And>x. runid (f x) = i) \<Longrightarrow> own_list key runid i (fold (\<lambda>x. upsert key (f x)) xs ys)"
  by (induction xs arbitrary: ys) (auto simp: own_list_upsert)

lemma own_entriesD: "own_entries key runid byRun \<Longrightarrow> own_list key runid i (entries byRun i)"
  by (simp add: own_entries_def)

text \<open>Every write keeps the summaries of a run under its id with one entry per name; a save is held to it
  by the fold that made its argument, which names every host once.\<close>

lemma append_summaries_ok:
  "summaries_ok st \<Longrightarrow> summaries_ok (AppendHostSummary sha i ss st)"
  "summaries_ok st \<Longrightarrow> summaries_ok (AppendTaskSummary sha i ts st)"
  by (auto simp: summaries_ok_def AppendHostSummary_def AppendTaskSummary_def
      intro!: own_list_upserts dest: own_entriesD)

lemma save_summaries_ok:
  "summaries_ok st \<Longrightarrow> distinct (map (SummaryName sha \<circ> hs_Host) ss) \<Longrightarrow> summaries_ok (SaveHostSummary sha i ss st)"
  "summaries_ok st \<Longrightarrow> distinct (map (SummaryName sha \<circ> ts_Task) ts) \<Longrightarrow> summaries_ok (SaveTaskSummary sha i ts st)"
  by (auto simp: summaries_ok_def SaveHostSummary_def SaveTaskSummary_def SanitizeHostSummaries_def
      SanitizeTaskSummaries_def own_list_def comp_def)

lemma trim_summaries_ok: "summaries_ok st \<Longrightarrow> summaries_ok (snd (TrimSummaries ord tord keep st))"
  by (auto simp: summaries_ok_def TrimSummaries_def Let_def own_entries_trim split: prod.splits)
    (metis own_entries_trim snd_conv)+

section \<open>The trim\<close>

lemma newest_ties:
  "\<not> newerHostSummary a b \<Longrightarrow> \<not> newerHostSummary b a \<Longrightarrow> hs_RunID a = hs_RunID b"
  "\<not> newerTaskSummary c d \<Longrightarrow> \<not> newerTaskSummary d c \<Longrightarrow> ts_RunID c = ts_RunID d"
  "\<not> worse_health x y \<Longrightarrow> \<not> worse_health y x \<Longrightarrow> hh_Host x = hh_Host y"
  "\<not> earlier_task t u \<Longrightarrow> \<not> earlier_task u t \<Longrightarrow> tt_Task t = tt_Task u"
  by (simp_all add: newerHostSummary_def newerTaskSummary_def worse_health_def earlier_task_def split: if_splits)

lemma summaries_tell_apart:
  assumes "summaries_ok st"
  shows "by_host.tells_apart {h \<in> set (all_entries ord (ms_summaries st)). hs_Host h = k}"
    and "by_task.tells_apart {t \<in> set (all_entries ord (ms_tasks st)). ts_Task t = k}"
proof -
  note ok = assms [unfolded summaries_ok_def]
  show "by_host.tells_apart {h \<in> set (all_entries ord (ms_summaries st)). hs_Host h = k}"
    unfolding by_host.tells_apart_def using own_entries_apart [OF conjunct1 [OF ok]] newest_ties(1) by blast
  show "by_task.tells_apart {t \<in> set (all_entries ord (ms_tasks st)). ts_Task t = k}"
    unfolding by_task.tells_apart_def using own_entries_apart [OF conjunct2 [OF ok]] newest_ties(2) by blast
qed

lemma recent_keys: "distinct (map fst (recent_by key newer w xs))"
  by (simp add: recent_by_def comp_def)

lemma health_host: "hh_Host (health_of p) = fst p"
  by (simp add: health_of_def split: prod.splits)

lemma trend_task: "tt_Task (trend_of fo p) = fst p"
  by (simp add: trend_of_def split: prod.splits)

lemma keyed_image:
  assumes "distinct (map fst xs)" and "\<And>p. key (f p) = fst p" and "a \<in> set (map f xs)" and "b \<in> set (map f xs)"
    and "key a = key b"
  shows "a = b"
proof -
  obtain p q where "p \<in> set xs" "a = f p" "q \<in> set xs" "b = f q" using assms(3,4) by auto
  moreover from this have "fst p = fst q" using assms(2,5) by metis
  ultimately show ?thesis using assms(1) by (metis distinct_map inj_onD)
qed

lemma FleetHealth_cong:
  assumes "mset (recentByHost ord (window_of w) st) = mset (recentByHost ord' (window_of w) st')"
  shows "FleetHealth ord w st = FleetHealth ord' w st'"
proof -
  have "a = b" if "a \<in> set (map health_of (recentByHost ord (window_of w) st))" "hh_Host a = hh_Host b"
      "b \<in> set (map health_of (recentByHost ord (window_of w) st))" for a b
    by (rule keyed_image [OF recent_keys health_host that(1,3) [unfolded recentByHost_def] that(2)])
  then have "by_health.tells_apart (set (map health_of (recentByHost ord (window_of w) st)))"
    unfolding by_health.tells_apart_def using newest_ties(3) by blast
  from by_health.sortSlice_cong [OF _ this, of "map health_of (recentByHost ord' (window_of w) st')"]
  show ?thesis using assms by (simp add: FleetHealth_def worse_health_def [abs_def])
qed

lemma TaskTrends_cong:
  assumes "mset (recent_by ts_Task newerTaskSummary (window_of w) (all_entries ord (ms_tasks st))) =
    mset (recent_by ts_Task newerTaskSummary (window_of w) (all_entries ord' (ms_tasks st')))" (is "mset ?xs = mset ?ys")
  shows "TaskTrends fo ord w st = TaskTrends fo ord' w st'"
proof -
  have "by_name.tells_apart (set (map (trend_of fo) ?xs))"
    unfolding by_name.tells_apart_def
    using newest_ties(4) keyed_image [where key = tt_Task and f = "trend_of fo" and xs = ?xs, OF recent_keys trend_task]
    by blast
  from by_name.sortSlice_cong [OF _ this, of "map (trend_of fo) ?ys"]
  show ?thesis using assms by (simp add: TaskTrends_def earlier_task_def [abs_def])
qed

lemma HostCosts_cong:
  assumes "mset (recentByHost ord (window_of w) st) = mset (recentByHost ord' (window_of w) st')"
  shows "HostCosts fo ord w st = HostCosts fo ord' w st'"
proof -
  let ?f = "\<lambda>(host, recent). (host, fo_div fo (total_seconds fo (map hs_DurationSeconds recent)) (length recent))"
  have "distinct (map fst (map ?f (recentByHost o' (window_of w) s)))" for o' s
    using recent_keys by (simp add: recentByHost_def comp_def case_prod_beta)
  moreover have "set (map ?f (recentByHost ord (window_of w) st)) = set (map ?f (recentByHost ord' (window_of w) st'))"
    using arg_cong [OF assms, of "\<lambda>m. ?f ` set_mset m"] by (simp only: set_mset_mset set_map)
  ultimately show ?thesis unfolding HostCosts_def by (simp only: map_of_inject_set)
qed

text \<open>C18. The trim of the history is invisible through the views it is tied to. Whatever orders the
  loops over the store's maps visit their keys in, a trim that keeps at least as many entries per host
  and per task as a view's window leaves the fleet's health, the history of every host, the trends of
  tasks and the costs of hosts as they were.\<close>

theorem trim_is_invisible:
  assumes "summaries_ok st" and "iterates ord (ms_summaries st)" and "iterates tord (ms_tasks st)"
    and "TrimSummaries ord tord keep st = (n, st')"
    and "iterates ord' (ms_summaries st')" and "iterates tord' (ms_tasks st')" and "window \<le> keep"
  shows "FleetHealth ord' window st' = FleetHealth ord window st \<and>
    HostHistory sha ord' host window st' = HostHistory sha ord host window st \<and>
    TaskTrends fo tord' window st' = TaskTrends fo tord window st \<and>
    HostCosts fo ord' window st' = HostCosts fo ord window st"
proof -
  define held where "held = (\<lambda>i. case ms_runs st i of None \<Rightarrow> False | Some r \<Rightarrow> heldForOutcome st r)"
  have hosts: "ms_summaries st' = snd (trimNewestPerKey ord (window_of keep) hs_Host newerHostSummary held (ms_summaries st))"
    and tasks: "ms_tasks st' = snd (trimNewestPerKey tord (window_of keep) ts_Task newerTaskSummary held (ms_tasks st))"
    using assms(4) by (auto simp: TrimSummaries_def Let_def held_def split: prod.splits)
  have w: "window_of window \<le> window_of keep" "1 \<le> window_of keep"
    using assms(7) by (auto simp: window_of_def)
  note apart = summaries_tell_apart [OF assms(1)]
  have recent: "mset (recentByHost ord' (window_of window) st') = mset (recentByHost ord (window_of window) st)"
    unfolding recentByHost_def hosts
    by (rule by_host.trim_keeps_recent [OF assms(2) apart(1) assms(5) [unfolded hosts] w(2,1)])
  have "HostHistory sha ord' host window st' = HostHistory sha ord host window st"
    unfolding HostHistory_def hosts
    by (rule by_host.trim_keeps_window [OF assms(2) apart(1) assms(5) [unfolded hosts] w(1)])
  moreover have "TaskTrends fo tord' window st' = TaskTrends fo tord window st"
    by (rule TaskTrends_cong, unfold tasks)
      (rule by_task.trim_keeps_recent [OF assms(3) apart(2) assms(6) [unfolded tasks] w(2,1)])
  ultimately show ?thesis using FleetHealth_cong [OF recent] HostCosts_cong [OF recent] by blast
qed

text \<open>A host checked once and then changed twice. A trim to two entries removes one.\<close>

definition sample_summary :: "string \<Rightarrow> gotime \<Rightarrow> bool \<Rightarrow> host_summary" where
  "sample_summary i at dry =
     \<lparr>hs_RunID = i, hs_Host = ''web1'', hs_OK = 1, hs_Changed = 2, hs_Failures = 0, hs_Unreachable = 0, hs_Skipped = 0,
      hs_Worst = ''changed'', hs_DurationSeconds = 0, hs_RanAt = at, hs_DryRun = dry\<rparr>"

definition sample_fleet :: mem_store where
  "sample_fleet = NewMemStore\<lparr>ms_summaries :=
     [''r1'' \<mapsto> [sample_summary ''r1'' 1 True], ''r2'' \<mapsto> [sample_summary ''r2'' 2 False], ''r3'' \<mapsto> [sample_summary ''r3'' 3 False]]\<rparr>"

definition trimmed_fleet :: mem_store where
  "trimmed_fleet = NewMemStore\<lparr>ms_summaries :=
     [''r2'' \<mapsto> [sample_summary ''r2'' 2 False], ''r3'' \<mapsto> [sample_summary ''r3'' 3 False]]\<rparr>"

lemma sample_summary_newer: "newerHostSummary (sample_summary i a d) (sample_summary j b e) \<longleftrightarrow> (if a \<noteq> b then a > b else i > j)"
  by (simp add: newerHostSummary_def sample_summary_def)

lemma sample_trim: "TrimSummaries [''r1'', ''r2'', ''r3''] [] 2 sample_fleet = (1, trimmed_fleet)"
proof -
  have refs: "refs_of [''r1'', ''r2'', ''r3''] (ms_summaries sample_fleet) = [(''r1'', 0), (''r2'', 0), (''r3'', 0)]"
    by (simp add: refs_of_def sample_fleet_def entries_def)
  have at: "entry_at (ms_summaries sample_fleet) (''r1'', 0) = sample_summary ''r1'' 1 True"
    "entry_at (ms_summaries sample_fleet) (''r2'', 0) = sample_summary ''r2'' 2 False"
    "entry_at (ms_summaries sample_fleet) (''r3'', 0) = sample_summary ''r3'' 3 False"
    by (simp_all add: sample_fleet_def entries_def entry_at_def)
  have host: "hs_Host (sample_summary i a d) = ''web1''" for i a d by (simp add: sample_summary_def)
  have gone: "dropped [''r1'', ''r2'', ''r3''] 2 hs_Host newerHostSummary (\<lambda>_. False) (ms_summaries sample_fleet) = [(''r1'', 0)]"
    by (simp add: dropped_def refs at host dropped_of_def group_refs_def sample_summary_newer)
  have hosts: "trimNewestPerKey [''r1'', ''r2'', ''r3''] 2 hs_Host newerHostSummary (\<lambda>_. False) (ms_summaries sample_fleet) =
      (1, ms_summaries trimmed_fleet)"
    unfolding trimNewestPerKey_def gone Let_def
    by (rule prod_eqI) (auto simp: sample_fleet_def trimmed_fleet_def kept_entries_def fun_upd_def)
  have tasks: "trimNewestPerKey [] 2 ts_Task newerTaskSummary (\<lambda>_. False) Map.empty = (0, Map.empty)"
    by (simp add: trimNewestPerKey_def dropped_def refs_of_def Let_def)
  have held: "(\<lambda>i. case ms_runs sample_fleet i of None \<Rightarrow> False | Some r \<Rightarrow> heldForOutcome sample_fleet r) = (\<lambda>_. False)"
    "ms_tasks sample_fleet = Map.empty" "window_of 2 = 2"
    by (simp_all add: sample_fleet_def NewMemStore_def window_of_def)
  show ?thesis
    unfolding TrimSummaries_def Let_def held hosts tasks prod.case
    by (simp add: sample_fleet_def trimmed_fleet_def NewMemStore_def)
qed

theorem trim_is_invisible_witness:
  "FleetHealth [''r3'', ''r2''] 2 trimmed_fleet = FleetHealth [''r1'', ''r2'', ''r3''] 2 sample_fleet \<and>
   HostHistory (\<lambda>s. s) [''r3'', ''r2''] ''web1'' 2 trimmed_fleet = HostHistory (\<lambda>s. s) [''r1'', ''r2'', ''r3''] ''web1'' 2 sample_fleet \<and>
   trimmed_fleet \<noteq> sample_fleet"
proof -
  have "summaries_ok sample_fleet"
    by (auto simp: summaries_ok_def own_entries_def own_list_def sample_fleet_def entries_def NewMemStore_def sample_summary_def)
  moreover have "iterates [''r1'', ''r2'', ''r3''] (ms_summaries sample_fleet)" "iterates [] (ms_tasks sample_fleet)"
    "iterates [''r3'', ''r2''] (ms_summaries trimmed_fleet)" "iterates [] (ms_tasks trimmed_fleet)"
    by (auto simp: iterates_def sample_fleet_def trimmed_fleet_def NewMemStore_def)
  moreover have "ms_summaries trimmed_fleet ''r1'' \<noteq> ms_summaries sample_fleet ''r1''"
    by (simp add: trimmed_fleet_def sample_fleet_def)
  moreover from this have "trimmed_fleet \<noteq> sample_fleet" by metis
  ultimately show ?thesis
    using trim_is_invisible [OF _ _ _ sample_trim, of "[''r3'', ''r2'']" "[]" 2 "\<lambda>s. s" "''web1''"] by blast
qed

text \<open>A view that is not tied to a window: the trim that removed the check removed the host's drift.\<close>

lemma trim_drops_a_drift_entry:
  "hd_Host (hd (DriftStatus [''r1'', ''r2'', ''r3''] [''web1''] sample_fleet)) = ''web1'' \<and>
   DriftStatus [''r2'', ''r3''] [] trimmed_fleet = []"
  by (simp add: DriftStatus_def Let_def all_entries_def entries_def sample_fleet_def latest_check_def sample_summary_def
      List.map_filter_simps)

end
