(* ===== verification/Fleet_Estate.thy ===== *)
theory Fleet_Estate
  imports Fleet_Props
begin

text \<open>
  The estate's history of gathered facts: what every write keeps of it, and what a question about an
  instant answers.
\<close>

section \<open>One host's history\<close>
















section \<open>Saving\<close>








section \<open>An instant\<close>



section \<open>The estate\<close>







end
