(* ===== verification/Decision.thy ===== *)
theory Decision
  imports Audit_Entry GoStrings "HOL-Library.Product_Lexorder" "HOL-Library.List_Lexorder" "HOL-Library.Char_ord"
begin

text \<open>
  What a decision on a held run carries beside its chain entry (\<open>decision/decision.go\<close>,
  \<open>decision/store.go\<close>, \<open>decision/paths.go\<close>): the record, the reason in its canonical form and the
  commitment that hides it, separation of duties as evaluated, the store of records with its redactions,
  and the paths corrections and redactions are recorded at. SHA-256 (\<open>sha\<close>) and the canonical JSON
  serialiser (\<open>ser\<close>) are parameters, and the random value of a commitment is an argument.
\<close>

section \<open>Records\<close>

definition KindDecision :: string where "KindDecision = ''decision''"
definition KindCorrection :: string where "KindCorrection = ''correction''"
definition CategoryPersonalData :: string where "CategoryPersonalData = ''personal_data''"
definition CategorySecret :: string where "CategorySecret = ''secret''"
definition CategoryOther :: string where "CategoryOther = ''other''"
definition SoDSatisfied :: string where "SoDSatisfied = ''satisfied''"
definition SoDNotRequired :: string where "SoDNotRequired = ''not_required''"
definition SoDNotApplicable :: string where "SoDNotApplicable = ''not_applicable''"
definition MaxReasonChars :: nat where "MaxReasonChars = 1000"
definition randomBytes :: nat where "randomBytes = 32"

record comment =
  cm_Forge :: string
  cm_APIURL :: string
  cm_Repository :: string
  cm_PullRequest :: int
  cm_CommentID :: int
  cm_AuthorID :: int
  cm_BodySHA256 :: string
  cm_PlanRunID :: string

record redaction =
  rd_At :: gotime
  rd_Actor :: string
  rd_ActorType :: string
  rd_OnBehalfOf :: string
  rd_Category :: string
  rd_EntryID :: string
  rd_Pending :: bool

record reason =
  rs_Text :: string
  rs_Random :: string
  rs_Commitment :: string
  rs_Masked :: bool
  rs_Redacted :: "redaction option"

record sod =
  sd_Required :: bool
  sd_Requester :: string
  sd_Decider :: string
  sd_Independent :: bool
  sd_Result :: string

record decision_record =
  dr_ID :: string
  dr_Kind :: string
  dr_DecisionID :: string
  dr_RunID :: string
  dr_StepRunID :: string
  dr_Verdict :: string
  dr_At :: gotime
  dr_Actor :: string
  dr_ActorType :: string
  dr_OnBehalfOf :: string
  dr_Reason :: "reason option"
  dr_SeparationOfDuties :: "sod option"
  dr_Comment :: "comment option"

datatype decision_error = ErrRecordNotFound | ErrRecordExists | ErrNoReason | ErrRedacted | ErrCommitment

definition HasReason :: "decision_record \<Rightarrow> bool" where
  "HasReason r \<longleftrightarrow> (case dr_Reason r of None \<Rightarrow> False | Some x \<Rightarrow> rs_Commitment x \<noteq> [])"

definition ValidCategory :: "string \<Rightarrow> bool" where
  "ValidCategory c \<longleftrightarrow> c = CategoryPersonalData \<or> c = CategorySecret \<or> c = CategoryOther"

section \<open>The canonical reason\<close>

fun crlf_to_lf :: "string \<Rightarrow> string" where
  "crlf_to_lf (a # b # s) = (if a = CHR 0x0D \<and> b = CHR 0x0A then CHR 0x0A # crlf_to_lf s else a # crlf_to_lf (b # s))"
| "crlf_to_lf s = s"

definition cr_to_lf :: "string \<Rightarrow> string" where
  "cr_to_lf s = map (\<lambda>c. if c = CHR 0x0D then CHR 0x0A else c) s"

text \<open>\<open>unicode.IsControl\<close> and \<open>bidiControl\<close> on the encoding of a rune.\<close>

definition IsControl :: "string \<Rightarrow> bool" where
  "IsControl r \<longleftrightarrow>
     (case r of
        [a] \<Rightarrow> byte_in 0 31 a \<or> a = CHR 0x7F
      | [a, b] \<Rightarrow> a = CHR 0xC2 \<and> byte_in 128 159 b
      | _ \<Rightarrow> False)"

definition bidiControl :: "string \<Rightarrow> bool" where
  "bidiControl r \<longleftrightarrow>
     (case r of
        [a, b, c] \<Rightarrow> a = CHR 0xE2 \<and> (b = CHR 0x80 \<and> byte_in 170 174 c \<or> b = CHR 0x81 \<and> byte_in 166 169 c)
      | _ \<Rightarrow> False)"

definition kept_rune :: "string \<Rightarrow> bool" where
  "kept_rune r \<longleftrightarrow> r = [CHR 0x0A] \<or> r = [CHR 0x09] \<or> \<not> (IsControl r \<or> bidiControl r)"

definition Canonical :: "string \<Rightarrow> string" where
  "Canonical text = TrimSpace (concat (filter kept_rune (runes (cr_to_lf (crlf_to_lf (ToValidUTF8 text))))))"

definition TooLong :: "string \<Rightarrow> bool" where
  "TooLong text \<longleftrightarrow> length (runes text) > MaxReasonChars"

section \<open>Commitments\<close>

definition is_hex :: "char \<Rightarrow> bool" where
  "is_hex c \<longleftrightarrow> c \<in> set ''0123456789abcdefABCDEF''"

text \<open>The random value decodes as hex to \<open>randomBytes\<close> bytes.\<close>

definition hex_of_bytes :: "nat \<Rightarrow> string \<Rightarrow> bool" where
  "hex_of_bytes n s \<longleftrightarrow> length s = 2 * n \<and> list_all is_hex s"

definition commitment_body :: "string \<Rightarrow> string \<Rightarrow> string \<Rightarrow> json" where
  "commitment_body eventID random text =
     JObj [(''event'', JStr eventID), (''random'', JStr random), (''reason'', JStr text)]"

definition Commitment :: "serializer \<Rightarrow> (string \<Rightarrow> string) \<Rightarrow> string \<Rightarrow> string \<Rightarrow> string \<Rightarrow> decision_error + string" where
  "Commitment ser sha eventID random text =
     (if \<not> hex_of_bytes randomBytes random then Inl ErrCommitment
      else if eventID = [] then Inl ErrCommitment
      else case ser (commitment_body eventID random text) of
        None \<Rightarrow> Inl ErrCommitment
      | Some canonical \<Rightarrow> Inr (''sha256:'' @ EncodeToString (sha canonical)))"

text \<open>\<open>raw\<close> is what \<open>crypto/rand\<close> reads.\<close>

definition Commit :: "serializer \<Rightarrow> (string \<Rightarrow> string) \<Rightarrow> string \<Rightarrow> string \<Rightarrow> string \<Rightarrow> decision_error + string \<times> string" where
  "Commit ser sha raw eventID text =
     (let random = EncodeToString raw in
      map_sum (\<lambda>e. e) (Pair random) (Commitment ser sha eventID random text))"

definition VerifyReason :: "serializer \<Rightarrow> (string \<Rightarrow> string) \<Rightarrow> string \<Rightarrow> string \<Rightarrow> string \<Rightarrow> string \<Rightarrow> bool" where
  "VerifyReason ser sha commitment eventID random text \<longleftrightarrow> Commitment ser sha eventID random text = Inr commitment"

section \<open>Separation of duties\<close>

definition Evaluate :: "bool \<Rightarrow> string \<Rightarrow> string \<Rightarrow> bool \<Rightarrow> bool \<Rightarrow> sod" where
  "Evaluate required requester decider same approve =
     \<lparr>sd_Required = required, sd_Requester = requester, sd_Decider = decider, sd_Independent = (\<not> same),
      sd_Result = (if \<not> approve then SoDNotApplicable else if required then SoDSatisfied else SoDNotRequired)\<rparr>"

section \<open>The store of records\<close>

type_synonym decision_store = "string \<rightharpoonup> decision_record"

definition SaveRecord :: "decision_record \<Rightarrow> decision_store \<Rightarrow> decision_error option \<times> decision_store" where
  "SaveRecord r st = (if st (dr_ID r) \<noteq> None then (Some ErrRecordExists, st) else (None, st(dr_ID r \<mapsto> r)))"

definition GetRecord :: "string \<Rightarrow> decision_store \<Rightarrow> decision_error + decision_record" where
  "GetRecord i st = (case st i of None \<Rightarrow> Inl ErrRecordNotFound | Some r \<Rightarrow> Inr r)"

definition SortRecords :: "decision_record list \<Rightarrow> decision_record list" where
  "SortRecords rs = sort_key (\<lambda>r. (dr_At r, dr_ID r)) rs"

definition RecordsForRun :: "string list \<Rightarrow> string \<Rightarrow> decision_store \<Rightarrow> decision_record list" where
  "RecordsForRun ord runID st = SortRecords (filter (\<lambda>r. dr_RunID r = runID) (List.map_filter st ord))"

definition RedactRecord :: "string \<Rightarrow> redaction \<Rightarrow> decision_store \<Rightarrow> decision_error option \<times> decision_store" where
  "RedactRecord i red st =
     (case st i of
        None \<Rightarrow> (Some ErrRecordNotFound, st)
      | Some r \<Rightarrow>
          if \<not> HasReason r then (Some ErrNoReason, st)
          else (case dr_Reason r of
            None \<Rightarrow> (Some ErrNoReason, st)
          | Some x \<Rightarrow>
              if rs_Redacted x \<noteq> None then (Some ErrRedacted, st)
              else (None, st(i \<mapsto> r\<lparr>dr_Reason := Some (x\<lparr>rs_Text := [], rs_Random := [], rs_Redacted := Some red\<rparr>)\<rparr>))))"

definition FinishRedaction :: "string \<Rightarrow> string \<Rightarrow> decision_store \<Rightarrow> decision_error option \<times> decision_store" where
  "FinishRedaction i entryID st =
     (case st i of
        None \<Rightarrow> (Some ErrRecordNotFound, st)
      | Some r \<Rightarrow>
          (case dr_Reason r of
             None \<Rightarrow> (Some ErrRedacted, st)
           | Some x \<Rightarrow>
               (case rs_Redacted x of
                  None \<Rightarrow> (Some ErrRedacted, st)
                | Some red \<Rightarrow>
                    if \<not> HasReason r \<or> rd_EntryID red \<noteq> entryID then (Some ErrRedacted, st)
                    else (None, st(i \<mapsto> r\<lparr>dr_Reason := Some (x\<lparr>rs_Redacted := Some (red\<lparr>rd_Pending := False\<rparr>)\<rparr>)\<rparr>)))))"

definition redaction_pending :: "decision_record \<Rightarrow> bool" where
  "redaction_pending r \<longleftrightarrow> HasReason r \<and>
     (case dr_Reason r of None \<Rightarrow> False | Some x \<Rightarrow> (case rs_Redacted x of None \<Rightarrow> False | Some red \<Rightarrow> rd_Pending red))"

definition PendingRedactions :: "string list \<Rightarrow> decision_store \<Rightarrow> decision_record list" where
  "PendingRedactions ord st = SortRecords (filter redaction_pending (List.map_filter st ord))"

definition DeleteRecord :: "string \<Rightarrow> decision_store \<Rightarrow> decision_error option \<times> decision_store" where
  "DeleteRecord i st = (if st i = None then (Some ErrRecordNotFound, st) else (None, st(i := None)))"

section \<open>Paths\<close>

definition CorrectionPath :: "string \<Rightarrow> string \<Rightarrow> string \<Rightarrow> string" where
  "CorrectionPath runID decisionID correctionID =
     ''/runs/'' @ runID @ ''/decisions/'' @ decisionID @ ''/corrections/'' @ correctionID"

definition RedactionPath :: "string \<Rightarrow> string \<Rightarrow> string \<Rightarrow> string \<Rightarrow> string" where
  "RedactionPath runID decisionID correctionID category =
     ''/runs/'' @ runID @ ''/decisions/'' @ decisionID @
     (if correctionID \<noteq> [] then ''/corrections/'' @ correctionID else []) @ ''/reason_redacted/'' @ category"

record reason_entry =
  re_RunID :: string
  re_DecisionID :: string
  re_CorrectionID :: string
  re_Redacted :: bool
  re_Category :: string

definition parse_reason_tail :: "reason_entry \<Rightarrow> string list \<Rightarrow> reason_entry option" where
  "parse_reason_tail e0 tail0 =
     (let (e, tail) =
            (case tail0 of
               a # b # rest \<Rightarrow>
                 if a = ''corrections'' \<and> b \<noteq> [] then (e0\<lparr>re_CorrectionID := b\<rparr>, rest) else (e0, tail0)
             | _ \<Rightarrow> (e0, tail0))
      in (case tail of
            [] \<Rightarrow> if re_CorrectionID e \<noteq> [] then Some e else None
          | [a, b] \<Rightarrow> if a = ''reason_redacted'' \<and> ValidCategory b then Some (e\<lparr>re_Redacted := True, re_Category := b\<rparr>) else None
          | _ \<Rightarrow> None))"

definition ParseReasonPath :: "string \<Rightarrow> reason_entry option" where
  "ParseReasonPath path =
     (case CutPrefix path ''/runs/'' of
        None \<Rightarrow> None
      | Some rest \<Rightarrow>
          (case Split rest (CHR ''/'') of
             a # b # c # d # ds \<Rightarrow>
               if a = [] \<or> b \<noteq> ''decisions'' \<or> c = [] then None
               else parse_reason_tail \<lparr>re_RunID = a, re_DecisionID = c, re_CorrectionID = [], re_Redacted = False, re_Category = []\<rparr> (d # ds)
           | _ \<Rightarrow> None))"

end
