(* ===== verification/Decision_Props.thy ===== *)
theory Decision_Props
  imports Decision Audit_Tamper
begin

text \<open>
  The canonical reason is a fixed point, a redaction is permanent, a commitment opens to one reason, and
  the paths of corrections and redactions read back.
\<close>

section \<open>The canonical reason\<close>

lemma ToValidUTF8_id: "ValidString s \<Longrightarrow> ToValidUTF8 s = s"
proof -
  have "to_valid b cs = concat cs" if "\<forall>c\<in>set cs. rune_width c \<noteq> 0" for b cs
    using that by (induction cs arbitrary: b) auto
  then show "ValidString s \<Longrightarrow> ToValidUTF8 s = s" by (simp add: ToValidUTF8_def ValidString_def)
qed

lemma crlf_append: "CHR 0x0D \<notin> set d \<Longrightarrow> crlf_to_lf (d @ s) = d @ crlf_to_lf s"
proof (induction d)
  case (Cons a d)
  then show ?case by (cases "d @ s") auto
qed simp

lemma crlf_id: "CHR 0x0D \<notin> set s \<Longrightarrow> crlf_to_lf s = s"
  using crlf_append [of s "[]"] by simp

lemma cr_id: "CHR 0x0D \<notin> set s \<Longrightarrow> cr_to_lf s = s"
  by (auto simp: cr_to_lf_def intro: map_idI)

lemma cr_gone: "CHR 0x0D \<notin> set (cr_to_lf s)"
  by (auto simp: cr_to_lf_def)

lemma rune_byte: "is_rune d \<Longrightarrow> x \<in> set d \<Longrightarrow> of_char x < (128 :: nat) \<Longrightarrow> d = [x]"
  by (rule is_rune_ascii_mem)

lemma ValidString_crlf:
  assumes "\<forall>d\<in>set ds. is_rune d"
  shows "ValidString (crlf_to_lf (concat ds))"
  using assms
proof (induction ds)
  case (Cons d ds)
  have rest: "ValidString (crlf_to_lf (concat ds))" using Cons by simp
  show ?case
  proof (cases "CHR 0x0D \<in> set d")
    case False
    have "ValidString d" using ValidString_concat [of "[d]"] Cons.prems by simp
    then show ?thesis using rest False by (simp add: crlf_append ValidString_append)
  next
    case True
    then have d: "d = [CHR 0x0D]" using rune_byte [of d "CHR 0x0D"] Cons.prems by simp
    have cr: "ValidString (CHR 0x0D # s)" if "ValidString s" for s
      using that ValidString_append [of "[CHR 0x0D]" s] ValidString_ascii [of "[CHR 0x0D]"] by simp
    have lf: "ValidString (CHR 0x0A # s)" if "ValidString s" for s
      using that ValidString_append [of "[CHR 0x0A]" s] ValidString_ascii [of "[CHR 0x0A]"] by simp
    show ?thesis
    proof (cases "concat ds")
      case Nil
      then have "crlf_to_lf (concat (d # ds)) = [CHR 0x0D]" by (simp add: d del: concat_eq_Nil_conv)
      then show ?thesis by (simp add: ValidString_ascii)
    next
      case (Cons b s)
      show ?thesis
      proof (cases "b = CHR 0x0A")
        case True
        have "crlf_to_lf (CHR 0x0A # s) = CHR 0x0A # crlf_to_lf s"
          using crlf_append [of "[CHR 0x0A]" s] by simp
        then show ?thesis using rest True by (simp add: d Cons)
      next
        case False
        then show ?thesis using cr rest by (simp add: d Cons)
      qed
    qed
  qed
qed (simp add: ValidString_ascii)

lemma ValidString_cr:
  assumes "\<forall>d\<in>set ds. is_rune d"
  shows "ValidString (cr_to_lf (concat ds))"
proof -
  have "ValidString (cr_to_lf d)" if "is_rune d" for d
  proof (cases "CHR 0x0D \<in> set d")
    case True
    then have "d = [CHR 0x0D]" using rune_byte [OF that, of "CHR 0x0D"] by simp
    then show ?thesis by (simp add: cr_to_lf_def ValidString_ascii)
  next
    case False
    then show ?thesis using that ValidString_concat [of "[d]"] by (simp add: cr_id)
  qed
  then have "ValidString (concat (map cr_to_lf ds))" using assms by (intro ValidString_concat_map) auto
  moreover have "cr_to_lf (concat ds) = concat (map cr_to_lf ds)"
    by (induction ds) (simp_all add: cr_to_lf_def)
  ultimately show ?thesis by simp
qed

lemma ValidString_crlf_to_lf: "ValidString s \<Longrightarrow> ValidString (crlf_to_lf s)"
  using ValidString_crlf [of "runes s"] by (simp add: ValidString_runes)

lemma ValidString_cr_to_lf: "ValidString s \<Longrightarrow> ValidString (cr_to_lf s)"
  using ValidString_cr [of "runes s"] by (simp add: ValidString_runes)

lemma TrimSpace_pieces:
  assumes "\<forall>d\<in>set ds. is_rune d"
  obtains es where "TrimSpace (concat ds) = concat es" and "set es \<subseteq> set ds"
proof
  let ?es = "rev (dropWhile IsSpace (rev (dropWhile IsSpace ds)))"
  show "TrimSpace (concat ds) = concat ?es" by (simp add: TrimSpace_def runes_concat [OF assms])
  show "set ?es \<subseteq> set ds" by (auto dest!: set_dropWhileD)
qed

lemma Canonical_stable:
  "Canonical (Canonical text) = Canonical text \<and> ValidString (Canonical text) \<and>
   (\<forall>r\<in>set (runes (Canonical text)). kept_rune r) \<and> TrimSpace (Canonical text) = Canonical text"
proof -
  let ?s = "cr_to_lf (crlf_to_lf (ToValidUTF8 text))"
  have "ValidString ?s"
    by (intro ValidString_cr_to_lf ValidString_crlf_to_lf ValidString_ToValidUTF8)
  then have pieces: "\<forall>d\<in>set (filter kept_rune (runes ?s)). is_rune d \<and> kept_rune d"
    by (simp add: ValidString_runes)
  obtain es where "TrimSpace (concat (filter kept_rune (runes ?s))) = concat es"
    and sub: "set es \<subseteq> set (filter kept_rune (runes ?s))"
    by (rule TrimSpace_pieces [of "filter kept_rune (runes ?s)"]) (use pieces in blast)+
  then have t: "Canonical text = concat es" by (simp only: Canonical_def)
  have es: "\<forall>e\<in>set es. is_rune e" "\<forall>e\<in>set es. kept_rune e" using pieces sub by blast+
  have runes_t: "runes (Canonical text) = es" unfolding t using es(1) by (rule runes_concat)
  have valid: "ValidString (Canonical text)" unfolding t using es(1) by (rule ValidString_concat)
  have no_cr: "CHR 0x0D \<notin> set e" if e: "e \<in> set es" for e
  proof
    assume "CHR 0x0D \<in> set e"
    then have "e = [CHR 0x0D]" using rune_byte [of e "CHR 0x0D"] es(1) e by auto
    moreover have "kept_rune e" using es(2) e by blast
    ultimately show False by (simp add: kept_rune_def IsControl_def byte_in_def)
  qed
  then have "CHR 0x0D \<notin> set (concat es)" by auto
  then have id: "ToValidUTF8 (Canonical text) = Canonical text" "crlf_to_lf (Canonical text) = Canonical text"
    "cr_to_lf (Canonical text) = Canonical text"
    using ToValidUTF8_id [OF valid] by (simp_all add: t crlf_id cr_id)
  have trim: "TrimSpace (Canonical text) = Canonical text" by (simp add: Canonical_def)
  have "filter kept_rune (runes (Canonical text)) = runes (Canonical text)"
    using es(2) by (simp add: runes_t)
  then have stable: "Canonical (Canonical text) = Canonical text"
    using id trim by (simp add: Canonical_def [of "Canonical text"])
  have "\<forall>r\<in>set (runes (Canonical text)). kept_rune r" using es(2) by (simp add: runes_t)
  then show ?thesis using stable valid trim by blast
qed

text \<open>A reason is reduced to a form that stays put: canonicalizing twice is canonicalizing once, so a
  disclosed reason is committed to as it stands. The form is valid UTF-8 with no
  control or direction-override character other than a line feed or a tab, and is trimmed.\<close>

theorem canonical_reason_is_stable:
  "Canonical (Canonical text) = Canonical text \<and> ValidString (Canonical text) \<and>
   (\<forall>r\<in>set (runes (Canonical text)). kept_rune r) \<and> TrimSpace (Canonical text) = Canonical text"
  by (rule Canonical_stable)

theorem canonical_reason_is_stable_witness:
  "Canonical (Canonical ''  ok\<newline>'') = Canonical ''  ok\<newline>'' \<and> Canonical ''  ok\<newline>'' = ''ok''"
proof -
  have "Canonical ''  ok\<newline>'' = ''ok''" by code_simp
  then show ?thesis using canonical_reason_is_stable [of "''  ok\<newline>''"] by blast
qed

section \<open>Commitments\<close>

text \<open>A commitment opens to one event, random value and reason, unless the serialiser maps two bodies to
  one text or the digest of two texts is the same.\<close>

lemma commitment_opens_to_one_reason:
  assumes "VerifyReason ser sha c e r t" and "VerifyReason ser sha c e' r' t'"
  shows "(e, r, t) = (e', r', t') \<or> ser (commitment_body e r t) = ser (commitment_body e' r' t') \<or>
    (\<exists>x y. x \<noteq> y \<and> sha x = sha y)"
proof -
  obtain a b where "ser (commitment_body e r t) = Some a" "ser (commitment_body e' r' t') = Some b" "sha a = sha b"
    using assms EncodeToString_inj by (auto simp: VerifyReason_def Commitment_def split: if_splits option.splits)
  then show ?thesis by (cases "a = b") auto
qed

section \<open>Redaction\<close>

inductive record_step :: "decision_store \<Rightarrow> decision_store \<Rightarrow> bool" where
  step_save: "record_step st (snd (SaveRecord r st))"
| step_redact: "record_step st (snd (RedactRecord i red st))"
| step_finish: "record_step st (snd (FinishRedaction i entryID st))"
| step_delete: "record_step st (snd (DeleteRecord i st))"

text \<open>What a record keeps: everything but its reason's text and random value, which only go.\<close>

definition same_but_redacted :: "decision_record \<Rightarrow> decision_record \<Rightarrow> bool" where
  "same_but_redacted r r' \<longleftrightarrow>
     r'\<lparr>dr_Reason := None\<rparr> = r\<lparr>dr_Reason := None\<rparr> \<and>
     (case (dr_Reason r, dr_Reason r') of
        (None, None) \<Rightarrow> True
      | (Some x, Some y) \<Rightarrow> rs_Commitment y = rs_Commitment x \<and> rs_Masked y = rs_Masked x \<and>
          (rs_Text y = rs_Text x \<and> rs_Random y = rs_Random x \<or> rs_Text y = [] \<and> rs_Random y = []) \<and>
          (case rs_Redacted x of
             None \<Rightarrow> (case rs_Redacted y of None \<Rightarrow> True | Some _ \<Rightarrow> rs_Text y = [] \<and> rs_Random y = [])
           | Some red \<Rightarrow> rs_Text y = rs_Text x \<and> rs_Random y = rs_Random x \<and>
               (\<exists>p. rs_Redacted y = Some (red\<lparr>rd_Pending := p\<rparr>) \<and> (p \<longrightarrow> rd_Pending red)))
      | _ \<Rightarrow> False)"

lemma same_but_redacted_refl: "same_but_redacted r r"
  by (auto simp: same_but_redacted_def split: option.splits intro!: exI [of _ "rd_Pending _"])

text \<open>A record of a decision is written once and its reason only ever goes. Whatever is saved, redacted,
  finished or withdrawn, a record that stays under its id keeps its decider, its verdict and the
  commitment to its reason; its text and random value are kept together or removed together; and once it
  is redacted the cause stands and nothing restores the text.\<close>

theorem redaction_is_permanent:
  assumes "record_step st st'" and "st i = Some r" and "st' i = Some r'"
  shows "same_but_redacted r r'"
  using assms
proof cases
  case (step_save x)
  then have "r' = r" using assms(2,3) by (auto simp: SaveRecord_def split: if_splits)
  then show ?thesis by (simp add: same_but_redacted_refl)
next
  case (step_redact j red)
  then have "r' = r \<or> (\<exists>x. dr_Reason r = Some x \<and> rs_Redacted x = None \<and>
      r' = r\<lparr>dr_Reason := Some (x\<lparr>rs_Text := [], rs_Random := [], rs_Redacted := Some red\<rparr>)\<rparr>)"
    using assms(2,3) by (auto simp: RedactRecord_def split: option.splits if_splits)
  then show ?thesis by (elim disjE exE) (auto simp: same_but_redacted_refl same_but_redacted_def)
next
  case (step_finish j e)
  then have "r' = r \<or> (\<exists>x red. dr_Reason r = Some x \<and> rs_Redacted x = Some red \<and>
      r' = r\<lparr>dr_Reason := Some (x\<lparr>rs_Redacted := Some (red\<lparr>rd_Pending := False\<rparr>)\<rparr>)\<rparr>)"
    using assms(2,3) by (auto simp: FinishRedaction_def split: option.splits if_splits)
  then show ?thesis by (elim disjE exE) (auto simp: same_but_redacted_refl same_but_redacted_def intro: exI [of _ False])
next
  case (step_delete j)
  then have "r' = r" using assms(2,3) by (auto simp: DeleteRecord_def split: if_splits)
  then show ?thesis by (simp add: same_but_redacted_refl)
qed

definition sample_reason_kept :: reason where
  "sample_reason_kept = \<lparr>rs_Text = ''hi'', rs_Random = ''00'', rs_Commitment = ''c'', rs_Masked = False, rs_Redacted = None\<rparr>"

definition sample_record :: decision_record where
  "sample_record = \<lparr>dr_ID = ''d1'', dr_Kind = KindDecision, dr_DecisionID = ''d1'', dr_RunID = ''a'', dr_StepRunID = [],
     dr_Verdict = ''approved'', dr_At = 1, dr_Actor = ''ann'', dr_ActorType = ''session'', dr_OnBehalfOf = [],
     dr_Reason = Some sample_reason_kept, dr_SeparationOfDuties = None, dr_Comment = None\<rparr>"

definition sample_redaction :: redaction where
  "sample_redaction = \<lparr>rd_At = 3, rd_Actor = ''ann'', rd_ActorType = ''session'', rd_OnBehalfOf = [],
     rd_Category = CategorySecret, rd_EntryID = ''e1'', rd_Pending = True\<rparr>"

theorem redaction_is_permanent_witness:
  "\<exists>r'. snd (RedactRecord ''d1'' sample_redaction [''d1'' \<mapsto> sample_record]) ''d1'' = Some r' \<and>
     same_but_redacted sample_record r' \<and> map_option rs_Text (dr_Reason r') = Some []"
proof -
  let ?st = "[''d1'' \<mapsto> sample_record]"
  obtain r' where r': "snd (RedactRecord ''d1'' sample_redaction ?st) ''d1'' = Some r'" "map_option rs_Text (dr_Reason r') = Some []"
    by (simp add: RedactRecord_def HasReason_def sample_record_def sample_reason_kept_def)
  have "?st ''d1'' = Some sample_record" by simp
  from redaction_is_permanent [OF step_redact this r'(1)] r' show ?thesis by blast
qed

section \<open>Paths\<close>

lemma split_on_plain: "c \<notin> set a \<Longrightarrow> split_on c a cur = [cur @ a]"
  by (induction a arbitrary: cur) auto

lemma split_on_append: "c \<notin> set a \<Longrightarrow> split_on c (a @ c # s) cur = (cur @ a) # split_on c s []"
  by (induction a arbitrary: cur) auto

lemma split_on_nonempty: "split_on c s cur \<noteq> []"
  by (induction s arbitrary: cur) auto

lemma Split_plain: "c \<notin> set a \<Longrightarrow> Split a c = [a]"
  by (simp add: Split_def split_on_plain)

lemma Split_append: "c \<notin> set a \<Longrightarrow> Split (a @ c # s) c = a # Split s c"
  by (simp add: Split_def split_on_append)

lemma Split_slash: "c \<notin> set a \<Longrightarrow> Split (c # a @ c # s) c = [] # a # Split s c"
  by (simp add: Split_def split_on_append)

definition plain_id :: "string \<Rightarrow> bool" where
  "plain_id s \<longleftrightarrow> s \<noteq> [] \<and> CHR ''/'' \<notin> set s"

lemma decision_path_parts:
  assumes "plain_id r" and "plain_id d" and "CHR ''/'' \<notin> set a"
  shows "ParseReasonPath (''/runs/'' @ r @ ''/decisions/'' @ d @ CHR ''/'' # a @ tail) =
    parse_reason_tail \<lparr>re_RunID = r, re_DecisionID = d, re_CorrectionID = [], re_Redacted = False, re_Category = []\<rparr>
      (Split (a @ tail) CHR ''/'')"
proof -
  have "Split (r @ CHR ''/'' # ''decisions'' @ CHR ''/'' # d @ CHR ''/'' # a @ tail) CHR ''/'' =
      r # ''decisions'' # d # Split (a @ tail) CHR ''/''"
    using assms by (simp only: plain_id_def Split_append) (simp add: Split_def split_on_append)
  moreover obtain x xs where "Split (a @ tail) CHR ''/'' = x # xs"
    by (cases "Split (a @ tail) CHR ''/''") (auto simp: Split_def split_on_nonempty)
  moreover have "CutPrefix (''/runs/'' @ r @ ''/decisions/'' @ d @ CHR ''/'' # a @ tail) ''/runs/'' =
      Some (r @ CHR ''/'' # ''decisions'' @ CHR ''/'' # d @ CHR ''/'' # a @ tail)"
    using CutPrefix_append [of "''/runs/''" "r @ CHR ''/'' # ''decisions'' @ CHR ''/'' # d @ CHR ''/'' # a @ tail"] by simp
  ultimately show ?thesis using assms(1,2) by (simp only: ParseReasonPath_def) (simp add: plain_id_def)
qed

text \<open>The path of a correction or a redaction says what it is about. For ids and decisions of the form
  the server mints, the path a correction is recorded at reads back to its run, its decision and itself;
  and the path of a redaction to the run, the decision, the correction whose text went when it was one,
  and the category.\<close>

theorem reason_paths_read_back:
  assumes "plain_id r" and "plain_id d" and "plain_id c" and "ValidCategory cat"
  shows "ParseReasonPath (CorrectionPath r d c) =
      Some \<lparr>re_RunID = r, re_DecisionID = d, re_CorrectionID = c, re_Redacted = False, re_Category = []\<rparr> \<and>
    ParseReasonPath (RedactionPath r d [] cat) =
      Some \<lparr>re_RunID = r, re_DecisionID = d, re_CorrectionID = [], re_Redacted = True, re_Category = cat\<rparr> \<and>
    ParseReasonPath (RedactionPath r d c cat) =
      Some \<lparr>re_RunID = r, re_DecisionID = d, re_CorrectionID = c, re_Redacted = True, re_Category = cat\<rparr>"
proof -
  have cat: "CHR ''/'' \<notin> set cat" "cat \<noteq> []"
    using assms(4) by (auto simp: ValidCategory_def CategoryPersonalData_def CategorySecret_def CategoryOther_def)
  have c: "CHR ''/'' \<notin> set c" "c \<noteq> []" using assms(3) by (simp_all add: plain_id_def)
  have s1: "Split (''corrections'' @ CHR ''/'' # c) CHR ''/'' = [''corrections'', c]"
    using c by (simp add: Split_append Split_plain del: append.simps)
  have s2: "Split (''reason_redacted'' @ CHR ''/'' # cat) CHR ''/'' = [''reason_redacted'', cat]"
    using cat by (simp add: Split_append Split_plain del: append.simps)
  have s3: "Split (''corrections'' @ CHR ''/'' # c @ CHR ''/'' # ''reason_redacted'' @ CHR ''/'' # cat) CHR ''/'' =
      [''corrections'', c, ''reason_redacted'', cat]"
    using c cat by (simp add: Split_append Split_plain del: append.simps)
  note p = decision_path_parts [OF assms(1,2)]
  have "ParseReasonPath (CorrectionPath r d c) =
      Some \<lparr>re_RunID = r, re_DecisionID = d, re_CorrectionID = c, re_Redacted = False, re_Category = []\<rparr>"
    using p [of "''corrections''" "CHR ''/'' # c"] s1 c by (simp add: CorrectionPath_def parse_reason_tail_def)
  moreover have "ParseReasonPath (RedactionPath r d [] cat) =
      Some \<lparr>re_RunID = r, re_DecisionID = d, re_CorrectionID = [], re_Redacted = True, re_Category = cat\<rparr>"
    using p [of "''reason_redacted''" "CHR ''/'' # cat"] s2 assms(4) by (simp add: RedactionPath_def parse_reason_tail_def)
  moreover have "ParseReasonPath (RedactionPath r d c cat) =
      Some \<lparr>re_RunID = r, re_DecisionID = d, re_CorrectionID = c, re_Redacted = True, re_Category = cat\<rparr>"
    using p [of "''corrections''" "CHR ''/'' # c @ CHR ''/'' # ''reason_redacted'' @ CHR ''/'' # cat"] s3 assms(4) c
    by (simp add: RedactionPath_def parse_reason_tail_def)
  ultimately show ?thesis by blast
qed

theorem reason_paths_read_back_witness:
  "ParseReasonPath (RedactionPath ''r1'' ''d1'' ''c1'' ''secret'') =
     Some \<lparr>re_RunID = ''r1'', re_DecisionID = ''d1'', re_CorrectionID = ''c1'', re_Redacted = True, re_Category = ''secret''\<rparr>"
proof -
  have "plain_id ''r1''" "plain_id ''d1''" "plain_id ''c1''" "ValidCategory ''secret''"
    by (simp_all add: plain_id_def ValidCategory_def CategorySecret_def)
  then show ?thesis using reason_paths_read_back by blast
qed

end
