(* ===== verification/Decide.thy ===== *)
theory Decide
  imports Decision Policy MemStore Audit_Store
begin

text \<open>
  How a decision on a held run takes effect (\<open>dispatch/decide.go\<close>, the claim seal of
  \<open>binding/seal.go\<close>, \<open>outcome/credit.go\<close>). A decision claims its run in one compare-and-set on the run
  store, then its entry is appended to the chain under the decision's id, then the run is stamped and
  settled; a janitor finishes a claim another process left. \<open>decide_turn\<close> runs one call of a process to a
  store, so processes interleave between the calls, and each call may fail, or land with its answer
  lost. The text of JSON trees (\<open>df_render\<close>, \<open>df_parse\<close>) and the keyed hash (\<open>df_mac\<close>) are parameters.
\<close>

section \<open>Claims\<close>

record decider =
  by_Name :: string
  by_Type :: string
  by_OnBehalfOf :: string
  by_AccountID :: string

record claim_entry =
  ce_ID :: string
  ce_At :: gotime
  ce_Actor :: string
  ce_ActorType :: string
  ce_OnBehalfOf :: string
  ce_Method :: string
  ce_Path :: string
  ce_ContentDigest :: string
  ce_Nonce :: string

record decision_claim =
  dc_ID :: string
  dc_Verdict :: string
  dc_Step :: bool
  dc_Entry :: "claim_entry option"
  dc_Status :: status
  dc_Error :: string
  dc_Finalize :: bool
  dc_Digest :: string
  dc_Binding :: string
  dc_Seal :: string
  dc_ClaimSeal :: string

definition claimEntryOf :: "entry \<Rightarrow> claim_entry" where
  "claimEntryOf e = \<lparr>ce_ID = ae_ID e, ce_At = ae_At e, ce_Actor = ae_Actor e, ce_ActorType = ae_ActorType e,
     ce_OnBehalfOf = ae_OnBehalfOf e, ce_Method = ae_Method e, ce_Path = ae_Path e,
     ce_ContentDigest = ae_ContentDigest e, ce_Nonce = ae_Nonce e\<rparr>"

definition claim_entry_entry :: "claim_entry \<Rightarrow> entry" where
  "claim_entry_entry c = \<lparr>ae_ID = ce_ID c, ae_At = ce_At c, ae_Actor = ce_Actor c, ae_ActorType = ce_ActorType c,
     ae_OnBehalfOf = ce_OnBehalfOf c, ae_Method = ce_Method c, ae_Path = ce_Path c,
     ae_ContentDigest = ce_ContentDigest c, ae_Nonce = ce_Nonce c, ae_InstallID = [], ae_Seq = 0,
     ae_PrevHash = [], ae_Hash = []\<rparr>"

section \<open>The stored form of a claim\<close>

text \<open>What \<open>encoding/json\<close> makes of a claim: an object of the members that are not omitted when empty,
  in field order. Times are leaves.\<close>

datatype claim_value = CvStr string | CvTime gotime | CvBool bool | CvObj "(string \<times> claim_value) list"

definition omit_str :: "string \<Rightarrow> string \<Rightarrow> (string \<times> claim_value) list" where
  "omit_str k v = (if v = [] then [] else [(k, CvStr v)])"

definition omit_bool :: "string \<Rightarrow> bool \<Rightarrow> (string \<times> claim_value) list" where
  "omit_bool k b = (if b then [(k, CvBool True)] else [])"

definition claim_entry_tree :: "claim_entry \<Rightarrow> claim_value" where
  "claim_entry_tree e = CvObj ([(''id'', CvStr (ce_ID e)), (''at'', CvTime (ce_At e)), (''actor'', CvStr (ce_Actor e))] @
     omit_str ''actor_type'' (ce_ActorType e) @ omit_str ''on_behalf_of'' (ce_OnBehalfOf e) @
     [(''method'', CvStr (ce_Method e)), (''path'', CvStr (ce_Path e))] @
     omit_str ''content_digest'' (ce_ContentDigest e) @ omit_str ''nonce'' (ce_Nonce e))"

definition claim_tree :: "decision_claim \<Rightarrow> claim_value" where
  "claim_tree c = CvObj ([(''id'', CvStr (dc_ID c)), (''verdict'', CvStr (dc_Verdict c))] @
     omit_bool ''step'' (dc_Step c) @
     (case dc_Entry c of None \<Rightarrow> [] | Some e \<Rightarrow> [(''entry'', claim_entry_tree e)]) @
     [(''status'', CvStr (status_text (dc_Status c)))] @ omit_str ''error'' (dc_Error c) @
     omit_bool ''finalize'' (dc_Finalize c) @ omit_str ''digest'' (dc_Digest c) @
     omit_str ''binding'' (dc_Binding c) @ omit_str ''seal'' (dc_Seal c) @
     omit_str ''claim_seal'' (dc_ClaimSeal c))"

text \<open>Reading one back: a member that is absent is the zero value, one of another type is an error.\<close>

definition str_member :: "(string \<times> claim_value) list \<Rightarrow> string \<Rightarrow> string option" where
  "str_member ms k = (case map_of ms k of None \<Rightarrow> Some [] | Some (CvStr s) \<Rightarrow> Some s | Some _ \<Rightarrow> None)"

definition bool_member :: "(string \<times> claim_value) list \<Rightarrow> string \<Rightarrow> bool option" where
  "bool_member ms k = (case map_of ms k of None \<Rightarrow> Some False | Some (CvBool b) \<Rightarrow> Some b | Some _ \<Rightarrow> None)"

definition time_member :: "(string \<times> claim_value) list \<Rightarrow> string \<Rightarrow> gotime option" where
  "time_member ms k = (case map_of ms k of None \<Rightarrow> Some zero_time | Some (CvTime t) \<Rightarrow> Some t | Some _ \<Rightarrow> None)"

definition claim_entry_of_tree :: "claim_value \<Rightarrow> claim_entry option" where
  "claim_entry_of_tree v =
     (case v of
        CvObj ms \<Rightarrow>
          (case (str_member ms ''id'', time_member ms ''at'', str_member ms ''actor'', str_member ms ''actor_type'',
                 str_member ms ''on_behalf_of'', str_member ms ''method'', str_member ms ''path'',
                 str_member ms ''content_digest'', str_member ms ''nonce'') of
             (Some i, Some t, Some a, Some aty, Some ob, Some m, Some p, Some d, Some n) \<Rightarrow>
               Some \<lparr>ce_ID = i, ce_At = t, ce_Actor = a, ce_ActorType = aty, ce_OnBehalfOf = ob, ce_Method = m,
                 ce_Path = p, ce_ContentDigest = d, ce_Nonce = n\<rparr>
           | _ \<Rightarrow> None)
      | _ \<Rightarrow> None)"

definition entry_member :: "(string \<times> claim_value) list \<Rightarrow> string \<Rightarrow> claim_entry option option" where
  "entry_member ms k = (case map_of ms k of None \<Rightarrow> Some None | Some v \<Rightarrow> map_option Some (claim_entry_of_tree v))"

definition claim_of_tree :: "claim_value \<Rightarrow> decision_claim option" where
  "claim_of_tree v =
     (case v of
        CvObj ms \<Rightarrow>
          (case (str_member ms ''id'', str_member ms ''verdict'', bool_member ms ''step'', entry_member ms ''entry'',
                 str_member ms ''status'', str_member ms ''error'', bool_member ms ''finalize'',
                 str_member ms ''digest'', str_member ms ''binding'', str_member ms ''seal'',
                 str_member ms ''claim_seal'') of
             (Some i, Some vd, Some sp, Some e, Some s, Some er, Some f, Some d, Some b, Some sl, Some cs) \<Rightarrow>
               Some \<lparr>dc_ID = i, dc_Verdict = vd, dc_Step = sp, dc_Entry = e, dc_Status = status_of_text s,
                 dc_Error = er, dc_Finalize = f, dc_Digest = d, dc_Binding = b, dc_Seal = sl, dc_ClaimSeal = cs\<rparr>
           | _ \<Rightarrow> None)
      | _ \<Rightarrow> None)"

text \<open>\<open>df_mac\<close> is the keyed hash of a dispatcher with a binding key; \<open>df_audits\<close> says whether it keeps a
  chain.\<close>

record decide_cfg =
  df_render :: "claim_value \<Rightarrow> string"
  df_parse :: "string \<Rightarrow> claim_value option"
  df_mac :: "(string \<Rightarrow> string) option"
  df_audits :: bool
  df_ser :: serializer
  df_sha :: "string \<Rightarrow> string"

definition claim_text :: "decide_cfg \<Rightarrow> decision_claim \<Rightarrow> string" where
  "claim_text cfg c = df_render cfg (claim_tree c)"

definition read_claim :: "decide_cfg \<Rightarrow> string \<Rightarrow> decision_claim option" where
  "read_claim cfg s = (case df_parse cfg s of None \<Rightarrow> None | Some v \<Rightarrow> claim_of_tree v)"

section \<open>The seal over a claim\<close>

definition SealPrefix :: string where "SealPrefix = ''bk1:''"
definition KindClaim :: string where "KindClaim = ''claim''"

definition SealClaim :: "decide_cfg \<Rightarrow> (string \<Rightarrow> string) \<Rightarrow> string \<Rightarrow> string \<Rightarrow> string" where
  "SealClaim cfg mac runID claim =
     SealPrefix @ EncodeToString (mac (df_render cfg
       (CvObj [(''kind'', CvStr KindClaim), (''run_id'', CvStr runID), (''claim'', CvStr claim)])))"

definition VerifyClaim :: "decide_cfg \<Rightarrow> (string \<Rightarrow> string) \<Rightarrow> string \<Rightarrow> string \<Rightarrow> string \<Rightarrow> bool" where
  "VerifyClaim cfg mac runID claim stored \<longleftrightarrow> SealClaim cfg mac runID claim = stored"

definition claimBytes :: "decide_cfg \<Rightarrow> decision_claim \<Rightarrow> string option" where
  "claimBytes cfg c = map_option (claim_text cfg) (read_claim cfg (claim_text cfg (c\<lparr>dc_ClaimSeal := []\<rparr>)))"

datatype decide_error =
    RunError run_error | ErrNotPendingApproval | ErrUnrecorded | ErrDrift | ErrUnverified | ErrEncode | ErrNoClaim

definition sealClaim :: "decide_cfg \<Rightarrow> string \<Rightarrow> decision_claim \<Rightarrow> decide_error + decision_claim" where
  "sealClaim cfg target c =
     (case df_mac cfg of
        None \<Rightarrow> Inr c
      | Some mac \<Rightarrow>
          (case claimBytes cfg c of
             None \<Rightarrow> Inl ErrEncode
           | Some raw \<Rightarrow> Inr (c\<lparr>dc_ClaimSeal := SealClaim cfg mac target raw\<rparr>)))"

definition checkClaim :: "decide_cfg \<Rightarrow> string \<Rightarrow> decision_claim \<Rightarrow> decide_error option" where
  "checkClaim cfg i c =
     (case df_mac cfg of
        None \<Rightarrow> None
      | Some mac \<Rightarrow>
          if dc_ClaimSeal c = [] then Some ErrDrift
          else (case claimBytes cfg c of
            None \<Rightarrow> Some ErrUnverified
          | Some raw \<Rightarrow> if \<not> VerifyClaim cfg mac i raw (dc_ClaimSeal c) then Some ErrDrift else None))"

definition claimOf :: "decide_cfg \<Rightarrow> run \<Rightarrow> decide_error + decision_claim" where
  "claimOf cfg r =
     (case read_claim cfg (DecisionClaim r) of
        None \<Rightarrow> Inl ErrNoClaim
      | Some c \<Rightarrow> if dc_ID c = [] \<or> dc_ID c \<noteq> DecisionID r then Inl ErrNoClaim else Inr c)"

section \<open>One call at a time\<close>

record decide_world =
  wd_store :: mem_store
  wd_records :: decision_store
  wd_audit :: audit_store

text \<open>A call works, fails without effect, or lands with its answer lost. A call made under
  \<open>withRetries\<close> fails when the last of its attempts does.\<close>

datatype fault = Works | Fails | Lost

text \<open>Where a process is in \<open>decide\<close> and \<open>finishDecision\<close>. \<open>TDone\<close> carries what \<open>finishDecision\<close> reports:
  whether this process starts what the decision released.\<close>

datatype decide_task =
    TIdle
  | TKeep string "decision_record option" decision_claim
  | TClaim string "decision_record option" decision_claim
  | TReread string "decision_record option" decision_claim
  | TWithdraw string "decision_record option" decision_claim
  | TAppend string decision_claim
  | TStamp string decision_claim
  | TSettle string decision_claim
  | TConfirm string decision_claim
  | TDone string decision_claim bool

definition appended_ok :: "append_result \<Rightarrow> bool" where
  "appended_ok res \<longleftrightarrow> (case res of Appended _ \<Rightarrow> True | Refused e \<Rightarrow> e = ErrDuplicateID | Panicked \<Rightarrow> False)"

definition settle_of :: "string \<Rightarrow> gotime \<Rightarrow> decision_claim \<Rightarrow> decision_settle" where
  "settle_of own now c =
     (let s = \<lparr>dst_Status = dc_Status c, dst_Owner = [], dst_Error = [], dst_EndedAt = zero_time\<rparr>
      in if dc_Status c = StatusRunning then s\<lparr>dst_Owner := own\<rparr>
         else if Terminal (dc_Status c) \<and> \<not> dc_Finalize c then s\<lparr>dst_Error := dc_Error c, dst_EndedAt := now\<rparr>
         else s)"

definition stamps :: "decision_claim \<Rightarrow> bool" where
  "stamps c \<longleftrightarrow> dc_Digest c \<noteq> [] \<or> dc_Binding c \<noteq> [] \<or> dc_Seal c \<noteq> []"

definition after_append :: "string \<Rightarrow> decision_claim \<Rightarrow> decide_task" where
  "after_append i c = (if stamps c then TStamp i c else TSettle i c)"

definition keep_call :: "decide_cfg \<Rightarrow> fault \<Rightarrow> string \<Rightarrow> decision_record option \<Rightarrow> decision_claim \<Rightarrow> decide_world \<Rightarrow> decide_task \<times> decide_world" where
  "keep_call cfg f i rec c w =
     (let sealed = (case sealClaim cfg i c of Inl _ \<Rightarrow> TWithdraw i rec c | Inr c' \<Rightarrow> TClaim i rec c') in
      case rec of
        None \<Rightarrow> (sealed, w)
      | Some r \<Rightarrow>
          if f = Fails then (TDone i c False, w)
          else (case SaveRecord r (wd_records w) of
            (err, recs) \<Rightarrow> (if err = None \<and> f = Works then sealed else TDone i c False, w\<lparr>wd_records := recs\<rparr>)))"

definition claim_call :: "decide_cfg \<Rightarrow> fault \<Rightarrow> string \<Rightarrow> decision_record option \<Rightarrow> decision_claim \<Rightarrow> decide_world \<Rightarrow> decide_task \<times> decide_world" where
  "claim_call cfg f i rec c w =
     (if f = Fails then (TReread i rec c, w)
      else (case ClaimDecision i (dc_ID c) (claim_text cfg c) (wd_store w) of
        (res, st) \<Rightarrow>
          (if f = Lost then TReread i rec c
           else (case res of Inl _ \<Rightarrow> TReread i rec c
                 | Inr won \<Rightarrow> if won then TAppend i c else TWithdraw i rec c),
           w\<lparr>wd_store := st\<rparr>)))"

definition reread_call :: "fault \<Rightarrow> string \<Rightarrow> decision_record option \<Rightarrow> decision_claim \<Rightarrow> decide_world \<Rightarrow> decide_task" where
  "reread_call f i rec c w =
     (if f \<noteq> Works then TDone i c False
      else (case ms_runs (wd_store w) i of
        None \<Rightarrow> TDone i c False
      | Some cur \<Rightarrow> if DecisionID cur \<noteq> dc_ID c then TWithdraw i rec c else TAppend i c))"

definition withdrawRecord :: "fault \<Rightarrow> decision_record option \<Rightarrow> decide_world \<Rightarrow> decide_world" where
  "withdrawRecord f rec w =
     (case rec of
        None \<Rightarrow> w
      | Some r \<Rightarrow> if f = Fails then w else w\<lparr>wd_records := snd (DeleteRecord (dr_ID r) (wd_records w))\<rparr>)"

definition append_call :: "decide_cfg \<Rightarrow> gotime \<Rightarrow> fault \<Rightarrow> string \<Rightarrow> decision_claim \<Rightarrow> decide_world \<Rightarrow> decide_task \<times> decide_world" where
  "append_call cfg now f i c w =
     (if checkClaim cfg i c \<noteq> None then (TDone i c False, w)
      else (case (df_audits cfg, dc_Entry c) of
        (True, Some e) \<Rightarrow>
          if f = Fails then (TDone i c False, w)
          else (case Append (df_ser cfg) (df_sha cfg) now (claim_entry_entry e) (wd_audit w) of
            (res, a) \<Rightarrow> (if appended_ok res \<and> f = Works then after_append i c else TDone i c False, w\<lparr>wd_audit := a\<rparr>))
      | _ \<Rightarrow> (after_append i c, w)))"

definition stamp_call :: "fault \<Rightarrow> string \<Rightarrow> decision_claim \<Rightarrow> decide_world \<Rightarrow> decide_task \<times> decide_world" where
  "stamp_call f i c w =
     (if f = Fails then (TDone i c False, w)
      else (case StampApprovedSpec i (dc_Digest c) (dc_Binding c) (dc_Seal c) (wd_store w) of
        (err, st) \<Rightarrow> (if err = None \<and> f = Works then TSettle i c else TDone i c False, w\<lparr>wd_store := st\<rparr>)))"

definition settle_call :: "string \<Rightarrow> gotime \<Rightarrow> fault \<Rightarrow> string \<Rightarrow> decision_claim \<Rightarrow> decide_world \<Rightarrow> decide_task \<times> decide_world" where
  "settle_call own now f i c w =
     (if f = Fails then (TConfirm i c, w)
      else (case SettleDecision now i (dc_ID c) (settle_of own now c) (wd_store w) of
        (res, st) \<Rightarrow>
          (if f = Lost then TConfirm i c else (case res of Inl _ \<Rightarrow> TConfirm i c | Inr mine \<Rightarrow> TDone i c mine),
           w\<lparr>wd_store := st\<rparr>)))"

definition confirm_call :: "string \<Rightarrow> fault \<Rightarrow> string \<Rightarrow> decision_claim \<Rightarrow> decide_world \<Rightarrow> decide_task" where
  "confirm_call own f i c w =
     (if f \<noteq> Works then TDone i c False
      else (case ms_runs (wd_store w) i of
        None \<Rightarrow> TDone i c False
      | Some cur \<Rightarrow>
          if InFlight cur \<or> DecisionID cur \<noteq> dc_ID c then TDone i c False
          else TDone i c (Status cur = StatusRunning \<and> ClaimedBy cur = own)))"

fun decide_turn :: "decide_cfg \<Rightarrow> string \<Rightarrow> gotime \<Rightarrow> fault \<Rightarrow> decide_task \<Rightarrow> decide_world \<Rightarrow> decide_task \<times> decide_world" where
  "decide_turn cfg own now f TIdle w = (TIdle, w)"
| "decide_turn cfg own now f (TKeep i rec c) w = keep_call cfg f i rec c w"
| "decide_turn cfg own now f (TClaim i rec c) w = claim_call cfg f i rec c w"
| "decide_turn cfg own now f (TReread i rec c) w = (reread_call f i rec c w, w)"
| "decide_turn cfg own now f (TWithdraw i rec c) w = (TDone i c False, withdrawRecord f rec w)"
| "decide_turn cfg own now f (TAppend i c) w = append_call cfg now f i c w"
| "decide_turn cfg own now f (TStamp i c) w = stamp_call f i c w"
| "decide_turn cfg own now f (TSettle i c) w = settle_call own now f i c w"
| "decide_turn cfg own now f (TConfirm i c) w = (confirm_call own f i c w, w)"
| "decide_turn cfg own now f (TDone i c m) w = (TDone i c m, w)"

text \<open>A whole call, nothing failing and nothing in between: \<open>finishDecision\<close> from its first line.\<close>

definition finishDecision :: "decide_cfg \<Rightarrow> string \<Rightarrow> gotime \<Rightarrow> string \<Rightarrow> decision_claim \<Rightarrow> decide_world \<Rightarrow> decide_task \<times> decide_world" where
  "finishDecision cfg own now i c w =
     ((\<lambda>(t, w). decide_turn cfg own now Works t w) ^^ 3) (TAppend i c, w)"

text \<open>\<open>finishClaimed\<close> up to what it starts afterwards.\<close>

definition finishClaimed :: "decide_cfg \<Rightarrow> string \<Rightarrow> gotime \<Rightarrow> run \<Rightarrow> decide_world \<Rightarrow> decide_task \<times> decide_world" where
  "finishClaimed cfg own now r w =
     (case claimOf cfg r of Inl _ \<Rightarrow> (TIdle, w) | Inr c \<Rightarrow> finishDecision cfg own now (ID r) c w)"

section \<open>Which decisions are credited\<close>

definition Credits :: "run option \<Rightarrow> string \<Rightarrow> bool" where
  "Credits subject decisionID \<longleftrightarrow>
     (case subject of
        None \<Rightarrow> False
      | Some r \<Rightarrow>
          if DecisionID r \<noteq> [] then DecisionID r = decisionID \<and> \<not> InFlight r
          else Status r \<noteq> StatusPendingApproval)"

definition subject_id :: "decision_record \<Rightarrow> string" where
  "subject_id rec = (if dr_StepRunID rec \<noteq> [] then dr_StepRunID rec else dr_RunID rec)"

definition EffectiveDecisions :: "(string \<rightharpoonup> run) \<Rightarrow> decision_record list \<Rightarrow> decision_record list" where
  "EffectiveDecisions runs records =
     (let kept = dr_ID ` set (filter (\<lambda>rec. dr_Kind rec = KindDecision \<and>
            (runs (subject_id rec) = None \<or> Credits (runs (subject_id rec)) (dr_ID rec))) records)
      in filter (\<lambda>rec. if dr_Kind rec = KindDecision then dr_ID rec \<in> kept else dr_DecisionID rec \<in> kept) records)"

end
