(* ===== verification/Decide_Guards.thy ===== *)
theory Decide_Guards
  imports Decide Dag_Walk
begin

text \<open>
  Who may decide what, and what a decision carries (\<open>dispatch/approvals.go\<close>, \<open>dispatch/approvals_step.go\<close>,
  \<open>dispatch/reasons.go\<close>, \<open>outcome/decisionrecord.go\<close>, the entries of \<open>outcome/spec.go\<close> and
  \<open>outcome/approval.go\<close>): each function up to the call of \<open>decide\<close> it ends in, which \<open>Decide\<close> models, with
  the record and the claim it hands over. What it reads elsewhere (the seal of the row, the masker, the
  digests and bindings of what is decided, the content digest of the entry's body, a fresh id, random
  bytes, the clock) is a view it is given.
\<close>

definition agentActorType :: string where "agentActorType = ''agent''"
definition timeoutDecider :: string where "timeoutDecider = ''system:approval-timeout''"

record run_decision =
  rdn_Approve :: bool
  rdn_Reason :: string
  rdn_ConfirmedMask :: string
  rdn_By :: decider
  rdn_Comment :: "comment option"

record step_decision =
  sdn_Approve :: bool
  sdn_Reason :: string
  sdn_ConfirmedMask :: string
  sdn_Shown :: string
  sdn_By :: decider

datatype guard_error =
    StoreFailed run_error | ErrAgentApproval | ErrChildNotApprovable | ErrStepPending | SealRefused decide_error
  | NotPending | ErrSelfApproval | ErrReasonTooLong | ReasonMaskedError string | ErrReasonRequired
  | RecordFailed decision_error | ErrNotApprovalStep | ErrStateMoved

text \<open>What a decision's entry commits beside its verdict.\<close>

record decision_extras =
  ex_ID :: string
  ex_ReasonCommitment :: string
  ex_SeparationOfDuties :: "sod option"
  ex_Comment :: "comment option"

definition ExtrasOf :: "decision_record option \<Rightarrow> decision_extras" where
  "ExtrasOf rec =
     (case rec of
        None \<Rightarrow> \<lparr>ex_ID = [], ex_ReasonCommitment = [], ex_SeparationOfDuties = None, ex_Comment = None\<rparr>
      | Some r \<Rightarrow> \<lparr>ex_ID = dr_DecisionID r,
          ex_ReasonCommitment = (case dr_Reason r of None \<Rightarrow> [] | Some x \<Rightarrow> rs_Commitment x),
          ex_SeparationOfDuties = dr_SeparationOfDuties r, ex_Comment = dr_Comment r\<rparr>)"

record decide_view =
  dv_newID :: string
  dv_random :: string
  dv_now :: gotime
  dv_mask :: "run \<Rightarrow> string \<Rightarrow> string"
  dv_held :: "decide_error option"
  dv_children :: "run list"
  dv_digest :: string
  dv_binding :: string
  dv_content :: "string \<Rightarrow> decision_extras \<Rightarrow> string \<times> string"
  dv_seal :: "claim_entry \<Rightarrow> string"

section \<open>Guards\<close>

definition sameRequester :: "decider \<Rightarrow> run \<Rightarrow> bool" where
  "sameRequester b r \<longleftrightarrow>
     (if by_AccountID b \<noteq> [] \<and> ActorUserID r \<noteq> [] then by_AccountID b = ActorUserID r
      else by_Name b \<noteq> [] \<and> by_Name b = Actor r)"

definition refuseStartedWorkflow :: "decide_view \<Rightarrow> run \<Rightarrow> guard_error option" where
  "refuseStartedWorkflow v r =
     (if Kind r \<noteq> KindPipeline then None else if Started (dv_children v) then Some ErrStepPending else None)"

definition sealRefusal :: "decide_cfg \<Rightarrow> decide_view \<Rightarrow> run \<Rightarrow> guard_error option" where
  "sealRefusal cfg v r =
     (if df_mac cfg = None \<or> Status r \<noteq> StatusPendingApproval \<or> InFlight r then None
      else map_option SealRefused (dv_held v))"

section \<open>Reasons\<close>

definition prepareReason :: "(string \<Rightarrow> string) \<Rightarrow> string \<Rightarrow> string \<Rightarrow> guard_error + string \<times> bool" where
  "prepareReason masker txt confirmed =
     (let canonical = Canonical txt in
      if canonical = [] then Inr ([], False)
      else if TooLong canonical then Inl ErrReasonTooLong
      else let masked = Canonical (masker canonical) in
        if masked = canonical then Inr (masked, False)
        else if confirmed \<noteq> masked then Inl (ReasonMaskedError masked)
        else Inr (masked, True))"

definition requireReason :: "run \<Rightarrow> string \<Rightarrow> bool \<Rightarrow> guard_error option" where
  "requireReason held txt approve =
     (if txt \<noteq> [] \<or> \<not> ReasonRequired (RequireReason held) approve then None else Some ErrReasonRequired)"

definition decider_account :: "decider \<Rightarrow> string" where
  "decider_account b = (if by_OnBehalfOf b = [] then by_Name b else by_OnBehalfOf b)"

definition newDecisionRecord :: "decide_cfg \<Rightarrow> decide_view \<Rightarrow> run \<Rightarrow> run option \<Rightarrow> string \<Rightarrow> string \<Rightarrow> bool \<Rightarrow> decider \<Rightarrow>
    guard_error + decision_record" where
  "newDecisionRecord cfg v subject step verdict txt masked b =
     (let i = dv_newID v;
          held = (case step of None \<Rightarrow> subject | Some s \<Rightarrow> s);
          rec = \<lparr>dr_ID = i, dr_Kind = KindDecision, dr_DecisionID = i, dr_RunID = ID subject,
            dr_StepRunID = (case step of None \<Rightarrow> [] | Some s \<Rightarrow> ID s), dr_Verdict = verdict, dr_At = dv_now v,
            dr_Actor = by_Name b, dr_ActorType = by_Type b, dr_OnBehalfOf = by_OnBehalfOf b, dr_Reason = None,
            dr_SeparationOfDuties = (case Initiator subject of
               None \<Rightarrow> None
             | Some init \<Rightarrow> Some (Evaluate (RequireDistinctApprover held) (in_BoundTo init) (decider_account b)
                 (sameRequester b held) (verdict = ''approved''))),
            dr_Comment = None\<rparr>
      in if txt = [] then Inr rec
         else (case Commit (df_ser cfg) (df_sha cfg) (dv_random v) i txt of
           Inl e \<Rightarrow> Inl (RecordFailed e)
         | Inr (random, commitment) \<Rightarrow> Inr (rec\<lparr>dr_Reason := Some \<lparr>rs_Text = txt, rs_Random = random,
             rs_Commitment = commitment, rs_Masked = masked, rs_Redacted = None\<rparr>\<rparr>)))"

section \<open>Entries\<close>

definition entryID :: "string \<Rightarrow> string \<Rightarrow> string" where
  "entryID newID i = (if i \<noteq> [] then i else newID)"

definition decision_entry_at :: "decide_view \<Rightarrow> string \<Rightarrow> string \<Rightarrow> decider \<Rightarrow> decision_extras \<Rightarrow> entry" where
  "decision_entry_at v path verdict b extras =
     (case dv_content v verdict extras of
        (digest, nonce) \<Rightarrow> \<lparr>ae_ID = entryID (dv_newID v) (ex_ID extras), ae_At = dv_now v, ae_Actor = by_Name b,
          ae_ActorType = by_Type b, ae_OnBehalfOf = by_OnBehalfOf b, ae_Method = MethodDecision, ae_Path = path,
          ae_ContentDigest = digest, ae_Nonce = nonce, ae_InstallID = [], ae_Seq = 0, ae_PrevHash = [], ae_Hash = []\<rparr>)"

definition DecisionEntry :: "decide_view \<Rightarrow> run \<Rightarrow> string \<Rightarrow> decider \<Rightarrow> decision_extras \<Rightarrow> entry" where
  "DecisionEntry v r verdict b extras =
     decision_entry_at v (''/runs/'' @ ID r @ ''/decision/'' @ verdict) verdict b extras"

definition StepDecisionEntry :: "decide_view \<Rightarrow> run \<Rightarrow> run \<Rightarrow> string \<Rightarrow> decider \<Rightarrow> decision_extras \<Rightarrow> entry" where
  "StepDecisionEntry v parent node verdict b extras =
     decision_entry_at v (StepDecisionPath (ID parent) (ID node) verdict) verdict b extras"

section \<open>Deciding a run\<close>

type_synonym prepared = "decision_record \<times> decision_claim"

definition plain_claim :: "string \<Rightarrow> string \<Rightarrow> status \<Rightarrow> decision_claim" where
  "plain_claim i verdict status =
     \<lparr>dc_ID = i, dc_Verdict = verdict, dc_Step = False, dc_Entry = None, dc_Status = status, dc_Error = [],
      dc_Finalize = False, dc_Digest = [], dc_Binding = [], dc_Seal = [], dc_ClaimSeal = []\<rparr>"

definition approve_claim :: "decide_cfg \<Rightarrow> decide_view \<Rightarrow> run \<Rightarrow> decider \<Rightarrow> decision_record \<Rightarrow> decision_claim" where
  "approve_claim cfg v r b rec =
     (let c = plain_claim (dr_ID rec) ''approved''
            (if Kind r = KindSplit \<or> Kind r = KindPipeline then StatusRunning else StatusPending)
      in if \<not> df_audits cfg then c
         else let e = claimEntryOf (DecisionEntry v r ''approved'' b (ExtrasOf (Some rec))) in
           c\<lparr>dc_Entry := Some e, dc_Digest := dv_digest v, dc_Binding := dv_binding v,
             dc_Seal := (if df_mac cfg = None then [] else dv_seal v e)\<rparr>)"

definition approveRun :: "decide_cfg \<Rightarrow> decide_view \<Rightarrow> mem_store \<Rightarrow> string \<Rightarrow> run_decision \<Rightarrow> guard_error + prepared" where
  "approveRun cfg v st i dec =
     (let b = rdn_By dec in
      if by_Type b = agentActorType then Inl ErrAgentApproval
      else case ms_runs st i of
        None \<Rightarrow> Inl (StoreFailed ErrNotFound)
      | Some r \<Rightarrow>
          if ParentID r \<noteq> None then Inl ErrChildNotApprovable
          else case refuseStartedWorkflow v r of Some e \<Rightarrow> Inl e
          | None \<Rightarrow> (case sealRefusal cfg v r of Some e \<Rightarrow> Inl e
          | None \<Rightarrow>
              if CancelRequested r then Inl NotPending
              else if RequireDistinctApprover r \<and> sameRequester b r then Inl ErrSelfApproval
              else if Status r \<noteq> StatusPendingApproval then Inl NotPending
              else (case prepareReason (dv_mask v r) (rdn_Reason dec) (rdn_ConfirmedMask dec) of Inl e \<Rightarrow> Inl e
              | Inr (txt, masked) \<Rightarrow>
                  (case requireReason r txt True of Some e \<Rightarrow> Inl e
                  | None \<Rightarrow>
                      (case newDecisionRecord cfg v r None ''approved'' txt masked b of Inl e \<Rightarrow> Inl e
                      | Inr rec0 \<Rightarrow>
                          let rec = (if rdn_Comment dec \<noteq> None then rec0\<lparr>dr_Comment := rdn_Comment dec\<rparr> else rec0)
                          in Inr (rec, approve_claim cfg v r b rec))))))"

definition reject_claim :: "decide_cfg \<Rightarrow> decide_view \<Rightarrow> run \<Rightarrow> decider \<Rightarrow> decision_record \<Rightarrow> decision_claim" where
  "reject_claim cfg v r b rec =
     (plain_claim (dr_ID rec) ''rejected'' StatusRejected)
       \<lparr>dc_Error := ''rejected by an approver'', dc_Finalize := True,
        dc_Entry := (if df_audits cfg then Some (claimEntryOf (DecisionEntry v r ''rejected'' b (ExtrasOf (Some rec)))) else None)\<rparr>"

definition rejectRun :: "decide_cfg \<Rightarrow> decide_view \<Rightarrow> mem_store \<Rightarrow> string \<Rightarrow> run_decision \<Rightarrow> guard_error + prepared" where
  "rejectRun cfg v st i dec =
     (let b = rdn_By dec in
      case ms_runs st i of
        None \<Rightarrow> Inl (StoreFailed ErrNotFound)
      | Some r \<Rightarrow>
          if ParentID r \<noteq> None then Inl ErrChildNotApprovable
          else case refuseStartedWorkflow v r of Some e \<Rightarrow> Inl e
          | None \<Rightarrow> (case sealRefusal cfg v r of Some e \<Rightarrow> Inl e
          | None \<Rightarrow>
              if Status r \<noteq> StatusPendingApproval then Inl NotPending
              else (case prepareReason (dv_mask v r) (rdn_Reason dec) (rdn_ConfirmedMask dec) of Inl e \<Rightarrow> Inl e
              | Inr (txt, masked) \<Rightarrow>
                  (case requireReason r txt False of Some e \<Rightarrow> Inl e
                  | None \<Rightarrow>
                      (case newDecisionRecord cfg v r None ''rejected'' txt masked b of Inl e \<Rightarrow> Inl e
                      | Inr rec \<Rightarrow> Inr (rec, reject_claim cfg v r b rec))))))"

definition DecideRun :: "decide_cfg \<Rightarrow> decide_view \<Rightarrow> mem_store \<Rightarrow> string \<Rightarrow> run_decision \<Rightarrow> guard_error + prepared" where
  "DecideRun cfg v st i dec = (if rdn_Approve dec then approveRun cfg v st i dec else rejectRun cfg v st i dec)"

section \<open>Deciding an approval step\<close>

definition step_claim :: "decide_cfg \<Rightarrow> decide_view \<Rightarrow> run \<Rightarrow> run \<Rightarrow> bool \<Rightarrow> decider \<Rightarrow> decision_record \<Rightarrow> decision_claim" where
  "step_claim cfg v parent node approve b rec =
     (let verdict = (if approve then StepApproved else StepRejected);
          c = (plain_claim (dr_ID rec) verdict (if approve then StatusSucceeded else StatusRejected))
                \<lparr>dc_Step := True, dc_Error := (if approve then [] else ''denied by an approver''),
                 dc_Digest := dv_digest v, dc_Binding := dv_binding v\<rparr>
      in if \<not> df_audits cfg then c
         else let e = claimEntryOf (StepDecisionEntry v parent node verdict b (ExtrasOf (Some rec))) in
           c\<lparr>dc_Entry := Some e, dc_Seal := (if df_mac cfg \<noteq> None \<and> approve then dv_seal v e else [])\<rparr>)"

definition DecideStep :: "decide_cfg \<Rightarrow> decide_view \<Rightarrow> mem_store \<Rightarrow> string \<Rightarrow> step_decision \<Rightarrow> guard_error + prepared" where
  "DecideStep cfg v st i dec =
     (let b = sdn_By dec in
      case ms_runs st i of
        None \<Rightarrow> Inl (StoreFailed ErrNotFound)
      | Some node \<Rightarrow>
          if Kind node \<noteq> KindApproval \<or> ParentID node = None then Inl ErrNotApprovalStep
          else if Status node \<noteq> StatusPendingApproval then Inl NotPending
          else case ms_runs st (the (ParentID node)) of
            None \<Rightarrow> Inl (StoreFailed ErrNotFound)
          | Some parent \<Rightarrow>
              if CancelRequested parent \<or> Terminal (Status parent) then Inl NotPending
              else case sealRefusal cfg v node of Some e \<Rightarrow> Inl e
              | None \<Rightarrow>
                  if sdn_Approve dec \<and> by_Type b = agentActorType then Inl ErrAgentApproval
                  else if sdn_Approve dec \<and> RequireDistinctApprover node \<and> sameRequester b node then Inl ErrSelfApproval
                  else if sdn_Shown dec \<noteq> [] \<and> sdn_Shown dec \<noteq> dv_digest v then Inl ErrStateMoved
                  else (case prepareReason (dv_mask v parent) (sdn_Reason dec) (sdn_ConfirmedMask dec) of Inl e \<Rightarrow> Inl e
                  | Inr (txt, masked) \<Rightarrow>
                      (case requireReason node txt (sdn_Approve dec) of Some e \<Rightarrow> Inl e
                      | None \<Rightarrow>
                          (case newDecisionRecord cfg v parent (Some node)
                              (if sdn_Approve dec then StepApproved else StepRejected) txt masked b of Inl e \<Rightarrow> Inl e
                          | Inr rec \<Rightarrow> Inr (rec, step_claim cfg v parent node (sdn_Approve dec) b rec)))))"

text \<open>The timeout of a step, for a row the sweep found past its deadline: the claim it makes, or none.\<close>

definition timeout_due :: "gotime \<Rightarrow> run \<Rightarrow> bool" where
  "timeout_due now r \<longleftrightarrow> Kind r = KindApproval \<and> Status r = StatusPendingApproval \<and> ParentID r \<noteq> None \<and> Timeout r > 0 \<and>
     \<not> InFlight r \<and> \<not> now < CreatedAt r + Timeout r * 1000000000"

definition timeOutStep :: "decide_cfg \<Rightarrow> decide_view \<Rightarrow> mem_store \<Rightarrow> string \<Rightarrow> decision_claim option" where
  "timeOutStep cfg v st i =
     (case ms_runs st i of
        None \<Rightarrow> None
      | Some node \<Rightarrow>
          if Status node \<noteq> StatusPendingApproval \<or> ParentID node = None \<or> InFlight node then None
          else case ms_runs st (the (ParentID node)) of
            None \<Rightarrow> None
          | Some parent \<Rightarrow>
              if sealRefusal cfg v node \<noteq> None then None
              else
                let c = (plain_claim (dv_newID v) StepTimedOut StatusFailed)\<lparr>dc_Step := True,
                       dc_Error := ''timed out: nobody decided within '' @ FormatInt (Timeout node) @ ''s, so the deny path was taken''\<rparr>
                in if \<not> df_audits cfg then Some c
                   else let e = StepDecisionEntry v parent node StepTimedOut
                             \<lparr>by_Name = timeoutDecider, by_Type = ''system'', by_OnBehalfOf = Actor parent, by_AccountID = []\<rparr>
                             (ExtrasOf None)
                     in Some (c\<lparr>dc_ID := ae_ID e, dc_Entry := Some (claimEntryOf e)\<rparr>))"

end
