(* ===== verification/Decide_Reach.thy ===== *)
theory Decide_Reach
  imports Decide Store_Props Audit_Outcome
begin

text \<open>
  Deciders, janitors, the rest of the run store and the rest of the chain, interleaved one call at a
  time, with failed calls, lost answers and crashes anywhere; and the invariant of the states they reach.
\<close>

section \<open>Steps\<close>

text \<open>The claim a decider begins with: its record and its entry carry its id, it settles its run into a
  state a decision may settle to, and its stored text reads back.\<close>

definition claim_ok :: "decide_cfg \<Rightarrow> decision_claim \<Rightarrow> bool" where
  "claim_ok cfg c \<longleftrightarrow> dc_ID c \<noteq> [] \<and> (dc_Status c = StatusPending \<or> dc_Status c = StatusRunning \<or> Terminal (dc_Status c)) \<and>
     (df_audits cfg \<longrightarrow> (\<exists>e. dc_Entry c = Some e \<and> ce_ID e = dc_ID c \<and> ce_Method e = MethodDecision)) \<and>
     claim_text cfg c \<noteq> [] \<and> read_claim cfg (claim_text cfg c) = Some c"

text \<open>\<open>begun\<close> holds every decision ever begun, by its id, with the run it is on. Ids are minted at random:
  no decision, entry or run takes the id of another.\<close>

type_synonym begun = "string \<rightharpoonup> string \<times> decision_claim"

record system =
  sy_begun :: begun
  sy_procs :: "nat \<Rightarrow> decide_task"
  sy_world :: decide_world

abbreviation sy_rows :: "system \<Rightarrow> string \<rightharpoonup> run" where "sy_rows s \<equiv> ms_runs (wd_store (sy_world s))"
abbreviation sy_audit :: "system \<Rightarrow> audit_store" where "sy_audit s \<equiv> wd_audit (sy_world s)"

text \<open>What the rest of the system may do to the run store: any change that leaves a row's decision and its
  claim alone, puts no decided run back up for a decision of its own (a workflow parked at a step is not),
  and creates rows undecided, under ids no decision was begun on.\<close>

definition quiet :: "begun \<Rightarrow> mem_store \<Rightarrow> mem_store \<Rightarrow> bool" where
  "quiet b st st' \<longleftrightarrow> (\<forall>i r'. ms_runs st' i = Some r' \<longrightarrow>
     (case ms_runs st i of
        None \<Rightarrow> DecisionID r' = [] \<and> DecisionClaim r' = [] \<and> (\<forall>d c. b d \<noteq> Some (i, c))
      | Some r \<Rightarrow> DecisionID r' = DecisionID r \<and> DecisionClaim r' = DecisionClaim r \<and>
          (DecisionID r' \<noteq> [] \<and> DecisionClaim r' = [] \<and> Status r' = StatusPendingApproval \<longrightarrow> i \<in> ms_parked st')))"

inductive decide_step :: "decide_cfg \<Rightarrow> (nat \<Rightarrow> string) \<Rightarrow> (decide_task \<Rightarrow> fault \<Rightarrow> bool) \<Rightarrow> system \<Rightarrow> system \<Rightarrow> bool"
  for cfg own faulty where
  begin_decision: "sy_procs s p = TIdle \<Longrightarrow> sealClaim cfg i c = Inr c' \<Longrightarrow> claim_ok cfg c' \<Longrightarrow> dc_ID c = dc_ID c' \<Longrightarrow>
    sy_begun s (dc_ID c') = None \<Longrightarrow> dc_ID c' \<notin> as_ids (sy_audit s) \<Longrightarrow>
    decide_step cfg own faulty s (s\<lparr>sy_begun := (sy_begun s)(dc_ID c' \<mapsto> (i, c')),
      sy_procs := (sy_procs s)(p := TKeep i rec c)\<rparr>)"
| janitor: "sy_procs s p = TIdle \<Longrightarrow> sy_rows s i = Some r \<Longrightarrow> InFlight r \<Longrightarrow> claimOf cfg r = Inr c \<Longrightarrow>
    decide_step cfg own faulty s (s\<lparr>sy_procs := (sy_procs s)(p := TAppend i c)\<rparr>)"
| turn: "faulty (sy_procs s p) f \<Longrightarrow> decide_turn cfg (own p) now f (sy_procs s p) (sy_world s) = (t, w) \<Longrightarrow>
    decide_step cfg own faulty s (s\<lparr>sy_procs := (sy_procs s)(p := t), sy_world := w\<rparr>)"
| crash: "\<forall>i c. sy_procs s p \<noteq> TDone i c True \<Longrightarrow>
    decide_step cfg own faulty s (s\<lparr>sy_procs := (sy_procs s)(p := TIdle)\<rparr>)"
| store: "quiet (sy_begun s) (wd_store (sy_world s)) st \<Longrightarrow>
    decide_step cfg own faulty s (s\<lparr>sy_world := (sy_world s)\<lparr>wd_store := st\<rparr>\<rparr>)"
| chain: "audit_step (df_ser cfg) (df_sha cfg) (sy_audit s) a \<Longrightarrow>
    \<forall>l. as_entries a = as_entries (sy_audit s) @ [l] \<longrightarrow> sy_begun s (ae_ID l) = None \<Longrightarrow>
    decide_step cfg own faulty s (s\<lparr>sy_world := (sy_world s)\<lparr>wd_audit := a\<rparr>\<rparr>)"
| records: "decide_step cfg own faulty s (s\<lparr>sy_world := (sy_world s)\<lparr>wd_records := recs\<rparr>\<rparr>)"

inductive decide_reach :: "decide_cfg \<Rightarrow> (nat \<Rightarrow> string) \<Rightarrow> (decide_task \<Rightarrow> fault \<Rightarrow> bool) \<Rightarrow> system \<Rightarrow> bool"
  for cfg own faulty where
  decide_start: "\<forall>i r. ms_runs st i = Some r \<longrightarrow> DecisionID r = [] \<and> DecisionClaim r = [] \<Longrightarrow>
    audit_reachable (df_ser cfg) (df_sha cfg) a \<Longrightarrow>
    decide_reach cfg own faulty \<lparr>sy_begun = Map.empty, sy_procs = (\<lambda>_. TIdle),
      sy_world = \<lparr>wd_store = st, wd_records = recs, wd_audit = a\<rparr>\<rparr>"
| decide_more: "decide_reach cfg own faulty s \<Longrightarrow> decide_step cfg own faulty s s' \<Longrightarrow> decide_reach cfg own faulty s'"

text \<open>Every operation of the run store other than a claim and a settlement is quiet, as long as it adopts
  no claim, re-holds no decided run, and takes no run id a decision was begun on.\<close>

lemma store_step_quiet:
  assumes "store_step op st st'" and "store_ok st"
    and "\<forall>i d. op \<noteq> OpDecide i d" and "\<forall>i d. op \<noteq> OpSettle i d"
    and "\<forall>i r r'. ms_runs st i = Some r \<and> ms_runs st' i = Some r' \<longrightarrow> DecisionClaim r' = DecisionClaim r \<and>
      (DecisionID r \<noteq> [] \<and> DecisionClaim r = [] \<and> Status r' = StatusPendingApproval \<longrightarrow> i \<in> ms_parked st')"
    and "\<forall>q. op = OpSave q \<and> ms_runs st (ID q) = None \<longrightarrow> (\<forall>d c. b d \<noteq> Some (ID q, c))"
  shows "quiet b st st'"
  unfolding quiet_def
proof (intro allI impI)
  fix i r'
  assume r': "ms_runs st' i = Some r'"
  show "case ms_runs st i of None \<Rightarrow> DecisionID r' = [] \<and> DecisionClaim r' = [] \<and> (\<forall>d c. b d \<noteq> Some (i, c))
    | Some r \<Rightarrow> DecisionID r' = DecisionID r \<and> DecisionClaim r' = DecisionClaim r \<and>
        (DecisionID r' \<noteq> [] \<and> DecisionClaim r' = [] \<and> Status r' = StatusPendingApproval \<longrightarrow> i \<in> ms_parked st')"
  proof (cases "ms_runs st i")
    case None
    then obtain q where "op = OpSave q" "ID q = i" "r' = save_row None (Sanitize q)"
      using store_step_new [OF assms(1,2) None] r' by auto
    then show ?thesis using assms(6) None by (simp add: save_row_def)
  next
    case (Some r)
    then have "row_steps (op_labels op i) r r'" using store_step_row [OF assms(1,2) Some] r' by auto
    then have "DecisionID r' = DecisionID r"
    proof (induction rule: row_steps.induct)
      case (step a b l)
      have "\<forall>d. l \<noteq> RDecide d" using step.hyps(3) assms(3) by (cases op) (auto simp: only_def split: if_splits)
      then show ?case using row_step_DecisionID [OF step.hyps(2)] step.IH by simp
    qed simp
    then show ?thesis using assms(5) Some r' by auto
  qed
qed

section \<open>The invariant\<close>

definition recorded :: "decide_cfg \<Rightarrow> audit_store \<Rightarrow> decision_claim \<Rightarrow> bool" where
  "recorded cfg a c \<longleftrightarrow> (df_audits cfg \<longrightarrow> dc_ID c \<in> as_ids a)"

text \<open>The claim a process is finishing, having seen it win.\<close>

definition finishing :: "decide_task \<Rightarrow> (string \<times> decision_claim) option" where
  "finishing t = (case t of TAppend i c \<Rightarrow> Some (i, c) | TStamp i c \<Rightarrow> Some (i, c) | TSettle i c \<Rightarrow> Some (i, c)
     | TConfirm i c \<Rightarrow> Some (i, c) | _ \<Rightarrow> None)"

text \<open>A decision holds its run: the row stores it, the chain records it, or a process is finishing it.\<close>

definition holds :: "system \<Rightarrow> string \<Rightarrow> string \<Rightarrow> bool" where
  "holds s d i \<longleftrightarrow> (\<exists>c. sy_begun s d = Some (i, c)) \<and>
     ((\<exists>r. sy_rows s i = Some r \<and> DecisionID r = d) \<or> d \<in> as_ids (sy_audit s) \<or>
      (\<exists>p c. finishing (sy_procs s p) = Some (i, c) \<and> dc_ID c = d))"

definition row_ok :: "decide_cfg \<Rightarrow> begun \<Rightarrow> audit_store \<Rightarrow> string set \<Rightarrow> string \<Rightarrow> run \<Rightarrow> bool" where
  "row_ok cfg b a parked i r \<longleftrightarrow> (DecisionID r = [] \<longrightarrow> DecisionClaim r = []) \<and>
     (DecisionID r \<noteq> [] \<longrightarrow> (\<exists>c. b (DecisionID r) = Some (i, c) \<and>
        (DecisionClaim r = claim_text cfg c \<or>
         DecisionClaim r = [] \<and> recorded cfg a c \<and> (Status r = StatusPendingApproval \<longrightarrow> i \<in> parked))))"

definition task_ok :: "decide_cfg \<Rightarrow> begun \<Rightarrow> audit_store \<Rightarrow> decide_task \<Rightarrow> bool" where
  "task_ok cfg b a t \<longleftrightarrow> (case t of
       TKeep i rec c \<Rightarrow> \<exists>c'. sealClaim cfg i c = Inr c' \<and> b (dc_ID c') = Some (i, c')
     | TClaim i rec c \<Rightarrow> b (dc_ID c) = Some (i, c)
     | TReread i rec c \<Rightarrow> b (dc_ID c) = Some (i, c)
     | TAppend i c \<Rightarrow> b (dc_ID c) = Some (i, c)
     | TStamp i c \<Rightarrow> b (dc_ID c) = Some (i, c) \<and> recorded cfg a c
     | TSettle i c \<Rightarrow> b (dc_ID c) = Some (i, c) \<and> recorded cfg a c
     | TConfirm i c \<Rightarrow> b (dc_ID c) = Some (i, c) \<and> recorded cfg a c
     | _ \<Rightarrow> True)"

text \<open>An entry under a decision's id is that decision's entry, as stored.\<close>

definition entry_of_claim :: "entry \<Rightarrow> claim_entry \<Rightarrow> bool" where
  "entry_of_claim e ce \<longleftrightarrow> ae_ID e = ce_ID ce \<and> ae_Actor e = escapeInvalidUTF8 (ce_Actor ce) \<and>
     ae_Method e = escapeInvalidUTF8 (ce_Method ce) \<and> ae_Path e = escapeInvalidUTF8 (ce_Path ce)"

definition entries_ok :: "begun \<Rightarrow> audit_store \<Rightarrow> bool" where
  "entries_ok b a \<longleftrightarrow> as_ids a = ae_ID ` set (as_entries a) \<and>
     (\<forall>e\<in>set (as_entries a). \<forall>i c ce. b (ae_ID e) = Some (i, c) \<and> dc_Entry c = Some ce \<longrightarrow> entry_of_claim e ce)"

definition begun_ok :: "decide_cfg \<Rightarrow> begun \<Rightarrow> bool" where
  "begun_ok cfg b \<longleftrightarrow> (\<forall>d i c. b d = Some (i, c) \<longrightarrow> dc_ID c = d \<and> claim_ok cfg c)"

definition one_holder :: "system \<Rightarrow> bool" where
  "one_holder s \<longleftrightarrow> (\<forall>i d d'. holds s d i \<and> holds s d' i \<longrightarrow> d = d') \<and>
     (\<forall>i d r. holds s d i \<and> sy_rows s i = Some r \<longrightarrow> DecisionID r = d)"

definition decide_inv :: "decide_cfg \<Rightarrow> system \<Rightarrow> bool" where
  "decide_inv cfg s \<longleftrightarrow> begun_ok cfg (sy_begun s) \<and> entries_ok (sy_begun s) (sy_audit s) \<and>
     (\<forall>i r. sy_rows s i = Some r \<longrightarrow> row_ok cfg (sy_begun s) (sy_audit s) (ms_parked (wd_store (sy_world s))) i r) \<and>
     (\<forall>p. task_ok cfg (sy_begun s) (sy_audit s) (sy_procs s p)) \<and>
     (\<forall>p i c. finishing (sy_procs s p) = Some (i, c) \<longrightarrow> holds s (dc_ID c) i) \<and> one_holder s"

lemma decide_invD:
  assumes "decide_inv cfg s"
  shows "sy_begun s d = Some (i, c) \<Longrightarrow> dc_ID c = d \<and> claim_ok cfg c"
    and "sy_rows s i = Some r \<Longrightarrow> row_ok cfg (sy_begun s) (sy_audit s) (ms_parked (wd_store (sy_world s))) i r"
    and "task_ok cfg (sy_begun s) (sy_audit s) (sy_procs s p)"
    and "entries_ok (sy_begun s) (sy_audit s)"
    and "holds s d i \<Longrightarrow> holds s d' i \<Longrightarrow> d = d'"
    and "holds s d i \<Longrightarrow> sy_rows s i = Some r \<Longrightarrow> DecisionID r = d"
  using assms unfolding decide_inv_def begun_ok_def one_holder_def by blast+

lemma holds_begun: "holds s d i \<Longrightarrow> \<exists>c. sy_begun s d = Some (i, c)"
  unfolding holds_def by blast

lemma holds_finisher: "finishing (sy_procs s p) = Some (i, c) \<Longrightarrow> sy_begun s (dc_ID c) = Some (i, c') \<Longrightarrow> holds s (dc_ID c) i"
  unfolding holds_def by blast

lemma one_holderI:
  "(\<And>i d d'. holds s d i \<Longrightarrow> holds s d' i \<Longrightarrow> d = d') \<Longrightarrow>
   (\<And>i d r. holds s d i \<Longrightarrow> sy_rows s i = Some r \<Longrightarrow> DecisionID r = d) \<Longrightarrow> one_holder s"
  unfolding one_holder_def by blast

text \<open>A process moves to a task that holds nothing new.\<close>

lemma inv_proc:
  assumes "decide_inv cfg s" and "task_ok cfg (sy_begun s) (sy_audit s) t"
    and "\<And>i c. finishing t = Some (i, c) \<Longrightarrow> holds s (dc_ID c) i"
  shows "decide_inv cfg (s\<lparr>sy_procs := (sy_procs s)(p := t)\<rparr>)"
proof -
  let ?s = "s\<lparr>sy_procs := (sy_procs s)(p := t)\<rparr>"
  have less: "holds s d i" if "holds ?s d i" for d i
    using that assms(3) unfolding holds_def by (auto split: if_splits)
  have "holds ?s (dc_ID c) i" if fin: "finishing (sy_procs ?s q) = Some (i, c)" for q i c
  proof -
    have "holds s (dc_ID c) i" using fin assms(1,3) by (auto simp: decide_inv_def split: if_splits)
    then obtain c' where "sy_begun ?s (dc_ID c) = Some (i, c')" using holds_begun by fastforce
    then show ?thesis by (rule holds_finisher [OF fin])
  qed
  moreover have "one_holder ?s"
  proof (rule one_holderI)
    show "d = d'" if "holds ?s d i" "holds ?s d' i" for i d d'
      using decide_invD(5) [OF assms(1) less less] that by blast
    show "DecisionID r = d" if "holds ?s d i" "sy_rows ?s i = Some r" for i d r
      using decide_invD(6) [OF assms(1) less] that by simp
  qed
  ultimately show ?thesis using assms(1,2) unfolding decide_inv_def by simp
qed

text \<open>The run store changes: rows stay in order, and a row takes a decision only from none.\<close>

lemma inv_store:
  assumes inv: "decide_inv cfg s"
    and ok: "\<And>i r'. ms_runs st i = Some r' \<Longrightarrow> row_ok cfg (sy_begun s) (sy_audit s) (ms_parked st) i r'"
    and old: "\<And>i r r'. sy_rows s i = Some r \<Longrightarrow> ms_runs st i = Some r' \<Longrightarrow> DecisionID r' \<noteq> DecisionID r \<Longrightarrow> DecisionID r = []"
    and new: "\<And>i r'. sy_rows s i = None \<Longrightarrow> ms_runs st i = Some r' \<Longrightarrow> DecisionID r' = [] \<and> (\<forall>d c. sy_begun s d \<noteq> Some (i, c))"
    and kept: "\<And>p i c. finishing (sy_procs s p) = Some (i, c) \<Longrightarrow> holds s (dc_ID c) i"
  shows "decide_inv cfg (s\<lparr>sy_world := (sy_world s)\<lparr>wd_store := st\<rparr>\<rparr>)"
proof -
  let ?s = "s\<lparr>sy_world := (sy_world s)\<lparr>wd_store := st\<rparr>\<rparr>"
  have ne: "d \<noteq> []" if "sy_begun s d = Some (i, c)" for d i c
    using decide_invD(1) [OF inv that] by (auto simp: claim_ok_def)
  have cases: "holds s d i \<or> (\<exists>r r'. sy_rows s i = Some r \<and> DecisionID r = [] \<and> ms_runs st i = Some r' \<and> DecisionID r' = d)"
    if h: "holds ?s d i" for d i
  proof (cases "\<exists>r'. ms_runs st i = Some r' \<and> DecisionID r' = d")
    case True
    then obtain r' where r': "ms_runs st i = Some r'" "DecisionID r' = d" by blast
    obtain c where c: "sy_begun s d = Some (i, c)" using h by (auto simp: holds_def)
    then obtain r where r: "sy_rows s i = Some r" using new [OF _ r'(1)] by (cases "sy_rows s i") auto
    show ?thesis
    proof (cases "DecisionID r = d")
      case True
      then show ?thesis using r c by (auto simp: holds_def)
    next
      case False
      then show ?thesis using r r' old [OF r r'(1)] by auto
    qed
  next
    case False
    then show ?thesis using h by (auto simp: holds_def)
  qed
  have none: "\<not> holds s d i" if "sy_rows s i = Some r" "DecisionID r = []" for d i r
  proof
    assume "holds s d i"
    then have "DecisionID r = d" "d \<noteq> []" using decide_invD(6) [OF inv _ that(1)] holds_begun ne by blast+
    then show False using that(2) by simp
  qed
  have one: "d = d'" if "holds ?s d i" "holds ?s d' i" for i d d'
    using cases [OF that(1)] cases [OF that(2)] none decide_invD(5) [OF inv] by fastforce
  have row: "DecisionID r' = d" if h: "holds ?s d i" and r': "ms_runs st i = Some r'" for i d r'
    using cases [OF h]
  proof
    assume hs: "holds s d i"
    then obtain c where c: "sy_begun s d = Some (i, c)" by (auto simp: holds_def)
    then obtain r where r: "sy_rows s i = Some r" using new [OF _ r'] by (cases "sy_rows s i") auto
    then have "DecisionID r = d" using decide_invD(6) [OF inv hs r] by simp
    then show ?thesis using old [OF r r'] ne [OF c] by auto
  qed (use r' in auto)
  have "holds ?s (dc_ID c) i" if fin: "finishing (sy_procs s p) = Some (i, c)" for p i c
  proof -
    obtain c' where "sy_begun ?s (dc_ID c) = Some (i, c')" using holds_begun [OF kept [OF fin]] by auto
    then show ?thesis using fin by (intro holds_finisher) simp_all
  qed
  moreover have "one_holder ?s" by (rule one_holderI) (use one row in simp_all)
  ultimately show ?thesis using inv ok unfolding decide_inv_def by simp
qed

text \<open>The chain grows: what it gains under a decision's id is that decision's entry, and the decision
  held its run already.\<close>

lemma row_ok_mono: "row_ok cfg b a parked i r \<Longrightarrow> as_ids a \<subseteq> as_ids a' \<Longrightarrow> row_ok cfg b a' parked i r"
  unfolding row_ok_def recorded_def by blast

lemma task_ok_mono: "task_ok cfg b a t \<Longrightarrow> as_ids a \<subseteq> as_ids a' \<Longrightarrow> task_ok cfg b a' t"
  unfolding task_ok_def recorded_def by (auto split: decide_task.splits)

lemma inv_chain:
  assumes inv: "decide_inv cfg s" and grow: "as_ids (sy_audit s) \<subseteq> as_ids a"
    and ok: "entries_ok (sy_begun s) a"
    and held: "\<And>d i c. d \<in> as_ids a \<Longrightarrow> sy_begun s d = Some (i, c) \<Longrightarrow> holds s d i"
    and kept: "\<And>p i c. finishing (sy_procs s p) = Some (i, c) \<Longrightarrow> holds s (dc_ID c) i"
  shows "decide_inv cfg (s\<lparr>sy_world := (sy_world s)\<lparr>wd_audit := a\<rparr>\<rparr>)"
proof -
  let ?s = "s\<lparr>sy_world := (sy_world s)\<lparr>wd_audit := a\<rparr>\<rparr>"
  have eq: "holds ?s d i = holds s d i" for d i
    using held grow unfolding holds_def by auto
  show ?thesis using inv ok row_ok_mono [OF _ grow] task_ok_mono [OF _ grow]
    unfolding decide_inv_def one_holder_def eq by simp
qed

end
