(* ===== verification/Decide_Safety.thy ===== *)
theory Decide_Safety
  imports Decide_Reach
begin

text \<open>
  Every step keeps the invariant of \<open>Decide_Reach\<close>: a decision takes effect only once the chain holds its
  entry, a run has one decision, and a decision that lost is on no chain.
\<close>

lemma sealClaim_Inr:
  "sealClaim cfg i c = Inr c' \<Longrightarrow> dc_ID c' = dc_ID c \<and> dc_Status c' = dc_Status c \<and> dc_Entry c' = dc_Entry c"
  by (auto simp: sealClaim_def split: option.splits)

lemma parked_noteStatus [simp]: "ms_parked (noteStatus now r from st) = ms_parked st"
  by (simp add: noteStatus_def Let_def split: status.splits)

lemma parked_put_run [simp]: "ms_parked (put_run i r st) = ms_parked st"
  by (simp add: put_run_def)

section \<open>Begin\<close>

lemma inv_begin:
  assumes inv: "decide_inv cfg s" and sl: "sealClaim cfg i c = Inr c'" and ok: "claim_ok cfg c'"
    and fresh: "sy_begun s (dc_ID c') = None" "dc_ID c' \<notin> as_ids (sy_audit s)"
  shows "decide_inv cfg (s\<lparr>sy_begun := (sy_begun s)(dc_ID c' \<mapsto> (i, c')), sy_procs := (sy_procs s)(p := TKeep i rec c)\<rparr>)"
proof -
  let ?b = "(sy_begun s)(dc_ID c' \<mapsto> (i, c'))"
  let ?s = "s\<lparr>sy_begun := ?b\<rparr>"
  have ext: "sy_begun s d = Some x \<Longrightarrow> ?b d = Some x" for d x using fresh(1) by auto
  have row: "DecisionID r \<noteq> dc_ID c'" if "sy_rows s j = Some r" for j r
    using decide_invD(2) [OF inv that] fresh(1) ok by (auto simp: row_ok_def claim_ok_def)
  have fin: "dc_ID x \<noteq> dc_ID c'" if "finishing (sy_procs s q) = Some (j, x)" for q j x
    using decide_invD(3) [OF inv, of q] that fresh(1) by (auto simp: task_ok_def finishing_def split: decide_task.splits)
  have eq: "holds ?s d j = holds s d j" for d j
  proof (cases "d = dc_ID c'")
    case True
    then show ?thesis using row fin fresh by (auto simp: holds_def)
  next
    case False
    then show ?thesis by (auto simp: holds_def)
  qed
  have "row_ok cfg ?b a parked j r" if "row_ok cfg (sy_begun s) a parked j r" for a parked j r
    using that ext unfolding row_ok_def by blast
  moreover have "task_ok cfg ?b a t" if "task_ok cfg (sy_begun s) a t" for a t
    using that fresh(1) unfolding task_ok_def by (auto split: decide_task.splits)
  moreover have "entries_ok ?b (sy_audit s)"
    using decide_invD(4) [OF inv] fresh(2) by (auto simp: entries_ok_def image_iff)
  moreover have "begun_ok cfg ?b" using inv ok unfolding decide_inv_def begun_ok_def by auto
  ultimately have "decide_inv cfg ?s" using inv unfolding decide_inv_def one_holder_def eq by simp
  then show ?thesis
    using inv_proc [of cfg ?s "TKeep i rec c" p] sl sealClaim_Inr [OF sl] by (simp add: task_ok_def finishing_def)
qed

section \<open>Calls\<close>

lemma inv_kept: "decide_inv cfg s \<Longrightarrow> finishing (sy_procs s p) = Some (i, c) \<Longrightarrow> holds s (dc_ID c) i"
  unfolding decide_inv_def by blast

lemma inv_records:
  assumes "decide_inv cfg s"
  shows "decide_inv cfg (s\<lparr>sy_world := (sy_world s)\<lparr>wd_records := recs\<rparr>\<rparr>)"
proof -
  have eq: "holds (s\<lparr>sy_world := (sy_world s)\<lparr>wd_records := recs\<rparr>\<rparr>) d i = holds s d i" for d i
    by (simp add: holds_def)
  show ?thesis using assms unfolding decide_inv_def one_holder_def eq by simp
qed

text \<open>A turn: the world first, then the task.\<close>

lemma turn_split: "s\<lparr>sy_procs := ps, sy_world := w\<rparr> = (s\<lparr>sy_world := w\<rparr>)\<lparr>sy_procs := ps\<rparr>"
  by simp

lemma turn_inv:
  assumes "decide_inv cfg (s\<lparr>sy_world := w\<rparr>)" and "task_ok cfg (sy_begun s) (wd_audit w) t"
    and "\<And>i c. finishing t = Some (i, c) \<Longrightarrow> holds (s\<lparr>sy_world := w\<rparr>) (dc_ID c) i"
  shows "decide_inv cfg (s\<lparr>sy_procs := (sy_procs s)(p := t), sy_world := w\<rparr>)"
  unfolding turn_split using inv_proc [OF assms(1), of t p] assms(2,3) by simp

lemma turn_idle:
  "decide_inv cfg (s\<lparr>sy_world := w\<rparr>) \<Longrightarrow> task_ok cfg (sy_begun s) (wd_audit w) t \<Longrightarrow> finishing t = None \<Longrightarrow>
   decide_inv cfg (s\<lparr>sy_procs := (sy_procs s)(p := t), sy_world := w\<rparr>)"
  by (rule turn_inv) auto

lemma turn_finish:
  assumes "decide_inv cfg (s\<lparr>sy_world := w\<rparr>)" and "task_ok cfg (sy_begun s) (wd_audit w) t"
    and "finishing (sy_procs s p) = Some (i, c)" and "finishing t = Some (i, c) \<or> finishing t = None"
  shows "decide_inv cfg (s\<lparr>sy_procs := (sy_procs s)(p := t), sy_world := w\<rparr>)"
proof (rule turn_inv [OF assms(1,2)])
  have "holds (s\<lparr>sy_world := w\<rparr>) (dc_ID c) i" by (rule inv_kept [OF assms(1), of p]) (simp add: assms(3))
  then show "holds (s\<lparr>sy_world := w\<rparr>) (dc_ID c') i'" if "finishing t = Some (i', c')" for i' c'
    using that assms(4) by auto
qed

lemma world_id [simp]: "s\<lparr>sy_world := sy_world s\<rparr> = s" by simp

lemma keep_call_inv:
  assumes inv: "decide_inv cfg s" and t: "sy_procs s p = TKeep i rec c"
    and call: "keep_call cfg f i rec c (sy_world s) = (t', w)"
  shows "decide_inv cfg (s\<lparr>sy_procs := (sy_procs s)(p := t'), sy_world := w\<rparr>)"
proof -
  obtain c' where c': "sealClaim cfg i c = Inr c'" "sy_begun s (dc_ID c') = Some (i, c')"
    using decide_invD(3) [OF inv, of p] by (auto simp: t task_ok_def)
  obtain recs where w: "w = (sy_world s)\<lparr>wd_records := recs\<rparr>"
    using call by (cases rec) (auto simp: keep_call_def Let_def split: if_splits prod.splits intro: that [of "wd_records (sy_world s)"])
  have t': "t' = TClaim i rec c' \<or> t' = TDone i c False"
    using call by (auto simp: keep_call_def Let_def c' split: if_splits prod.splits option.splits)
  show ?thesis unfolding w
    by (rule turn_idle [OF inv_records [OF inv]]) (use t' c'(2) in \<open>auto simp: task_ok_def finishing_def\<close>)
qed

lemma claim_call_inv:
  assumes inv: "decide_inv cfg s" and t: "sy_procs s p = TClaim i rec c"
    and call: "claim_call cfg f i rec c (sy_world s) = (t', w)"
  shows "decide_inv cfg (s\<lparr>sy_procs := (sy_procs s)(p := t'), sy_world := w\<rparr>)"
proof -
  have b: "sy_begun s (dc_ID c) = Some (i, c)" using decide_invD(3) [OF inv, of p] by (simp add: t task_ok_def)
  obtain res st where cd: "ClaimDecision i (dc_ID c) (claim_text cfg c) (wd_store (sy_world s)) = (res, st)" by fastforce
  have idle: "decide_inv cfg (s\<lparr>sy_procs := (sy_procs s)(p := u), sy_world := sy_world s\<rparr>)"
    if "u = TReread i rec c \<or> u = TWithdraw i rec c" for u
    by (rule turn_idle) (use that b inv in \<open>auto simp: task_ok_def finishing_def\<close>)
  show ?thesis
  proof (cases "f \<noteq> Fails \<and> res = Inr True")
    case False
    have "st = wd_store (sy_world s)" if "res \<noteq> Inr True"
      using cd that by (auto simp: ClaimDecision_def split: if_splits option.splits)
    then have "w = sy_world s \<and> (t' = TReread i rec c \<or> t' = TWithdraw i rec c)"
      using call False by (auto simp: claim_call_def cd split: if_splits sum.splits)
    then show ?thesis using idle by blast
  next
    case True
    then obtain r where r: "sy_rows s i = Some r" "Status r = StatusPendingApproval" "DecisionClaim r = []"
        "i \<notin> ms_parked (wd_store (sy_world s))"
      and st: "st = put_run i (r\<lparr>DecisionID := dc_ID c, DecisionClaim := claim_text cfg c\<rparr>) (wd_store (sy_world s))"
      using cd by (auto simp: ClaimDecision_def split: if_splits option.splits)
    have none: "DecisionID r = []"
      using decide_invD(2) [OF inv r(1)] r decide_invD(1) [OF inv] by (fastforce simp: row_ok_def claim_ok_def)
    have ne: "dc_ID c \<noteq> []" using decide_invD(1) [OF inv b] by (simp add: claim_ok_def)
    let ?s = "s\<lparr>sy_world := (sy_world s)\<lparr>wd_store := st\<rparr>\<rparr>"
    have inv1: "decide_inv cfg ?s"
    proof (rule inv_store [OF inv])
      fix j r'
      assume "ms_runs st j = Some r'"
      then show "row_ok cfg (sy_begun s) (sy_audit s) (ms_parked st) j r'"
        using decide_invD(2) [OF inv, of j] b ne by (auto simp: st row_ok_def split: if_splits)
    qed (use r none in \<open>auto simp: st inv_kept [OF inv] split: if_splits\<close>)
    have w: "w = (sy_world s)\<lparr>wd_store := st\<rparr>" "t' = TReread i rec c \<or> t' = TAppend i c"
      using call True by (auto simp: claim_call_def cd split: if_splits)
    have "holds ?s (dc_ID c) i" using b by (auto simp: holds_def st)
    then show ?thesis unfolding w(1)
      by (intro turn_inv [OF inv1]) (use w(2) b in \<open>auto simp: task_ok_def finishing_def\<close>)
  qed
qed

lemma reread_call_inv:
  assumes inv: "decide_inv cfg s" and t: "sy_procs s p = TReread i rec c"
  shows "decide_inv cfg (s\<lparr>sy_procs := (sy_procs s)(p := reread_call f i rec c (sy_world s)), sy_world := sy_world s\<rparr>)"
proof -
  have b: "sy_begun s (dc_ID c) = Some (i, c)" using decide_invD(3) [OF inv, of p] by (simp add: t task_ok_def)
  have "decide_inv cfg (s\<lparr>sy_procs := (sy_procs s)(p := reread_call f i rec c (sy_world s))\<rparr>)"
  proof (rule inv_proc [OF inv])
    fix j x
    assume "finishing (reread_call f i rec c (sy_world s)) = Some (j, x)"
    then have "j = i" "x = c" "\<exists>r. sy_rows s i = Some r \<and> DecisionID r = dc_ID c"
      by (auto simp: reread_call_def finishing_def split: if_splits option.splits)
    then show "holds s (dc_ID x) j" using b by (auto simp: holds_def)
  qed (auto simp: reread_call_def task_ok_def b split: option.splits)
  then show ?thesis by simp
qed

lemma stamp_call_inv:
  assumes inv: "decide_inv cfg s" and t: "sy_procs s p = TStamp i c"
    and call: "stamp_call f i c (sy_world s) = (t', w)"
  shows "decide_inv cfg (s\<lparr>sy_procs := (sy_procs s)(p := t'), sy_world := w\<rparr>)"
proof -
  have b: "sy_begun s (dc_ID c) = Some (i, c)" "recorded cfg (sy_audit s) c"
    using decide_invD(3) [OF inv, of p] by (simp_all add: t task_ok_def)
  obtain st where w: "w = (sy_world s)\<lparr>wd_store := st\<rparr>" and st: "st = wd_store (sy_world s) \<or>
      st = snd (StampApprovedSpec i (dc_Digest c) (dc_Binding c) (dc_Seal c) (wd_store (sy_world s)))"
    using call by (cases "f = Fails") (auto simp: stamp_call_def split: prod.splits intro: that [of "wd_store (sy_world s)"])
  have t': "t' = TSettle i c \<or> t' = TDone i c False"
    using call by (auto simp: stamp_call_def split: prod.splits if_splits)
  have same: "ms_parked st = ms_parked (wd_store (sy_world s))"
    "ms_runs st j = None \<longleftrightarrow> sy_rows s j = None"
    "ms_runs st j = Some r' \<Longrightarrow> \<exists>r. sy_rows s j = Some r \<and> DecisionID r' = DecisionID r \<and>
       DecisionClaim r' = DecisionClaim r \<and> Status r' = Status r" for j r'
    using st by (auto simp: StampApprovedSpec_def split: option.splits if_splits)
  let ?s = "s\<lparr>sy_world := (sy_world s)\<lparr>wd_store := st\<rparr>\<rparr>"
  have inv1: "decide_inv cfg ?s"
  proof (rule inv_store [OF inv])
    fix j r'
    assume "ms_runs st j = Some r'"
    from same(3) [OF this] show "row_ok cfg (sy_begun s) (sy_audit s) (ms_parked st) j r'"
      using decide_invD(2) [OF inv, of j] same(1) by (auto simp: row_ok_def)
  qed (use same(2,3) in \<open>auto simp: inv_kept [OF inv] dest: same(3)\<close>)
  show ?thesis unfolding w
    by (rule turn_finish [OF inv1, where i = i and c = c])
      (use t' b in \<open>auto simp: t task_ok_def finishing_def\<close>)
qed

lemma settle_status [simp]: "dst_Status (DecisionSettle_SanitizeText s) = dst_Status s"
  by (simp add: DecisionSettle_SanitizeText_def)

lemma settle_of_status [simp]: "dst_Status (settle_of own now c) = dc_Status c"
  by (simp add: settle_of_def Let_def)

lemma settle_row_fields [simp]:
  "DecisionID (settle_row now d r) = DecisionID r" "DecisionClaim (settle_row now d r) = DecisionClaim r"
  "Status (settle_row now d r) = Status r"
  by (simp_all add: settle_row_def Let_def)

lemma settle_call_inv:
  assumes inv: "decide_inv cfg s" and t: "sy_procs s p = TSettle i c"
    and call: "settle_call own now f i c (sy_world s) = (t', w)"
  shows "decide_inv cfg (s\<lparr>sy_procs := (sy_procs s)(p := t'), sy_world := w\<rparr>)"
proof -
  have b: "sy_begun s (dc_ID c) = Some (i, c)" "recorded cfg (sy_audit s) c"
    using decide_invD(3) [OF inv, of p] by (simp_all add: t task_ok_def)
  have st_c: "dc_Status c \<noteq> StatusPendingApproval"
    using decide_invD(1) [OF inv b(1)] by (auto simp: claim_ok_def)
  obtain st where w: "w = (sy_world s)\<lparr>wd_store := st\<rparr>" and st: "st = wd_store (sy_world s) \<or>
      st = snd (SettleDecision now i (dc_ID c) (settle_of own now c) (wd_store (sy_world s)))"
    using call by (cases "f = Fails") (auto simp: settle_call_def split: prod.splits intro: that [of "wd_store (sy_world s)"])
  have t': "t' = TConfirm i c \<or> (\<exists>m. t' = TDone i c m)"
    using call by (auto simp: settle_call_def split: prod.splits if_splits sum.splits)
  have same: "ms_parked st = ms_parked (wd_store (sy_world s))"
    using st by (auto simp: SettleDecision_def Let_def split: option.splits if_splits)
  have dom: "ms_runs st j = None \<longleftrightarrow> sy_rows s j = None" for j
    using st by (auto simp: SettleDecision_def Let_def split: option.splits if_splits)
  have row: "\<exists>r. sy_rows s j = Some r \<and> DecisionID r' = DecisionID r \<and>
       (r' = r \<or> j = i \<and> DecisionID r = dc_ID c \<and> DecisionClaim r' = [] \<and> Status r' = dc_Status c)"
    if "ms_runs st j = Some r'" for j r'
    using st that by (auto simp: SettleDecision_def Let_def split: option.splits if_splits)
  have inv1: "decide_inv cfg (s\<lparr>sy_world := (sy_world s)\<lparr>wd_store := st\<rparr>\<rparr>)"
  proof (rule inv_store [OF inv])
    fix j r'
    assume "ms_runs st j = Some r'"
    from row [OF this] show "row_ok cfg (sy_begun s) (sy_audit s) (ms_parked st) j r'"
      using decide_invD(2) [OF inv, of j] same b st_c by (auto simp: row_ok_def)
  qed (use dom row in \<open>auto simp: inv_kept [OF inv] dest: row\<close>)
  show ?thesis unfolding w
    by (rule turn_finish [OF inv1, where i = i and c = c])
      (use t' b in \<open>auto simp: t task_ok_def finishing_def\<close>)
qed

lemma confirm_call_inv:
  assumes inv: "decide_inv cfg s" and t: "sy_procs s p = TConfirm i c"
  shows "decide_inv cfg (s\<lparr>sy_procs := (sy_procs s)(p := confirm_call own f i c (sy_world s)), sy_world := sy_world s\<rparr>)"
proof -
  have "\<exists>m. confirm_call own f i c (sy_world s) = TDone i c m"
    by (auto simp: confirm_call_def split: option.splits)
  then show ?thesis using inv by (intro turn_idle) (auto simp: task_ok_def finishing_def)
qed

section \<open>The chain\<close>

lemma entries_ok_push:
  assumes "entries_ok b a" and "\<forall>i c ce. b (ae_ID e) = Some (i, c) \<and> dc_Entry c = Some ce \<longrightarrow> entry_of_claim e ce"
  shows "entries_ok b (push_entry e a)"
  using assms by (auto simp: entries_ok_def push_entry_def)

lemma stamped_entry_fields [simp]:
  "ae_ID (StampAppendTime prev e now) = ae_ID e" "ae_Actor (StampAppendTime prev e now) = ae_Actor e"
  "ae_Method (StampAppendTime prev e now) = ae_Method e" "ae_Path (StampAppendTime prev e now) = ae_Path e"
  by (simp_all add: StampAppendTime_def Let_def split: option.splits)

lemma Append_effect:
  assumes "Append ser sha now e a = (res, a')"
  shows "(a' = a \<and> (appended_ok res \<longrightarrow> ae_ID e \<in> as_ids a)) \<or>
    (\<exists>l. a' = push_entry l a \<and> ae_ID l = ae_ID e \<and> ae_Actor l = escapeInvalidUTF8 (ae_Actor e) \<and>
       ae_Method l = escapeInvalidUTF8 (ae_Method e) \<and> ae_Path l = escapeInvalidUTF8 (ae_Path e))"
  using assms Link_fields
  by (fastforce simp: Append_def appended_ok_def Let_def split: if_splits option.splits)

lemma append_call_inv:
  assumes inv: "decide_inv cfg s" and t: "sy_procs s p = TAppend i c"
    and call: "append_call cfg now f i c (sy_world s) = (t', w)"
  shows "decide_inv cfg (s\<lparr>sy_procs := (sy_procs s)(p := t'), sy_world := w\<rparr>)"
proof -
  have b: "sy_begun s (dc_ID c) = Some (i, c)" using decide_invD(3) [OF inv, of p] by (simp add: t task_ok_def)
  note ok = decide_invD(1) [OF inv b, THEN conjunct2]
  have fin: "finishing (sy_procs s p) = Some (i, c)" by (simp add: t finishing_def)
  note held = inv_kept [OF inv fin]
  have after: "finishing (after_append i c) = Some (i, c)"
    "recorded cfg a c \<Longrightarrow> task_ok cfg (sy_begun s) a (after_append i c)" for a
    using b by (simp_all add: after_append_def finishing_def task_ok_def)
  show ?thesis
  proof (cases "checkClaim cfg i c = None \<and> df_audits cfg \<and> f \<noteq> Fails")
    case False
    then have "w = sy_world s \<and> (t' = TDone i c False \<or> t' = after_append i c \<and> \<not> df_audits cfg)"
      using call ok by (auto simp: append_call_def claim_ok_def split: if_splits option.splits bool.splits)
    then show ?thesis
      using turn_finish [where s = s and w = w and t = t' and p = p and i = i and c = c] inv fin after by (auto simp: recorded_def task_ok_def finishing_def)
  next
    case True
    then obtain e where e: "dc_Entry c = Some e" "ce_ID e = dc_ID c" using ok by (auto simp: claim_ok_def)
    obtain res a where ap: "Append (df_ser cfg) (df_sha cfg) now (claim_entry_entry e) (sy_audit s) = (res, a)" by fastforce
    have w: "w = (sy_world s)\<lparr>wd_audit := a\<rparr>"
      and t': "t' = TDone i c False \<or> t' = after_append i c \<and> appended_ok res"
      using call True e(1) by (auto simp: append_call_def ap split: if_splits)
    have eff: "(a = sy_audit s \<and> (appended_ok res \<longrightarrow> dc_ID c \<in> as_ids a)) \<or>
        (\<exists>l. a = push_entry l (sy_audit s) \<and> ae_ID l = dc_ID c \<and> entry_of_claim l e)"
      using Append_effect [OF ap] e(2) by (auto simp: claim_entry_entry_def entry_of_claim_def)
    have inv1: "decide_inv cfg (s\<lparr>sy_world := (sy_world s)\<lparr>wd_audit := a\<rparr>\<rparr>)"
      using eff
    proof (elim disjE exE conjE)
      fix l
      assume l: "a = push_entry l (sy_audit s)" "ae_ID l = dc_ID c" "entry_of_claim l e"
      show ?thesis
      proof (rule inv_chain [OF inv])
        show "entries_ok (sy_begun s) a"
          unfolding l(1) by (rule entries_ok_push [OF decide_invD(4) [OF inv]]) (use l b e in auto)
        show "holds s d j" if "d \<in> as_ids a" "sy_begun s d = Some (j, x)" for d j x
          using that l held b by (auto simp: push_entry_def holds_def)
      qed (auto simp: l(1) push_entry_def inv_kept [OF inv])
    qed (use inv in simp)
    have rec: "recorded cfg a c" if "appended_ok res" using eff that by (auto simp: recorded_def push_entry_def)
    show ?thesis unfolding w
      by (rule turn_finish [OF inv1 _ fin]) (use t' rec after in \<open>auto simp: task_ok_def finishing_def\<close>)
  qed
qed

lemma audit_step_entries:
  assumes "audit_step ser sha a a'" and "entries_ok b a"
    and "\<forall>l. as_entries a' = as_entries a @ [l] \<longrightarrow> b (ae_ID l) = None"
  shows "entries_ok b a' \<and> as_ids a \<subseteq> as_ids a' \<and> (\<forall>d\<in>as_ids a'. b d \<noteq> None \<longrightarrow> d \<in> as_ids a)"
proof -
  have "(as_entries a' = as_entries a \<and> as_ids a' = as_ids a) \<or> (\<exists>l. a' = push_entry l a)"
    using audit_step_cases [OF assms(1)] by blast
  then show ?thesis
  proof (elim disjE exE conjE)
    fix l
    assume l: "a' = push_entry l a"
    then have "b (ae_ID l) = None" using assms(3) by (simp add: push_entry_def)
    then show ?thesis using entries_ok_push [OF assms(2), of l] by (auto simp: l push_entry_def)
  next
    assume "as_entries a' = as_entries a" "as_ids a' = as_ids a"
    then show ?thesis using assms(2) unfolding entries_ok_def by auto
  qed
qed

lemma reachable_entries_ok: "audit_reachable ser sha a \<Longrightarrow> entries_ok Map.empty a"
proof (induction rule: audit_reachable.induct)
  case (more a a')
  then show ?case using audit_step_entries [OF more.hyps(2) more.IH] by simp
qed (simp add: entries_ok_def NewAuditStore_def)

section \<open>Every step\<close>

lemma advance_inv:
  assumes inv: "decide_inv cfg s" and call: "decide_turn cfg own now f (sy_procs s p) (sy_world s) = (t', w)"
  shows "decide_inv cfg (s\<lparr>sy_procs := (sy_procs s)(p := t'), sy_world := w\<rparr>)"
proof (cases "sy_procs s p")
  case (TWithdraw i rec c)
  have "\<exists>recs. withdrawRecord f rec (sy_world s) = (sy_world s)\<lparr>wd_records := recs\<rparr>"
    by (cases rec) (auto simp: withdrawRecord_def intro: exI [of _ "wd_records (sy_world s)"])
  then show ?thesis using call TWithdraw
    by (auto intro!: turn_idle inv_records inv simp: task_ok_def finishing_def)
next
  case (TConfirm i c)
  then show ?thesis using call confirm_call_inv [OF inv TConfirm] by auto
next
  case (TReread i rec c)
  then show ?thesis using call reread_call_inv [OF inv TReread] by auto
next
  case TIdle
  then show ?thesis using call inv by (intro turn_idle) (auto simp: task_ok_def finishing_def)
next
  case (TDone i c m)
  show ?thesis using call inv unfolding TDone by (intro turn_idle) (auto simp: task_ok_def finishing_def)
qed (use call keep_call_inv [OF inv] claim_call_inv [OF inv] append_call_inv [OF inv] stamp_call_inv [OF inv]
  settle_call_inv [OF inv] in auto)

lemma janitor_claim:
  assumes inv: "decide_inv cfg s" and r: "sy_rows s i = Some r" "InFlight r" and c: "claimOf cfg r = Inr c"
  shows "sy_begun s (dc_ID c) = Some (i, c) \<and> dc_ID c = DecisionID r"
proof -
  have id: "dc_ID c = DecisionID r" "dc_ID c \<noteq> []" "read_claim cfg (DecisionClaim r) = Some c"
    using c by (auto simp: claimOf_def split: option.splits if_splits)
  then obtain x where x: "sy_begun s (DecisionID r) = Some (i, x)" "DecisionClaim r = claim_text cfg x"
    using decide_invD(2) [OF inv r(1)] r(2) by (auto simp: row_ok_def InFlight_def)
  then have "x = c" using decide_invD(1) [OF inv x(1)] id(3) by (simp add: claim_ok_def)
  then show ?thesis using x id by simp
qed

lemma step_inv:
  assumes "decide_step cfg own faulty s s'" and inv: "decide_inv cfg s"
  shows "decide_inv cfg s'"
  using assms(1)
proof cases
  case (begin_decision p i c c' rec)
  then show ?thesis using inv_begin [OF inv] by simp
next
  case (janitor p i r c)
  note jc = janitor_claim [OF inv janitor(3-5)]
  then have "holds s (dc_ID c) i" using janitor(3) by (auto simp: holds_def)
  then show ?thesis unfolding janitor(1) using jc by (intro inv_proc inv) (auto simp: task_ok_def finishing_def)
next
  case (turn p f now t w)
  then show ?thesis using advance_inv [OF inv] by simp
next
  case (crash p)
  then show ?thesis using inv_proc [OF inv, of TIdle] by (simp add: task_ok_def finishing_def)
next
  case (store st)
  have q: "case sy_rows s i of
        None \<Rightarrow> DecisionID r' = [] \<and> DecisionClaim r' = [] \<and> (\<forall>d c. sy_begun s d \<noteq> Some (i, c))
      | Some r \<Rightarrow> DecisionID r' = DecisionID r \<and> DecisionClaim r' = DecisionClaim r \<and>
          (DecisionID r' \<noteq> [] \<and> DecisionClaim r' = [] \<and> Status r' = StatusPendingApproval \<longrightarrow> i \<in> ms_parked st)"
    if "ms_runs st i = Some r'" for i r'
    using store(2) that unfolding quiet_def by blast
  show ?thesis unfolding store(1)
  proof (rule inv_store [OF inv])
    fix i r'
    assume r': "ms_runs st i = Some r'"
    show "row_ok cfg (sy_begun s) (sy_audit s) (ms_parked st) i r'"
    proof (cases "sy_rows s i")
      case None
      then show ?thesis using q [OF r'] by (simp add: row_ok_def)
    next
      case (Some r)
      then show ?thesis using q [OF r'] decide_invD(2) [OF inv Some] decide_invD(1) [OF inv]
        by (auto simp: row_ok_def claim_ok_def)
    qed
  next
    show "DecisionID r = []" if "sy_rows s i = Some r" "ms_runs st i = Some r'" "DecisionID r' \<noteq> DecisionID r" for i r r'
      using q [OF that(2)] that by simp
    show "DecisionID r' = [] \<and> (\<forall>d c. sy_begun s d \<noteq> Some (i, c))"
      if "sy_rows s i = None" "ms_runs st i = Some r'" for i r'
      using q [OF that(2)] that(1) by simp
  qed (rule inv_kept [OF inv])
next
  case (chain a)
  note e = audit_step_entries [OF chain(2) decide_invD(4) [OF inv] chain(3)]
  show ?thesis unfolding chain(1)
    by (rule inv_chain [OF inv]) (use e inv_kept [OF inv] in \<open>auto simp: holds_def\<close>)
next
  case (records recs)
  then show ?thesis using inv_records [OF inv] by simp
qed

lemma reach_inv: "decide_reach cfg own faulty s \<Longrightarrow> decide_inv cfg s"
proof (induction rule: decide_reach.induct)
  case (decide_start st a recs)
  then show ?case using reachable_entries_ok [OF decide_start(2)]
    by (simp add: decide_inv_def begun_ok_def row_ok_def task_ok_def finishing_def one_holder_def holds_def)
qed (rule step_inv)

end
