(* ===== verification/Decide_Finish.thy ===== *)
theory Decide_Finish
  imports Decide_Safety Audit_Tamper
begin

text \<open>
  What the invariant of \<open>Decide_Reach\<close> gives: a decision is on the record before it takes effect, one that
  lost is on no chain, a claimed one can always be finished and is started once, and its seal moves to no
  other run or claim.
\<close>

section \<open>What the steps keep true\<close>

text \<open>C1. A decision takes effect only once it is on the record. However deciders, every replica's janitor,
  the rest of the server and its clients interleave, and whichever calls fail, lose their answer or die
  with their process, a run whose decision has settled has an entry on the chain under that decision's
  id, naming the decider the claim was made with, the run or step it decides and the verdict.\<close>

theorem settled_decision_is_recorded:
  assumes "decide_reach cfg own faulty s" and "df_audits cfg"
    and "sy_rows s i = Some r" and "DecisionID r \<noteq> []" and "DecisionClaim r = []"
  shows "\<exists>e\<in>set (Chain (sy_audit s)). \<exists>c ce. sy_begun s (DecisionID r) = Some (i, c) \<and> dc_Entry c = Some ce \<and>
    ae_ID e = DecisionID r \<and> entry_of_claim e ce"
proof -
  note inv = reach_inv [OF assms(1)]
  obtain c where c: "sy_begun s (DecisionID r) = Some (i, c)" "DecisionClaim r = claim_text cfg c \<or> recorded cfg (sy_audit s) c"
    using decide_invD(2) [OF inv assms(3)] assms(4) by (auto simp: row_ok_def)
  have ok: "dc_ID c = DecisionID r" "claim_ok cfg c" using decide_invD(1) [OF inv c(1)] by simp_all
  then have "recorded cfg (sy_audit s) c" using c(2) assms(5) by (auto simp: claim_ok_def)
  then obtain e where e: "e \<in> set (as_entries (sy_audit s))" "ae_ID e = DecisionID r"
    using decide_invD(4) [OF inv] assms(2) ok(1) by (auto simp: recorded_def entries_ok_def)
  obtain ce where ce: "dc_Entry c = Some ce" using ok(2) assms(2) by (auto simp: claim_ok_def)
  have "entry_of_claim e ce" using decide_invD(4) [OF inv] e c(1) ce by (auto simp: entries_ok_def)
  then show ?thesis using e c(1) ce by (auto simp: Chain_def)
qed

text \<open>C2. A decision that lost is on no chain, and a run has one decision. Every decision entry the steps
  put on the chain is the winner of its run: while the run is stored, it is the decision the run names,
  and no other decision begun on that run, by a second approver, a rejection or the timeout, ever has an
  entry.\<close>

theorem losing_decision_is_never_recorded:
  assumes "decide_reach cfg own faulty s" and "e \<in> set (Chain (sy_audit s))" and "sy_begun s (ae_ID e) = Some (i, c)"
  shows "(\<forall>r. sy_rows s i = Some r \<longrightarrow> DecisionID r = ae_ID e) \<and>
    (\<forall>d c'. sy_begun s d = Some (i, c') \<and> d \<noteq> ae_ID e \<longrightarrow> (\<forall>e'\<in>set (Chain (sy_audit s)). ae_ID e' \<noteq> d))"
proof -
  note inv = reach_inv [OF assms(1)]
  have h: "holds s d i" if "e' \<in> set (Chain (sy_audit s))" "ae_ID e' = d" "sy_begun s d = Some (i, c')" for e' d c'
    using that decide_invD(4) [OF inv] by (auto simp: holds_def entries_ok_def Chain_def)
  note mine = h [OF assms(2) refl assms(3)]
  have "DecisionID r = ae_ID e" if "sy_rows s i = Some r" for r using decide_invD(6) [OF inv mine that] .
  moreover have "ae_ID e' \<noteq> d" if "sy_begun s d = Some (i, c')" "d \<noteq> ae_ID e" "e' \<in> set (Chain (sy_audit s))" for d c' e'
    using decide_invD(5) [OF inv mine] h [OF that(3) _ that(1)] that(2) by auto
  ultimately show ?thesis by blast
qed

section \<open>Seals\<close>

lemma sealed_claim_checks: "sealClaim cfg i c = Inr c' \<Longrightarrow> checkClaim cfg i c' = None"
  by (auto simp: sealClaim_def checkClaim_def claimBytes_def VerifyClaim_def SealClaim_def SealPrefix_def
      split: option.splits)

text \<open>A claim that checks on a run is the claim some process of this key sealed on that run, unless two
  texts have the same keyed hash: it cannot be changed, and it cannot be copied from another run.\<close>

lemma claim_seal_binds:
  assumes "df_mac cfg = Some mac" and "checkClaim cfg i c = None" and "checkClaim cfg i' c' = None"
    and "dc_ClaimSeal c = dc_ClaimSeal c'"
    and inj: "\<And>u v. df_render cfg u = df_render cfg v \<Longrightarrow> u = v"
  shows "i = i' \<and> claimBytes cfg c = claimBytes cfg c' \<or> (\<exists>x y. x \<noteq> y \<and> mac x = mac y)"
proof -
  let ?t = "\<lambda>i raw. df_render cfg (CvObj [(''kind'', CvStr KindClaim), (''run_id'', CvStr i), (''claim'', CvStr raw)])"
  obtain raw raw' where raw: "claimBytes cfg c = Some raw" "claimBytes cfg c' = Some raw'"
      "SealClaim cfg mac i raw = SealClaim cfg mac i' raw'"
    using assms(1-4) by (auto simp: checkClaim_def VerifyClaim_def split: if_splits option.splits)
  then have m: "mac (?t i raw) = mac (?t i' raw')" using EncodeToString_inj by (auto simp: SealClaim_def)
  show ?thesis
  proof (cases "?t i raw = ?t i' raw'")
    case True
    from inj [OF this] show ?thesis using raw(1,2) by simp
  next
    case False
    then show ?thesis using m by blast
  qed
qed

lemma begun_checks:
  assumes "decide_reach cfg own faulty s"
  shows "sy_begun s d = Some (i, c) \<Longrightarrow> checkClaim cfg i c = None"
  using assms
proof (induction arbitrary: d i c rule: decide_reach.induct)
  case (decide_more s s')
  from decide_more.hyps(2) decide_more.IH decide_more.prems show ?case
    by cases (auto simp: sealed_claim_checks split: if_splits)
qed simp

section \<open>Finishing\<close>

lemma Append_decision:
  assumes "ae_Method e = MethodDecision" and "\<forall>j. ser j \<noteq> None"
  shows "appended_ok (fst (Append ser sha now e a)) \<and> ae_ID e \<in> as_ids (snd (Append ser sha now e a))"
proof -
  have m: "\<not> IsSpanMarker e" "OutcomeRunID e = None"
    using assms(1) by (simp_all add: IsSpanMarker_def OutcomeRunID_def SpanMethod_def MethodRun_def MethodDecision_def)
  have link: "\<exists>l. Link ser sha p x = Some l \<and> ae_ID l = ae_ID x" for p x
  proof -
    have "Link ser sha p x \<noteq> None"
      using assms(2) by (auto simp: Link_def Let_def EntryHash_def checkedLinkOf_def split: option.splits)
    then show ?thesis using Link_fields(1) by blast
  qed
  show ?thesis
  proof (cases "ae_ID e \<in> as_ids a")
    case False
    obtain l where "Link ser sha (head_entry a) (StampAppendTime (head_entry a) (BindEntryInstall (as_installID a) e) now) = Some l"
      "ae_ID l = ae_ID e" using link by fastforce
    then show ?thesis using False by (simp add: Append_def m Let_def appended_ok_def push_entry_def)
  qed (simp add: Append_def m appended_ok_def)
qed

lemma append_finish:
  assumes "claim_ok cfg c" and "checkClaim cfg i c = None" and "\<forall>j. df_ser cfg j \<noteq> None"
  shows "\<exists>a. append_call cfg now Works i c w = (after_append i c, w\<lparr>wd_audit := a\<rparr>) \<and> recorded cfg a c"
proof (cases "df_audits cfg")
  case True
  then obtain e where e: "dc_Entry c = Some e" "ce_ID e = dc_ID c" "ce_Method e = MethodDecision"
    using assms(1) by (auto simp: claim_ok_def)
  have x: "ae_Method (claim_entry_entry e) = MethodDecision" "ae_ID (claim_entry_entry e) = dc_ID c"
    using e by (simp_all add: claim_entry_entry_def)
  show ?thesis
    using Append_decision [OF x(1) assms(3), of "df_sha cfg" now "wd_audit w"] True e(1) x(2) assms(2)
    by (intro exI [of _ "snd (Append (df_ser cfg) (df_sha cfg) now (claim_entry_entry e) (wd_audit w))"])
      (auto simp: append_call_def recorded_def split: prod.splits)
next
  case False
  then show ?thesis using assms(2)
    by (intro exI [of _ "wd_audit w"]) (auto simp: append_call_def recorded_def split: option.splits)
qed

lemma settle_finish:
  assumes "ms_runs (wd_store w) i = Some r" and "InFlight r" and "DecisionID r = dc_ID c"
    and "dc_Status c = StatusPending \<or> dc_Status c = StatusRunning \<or> Terminal (dc_Status c)" and "own \<noteq> []"
  shows "\<exists>st r'. settle_call own now Works i c w = (TDone i c True, w\<lparr>wd_store := st\<rparr>) \<and> ms_runs st i = Some r' \<and>
    DecisionID r' = dc_ID c \<and> DecisionClaim r' = [] \<and> Status r' = dc_Status c"
proof -
  have "DecisionSettle_Check (settle_of own now c) = None"
    using assms(4,5) by (auto simp: settle_of_def Let_def DecisionSettle_Check_def)
  then show ?thesis using assms(1-3)
    by (auto simp: settle_call_def SettleDecision_def Let_def split: prod.splits)
qed

text \<open>C4. A decision that won is never stuck. Whatever became of the process that made it, any janitor that
  reads the claimed run and whose calls go through records the decision and settles its run as the
  claim says: in three calls the chain holds the decision's entry, the run stores that decision with no
  claim left, and this janitor is told to start what was released.\<close>

theorem claimed_decision_is_finished:
  assumes "decide_reach cfg own faulty s" and "sy_rows s i = Some r" and "InFlight r" and "ID r = i"
    and "DecisionID r \<noteq> []" and "\<forall>j. df_ser cfg j \<noteq> None" and "jan \<noteq> []"
  shows "\<exists>c w r'. finishClaimed cfg jan now r (sy_world s) = (TDone i c True, w) \<and>
    sy_begun s (DecisionID r) = Some (i, c) \<and> (df_audits cfg \<longrightarrow> DecisionID r \<in> as_ids (wd_audit w)) \<and>
    ms_runs (wd_store w) i = Some r' \<and> DecisionID r' = DecisionID r \<and> DecisionClaim r' = [] \<and> Status r' = dc_Status c"
proof -
  note inv = reach_inv [OF assms(1)]
  have "DecisionClaim r \<noteq> []" using assms(3) by (simp add: InFlight_def)
  then obtain c where c: "sy_begun s (DecisionID r) = Some (i, c)" "DecisionClaim r = claim_text cfg c"
    using decide_invD(2) [OF inv assms(2)] assms(5) by (auto simp: row_ok_def)
  have ok: "dc_ID c = DecisionID r" "claim_ok cfg c" using decide_invD(1) [OF inv c(1)] by simp_all
  have read: "claimOf cfg r = Inr c" using c(2) ok assms(5) by (simp add: claimOf_def claim_ok_def)
  let ?w0 = "sy_world s"
  obtain a where a: "append_call cfg now Works i c ?w0 = (after_append i c, ?w0\<lparr>wd_audit := a\<rparr>)" "recorded cfg a c"
    using append_finish [OF ok(2) begun_checks [OF assms(1) c(1)] assms(6)] by blast
  let ?w1 = "?w0\<lparr>wd_audit := a\<rparr>"
  have status: "dc_Status c = StatusPending \<or> dc_Status c = StatusRunning \<or> Terminal (dc_Status c)"
    using ok(2) by (simp add: claim_ok_def)
  define st1 where "st1 = (if stamps c then snd (StampApprovedSpec i (dc_Digest c) (dc_Binding c) (dc_Seal c) (wd_store ?w1)) else wd_store ?w1)"
  obtain r1 where r1: "ms_runs st1 i = Some r1" "InFlight r1" "DecisionID r1 = dc_ID c"
    using assms(2,3) ok(1) by (cases "stamps c") (auto simp: st1_def StampApprovedSpec_def InFlight_def)
  obtain st2 r' where st2: "settle_call jan now Works i c (?w1\<lparr>wd_store := st1\<rparr>) = (TDone i c True, ?w1\<lparr>wd_store := st2\<rparr>)"
      "ms_runs st2 i = Some r'" "DecisionID r' = dc_ID c" "DecisionClaim r' = []" "Status r' = dc_Status c"
    using settle_finish [of "?w1\<lparr>wd_store := st1\<rparr>" i r1 c jan now] r1 status assms(7) by auto
  have stamped: "stamp_call Works i c ?w1 = (TSettle i c, ?w1\<lparr>wd_store := st1\<rparr>)" if "stamps c"
    using that assms(2) by (auto simp: stamp_call_def st1_def StampApprovedSpec_def)
  have "finishDecision cfg jan now i c ?w0 = (TDone i c True, ?w1\<lparr>wd_store := st2\<rparr>)"
    using a(1) stamped st2(1)
    by (cases "stamps c") (simp_all add: finishDecision_def numeral_3_eq_3 after_append_def st1_def)
  then show ?thesis using read assms(4) c ok a(2) st2
    by (intro exI [of _ c] exI [of _ "?w1\<lparr>wd_store := st2\<rparr>"] exI [of _ r']) (simp add: finishClaimed_def recorded_def)
qed

section \<open>Started once\<close>

text \<open>A finisher whose settlement failed reads the run to see whether it landed, and takes a run its own
  process holds running for one it released itself. Another finisher of that process may have settled
  it: then both are told to start it.\<close>

lemma failed_settle_may_start_twice:
  assumes "ms_runs (wd_store w) i = Some r" and "InFlight r" and "DecisionID r = dc_ID c"
    and "dc_Status c = StatusRunning" and "own \<noteq> []"
  shows "\<exists>w'. settle_call own now Works i c w = (TDone i c True, w') \<and>
    settle_call own now Fails i c w' = (TConfirm i c, w') \<and> confirm_call own Works i c w' = TDone i c True"
proof -
  have "DecisionSettle_Check (settle_of own now c) = None"
    using assms(4,5) by (auto simp: settle_of_def Let_def DecisionSettle_Check_def)
  then show ?thesis using assms
    by (auto simp: settle_call_def SettleDecision_def Let_def confirm_call_def settle_of_def InFlight_def
        DecisionSettle_SanitizeText_def settle_row_def split: prod.splits)
qed

text \<open>With every settlement answered, one finisher starts it.\<close>

definition settles_answered :: "decide_task \<Rightarrow> fault \<Rightarrow> bool" where
  "settles_answered t f \<longleftrightarrow> (case t of TSettle _ _ \<Rightarrow> f = Works | _ \<Rightarrow> True)"

text \<open>What one call does to a row.\<close>

definition row_call :: "string set \<Rightarrow> string \<Rightarrow> run option \<Rightarrow> run option \<Rightarrow> bool" where
  "row_call parked j x y \<longleftrightarrow> x = y \<or> (\<exists>r r'. x = Some r \<and> y = Some r' \<and>
     (DecisionID r' = DecisionID r \<and> (DecisionClaim r' = DecisionClaim r \<or> DecisionClaim r \<noteq> []) \<or>
      Status r = StatusPendingApproval \<and> DecisionClaim r = [] \<and> j \<notin> parked))"

lemma row_call_refl [simp]: "row_call parked j x x"
  by (simp add: row_call_def)

lemma row_call_claim: "row_call (ms_parked st) j (ms_runs st j) (ms_runs (snd (ClaimDecision i d c st)) j)"
  by (auto simp: ClaimDecision_def row_call_def split: option.splits)

lemma row_call_stamp: "row_call (ms_parked st) j (ms_runs st j) (ms_runs (snd (StampApprovedSpec i a b c st)) j)"
  by (auto simp: StampApprovedSpec_def row_call_def split: option.splits)

lemma row_call_settle: "row_call (ms_parked st) j (ms_runs st j) (ms_runs (snd (SettleDecision now i d c st)) j)"
  by (auto simp: SettleDecision_def Let_def row_call_def InFlight_def split: option.splits)

lemma advance_rows:
  assumes "decide_turn cfg own now f t0 w = (t, w')"
  shows "row_call (ms_parked (wd_store w)) j (ms_runs (wd_store w) j) (ms_runs (wd_store w') j)"
proof (cases t0)
  case (TKeep i rec c)
  then show ?thesis using assms by (cases rec) (auto simp: keep_call_def Let_def split: if_splits prod.splits)
next
  case (TClaim i rec c)
  then show ?thesis using assms row_call_claim [of "wd_store w" j i "dc_ID c" "claim_text cfg c"]
    by (auto simp: claim_call_def split: if_splits prod.splits)
next
  case (TWithdraw i rec c)
  then show ?thesis using assms by (cases rec) (auto simp: withdrawRecord_def)
next
  case (TAppend i c)
  then show ?thesis using assms
    by (auto simp: append_call_def split: if_splits prod.splits option.splits bool.splits)
next
  case (TStamp i c)
  then show ?thesis using assms row_call_stamp [of "wd_store w" j i "dc_Digest c" "dc_Binding c" "dc_Seal c"]
    by (auto simp: stamp_call_def split: if_splits prod.splits)
next
  case (TSettle i c)
  then show ?thesis using assms row_call_settle [of "wd_store w" j now i "dc_ID c" "settle_of own now c"]
    by (auto simp: settle_call_def split: if_splits prod.splits)
qed (use assms in auto)

text \<open>A settled row stays as its decision left it, and a row that is gone stays gone while a decision was
  begun on it.\<close>

definition settled_row :: "system \<Rightarrow> string \<Rightarrow> string \<Rightarrow> bool" where
  "settled_row s i d \<longleftrightarrow> d \<noteq> [] \<and> (\<exists>c. sy_begun s d = Some (i, c)) \<and>
     (\<forall>r. sy_rows s i = Some r \<longrightarrow> DecisionID r = d \<and> DecisionClaim r = [])"

lemma settled_row_step:
  assumes inv: "decide_inv cfg s" and "decide_step cfg own faulty s s'" and "settled_row s i d"
  shows "settled_row s' i d"
  using assms(2)
proof cases
  case (turn p f now t w)
  have "DecisionID r' = d \<and> DecisionClaim r' = []" if r': "ms_runs (wd_store w) i = Some r'" for r'
  proof -
    have "row_call (ms_parked (wd_store (sy_world s))) i (sy_rows s i) (Some r')"
      using advance_rows [OF turn(3), of i] r' by simp
    then obtain r where r: "sy_rows s i = Some r" "row_call (ms_parked (wd_store (sy_world s))) i (Some r) (Some r')"
      by (auto simp: row_call_def)
    have "DecisionID r = d" "DecisionClaim r = []" "d \<noteq> []" using assms(3) r(1) by (auto simp: settled_row_def)
    moreover have "claim_text cfg c \<noteq> []" if "sy_begun s d = Some (i, c)" for c
      using decide_invD(1) [OF inv that] by (simp add: claim_ok_def)
    ultimately have "Status r = StatusPendingApproval \<longrightarrow> i \<in> ms_parked (wd_store (sy_world s))"
      using decide_invD(2) [OF inv r(1)] by (auto simp: row_ok_def)
    then show ?thesis using r(2) \<open>DecisionID r = d\<close> \<open>DecisionClaim r = []\<close> by (auto simp: row_call_def)
  qed
  then show ?thesis using assms(3) by (simp add: turn(1) settled_row_def)
next
  case (store st)
  have "DecisionID r' = d \<and> DecisionClaim r' = []" if r': "ms_runs st i = Some r'" for r'
    using store(2) r' assms(3) unfolding quiet_def settled_row_def
    by (cases "sy_rows s i") (fastforce dest!: spec [of _ i])+
  then show ?thesis using assms(3) by (simp add: store(1) settled_row_def)
next
  case (begin_decision p j c c' rec)
  then show ?thesis using assms(3) by (auto simp: settled_row_def)
qed (use assms(3) in \<open>simp_all add: settled_row_def\<close>)

lemma turn_done:
  assumes "decide_turn cfg own now f t0 w = (TDone i c True, w')" and "t0 \<noteq> TDone i c True" and "\<forall>i c. t0 \<noteq> TConfirm i c"
  shows "t0 = TSettle i c \<and> f = Works \<and> (\<exists>r r'. ms_runs (wd_store w) i = Some r \<and> InFlight r \<and> DecisionID r = dc_ID c \<and>
    ms_runs (wd_store w') i = Some r' \<and> DecisionID r' = dc_ID c \<and> DecisionClaim r' = [])"
  using assms
  by (cases t0; cases f)
    (auto simp: keep_call_def claim_call_def reread_call_def append_call_def stamp_call_def settle_call_def after_append_def
      SettleDecision_def Let_def split: if_splits option.splits prod.splits sum.splits bool.splits)

definition once_inv :: "system \<Rightarrow> bool" where
  "once_inv s \<longleftrightarrow> (\<forall>p i c. sy_procs s p \<noteq> TConfirm i c) \<and>
     (\<forall>p i c. sy_procs s p = TDone i c True \<longrightarrow> settled_row s i (dc_ID c)) \<and>
     (\<forall>p q i c j c'. sy_procs s p = TDone i c True \<and> sy_procs s q = TDone j c' True \<and> dc_ID c = dc_ID c' \<longrightarrow> p = q)"

lemma once_inv_others:
  assumes "once_inv s" and "decide_inv cfg s" and "decide_step cfg own faulty s s'"
    and "\<And>q. q \<noteq> p \<Longrightarrow> sy_procs s' q = sy_procs s q" and "\<forall>i c. sy_procs s' p \<noteq> TConfirm i c"
    and "\<And>i c. sy_procs s' p = TDone i c True \<Longrightarrow> sy_procs s p = TDone i c True \<or>
      settled_row s' i (dc_ID c) \<and> \<not> settled_row s i (dc_ID c)"
  shows "once_inv s'"
proof -
  have "sy_begun s d = Some (i, x) \<Longrightarrow> sy_begun s d = Some (j, y) \<Longrightarrow> i = j" for d i j x y by simp
  then have same: "i = j" if "settled_row s i d" "settled_row s j d" for i j d
    using that by (auto simp: settled_row_def)
  note keep = settled_row_step [OF assms(2,3)]
  have settled: "settled_row s' i (dc_ID c)" if "sy_procs s' q = TDone i c True" for q i c
    using that keep assms(1,4,6) by (cases "q = p") (auto simp: once_inv_def)
  have begun: "\<exists>x. sy_begun s' (dc_ID c) = Some (i, x)" if "sy_procs s' q = TDone i c True" for q i c
    using settled [OF that] by (auto simp: settled_row_def)
  have one: "q = p" if h: "sy_procs s' p = TDone i c True" "sy_procs s' q = TDone j c' True" "dc_ID c = dc_ID c'" for q i c j c'
  proof (rule ccontr)
    assume "q \<noteq> p"
    then have q: "sy_procs s q = TDone j c' True" using assms(4) h(2) by simp
    have "j = i" using begun [OF h(1)] begun [OF h(2)] h(3) by auto
    then have "settled_row s i (dc_ID c)" using assms(1) q h(3) by (auto simp: once_inv_def)
    then have "sy_procs s p = TDone i c True" using assms(6) [OF h(1)] by blast
    then show False using assms(1) q h(3) \<open>q \<noteq> p\<close> by (auto simp: once_inv_def)
  qed
  show ?thesis
    unfolding once_inv_def
  proof (intro conjI allI impI)
    fix a b i c j c'
    assume h: "sy_procs s' a = TDone i c True \<and> sy_procs s' b = TDone j c' True \<and> dc_ID c = dc_ID c'"
    then show "a = b"
      using one [of i c b j c'] one [of j c' a i c] assms(1,4) unfolding once_inv_def by metis
  qed (use assms(1,4,5) settled in \<open>auto simp: once_inv_def\<close>, metis assms(4,5))
qed

lemma turn_no_confirm:
  assumes "decide_turn cfg own now f t0 w = (t, w')" and "settles_answered t0 f" and "\<forall>i c. t0 \<noteq> TConfirm i c"
    and "\<And>i c. t0 = TSettle i c \<Longrightarrow> DecisionSettle_Check (settle_of own now c) = None"
  shows "t \<noteq> TConfirm i c"
proof
  assume "t = TConfirm i c"
  with assms show False
    by (cases t0) (auto simp: keep_call_def claim_call_def reread_call_def append_call_def stamp_call_def settle_call_def
      after_append_def settles_answered_def SettleDecision_def Let_def split: if_splits option.splits prod.splits sum.splits bool.splits)
qed

lemma once_step:
  assumes "decide_step cfg own settles_answered s s'" and inv: "decide_inv cfg s" and once: "once_inv s" and own: "\<forall>p. own p \<noteq> []"
  shows "once_inv s'"
  using assms(1)
proof cases
  case (turn p f now t w)
  have settle: "DecisionSettle_Check (settle_of (own p) now c) = None" if "sy_procs s p = TSettle i c" for i c
  proof -
    have "claim_ok cfg c" using decide_invD(1) [OF inv] decide_invD(3) [OF inv, of p] that by (auto simp: task_ok_def)
    then show ?thesis using own by (auto simp: claim_ok_def settle_of_def Let_def DecisionSettle_Check_def)
  qed
  show ?thesis
  proof (rule once_inv_others [OF once inv assms(1), of p])
    show "\<forall>i c. sy_procs s' p \<noteq> TConfirm i c"
      using turn_no_confirm [OF turn(3,2)] once settle by (auto simp: turn(1) once_inv_def)
    show "sy_procs s p = TDone i c True \<or> settled_row s' i (dc_ID c) \<and> \<not> settled_row s i (dc_ID c)"
      if d: "sy_procs s' p = TDone i c True" for i c
    proof (cases "sy_procs s p = TDone i c True")
      case False
      have "t = TDone i c True" using d by (simp add: turn(1))
      note call = turn_done [OF turn(3) [unfolded this] False]
      obtain r r' where r: "sy_procs s p = TSettle i c" "sy_rows s i = Some r" "InFlight r"
          "ms_runs (wd_store w) i = Some r'" "DecisionID r' = dc_ID c" "DecisionClaim r' = []"
        using call once by (auto simp: once_inv_def)
      have b: "sy_begun s (dc_ID c) = Some (i, c)" using decide_invD(3) [OF inv, of p] r(1) by (simp add: task_ok_def)
      have "dc_ID c \<noteq> []" using decide_invD(1) [OF inv b] by (simp add: claim_ok_def)
      then have "settled_row s' i (dc_ID c)" using r b by (simp add: turn(1) settled_row_def)
      moreover have "\<not> settled_row s i (dc_ID c)" using r by (auto simp: settled_row_def InFlight_def)
      ultimately show ?thesis by blast
    qed simp
  qed (simp add: turn(1))
next
  case (begin_decision p i c c' rec)
  show ?thesis
    by (rule once_inv_others [OF once inv assms(1), of p]) (use once in \<open>auto simp: begin_decision(1) once_inv_def\<close>)
next
  case (janitor p i r c)
  show ?thesis
    by (rule once_inv_others [OF once inv assms(1), of p]) (use once in \<open>auto simp: janitor(1) once_inv_def\<close>)
next
  case (crash p)
  show ?thesis
    by (rule once_inv_others [OF once inv assms(1), of p]) (use once in \<open>auto simp: crash(1) once_inv_def\<close>)
next
  case (store st)
  show ?thesis
    by (rule once_inv_others [OF once inv assms(1), of 0]) (use once in \<open>auto simp: store(1) once_inv_def\<close>)
next
  case (chain a)
  show ?thesis
    by (rule once_inv_others [OF once inv assms(1), of 0]) (use once in \<open>auto simp: chain(1) once_inv_def\<close>)
next
  case (records recs)
  show ?thesis
    by (rule once_inv_others [OF once inv assms(1), of 0]) (use once in \<open>auto simp: records(1) once_inv_def\<close>)
qed

text \<open>C3. What a decision released is started once. As long as the store answers the settlements (any other
  call may fail or lose its answer, and any process may die), then of all the processes that finish one
  decision at the same time, the decider and every replica's janitor, at most one is told to start it.\<close>

theorem decision_is_started_once:
  assumes "decide_reach cfg own settles_answered s" and "\<forall>p. own p \<noteq> []"
    and "sy_procs s p = TDone i c True" and "sy_procs s q = TDone j c' True" and "dc_ID c = dc_ID c'"
  shows "p = q"
proof -
  have "once_inv s" using assms(1)
  proof (induction rule: decide_reach.induct)
    case (decide_more s s')
    then show ?case using once_step [OF decide_more.hyps(2) reach_inv [OF decide_more.hyps(1)]] assms(2) by blast
  qed (simp add: once_inv_def)
  then show ?thesis using assms(3-5) unfolding once_inv_def by blast
qed

section \<open>An execution\<close>

lemma reach_turn:
  "decide_reach cfg own faulty s \<Longrightarrow> faulty (sy_procs s p) Works \<Longrightarrow>
   decide_turn cfg (own p) now Works (sy_procs s p) (sy_world s) = (t, w) \<Longrightarrow>
   decide_reach cfg own faulty (s\<lparr>sy_procs := (sy_procs s)(p := t), sy_world := w\<rparr>)"
  by (rule decide_more [OF _ decide_step.turn])

text \<open>One approval of one held run, with a janitor that finishes it.\<close>

definition sample_claim :: decision_claim where
  "sample_claim = \<lparr>dc_ID = ''d1'', dc_Verdict = ''approved'', dc_Step = False,
     dc_Entry = Some \<lparr>ce_ID = ''d1'', ce_At = 0, ce_Actor = ''ann'', ce_ActorType = ''session'', ce_OnBehalfOf = [],
       ce_Method = MethodDecision, ce_Path = ''/runs/a/decision/approved'', ce_ContentDigest = [], ce_Nonce = []\<rparr>,
     dc_Status = StatusPending, dc_Error = [], dc_Finalize = False, dc_Digest = [], dc_Binding = [], dc_Seal = [],
     dc_ClaimSeal = []\<rparr>"

definition sample_cfg :: decide_cfg where
  "sample_cfg = \<lparr>df_render = (\<lambda>_. ''x''), df_parse = (\<lambda>_. Some (claim_tree sample_claim)), df_mac = None, df_audits = True,
     df_ser = (\<lambda>_. Some []), df_sha = (\<lambda>x. x)\<rparr>"

definition sample_run :: run where
  "sample_run = zero_run\<lparr>ID := ''a'', Status := StatusPendingApproval\<rparr>"

definition sample_world :: decide_world where
  "sample_world = \<lparr>wd_store = NewMemStore\<lparr>ms_runs := [''a'' \<mapsto> sample_run]\<rparr>, wd_records = Map.empty, wd_audit = NewAuditStore\<rparr>"

lemma sample_claim_ok: "claim_ok sample_cfg sample_claim" "sealClaim sample_cfg i sample_claim = Inr sample_claim"
proof -
  have "claim_of_tree (claim_tree sample_claim) = Some sample_claim" by code_simp
  then show "claim_ok sample_cfg sample_claim"
    by (simp add: claim_ok_def sample_cfg_def claim_text_def read_claim_def) (simp add: sample_claim_def)
qed (simp add: sealClaim_def sample_cfg_def)

lemma sample_in_flight:
  "\<exists>s r. decide_reach sample_cfg (\<lambda>_. ''o'') settles_answered s \<and> sy_begun s ''d1'' = Some (''a'', sample_claim) \<and> sy_procs s 1 = TIdle \<and>
     sy_rows s ''a'' = Some r \<and> InFlight r \<and> ID r = ''a'' \<and> DecisionID r = ''d1'' \<and> DecisionClaim r = claim_text sample_cfg sample_claim"
proof -
  let ?R = "decide_reach sample_cfg (\<lambda>_. ''o'') settles_answered"
  let ?s0 = "\<lparr>sy_begun = Map.empty, sy_procs = (\<lambda>_. TIdle), sy_world = sample_world\<rparr>"
  let ?b = "[''d1'' \<mapsto> (''a'', sample_claim)]"
  have run: "DecisionID sample_run = []" "DecisionClaim sample_run = []" "Status sample_run = StatusPendingApproval"
    "ClaimedBy sample_run = []" "\<not> CancelRequested sample_run" "ID sample_run = ''a''"
    by (simp_all add: sample_run_def zero_run_def)
  have parked: "ms_parked (wd_store sample_world) = {}" by (simp add: sample_world_def NewMemStore_def)
  have rows: "ms_runs (wd_store sample_world) = [''a'' \<mapsto> sample_run]" by (simp add: sample_world_def)
  have cid: "dc_ID sample_claim = ''d1''" by (simp add: sample_claim_def)
  have stored: "claim_text sample_cfg sample_claim = ''x''" by (simp add: claim_text_def sample_cfg_def)
  have s0: "?R ?s0" unfolding sample_world_def
    by (rule decide_reach.decide_start) (simp_all add: run audit_reachable.new)
  let ?s1 = "?s0\<lparr>sy_begun := ?b, sy_procs := (\<lambda>_. TIdle)(0 := TKeep ''a'' None sample_claim)\<rparr>"
  have s1: "?R ?s1"
    using decide_more [OF s0 decide_step.begin_decision [of ?s0 0 sample_cfg "''a''" sample_claim sample_claim]] sample_claim_ok cid
    by (simp add: sample_world_def NewAuditStore_def)
  let ?s2 = "?s1\<lparr>sy_procs := (sy_procs ?s1)(0 := TClaim ''a'' None sample_claim), sy_world := sample_world\<rparr>"
  have s2: "?R ?s2"
    by (rule reach_turn [OF s1]) (simp_all add: settles_answered_def keep_call_def sample_claim_ok)
  let ?r = "sample_run\<lparr>DecisionID := ''d1'', DecisionClaim := ''x''\<rparr>"
  let ?w = "sample_world\<lparr>wd_store := put_run ''a'' ?r (wd_store sample_world)\<rparr>"
  let ?s3 = "?s2\<lparr>sy_procs := (sy_procs ?s2)(0 := TAppend ''a'' sample_claim), sy_world := ?w\<rparr>"
  have "?R ?s3"
    by (rule reach_turn [OF s2]) (simp_all add: settles_answered_def claim_call_def ClaimDecision_def cid stored rows run parked)
  moreover have "sy_begun ?s3 = ?b" "sy_procs ?s3 1 = TIdle" "sy_rows ?s3 ''a'' = Some ?r" by simp_all
  ultimately show ?thesis using run stored
    by (intro exI [of _ ?s3] exI [of _ ?r]) (simp add: InFlight_def)
qed

theorem claimed_decision_is_finished_witness:
  "\<exists>s r w r'. decide_reach sample_cfg (\<lambda>_. ''o'') settles_answered s \<and> fst (finishClaimed sample_cfg ''o'' 7 r (sy_world s)) = TDone ''a'' sample_claim True \<and>
     w = snd (finishClaimed sample_cfg ''o'' 7 r (sy_world s)) \<and> ''d1'' \<in> as_ids (wd_audit w) \<and>
     ms_runs (wd_store w) ''a'' = Some r' \<and> DecisionClaim r' = [] \<and> Status r' = StatusPending"
proof -
  obtain s r where s: "decide_reach sample_cfg (\<lambda>_. ''o'') settles_answered s" "sy_begun s ''d1'' = Some (''a'', sample_claim)"
      "sy_rows s ''a'' = Some r" "InFlight r" "ID r = ''a''" "DecisionID r = ''d1''"
    using sample_in_flight by blast
  have cfg: "\<forall>j. df_ser sample_cfg j \<noteq> None" "df_audits sample_cfg" "''o'' \<noteq> []" "DecisionID r \<noteq> []"
    using s(6) by (simp_all add: sample_cfg_def)
  obtain c w r' where f: "finishClaimed sample_cfg ''o'' 7 r (sy_world s) = (TDone ''a'' c True, w)"
      "sy_begun s (DecisionID r) = Some (''a'', c)" "DecisionID r \<in> as_ids (wd_audit w)"
      "ms_runs (wd_store w) ''a'' = Some r'" "DecisionClaim r' = []" "Status r' = dc_Status c"
    using claimed_decision_is_finished [OF s(1,3,4,5) cfg(4,1,3), of 7] cfg(2) by blast
  have "c = sample_claim" using f(2) s(2,6) by simp
  moreover have "dc_Status sample_claim = StatusPending" by (simp add: sample_claim_def)
  ultimately show ?thesis using f s(1,6)
    by (intro exI [of _ s] exI [of _ r] exI [of _ w] exI [of _ r']) simp
qed

text \<open>The finish, as steps of the system.\<close>

lemma finish_reach:
  assumes "decide_reach cfg own faulty s" and "\<forall>t. faulty t Works" and "sy_procs s p = TIdle"
    and "sy_rows s i = Some r" and "InFlight r" and "ID r = i" and "claimOf cfg r = Inr c"
  shows "decide_reach cfg own faulty (s\<lparr>sy_procs := (sy_procs s)(p := fst (finishClaimed cfg (own p) now r (sy_world s))),
    sy_world := snd (finishClaimed cfg (own p) now r (sy_world s))\<rparr>)"
proof -
  let ?f = "\<lambda>(t, w). decide_turn cfg (own p) now Works t w"
  let ?at = "\<lambda>x. s\<lparr>sy_procs := (sy_procs s)(p := fst x), sy_world := snd x\<rparr>"
  let ?x0 = "(TAppend i c, sy_world s)"
  have step: "decide_reach cfg own faulty (?at (?f x))" if h: "decide_reach cfg own faulty (?at x)" for x
  proof -
    have "faulty (sy_procs (?at x) p) Works" using assms(2) by blast
    moreover have "decide_turn cfg (own p) now Works (sy_procs (?at x) p) (sy_world (?at x)) = (fst (?f x), snd (?f x))"
      by (simp add: case_prod_beta)
    ultimately have "decide_reach cfg own faulty ((?at x)\<lparr>sy_procs := (sy_procs (?at x))(p := fst (?f x)), sy_world := snd (?f x)\<rparr>)"
      by (rule reach_turn [OF h])
    then show ?thesis by simp
  qed
  have "decide_reach cfg own faulty (?at ?x0)"
    using decide_more [OF assms(1) decide_step.janitor [OF assms(3,4,5,7)]] by simp
  then have "decide_reach cfg own faulty (?at ((?f ^^ n) ?x0))" for n
    by (induction n) (use step in auto)
  from this [of 3] show ?thesis using assms(6,7) by (simp add: finishClaimed_def finishDecision_def)
qed

lemma sample_settled:
  "\<exists>s r. decide_reach sample_cfg (\<lambda>_. ''o'') settles_answered s \<and> sy_begun s ''d1'' = Some (''a'', sample_claim) \<and>
     sy_rows s ''a'' = Some r \<and> DecisionID r = ''d1'' \<and> DecisionClaim r = [] \<and>
     sy_procs s 1 = TDone ''a'' sample_claim True \<and> ''d1'' \<in> as_ids (sy_audit s)"
proof -
  obtain s r where s: "decide_reach sample_cfg (\<lambda>_. ''o'') settles_answered s" "sy_begun s ''d1'' = Some (''a'', sample_claim)"
      "sy_procs s 1 = TIdle" "sy_rows s ''a'' = Some r" "InFlight r" "ID r = ''a''" "DecisionID r = ''d1''"
      "DecisionClaim r = claim_text sample_cfg sample_claim"
    using sample_in_flight by blast
  have id: "dc_ID sample_claim = ''d1''" by (simp add: sample_claim_def)
  have cl: "claimOf sample_cfg r = Inr sample_claim"
    using sample_claim_ok(1) s(7,8) id by (simp add: claimOf_def claim_ok_def)
  have w: "settles_answered t Works" for t by (simp add: settles_answered_def split: decide_task.splits)
  have check: "checkClaim sample_cfg ''a'' sample_claim = None" by (simp add: checkClaim_def sample_cfg_def)
  have ser: "\<forall>j. df_ser sample_cfg j \<noteq> None" by (simp add: sample_cfg_def)
  obtain a where a: "append_call sample_cfg 7 Works ''a'' sample_claim (sy_world s) =
      (TSettle ''a'' sample_claim, (sy_world s)\<lparr>wd_audit := a\<rparr>)" "''d1'' \<in> as_ids a"
    using append_finish [OF sample_claim_ok(1) check ser, of 7 "sy_world s"] id
    by (auto simp: after_append_def stamps_def recorded_def sample_cfg_def sample_claim_def)
  obtain st r' where f: "settle_call ''o'' 7 Works ''a'' sample_claim ((sy_world s)\<lparr>wd_audit := a\<rparr>) =
      (TDone ''a'' sample_claim True, (sy_world s)\<lparr>wd_audit := a, wd_store := st\<rparr>)"
      "ms_runs st ''a'' = Some r'" "DecisionID r' = ''d1''" "DecisionClaim r' = []"
    using settle_finish [of "(sy_world s)\<lparr>wd_audit := a\<rparr>" "''a''" r sample_claim "''o''" 7] s(4,5,7) id
    by (auto simp: sample_claim_def)
  have "finishClaimed sample_cfg ''o'' 7 r (sy_world s) =
      (TDone ''a'' sample_claim True, (sy_world s)\<lparr>wd_audit := a, wd_store := st\<rparr>)"
    using cl s(6) a(1) f(1) by (simp add: finishClaimed_def finishDecision_def numeral_3_eq_3)
  then have "decide_reach sample_cfg (\<lambda>_. ''o'') settles_answered
      (s\<lparr>sy_procs := (sy_procs s)(1 := TDone ''a'' sample_claim True), sy_world := (sy_world s)\<lparr>wd_audit := a, wd_store := st\<rparr>\<rparr>)"
    (is "decide_reach _ _ _ ?s")
    using finish_reach [OF s(1) _ s(3,4,5,6) cl, of 7] w by simp
  then show ?thesis using s(2) f(2-4) a(2) by (intro exI [of _ ?s] exI [of _ r']) simp
qed

theorem settled_decision_is_recorded_witness:
  "\<exists>s. decide_reach sample_cfg (\<lambda>_. ''o'') settles_answered s \<and>
     (\<exists>e ce. e \<in> set (Chain (sy_audit s)) \<and> dc_Entry sample_claim = Some ce \<and> ae_ID e = ''d1'' \<and> entry_of_claim e ce)"
proof -
  obtain s r where s: "decide_reach sample_cfg (\<lambda>_. ''o'') settles_answered s" "sy_begun s ''d1'' = Some (''a'', sample_claim)"
      "sy_rows s ''a'' = Some r" "DecisionID r = ''d1''" "DecisionClaim r = []"
    using sample_settled by blast
  have cfg: "df_audits sample_cfg" "DecisionID r \<noteq> []" using s(4) by (simp_all add: sample_cfg_def)
  from settled_decision_is_recorded [OF s(1) cfg(1) s(3) cfg(2) s(5)] s(1,2,4) show ?thesis by auto
qed

theorem losing_decision_is_never_recorded_witness:
  "\<exists>s r e. decide_reach sample_cfg (\<lambda>_. ''o'') settles_answered s \<and> sy_rows s ''a'' = Some r \<and>
     e \<in> set (Chain (sy_audit s)) \<and> DecisionID r = ae_ID e"
proof -
  obtain s r where s: "decide_reach sample_cfg (\<lambda>_. ''o'') settles_answered s" "sy_begun s ''d1'' = Some (''a'', sample_claim)"
      "sy_rows s ''a'' = Some r" "''d1'' \<in> as_ids (sy_audit s)"
    using sample_settled by blast
  then obtain e where e: "e \<in> set (Chain (sy_audit s))" "ae_ID e = ''d1''"
    using decide_invD(4) [OF reach_inv [OF s(1)]] by (auto simp: entries_ok_def Chain_def)
  then have "sy_begun s (ae_ID e) = Some (''a'', sample_claim)" using s(2) by simp
  from losing_decision_is_never_recorded [OF s(1) e(1) this] s e(1) show ?thesis by blast
qed

theorem decision_is_started_once_witness:
  "\<exists>s. decide_reach sample_cfg (\<lambda>_. ''o'') settles_answered s \<and> sy_procs s 1 = TDone ''a'' sample_claim True \<and>
     sy_procs s 2 \<noteq> TDone ''a'' sample_claim True"
proof -
  obtain s where s: "decide_reach sample_cfg (\<lambda>_. ''o'') settles_answered s" "sy_procs s 1 = TDone ''a'' sample_claim True"
    using sample_settled by blast
  have own: "\<forall>p::nat. (\<lambda>_. ''o'') p \<noteq> []" by simp
  have "sy_procs s 2 \<noteq> TDone ''a'' sample_claim True"
    using decision_is_started_once [OF s(1) own s(2), of 2] by auto
  with s show ?thesis by blast
qed

end
