(* ===== verification/Decide_Guard_Props.thy ===== *)
theory Decide_Guard_Props
  imports Decide_Guards Decide_Finish Decision_Props
begin

text \<open>
  What holds of a decision that gets as far as a claim: who made it, on what, with what reason, and that
  its claim is one the protocol of \<open>Decide_Reach\<close> starts from.
\<close>

section \<open>Reasons\<close>

lemma prepareReason_Inr:
  assumes "prepareReason m txt confirmed = Inr (t, masked)"
  shows "Canonical t = t" and "t \<noteq> [] \<longrightarrow> t = Canonical (m (Canonical txt))"
    and "masked \<longleftrightarrow> t \<noteq> Canonical txt" and "t \<noteq> Canonical txt \<longrightarrow> confirmed = t"
    and "length (runes (Canonical txt)) \<le> MaxReasonChars"
proof -
  have z: "Canonical [] = []" by code_simp
  note st = Canonical_stable [THEN conjunct1]
  have "runes [] = []" by (simp add: runes.simps)
  then show "Canonical t = t" "t \<noteq> [] \<longrightarrow> t = Canonical (m (Canonical txt))" "masked \<longleftrightarrow> t \<noteq> Canonical txt"
    "t \<noteq> Canonical txt \<longrightarrow> confirmed = t" "length (runes (Canonical txt)) \<le> MaxReasonChars"
    using assms st z by (auto simp: prepareReason_def Let_def TooLong_def split: if_splits)
qed

lemma Commit_opens:
  assumes "Commit ser sha raw i t = Inr (random, c)"
  shows "VerifyReason ser sha c i random t \<and> c \<noteq> []"
  using assms
  by (auto simp: Commit_def Let_def VerifyReason_def Commitment_def split: sum.splits if_splits option.splits)

lemma newDecisionRecord_fields:
  assumes "newDecisionRecord cfg v subject step verdict t masked b = Inr rec"
  shows "dr_ID rec = dv_newID v" "dr_DecisionID rec = dv_newID v" "dr_Kind rec = KindDecision" "dr_RunID rec = ID subject"
    "dr_Verdict rec = verdict" "dr_Actor rec = by_Name b" "dr_ActorType rec = by_Type b" "dr_OnBehalfOf rec = by_OnBehalfOf b"
    and "case dr_Reason rec of None \<Rightarrow> t = []
      | Some x \<Rightarrow> t \<noteq> [] \<and> rs_Text x = t \<and> rs_Masked x = masked \<and> rs_Redacted x = None \<and>
          VerifyReason (df_ser cfg) (df_sha cfg) (rs_Commitment x) (dv_newID v) (rs_Random x) t"
    and "HasReason rec \<longleftrightarrow> t \<noteq> []"
  using assms Commit_opens
  by (auto simp: newDecisionRecord_def Let_def HasReason_def split: if_splits sum.splits prod.splits)

section \<open>Approving a run\<close>

lemma plain_claim_fields [simp]:
  "dc_ID (plain_claim i vd x) = i" "dc_Status (plain_claim i vd x) = x" "dc_Entry (plain_claim i vd x) = None"
  by (simp_all add: plain_claim_def)

text \<open>What every decision that reaches a claim has in common: the record and the claim carry one id, the
  entry names the decider and the path of what is decided, and the reason is canonical, masked as the
  decider saw it, committed to and there when the rule asks for it.\<close>

definition well_decided :: "decide_cfg \<Rightarrow> decide_view \<Rightarrow> run \<Rightarrow> string \<Rightarrow> bool \<Rightarrow> string \<Rightarrow> string \<Rightarrow> string \<Rightarrow> decider \<Rightarrow>
    decision_record \<Rightarrow> decision_claim \<Rightarrow> bool" where
  "well_decided cfg v held path approve masked_input given confirmed b rec c \<longleftrightarrow>
     dr_ID rec = dv_newID v \<and> dc_ID c = dv_newID v \<and> dr_Actor rec = by_Name b \<and> dr_OnBehalfOf rec = by_OnBehalfOf b \<and>
     (ReasonRequired (RequireReason held) approve \<longrightarrow> HasReason rec) \<and>
     (case dr_Reason rec of
        None \<Rightarrow> True
      | Some x \<Rightarrow> Canonical (rs_Text x) = rs_Text x \<and> rs_Text x = Canonical masked_input \<and>
          (rs_Masked x \<longleftrightarrow> rs_Text x \<noteq> Canonical given) \<and> (rs_Masked x \<longrightarrow> confirmed = rs_Text x) \<and>
          VerifyReason (df_ser cfg) (df_sha cfg) (rs_Commitment x) (dc_ID c) (rs_Random x) (rs_Text x)) \<and>
     (df_audits cfg \<and> dv_newID v \<noteq> [] \<longrightarrow> (\<exists>e. dc_Entry c = Some e \<and> ce_ID e = dc_ID c \<and> ce_Method e = MethodDecision \<and>
        ce_Actor e = by_Name b \<and> ce_OnBehalfOf e = by_OnBehalfOf b \<and> ce_Path e = path))"

lemma decided_reason:
  assumes p: "prepareReason m given confirmed = Inr (t, masked)" and r: "requireReason held t approve = None"
    and n: "newDecisionRecord cfg v subject step verdict t masked b = Inr rec"
  shows "(ReasonRequired (RequireReason held) approve \<longrightarrow> HasReason rec) \<and>
     (case dr_Reason rec of
        None \<Rightarrow> True
      | Some x \<Rightarrow> Canonical (rs_Text x) = rs_Text x \<and> rs_Text x = Canonical (m (Canonical given)) \<and>
          (rs_Masked x \<longleftrightarrow> rs_Text x \<noteq> Canonical given) \<and> (rs_Masked x \<longrightarrow> confirmed = rs_Text x) \<and>
          VerifyReason (df_ser cfg) (df_sha cfg) (rs_Commitment x) (dv_newID v) (rs_Random x) (rs_Text x))"
proof
  show "ReasonRequired (RequireReason held) approve \<longrightarrow> HasReason rec"
    using r newDecisionRecord_fields(10) [OF n] by (auto simp: requireReason_def split: if_splits)
  show "case dr_Reason rec of
        None \<Rightarrow> True
      | Some x \<Rightarrow> Canonical (rs_Text x) = rs_Text x \<and> rs_Text x = Canonical (m (Canonical given)) \<and>
          (rs_Masked x \<longleftrightarrow> rs_Text x \<noteq> Canonical given) \<and> (rs_Masked x \<longrightarrow> confirmed = rs_Text x) \<and>
          VerifyReason (df_ser cfg) (df_sha cfg) (rs_Commitment x) (dv_newID v) (rs_Random x) (rs_Text x)"
    using prepareReason_Inr [OF p] newDecisionRecord_fields(9) [OF n] by (cases "dr_Reason rec") auto
qed

lemma decision_entry_fields:
  "ae_ID (decision_entry_at v path verdict b (ExtrasOf (Some rec))) = (if dr_DecisionID rec \<noteq> [] then dr_DecisionID rec else dv_newID v)"
  "ae_Actor (decision_entry_at v path verdict b x) = by_Name b" "ae_OnBehalfOf (decision_entry_at v path verdict b x) = by_OnBehalfOf b"
  "ae_Method (decision_entry_at v path verdict b x) = MethodDecision" "ae_Path (decision_entry_at v path verdict b x) = path"
  by (simp_all add: decision_entry_at_def ExtrasOf_def entryID_def split: prod.splits)


section \<open>Deciding a step\<close>

text \<open>An approval step is decided by someone who may decide it, on what they were shown. Whenever
  \<open>DecideStep\<close> gets as far as a claim, the run is an approval step waiting for a decision under a stored
  workflow that is neither ended nor being canceled; an approval is no agent's and, where the rule asks
  for a second person, not the requester's; a decider who was shown a state decides on exactly that
  state, and the claim carries its digest and binding; and the step ends succeeded or rejected by what
  was decided.\<close>

theorem step_decision_is_authorised:
  assumes "DecideStep cfg v st i dec = Inr (rec, c)"
  shows "\<exists>node parent. ms_runs st i = Some node \<and> ms_runs st (the (ParentID node)) = Some parent \<and>
    Kind node = KindApproval \<and> ParentID node \<noteq> None \<and> Status node = StatusPendingApproval \<and>
    \<not> CancelRequested parent \<and> \<not> Terminal (Status parent) \<and>
    (df_mac cfg \<noteq> None \<and> \<not> InFlight node \<longrightarrow> dv_held v = None) \<and>
    (sdn_Approve dec \<longrightarrow> by_Type (sdn_By dec) \<noteq> agentActorType \<and>
       \<not> (RequireDistinctApprover node \<and> sameRequester (sdn_By dec) node)) \<and>
    (sdn_Shown dec = [] \<or> sdn_Shown dec = dv_digest v) \<and> dc_Digest c = dv_digest v \<and> dc_Binding c = dv_binding v \<and>
    dc_Status c = (if sdn_Approve dec then StatusSucceeded else StatusRejected) \<and>
    well_decided cfg v node (StepDecisionPath (ID parent) (ID node) (if sdn_Approve dec then StepApproved else StepRejected))
      (sdn_Approve dec) (dv_mask v parent (Canonical (sdn_Reason dec))) (sdn_Reason dec) (sdn_ConfirmedMask dec) (sdn_By dec) rec c"
proof -
  let ?v = "if sdn_Approve dec then StepApproved else StepRejected"
  obtain node parent t masked where r: "ms_runs st i = Some node" "ms_runs st (the (ParentID node)) = Some parent"
      "Kind node = KindApproval" "ParentID node \<noteq> None" "Status node = StatusPendingApproval" "\<not> CancelRequested parent"
      "\<not> Terminal (Status parent)" "sealRefusal cfg v node = None" "\<not> (sdn_Approve dec \<and> by_Type (sdn_By dec) = agentActorType)"
      "\<not> (sdn_Approve dec \<and> RequireDistinctApprover node \<and> sameRequester (sdn_By dec) node)"
      "sdn_Shown dec = [] \<or> sdn_Shown dec = dv_digest v"
    and p: "prepareReason (dv_mask v parent) (sdn_Reason dec) (sdn_ConfirmedMask dec) = Inr (t, masked)"
    and q: "requireReason node t (sdn_Approve dec) = None"
    and n: "newDecisionRecord cfg v parent (Some node) ?v t masked (sdn_By dec) = Inr rec"
    and c: "c = step_claim cfg v parent node (sdn_Approve dec) (sdn_By dec) rec"
    using assms by (auto simp: DecideStep_def Let_def split: if_splits option.splits sum.splits prod.splits)
  note f = newDecisionRecord_fields [OF n]
  have cl: "dc_ID c = dv_newID v" "dc_Status c = (if sdn_Approve dec then StatusSucceeded else StatusRejected)"
    "dc_Digest c = dv_digest v" "dc_Binding c = dv_binding v"
    by (simp_all add: c step_claim_def Let_def plain_claim_def f(1))
  have ent: "df_audits cfg \<and> dv_newID v \<noteq> [] \<longrightarrow> (\<exists>e. dc_Entry c = Some e \<and> ce_ID e = dc_ID c \<and> ce_Method e = MethodDecision \<and>
      ce_Actor e = by_Name (sdn_By dec) \<and> ce_OnBehalfOf e = by_OnBehalfOf (sdn_By dec) \<and>
      ce_Path e = StepDecisionPath (ID parent) (ID node) ?v)"
    using f(1,2) by (simp add: c step_claim_def Let_def claimEntryOf_def StepDecisionEntry_def decision_entry_fields)
  have "well_decided cfg v node (StepDecisionPath (ID parent) (ID node) ?v) (sdn_Approve dec)
      (dv_mask v parent (Canonical (sdn_Reason dec))) (sdn_Reason dec) (sdn_ConfirmedMask dec) (sdn_By dec) rec c"
    unfolding well_decided_def cl(1) using decided_reason [OF p q n] ent f(1,6,8) cl(1) by simp
  moreover have "df_mac cfg \<noteq> None \<and> \<not> InFlight node \<longrightarrow> dv_held v = None" using r(5,8) by (auto simp: sealRefusal_def)
  ultimately show ?thesis using r cl by blast
qed

section \<open>Claims\<close>

lemma map_of_omit [simp]:
  "map_of (omit_str k x) k' = (if x \<noteq> [] \<and> k' = k then Some (CvStr x) else None)"
  "map_of (omit_bool k b) k' = (if b \<and> k' = k then Some (CvBool True) else None)"
  by (auto simp: omit_str_def omit_bool_def)

lemma claim_entry_reads_back: "claim_entry_of_tree (claim_entry_tree e) = Some e"
proof -
  define ms where "ms = [(''id'', CvStr (ce_ID e)), (''at'', CvTime (ce_At e)), (''actor'', CvStr (ce_Actor e))] @
     omit_str ''actor_type'' (ce_ActorType e) @ omit_str ''on_behalf_of'' (ce_OnBehalfOf e) @
     [(''method'', CvStr (ce_Method e)), (''path'', CvStr (ce_Path e))] @
     omit_str ''content_digest'' (ce_ContentDigest e) @ omit_str ''nonce'' (ce_Nonce e)"
  have "str_member ms ''id'' = Some (ce_ID e)" "time_member ms ''at'' = Some (ce_At e)"
    "str_member ms ''actor'' = Some (ce_Actor e)" "str_member ms ''actor_type'' = Some (ce_ActorType e)"
    "str_member ms ''on_behalf_of'' = Some (ce_OnBehalfOf e)" "str_member ms ''method'' = Some (ce_Method e)"
    "str_member ms ''path'' = Some (ce_Path e)" "str_member ms ''content_digest'' = Some (ce_ContentDigest e)"
    "str_member ms ''nonce'' = Some (ce_Nonce e)"
    by (simp_all add: ms_def str_member_def time_member_def map_add_def)
  moreover have "claim_entry_tree e = CvObj ms" by (simp add: claim_entry_tree_def ms_def)
  ultimately show ?thesis by (simp add: claim_entry_of_tree_def)
qed

lemma stored_claim_tree:
  assumes "dc_Status c \<in> set AllStatuses"
  shows "claim_of_tree (claim_tree c) = Some c"
proof -
  have "\<forall>s\<in>set AllStatuses. status_of_text (status_text s) = s" by code_simp
  then have st: "status_of_text (status_text (dc_Status c)) = dc_Status c" using assms by blast
  define en where "en = (case dc_Entry c of None \<Rightarrow> [] | Some e \<Rightarrow> [(''entry'', claim_entry_tree e)])"
  define ms where "ms = [(''id'', CvStr (dc_ID c)), (''verdict'', CvStr (dc_Verdict c))] @
     omit_bool ''step'' (dc_Step c) @ en @
     [(''status'', CvStr (status_text (dc_Status c)))] @ omit_str ''error'' (dc_Error c) @
     omit_bool ''finalize'' (dc_Finalize c) @ omit_str ''digest'' (dc_Digest c) @
     omit_str ''binding'' (dc_Binding c) @ omit_str ''seal'' (dc_Seal c) @
     omit_str ''claim_seal'' (dc_ClaimSeal c)"
  have en: "map_of en k = (if k = ''entry'' then map_option claim_entry_tree (dc_Entry c) else None)" for k
    by (simp add: en_def split: option.splits)
  have "str_member ms ''id'' = Some (dc_ID c)" "str_member ms ''verdict'' = Some (dc_Verdict c)"
    "bool_member ms ''step'' = Some (dc_Step c)" "str_member ms ''status'' = Some (status_text (dc_Status c))"
    "str_member ms ''error'' = Some (dc_Error c)" "bool_member ms ''finalize'' = Some (dc_Finalize c)"
    "str_member ms ''digest'' = Some (dc_Digest c)" "str_member ms ''binding'' = Some (dc_Binding c)"
    "str_member ms ''seal'' = Some (dc_Seal c)" "str_member ms ''claim_seal'' = Some (dc_ClaimSeal c)"
    "entry_member ms ''entry'' = Some (dc_Entry c)"
    by (simp_all add: ms_def str_member_def bool_member_def entry_member_def map_add_def en
        claim_entry_reads_back split: option.splits)
  moreover have "claim_tree c = CvObj ms" by (simp add: claim_tree_def ms_def en_def)
  ultimately show ?thesis using st by (simp add: claim_of_tree_def)
qed

text \<open>A stored claim is the claim. Whatever a claim carries, the members written for it read back to the
  same decision: verdict, entry, status, error and every seal, with the members left out when empty.\<close>

theorem stored_claim_reads_back:
  assumes "dc_Status c \<in> set AllStatuses"
  shows "claim_of_tree (claim_tree c) = Some c"
  using assms by (rule stored_claim_tree)

theorem stored_claim_reads_back_witness:
  "claim_of_tree (claim_tree (sample_claim\<lparr>dc_Error := ''no'', dc_Finalize := True\<rparr>)) =
     Some (sample_claim\<lparr>dc_Error := ''no'', dc_Finalize := True\<rparr>)"
proof -
  have "dc_Status (sample_claim\<lparr>dc_Error := ''no'', dc_Finalize := True\<rparr>) \<in> set AllStatuses"
    by (simp add: sample_claim_def AllStatuses_def)
  then show ?thesis by (rule stored_claim_reads_back)
qed

text \<open>What the guards let through is what the protocol starts from.\<close>

lemma decided_claim_begins:
  assumes "DecideRun cfg v st i dec = Inr (rec, c)" and "dv_newID v \<noteq> []"
    and json: "\<And>t. df_parse cfg (df_render cfg t) = Some t \<and> df_render cfg t \<noteq> []"
  shows "\<exists>c'. sealClaim cfg i c = Inr c' \<and> claim_ok cfg c' \<and> dc_ID c = dc_ID c'"
proof -
  have c: "dc_ID c = dv_newID v \<and> dc_Status c \<in> {StatusPending, StatusRunning, StatusRejected} \<and>
      (df_audits cfg \<longrightarrow> (\<exists>e. dc_Entry c = Some e \<and> ce_ID e = dc_ID c \<and> ce_Method e = MethodDecision))"
  proof (cases "rdn_Approve dec")
    case True
    then obtain r t masked rec0 where n: "newDecisionRecord cfg v r None ''approved'' t masked (rdn_By dec) = Inr rec0"
      and rec: "rec = rec0 \<or> rec = rec0\<lparr>dr_Comment := rdn_Comment dec\<rparr>" and c: "c = approve_claim cfg v r (rdn_By dec) rec"
      using assms(1) by (auto simp: DecideRun_def approveRun_def Let_def split: if_splits option.splits sum.splits prod.splits)
    have "dr_ID rec = dv_newID v" "dr_DecisionID rec = dv_newID v" using rec newDecisionRecord_fields(1,2) [OF n] by auto
    then show ?thesis using assms(2)
      by (simp add: c approve_claim_def Let_def claimEntryOf_def DecisionEntry_def decision_entry_fields)
  next
    case False
    then obtain r t masked where n: "newDecisionRecord cfg v r None ''rejected'' t masked (rdn_By dec) = Inr rec"
      and c: "c = reject_claim cfg v r (rdn_By dec) rec"
      using assms(1) by (auto simp: DecideRun_def rejectRun_def Let_def split: if_splits option.splits sum.splits prod.splits)
    then show ?thesis using newDecisionRecord_fields(1,2) [OF n] assms(2)
      by (auto simp: reject_claim_def plain_claim_def claimEntryOf_def DecisionEntry_def decision_entry_fields)
  qed
  have reads: "read_claim cfg (claim_text cfg x) = Some x" if "dc_Status x \<in> {StatusPending, StatusRunning, StatusRejected}" for x
    using json stored_claim_tree [of x] that by (auto simp: AllStatuses_def read_claim_def claim_text_def)
  have "\<exists>c'. sealClaim cfg i c = Inr c'"
    using reads [of "c\<lparr>dc_ClaimSeal := []\<rparr>"] c by (auto simp: sealClaim_def claimBytes_def split: option.splits)
  then obtain c' where c': "sealClaim cfg i c = Inr c'" by blast
  then show ?thesis using sealClaim_Inr [OF c'] c assms(2) reads [of c'] json
    by (auto simp: claim_ok_def claim_text_def)
qed

section \<open>Examples\<close>

text \<open>An approval by a second person with the reason a rule asks for, and a step approved on the state shown.\<close>

definition sample_view :: decide_view where
  "sample_view = \<lparr>dv_newID = ''d1'', dv_random = replicate 32 CHR 0x00, dv_now = 9, dv_mask = (\<lambda>_ t. t), dv_held = None,
     dv_children = [], dv_digest = ''dg'', dv_binding = ''bd'', dv_content = (\<lambda>_ _. (''cd'', ''n'')), dv_seal = (\<lambda>_. [])\<rparr>"

definition sample_store :: mem_store where
  "sample_store = NewMemStore\<lparr>ms_runs :=
     [''a'' \<mapsto> sample_run\<lparr>RequireDistinctApprover := True, Actor := ''bob'', RequireReason := RequireAlways\<rparr>,
      ''w'' \<mapsto> zero_run\<lparr>ID := ''w'', Status := StatusRunning, Kind := KindPipeline\<rparr>,
      ''n'' \<mapsto> zero_run\<lparr>ID := ''n'', Status := StatusPendingApproval, Kind := KindApproval, ParentID := Some ''w''\<rparr>]\<rparr>"

definition sample_decider :: decider where
  "sample_decider = \<lparr>by_Name = ''ann'', by_Type = ''session'', by_OnBehalfOf = [], by_AccountID = []\<rparr>"


definition sample_step_decision :: step_decision where
  "sample_step_decision = \<lparr>sdn_Approve = True, sdn_Reason = [], sdn_ConfirmedMask = [], sdn_Shown = ''dg'', sdn_By = sample_decider\<rparr>"

lemma sample_reason: "prepareReason (\<lambda>t. t) ''ok'' [] = Inr (''ok'', False)" "prepareReason (\<lambda>t. t) [] [] = Inr ([], False)"
  by code_simp+



theorem step_decision_is_authorised_witness:
  "\<exists>rec c. DecideStep sample_cfg sample_view sample_store ''n'' sample_step_decision = Inr (rec, c) \<and>
     dc_Digest c = ''dg'' \<and> dc_Status c = StatusSucceeded"
proof -
  have rows: "ms_runs sample_store ''n'' = Some (zero_run\<lparr>ID := ''n'', Status := StatusPendingApproval, Kind := KindApproval, ParentID := Some ''w''\<rparr>)"
    "ms_runs sample_store ''w'' = Some (zero_run\<lparr>ID := ''w'', Status := StatusRunning, Kind := KindPipeline\<rparr>)"
    by (simp_all add: sample_store_def)
  have z: "\<not> CancelRequested zero_run" "\<not> RequireDistinctApprover zero_run" "RequireReason zero_run = []" "Initiator zero_run = None"
    by (simp_all add: zero_run_def)
  have "\<exists>rec c. DecideStep sample_cfg sample_view sample_store ''n'' sample_step_decision = Inr (rec, c)"
    by (simp add: DecideStep_def Let_def rows z sample_step_decision_def sample_decider_def sample_view_def sample_cfg_def
        agentActorType_def sealRefusal_def sample_reason requireReason_def ReasonRequired_def RequireAlways_def
        RequireDenials_def newDecisionRecord_def)
  then obtain rec c where a: "DecideStep sample_cfg sample_view sample_store ''n'' sample_step_decision = Inr (rec, c)" by blast
  have "dc_Digest c = ''dg'' \<and> dc_Status c = StatusSucceeded"
    using step_decision_is_authorised [OF a] by (auto simp: sample_view_def sample_step_decision_def)
  with a show ?thesis by blast
qed

end
