(* ===== verification/Notify.thy ===== *)
theory Notify
  imports Run_Options GoStrings Dedupe Slice_Sort
begin

text \<open>
  Named notification targets (\<open>notification/notification.go\<close>, \<open>delivery.go\<close>, \<open>store.go\<close>, \<open>skip.go\<close>,
  \<open>cleanup.go\<close>, \<open>health.go\<close>): targets and what they are attached to, the events of a run, the deliveries
  those queue, and the in-memory store that records and leases them. \<open>sha\<close> is SHA-256, \<open>lower\<close> the
  folding of \<open>strings.ToLower\<close>, \<open>maskURL\<close> is \<open>util.MaskURL\<close>, which parses with \<open>net/url\<close>. A sealer is the
  install's encryption key: \<open>None\<close> when none is configured, \<open>None\<close> from either of its functions for its
  errors.
\<close>

section \<open>Events\<close>

definition EventStarted :: string where "EventStarted = ''started''"
definition EventSuccess :: string where "EventSuccess = ''success''"
definition EventFailure :: string where "EventFailure = ''failure''"
definition EventApproval :: string where "EventApproval = ''approval''"
definition EventSkipped :: string where "EventSkipped = ''skipped''"
definition EventAttention :: string where "EventAttention = ''attention''"

definition NotifyEvents :: "string list" where
  "NotifyEvents = [EventStarted, EventApproval, EventSuccess, EventFailure, EventSkipped, EventAttention]"

definition KindTemplate :: string where "KindTemplate = ''template''"
definition KindSchedule :: string where "KindSchedule = ''schedule''"
definition KindProject :: string where "KindProject = ''project''"
definition KindOrg :: string where "KindOrg = ''org''"

definition Kinds :: "string list" where
  "Kinds = [KindTemplate, KindSchedule, KindProject, KindOrg]"

lemmas event_names = EventStarted_def EventSuccess_def EventFailure_def EventApproval_def EventSkipped_def
  EventAttention_def
lemmas object_kinds = KindTemplate_def KindSchedule_def KindProject_def KindOrg_def

datatype notification_error =
    TargetNotFound | AttachmentNotFound | ErrDuplicate | ErrEvent string | ErrObject string | ErrSealing
  | ErrNeedsSecret | ErrDeliveryLost | ErrTemplateGone | SealFailed | OpenFailed
  | TargetRefused notify_error | ReadFailed

definition NormalizeEvent :: "(string \<Rightarrow> string) \<Rightarrow> string \<Rightarrow> notification_error + string" where
  "NormalizeEvent lower event =
     (let e = lower (TrimSpace event) in
      if e = EventStarted then Inr EventStarted
      else if e = EventSuccess then Inr EventSuccess
      else if e = EventFailure \<or> e = ''error'' then Inr EventFailure
      else if e = EventApproval \<or> e = ''approvals'' then Inr EventApproval
      else if e = EventSkipped then Inr EventSkipped
      else if e = EventAttention then Inr EventAttention
      else Inl (ErrEvent event))"

definition NormalizeObjectKind :: "(string \<Rightarrow> string) \<Rightarrow> string \<Rightarrow> notification_error + string" where
  "NormalizeObjectKind lower kind =
     (let k = lower (TrimSpace kind) in
      if k = KindTemplate \<or> k = ''workflow'' \<or> k = ''job_template'' \<or> k = ''workflow_job_template'' then Inr KindTemplate
      else if k = KindSchedule then Inr KindSchedule
      else if k = KindProject then Inr KindProject
      else if k = KindOrg \<or> k = ''organization'' then Inr KindOrg
      else Inl (ErrObject kind))"

definition EventOf :: "run \<Rightarrow> string" where
  "EventOf r =
     (if ParentID r \<noteq> None then []
      else if Kind r = KindSkippedFire then EventSkipped
      else if Attention r \<noteq> None then EventAttention
      else if Status r = StatusRunning then EventStarted
      else if Status r = StatusPendingApproval then EventApproval
      else if Status r = StatusSucceeded then EventSuccess
      else if Terminal (Status r) then EventFailure
      else [])"

definition Hears :: "string \<Rightarrow> run \<Rightarrow> bool" where
  "Hears kind r \<longleftrightarrow>
     (if Attention r \<noteq> None then True
      else if Status r = StatusPendingApproval \<and> kind \<in> {NotifyPagerDuty, NotifyGrafana, NotifyTwilio} then False
      else if kind = NotifyPagerDuty then Status r = StatusFailed \<or> Status r = StatusInterrupted
      else True)"

section \<open>Targets\<close>

record notify_sealer =
  ns_Seal :: "string \<Rightarrow> string option"
  ns_Open :: "string \<Rightarrow> string option"

record named_target =
  na_ID :: string
  na_Name :: string
  na_Description :: string
  na_OrgID :: string
  na_Kind :: string
  na_To :: string
  na_URLHint :: string
  na_KeySet :: bool
  na_NeedsSecret :: bool
  na_SealedURL :: string
  na_SealedKey :: string
  na_CreatedAt :: gotime
  na_CreatedBy :: string

record attachment =
  at_ID :: string
  at_NotificationID :: string
  at_ObjectKind :: string
  at_ObjectID :: string
  at_Event :: string
  at_CreatedAt :: gotime
  at_CreatedBy :: string

definition PartURL :: string where "PartURL = ''url''"
definition PartKey :: string where "PartKey = ''key''"

definition kindNeedsURL :: "string \<Rightarrow> bool" where
  "kindNeedsURL k \<longleftrightarrow> k \<in> {NotifyWebhook, NotifySlack, NotifyMattermost, NotifyRocketChat, NotifyDiscord, NotifyTeams,
     NotifyNtfy, NotifyGrafana}"

definition kindNeedsKey :: "string \<Rightarrow> bool" where
  "kindNeedsKey k \<longleftrightarrow> k = NotifyPagerDuty \<or> k = NotifyGrafana"

definition seal_part :: "notify_sealer \<Rightarrow> string \<Rightarrow> notification_error + string" where
  "seal_part sl v = (if v = [] then Inr [] else case ns_Seal sl v of None \<Rightarrow> Inl SealFailed | Some s \<Rightarrow> Inr s)"

definition seal_parts :: "notify_sealer option \<Rightarrow> notify_target \<Rightarrow> notification_error + string \<times> string" where
  "seal_parts sealer t =
     (if nt_URL t = [] \<and> nt_Key t = [] then Inr ([], [])
      else case sealer of
        None \<Rightarrow> Inl ErrSealing
      | Some sl \<Rightarrow>
          (case seal_part sl (nt_URL t) of
             Inl e \<Rightarrow> Inl e
           | Inr u \<Rightarrow> map_sum (\<lambda>e. e) (Pair u) (seal_part sl (nt_Key t))))"

definition SetTarget :: "(string \<Rightarrow> string) \<Rightarrow> notify_sealer option \<Rightarrow> notify_target \<Rightarrow> named_target \<Rightarrow>
    notification_error + named_target" where
  "SetTarget maskURL sealer t0 n =
     (let t = t0\<lparr>nt_OnFailure := False\<rparr> in
      case ValidateNotifyTarget t of
        Some e \<Rightarrow> Inl (TargetRefused e)
      | None \<Rightarrow>
          (case seal_parts sealer t of
             Inl e \<Rightarrow> Inl e
           | Inr (u, k) \<Rightarrow>
               Inr (n\<lparr>na_Kind := nt_Kind t, na_To := nt_To t, na_SealedURL := u, na_SealedKey := k,
                 na_URLHint := maskURL (nt_URL t), na_KeySet := (nt_Key t \<noteq> []), na_NeedsSecret := False\<rparr>)))"

definition SetKnown :: "(string \<Rightarrow> string) \<Rightarrow> notify_sealer option \<Rightarrow> notify_target \<Rightarrow> named_target \<Rightarrow>
    notification_error + named_target" where
  "SetKnown maskURL sealer t n =
     (if \<not> ValidNotifyKind (nt_Kind t) then Inl (TargetRefused (UnknownNotifyKind (nt_Kind t)))
      else case seal_parts sealer t of
        Inl e \<Rightarrow> Inl e
      | Inr (u, k) \<Rightarrow>
          Inr (n\<lparr>na_Kind := nt_Kind t, na_To := nt_To t, na_SealedURL := u, na_SealedKey := k,
            na_URLHint := (if nt_URL t \<noteq> [] then maskURL (nt_URL t) else na_URLHint n),
            na_KeySet := (nt_Key t \<noteq> []), na_NeedsSecret := True\<rparr>))"

definition Missing :: "named_target \<Rightarrow> string list" where
  "Missing n =
     (if \<not> na_NeedsSecret n then []
      else (if kindNeedsURL (na_Kind n) \<and> na_SealedURL n = [] then [PartURL] else []) @
           (if kindNeedsKey (na_Kind n) \<and> na_SealedKey n = [] then [PartKey] else []))"

definition MissingParts :: "notify_target \<Rightarrow> string list" where
  "MissingParts t =
     (if kindNeedsURL (nt_Kind t) \<and> nt_URL t = [] then [PartURL] else []) @
     (if kindNeedsKey (nt_Kind t) \<and> nt_Key t = [] then [PartKey] else [])"

definition open_part :: "notify_sealer \<Rightarrow> string \<Rightarrow> notification_error + string" where
  "open_part sl v = (if v = [] then Inr [] else case ns_Open sl v of None \<Rightarrow> Inl OpenFailed | Some s \<Rightarrow> Inr s)"

definition Known :: "notify_sealer option \<Rightarrow> named_target \<Rightarrow> notification_error + notify_target" where
  "Known sealer n =
     (let t = \<lparr>nt_Kind = na_Kind n, nt_URL = [], nt_Key = [], nt_To = na_To n, nt_OnFailure = False\<rparr> in
      if na_SealedURL n = [] \<and> na_SealedKey n = [] then Inr t
      else case sealer of
        None \<Rightarrow> Inl ErrSealing
      | Some sl \<Rightarrow>
          (case open_part sl (na_SealedURL n) of
             Inl e \<Rightarrow> Inl e
           | Inr u \<Rightarrow> map_sum (\<lambda>e. e) (\<lambda>k. t\<lparr>nt_URL := u, nt_Key := k\<rparr>) (open_part sl (na_SealedKey n))))"

definition Target :: "notify_sealer option \<Rightarrow> named_target \<Rightarrow> notification_error + notify_target" where
  "Target sealer n = (if na_NeedsSecret n then Inl ErrNeedsSecret else Known sealer n)"

text \<open>\<open>hears\<close>: whether an attachment is told about an event.\<close>

definition attachment_hears :: "attachment \<Rightarrow> string \<Rightarrow> bool" where
  "attachment_hears a event \<longleftrightarrow>
     at_Event a = event \<or> event = EventSkipped \<and> at_ObjectKind a = KindSchedule \<and> at_Event a = EventFailure"

end
