(* ===== verification/Notify_Store.thy ===== *)
theory Notify_Store
  imports Notify
begin

text \<open>
  Events and deliveries (\<open>notification/delivery.go\<close>) and the in-memory store of them
  (\<open>notification/store.go\<close>): an event takes its run's next sequence number and queues a delivery per
  recipient; a claim leases the deliveries that are due, in their run's order. A loop over a map takes the
  order it visits the keys in.
\<close>

section \<open>Deliveries\<close>

datatype delivery_status = DeliveryPending | DeliveryDelivered | DeliveryFailed | DeliverySkipped

definition Second :: duration where "Second = 1000000000"
definition Millisecond :: duration where "Millisecond = 1000000"
definition MaxAttempts :: int where "MaxAttempts = 5"

definition retryDelays :: "duration list" where
  "retryDelays = [5 * Second, 15 * Second, Minute, 2 * Minute]"

definition RetryDelay :: "int \<Rightarrow> duration" where
  "RetryDelay attempts =
     (if attempts < 1 then 0
      else if attempts > int (length retryDelays) then last retryDelays
      else retryDelays ! nat (attempts - 1))"

definition Millis :: "gotime \<Rightarrow> gotime" where
  "Millis t = t div Millisecond * Millisecond"

definition EarlierFailedNote :: string where
  "EarlierFailedNote = ''An earlier notification about this run to this target could not be delivered.''"

record run_event =
  ev_RunID :: string
  ev_Seq :: int
  ev_Event :: string
  ev_Branch :: string
  ev_Follows :: "string list"
  ev_Snapshot :: string
  ev_CreatedAt :: gotime

definition EventKey :: "(string \<Rightarrow> string) \<Rightarrow> run_event \<Rightarrow> string" where
  "EventKey sha ev =
     ev_Event ev @ ''/'' @ ev_Branch ev @ ''/'' @ EncodeToString (take 8 (sha (ev_Snapshot ev)))"

definition IsEnd :: "string \<Rightarrow> bool" where
  "IsEnd event \<longleftrightarrow> event = EventSuccess \<or> event = EventFailure"

definition event_End :: "run_event \<Rightarrow> bool" where
  "event_End ev \<longleftrightarrow> ev_Branch ev = [] \<and> IsEnd (ev_Event ev)"

text \<open>\<open>Once\<close>: the events that count as the same moment on the event's branch.\<close>

definition Once :: "run_event \<Rightarrow> string \<times> string" where
  "Once ev =
     (if event_End ev then (EventSuccess, EventFailure)
      else if ev_Event ev = EventStarted \<and> ev_Branch ev = [] then (EventStarted, EventStarted)
      else if ev_Event ev = EventApproval then (EventApproval, EventApproval)
      else ([], []))"

definition Ordered :: "string \<Rightarrow> string list \<Rightarrow> string \<Rightarrow> bool" where
  "Ordered branch follows earlier \<longleftrightarrow>
     branch = [] \<or> earlier = [] \<or> branch = earlier \<or> earlier \<in> set follows"

definition followsSep :: string where "followsSep = [CHR 0x0A]"

fun join_lines :: "string list \<Rightarrow> string" where
  "join_lines [] = []"
| "join_lines [f] = f"
| "join_lines (f # fs) = f @ followsSep @ join_lines fs"

definition EncodeFollows :: "string list \<Rightarrow> string" where
  "EncodeFollows follows = (if follows = [] then [] else followsSep @ join_lines follows @ followsSep)"

definition trim_lines :: "string \<Rightarrow> string" where
  "trim_lines s = rev (dropWhile (\<lambda>c. c = CHR 0x0A) (rev (dropWhile (\<lambda>c. c = CHR 0x0A) s)))"

definition DecodeFollows :: "string \<Rightarrow> string list" where
  "DecodeFollows encoded = (let t = trim_lines encoded in if t = [] then [] else Split t (CHR 0x0A))"

record recipient =
  rc_NotificationID :: string
  rc_Name :: string
  rc_Kind :: string
  rc_Skip :: string

record delivery =
  dl_NotificationID :: string
  dl_RunID :: string
  dl_Seq :: int
  dl_Event :: string
  dl_Branch :: string
  dl_Follows :: "string list"
  dl_TargetName :: string
  dl_TargetKind :: string
  dl_Status :: delivery_status
  dl_Attempts :: int
  dl_NextAttemptAt :: gotime
  dl_LastError :: string
  dl_Note :: string
  dl_CreatedAt :: gotime
  dl_FinishedAt :: "gotime option"
  dl_ClaimedBy :: string
  dl_ClaimUntil :: "gotime option"
  dl_Snapshot :: string
  dl_EarlierFailed :: bool

definition DeliveryKey :: "delivery \<Rightarrow> string" where
  "DeliveryKey d = dl_NotificationID d @ ''/'' @ dl_RunID d @ ''/'' @ FormatInt (dl_Seq d)"

record attempt_outcome =
  ao_Status :: delivery_status
  ao_Error :: string
  ao_Note :: string
  ao_At :: gotime
  ao_NextAttemptAt :: gotime

definition Outcome_SanitizeText :: "attempt_outcome \<Rightarrow> attempt_outcome" where
  "Outcome_SanitizeText out = out\<lparr>ao_Error := SafeText (ao_Error out), ao_Note := SafeText (ao_Note out)\<rparr>"

section \<open>The store\<close>

record notify_store =
  no_targets :: "string \<rightharpoonup> named_target"
  no_attachments :: "string \<rightharpoonup> attachment"
  no_events :: "string \<Rightarrow> run_event list"
  no_deliveries :: "string \<rightharpoonup> delivery"

definition NewNotifyStore :: notify_store where
  "NewNotifyStore = \<lparr>no_targets = Map.empty, no_attachments = Map.empty, no_events = (\<lambda>_. []), no_deliveries = Map.empty\<rparr>"

definition SaveTarget :: "named_target \<Rightarrow> notify_store \<Rightarrow> notify_store" where
  "SaveTarget n st = st\<lparr>no_targets := (no_targets st)(na_ID n \<mapsto> n)\<rparr>"

definition UpdateTarget :: "named_target \<Rightarrow> notify_store \<Rightarrow> notification_error option \<times> notify_store" where
  "UpdateTarget n st = (if no_targets st (na_ID n) = None then (Some TargetNotFound, st) else (None, SaveTarget n st))"

definition GetTarget :: "string \<Rightarrow> notify_store \<Rightarrow> notification_error + named_target" where
  "GetTarget i st = (case no_targets st i of None \<Rightarrow> Inl TargetNotFound | Some n \<Rightarrow> Inr n)"

definition older_target :: "named_target \<Rightarrow> named_target \<Rightarrow> bool" where
  "older_target a b \<longleftrightarrow> (if na_CreatedAt a = na_CreatedAt b then na_ID a < na_ID b else na_CreatedAt a < na_CreatedAt b)"

definition ListTargets :: "string list \<Rightarrow> notify_store \<Rightarrow> named_target list" where
  "ListTargets ord st = sortSlice older_target (List.map_filter (no_targets st) ord)"

definition DeleteTarget :: "string \<Rightarrow> notify_store \<Rightarrow> notification_error option \<times> notify_store" where
  "DeleteTarget i st =
     (if no_targets st i = None then (Some TargetNotFound, st)
      else (None, st\<lparr>no_targets := (no_targets st)(i := None),
        no_attachments := (\<lambda>k. case no_attachments st k of
          None \<Rightarrow> None | Some a \<Rightarrow> if at_NotificationID a = i then None else Some a)\<rparr>))"

definition same_attachment :: "attachment \<Rightarrow> attachment \<Rightarrow> bool" where
  "same_attachment a b \<longleftrightarrow> at_NotificationID a = at_NotificationID b \<and> at_ObjectKind a = at_ObjectKind b \<and>
     at_ObjectID a = at_ObjectID b \<and> at_Event a = at_Event b"

definition Attach :: "string list \<Rightarrow> attachment \<Rightarrow> notify_store \<Rightarrow> notification_error option \<times> notify_store" where
  "Attach ord a st =
     (if list_ex (same_attachment a) (List.map_filter (no_attachments st) ord) then (Some ErrDuplicate, st)
      else (None, st\<lparr>no_attachments := (no_attachments st)(at_ID a \<mapsto> a)\<rparr>))"

definition Detach :: "string \<Rightarrow> notify_store \<Rightarrow> notification_error option \<times> notify_store" where
  "Detach i st =
     (if no_attachments st i = None then (Some AttachmentNotFound, st)
      else (None, st\<lparr>no_attachments := (no_attachments st)(i := None)\<rparr>))"

definition older_attachment :: "attachment \<Rightarrow> attachment \<Rightarrow> bool" where
  "older_attachment a b \<longleftrightarrow> (if at_CreatedAt a = at_CreatedAt b then at_ID a < at_ID b else at_CreatedAt a < at_CreatedAt b)"

definition filter_attachments :: "string list \<Rightarrow> (attachment \<Rightarrow> bool) \<Rightarrow> notify_store \<Rightarrow> attachment list" where
  "filter_attachments ord keep st = sortSlice older_attachment (filter keep (List.map_filter (no_attachments st) ord))"

definition Attachments :: "string list \<Rightarrow> string \<Rightarrow> notify_store \<Rightarrow> attachment list" where
  "Attachments ord i = filter_attachments ord (\<lambda>a. at_NotificationID a = i)"

definition AttachedTo :: "string list \<Rightarrow> string \<Rightarrow> string \<Rightarrow> notify_store \<Rightarrow> attachment list" where
  "AttachedTo ord kind i = filter_attachments ord (\<lambda>a. at_ObjectKind a = kind \<and> at_ObjectID a = i)"

definition ListAttachments :: "string list \<Rightarrow> notify_store \<Rightarrow> attachment list" where
  "ListAttachments ord = filter_attachments ord (\<lambda>_. True)"

text \<open>The summary of a removal: \<open>Summarize\<close> sorts the names and keeps one of each.\<close>

record cleanup =
  cu_Removed :: int
  cu_Targets :: "string list"

definition Summarize :: "string list \<Rightarrow> cleanup" where
  "Summarize ids = \<lparr>cu_Removed = int (length ids), cu_Targets = remdups_adj (sort ids)\<rparr>"

definition DetachObject :: "string list \<Rightarrow> string \<Rightarrow> string \<Rightarrow> notify_store \<Rightarrow> cleanup \<times> notify_store" where
  "DetachObject ord kind i st =
     (Summarize (map at_NotificationID (filter (\<lambda>a. at_ObjectKind a = kind \<and> at_ObjectID a = i) (List.map_filter (no_attachments st) ord))),
      st\<lparr>no_attachments := (\<lambda>k. case no_attachments st k of
        None \<Rightarrow> None | Some a \<Rightarrow> if at_ObjectKind a = kind \<and> at_ObjectID a = i then None else Some a)\<rparr>)"

section \<open>Recording\<close>

definition newDelivery :: "run_event \<Rightarrow> recipient \<Rightarrow> delivery" where
  "newDelivery ev rc =
     (let d = \<lparr>dl_NotificationID = rc_NotificationID rc, dl_RunID = ev_RunID ev, dl_Seq = ev_Seq ev, dl_Event = ev_Event ev,
        dl_Branch = ev_Branch ev, dl_Follows = ev_Follows ev, dl_TargetName = rc_Name rc, dl_TargetKind = rc_Kind rc,
        dl_Status = DeliveryPending, dl_Attempts = 0, dl_NextAttemptAt = ev_CreatedAt ev, dl_LastError = [], dl_Note = [],
        dl_CreatedAt = ev_CreatedAt ev, dl_FinishedAt = None, dl_ClaimedBy = [], dl_ClaimUntil = None, dl_Snapshot = [],
        dl_EarlierFailed = False\<rparr>
      in if rc_Skip rc \<noteq> [] then
           d\<lparr>dl_Status := DeliverySkipped, dl_LastError := rc_Skip rc, dl_FinishedAt := Some (ev_CreatedAt ev)\<rparr>
         else d)"

definition queue :: "delivery \<Rightarrow> (string \<rightharpoonup> delivery) \<Rightarrow> (string \<rightharpoonup> delivery)" where
  "queue d m = (if m (DeliveryKey d) \<noteq> None then m else m(DeliveryKey d \<mapsto> d))"

definition same_moment :: "(string \<Rightarrow> string) \<Rightarrow> run_event \<Rightarrow> run_event \<Rightarrow> bool" where
  "same_moment sha ev have \<longleftrightarrow>
     EventKey sha have = EventKey sha ev \<or>
     fst (Once ev) \<noteq> [] \<and> ev_Branch have = ev_Branch ev \<and> (ev_Event have = fst (Once ev) \<or> ev_Event have = snd (Once ev))"

definition RecordEvent :: "(string \<Rightarrow> string) \<Rightarrow> run_event \<Rightarrow> recipient list \<Rightarrow> notify_store \<Rightarrow> bool \<times> notify_store" where
  "RecordEvent sha ev recipients st =
     (let have = no_events st (ev_RunID ev) in
      if list_ex (same_moment sha ev) have then (False, st)
      else let stored = ev\<lparr>ev_CreatedAt := Millis (ev_CreatedAt ev), ev_Seq := int (length have) + 1,
                 ev_Follows := DecodeFollows (EncodeFollows (ev_Follows ev))\<rparr>
           in (True, st\<lparr>no_events := (no_events st)(ev_RunID ev := have @ [stored]),
                 no_deliveries := fold (\<lambda>rc. queue (newDelivery stored rc)) recipients (no_deliveries st)\<rparr>))"

section \<open>Claiming\<close>

definition blocked :: "(string \<rightharpoonup> delivery) \<Rightarrow> string list \<Rightarrow> delivery \<Rightarrow> bool" where
  "blocked m ord d \<longleftrightarrow> list_ex (\<lambda>e. dl_NotificationID e = dl_NotificationID d \<and> dl_RunID e = dl_RunID d \<and>
     dl_Seq e < dl_Seq d \<and> dl_Status e = DeliveryPending \<and> Ordered (dl_Branch d) (dl_Follows d) (dl_Branch e))
     (List.map_filter m ord)"

definition earlierFailed :: "(string \<rightharpoonup> delivery) \<Rightarrow> string list \<Rightarrow> delivery \<Rightarrow> bool" where
  "earlierFailed m ord d \<longleftrightarrow> list_ex (\<lambda>e. dl_NotificationID e = dl_NotificationID d \<and> dl_RunID e = dl_RunID d \<and>
     dl_Seq e < dl_Seq d \<and> dl_Status e = DeliveryFailed) (List.map_filter m ord)"

definition live_claim :: "gotime \<Rightarrow> delivery \<Rightarrow> bool" where
  "live_claim now d \<longleftrightarrow> (case dl_ClaimUntil d of None \<Rightarrow> False | Some u \<Rightarrow> \<not> u < now)"

definition due :: "gotime \<Rightarrow> (string \<rightharpoonup> delivery) \<Rightarrow> string list \<Rightarrow> delivery \<Rightarrow> bool" where
  "due now m ord d \<longleftrightarrow> dl_Status d = DeliveryPending \<and> \<not> live_claim now d \<and> \<not> dl_NextAttemptAt d > now \<and> \<not> blocked m ord d"

definition held :: "string \<Rightarrow> gotime \<Rightarrow> delivery list \<Rightarrow> string \<Rightarrow> nat" where
  "held owner now ds i = length (filter (\<lambda>d. dl_Status d = DeliveryPending \<and> live_claim now d \<and> dl_ClaimedBy d = owner \<and>
     dl_NotificationID d = i) ds)"

definition due_before :: "delivery \<Rightarrow> delivery \<Rightarrow> bool" where
  "due_before a b \<longleftrightarrow>
     (if dl_NextAttemptAt a \<noteq> dl_NextAttemptAt b then dl_NextAttemptAt a < dl_NextAttemptAt b
      else if dl_RunID a \<noteq> dl_RunID b then dl_RunID a < dl_RunID b
      else if dl_Seq a \<noteq> dl_Seq b then dl_Seq a < dl_Seq b
      else dl_NotificationID a < dl_NotificationID b)"

text \<open>The deliveries taken, in order: \<open>n\<close> are taken already, \<open>h\<close> counts those held to each target.\<close>

fun take_due :: "nat \<Rightarrow> nat \<Rightarrow> nat \<Rightarrow> (string \<Rightarrow> nat) \<Rightarrow> delivery list \<Rightarrow> delivery list" where
  "take_due limit per n h [] = []"
| "take_due limit per n h (d # ds) =
     (if limit > 0 \<and> n = limit then []
      else if per > 0 \<and> h (dl_NotificationID d) \<ge> per then take_due limit per n h ds
      else d # take_due limit per (Suc n) (h(dl_NotificationID d := Suc (h (dl_NotificationID d)))) ds)"

definition event_snapshot :: "notify_store \<Rightarrow> string \<Rightarrow> int \<Rightarrow> string" where
  "event_snapshot st runID seq =
     (case find (\<lambda>ev. ev_Seq ev = seq) (no_events st runID) of None \<Rightarrow> [] | Some ev \<Rightarrow> ev_Snapshot ev)"

definition claimed :: "string \<Rightarrow> gotime \<Rightarrow> delivery \<Rightarrow> delivery" where
  "claimed owner until d = d\<lparr>dl_ClaimedBy := owner, dl_ClaimUntil := Some until\<rparr>"

definition ClaimDeliveries :: "string list \<Rightarrow> string \<Rightarrow> gotime \<Rightarrow> duration \<Rightarrow> nat \<Rightarrow> nat \<Rightarrow> notify_store \<Rightarrow> delivery list \<times> notify_store" where
  "ClaimDeliveries ord owner now lease limit per st =
     (let m = no_deliveries st; ds = List.map_filter m ord; until = Millis (now + lease);
          taken = take_due limit per 0 (held owner now ds) (sortSlice due_before (filter (due now m ord) ds))
      in (map (\<lambda>d. (claimed owner until d)\<lparr>dl_Snapshot := event_snapshot st (dl_RunID d) (dl_Seq d),
                dl_EarlierFailed := earlierFailed m ord d\<rparr>) taken,
          st\<lparr>no_deliveries := fold (\<lambda>d. (\<lambda>m. m(DeliveryKey d \<mapsto> claimed owner until d))) taken m\<rparr>))"

definition holds_delivery :: "string \<Rightarrow> delivery \<Rightarrow> bool" where
  "holds_delivery owner have \<longleftrightarrow> dl_Status have = DeliveryPending \<and> dl_ClaimedBy have = owner"

definition finished :: "attempt_outcome \<Rightarrow> delivery \<Rightarrow> delivery" where
  "finished out0 have0 =
     (let out = Outcome_SanitizeText out0;
          have = have0\<lparr>dl_Attempts := dl_Attempts have0 + 1, dl_LastError := ao_Error out, dl_Note := ao_Note out,
            dl_ClaimedBy := [], dl_ClaimUntil := None\<rparr>
      in if ao_Status out = DeliveryPending then have\<lparr>dl_NextAttemptAt := Millis (ao_NextAttemptAt out)\<rparr>
         else have\<lparr>dl_Status := ao_Status out, dl_FinishedAt := Some (Millis (ao_At out))\<rparr>)"

definition FinishDelivery :: "string \<Rightarrow> string \<Rightarrow> attempt_outcome \<Rightarrow> notify_store \<Rightarrow> notification_error option \<times> notify_store" where
  "FinishDelivery k owner out st =
     (case no_deliveries st k of
        None \<Rightarrow> (Some ErrDeliveryLost, st)
      | Some have \<Rightarrow>
          if \<not> holds_delivery owner have then (Some ErrDeliveryLost, st)
          else (None, st\<lparr>no_deliveries := (no_deliveries st)(k \<mapsto> finished out have)\<rparr>))"

definition ReleaseDelivery :: "string \<Rightarrow> string \<Rightarrow> notify_store \<Rightarrow> notification_error option \<times> notify_store" where
  "ReleaseDelivery k owner st =
     (case no_deliveries st k of
        None \<Rightarrow> (Some ErrDeliveryLost, st)
      | Some have \<Rightarrow>
          if \<not> holds_delivery owner have then (Some ErrDeliveryLost, st)
          else (None, st\<lparr>no_deliveries := (no_deliveries st)(k \<mapsto> have\<lparr>dl_ClaimedBy := [], dl_ClaimUntil := None\<rparr>)\<rparr>))"

section \<open>Listing\<close>

record delivery_filter =
  df_RunID :: string
  df_NotificationID :: string
  df_Status :: "delivery_status option"
  df_Since :: gotime
  df_Limit :: int

definition DefaultDeliveryLimit :: int where "DefaultDeliveryLimit = 200"

definition EffectiveLimit :: "delivery_filter \<Rightarrow> int" where
  "EffectiveLimit f = (if df_Limit f \<le> 0 \<or> df_Limit f > DefaultDeliveryLimit then DefaultDeliveryLimit else df_Limit f)"

definition deliveryNewer :: "delivery \<Rightarrow> delivery \<Rightarrow> bool" where
  "deliveryNewer a b \<longleftrightarrow>
     (if dl_CreatedAt a \<noteq> dl_CreatedAt b then dl_CreatedAt a > dl_CreatedAt b
      else if dl_RunID a \<noteq> dl_RunID b then dl_RunID a > dl_RunID b
      else if dl_Seq a \<noteq> dl_Seq b then dl_Seq a > dl_Seq b
      else dl_NotificationID a < dl_NotificationID b)"

definition selected :: "delivery_filter \<Rightarrow> delivery \<Rightarrow> bool" where
  "selected f d \<longleftrightarrow> \<not> (df_RunID f \<noteq> [] \<and> dl_RunID d \<noteq> df_RunID f \<or>
     df_NotificationID f \<noteq> [] \<and> dl_NotificationID d \<noteq> df_NotificationID f \<or>
     df_Status f \<noteq> None \<and> Some (dl_Status d) \<noteq> df_Status f \<or>
     \<not> IsZero (df_Since f) \<and> dl_CreatedAt d < df_Since f)"

definition Deliveries :: "string list \<Rightarrow> delivery_filter \<Rightarrow> notify_store \<Rightarrow> delivery list" where
  "Deliveries ord f st =
     take (nat (EffectiveLimit f)) (sortSlice deliveryNewer
       (map (\<lambda>d. d\<lparr>dl_Snapshot := []\<rparr>) (filter (selected f) (List.map_filter (no_deliveries st) ord))))"

end
