(* ===== verification/Outbox.thy ===== *)
theory Outbox
  imports Notify_Store
begin

text \<open>
  Routing and delivery (\<open>notification/router.go\<close>, \<open>notification/outbox.go\<close>): which targets a run's event is
  recorded for, the recording with its retries, one attempt at a delivery and what it comes to. What the
  other stores answer, and what a target answers to a message, are arguments.
\<close>

section \<open>Routing\<close>

text \<open>A read of another store: what it found, that it is gone, or an error.\<close>

datatype 'a lookup = Found 'a | Gone | Unreadable

definition maxLineage :: nat where "maxLineage = 8"

record lineage_stores =
  ls_schedules :: "(string \<Rightarrow> string lookup) option"
  ls_triggers :: "(string \<Rightarrow> string lookup) option"
  ls_runs :: "(string \<Rightarrow> run lookup) option"

definition lineageErr :: "bool \<Rightarrow> notification_error" where
  "lineageErr gone = (if gone then ErrTemplateGone else ReadFailed)"

definition template_of_lookup :: "string lookup \<Rightarrow> notification_error + string" where
  "template_of_lookup l = (case l of Found t \<Rightarrow> Inr t | Gone \<Rightarrow> Inl (lineageErr True) | Unreadable \<Rightarrow> Inl (lineageErr False))"

text \<open>\<open>SourceLineage\<close>; the stores of schedules and triggers answer with the template their row names.\<close>

fun lineage_from :: "nat \<Rightarrow> lineage_stores \<Rightarrow> run \<Rightarrow> notification_error + string" where
  "lineage_from 0 ls r = Inr []"
| "lineage_from (Suc n) ls r =
     (if Source r = ''template'' then Inr (SourceID r)
      else if Source r = ''schedule'' then
        (case ls_schedules ls of None \<Rightarrow> Inr [] | Some get \<Rightarrow> template_of_lookup (get (SourceID r)))
      else if Source r = ''trigger'' then
        (case ls_triggers ls of None \<Rightarrow> Inr [] | Some get \<Rightarrow> template_of_lookup (get (SourceID r)))
      else if Source r = ''rerun'' \<or> Source r = ''relaunch'' then
        (case ls_runs ls of
           None \<Rightarrow> Inr []
         | Some get \<Rightarrow>
             if SourceID r = [] then Inr []
             else (case get (SourceID r) of
               Found origin \<Rightarrow> lineage_from n ls origin
             | Gone \<Rightarrow> Inl (lineageErr True)
             | Unreadable \<Rightarrow> Inl (lineageErr False)))
      else Inr [])"

definition SourceLineage :: "lineage_stores \<Rightarrow> run \<Rightarrow> notification_error + string" where
  "SourceLineage ls r = lineage_from maxLineage ls r"

text \<open>A router: the lineage and the owner of a template, when it has them, and its store, whose reads may
  fail.\<close>

record router =
  ro_lineage :: "(run \<Rightarrow> notification_error + string) option"
  ro_templateOrg :: "(string \<Rightarrow> notification_error + string) option"
  ro_attachedTo :: "string \<Rightarrow> string \<Rightarrow> notification_error + attachment list"
  ro_get :: "string \<Rightarrow> notification_error + named_target"

definition passOver :: "notification_error \<Rightarrow> notification_error option" where
  "passOver e = (if e = ErrTemplateGone then None else Some e)"

definition read_or_pass :: "notification_error + string \<Rightarrow> string \<times> notification_error list" where
  "read_or_pass x = (case x of Inr s \<Rightarrow> (s, []) | Inl e \<Rightarrow> ([], case passOver e of None \<Rightarrow> [] | Some e' \<Rightarrow> [e']))"

definition routed_objects :: "router \<Rightarrow> run \<Rightarrow> (string \<times> string) list \<times> notification_error list" where
  "routed_objects rt r =
     (let base = [(KindProject, ProjectID r), (KindOrg, OrgID r)];
          (tail, errs) =
            (case ro_lineage rt of
               None \<Rightarrow> ([], [])
             | Some lineage \<Rightarrow>
                 (let (tpl, e1) = read_or_pass (lineage r) in
                  case ro_templateOrg rt of
                    None \<Rightarrow> ([(KindTemplate, tpl)], e1)
                  | Some owner_of \<Rightarrow>
                      if tpl = [] then ([(KindTemplate, tpl)], e1)
                      else (let (owner, e2) = read_or_pass (owner_of tpl) in
                            ((KindTemplate, tpl) # (if owner \<noteq> OrgID r then [(KindOrg, owner)] else []), e1 @ e2))))
      in (base @ tail @ (if Source r = ''schedule'' then [(KindSchedule, SourceID r)] else []), errs))"

fun hear_from :: "router \<Rightarrow> string \<Rightarrow> (string \<times> string) list \<Rightarrow> string list \<Rightarrow> notification_error list \<Rightarrow>
    string list \<times> notification_error list" where
  "hear_from rt event [] out errs = (out, errs)"
| "hear_from rt event ((kind, i) # os) out errs =
     (if i = [] then hear_from rt event os out errs
      else case ro_attachedTo rt kind i of
        Inl e \<Rightarrow> hear_from rt event os out (errs @ [e])
      | Inr as \<Rightarrow>
          hear_from rt event os
            (fold (\<lambda>a out. if \<not> attachment_hears a event \<or> at_NotificationID a \<in> set out then out
                           else out @ [at_NotificationID a]) as out) errs)"

definition attached :: "router \<Rightarrow> run \<Rightarrow> string \<Rightarrow> string list \<times> notification_error list" where
  "attached rt r event =
     (if event = [] then ([], [])
      else let (objects, errs) = routed_objects rt r in hear_from rt event objects [] errs)"

definition recipient_of :: "named_target \<Rightarrow> recipient" where
  "recipient_of n = \<lparr>rc_NotificationID = na_ID n, rc_Name = na_Name n, rc_Kind = na_Kind n,
     rc_Skip = (if na_NeedsSecret n then ''not sent: the target is waiting for its secret to be entered'' else [])\<rparr>"

fun read_recipients :: "router \<Rightarrow> string list \<Rightarrow> notification_error + recipient list" where
  "read_recipients rt [] = Inr []"
| "read_recipients rt (i # is) =
     (case ro_get rt i of
        Inl e \<Rightarrow> if e = TargetNotFound then read_recipients rt is else Inl e
      | Inr n \<Rightarrow> map_sum (\<lambda>e. e) (\<lambda>rs. recipient_of n # rs) (read_recipients rt is))"

definition recipientsFor :: "router \<Rightarrow> run \<Rightarrow> string \<Rightarrow> notification_error + recipient list" where
  "recipientsFor rt r event =
     (case attached rt r event of
        (ids, []) \<Rightarrow> map_sum (\<lambda>e. e) (take MaxNotifyTargets) (read_recipients rt ids)
      | (_, e # _) \<Rightarrow> Inl e)"

definition Recipients :: "router \<Rightarrow> run \<Rightarrow> notification_error + recipient list" where
  "Recipients rt r = recipientsFor rt r (EventOf r)"

fun open_targets :: "router \<Rightarrow> notify_sealer option \<Rightarrow> string list \<Rightarrow> notify_target list" where
  "open_targets rt sealer [] = []"
| "open_targets rt sealer (i # is) =
     (case ro_get rt i of
        Inl _ \<Rightarrow> open_targets rt sealer is
      | Inr n \<Rightarrow> (case Target sealer n of Inl _ \<Rightarrow> open_targets rt sealer is | Inr t \<Rightarrow> t # open_targets rt sealer is))"

definition Targets :: "router \<Rightarrow> notify_sealer option \<Rightarrow> run \<Rightarrow> notify_target list" where
  "Targets rt sealer r = take MaxNotifyTargets (open_targets rt sealer (fst (attached rt r (EventOf r))))"

section \<open>Recording\<close>

text \<open>The JSON form of a run, the sealer, the mask of an address, SHA-256, and the texts of errors.\<close>

record outbox_cfg =
  ob_marshal :: "run \<Rightarrow> string option"
  ob_unmarshal :: "string \<Rightarrow> string + run"
  ob_text :: "notification_error \<Rightarrow> string"
  ob_sealer :: "notify_sealer option"
  ob_maskURL :: "string \<Rightarrow> string"
  ob_sha :: "string \<Rightarrow> string"

text \<open>One attempt meets one state of the world: the router's answers, whether the store refuses the write,
  and the reading of the clock.\<close>

record record_try =
  rt_router :: router
  rt_refuses :: bool
  rt_now :: gotime

definition record_write :: "(string \<Rightarrow> string) \<Rightarrow> record_try \<Rightarrow> run_event \<Rightarrow> recipient list \<Rightarrow> notify_store \<Rightarrow>
    (notification_error + bool) \<times> notify_store" where
  "record_write sha env ev rcs st =
     (if rcs = [] then (Inr False, st)
      else if rt_refuses env then (Inl ReadFailed, st)
      else (case RecordEvent sha ev rcs st of (b, st') \<Rightarrow> (Inr b, st')))"

definition record_once :: "(string \<Rightarrow> string) \<Rightarrow> run \<Rightarrow> string \<Rightarrow> string \<times> string list \<Rightarrow> string \<Rightarrow> record_try \<Rightarrow> notify_store \<Rightarrow>
    (notification_error + bool) \<times> notify_store" where
  "record_once sha r event branch snapshot env st =
     (case Recipients (rt_router env) r of
        Inl e \<Rightarrow> (Inl e, st)
      | Inr rs \<Rightarrow>
          record_write sha env
            \<lparr>ev_RunID = ID r, ev_Seq = 0, ev_Event = event, ev_Branch = fst branch, ev_Follows = snd branch,
             ev_Snapshot = snapshot, ev_CreatedAt = rt_now env\<rparr>
            (filter (\<lambda>rc. Hears (rc_Kind rc) r) rs) st)"

text \<open>The tries that fit into \<open>recordTimeout\<close>, of which there is at least one.\<close>

fun retry :: "(record_try \<Rightarrow> notify_store \<Rightarrow> (notification_error + bool) \<times> notify_store) \<Rightarrow> record_try list \<Rightarrow> notify_store \<Rightarrow>
    notification_error option \<times> notify_store" where
  "retry attempt [] st = (Some ReadFailed, st)"
| "retry attempt (env # envs) st =
     (case attempt env st of
        (Inr _, st') \<Rightarrow> (None, st')
      | (Inl e, st') \<Rightarrow> if envs = [] then (Some e, st') else retry attempt envs st')"

definition RecordRun :: "outbox_cfg \<Rightarrow> record_try list \<Rightarrow> run \<Rightarrow> string \<times> string list \<Rightarrow> notify_store \<Rightarrow>
    notification_error option \<times> notify_store" where
  "RecordRun cfg envs r branch st =
     (if ID r = [] then (None, st)
      else if EventOf r = [] then (None, st)
      else case ob_marshal cfg r of
        None \<Rightarrow> (Some ReadFailed, st)
      | Some snapshot \<Rightarrow> retry (record_once (ob_sha cfg) r (EventOf r) branch snapshot) envs st)"

definition unsent_once :: "(string \<Rightarrow> string) \<Rightarrow> run \<Rightarrow> run \<Rightarrow> string \<Rightarrow> string \<Rightarrow> string \<Rightarrow> record_try \<Rightarrow> notify_store \<Rightarrow>
    (notification_error + bool) \<times> notify_store" where
  "unsent_once sha r at event why snapshot env st =
     (case recipientsFor (rt_router env) at event of
        Inl e \<Rightarrow> (Inl e, st)
      | Inr rs \<Rightarrow>
          record_write sha env
            \<lparr>ev_RunID = ID r, ev_Seq = 0, ev_Event = event, ev_Branch = [], ev_Follows = [], ev_Snapshot = snapshot,
             ev_CreatedAt = rt_now env\<rparr>
            (map (\<lambda>rc. rc\<lparr>rc_Skip := why\<rparr>) (filter (\<lambda>rc. Hears (rc_Kind rc) at) rs)) st)"

definition RecordUnsent :: "outbox_cfg \<Rightarrow> record_try list \<Rightarrow> run \<Rightarrow> string \<Rightarrow> string \<Rightarrow> notify_store \<Rightarrow>
    notification_error option \<times> notify_store" where
  "RecordUnsent cfg envs r event why st =
     (if ID r = [] then (None, st)
      else if event \<noteq> EventStarted \<and> event \<noteq> EventApproval then (Some (ErrEvent event), st)
      else let at = r\<lparr>Attention := None, Status := (if event = EventStarted then StatusRunning else StatusPendingApproval)\<rparr> in
        case ob_marshal cfg r of
          None \<Rightarrow> (Some ReadFailed, st)
        | Some snapshot \<Rightarrow> retry (unsent_once (ob_sha cfg) r at event why snapshot) envs st)"

section \<open>One attempt\<close>

definition MaskMarker :: string where "MaskMarker = [CHR 0xE2, CHR 0x80, CHR 0xA6]"
definition maxErrorText :: int where "maxErrorText = 500"

record message =
  mg_Target :: notify_target
  mg_Run :: run
  mg_Event :: string
  mg_Seq :: int
  mg_Delivery :: string
  mg_Note :: string

text \<open>What a send or an attempt comes to; an error carries its text and whether it is permanent.\<close>

datatype send_result = SendOk | SendSkip string | SendErr string bool

function ReplaceAll :: "string \<Rightarrow> string \<Rightarrow> string \<Rightarrow> string" where
  "ReplaceAll old new s =
     (if old = [] \<or> s = [] then s
      else if HasPrefix s old then new @ ReplaceAll old new (drop (length old) s)
      else hd s # ReplaceAll old new (tl s))"
  by pat_completeness auto
termination by (relation "measure (\<lambda>(_, _, s). length s)") auto

definition scrubbed :: "(string \<Rightarrow> string) \<Rightarrow> notify_target \<Rightarrow> string \<Rightarrow> string" where
  "scrubbed maskURL t msg0 =
     (let msg1 = (if nt_URL t \<noteq> [] then ReplaceAll (nt_URL t) (maskURL (nt_URL t)) msg0 else msg0)
      in if nt_Key t \<noteq> [] then ReplaceAll (nt_Key t) MaskMarker msg1 else msg1)"

definition deliver :: "outbox_cfg \<Rightarrow> (notification_error + named_target) \<Rightarrow> (message \<Rightarrow> send_result) \<Rightarrow> delivery \<Rightarrow> string \<Rightarrow> send_result" where
  "deliver cfg read send d note =
     (case read of
        Inl e \<Rightarrow>
          if e = TargetNotFound then SendErr ''the target was deleted before this notification was delivered'' True
          else SendErr (''read target: '' @ ob_text cfg e) False
      | Inr n \<Rightarrow>
          (case ob_unmarshal cfg (dl_Snapshot d) of
             Inl e \<Rightarrow> SendErr (''read the run as it stood at the event: '' @ e) True
           | Inr r \<Rightarrow>
               if \<not> Hears (na_Kind n) r then
                 SendSkip (''not sent: the target was changed to '' @ na_Kind n @ '', which this event does not reach'')
               else (case Target (ob_sealer cfg) n of
                 Inl ErrNeedsSecret \<Rightarrow> SendErr ''the target is waiting for its secret to be entered'' True
               | Inl e \<Rightarrow> SendErr (ob_text cfg e) True
               | Inr t \<Rightarrow>
                   (case send \<lparr>mg_Target = t, mg_Run = r, mg_Event = dl_Event d, mg_Seq = dl_Seq d,
                          mg_Delivery = DeliveryKey d, mg_Note = note\<rparr> of
                      SendErr txt perm \<Rightarrow> SendErr (scrubbed (ob_maskURL cfg) t txt) perm
                    | res \<Rightarrow> res))))"

definition attempt_note :: "delivery \<Rightarrow> string" where
  "attempt_note d = (if dl_EarlierFailed d then EarlierFailedNote else [])"

text \<open>What the attempt records, nothing when the process is stopping and the attempt failed: then the claim
  is released.\<close>

definition outcome_of :: "bool \<Rightarrow> gotime \<Rightarrow> delivery \<Rightarrow> send_result \<Rightarrow> attempt_outcome option" where
  "outcome_of stopping now d res =
     (let out = \<lparr>ao_Status = DeliveryDelivered, ao_Error = [], ao_Note = attempt_note d, ao_At = now, ao_NextAttemptAt = zero_time\<rparr> in
      case res of
        SendOk \<Rightarrow> Some out
      | SendSkip why \<Rightarrow> if stopping then None else Some (out\<lparr>ao_Status := DeliverySkipped, ao_Error := why, ao_Note := []\<rparr>)
      | SendErr txt perm \<Rightarrow>
          if stopping then None
          else if perm \<or> dl_Attempts d + 1 \<ge> MaxAttempts then
            Some (out\<lparr>ao_Error := Clip txt maxErrorText, ao_Status := DeliveryFailed\<rparr>)
          else Some (out\<lparr>ao_Error := Clip txt maxErrorText, ao_Status := DeliveryPending,
                 ao_NextAttemptAt := now + RetryDelay (dl_Attempts d + 1)\<rparr>))"

definition record_outcome :: "string \<Rightarrow> delivery \<Rightarrow> attempt_outcome option \<Rightarrow> notify_store \<Rightarrow> notification_error option \<times> notify_store" where
  "record_outcome owner d out st =
     (case out of None \<Rightarrow> ReleaseDelivery (DeliveryKey d) owner st | Some o1 \<Rightarrow> FinishDelivery (DeliveryKey d) owner o1 st)"

text \<open>\<open>attempt\<close>, with nothing in between.\<close>

definition attempt :: "outbox_cfg \<Rightarrow> string \<Rightarrow> bool \<Rightarrow> gotime \<Rightarrow> (message \<Rightarrow> send_result) \<Rightarrow> delivery \<Rightarrow> notify_store \<Rightarrow> notify_store" where
  "attempt cfg owner stopping now send d st =
     snd (record_outcome owner d
       (outcome_of stopping now d (deliver cfg (GetTarget (dl_NotificationID d) st) send d (attempt_note d))) st)"

definition defaultLease :: duration where "defaultLease = Minute"
definition defaultBatch :: nat where "defaultBatch = 32"
definition defaultPerTarget :: nat where "defaultPerTarget = 4"
definition defaultWorkers :: nat where "defaultWorkers = 64"

definition claim_batch :: "string list \<Rightarrow> string \<Rightarrow> gotime \<Rightarrow> nat \<Rightarrow> notify_store \<Rightarrow> delivery list \<times> notify_store" where
  "claim_batch ord owner now inFlight st =
     ClaimDeliveries ord owner now defaultLease (min defaultBatch (defaultWorkers - inFlight)) defaultPerTarget st"

end
