(* ===== verification/Outbox_Steps.thy ===== *)
theory Outbox_Steps
  imports Outbox
begin

text \<open>
  Any number of outboxes on one store: each claims, makes its attempts beside each other, records what they
  came to, or stops anywhere, while events are recorded and targets are edited. The invariant of the store
  under all of that, and what it makes true of every attempt: deliveries to one target about one run go out
  in the order of its events.
\<close>

section \<open>The system\<close>

datatype phase = Making | Made send_result

record outbox_system =
  os_store :: notify_store
  os_flight :: "(string \<times> delivery \<times> phase) list"

abbreviation stored :: "outbox_system \<Rightarrow> string \<Rightarrow> delivery option" where
  "stored s \<equiv> no_deliveries (os_store s)"

definition in_flight :: "string \<Rightarrow> outbox_system \<Rightarrow> nat" where
  "in_flight owner s = length (filter (\<lambda>(o1, d, ph). o1 = owner) (os_flight s))"

definition drop_at :: "nat \<Rightarrow> 'a list \<Rightarrow> 'a list" where
  "drop_at n xs = take n xs @ drop (Suc n) xs"

inductive outbox_step :: "outbox_cfg \<Rightarrow> outbox_system \<Rightarrow> outbox_system \<Rightarrow> bool" for cfg where
  record_event: "outbox_step cfg s (s\<lparr>os_store := snd (RecordEvent (ob_sha cfg) ev rcs (os_store s))\<rparr>)"
| edit_targets: "no_events st = no_events (os_store s) \<Longrightarrow> no_deliveries st = stored s \<Longrightarrow>
    outbox_step cfg s (s\<lparr>os_store := st\<rparr>)"
| claim: "owner \<noteq> [] \<Longrightarrow> iterates ord (stored s) \<Longrightarrow> in_flight owner s < defaultWorkers \<Longrightarrow>
    claim_batch ord owner now (in_flight owner s) (os_store s) = (ds, st) \<Longrightarrow>
    outbox_step cfg s (s\<lparr>os_store := st, os_flight := os_flight s @ map (\<lambda>d. (owner, d, Making)) ds\<rparr>)"
| send: "n < length (os_flight s) \<Longrightarrow> os_flight s ! n = (owner, d, Making) \<Longrightarrow>
    outbox_step cfg s (s\<lparr>os_flight := (os_flight s)[n := (owner, d, Made (deliver cfg read sendf d (attempt_note d)))]\<rparr>)"
| finish: "n < length (os_flight s) \<Longrightarrow> os_flight s ! n = (owner, d, Made res) \<Longrightarrow>
    outbox_step cfg s (s\<lparr>os_store := snd (record_outcome owner d (outcome_of stopping now d res) (os_store s)),
      os_flight := drop_at n (os_flight s)\<rparr>)"
| lose: "n < length (os_flight s) \<Longrightarrow> outbox_step cfg s (s\<lparr>os_flight := drop_at n (os_flight s)\<rparr>)"

inductive outbox_reach :: "outbox_cfg \<Rightarrow> outbox_system \<Rightarrow> bool" for cfg where
  outbox_start: "outbox_reach cfg \<lparr>os_store = NewNotifyStore, os_flight = []\<rparr>"
| outbox_more: "outbox_reach cfg s \<Longrightarrow> outbox_step cfg s s' \<Longrightarrow> outbox_reach cfg s'"

section \<open>The invariant\<close>

text \<open>\<open>e\<close> is an earlier delivery to the same target about the same run that \<open>d\<close> comes after.\<close>

definition goes_before :: "delivery \<Rightarrow> delivery \<Rightarrow> bool" where
  "goes_before e d \<longleftrightarrow> dl_NotificationID e = dl_NotificationID d \<and> dl_RunID e = dl_RunID d \<and> dl_Seq e < dl_Seq d \<and>
     Ordered (dl_Branch d) (dl_Follows d) (dl_Branch e)"

definition waits_for_none :: "(string \<rightharpoonup> delivery) \<Rightarrow> delivery \<Rightarrow> bool" where
  "waits_for_none m d \<longleftrightarrow> (\<forall>k e. m k = Some e \<and> goes_before e d \<longrightarrow> dl_Status e \<noteq> DeliveryPending)"

text \<open>A delivery somebody has claimed at some time.\<close>

definition was_taken :: "delivery \<Rightarrow> bool" where
  "was_taken d \<longleftrightarrow> dl_ClaimedBy d \<noteq> [] \<or> dl_Attempts d > 0 \<or> dl_Status d = DeliveryDelivered \<or> dl_Status d = DeliveryFailed"

definition numbered :: "notify_store \<Rightarrow> bool" where
  "numbered st \<longleftrightarrow>
     (\<forall>r n. n < length (no_events st r) \<longrightarrow> ev_Seq (no_events st r ! n) = int n + 1 \<and> ev_RunID (no_events st r ! n) = r) \<and>
     (\<forall>k d. no_deliveries st k = Some d \<longrightarrow> k = DeliveryKey d \<and> dl_Attempts d \<ge> 0 \<and>
        1 \<le> dl_Seq d \<and> dl_Seq d \<le> int (length (no_events st (dl_RunID d))))"

definition keeps_order :: "notify_store \<Rightarrow> bool" where
  "keeps_order st \<longleftrightarrow> (\<forall>k d. no_deliveries st k = Some d \<and> was_taken d \<longrightarrow> waits_for_none (no_deliveries st) d)"

definition flight_ok :: "outbox_system \<Rightarrow> bool" where
  "flight_ok s \<longleftrightarrow> (\<forall>o1 d ph. (o1, d, ph) \<in> set (os_flight s) \<longrightarrow>
     o1 \<noteq> [] \<and> waits_for_none (stored s) d \<and> dl_Seq d \<le> int (length (no_events (os_store s) (dl_RunID d))))"

text \<open>What happens to the rows: a finished one stays as it is, and the others keep what orders them.\<close>

definition same_place :: "delivery \<Rightarrow> delivery \<Rightarrow> bool" where
  "same_place d d' \<longleftrightarrow> dl_NotificationID d' = dl_NotificationID d \<and> dl_RunID d' = dl_RunID d \<and> dl_Seq d' = dl_Seq d \<and>
     dl_Branch d' = dl_Branch d \<and> dl_Follows d' = dl_Follows d \<and> dl_Event d' = dl_Event d"

lemma same_place_refl [simp]: "same_place d d" by (simp add: same_place_def)

lemma same_place_before [simp]:
  "same_place d d' \<Longrightarrow> goes_before e d' = goes_before e d" "same_place d d' \<Longrightarrow> goes_before d' e = goes_before d e"
  by (simp_all add: same_place_def goes_before_def)

lemma same_place_key: "same_place d d' \<Longrightarrow> DeliveryKey d' = DeliveryKey d"
  by (simp add: same_place_def DeliveryKey_def)

definition rows_move :: "notify_store \<Rightarrow> notify_store \<Rightarrow> bool" where
  "rows_move st st' \<longleftrightarrow>
     (\<forall>k d. no_deliveries st k = Some d \<longrightarrow> (\<exists>d'. no_deliveries st' k = Some d' \<and> same_place d d' \<and>
        (dl_Status d \<noteq> DeliveryPending \<longrightarrow> d' = d)))"

text \<open>A step that changes existing rows only: every row of the new state has an old one, and was taken only
  if nothing before it is pending.\<close>

definition rows_kept :: "notify_store \<Rightarrow> notify_store \<Rightarrow> bool" where
  "rows_kept st st' \<longleftrightarrow> no_events st' = no_events st \<and>
     (\<forall>k d'. no_deliveries st' k = Some d' \<longrightarrow> (\<exists>d. no_deliveries st k = Some d \<and> same_place d d' \<and>
        (dl_Status d \<noteq> DeliveryPending \<longrightarrow> d' = d) \<and> dl_Attempts d \<le> dl_Attempts d' \<and>
        (was_taken d' \<longrightarrow> waits_for_none (no_deliveries st) d))) \<and>
     dom (no_deliveries st') = dom (no_deliveries st)"

lemma rows_kept_moves: "rows_kept st st' \<Longrightarrow> rows_move st st'"
proof (unfold rows_move_def, intro allI impI)
  fix k d assume h: "rows_kept st st'" and d: "no_deliveries st k = Some d"
  then obtain d' where "no_deliveries st' k = Some d'" unfolding rows_kept_def by blast
  then show "\<exists>d'. no_deliveries st' k = Some d' \<and> same_place d d' \<and> (dl_Status d \<noteq> DeliveryPending \<longrightarrow> d' = d)"
    using h d unfolding rows_kept_def by fastforce
qed

lemma rows_kept_waits:
  assumes "rows_kept st st'" and "same_place d d'" and "waits_for_none (no_deliveries st) d"
  shows "waits_for_none (no_deliveries st') d'"
  unfolding waits_for_none_def
proof (intro allI impI, elim conjE)
  fix k e' assume e': "no_deliveries st' k = Some e'" "goes_before e' d'"
  obtain e where e: "no_deliveries st k = Some e" "same_place e e'" "dl_Status e \<noteq> DeliveryPending \<longrightarrow> e' = e"
    using assms(1) e'(1) unfolding rows_kept_def by blast
  have "goes_before e d" using e'(2) assms(2) e(2) by simp
  then have "dl_Status e \<noteq> DeliveryPending" using assms(3) e(1) by (auto simp: waits_for_none_def)
  with e(3) show "dl_Status e' \<noteq> DeliveryPending" by simp
qed

lemma rows_kept_inv:
  assumes "rows_kept st st'" and "numbered st" and "keeps_order st"
  shows "numbered st'" and "keeps_order st'"
proof -
  show "numbered st'" unfolding numbered_def
  proof (intro conjI allI impI)
    fix r n assume "n < length (no_events st' r)"
    then show "ev_Seq (no_events st' r ! n) = int n + 1" "ev_RunID (no_events st' r ! n) = r"
      using assms(1,2) by (auto simp: rows_kept_def numbered_def)
  next
    fix k d' assume "no_deliveries st' k = Some d'"
    then obtain d where d: "no_deliveries st k = Some d" "same_place d d'" "dl_Attempts d \<le> dl_Attempts d'"
      using assms(1) unfolding rows_kept_def by blast
    have *: "k = DeliveryKey d \<and> dl_Attempts d \<ge> 0 \<and> 1 \<le> dl_Seq d \<and> dl_Seq d \<le> int (length (no_events st (dl_RunID d)))"
      using assms(2) d(1) by (auto simp: numbered_def)
    show "k = DeliveryKey d'" using * same_place_key [OF d(2)] by simp
    show "dl_Attempts d' \<ge> 0" using * d(3) by simp
    show "1 \<le> dl_Seq d'" using * d(2) by (simp add: same_place_def)
    show "dl_Seq d' \<le> int (length (no_events st' (dl_RunID d')))"
      using * d(2) assms(1) by (simp add: same_place_def rows_kept_def)
  qed
  show "keeps_order st'" unfolding keeps_order_def
  proof (intro allI impI, elim conjE)
    fix k d' assume d': "no_deliveries st' k = Some d'" "was_taken d'"
    then obtain d where "no_deliveries st k = Some d" "same_place d d'" "waits_for_none (no_deliveries st) d"
      using assms(1) unfolding rows_kept_def by blast
    then show "waits_for_none (no_deliveries st') d'" using rows_kept_waits [OF assms(1)] by blast
  qed
qed

section \<open>The operations\<close>

lemma take_due_subset: "d \<in> set (take_due limit per n h ds) \<Longrightarrow> d \<in> set ds"
  by (induction limit per n h ds rule: take_due.induct) (auto split: if_splits)

lemma map_filter_rows: "iterates ord m \<Longrightarrow> d \<in> set (List.map_filter m ord) \<longleftrightarrow> (\<exists>k. m k = Some d)"
  by (auto simp: set_map_filter iterates_def dom_def)

lemma due_waits: "iterates ord m \<Longrightarrow> due now m ord d \<Longrightarrow> waits_for_none m d"
  by (auto simp: due_def blocked_def waits_for_none_def goes_before_def list_ex_iff map_filter_rows)

lemma fold_claimed:
  "fold (\<lambda>d. (\<lambda>m. m(DeliveryKey d \<mapsto> claimed owner until d))) ds m k =
     (case find (\<lambda>d. DeliveryKey d = k) (rev ds) of None \<Rightarrow> m k | Some d \<Rightarrow> Some (claimed owner until d))"
proof (induction ds rule: rev_induct)
  case (snoc d ds)
  then show ?case by auto
qed simp

lemma find_some_mem: "find P xs = Some x \<Longrightarrow> x \<in> set xs \<and> P x"
  by (induction xs) (auto split: if_splits)

definition taken_by :: "string list \<Rightarrow> string \<Rightarrow> gotime \<Rightarrow> nat \<Rightarrow> nat \<Rightarrow> (string \<rightharpoonup> delivery) \<Rightarrow> delivery list" where
  "taken_by ord owner now limit per m = take_due limit per 0 (held owner now (List.map_filter m ord))
     (sortSlice due_before (filter (due now m ord) (List.map_filter m ord)))"

definition handed :: "string list \<Rightarrow> string \<Rightarrow> gotime \<Rightarrow> notify_store \<Rightarrow> delivery \<Rightarrow> delivery" where
  "handed ord owner until st d = (claimed owner until d)\<lparr>dl_Snapshot := event_snapshot st (dl_RunID d) (dl_Seq d),
     dl_EarlierFailed := earlierFailed (no_deliveries st) ord d\<rparr>"

text \<open>What a claim does: the rows it takes are due, and only those change.\<close>

lemma claim_effect:
  assumes it: "iterates ord (no_deliveries st)" and n: "numbered st"
    and c: "ClaimDeliveries ord owner now lease limit per st = (ds, st')"
  defines "taken \<equiv> taken_by ord owner now limit per (no_deliveries st)" and "until \<equiv> Millis (now + lease)"
  shows "ds = map (handed ord owner until st) taken" and "no_events st' = no_events st"
    and "d \<in> set taken \<Longrightarrow> no_deliveries st (DeliveryKey d) = Some d \<and> due now (no_deliveries st) ord d"
    and "no_deliveries st' k = Some d' \<longleftrightarrow>
      (\<exists>d. no_deliveries st k = Some d \<and> d' = (if d \<in> set taken then claimed owner until d else d))"
proof -
  let ?m = "no_deliveries st"
  have st': "st' = st\<lparr>no_deliveries := fold (\<lambda>d. (\<lambda>m. m(DeliveryKey d \<mapsto> claimed owner until d))) taken ?m\<rparr>"
    and ds: "ds = map (handed ord owner until st) taken"
    using c by (simp_all add: ClaimDeliveries_def Let_def taken_def taken_by_def handed_def [abs_def] until_def)
  show "ds = map (handed ord owner until st) taken" "no_events st' = no_events st" by (simp_all add: ds st')
  have key: "?m (DeliveryKey d) = Some d \<and> due now ?m ord d" if "d \<in> set taken" for d
    using take_due_subset [OF that [unfolded taken_def taken_by_def]] map_filter_rows [OF it] n by (auto simp: numbered_def)
  then show "d \<in> set taken \<Longrightarrow> ?m (DeliveryKey d) = Some d \<and> due now ?m ord d" .
  show "no_deliveries st' k = Some d' \<longleftrightarrow>
      (\<exists>d. ?m k = Some d \<and> d' = (if d \<in> set taken then claimed owner until d else d))"
  proof (cases "find (\<lambda>d. DeliveryKey d = k) (rev taken)")
    case None
    then have "\<forall>d\<in>set taken. DeliveryKey d \<noteq> k" by (simp add: find_None_iff)
    moreover have "DeliveryKey d = k" if "?m k = Some d" for d using that n by (simp add: numbered_def)
    ultimately show ?thesis using None by (auto simp: st' fold_claimed)
  next
    case (Some d0)
    then have d0: "d0 \<in> set taken" "DeliveryKey d0 = k" using find_some_mem by fastforce+
    then show ?thesis using Some key [OF d0(1)] by (auto simp: st' fold_claimed)
  qed
qed

lemma claimed_place: "same_place d (claimed owner until d)" "same_place d (handed ord owner until st d)"
  by (simp_all add: same_place_def claimed_def handed_def)

lemma claim_rows:
  assumes "iterates ord (no_deliveries st)" and "numbered st" and "keeps_order st" and "owner \<noteq> []"
    and c: "ClaimDeliveries ord owner now lease limit per st = (ds, st')"
  shows "rows_kept st st'"
    and "d \<in> set ds \<Longrightarrow> \<exists>d0 k. no_deliveries st k = Some d0 \<and> same_place d0 d \<and> waits_for_none (no_deliveries st) d0"
proof -
  let ?m = "no_deliveries st" and ?until = "Millis (now + lease)"
  define taken where "taken = taken_by ord owner now limit per ?m"
  note effect = claim_effect [OF assms(1,2) c, folded taken_def]
  note row = effect(4) and ds = effect(1) and place = claimed_place(1)
  have taken: "due now ?m ord d" "?m (DeliveryKey d) = Some d" if "d \<in> set taken" for d using effect(3) [OF that] by simp_all
  show "rows_kept st st'" unfolding rows_kept_def
  proof (intro conjI allI impI)
    show "no_events st' = no_events st" by (rule effect(2))
    show "dom (no_deliveries st') = dom ?m" by (auto simp: dom_def row)
  next
    fix k d' assume "no_deliveries st' k = Some d'"
    then obtain d where d: "?m k = Some d" "d' = (if d \<in> set taken then claimed owner ?until d else d)"
      using row by blast
    have "was_taken d' \<longrightarrow> waits_for_none ?m d"
    proof (cases "d \<in> set taken")
      case True
      then show ?thesis using due_waits [OF assms(1) taken(1) [OF True]] by blast
    next
      case False
      then show ?thesis using assms(3) d by (auto simp: keeps_order_def)
    qed
    moreover have "dl_Status d \<noteq> DeliveryPending \<longrightarrow> d' = d" using d(2) taken(1) [of d] by (auto simp: due_def)
    ultimately show "\<exists>d. ?m k = Some d \<and> same_place d d' \<and> (dl_Status d \<noteq> DeliveryPending \<longrightarrow> d' = d) \<and>
        dl_Attempts d \<le> dl_Attempts d' \<and> (was_taken d' \<longrightarrow> waits_for_none ?m d)"
      using d place by (intro exI [of _ d]) (auto simp: claimed_def)
  qed
  show "\<exists>d0 k. ?m k = Some d0 \<and> same_place d0 d \<and> waits_for_none ?m d0" if mem: "d \<in> set ds"
  proof -
    obtain d0 where d0: "d0 \<in> set taken" "d = handed ord owner ?until st d0" using mem by (auto simp: ds)
    then show ?thesis using claimed_place(2) taken(2) [OF d0(1)] due_waits [OF assms(1) taken(1) [OF d0(1)]] by blast
  qed
qed

text \<open>A write to one pending row its holder makes.\<close>

lemma write_rows:
  assumes "numbered st" and "keeps_order st" and "owner \<noteq> []"
    and "no_deliveries st k = Some d" and "holds_delivery owner d" and "same_place d d'" and "dl_Attempts d \<le> dl_Attempts d'"
  shows "rows_kept st (st\<lparr>no_deliveries := (no_deliveries st)(k \<mapsto> d')\<rparr>)"
proof -
  have "waits_for_none (no_deliveries st) d"
    using assms(2-5) by (auto simp: keeps_order_def holds_delivery_def was_taken_def)
  then show ?thesis using assms(2,4-7) by (auto simp: rows_kept_def holds_delivery_def keeps_order_def)
qed

lemma finished_place: "same_place d (finished out d)" "dl_Attempts (finished out d) = dl_Attempts d + 1"
  by (auto simp: finished_def same_place_def Let_def)

lemma rows_kept_refl: "keeps_order st \<Longrightarrow> rows_kept st st"
  by (auto simp: rows_kept_def keeps_order_def)

lemma outcome_rows:
  assumes "numbered st" and "keeps_order st" and "owner \<noteq> []"
  shows "rows_kept st (snd (record_outcome owner d out st))"
proof (cases out)
  case None
  then show ?thesis using write_rows [OF assms] rows_kept_refl [OF assms(2)]
    by (auto simp: record_outcome_def ReleaseDelivery_def same_place_def split: option.splits)
next
  case (Some o1)
  then show ?thesis using write_rows [OF assms] rows_kept_refl [OF assms(2)] finished_place
    by (auto simp: record_outcome_def FinishDelivery_def split: option.splits)
qed

end
