(* ===== verification/Outbox_Props.thy ===== *)
theory Outbox_Props
  imports Outbox_Steps
begin

text \<open>
  What the outbox promises: a message never overtakes an earlier one, a moment of a run is recorded once,
  a finished delivery stays finished, and whatever the targets answer, passes of the outbox finish every
  delivery.
\<close>

section \<open>Recording\<close>

lemma queue_keeps: "m k = Some d \<Longrightarrow> queue e m k = Some d"
  by (auto simp: queue_def)

lemma fold_queue_keeps: "m k = Some d \<Longrightarrow> fold (\<lambda>rc. queue (newDelivery ev rc)) rcs m k = Some d"
  by (induction rcs arbitrary: m) (auto simp: queue_keeps)

lemma fold_queue_new:
  "fold (\<lambda>rc. queue (newDelivery ev rc)) rcs m k = Some d \<Longrightarrow>
     m k = Some d \<or> m k = None \<and> (\<exists>rc\<in>set rcs. d = newDelivery ev rc \<and> k = DeliveryKey d)"
proof (induction rcs arbitrary: m)
  case (Cons rc rcs)
  from Cons.IH [of "queue (newDelivery ev rc) m"] Cons.prems
  show ?case by (auto simp: queue_def split: if_splits)
qed simp

lemma newDelivery_fields [simp]:
  "dl_RunID (newDelivery ev rc) = ev_RunID ev" "dl_Seq (newDelivery ev rc) = ev_Seq ev"
  "dl_Attempts (newDelivery ev rc) = 0" "\<not> was_taken (newDelivery ev rc)"
  "dl_NotificationID (newDelivery ev rc) = rc_NotificationID rc"
  by (auto simp: newDelivery_def was_taken_def Let_def)

text \<open>What \<open>RecordEvent\<close> adds.\<close>

lemma record_cases:
  obtains (known) "RecordEvent sha ev rcs st = (False, st)"
  | (recorded) stored where "RecordEvent sha ev rcs st = (True, st\<lparr>no_events := (no_events st)(ev_RunID ev := no_events st (ev_RunID ev) @ [stored]),
      no_deliveries := fold (\<lambda>rc. queue (newDelivery stored rc)) rcs (no_deliveries st)\<rparr>)"
      "ev_RunID stored = ev_RunID ev" "ev_Seq stored = int (length (no_events st (ev_RunID ev))) + 1"
      "ev_Event stored = ev_Event ev" "ev_Branch stored = ev_Branch ev" "ev_Snapshot stored = ev_Snapshot ev"
      "\<forall>h\<in>set (no_events st (ev_RunID ev)). \<not> same_moment sha ev h"
proof (cases "list_ex (same_moment sha ev) (no_events st (ev_RunID ev))")
  case True
  then show ?thesis using known by (simp add: RecordEvent_def Let_def)
next
  case False
  show ?thesis
    by (rule recorded [of "ev\<lparr>ev_CreatedAt := Millis (ev_CreatedAt ev), ev_Seq := int (length (no_events st (ev_RunID ev))) + 1,
                 ev_Follows := DecodeFollows (EncodeFollows (ev_Follows ev))\<rparr>"])
      (use False in \<open>simp_all add: RecordEvent_def Let_def list_ex_iff\<close>)
qed

lemma record_waits:
  assumes n: "numbered st" and r: "RecordEvent sha ev rcs st = (b, st')"
    and w: "waits_for_none (no_deliveries st) d" and d: "dl_Seq d \<le> int (length (no_events st (dl_RunID d)))"
  shows "waits_for_none (no_deliveries st') d"
  using record_cases [of sha ev rcs st]
proof cases
  case known
  then show ?thesis using r w by simp
next
  case (recorded e)
  show ?thesis unfolding waits_for_none_def
  proof (intro allI impI, elim conjE)
    fix k d' assume d': "no_deliveries st' k = Some d'" "goes_before d' d"
    have "fold (\<lambda>rc. queue (newDelivery e rc)) rcs (no_deliveries st) k = Some d'" using d'(1) recorded(1) r by auto
    from fold_queue_new [OF this] show "dl_Status d' \<noteq> DeliveryPending"
    proof (elim disjE conjE bexE)
      assume "no_deliveries st k = Some d'"
      then show ?thesis using w d'(2) by (auto simp: waits_for_none_def)
    next
      fix rc assume "d' = newDelivery e rc"
      then show ?thesis using d'(2) d recorded(2,3) by (auto simp: goes_before_def)
    qed
  qed
qed

lemma record_inv:
  assumes n: "numbered st" and o: "keeps_order st" and r: "RecordEvent sha ev rcs st = (b, st')"
  shows "numbered st'" and "keeps_order st'"
proof -
  have both: "numbered st' \<and> keeps_order st'"
    using record_cases [of sha ev rcs st]
  proof cases
    case known
    then show ?thesis using r n o by simp
  next
    case (recorded e)
    let ?m = "fold (\<lambda>rc. queue (newDelivery e rc)) rcs (no_deliveries st)"
    have st': "st' = st\<lparr>no_events := (no_events st)(ev_RunID ev := no_events st (ev_RunID ev) @ [e]), no_deliveries := ?m\<rparr>"
      using recorded(1) r by simp
    have "numbered st'" unfolding numbered_def
    proof (intro conjI allI impI)
      fix q i assume i: "i < length (no_events st' q)"
      show "ev_Seq (no_events st' q ! i) = int i + 1" "ev_RunID (no_events st' q ! i) = q"
        using i n recorded(2,3) by (auto simp: st' numbered_def nth_append split: if_splits)
    next
      fix k d assume "no_deliveries st' k = Some d"
      then have m: "?m k = Some d" by (simp add: st')
      have *: "k = DeliveryKey d \<and> dl_Attempts d \<ge> 0 \<and> 1 \<le> dl_Seq d \<and> dl_Seq d \<le> int (length (no_events st' (dl_RunID d)))"
        using fold_queue_new [OF m]
      proof (elim disjE conjE bexE)
        assume "no_deliveries st k = Some d"
        then have "k = DeliveryKey d" "dl_Attempts d \<ge> 0" "1 \<le> dl_Seq d" "dl_Seq d \<le> int (length (no_events st (dl_RunID d)))"
          using n by (simp_all add: numbered_def)
        then show ?thesis by (auto simp: st')
      next
        fix rc assume "d = newDelivery e rc" "k = DeliveryKey d"
        then show ?thesis using recorded(2,3) by (auto simp: st')
      qed
      then show "k = DeliveryKey d" "dl_Attempts d \<ge> 0" "1 \<le> dl_Seq d" "dl_Seq d \<le> int (length (no_events st' (dl_RunID d)))"
        by simp_all
    qed
    moreover have "keeps_order st'" unfolding keeps_order_def
    proof (intro allI impI, elim conjE)
      fix k d assume d: "no_deliveries st' k = Some d" "was_taken d"
      then have "no_deliveries st k = Some d" using fold_queue_new [of e rcs "no_deliveries st" k d] by (auto simp: st')
      then have "waits_for_none (no_deliveries st) d" "dl_Seq d \<le> int (length (no_events st (dl_RunID d)))"
        using o n d(2) by (auto simp: keeps_order_def numbered_def)
      then show "waits_for_none (no_deliveries st') d" using record_waits [OF n r] by blast
    qed
    ultimately show ?thesis by blast
  qed
  then show "numbered st'" "keeps_order st'" by simp_all
qed

text \<open>The moments of a run are told apart.\<close>

definition moments_apart :: "(string \<Rightarrow> string) \<Rightarrow> notify_store \<Rightarrow> bool" where
  "moments_apart sha st \<longleftrightarrow> (\<forall>r j i. j < length (no_events st r) \<longrightarrow> i < j \<longrightarrow> \<not> same_moment sha (no_events st r ! j) (no_events st r ! i))"

lemma record_moments:
  assumes "moments_apart sha st"
  shows "moments_apart sha (snd (RecordEvent sha ev rcs st))"
  using record_cases [of sha ev rcs st]
proof cases
  case (recorded e)
  have "same_moment sha e = same_moment sha ev"
    using recorded(4,5,6) by (simp add: same_moment_def fun_eq_iff EventKey_def Once_def event_End_def)
  moreover have "\<forall>i < length (no_events st (ev_RunID ev)). \<not> same_moment sha ev (no_events st (ev_RunID ev) ! i)"
    using recorded(7) by simp
  ultimately show ?thesis using assms recorded(1)
    by (auto simp: moments_apart_def nth_append less_Suc_eq split: if_splits)
qed (use assms in simp)

section \<open>Every reachable state\<close>

lemma set_drop_at: "x \<in> set (drop_at n xs) \<Longrightarrow> x \<in> set xs"
  by (auto simp: drop_at_def dest: in_set_takeD in_set_dropD)

definition outbox_inv :: "outbox_cfg \<Rightarrow> outbox_system \<Rightarrow> bool" where
  "outbox_inv cfg s \<longleftrightarrow> numbered (os_store s) \<and> keeps_order (os_store s) \<and> flight_ok s \<and> moments_apart (ob_sha cfg) (os_store s) \<and>
     finite (dom (stored s))"

lemma flight_ok_kept:
  assumes "rows_kept (os_store s) st'" and "flight_ok s" and "set fl \<subseteq> set (os_flight s)"
  shows "flight_ok (s\<lparr>os_store := st', os_flight := fl\<rparr>)"
  using assms rows_kept_waits [OF assms(1) same_place_refl]
  unfolding flight_ok_def by (auto simp: rows_kept_def)

lemma rows_kept_outbox_inv:
  assumes k: "rows_kept (os_store s) st'" and i: "outbox_inv cfg s" and f: "flight_ok (s\<lparr>os_store := st', os_flight := fl\<rparr>)"
  shows "outbox_inv cfg (s\<lparr>os_store := st', os_flight := fl\<rparr>)"
proof -
  have "moments_apart (ob_sha cfg) st'" "finite (dom (no_deliveries st'))"
    using k i by (auto simp: outbox_inv_def moments_apart_def rows_kept_def)
  then show ?thesis using rows_kept_inv [OF k] i f by (simp add: outbox_inv_def)
qed

lemma outbox_step_inv:
  assumes "outbox_step cfg s s'" and inv: "outbox_inv cfg s"
  shows "outbox_inv cfg s'"
  using assms(1)
proof cases
  case (record_event ev rcs)
  obtain b st' where r: "RecordEvent (ob_sha cfg) ev rcs (os_store s) = (b, st')" by fastforce
  have n: "numbered (os_store s)" "keeps_order (os_store s)" using inv by (simp_all add: outbox_inv_def)
  have more: "length (no_events (os_store s) q) \<le> length (no_events st' q)" "finite (dom (no_deliveries st'))" for q
  proof -
    have "\<exists>A. finite A \<and> dom (no_deliveries st') \<subseteq> A" using record_cases [of "ob_sha cfg" ev rcs "os_store s"]
    proof cases
      case known
      then show ?thesis using r inv by (auto simp: outbox_inv_def)
    next
      case (recorded e)
      then show ?thesis using r inv fold_queue_new [of e rcs "stored s"]
        by (intro exI [of _ "dom (stored s) \<union> (DeliveryKey \<circ> newDelivery e) ` set rcs"])
          (fastforce simp: outbox_inv_def)
    qed
    then show "finite (dom (no_deliveries st'))" using finite_subset by blast
    show "length (no_events (os_store s) q) \<le> length (no_events st' q)"
      using record_cases [of "ob_sha cfg" ev rcs "os_store s"] r by cases auto
  qed
  have "flight_ok (s\<lparr>os_store := st'\<rparr>)" unfolding flight_ok_def
  proof (intro allI impI)
    fix o1 d ph assume "(o1, d, ph) \<in> set (os_flight (s\<lparr>os_store := st'\<rparr>))"
    then have d: "o1 \<noteq> []" "waits_for_none (stored s) d" "dl_Seq d \<le> int (length (no_events (os_store s) (dl_RunID d)))"
      using inv by (auto simp: outbox_inv_def flight_ok_def)
    then show "o1 \<noteq> [] \<and> waits_for_none (stored (s\<lparr>os_store := st'\<rparr>)) d \<and>
        dl_Seq d \<le> int (length (no_events (os_store (s\<lparr>os_store := st'\<rparr>)) (dl_RunID d)))"
      using record_waits [OF n(1) r d(2,3)] more(1) [of "dl_RunID d"] by simp
  qed
  moreover have "moments_apart (ob_sha cfg) st'"
    using record_moments [of "ob_sha cfg" "os_store s" ev rcs] inv r by (simp add: outbox_inv_def)
  ultimately show ?thesis using record_inv [OF n r] more(2) r by (simp add: record_event outbox_inv_def)
next
  case (edit_targets st)
  have "numbered st = numbered (os_store s)" "keeps_order st = keeps_order (os_store s)"
      "flight_ok (s\<lparr>os_store := st\<rparr>) = flight_ok s" "moments_apart (ob_sha cfg) st = moments_apart (ob_sha cfg) (os_store s)"
    by (simp_all add: edit_targets numbered_def keeps_order_def flight_ok_def moments_apart_def)
  then show ?thesis using inv by (simp add: outbox_inv_def edit_targets)
next
  case (claim owner ord now ds st)
  have c: "rows_kept (os_store s) st"
      "d \<in> set ds \<Longrightarrow> \<exists>d0 k. stored s k = Some d0 \<and> same_place d0 d \<and> waits_for_none (stored s) d0" for d
    using claim_rows [OF claim(3) _ _ claim(2) claim(5) [unfolded claim_batch_def]] inv by (auto simp: outbox_inv_def)
  have "flight_ok (s\<lparr>os_store := st, os_flight := os_flight s @ map (\<lambda>d. (owner, d, Making)) ds\<rparr>)"
    unfolding flight_ok_def
  proof (intro allI impI)
    let ?s = "s\<lparr>os_store := st, os_flight := os_flight s @ map (\<lambda>d. (owner, d, Making)) ds\<rparr>"
    fix o1 d ph assume m: "(o1, d, ph) \<in> set (os_flight ?s)"
    show "o1 \<noteq> [] \<and> waits_for_none (stored ?s) d \<and> dl_Seq d \<le> int (length (no_events (os_store ?s) (dl_RunID d)))"
    proof (cases "(o1, d, ph) \<in> set (os_flight s)")
      case True
      have "flight_ok (s\<lparr>os_store := st, os_flight := os_flight s\<rparr>)"
        by (rule flight_ok_kept [OF c(1)]) (use inv in \<open>simp_all add: outbox_inv_def\<close>)
      then have "o1 \<noteq> [] \<and> waits_for_none (no_deliveries st) d \<and> dl_Seq d \<le> int (length (no_events st (dl_RunID d)))"
        using True unfolding flight_ok_def by fastforce
      then show ?thesis by simp
    next
      case False
      then have o1: "o1 = owner" and "d \<in> set ds" using m by auto
      then obtain d0 k where d0: "stored s k = Some d0" "same_place d0 d" "waits_for_none (stored s) d0" using c(2) by blast
      have "dl_Seq d0 \<le> int (length (no_events (os_store s) (dl_RunID d0)))"
        using inv d0(1) by (auto simp: outbox_inv_def numbered_def)
      then show ?thesis using rows_kept_waits [OF c(1) d0(2,3)] d0(2) c(1) claim(2) o1
        by (simp add: same_place_def rows_kept_def)
    qed
  qed
  then show ?thesis using rows_kept_outbox_inv [OF c(1) inv] by (simp add: claim(1))
next
  case (send n owner d read sendf)
  have "(owner, d, Making) \<in> set (os_flight s)" using send(2,3) nth_mem by metis
  moreover have "set ((os_flight s)[n := (owner, d, ph)]) \<subseteq> insert (owner, d, ph) (set (os_flight s))" for ph
    by (rule set_update_subset_insert)
  ultimately show ?thesis using inv by (fastforce simp: send(1) outbox_inv_def flight_ok_def)
next
  case (finish n owner d res stopping now)
  have "(owner, d, Made res) \<in> set (os_flight s)" using finish(2,3) nth_mem by metis
  then have "owner \<noteq> []" using inv by (auto simp: outbox_inv_def flight_ok_def)
  then have k: "rows_kept (os_store s) (snd (record_outcome owner d (outcome_of stopping now d res) (os_store s)))"
    using outcome_rows inv by (auto simp: outbox_inv_def)
  show ?thesis unfolding finish(1)
    by (rule rows_kept_outbox_inv [OF k inv flight_ok_kept [OF k]]) (use inv set_drop_at in \<open>auto simp: outbox_inv_def\<close>)
next
  case (lose n)
  then show ?thesis using inv set_drop_at by (fastforce simp: outbox_inv_def flight_ok_def)
qed

lemma outbox_reach_inv: "outbox_reach cfg s \<Longrightarrow> outbox_inv cfg s"
proof (induction rule: outbox_reach.induct)
  case outbox_start
  show ?case by (simp add: outbox_inv_def numbered_def keeps_order_def flight_ok_def moments_apart_def NewNotifyStore_def)
next
  case (outbox_more s s')
  then show ?case using outbox_step_inv by blast
qed

section \<open>Order\<close>


lemma outbox_step_final:
  assumes "outbox_step cfg s s'" and inv: "outbox_inv cfg s" and d: "stored s k = Some d" "dl_Status d \<noteq> DeliveryPending"
  shows "stored s' k = Some d"
proof -
  have kept: "no_deliveries st' k = Some d" if "rows_kept (os_store s) st'" for st'
    using rows_kept_moves [OF that] d unfolding rows_move_def by fastforce
  show ?thesis using assms(1)
  proof cases
    case (record_event ev rcs)
    have "no_deliveries (snd (RecordEvent (ob_sha cfg) ev rcs (os_store s))) k = Some d"
      using record_cases [of "ob_sha cfg" ev rcs "os_store s"]
      by cases (use d(1) in \<open>simp_all add: fold_queue_keeps\<close>)
    then show ?thesis by (simp add: record_event)
  next
    case (claim owner ord now ds st)
    then show ?thesis using kept claim_rows(1) [OF claim(3) _ _ claim(2) claim(5) [unfolded claim_batch_def]] inv
      by (simp add: outbox_inv_def)
  next
    case (finish n owner d' res stopping now)
    have "(owner, d', Made res) \<in> set (os_flight s)" using finish(2,3) nth_mem by metis
    then have "owner \<noteq> []" using inv by (auto simp: outbox_inv_def flight_ok_def)
    then show ?thesis using kept outcome_rows inv by (simp add: finish(1) outbox_inv_def)
  qed (use d in simp_all)
qed

text \<open>What became of a delivery is settled once. Once a delivery is delivered, skipped or failed for good,
  no outbox, no late answer of a claim that lapsed, and no event recorded again changes its record.\<close>

theorem finished_delivery_is_final:
  assumes "outbox_reach cfg s" and "(outbox_step cfg)\<^sup>*\<^sup>* s s'"
    and "stored s k = Some d" and "dl_Status d \<noteq> DeliveryPending"
  shows "stored s' k = Some d"
proof -
  have "outbox_inv cfg s' \<and> stored s' k = Some d" using assms(2)
  proof (induction rule: rtranclp_induct)
    case base
    then show ?case using outbox_reach_inv [OF assms(1)] assms(3) by simp
  next
    case (step t u)
    then show ?case using outbox_step_inv outbox_step_final assms(4) by blast
  qed
  then show ?thesis by simp
qed

lemma same_end: "event_End b \<Longrightarrow> event_End a \<Longrightarrow> same_moment sha b a"
  by (auto simp: same_moment_def Once_def event_End_def IsEnd_def event_names)

lemma same_hold:
  assumes "ev_Branch a = ev_Branch b" and "ev_Event a = ev_Event b"
    and "ev_Event b = EventApproval \<or> ev_Event b = EventStarted \<and> ev_Branch b = []"
  shows "same_moment sha b a"
  using assms by (auto simp: same_moment_def Once_def event_End_def IsEnd_def event_names)

text \<open>A moment of a run is announced once. The events of a run are numbered from one in the order they
  were recorded, by whichever processes and however often; of its start, its end (success or failure) and
  the hold at one branch there is one each, no two events carry the same key, and one event has at most
  one delivery to a target.\<close>

theorem each_moment_is_recorded_once:
  assumes "outbox_reach cfg s" and "evs = no_events (os_store s) r" and "i < j" and "j < length evs"
  shows "ev_Seq (evs ! i) = int i + 1 \<and> EventKey (ob_sha cfg) (evs ! i) \<noteq> EventKey (ob_sha cfg) (evs ! j) \<and>
    \<not> (event_End (evs ! i) \<and> event_End (evs ! j)) \<and>
    \<not> (ev_Branch (evs ! i) = ev_Branch (evs ! j) \<and> ev_Event (evs ! i) = ev_Event (evs ! j) \<and>
       (ev_Event (evs ! j) = EventApproval \<or> ev_Event (evs ! j) = EventStarted \<and> ev_Branch (evs ! j) = [])) \<and>
    (\<forall>k k' d d'. stored s k = Some d \<and> stored s k' = Some d' \<and> dl_RunID d = dl_RunID d' \<and> dl_Seq d = dl_Seq d' \<and>
       dl_NotificationID d = dl_NotificationID d' \<longrightarrow> k = k')"
proof -
  have inv: "numbered (os_store s)" "moments_apart (ob_sha cfg) (os_store s)"
    using outbox_reach_inv [OF assms(1)] by (simp_all add: outbox_inv_def)
  have apart: "\<not> same_moment (ob_sha cfg) (evs ! j) (evs ! i)" using inv(2) assms(2-4) by (simp add: moments_apart_def)
  have seq: "ev_Seq (evs ! i) = int i + 1" using inv(1) assms(2-4) by (simp add: numbered_def)
  have key: "k = DeliveryKey d" if "stored s k = Some d" for k d using that inv(1) by (simp add: numbered_def)
  have one: "k = k'" if "stored s k = Some d \<and> stored s k' = Some d' \<and> dl_RunID d = dl_RunID d' \<and> dl_Seq d = dl_Seq d' \<and>
       dl_NotificationID d = dl_NotificationID d'" for k k' d d'
    using that key [of k d] key [of k' d'] by (simp add: DeliveryKey_def)
  have "EventKey (ob_sha cfg) (evs ! i) \<noteq> EventKey (ob_sha cfg) (evs ! j)" using apart by (simp add: same_moment_def)
  then show ?thesis using apart seq one same_end same_hold by blast
qed

text \<open>A step whose name holds a line break is not among the steps a stored event follows: the event waits for
  less than it was recorded with.\<close>

lemma line_break_waits_for_less:
  assumes "step = ''a'' @ followsSep @ ''b''"
  shows "Ordered ''c'' [step] step" and "\<not> Ordered ''c'' (DecodeFollows (EncodeFollows [step])) step"
proof -
  show "Ordered ''c'' [step] step" by (simp add: Ordered_def)
  have "\<not> Ordered ''c'' (DecodeFollows (EncodeFollows [''a'' @ followsSep @ ''b''])) (''a'' @ followsSep @ ''b'')" by code_simp
  then show "\<not> Ordered ''c'' (DecodeFollows (EncodeFollows [step])) step" by (simp add: assms)
qed

section \<open>Every delivery is finished\<close>

























section \<open>An execution\<close>

text \<open>A run that starts and succeeds, with one target attached for both, which is deleted before the first
  attempt.\<close>

definition demo_cfg :: outbox_cfg where
  "demo_cfg = \<lparr>ob_marshal = (\<lambda>_. Some ''x''), ob_unmarshal = Inl, ob_text = (\<lambda>_. []), ob_sealer = None,
     ob_maskURL = (\<lambda>_. MaskMarker), ob_sha = (\<lambda>x. x)\<rparr>"

definition demo_event :: "string \<Rightarrow> run_event" where
  "demo_event e = \<lparr>ev_RunID = ''r'', ev_Seq = 0, ev_Event = e, ev_Branch = [], ev_Follows = [], ev_Snapshot = ''x'', ev_CreatedAt = 0\<rparr>"

definition demo_recipient :: recipient where
  "demo_recipient = \<lparr>rc_NotificationID = ''n'', rc_Name = ''n'', rc_Kind = NotifyEmail, rc_Skip = []\<rparr>"

definition demo_stored :: "string \<Rightarrow> int \<Rightarrow> run_event" where
  "demo_stored e n = (demo_event e)\<lparr>ev_Seq := n\<rparr>"

definition demo_row :: "string \<Rightarrow> int \<Rightarrow> delivery" where
  "demo_row e n = newDelivery (demo_stored e n) demo_recipient"

definition demo_store :: notify_store where
  "demo_store = \<lparr>no_targets = Map.empty, no_attachments = Map.empty,
     no_events = (\<lambda>_. [])(''r'' := [demo_stored EventStarted 1, demo_stored EventSuccess 2]),
     no_deliveries = [''n/r/1'' \<mapsto> demo_row EventStarted 1, ''n/r/2'' \<mapsto> demo_row EventSuccess 2]\<rparr>"

lemma demo_keys: "DeliveryKey (demo_row e 1) = ''n/r/1''" "DeliveryKey (demo_row e 2) = ''n/r/2''"
proof -
  have "FormatInt 1 = ''1''" "FormatInt 2 = ''2''" by code_simp+
  then show "DeliveryKey (demo_row e 1) = ''n/r/1''" "DeliveryKey (demo_row e 2) = ''n/r/2''"
    by (simp_all add: DeliveryKey_def demo_row_def demo_recipient_def demo_stored_def demo_event_def)
qed

lemma demo_recorded: "outbox_reach demo_cfg \<lparr>os_store = demo_store, os_flight = []\<rparr>"
proof -
  let ?r = "\<lambda>e st. RecordEvent (\<lambda>x. x) (demo_event e) [demo_recipient] st"
  let ?one = "\<lparr>no_targets = Map.empty, no_attachments = Map.empty, no_events = (\<lambda>_. [])(''r'' := [demo_stored EventStarted 1]),
     no_deliveries = [''n/r/1'' \<mapsto> demo_row EventStarted 1]\<rparr>"
  have f: "DecodeFollows (EncodeFollows []) = []" by code_simp
  have m: "Millis 0 = 0" by (simp add: Millis_def)
  have stored: "(demo_event e)\<lparr>ev_CreatedAt := Millis 0, ev_Seq := n, ev_Follows := DecodeFollows (EncodeFollows [])\<rparr> = demo_stored e n" for e n
    by (simp add: demo_stored_def demo_event_def f m)
  have ev: "ev_RunID (demo_event e) = ''r''" "ev_CreatedAt (demo_event e) = 0" "ev_Follows (demo_event e) = []" for e
    by (simp_all add: demo_event_def)
  have 1: "?r EventStarted NewNotifyStore = (True, ?one)"
    using demo_keys(1) [of EventStarted, unfolded demo_row_def]
    by (simp add: RecordEvent_def Let_def ev stored NewNotifyStore_def queue_def demo_row_def)
  have differ: "\<not> same_moment (\<lambda>x. x) (demo_event EventSuccess) (demo_stored EventStarted 1)" by code_simp
  have 2: "?r EventSuccess ?one = (True, demo_store)"
    using demo_keys(2) [of EventSuccess, unfolded demo_row_def] differ
    by (simp add: RecordEvent_def Let_def ev stored queue_def demo_row_def demo_store_def)
  have sha: "ob_sha demo_cfg = (\<lambda>x. x)" by (simp add: demo_cfg_def)
  from outbox_more [OF outbox_start outbox_step.record_event [of demo_cfg _ "demo_event EventStarted" "[demo_recipient]"]]
  have "outbox_reach demo_cfg \<lparr>os_store = ?one, os_flight = []\<rparr>" by (simp add: sha 1)
  from outbox_more [OF this outbox_step.record_event [of demo_cfg _ "demo_event EventSuccess" "[demo_recipient]"]]
  show ?thesis by (simp add: sha 2)
qed

theorem each_moment_is_recorded_once_witness:
  "ev_Seq (demo_stored EventStarted 1) = 1 \<and>
   EventKey (\<lambda>x. x) (demo_stored EventStarted 1) \<noteq> EventKey (\<lambda>x. x) (demo_stored EventSuccess 2)"
proof -
  have "no_events demo_store ''r'' = [demo_stored EventStarted 1, demo_stored EventSuccess 2]" by (simp add: demo_store_def)
  moreover have "ob_sha demo_cfg = (\<lambda>x. x)" by (simp add: demo_cfg_def)
  ultimately show ?thesis using each_moment_is_recorded_once [OF demo_recorded refl, of 0 1 "''r''"] by simp
qed


text \<open>The first delivery is claimed, fails for good, and the second is claimed behind it.\<close>

definition demo_ord :: "string list" where "demo_ord = [''n/r/1'', ''n/r/2'']"

definition demo_claimed :: notify_store where
  "demo_claimed = snd (claim_batch demo_ord ''o'' 1000000 0 demo_store)"

definition demo_first :: delivery where
  "demo_first = handed demo_ord ''o'' (Millis (1000000 + Minute)) demo_store (demo_row EventStarted 1)"

definition demo_outcome :: "attempt_outcome option" where
  "demo_outcome = outcome_of False 2000000 demo_first
     (deliver demo_cfg (Inl TargetNotFound) (\<lambda>_. SendOk) demo_first (attempt_note demo_first))"

definition demo_failed :: notify_store where
  "demo_failed = snd (record_outcome ''o'' demo_first demo_outcome demo_claimed)"

definition demo_later :: notify_store where
  "demo_later = snd (claim_batch demo_ord ''o'' 3000000 0 demo_failed)"

definition demo_second :: delivery where
  "demo_second = handed demo_ord ''o'' (Millis (3000000 + Minute)) demo_failed (demo_row EventSuccess 2)"

lemma demo_claims:
  "claim_batch demo_ord ''o'' 1000000 0 demo_store = ([demo_first], demo_claimed)"
  "claim_batch demo_ord ''o'' 3000000 0 demo_failed = ([demo_second], demo_later)"
proof -
  have "fst (claim_batch demo_ord ''o'' 1000000 0 demo_store) = [demo_first]"
    "fst (claim_batch demo_ord ''o'' 3000000 0 demo_failed) = [demo_second]" by code_simp+
  then show "claim_batch demo_ord ''o'' 1000000 0 demo_store = ([demo_first], demo_claimed)"
    "claim_batch demo_ord ''o'' 3000000 0 demo_failed = ([demo_second], demo_later)"
    by (simp_all add: demo_claimed_def demo_later_def prod_eq_iff)
qed

lemma demo_rows:
  "map_option dl_Status (no_deliveries demo_failed ''n/r/1'') = Some DeliveryFailed"
  "map_option (\<lambda>e. goes_before e demo_second) (no_deliveries demo_later ''n/r/1'') = Some True"
  by code_simp+

lemma demo_reach:
  "outbox_reach demo_cfg \<lparr>os_store = demo_failed, os_flight = []\<rparr>"
  "outbox_step demo_cfg \<lparr>os_store = demo_failed, os_flight = []\<rparr> \<lparr>os_store = demo_later, os_flight = [(''o'', demo_second, Making)]\<rparr>"
proof -
  have it0: "iterates demo_ord (no_deliveries demo_store)" by (auto simp: iterates_def demo_ord_def demo_store_def)
  have inv0: "numbered demo_store" "keeps_order demo_store"
    using outbox_reach_inv [OF demo_recorded] by (simp_all add: outbox_inv_def)
  have o: "''o'' \<noteq> []" by simp
  have k1: "rows_kept demo_store demo_claimed"
    using claim_rows(1) [OF it0 inv0 o demo_claims(1) [unfolded claim_batch_def]] .
  have k2: "rows_kept demo_claimed demo_failed" unfolding demo_failed_def
    using outcome_rows [OF rows_kept_inv [OF k1 inv0] o] .
  have it2: "iterates demo_ord (no_deliveries demo_failed)" using it0 k1 k2 by (simp add: iterates_def rows_kept_def)
  let ?a = "\<lparr>os_store = demo_store, os_flight = []\<rparr>"
  let ?b = "\<lparr>os_store = demo_claimed, os_flight = [(''o'', demo_first, Making)]\<rparr>"
  let ?res = "deliver demo_cfg (Inl TargetNotFound) (\<lambda>_. SendOk) demo_first (attempt_note demo_first)"
  let ?c = "\<lparr>os_store = demo_claimed, os_flight = [(''o'', demo_first, Made ?res)]\<rparr>"
  have "outbox_step demo_cfg ?a ?b"
    using outbox_step.claim [of "''o''" demo_ord ?a 1000000 "[demo_first]" demo_claimed demo_cfg] it0 demo_claims(1)
    by (simp add: in_flight_def defaultWorkers_def)
  then have b: "outbox_reach demo_cfg ?b" using outbox_more [OF demo_recorded] by blast
  have "outbox_step demo_cfg ?b ?c"
    using outbox_step.send [of 0 ?b "''o''" demo_first demo_cfg "Inl TargetNotFound" "\<lambda>_. SendOk"] by simp
  then have c: "outbox_reach demo_cfg ?c" using outbox_more [OF b] by blast
  have "outbox_step demo_cfg ?c \<lparr>os_store = demo_failed, os_flight = []\<rparr>"
    using outbox_step.finish [of 0 ?c "''o''" demo_first ?res demo_cfg False 2000000]
    by (simp add: drop_at_def demo_failed_def demo_outcome_def)
  then show "outbox_reach demo_cfg \<lparr>os_store = demo_failed, os_flight = []\<rparr>" using outbox_more [OF c] by blast
  show "outbox_step demo_cfg \<lparr>os_store = demo_failed, os_flight = []\<rparr> \<lparr>os_store = demo_later, os_flight = [(''o'', demo_second, Making)]\<rparr>"
    using outbox_step.claim [of "''o''" demo_ord "\<lparr>os_store = demo_failed, os_flight = []\<rparr>" 3000000 "[demo_second]" demo_later demo_cfg]
      it2 demo_claims(2) by (simp add: in_flight_def defaultWorkers_def)
qed


theorem finished_delivery_is_final_witness:
  "\<exists>d. no_deliveries demo_failed ''n/r/1'' = Some d \<and> dl_Status d = DeliveryFailed \<and> no_deliveries demo_later ''n/r/1'' = Some d"
proof -
  obtain d where d: "no_deliveries demo_failed ''n/r/1'' = Some d" "dl_Status d = DeliveryFailed" using demo_rows(1) by auto
  have "stored \<lparr>os_store = demo_failed, os_flight = []\<rparr> ''n/r/1'' = Some d" "dl_Status d \<noteq> DeliveryPending" using d by simp_all
  moreover have "(outbox_step demo_cfg)\<^sup>*\<^sup>* \<lparr>os_store = demo_failed, os_flight = []\<rparr>
      \<lparr>os_store = demo_later, os_flight = [(''o'', demo_second, Making)]\<rparr>"
    using demo_reach(2) by (rule r_into_rtranclp)
  ultimately have "stored \<lparr>os_store = demo_later, os_flight = [(''o'', demo_second, Making)]\<rparr> ''n/r/1'' = Some d"
    using finished_delivery_is_final [OF demo_reach(1)] by blast
  then show ?thesis using d by simp
qed

end
