(* ===== verification/Outbox_Route.thy ===== *)
theory Outbox_Route
  imports Outbox
begin












end
