(* ===== verification/Spec2Isabelle.thy ===== *)
theory Spec2Isabelle
  imports Pipeline_Graph Approval_Closure Run_Options Store_Invariants Store_Keys Store_Sweep
    Audit_Outcome Audit_Anchors Policy_Props Dag_Props Step_Run Grading_Props Template_Props
    Scheduler_Props Recurrence_Props Schedule_Fire Account_Props Authorize_Props Auth_Gate_Props
    Fleet_Names Fleet_Estate Decision_Props Decide_Guard_Props
    Outbox_Props Outbox_Route
begin

text \<open>
  A verification of the core of switchtender, a server that runs automation (Ansible, Terraform,
  OpenTofu, shell, Python, PowerShell, Go) under approval, policy and audit. The sources are
  under \<open>src/internal\<close>; file names below are relative to it.

  The program. A request becomes a run (\<open>run/run.go\<close>), a record with one status that moves from
  pending, or from held for approval, through running to a finished status. Runs live in a store
  (\<open>run/store.go\<close>) every process of the installation shares: servers save and cancel runs,
  executors claim the oldest one they may take and renew a lease on it, people decide held ones,
  a sweep takes back the leases of executors that died, and retention removes what is old. A run
  may be a workflow (\<open>run/pipeline.go\<close>), a graph of steps with approval gates, whose coordinator
  gives up its lease while only a person can move it on (\<open>run/approval.go\<close>). Everything the rest
  of the program does rests on the store's promises about concurrent writes, so that is what the
  development models first.

  How it is modelled. A Go struct is a record with a field per field of the struct, an
  enumeration or error set a datatype, a map a partial function (an association list where its
  text is read), a nil pointer \<^const>\<open>None\<close>, an instant or a duration an \<^typ>\<open>int\<close> of nanoseconds.
  A method of the store holds its lock from its first read to its last write, so it is a function
  from the state to a result and the next state. A loop over a map takes the order it visits the
  keys in as an argument; the operations are steps of a transition system only for orders that
  visit every key once (\<open>iterates\<close>), and the theorems hold for all of them. Readings of the clock
  and minted secrets are arguments. SHA-256 is a parameter, with no assumption about it.

  The theories, in dependency order:

  \<^item> \<open>Prelude\<close>: instants, map orders, and shared lemmas.
  \<^item> \<open>Tool\<close> (\<open>run/run.go\<close>): the built-in execution tools and the registry of others.
  \<^item> \<open>Pipeline\<close> (\<open>run/pipeline.go\<close>, \<open>run/pipeline_validate.go\<close>): steps, the reading of a plain
    sequence as a graph, and validation: \<open>ValidatePipeline\<close>, \<open>validateStepInput\<close>,
    \<open>validatePipelineGraph\<close> with its indexing loop, its edge loops and its topological sort.
    \<open>Pipeline_Graph\<close> proves that validation accepts exactly the well-formed acyclic pipelines, and
    that the sort is a decision procedure for having a topological order.
  \<^item> \<open>GoText\<close> (\<open>util/text.go\<close>): UTF-8 decoding and repair as the standard library does it, and the
    replacement of bytes a text column refuses.
  \<^item> \<open>Run\<close> and \<open>Run_Options\<close> (\<open>run/run.go\<close>, \<open>run/sealed.go\<close>, \<open>run/snapshot.go\<close>,
    \<open>run/initiator.go\<close>, \<open>run/inventoryres.go\<close>): the run record, its statuses and their stored
    forms, every submit option, and the options a rerun, relaunch or shard is derived with, which
    are proved to carry the whole specification and the digests of the original answers.
  \<^item> \<open>Store_Types\<close> (\<open>run/store.go\<close>, \<open>run/sanitize.go\<close>, \<open>run/callback.go\<close>, \<open>run/runauth.go\<close>): the
    values that pass through a store, their checks, and the sanitising before every write, which
    is proved to make any run storable on every backend.
  \<^item> \<open>Approval\<close> (\<open>run/approval.go\<close>): which workflows wait only for a person. \<open>Approval_Closure\<close>
    proves its memoised closure equal to the transitive dependency relation and the rule quiet.
  \<^item> \<open>MemStore\<close> (\<open>run/memstore.go\<close>): the state of the store and its operations on rows;
    \<open>MemLedgers\<close> (\<open>run/memstore_ends.go\<close>, \<open>run/memstore_outcome.go\<close>, \<open>run/memstore_log.go\<close>,
    \<open>run/memstore_auth.go\<close>, \<open>run/budget.go\<close>, \<open>run/secretlease.go\<close>): the rest of its operations.
  \<^item> \<open>Slice_Sort\<close>: sorting by a comparison, with the locale \<open>slice_order\<close> for what any such order promises.
    \<open>Fleet\<close> (\<open>run/memstore_fleet.go\<close>, \<open>run/summary.go\<close>, \<open>run/summaryname.go\<close>, \<open>run/facts_history.go\<close>):
    summaries of hosts and tasks, gathered facts and the views over them. \<open>Fleet_Trim\<close> and \<open>Fleet_Props\<close>
    interpret the orders of the store and prove that the trim of the history changes no view it is tied
    to; \<open>Fleet_Estate\<close> that the estate at an instant is read from the newest reading of each period;
    \<open>Fleet_Names\<close> that stored names are bounded, valid and found again.
  \<^item> \<open>Row_Steps\<close> specifies what may happen to one row, as a relation with the guard of each write;
    \<open>Store_Steps\<close> makes the store a transition system with a step per operation and proves that
    every step refines the row relation. \<open>Store_Props\<close>, \<open>Store_Invariants\<close> and \<open>Store_Keys\<close> then
    prove what no interleaving of operations can break: finished runs are final, a decision is
    exclusive, cancel requests stick, approval bindings are written once, sealed material stays
    wiped, keys and callback lanes are unique, and retention removes only what is over.
    \<open>Store_Sweep\<close> states the loops over all rows as locales, interprets them on the store's loops,
    and proves what the lease sweep and the seal sweep leave behind and report.
  \<^item> \<open>GoFmt\<close>: the printing, hexadecimal and string-splitting functions of the standard library the
    audit trail uses. \<open>Audit_Entry\<close> (\<open>audit/audit.go\<close>, \<open>canonical.go\<close>, \<open>span.go\<close>, \<open>outcomeonce.go\<close>,
    \<open>scan.go\<close>): entries, their escaping, the claim a link commits to, the link, the recorded time,
    beats, outcome paths and the streaming verification. \<open>Audit_Store\<close> (\<open>audit/store.go\<close>,
    \<open>anchor.go\<close>, \<open>attestation.go\<close>): the store of the chain. \<open>Audit_Text\<close> proves the round trips,
    \<open>Audit_Chain\<close> that verification decides integrity, \<open>Audit_Props\<close> and \<open>Audit_Outcome\<close> what
    every chain the store can hold satisfies, \<open>Audit_Tamper\<close> that a head commits to its history.
    The canonical JSON serialiser, a package of its own, is a parameter. \<open>Audit_Tree\<close> (\<open>audit/tree.go\<close>,
    \<open>treefold.go\<close>, \<open>scan.go\<close>, \<open>anchorcheck.go\<close>, \<open>installwidth.go\<close>): the Merkle tree and the check of
    a chain against its anchors. \<open>Audit_Anchors\<close> states the laws of the tree hash as the locale
    \<open>rfc6962\<close>, proves the incremental tree equal to the tree in it, interprets it on the RFC's own
    recursion, and composes the anchors with the chain: an anchored history is kept.
  \<^item> \<open>Policy\<close> (\<open>policy/policy.go\<close>, \<open>engine.go\<close>, \<open>agentdefault.go\<close>, \<open>account.go\<close>, \<open>rego.go\<close>): approval
    rules, what they match, the built-in hold on agents' runs and the community rule engine.
    \<open>Policy_Gate\<close> (\<open>dispatch/policies.go\<close>): the checks every submission passes. \<open>Policy_Props\<close> states
    what the gate needs of an engine as the locale \<open>rule_engine\<close>, interprets it on the community
    engine, and proves that agents' runs wait, that workflows are gated as their steps, that the
    engine fails closed and that the order of the rules decides nothing.
  \<^item> \<open>Dag_Walk\<close> (\<open>dispatch/dag.go\<close>, \<open>dispatch/dispatch_split.go\<close>): the walk of a workflow's graph by
    one coordinator, with the world it asks (stop signal, store, chain, binding verifier) as an
    environment whose answers are indexed by a clock, and its loop as a relation with an event per
    turn. \<open>Dag_Spec\<close> is the abstract machine over the edges of the graph, with its invariants;
    \<open>Dag_Sim\<close> proves that the walk implements it (the locale \<open>simulation\<close>, interpreted on the walk);
    \<open>Dag_Props\<close> proves that a step starts only when its edges let it, that a workflow recorded as
    succeeded did what its graph asked, and that walks end. \<open>Step_Run\<close>: the run a step becomes, its
    attempts, and sequences without edges.
  \<^item> \<open>GoStrings\<close>: white space, trimming and fields over the runes of a byte string. \<open>Grading\<close>
    (\<open>run/risk.go\<close>, \<open>reversibility.go\<close>, \<open>dryrunscan.go\<close>, \<open>narrow.go\<close>): the risk and reversibility of a
    run. \<open>Grading_Props\<close> proves that the two grades agree on what a run declares, shows where they do
    not, and that an accepted limit narrows a launch. \<open>Dedupe\<close> (\<open>run/dedupe.go\<close>): idempotency keys,
    which are proved apart for clients, repeats and occurrences.
  \<^item> \<open>Template\<close> (\<open>template/template.go\<close>, \<open>store.go\<close>, \<open>awx.go\<close>, \<open>awxclaim.go\<close>, \<open>callback.go\<close>): job
    templates, their surveys and their bindings. \<open>Template_Props\<close> proves that a survey resolves to
    exactly its checked answers and defaults with secrets apart, that a masked survey saves back, and
    that a claim of AWX ids takes all or none.
  \<^item> \<open>Schedule_Store\<close> (\<open>schedule/store.go\<close>): the rows of schedules and their claims; \<open>Schedule_Claims\<close>
    proves claims exclusive and unsettled occurrences taken up. \<open>Scheduler\<close> (\<open>schedule/scheduler.go\<close>,
    \<open>inflight.go\<close>, \<open>skip.go\<close>): what a tick does, cut into tasks of one write each, so that any number
    of servers interleave and stop between any two writes; \<open>Scheduler_Props\<close> proves that a claimed
    occurrence is kept until it is accounted for and creates one run, and shows the two ways the code
    can end one without a record.
  \<^item> \<open>Zone_Time\<close> and \<open>Zone_Props\<close> (\<open>schedule/springforward.go\<close>, \<open>rrule.go\<close>): offset periods, the
    placing of wall clock readings on both daylight-saving nights, the search for a jump.
    \<open>Recurrence\<close>, \<open>Recurrence_Parse\<close> and \<open>Recurrence_Props\<close> (\<open>schedule/rrule.go\<close>): recurrence text,
    its bounds, and the next instant, proved equal to the least one of the set the rules describe.
    \<open>Schedule_Fire\<close> (\<open>schedule/schedule.go\<close>, \<open>springforward.go\<close>): the next fire of a schedule, proved
    later than the tick and never the second reading of a time already fired. The cron and rule
    libraries and the zone database are parameters.
  \<^item> \<open>Accounts\<close> (\<open>user/\<close>, \<open>team/\<close>, \<open>org/\<close>, \<open>auth/\<close>, \<open>grant/\<close>): accounts, teams, organizations, tokens and
    grants, with their stores. \<open>Account_Props\<close> proves that an administrator always remains.
    \<open>Authorize\<close> (\<open>server/authorize.go\<close>, \<open>server/visibility.go\<close>): who may read, use and manage what, on one
    object and in listings. \<open>Authorize_Props\<close> states what the decision needs of a reader of grants as
    the locale \<open>grant_reading\<close>, interprets it on the store of grants, and proves that one rule decides
    access, that a listing holds exactly what a fetch would answer, and that rows derived from a run
    follow the run. \<open>Auth_Gate\<close> (\<open>server/authmw.go\<close>): the gate every request passes; \<open>Auth_Gate_Props\<close>
    proves that what it serves was authenticated, authorized and recorded, and that an install that
    has authenticated once never runs open again.

  \<^item> \<open>Decision\<close> (\<open>decision/decision.go\<close>, \<open>store.go\<close>, \<open>paths.go\<close>): the record of a decision, its reason in
    canonical form and the commitment that hides it. \<open>Decision_Props\<close> proves that the canonical form is
    a fixed point, that a redaction is permanent and that a commitment opens to one reason. \<open>Decide\<close>
    (\<open>dispatch/decide.go\<close>, \<open>binding/seal.go\<close>, \<open>outcome/credit.go\<close>): how a decision takes effect, cut into
    tasks of one call to a store each, where any call may fail or land with its answer lost.
    \<open>Decide_Reach\<close> lets any number of deciders and janitors take those steps, die, and interleave with
    the rest of the server, whose own writes to the run store are \<open>quiet\<close>: they leave the decision of a
    row alone, which \<open>store_step_quiet\<close> shows of the store's operations. \<open>Decide_Safety\<close> holds the
    invariant; \<open>Decide_Finish\<close> proves that a settled decision is on the chain, that a losing one never
    is, that a janitor finishes a claimed one, and that what it released is started once, and shows the
    failure under which it is not. Ids of decisions are minted at random, so a new one is taken to be
    unused. \<open>Decide_Guards\<close> (\<open>dispatch/approvals.go\<close>, \<open>approvals_step.go\<close>, \<open>reasons.go\<close>): who may decide a
    run or a step, and the claim that makes; \<open>Decide_Guard_Props\<close> proves an approval authorised, and that
    a stored claim reads back as it was made.

  \<^item> \<open>Notify\<close> (\<open>notification/notification.go\<close>, \<open>skip.go\<close>): named notification targets, their sealed secrets
    and what they are attached to. \<open>Notify_Store\<close> (\<open>notification/delivery.go\<close>, \<open>store.go\<close>): the events of
    a run, the deliveries they queue, and the store that leases them. \<open>Outbox\<close> (\<open>notification/router.go\<close>,
    \<open>outbox.go\<close>): whom an event is recorded for, its recording with retries, and an attempt.
    \<open>Outbox_Steps\<close> lets any number of outboxes claim, attempt, record and stop beside each other;
    \<open>Outbox_Props\<close> proves that no message overtakes an earlier one, that a moment is recorded once, that
    a finished delivery is final, and that late enough passes finish every delivery; \<open>Outbox_Route\<close> that
    an event is recorded for every attached target once.

  Bounds and fuel. \<open>build\<close> (the memoised closure) takes the number of steps as its fuel, which
  \<open>stepClosures_transitive\<close> shows to be enough; the ticket-bounding loops take one turn per stored
  ticket and one more; \<open>zone_walk\<close>, \<open>scan_rule\<close> and \<open>skip_repeats\<close> count down the bounds the code sets
  itself; every other loop is structural or has a termination proof. Integers are unbounded where the
  code's never leave the machine range; \<open>boundInt32\<close> and the fast-forward of a recurrence, which
  wraps, are the exceptions.

  Not modelled. The SQL stores keep the same contract in statements a database executes; the handlers
  of the HTTP server, process execution, delivery, importers and inventory plugins are I/O around the core.
  \<open>Clone\<close> and the JSON columns copy values and change none. The playbook scan reads project files, so
  what it finds is an input of the graders. The bodies of outcomes and receipts are documents assembled
  for other parties; their digests, the seals of rows and the masker of secrets are inputs of the
  decisions. Corrections and redactions on the chain, parking and resuming a workflow, and starting the
  coordinator of a split are not modelled.
\<close>

end
